(* ===== verification/OA_Prelude.thy ===== *)
theory OA_Prelude
  imports Complex_Main "HOL-Library.Word"
begin

text \<open>
  Shared vocabulary of the OpenAccounting development: identifiers, decimal amounts,
  calendar dates, JSON values, results of fallible code and of database transactions, the
  parts of Rust's \<^verbatim>\<open>str\<close> and \<^verbatim>\<open>format!\<close> the sources use, and the library lemmas every
  component relies on.

  Values. A \<^verbatim>\<open>rust_decimal::Decimal\<close> denotes a rational number; addition, subtraction,
  multiplication and comparison are the exact operations on it (the crate is exact while the
  result fits its 96-bit mantissa; its overflow panic is outside the model).  What the crate
  rounds (division and the two rounding functions) is a parameter, a field of \<open>env\<close>, like
  every other third-party operation: random identifiers, the clock, SHA-256 and the JSON
  printer.  A \<^verbatim>\<open>String\<close> is the list of its characters, restricted to code points below 256.

  Proof collections.  \<open>result_simps\<close> inverts the result combinators, \<open>frame\<close> collects
  which tables an operation leaves alone.
\<close>

named_theorems result_simps \<open>inversion of the result combinators\<close>
named_theorems frame \<open>tables an operation leaves unchanged\<close>

type_synonym uuid = nat
type_synonym decimal = rat
type_synonym byte = "8 word"

section \<open>Results and database transactions\<close>

text \<open>A Rust \<^verbatim>\<open>Result<T, E>\<close> is a value of \<open>'e + 'a\<close>; the question mark operator is \<open>rbind\<close>.\<close>

fun rbind :: "'e + 'a \<Rightarrow> ('a \<Rightarrow> 'e + 'b) \<Rightarrow> 'e + 'b" where
  "rbind (Inl e) f = Inl e"
| "rbind (Inr x) f = f x"

text \<open>Evaluation takes the case distinction first and leaves the continuation alone until it is needed.\<close>

lemma rbind_case [code_unfold]: "rbind r f = (case r of Inl e \<Rightarrow> Inl e | Inr x \<Rightarrow> f x)"
  by (cases r) simp_all

definition map_err :: "('e \<Rightarrow> 'f) \<Rightarrow> 'e + 'a \<Rightarrow> 'f + 'a" where
  "map_err h r = (case r of Inl e \<Rightarrow> Inl (h e) | Inr x \<Rightarrow> Inr x)"

definition ok_or :: "'e \<Rightarrow> 'a option \<Rightarrow> 'e + 'a" where
  "ok_or e r = (case r of None \<Rightarrow> Inl e | Some x \<Rightarrow> Inr x)"

text \<open>A \<^verbatim>\<open>for\<close> loop whose body may leave the function early with an error.\<close>

fun try_fold :: "('s \<Rightarrow> 'x \<Rightarrow> 'e + 's) \<Rightarrow> 's \<Rightarrow> 'x list \<Rightarrow> 'e + 's" where
  "try_fold f s [] = Inr s"
| "try_fold f s (x # xs) = rbind (f s x) (\<lambda>s'. try_fold f s' xs)"

text \<open>
  The body of a database transaction maps the state at \<^verbatim>\<open>BEGIN\<close> to an error or to a result
  with the state at \<^verbatim>\<open>COMMIT\<close>.  Leaving the body with an error drops the transaction, which
  rolls it back.
\<close>

type_synonym ('s, 'e, 'a) tx = "'s \<Rightarrow> 'e + 'a \<times> 's"

definition run_tx :: "('s, 'e, 'a) tx \<Rightarrow> 's \<Rightarrow> ('e + 'a) \<times> 's" where
  "run_tx body s = (case body s of Inl e \<Rightarrow> (Inl e, s) | Inr (x, s') \<Rightarrow> (Inr x, s'))"

lemma rbind_eq_Inr [result_simps]: "rbind r f = Inr y \<longleftrightarrow> (\<exists>x. r = Inr x \<and> f x = Inr y)"
  by (cases r) auto

lemma rbind_eq_Inl [result_simps]:
  "rbind r f = Inl e \<longleftrightarrow> r = Inl e \<or> (\<exists>x. r = Inr x \<and> f x = Inl e)"
  by (cases r) auto

lemma rbind_assoc: "rbind (rbind r f) g = rbind r (\<lambda>x. rbind (f x) g)"
  by (cases r) auto

lemma map_err_eq_Inr [result_simps]: "map_err h r = Inr y \<longleftrightarrow> r = Inr y"
  by (cases r) (auto simp: map_err_def)

lemma map_err_eq_Inl [result_simps]: "map_err h r = Inl e \<longleftrightarrow> (\<exists>d. r = Inl d \<and> e = h d)"
  by (cases r) (auto simp: map_err_def)

lemma ok_or_eq_Inr [result_simps]: "ok_or e r = Inr y \<longleftrightarrow> r = Some y"
  by (cases r) (auto simp: ok_or_def)

lemma ok_or_eq_Inl [result_simps]: "ok_or e r = Inl d \<longleftrightarrow> r = None \<and> d = e"
  by (cases r) (auto simp: ok_or_def)

lemma map_err_simps [simp]: "map_err h (Inl e) = Inl (h e)" "map_err h (Inr x) = Inr x"
  by (simp_all add: map_err_def)

lemma ok_or_simps [simp]: "ok_or e None = Inl e" "ok_or e (Some x) = Inr x"
  by (simp_all add: ok_or_def)

text \<open>A property of the loop state kept by every step is kept by the loop.\<close>

lemma try_fold_invariant:
  assumes "try_fold f s xs = Inr s'" and "P s"
    and step: "\<And>s x s'. x \<in> set xs \<Longrightarrow> P s \<Longrightarrow> f s x = Inr s' \<Longrightarrow> P s'"
  shows "P s'"
  using assms
proof (induction xs arbitrary: s)
  case Nil
  then show ?case by simp
next
  case (Cons x xs)
  from Cons.prems(1) obtain t where t: "f s x = Inr t" "try_fold f t xs = Inr s'"
    by (auto simp: result_simps)
  have "P t" using Cons.prems(2) t(1) by (rule Cons.prems(3) [rotated 1]) simp
  then show ?case
    by (rule Cons.IH [OF t(2)]) (auto intro: Cons.prems(3))
qed

lemma try_fold_append:
  "try_fold f s (xs @ ys) = rbind (try_fold f s xs) (\<lambda>s'. try_fold f s' ys)"
  by (induction xs arbitrary: s) (auto simp: rbind_assoc)

lemma run_tx_Inl: "fst (run_tx body s) = Inl e \<Longrightarrow> snd (run_tx body s) = s"
  by (auto simp: run_tx_def split: sum.splits prod.splits)

lemma run_tx_eq_Inr [result_simps]: "run_tx body s = (Inr x, s') \<longleftrightarrow> body s = Inr (x, s')"
  by (auto simp: run_tx_def split: sum.splits prod.splits)

lemma run_tx_eq_Inl [result_simps]: "run_tx body s = (Inl e, s') \<longleftrightarrow> body s = Inl e \<and> s' = s"
  by (auto simp: run_tx_def split: sum.splits prod.splits)

section \<open>Machine integers\<close>

text \<open>The wrap-around of \<^verbatim>\<open>i32\<close> and \<^verbatim>\<open>i64\<close> arithmetic in a release build.\<close>

definition i32_wrap :: "int \<Rightarrow> int" where
  "i32_wrap i = (i + 2 ^ 31) mod 2 ^ 32 - 2 ^ 31"

definition i64_wrap :: "int \<Rightarrow> int" where
  "i64_wrap i = (i + 2 ^ 63) mod 2 ^ 64 - 2 ^ 63"

lemma i32_wrap_id: "- (2 ^ 31) \<le> i \<Longrightarrow> i < 2 ^ 31 \<Longrightarrow> i32_wrap i = i"
  by (simp add: i32_wrap_def)

section \<open>Command sequences\<close>

text \<open>
  A component as a system of commands: \<open>exec\<close> runs one command on the state, and the commands that
  satisfy \<open>ok\<close> keep the invariant.  What holds of one such command then holds of every sequence of
  them.
\<close>

locale command_system =
  fixes exec :: "'c \<Rightarrow> 's \<Rightarrow> 's" and ok :: "'c \<Rightarrow> bool" and inv :: "'s \<Rightarrow> bool"
  assumes exec_inv: "ok c \<Longrightarrow> inv s \<Longrightarrow> inv (exec c s)"
begin

inductive reachable :: "'s \<Rightarrow> 's \<Rightarrow> bool" for s0 :: 's where
  start: "reachable s0 s0"
| step: "reachable s0 s \<Longrightarrow> ok c \<Longrightarrow> reachable s0 (exec c s)"

lemma reachable_inv: "reachable s0 s \<Longrightarrow> inv s0 \<Longrightarrow> inv s"
  by (induction rule: reachable.induct) (auto intro: exec_inv)

lemma run_reachable:
  "reachable s0 s \<Longrightarrow> list_all ok cs \<Longrightarrow> reachable s0 (fold exec cs s)"
  by (induction cs arbitrary: s) (auto intro: reachable.step)

lemma run_inv: "inv s \<Longrightarrow> list_all ok cs \<Longrightarrow> inv (fold exec cs s)"
  by (blast intro: reachable_inv run_reachable reachable.start)

end

section \<open>Keys of table rows\<close>

lemma list_ex_key: "list_ex (\<lambda>x. f x = i) xs \<longleftrightarrow> i \<in> f ` set xs"
  by (auto simp: list_ex_iff)

lemma list_ex_key2: "list_ex (\<lambda>x. f x = i \<and> g x = j) xs \<longleftrightarrow> (i, j) \<in> (\<lambda>x. (f x, g x)) ` set xs"
  by (auto simp: list_ex_iff)

lemma notin_imageD: "i \<notin> f ` S \<Longrightarrow> x \<in> S \<Longrightarrow> f x \<noteq> i"
  by blast

lemma find_Some_mem: "find P xs = Some x \<Longrightarrow> x \<in> set xs \<and> P x"
  by (auto simp: find_Some_iff)

lemma find_append_None: "find P xs = None \<Longrightarrow> find P (xs @ ys) = find P ys"
  by (induction xs) (auto split: if_splits)

text \<open>A row that sorts after all others ends up last.\<close>

lemma insort_key_snoc: "f y \<le> f x \<Longrightarrow> insort_key f y (zs @ [x]) = insort_key f y zs @ [x]"
  by (induction zs) auto

lemma sort_key_snoc:
  "(\<And>y. y \<in> set xs \<Longrightarrow> f y \<le> f x) \<Longrightarrow> sort_key f (xs @ [x]) = sort_key f xs @ [x]"
  by (induction xs) (auto simp: insort_key_snoc)

text \<open>A total is the sum of the totals of its groups.\<close>

lemma sum_list_group:
  assumes "finite A" and "g ` set xs \<subseteq> A"
  shows "sum_list (map f xs) = (\<Sum>i\<in>A. sum_list (map f (filter (\<lambda>x. g x = i) xs)) :: 'b :: comm_monoid_add)"
  using assms(2)
proof (induction xs)
  case Nil
  then show ?case by simp
next
  case (Cons x xs)
  have "sum_list (map f (filter (\<lambda>y. g y = i) (x # xs)))
      = (if g x = i then f x else 0) + sum_list (map f (filter (\<lambda>y. g y = i) xs))" for i
    by simp
  then have "(\<Sum>i\<in>A. sum_list (map f (filter (\<lambda>y. g y = i) (x # xs))))
      = (\<Sum>i\<in>A. if g x = i then f x else 0) + (\<Sum>i\<in>A. sum_list (map f (filter (\<lambda>y. g y = i) xs)))"
    by (simp add: sum.distrib)
  also have "(\<Sum>i\<in>A. if g x = i then f x else 0) = f x" using Cons.prems assms(1) by simp
  finally show ?case using Cons by simp
qed

section \<open>Calendar dates\<close>

text \<open>\<^verbatim>\<open>chrono::NaiveDate\<close>: a date of the proleptic Gregorian calendar, ordered by year, month, day.\<close>

datatype date = Date (date_year: int) (date_month: nat) (date_day: nat)

instantiation date :: linorder
begin

definition less_eq_date :: "date \<Rightarrow> date \<Rightarrow> bool" where
  "less_eq_date a b \<longleftrightarrow>
     date_year a < date_year b
   \<or> date_year a = date_year b \<and> (date_month a < date_month b
       \<or> date_month a = date_month b \<and> date_day a \<le> date_day b)"

definition less_date :: "date \<Rightarrow> date \<Rightarrow> bool" where
  "less_date a b \<longleftrightarrow> a \<le> b \<and> \<not> b \<le> (a :: date)"

instance
proof
  fix x y z :: date
  show "(x < y) = (x \<le> y \<and> \<not> y \<le> x)" by (simp add: less_date_def)
  show "x \<le> x" by (simp add: less_eq_date_def)
  show "x \<le> y \<Longrightarrow> y \<le> z \<Longrightarrow> x \<le> z" by (auto simp: less_eq_date_def)
  show "x \<le> y \<Longrightarrow> y \<le> x \<Longrightarrow> x = y"
    by (cases x; cases y) (auto simp: less_eq_date_def)
  show "x \<le> y \<or> y \<le> x" by (auto simp: less_eq_date_def)
qed

end

definition is_leap :: "int \<Rightarrow> bool" where
  "is_leap y \<longleftrightarrow> y mod 4 = 0 \<and> (y mod 100 \<noteq> 0 \<or> y mod 400 = 0)"

definition month_len :: "int \<Rightarrow> nat \<Rightarrow> nat" where
  "month_len y m =
     (if m = 2 then (if is_leap y then 29 else 28)
      else if m = 4 \<or> m = 6 \<or> m = 9 \<or> m = 11 then 30 else 31)"

definition valid_date :: "date \<Rightarrow> bool" where
  "valid_date d \<longleftrightarrow>
     -262143 \<le> date_year d \<and> date_year d \<le> 262142
   \<and> 1 \<le> date_month d \<and> date_month d \<le> 12
   \<and> 1 \<le> date_day d \<and> date_day d \<le> month_len (date_year d) (date_month d)"

text \<open>\<^verbatim>\<open>NaiveDate::from_ymd_opt\<close>: \<open>None\<close> for a date that does not exist or is out of range.\<close>

definition from_ymd_opt :: "int \<Rightarrow> nat \<Rightarrow> nat \<Rightarrow> date option" where
  "from_ymd_opt y m d = (if valid_date (Date y m d) then Some (Date y m d) else None)"

lemma less_eq_date_simps [simp]:
  "Date y m d \<le> Date y' m' d' \<longleftrightarrow> y < y' \<or> y = y' \<and> (m < m' \<or> m = m' \<and> d \<le> d')"
  by (simp add: less_eq_date_def)

lemma less_date_simps [simp]:
  "Date y m d < Date y' m' d' \<longleftrightarrow> y < y' \<or> y = y' \<and> (m < m' \<or> m = m' \<and> d < d')"
  by (auto simp: less_date_def)

lemma date_year_mono: "a \<le> b \<Longrightarrow> date_year a \<le> date_year b"
  by (auto simp: less_eq_date_def)

lemma valid_date_le_year_end:
  "valid_date d \<Longrightarrow> date_year d \<le> y \<Longrightarrow> d \<le> Date y 12 31"
  by (auto simp: valid_date_def less_eq_date_def month_len_def split: if_splits)

lemma from_ymd_opt_SomeD: "from_ymd_opt y m d = Some r \<Longrightarrow> r = Date y m d \<and> valid_date r"
  by (auto simp: from_ymd_opt_def split: if_splits)

end
