(* ===== verification/Rust_Text.thy ===== *)
theory Rust_Text
  imports OA_Prelude
begin

text \<open>
  The string operations of the Rust standard library the sources use: \<^verbatim>\<open>str::trim\<close>,
  \<^verbatim>\<open>split\<close>, case mapping, \<^verbatim>\<open>format!\<close> of integers with and without zero padding,
  \<^verbatim>\<open>parse::<i32>()\<close>, UTF-8 encoding, \<^verbatim>\<open>to_le_bytes\<close>, and the enum \<open>\<leftrightarrow>\<close> string codecs
  (\<^verbatim>\<open>as_str\<close> with \<^verbatim>\<open>from_db\<close> or \<^verbatim>\<open>parse\<close>) as a locale that every such pair interprets.
\<close>

section \<open>Trimming, splitting, case\<close>

definition is_ws :: "char \<Rightarrow> bool" where
  "is_ws c \<longleftrightarrow> (let n = of_char c :: nat in (9 \<le> n \<and> n \<le> 13) \<or> n = 32 \<or> n = 133 \<or> n = 160)"

definition trim :: "string \<Rightarrow> string" where
  "trim s = rev (dropWhile is_ws (rev (dropWhile is_ws s)))"

text \<open>\<^verbatim>\<open>s.split(c)\<close> always yields at least one piece.\<close>

fun split_on :: "char \<Rightarrow> string \<Rightarrow> string list" where
  "split_on c [] = [[]]"
| "split_on c (x # xs) =
     (if x = c then [] # split_on c xs
      else (case split_on c xs of [] \<Rightarrow> [[x]] | p # ps \<Rightarrow> (x # p) # ps))"

definition ascii_upper :: "char \<Rightarrow> bool" where
  "ascii_upper c \<longleftrightarrow> (let n = of_char c :: nat in 65 \<le> n \<and> n \<le> 90)"

definition ascii_lower_char :: "char \<Rightarrow> char" where
  "ascii_lower_char c = (if ascii_upper c then char_of (of_char c + 32 :: nat) else c)"

definition to_ascii_lower :: "string \<Rightarrow> string" where
  "to_ascii_lower s = map ascii_lower_char s"

definition eq_ignore_ascii_case :: "string \<Rightarrow> string \<Rightarrow> bool" where
  "eq_ignore_ascii_case a b \<longleftrightarrow> to_ascii_lower a = to_ascii_lower b"

text \<open>
  \<^verbatim>\<open>to_lowercase\<close> on code points below 256: the ASCII capitals and the Latin-1 capitals, which
  exclude the multiplication sign.
\<close>

definition lower_char :: "char \<Rightarrow> char" where
  "lower_char c =
     (let n = of_char c :: nat in
      if (65 \<le> n \<and> n \<le> 90) \<or> (192 \<le> n \<and> n \<le> 222 \<and> n \<noteq> 215) then char_of (n + 32) else c)"

definition to_lowercase :: "string \<Rightarrow> string" where
  "to_lowercase s = map lower_char s"

text \<open>
  \<^verbatim>\<open>to_uppercase\<close>: sharp s becomes two letters; the micro sign and y with diaeresis, whose capitals lie
  above 255, are kept (all four take two bytes each).
\<close>

definition upper_char :: "char \<Rightarrow> string" where
  "upper_char c =
     (let n = of_char c :: nat in
      if n = 223 then ''SS''
      else if (97 \<le> n \<and> n \<le> 122) \<or> (224 \<le> n \<and> n \<le> 254 \<and> n \<noteq> 247) then [char_of (n - 32)] else [c])"

definition to_uppercase :: "string \<Rightarrow> string" where
  "to_uppercase s = concat (map upper_char s)"

fun contains_str :: "string \<Rightarrow> string \<Rightarrow> bool" where
  "contains_str needle [] \<longleftrightarrow> needle = []"
| "contains_str needle (c # cs) \<longleftrightarrow> take (length needle) (c # cs) = needle \<or> contains_str needle cs"

definition strip_prefix :: "string \<Rightarrow> string \<Rightarrow> string option" where
  "strip_prefix p s = (if take (length p) s = p then Some (drop (length p) s) else None)"

section \<open>Printing and reading integers\<close>

definition digit_char :: "nat \<Rightarrow> char" where
  "digit_char d = char_of (48 + d)"

fun show_nat :: "nat \<Rightarrow> string" where
  "show_nat n = (if n < 10 then [digit_char n] else show_nat (n div 10) @ [digit_char (n mod 10)])"

declare show_nat.simps [simp del]

definition show_int :: "int \<Rightarrow> string" where
  "show_int i = (if i < 0 then ''-'' @ show_nat (nat (- i)) else show_nat (nat i))"

text \<open>\<^verbatim>\<open>{:0w}\<close>: zeros between the sign and the digits up to the width.\<close>

definition show_int_pad :: "nat \<Rightarrow> int \<Rightarrow> string" where
  "show_int_pad w i =
     (let ds = show_nat (nat \<bar>i\<bar>); sg = (if i < 0 then ''-'' else [])
      in sg @ replicate (w - length sg - length ds) (CHR ''0'') @ ds)"

text \<open>\<^verbatim>\<open>NaiveDate\<close>'s \<^verbatim>\<open>Display\<close>: a year of more than four digits or before year zero carries its sign.\<close>

definition show_date :: "date \<Rightarrow> string" where
  "show_date d =
     (let y = date_year d in
      if 0 \<le> y \<and> y \<le> 9999 then show_int_pad 4 y
      else if y < 0 then show_int_pad 5 y else ''+'' @ show_int_pad 4 y)
     @ ''-'' @ show_int_pad 2 (int (date_month d)) @ ''-'' @ show_int_pad 2 (int (date_day d))"

definition is_digit :: "char \<Rightarrow> bool" where
  "is_digit c \<longleftrightarrow> (let n = of_char c :: nat in 48 \<le> n \<and> n \<le> 57)"

definition digit_val :: "char \<Rightarrow> nat" where
  "digit_val c = of_char c - 48"

definition digits_val :: "string \<Rightarrow> nat" where
  "digits_val s = foldl (\<lambda>a c. 10 * a + digit_val c) 0 s"

text \<open>
  \<^verbatim>\<open>str::parse::<i32>()\<close>: an optional sign, at least one digit, nothing else, in range.
\<close>

definition parse_i32 :: "string \<Rightarrow> int option" where
  "parse_i32 s =
     (let (neg, ds) = (case s of [] \<Rightarrow> (False, [])
                       | c # cs \<Rightarrow> if c = CHR ''-'' then (True, cs)
                                  else if c = CHR ''+'' then (False, cs) else (False, s));
          v = (if neg then - int (digits_val ds) else int (digits_val ds))
      in if ds \<noteq> [] \<and> list_all is_digit ds \<and> - (2 ^ 31) \<le> v \<and> v < 2 ^ 31 then Some v else None)"

lemma split_on_nonempty [simp]: "split_on c s \<noteq> []"
  by (induction s) (auto split: list.split)

lemma split_on_no_sep: "c \<notin> set s \<Longrightarrow> split_on c s = [s]"
  by (induction s) auto

lemma split_on_append_sep: "split_on c (a @ c # b) = split_on c a @ split_on c b"
  by (induction a) (auto split: list.split)

lemma digit_char_digit: "d < 10 \<Longrightarrow> is_digit (digit_char d) \<and> digit_val (digit_char d) = d"
  by (simp add: is_digit_def digit_val_def digit_char_def)

lemma show_nat_digits: "list_all is_digit (show_nat n)"
proof (induction n rule: show_nat.induct)
  case (1 n)
  then show ?case by (subst show_nat.simps) (auto simp: digit_char_digit)
qed

lemma show_nat_nonempty [simp]: "show_nat n \<noteq> []"
  by (subst show_nat.simps) simp

lemma digits_val_snoc: "digits_val (s @ [c]) = 10 * digits_val s + digit_val c"
  by (simp add: digits_val_def)

lemma digits_val_show_nat [simp]: "digits_val (show_nat n) = n"
proof (induction n rule: show_nat.induct)
  case (1 n)
  show ?case
  proof (cases "n < 10")
    case True
    then show ?thesis
      by (subst show_nat.simps) (simp add: digits_val_def digit_char_digit)
  next
    case False
    with "1.IH" have "digits_val (show_nat (n div 10)) = n div 10" by simp
    with False show ?thesis
      by (subst show_nat.simps) (simp add: digits_val_snoc digit_char_digit)
  qed
qed

lemma show_nat_inj [simp]: "show_nat m = show_nat n \<longleftrightarrow> m = n"
  by (metis digits_val_show_nat)

lemma digits_val_zeros: "digits_val (replicate k (CHR ''0'') @ s) = digits_val s"
  by (induction k) (auto simp: digits_val_def digit_val_def)

lemma digit_not_sign: "is_digit c \<Longrightarrow> c \<noteq> CHR ''-'' \<and> c \<noteq> CHR ''+''"
  by (auto simp: is_digit_def)

lemma parse_i32_digits:
  assumes "ds \<noteq> []" and "list_all is_digit ds" and "digits_val ds < 2 ^ 31"
  shows "parse_i32 ds = Some (int (digits_val ds))"
proof -
  obtain c cs where ds: "ds = c # cs" using assms(1) by (cases ds) auto
  with assms(2) have "c \<noteq> CHR ''-''" "c \<noteq> CHR ''+''" using digit_not_sign by auto
  with assms ds show ?thesis by (simp add: parse_i32_def)
qed

lemma show_int_pad_nat:
  "show_int_pad w (int n) = replicate (w - length (show_nat n)) (CHR ''0'') @ show_nat n"
  by (simp add: show_int_pad_def Let_def)

text \<open>A non-negative number printed with zero padding reads back as itself.\<close>

lemma parse_show_int_pad:
  assumes "n < 2 ^ 31"
  shows "parse_i32 (show_int_pad w (int n)) = Some (int n)"
proof -
  have digits: "list_all is_digit (replicate k (CHR ''0''))" for k
    by (auto simp: list_all_iff is_digit_def)
  show ?thesis
    using assms parse_i32_digits [of "show_int_pad w (int n)"]
    by (simp add: show_int_pad_nat digits_val_zeros digits show_nat_digits)
qed

lemma show_int_pad_inj: "show_int_pad w (int m) = show_int_pad w (int n) \<longleftrightarrow> m = n"
proof
  assume "show_int_pad w (int m) = show_int_pad w (int n)"
  then have "digits_val (show_int_pad w (int m)) = digits_val (show_int_pad w (int n))"
    by simp
  then show "m = n" by (simp add: show_int_pad_nat digits_val_zeros)
qed simp

lemma is_digit_dash: "\<not> is_digit (CHR ''-'')"
  by (simp add: is_digit_def)

lemma trim_no_ws_ends: "trim s = [] \<or> \<not> is_ws (hd (trim s)) \<and> \<not> is_ws (last (trim s))"
proof -
  let ?t = "dropWhile is_ws s"
  show ?thesis
  proof (cases "dropWhile is_ws (rev ?t) = []")
    case True
    then show ?thesis by (simp add: trim_def)
  next
    case False
    then have l: "\<not> is_ws (last (trim s))"
      by (simp add: trim_def last_rev hd_dropWhile)
    have "?t \<noteq> []" using False by (metis dropWhile.simps(1) rev.simps(1))
    then have h: "\<not> is_ws (hd ?t)" by (rule hd_dropWhile)
    obtain pre where pre: "?t = trim s @ pre"
      unfolding trim_def by (metis rev_append rev_rev_ident takeWhile_dropWhile_id)
    have "trim s \<noteq> []" using False by (simp add: trim_def)
    with pre h have "\<not> is_ws (hd (trim s))" by (metis hd_append2)
    with l show ?thesis by simp
  qed
qed

lemma trim_idem [simp]: "trim (trim s) = trim s"
proof (cases "trim s")
  case Nil
  moreover have "trim [] = []" by (simp add: trim_def)
  ultimately show ?thesis by simp
next
  case (Cons c cs)
  with trim_no_ws_ends [of s] have "\<not> is_ws (hd (trim s))" "\<not> is_ws (last (trim s))" by auto
  then have "dropWhile is_ws (trim s) = trim s"
    "dropWhile is_ws (rev (trim s)) = rev (trim s)"
    using Cons by (auto simp: last_rev hd_rev [symmetric] intro: dropWhile_eq_self_iff [THEN iffD2])
  then show ?thesis by (simp add: trim_def [of "trim s"])
qed

section \<open>Bytes\<close>

text \<open>UTF-8 of a code point below 256, and \<^verbatim>\<open>u64::to_le_bytes\<close> / \<^verbatim>\<open>i64::to_le_bytes\<close>.\<close>

definition utf8_char :: "char \<Rightarrow> byte list" where
  "utf8_char c =
     (let n = of_char c :: nat in if n < 128 then [of_nat n] else [of_nat (192 + n div 64), of_nat (128 + n mod 64)])"

definition utf8 :: "string \<Rightarrow> byte list" where
  "utf8 s = concat (map utf8_char s)"

fun le_bytes :: "nat \<Rightarrow> nat \<Rightarrow> byte list" where
  "le_bytes 0 n = []"
| "le_bytes (Suc k) n = of_nat n # le_bytes k (n div 256)"

definition u64_le :: "nat \<Rightarrow> byte list" where
  "u64_le n = le_bytes 8 n"

definition i64_le :: "int \<Rightarrow> byte list" where
  "i64_le i = le_bytes 8 (nat (i mod 2 ^ 64))"

lemma length_le_bytes [simp]: "length (le_bytes k n) = k"
  by (induction k arbitrary: n) auto

lemma byte_of_nat_eq: "(of_nat m :: byte) = of_nat n \<longleftrightarrow> m mod 256 = n mod 256"
  by (simp add: word_of_nat_eq_iff take_bit_eq_mod)

lemma le_bytes_inj: "m < 256 ^ k \<Longrightarrow> n < 256 ^ k \<Longrightarrow> le_bytes k m = le_bytes k n \<Longrightarrow> m = n"
proof (induction k arbitrary: m n)
  case 0
  then show ?case by simp
next
  case (Suc k)
  then have "m div 256 < 256 ^ k" "n div 256 < 256 ^ k"
    by (simp_all add: less_mult_imp_div_less mult.commute)
  with Suc have "m div 256 = n div 256" "m mod 256 = n mod 256" by (auto simp: byte_of_nat_eq)
  then show ?case by (metis div_mult_mod_eq)
qed

text \<open>The first byte of a character tells whether a second one follows.\<close>

lemma utf8_lead:
  fixes m n :: nat
  assumes "m < 256" and "n < 256" and "of_nat (if m < 128 then m else 192 + m div 64) = (of_nat (if n < 128 then n else 192 + n div 64) :: byte)"
  shows "if m < 128 then n = m else 128 \<le> n \<and> n div 64 = m div 64"
proof -
  have "m div 64 < 4" "n div 64 < 4" using assms(1,2) by auto
  with assms show ?thesis by (auto simp: byte_of_nat_eq split: if_splits)
qed

lemma utf8_char_prefix_free:
  assumes eq: "utf8_char a @ xs = utf8_char b @ ys"
  shows "a = b \<and> xs = ys"
proof -
  define m n where mn: "m = (of_char a :: nat)" "n = (of_char b :: nat)"
  have lt: "m < 256" "n < 256" by (auto simp: mn)
  have hd: "hd (utf8_char c @ zs) = of_nat (if of_char c < (128 :: nat) then of_char c else 192 + of_char c div 64)" for c zs
    by (simp add: utf8_char_def Let_def)
  have lead: "if m < 128 then n = m else 128 \<le> n \<and> n div 64 = m div 64"
    by (rule utf8_lead [OF lt]) (use hd [of a xs] hd [of b ys] in \<open>simp only: eq mn\<close>)
  have "m = n \<and> xs = ys"
  proof (cases "m < 128")
    case True
    with lead eq show ?thesis by (simp add: utf8_char_def Let_def mn [symmetric])
  next
    case False
    with lead eq have "(of_nat (m mod 64) :: byte) = of_nat (n mod 64)" "n div 64 = m div 64" "xs = ys"
      by (simp_all add: utf8_char_def Let_def mn [symmetric])
    moreover from this(1) have "m mod 64 = n mod 64" by (simp add: byte_of_nat_eq mod_mod_cancel)
    ultimately show ?thesis by (metis div_mult_mod_eq)
  qed
  then show ?thesis by (simp add: mn)
qed

lemma utf8_Cons [simp]: "utf8 (c # s) = utf8_char c @ utf8 s" and utf8_Nil [simp]: "utf8 [] = []"
  by (simp_all add: utf8_def)

lemma utf8_inj: "utf8 s = utf8 t \<Longrightarrow> s = t"
proof (induction s arbitrary: t)
  case Nil
  then show ?case by (cases t) (auto simp: utf8_char_def Let_def split: if_splits)
next
  case (Cons c s)
  then obtain d t' where t: "t = d # t'"
    by (cases t) (auto simp: utf8_char_def Let_def split: if_splits)
  with Cons.prems have "utf8_char c @ utf8 s = utf8_char d @ utf8 t'" by simp
  then have "c = d" "utf8 s = utf8 t'" by (auto dest: utf8_char_prefix_free)
  with t Cons.IH show ?case by auto
qed

section \<open>Enum codecs\<close>

text \<open>
  Most enums of the sources come with \<^verbatim>\<open>as_str\<close> and a partial inverse.  The contract: every
  value is read back from its own string, and no other string is accepted.
\<close>

locale str_codec =
  fixes to_s :: "'a \<Rightarrow> string" and of_s :: "string \<Rightarrow> 'a option"
  assumes round_trip: "of_s (to_s x) = Some x"
    and only_image: "of_s s = Some x \<Longrightarrow> to_s x = s"
begin

lemma to_s_inj: "to_s x = to_s y \<longleftrightarrow> x = y"
  by (metis round_trip option.inject)

lemma of_s_iff: "of_s s = Some x \<longleftrightarrow> s = to_s x"
  using round_trip only_image by auto

lemma of_s_None: "of_s s = None \<longleftrightarrow> s \<notin> range to_s"
  using of_s_iff by (cases "of_s s") (auto simp: round_trip)

end

end
