(* ===== verification/Decimal_Rounding.thy ===== *)
theory Decimal_Rounding
  imports OA_Prelude
begin

text \<open>
  Rounding to a number of decimal places.  The locale \<open>rounding\<close> is the contract the sources
  rely on: a result with at most \<open>n\<close> decimals, within half a unit of the argument, and the
  same for a negated argument.  Exactness on values that already have \<open>n\<close> decimals,
  monotonicity and preservation of the sign follow.  Its instances are the rounding PostgreSQL
  applies when a value is stored in a \<^verbatim>\<open>NUMERIC(p,s)\<close> column and the reference functions for the
  two strategies of \<^verbatim>\<open>rust_decimal\<close> the sources name (half away from zero, half to even).
\<close>

definition on_grid :: "nat \<Rightarrow> decimal \<Rightarrow> bool" where
  "on_grid n x \<longleftrightarrow> x * 10 ^ n \<in> \<int>"

locale rounding =
  fixes rnd :: "nat \<Rightarrow> decimal \<Rightarrow> decimal"
  assumes rnd_grid: "on_grid n (rnd n x)"
    and rnd_near: "\<bar>rnd n x - x\<bar> \<le> 1 / (2 * 10 ^ n)"
    and rnd_minus: "rnd n (- x) = - rnd n x"
begin

lemma grid_distinct_far:
  assumes "on_grid n a" and "on_grid n b" and "a < b"
  shows "1 / 10 ^ n \<le> b - a"
proof -
  from assms(1,2) obtain i j :: int where ij: "a * 10 ^ n = of_int i" "b * 10 ^ n = of_int j"
    by (auto simp: on_grid_def elim!: Ints_cases)
  from assms(3) have "a * 10 ^ n < b * 10 ^ n" by simp
  with ij have "i < j" by simp
  then have "1 \<le> b * 10 ^ n - a * 10 ^ n" using ij by (simp add: of_int_diff [symmetric] del: of_int_diff)
  then have "1 \<le> (b - a) * 10 ^ n" by (simp add: algebra_simps)
  then show ?thesis by (simp add: field_simps)
qed

text \<open>Halves are the only points two results can share: rounding is monotone.\<close>

lemma rnd_mono: "x \<le> y \<Longrightarrow> rnd n x \<le> rnd n y"
proof (rule ccontr)
  assume le: "x \<le> y" and "\<not> rnd n x \<le> rnd n y"
  then have lt: "rnd n y < rnd n x" by simp
  then have far: "1 / 10 ^ n \<le> rnd n x - rnd n y"
    by (rule grid_distinct_far [OF rnd_grid rnd_grid])
  have half: "1 / (2 * 10 ^ n) + 1 / (2 * 10 ^ n) = (1 / 10 ^ n :: decimal)"
    by (simp add: field_simps)
  from rnd_near [of n x] rnd_near [of n y] far half le have "x = y" by linarith
  with lt show False by simp
qed

lemma rnd_exact: "on_grid n x \<Longrightarrow> rnd n x = x"
proof (rule ccontr)
  assume g: "on_grid n x" and ne: "rnd n x \<noteq> x"
  have "1 / 10 ^ n \<le> \<bar>rnd n x - x\<bar>"
  proof (cases "rnd n x < x")
    case True
    then show ?thesis using grid_distinct_far [OF rnd_grid g True] by simp
  next
    case False
    with ne have "x < rnd n x" by simp
    then show ?thesis using grid_distinct_far [OF g rnd_grid \<open>x < rnd n x\<close>] by simp
  qed
  with rnd_near [of n x] have "1 / 10 ^ n \<le> (1 / (2 * 10 ^ n) :: decimal)" by linarith
  then show False by (simp add: field_simps)
qed

lemma rnd_zero: "rnd n 0 = 0"
  by (rule rnd_exact) (simp add: on_grid_def)

lemma rnd_idem: "rnd n (rnd n x) = rnd n x"
  by (rule rnd_exact [OF rnd_grid])

lemma rnd_nonneg: "0 \<le> x \<Longrightarrow> 0 \<le> rnd n x"
  using rnd_mono [of 0 x n] by (simp add: rnd_zero)

lemma rnd_nonpos: "x \<le> 0 \<Longrightarrow> rnd n x \<le> 0"
  using rnd_mono [of x 0 n] by (simp add: rnd_zero)

lemma rnd_abs: "rnd n \<bar>x\<bar> = \<bar>rnd n x\<bar>"
proof (cases "0 \<le> x")
  case True
  then show ?thesis by (simp add: rnd_nonneg)
next
  case False
  then have "x \<le> 0" by simp
  then show ?thesis by (simp add: rnd_minus rnd_nonpos)
qed

text \<open>A whole list of values that already have \<open>n\<close> decimals is summed without loss.\<close>

lemma sum_list_rnd: "list_all (on_grid n) xs \<Longrightarrow> sum_list (map (rnd n) xs) = sum_list xs"
  by (induction xs) (auto simp: rnd_exact)

end

definition round_half_away :: "nat \<Rightarrow> decimal \<Rightarrow> decimal" where
  "round_half_away n x = sgn x * of_int \<lfloor>\<bar>x\<bar> * 10 ^ n + 1 / 2\<rfloor> / 10 ^ n"

definition round_half_even :: "nat \<Rightarrow> decimal \<Rightarrow> decimal" where
  "round_half_even n x =
     (let y = x * 10 ^ n; f = \<lfloor>y\<rfloor>; r = y - of_int f
      in of_int (if r < 1 / 2 \<or> r = 1 / 2 \<and> even f then f else f + 1) / 10 ^ n)"

lemma on_grid_0 [simp]: "on_grid n 0"
  and on_grid_of_int_div [simp]: "on_grid n (of_int k / 10 ^ n)"
  by (simp_all add: on_grid_def)

lemma on_grid_minus [simp]: "on_grid n (- x) \<longleftrightarrow> on_grid n x"
  by (simp add: on_grid_def)

lemma on_grid_abs [simp]: "on_grid n \<bar>x\<bar> \<longleftrightarrow> on_grid n x"
  by (cases "0 \<le> x") auto

lemma on_grid_add: "on_grid n x \<Longrightarrow> on_grid n y \<Longrightarrow> on_grid n (x + y)"
  by (simp add: on_grid_def distrib_right)

lemma on_grid_sum_list: "list_all (on_grid n) xs \<Longrightarrow> on_grid n (sum_list xs)"
  by (induction xs) (auto simp: on_grid_add)

lemma near_scale: "\<bar>a * 10 ^ n - x * 10 ^ n\<bar> \<le> 1 / 2 \<Longrightarrow> \<bar>a - x\<bar> \<le> (1 / (2 * 10 ^ n) :: decimal)"
proof -
  assume "\<bar>a * 10 ^ n - x * 10 ^ n\<bar> \<le> 1 / 2"
  moreover have "a * 10 ^ n - x * 10 ^ n = (a - x) * 10 ^ n" by (simp add: algebra_simps)
  ultimately have "\<bar>a - x\<bar> * 10 ^ n \<le> 1 / 2" by (simp add: abs_mult)
  then show ?thesis by (simp add: field_simps)
qed

interpretation away: rounding round_half_away
proof
  fix n :: nat and x :: decimal
  show "on_grid n (round_half_away n x)"
    by (simp add: round_half_away_def on_grid_def sgn_rat_def)
  show "round_half_away n (- x) = - round_half_away n x"
    by (simp add: round_half_away_def sgn_rat_def)
  have f: "\<bar>of_int \<lfloor>y + 1 / 2\<rfloor> - y\<bar> \<le> (1 / 2 :: rat)" for y by linarith
  show "\<bar>round_half_away n x - x\<bar> \<le> 1 / (2 * 10 ^ n)"
  proof (rule near_scale, cases x "0 :: rat" rule: linorder_cases)
    case less
    then have "round_half_away n x * 10 ^ n = - of_int \<lfloor>- x * 10 ^ n + 1 / 2\<rfloor>"
      by (simp add: round_half_away_def sgn_rat_def)
    then show "\<bar>round_half_away n x * 10 ^ n - x * 10 ^ n\<bar> \<le> 1 / 2"
      using f [of "- x * 10 ^ n"] by linarith
  next
    case equal
    then show "\<bar>round_half_away n x * 10 ^ n - x * 10 ^ n\<bar> \<le> 1 / 2"
      by (simp add: round_half_away_def)
  next
    case greater
    then show "\<bar>round_half_away n x * 10 ^ n - x * 10 ^ n\<bar> \<le> 1 / 2"
      using f [of "x * 10 ^ n"] by (simp add: round_half_away_def sgn_rat_def)
  qed
qed

lemma round_half_even_int:
  "round_half_even n x * 10 ^ n =
     of_int (let f = \<lfloor>x * 10 ^ n\<rfloor>; r = x * 10 ^ n - of_int f
             in if r < 1 / 2 \<or> r = 1 / 2 \<and> even f then f else f + 1)"
  by (simp add: round_half_even_def Let_def)

interpretation even: rounding round_half_even
proof
  fix n :: nat and x :: decimal
  show "on_grid n (round_half_even n x)"
    by (simp add: round_half_even_def on_grid_def Let_def)
  show "\<bar>round_half_even n x - x\<bar> \<le> 1 / (2 * 10 ^ n)"
  proof (rule near_scale, unfold round_half_even_int Let_def)
    let ?y = "x * 10 ^ n"
    have "of_int \<lfloor>?y\<rfloor> \<le> ?y" "?y < of_int \<lfloor>?y\<rfloor> + 1" by linarith+
    then show "\<bar>of_int (if ?y - of_int \<lfloor>?y\<rfloor> < 1 / 2 \<or> ?y - of_int \<lfloor>?y\<rfloor> = 1 / 2 \<and> even \<lfloor>?y\<rfloor>
                 then \<lfloor>?y\<rfloor> else \<lfloor>?y\<rfloor> + 1) - ?y\<bar> \<le> 1 / 2" by auto
  qed
  show "round_half_even n (- x) = - round_half_even n x"
  proof -
    let ?y = "x * 10 ^ n"
    have "round_half_even n (- x) * 10 ^ n = - (round_half_even n x * 10 ^ n)"
    proof (cases "?y \<in> \<int>")
      case True
      then obtain k where "?y = of_int k" by (auto elim: Ints_cases)
      then show ?thesis by (simp add: round_half_even_int Let_def)
    next
      case False
      then have ne: "?y \<noteq> of_int \<lfloor>?y\<rfloor>" by (metis Ints_of_int)
      then have fl: "\<lfloor>- ?y\<rfloor> = - \<lfloor>?y\<rfloor> - 1"
        by (simp add: floor_minus ceiling_altdef)
      show ?thesis
        unfolding round_half_even_int Let_def mult_minus_left fl using ne by auto
    qed
    then show ?thesis
      using mult_right_cancel [of "10 ^ n" "round_half_even n (- x)" "- round_half_even n x"]
      by simp
  qed
qed

section \<open>NUMERIC columns\<close>

text \<open>
  Storing a value in a column of type \<^verbatim>\<open>NUMERIC(p,s)\<close>: it is rounded to \<open>s\<close> decimals, ties away
  from zero, and refused when it then needs more than \<open>p - s\<close> digits before the point.
\<close>

definition numeric_col :: "nat \<Rightarrow> nat \<Rightarrow> decimal \<Rightarrow> decimal option" where
  "numeric_col p s x =
     (let v = round_half_away s x in if \<bar>v\<bar> < 10 ^ (p - s) then Some v else None)"

lemma numeric_col_Some:
  "numeric_col p s x = Some v \<Longrightarrow> v = round_half_away s x \<and> \<bar>v\<bar> < 10 ^ (p - s)"
  by (auto simp: numeric_col_def Let_def split: if_splits)

lemma numeric_col_exact:
  "on_grid s x \<Longrightarrow> \<bar>x\<bar> < 10 ^ (p - s) \<Longrightarrow> numeric_col p s x = Some x"
  by (simp add: numeric_col_def away.rnd_exact)

end
