(* ===== verification/Env.thy ===== *)
theory Env
  imports Rust_Text Decimal_Rounding
begin

text \<open>
  What the sources take from third-party crates, the database server and the operating system,
  as one record of parameters, and the JSON values they build.  No field has a definition here:
  a property that depends on one names the behaviour it relies on as a hypothesis.
\<close>

text \<open>
  \<^verbatim>\<open>serde_json::Value\<close>.  Identifiers, dates, times and decimals are serialised as JSON strings by
  their crates; the model keeps them as leaves of their own and leaves the text to the printer.
\<close>

datatype json =
    JNull
  | JBool bool
  | JNum rat
  | JStr string
  | JArr "json list"
  | JObj "(string \<times> json) list"
  | JUuid uuid
  | JDate date
  | JDec decimal
  | JTime int

fun json_get :: "json \<Rightarrow> string \<Rightarrow> json option" where
  "json_get (JObj kvs) k = map_of kvs k"
| "json_get _ k = None"

fun as_str :: "json \<Rightarrow> string option" where
  "as_str (JStr s) = Some s"
| "as_str _ = None"

fun as_bool :: "json \<Rightarrow> bool option" where
  "as_bool (JBool b) = Some b"
| "as_bool _ = None"

fun as_f64 :: "json \<Rightarrow> rat option" where
  "as_f64 (JNum x) = Some x"
| "as_f64 _ = None"

fun as_object :: "json \<Rightarrow> (string \<times> json) list option" where
  "as_object (JObj kvs) = Some kvs"
| "as_object _ = None"

fun json_uuid :: "(string \<Rightarrow> uuid option) \<Rightarrow> json \<Rightarrow> uuid option" where
  "json_uuid parse (JUuid u) = Some u"
| "json_uuid parse (JStr s) = parse s"
| "json_uuid parse _ = None"

definition opt_json :: "('a \<Rightarrow> json) \<Rightarrow> 'a option \<Rightarrow> json" where
  "opt_json f x = (case x of None \<Rightarrow> JNull | Some y \<Rightarrow> f y)"

text \<open>
  \<^item> \<open>now\<close>, \<open>today\<close>: \<^verbatim>\<open>Utc::now()\<close> in microseconds and its date;
  \<^item> \<open>uuid_at\<close>: the stream of identifiers drawn from \<^verbatim>\<open>gen_random_uuid()\<close> and \<^verbatim>\<open>Uuid::new_v4()\<close>;
  \<^item> \<open>dec_div\<close>: division of two decimals; \<open>round_away\<close>: \<^verbatim>\<open>round_dp_with_strategy\<close> with
    \<^verbatim>\<open>MidpointAwayFromZero\<close>; \<open>round_dp\<close>: \<^verbatim>\<open>Decimal::round_dp\<close>;
  \<^item> \<open>parse_dec\<close>: \<^verbatim>\<open>str::parse::<Decimal>()\<close>; \<open>parse_date\<close>: \<^verbatim>\<open>NaiveDate::parse_from_str\<close> with
    format \<^verbatim>\<open>%Y-%m-%d\<close>; \<open>parse_uuid\<close>: \<^verbatim>\<open>Uuid::parse_str\<close>; \<open>uuid_bytes\<close>: \<^verbatim>\<open>Uuid::as_bytes\<close>;
  \<^item> \<open>sha256\<close> and \<open>json_bytes\<close>: the hash and \<^verbatim>\<open>serde_json::to_vec\<close>.
\<close>

record env =
  now :: int
  today :: date
  uuid_at :: "nat \<Rightarrow> uuid"
  dec_div :: "decimal \<Rightarrow> decimal \<Rightarrow> decimal"
  round_away :: "nat \<Rightarrow> decimal \<Rightarrow> decimal"
  round_dp :: "nat \<Rightarrow> decimal \<Rightarrow> decimal"
  parse_dec :: "string \<Rightarrow> decimal option"
  parse_date :: "string \<Rightarrow> date option"
  parse_uuid :: "string \<Rightarrow> uuid option"
  uuid_bytes :: "uuid \<Rightarrow> byte list"
  sha256 :: "byte list \<Rightarrow> byte list"
  json_bytes :: "json \<Rightarrow> byte list"


text \<open>
  One concrete environment.  No theorem depends on it; it shows that the hypotheses about an
  environment can be met.
\<close>

definition sample_env :: env where
  "sample_env =
     \<lparr>now = 100, today = Date 2026 8 21, uuid_at = (\<lambda>n. 20 + n), dec_div = (/),
      round_away = round_half_away, round_dp = round_half_even, parse_dec = (\<lambda>_. None),
      parse_date = (\<lambda>_. None), parse_uuid = (\<lambda>_. None), uuid_bytes = (\<lambda>u. of_nat u # replicate 15 0),
      sha256 = (\<lambda>x. replicate 31 0 @ [case x of [] \<Rightarrow> 0 | b # _ \<Rightarrow> b]), json_bytes = (\<lambda>_. [])\<rparr>"

end
