(* ===== verification/Chart.thy ===== *)
theory Chart
  imports Rust_Text
begin

text \<open>
  The chart of accounts: \<^verbatim>\<open>src/src/domain/posting.rs\<close> (directions),
  \<^verbatim>\<open>src/src/domain/account.rs\<close> (account types and subtypes) and the default chart of
  \<^verbatim>\<open>src/src/domain/ledger.rs\<close>.  The string codecs interpret \<open>str_codec\<close>.
\<close>

section \<open>Directions\<close>

datatype direction = Debit | Credit

fun direction_as_str :: "direction \<Rightarrow> string" where
  "direction_as_str Debit = ''DEBIT''"
| "direction_as_str Credit = ''CREDIT''"

definition direction_from_db :: "string \<Rightarrow> direction option" where
  "direction_from_db s =
     (if s = ''DEBIT'' then Some Debit else if s = ''CREDIT'' then Some Credit else None)"

section \<open>Account types and subtypes\<close>

datatype account_type = Asset | Liability | Equity | Income | Expense

fun account_type_as_str :: "account_type \<Rightarrow> string" where
  "account_type_as_str Asset = ''ASSET''"
| "account_type_as_str Liability = ''LIABILITY''"
| "account_type_as_str Equity = ''EQUITY''"
| "account_type_as_str Income = ''INCOME''"
| "account_type_as_str Expense = ''EXPENSE''"

definition account_type_from_db :: "string \<Rightarrow> account_type option" where
  "account_type_from_db s =
     (if s = ''ASSET'' then Some Asset
      else if s = ''LIABILITY'' then Some Liability
      else if s = ''EQUITY'' then Some Equity
      else if s = ''INCOME'' then Some Income
      else if s = ''EXPENSE'' then Some Expense
      else None)"

fun normal_direction :: "account_type \<Rightarrow> direction" where
  "normal_direction Asset = Debit"
| "normal_direction Expense = Debit"
| "normal_direction Liability = Credit"
| "normal_direction Equity = Credit"
| "normal_direction Income = Credit"

fun account_type_label :: "account_type \<Rightarrow> string" where
  "account_type_label Asset = ''Asset''"
| "account_type_label Liability = ''Liability''"
| "account_type_label Equity = ''Equity''"
| "account_type_label Income = ''Income''"
| "account_type_label Expense = ''Expense''"

datatype account_subtype =
    CurrentAsset | FixedAsset | IntangibleAsset | OtherAsset | EmployeeAdvance
  | CurrentLiability | LongTermLiability | EmployeePayable
  | EquitySub | RetainedEarnings | Drawing
  | OperatingIncome | NonOperatingIncome
  | CostOfGoodsSold | OperatingExpense | NonOperatingExpense | TaxExpense

fun valid_subtypes :: "account_type \<Rightarrow> account_subtype list" where
  "valid_subtypes Asset =
     [CurrentAsset, FixedAsset, IntangibleAsset, OtherAsset, EmployeeAdvance]"
| "valid_subtypes Liability = [CurrentLiability, LongTermLiability, EmployeePayable]"
| "valid_subtypes Equity = [EquitySub, RetainedEarnings, Drawing]"
| "valid_subtypes Income = [OperatingIncome, NonOperatingIncome]"
| "valid_subtypes Expense = [CostOfGoodsSold, OperatingExpense, NonOperatingExpense, TaxExpense]"

fun account_subtype_as_str :: "account_subtype \<Rightarrow> string" where
  "account_subtype_as_str CurrentAsset = ''CURRENT_ASSET''"
| "account_subtype_as_str FixedAsset = ''FIXED_ASSET''"
| "account_subtype_as_str IntangibleAsset = ''INTANGIBLE_ASSET''"
| "account_subtype_as_str OtherAsset = ''OTHER_ASSET''"
| "account_subtype_as_str EmployeeAdvance = ''EMPLOYEE_ADVANCE''"
| "account_subtype_as_str CurrentLiability = ''CURRENT_LIABILITY''"
| "account_subtype_as_str LongTermLiability = ''LONG_TERM_LIABILITY''"
| "account_subtype_as_str EmployeePayable = ''EMPLOYEE_PAYABLE''"
| "account_subtype_as_str EquitySub = ''EQUITY''"
| "account_subtype_as_str RetainedEarnings = ''RETAINED_EARNINGS''"
| "account_subtype_as_str Drawing = ''DRAWING''"
| "account_subtype_as_str OperatingIncome = ''OPERATING_INCOME''"
| "account_subtype_as_str NonOperatingIncome = ''NON_OPERATING_INCOME''"
| "account_subtype_as_str CostOfGoodsSold = ''COST_OF_GOODS_SOLD''"
| "account_subtype_as_str OperatingExpense = ''OPERATING_EXPENSE''"
| "account_subtype_as_str NonOperatingExpense = ''NON_OPERATING_EXPENSE''"
| "account_subtype_as_str TaxExpense = ''TAX_EXPENSE''"

definition account_subtype_from_db :: "string \<Rightarrow> account_subtype option" where
  "account_subtype_from_db s =
     (if s = ''CURRENT_ASSET'' then Some CurrentAsset
      else if s = ''FIXED_ASSET'' then Some FixedAsset
      else if s = ''INTANGIBLE_ASSET'' then Some IntangibleAsset
      else if s = ''OTHER_ASSET'' then Some OtherAsset
      else if s = ''EMPLOYEE_ADVANCE'' then Some EmployeeAdvance
      else if s = ''CURRENT_LIABILITY'' then Some CurrentLiability
      else if s = ''LONG_TERM_LIABILITY'' then Some LongTermLiability
      else if s = ''EMPLOYEE_PAYABLE'' then Some EmployeePayable
      else if s = ''EQUITY'' then Some EquitySub
      else if s = ''RETAINED_EARNINGS'' then Some RetainedEarnings
      else if s = ''DRAWING'' then Some Drawing
      else if s = ''OPERATING_INCOME'' then Some OperatingIncome
      else if s = ''NON_OPERATING_INCOME'' then Some NonOperatingIncome
      else if s = ''COST_OF_GOODS_SOLD'' then Some CostOfGoodsSold
      else if s = ''OPERATING_EXPENSE'' then Some OperatingExpense
      else if s = ''NON_OPERATING_EXPENSE'' then Some NonOperatingExpense
      else if s = ''TAX_EXPENSE'' then Some TaxExpense
      else None)"

fun account_subtype_label :: "account_subtype \<Rightarrow> string" where
  "account_subtype_label CurrentAsset = ''Current Asset''"
| "account_subtype_label FixedAsset = ''Fixed Asset''"
| "account_subtype_label IntangibleAsset = ''Intangible Asset''"
| "account_subtype_label OtherAsset = ''Other Asset''"
| "account_subtype_label EmployeeAdvance = ''Employee Advance''"
| "account_subtype_label CurrentLiability = ''Current Liability''"
| "account_subtype_label LongTermLiability = ''Long-Term Liability''"
| "account_subtype_label EmployeePayable = ''Employee Payable''"
| "account_subtype_label EquitySub = ''Equity''"
| "account_subtype_label RetainedEarnings = ''Retained Earnings''"
| "account_subtype_label Drawing = ''Drawing''"
| "account_subtype_label OperatingIncome = ''Operating Income''"
| "account_subtype_label NonOperatingIncome = ''Non-Operating Income''"
| "account_subtype_label CostOfGoodsSold = ''Cost of Goods Sold''"
| "account_subtype_label OperatingExpense = ''Operating Expense''"
| "account_subtype_label NonOperatingExpense = ''Non-Operating Expense''"
| "account_subtype_label TaxExpense = ''Tax Expense''"

section \<open>The default chart\<close>

record new_account =
  na_name :: string
  na_code :: "string option"
  na_type :: account_type
  na_subtype :: account_subtype
  na_currency :: string
  na_archived :: bool
  na_description :: "string option"
  na_parent :: "uuid option"

definition chart_rows :: "(string \<times> string \<times> account_type \<times> account_subtype \<times> bool) list" where
  "chart_rows =
    [(''1000'', ''Cash on Hand'', Asset, CurrentAsset, False),
     (''1010'', ''Bank Account'', Asset, CurrentAsset, False),
     (''1200'', ''Accounts Receivable'', Asset, CurrentAsset, False),
     (''2000'', ''Accounts Payable'', Liability, CurrentLiability, False),
     (''2100'', ''Credit Card'', Liability, CurrentLiability, False),
     (''3000'', ''Owner's Equity'', Equity, EquitySub, False),
     (''3010'', ''Opening Balances'', Equity, EquitySub, False),
     (''4000'', ''Sales Revenue'', Income, OperatingIncome, False),
     (''4900'', ''Other Income'', Income, OperatingIncome, False),
     (''5000'', ''Office Supplies'', Expense, OperatingExpense, False),
     (''5100'', ''Travel & Meals'', Expense, OperatingExpense, False),
     (''5200'', ''Software & SaaS'', Expense, OperatingExpense, False),
     (''5300'', ''Marketing'', Expense, OperatingExpense, False),
     (''5400'', ''Professional Services'', Expense, OperatingExpense, False),
     (''5500'', ''Rent'', Expense, OperatingExpense, False),
     (''5600'', ''Utilities'', Expense, OperatingExpense, False),
     (''5900'', ''Other Expense'', Expense, OperatingExpense, False),
     (''2100'', ''Employee Payable'', Liability, EmployeePayable, False),
     (''1100'', ''Employee Advance'', Asset, EmployeeAdvance, False)]"

definition default_chart_of_accounts :: "string \<Rightarrow> new_account list" where
  "default_chart_of_accounts currency =
     map (\<lambda>(code, name, ty, subty, archived).
       \<lparr>na_name = name, na_code = Some code, na_type = ty, na_subtype = subty,
        na_currency = currency, na_archived = archived, na_description = None, na_parent = None\<rparr>)
     chart_rows"

section \<open>Properties\<close>

interpretation direction: str_codec direction_as_str direction_from_db
proof
  fix x s
  show "direction_from_db (direction_as_str x) = Some x"
    by (cases x) (simp_all add: direction_from_db_def)
  show "direction_from_db s = Some x \<Longrightarrow> direction_as_str x = s"
    by (auto simp: direction_from_db_def split: if_splits)
qed

interpretation account_type: str_codec account_type_as_str account_type_from_db
proof
  fix x s
  show "account_type_from_db (account_type_as_str x) = Some x"
    by (cases x) (simp_all add: account_type_from_db_def)
  show "account_type_from_db s = Some x \<Longrightarrow> account_type_as_str x = s"
    by (auto simp: account_type_from_db_def split: if_splits)
qed

interpretation account_subtype: str_codec account_subtype_as_str account_subtype_from_db
proof
  fix x s
  show "account_subtype_from_db (account_subtype_as_str x) = Some x"
    by (cases x) (simp_all add: account_subtype_from_db_def)
  show "account_subtype_from_db s = Some x \<Longrightarrow> account_subtype_as_str x = s"
    by (auto simp: account_subtype_from_db_def split: if_splits)
qed

text \<open>Every subtype belongs to exactly one account type.\<close>

lemma subtype_partition: "\<exists>!ty. st \<in> set (valid_subtypes ty)"
proof -
  define ty where "ty = (if st \<in> set (valid_subtypes Asset) then Asset
    else if st \<in> set (valid_subtypes Liability) then Liability
    else if st \<in> set (valid_subtypes Equity) then Equity
    else if st \<in> set (valid_subtypes Income) then Income else Expense)"
  show ?thesis
  proof (rule ex1I [of _ ty])
    show "st \<in> set (valid_subtypes ty)"
      by (cases st) (simp_all add: ty_def)
    fix ty' assume "st \<in> set (valid_subtypes ty')"
    then show "ty' = ty"
      by (cases ty') (auto simp: ty_def)
  qed
qed

lemma default_chart_well_typed:
  "na \<in> set (default_chart_of_accounts c) \<Longrightarrow>
     na_subtype na \<in> set (valid_subtypes (na_type na)) \<and> na_currency na = c \<and> \<not> na_archived na"
  by (auto simp: default_chart_of_accounts_def chart_rows_def)

lemma default_chart_names_distinct: "distinct (map na_name (default_chart_of_accounts c))"
  by (simp add: default_chart_of_accounts_def chart_rows_def)

end
