(* ===== verification/Db_Schema.thy ===== *)
theory Db_Schema
  imports Env Chart
begin

text \<open>
  The database the server works on, from \<^verbatim>\<open>src/migrations\<close>: one record per table row, the state
  \<open>db\<close> with one list per table (in insertion order), and the statements the sources execute with
  every constraint the schema puts on them: primary keys, foreign keys, \<^verbatim>\<open>CHECK\<close> constraints,
  unique indexes, column types, the balance trigger on \<^verbatim>\<open>postings\<close> and the append-only triggers on
  \<^verbatim>\<open>transactions\<close>.  Columns the modelled code never reads (\<^verbatim>\<open>updated_at\<close>, timezone, tags) are left
  out, as are foreign keys to \<^verbatim>\<open>users\<close>: user identifiers come from the session.
\<close>

section \<open>Rows\<close>

record user_row =
  u_id :: uuid
  u_role :: string

record member_row =
  m_ledger :: uuid
  m_user :: uuid
  m_role :: string

record ledger_row =
  l_id :: uuid
  l_owner :: uuid
  l_name :: string
  l_base_currency :: string
  l_basis :: string
  l_append_only :: bool
  l_threshold :: "decimal option"

record account_row =
  a_id :: uuid
  a_ledger :: uuid
  a_name :: string
  a_code :: "string option"
  a_type :: string
  a_subtype :: string
  a_currency :: string
  a_archived :: bool

record txn_row =
  t_id :: uuid
  t_ledger :: uuid
  t_date :: date
  t_description :: string
  t_payee :: "string option"
  t_reference :: "string option"
  t_currency :: string
  t_kind :: string
  t_created_by :: uuid
  t_created_at :: int
  t_reverses :: "uuid option"
  t_number :: "string option"

record posting_row =
  p_id :: uuid
  p_txn :: uuid
  p_account :: uuid
  p_amount :: decimal
  p_direction :: string
  p_memo :: "string option"
  p_foreign_amount :: "decimal option"
  p_foreign_currency :: "string option"
  p_cost_center :: "uuid option"
  p_project :: "uuid option"

record posting_tax_row =
  x_posting :: uuid
  x_rate :: uuid
  x_tax_amount :: decimal
  x_base_amount :: "decimal option"

record dimension_row =
  d_id :: uuid
  d_ledger :: uuid
  d_name :: string

record closed_row =
  cp_ledger :: uuid
  cp_year :: int
  cp_by :: uuid
  cp_through :: "date option"

record reopen_row =
  ro_ledger :: uuid
  ro_through :: "date option"
  ro_by :: uuid
  ro_reason :: string

record approval_row =
  ja_txn :: uuid
  ja_ledger :: uuid
  ja_maker :: uuid
  ja_checker :: "uuid option"
  ja_status :: string
  ja_amount :: decimal

record fx_row =
  fx_base :: string
  fx_quote :: string
  fx_rate :: decimal
  fx_date :: date
  fx_source :: string

record fx_reval_row =
  fv_ledger :: uuid
  fv_account :: uuid
  fv_month :: date
  fv_txn :: uuid
  fv_gain :: decimal
  fv_by :: uuid

record invoice_row =
  i_id :: uuid
  i_ledger :: uuid
  i_number :: "string option"
  i_status :: string

record invoice_seq_row =
  sq_ledger :: uuid
  sq_year :: int
  sq_last :: int

record audit_row =
  au_id :: uuid
  au_prev :: "byte list option"
  au_hash :: "byte list option"
  au_ledger :: "uuid option"
  au_actor :: uuid
  au_action :: string
  au_entity :: string
  au_entity_id :: "uuid option"
  au_old :: "json option"
  au_new :: "json option"
  au_created :: int

record subscription_row =
  ws_id :: uuid
  ws_ledger :: uuid
  ws_events :: "string list"
  ws_enabled :: bool

record delivery_row =
  wd_id :: uuid
  wd_subscription :: uuid
  wd_event :: uuid
  wd_type :: string
  wd_payload :: json
  wd_attempt :: nat

record rule_row =
  ar_id :: uuid
  ar_ledger :: uuid
  ar_trigger :: string
  ar_conditions :: json
  ar_action :: string
  ar_config :: json
  ar_enabled :: bool
  ar_created_by :: "uuid option"

record job_row =
  j_id :: uuid
  j_kind :: string
  j_payload :: json
  j_run_at :: int
  j_attempts :: int
  j_max_attempts :: int
  j_status :: string
  j_created_at :: int
  j_updated_at :: int

record db =
  users :: "user_row list"
  members :: "member_row list"
  ledgers :: "ledger_row list"
  accounts :: "account_row list"
  transactions :: "txn_row list"
  postings :: "posting_row list"
  posting_taxes :: "posting_tax_row list"
  tax_rate_ids :: "uuid list"
  cost_centers :: "dimension_row list"
  projects :: "dimension_row list"
  closed_periods :: "closed_row list"
  reopen_events :: "reopen_row list"
  approvals :: "approval_row list"
  fx_rates :: "fx_row list"
  fx_revals :: "fx_reval_row list"
  invoices :: "invoice_row list"
  invoice_seqs :: "invoice_seq_row list"
  audit_entries :: "audit_row list"
  subscriptions :: "subscription_row list"
  deliveries :: "delivery_row list"
  rules :: "rule_row list"
  jobs :: "job_row list"
  balance_trigger :: bool
  drawn :: nat

datatype db_error =
    UniqueViolation string
  | ForeignKeyViolation string
  | CheckViolation string
  | NumericOverflow
  | StringTooLong
  | RaisedException string
  | RowNotFound
  | DecodeNull

text \<open>The database right after the migrations: no rows, the balance trigger in place.\<close>

definition empty_db :: db where
  "empty_db =
     \<lparr>users = [], members = [], ledgers = [], accounts = [], transactions = [], postings = [],
      posting_taxes = [], tax_rate_ids = [], cost_centers = [], projects = [],
      closed_periods = [], reopen_events = [], approvals = [], fx_rates = [], fx_revals = [],
      invoices = [], invoice_seqs = [], audit_entries = [], subscriptions = [], deliveries = [],
      rules = [], jobs = [], balance_trigger = True, drawn = 0\<rparr>"

section \<open>Lookups and totals\<close>

definition ledger_of :: "db \<Rightarrow> uuid \<Rightarrow> ledger_row option" where
  "ledger_of db i = find (\<lambda>l. l_id l = i) (ledgers db)"

definition txn_of :: "db \<Rightarrow> uuid \<Rightarrow> txn_row option" where
  "txn_of db i = find (\<lambda>t. t_id t = i) (transactions db)"

definition postings_of :: "db \<Rightarrow> uuid \<Rightarrow> posting_row list" where
  "postings_of db i = filter (\<lambda>p. p_txn p = i) (postings db)"

definition is_debit :: "posting_row \<Rightarrow> bool" where
  "is_debit p \<longleftrightarrow> p_direction p = ''DEBIT''"

definition is_credit :: "posting_row \<Rightarrow> bool" where
  "is_credit p \<longleftrightarrow> p_direction p = ''CREDIT''"

text \<open>\<^verbatim>\<open>SUM(CASE WHEN direction = 'DEBIT' THEN amount ELSE 0 END)\<close> and its credit twin.\<close>

definition debit_sum :: "posting_row list \<Rightarrow> decimal" where
  "debit_sum ps = sum_list (map (\<lambda>p. if is_debit p then p_amount p else 0) ps)"

definition credit_sum :: "posting_row list \<Rightarrow> decimal" where
  "credit_sum ps = sum_list (map (\<lambda>p. if is_credit p then p_amount p else 0) ps)"

definition balanced :: "db \<Rightarrow> uuid \<Rightarrow> bool" where
  "balanced db i \<longleftrightarrow> debit_sum (postings_of db i) = credit_sum (postings_of db i)"

section \<open>Statements\<close>

text \<open>A fresh primary key, \<^verbatim>\<open>DEFAULT gen_random_uuid()\<close>.\<close>

definition draw :: "env \<Rightarrow> db \<Rightarrow> uuid \<times> db" where
  "draw E db = (uuid_at E (drawn db), db\<lparr>drawn := Suc (drawn db)\<rparr>)"

text \<open>A \<^verbatim>\<open>CHAR(3)\<close> column: blank-padded, trailing blanks beyond the width dropped.\<close>

definition char3 :: "string \<Rightarrow> string option" where
  "char3 s = (if list_all (\<lambda>c. c = CHR '' '') (drop 3 s)
              then Some (take 3 (s @ replicate 3 (CHR '' ''))) else None)"

definition txn_kinds :: "string list" where
  "txn_kinds = [''standard'', ''adjusting'', ''closing'', ''reversing'', ''recurring'',
                ''draft'', ''posted'', ''amortization'', ''pending'']"

text \<open>The partial unique index \<^verbatim>\<open>uq_transactions_number\<close> on (ledger, year of the date, number).\<close>

definition number_taken :: "db \<Rightarrow> uuid \<Rightarrow> int \<Rightarrow> string \<Rightarrow> bool" where
  "number_taken db l y n \<longleftrightarrow>
     list_ex (\<lambda>t. t_ledger t = l \<and> date_year (t_date t) = y \<and> t_number t = Some n) (transactions db)"

definition insert_transaction :: "env \<Rightarrow> txn_row \<Rightarrow> (db, db_error, uuid) tx" where
  "insert_transaction E r db =
     (let (i, db1) = draw E db in
      if list_ex (\<lambda>t. t_id t = i) (transactions db) then Inl (UniqueViolation ''transactions_pkey'')
      else if ledger_of db (t_ledger r) = None
        then Inl (ForeignKeyViolation ''transactions_ledger_id_fkey'')
      else if t_kind r \<notin> set txn_kinds then Inl (CheckViolation ''transactions_kind_check'')
      else if (case t_reverses r of None \<Rightarrow> False | Some o' \<Rightarrow> txn_of db o' = None)
        then Inl (ForeignKeyViolation ''transactions_reverses_id_fkey'')
      else if (case t_number r of None \<Rightarrow> False
               | Some n \<Rightarrow> number_taken db (t_ledger r) (date_year (t_date r)) n)
        then Inl (UniqueViolation ''uq_transactions_number'')
      else Inr (i, db1\<lparr>transactions := transactions db @ [r\<lparr>t_id := i, t_created_at := now E\<rparr>]\<rparr>))"

text \<open>
  The row trigger \<^verbatim>\<open>check_posting_balance\<close>: after each posting, a transaction with two or more
  postings must balance.  Its totals are \<^verbatim>\<open>NUMERIC(20,4)\<close> variables.
\<close>

definition check_posting_balance :: "db \<Rightarrow> uuid \<Rightarrow> db_error + unit" where
  "check_posting_balance db i =
     (let ps = postings_of db i in
      case (numeric_col 20 4 (debit_sum ps), numeric_col 20 4 (credit_sum ps)) of
        (Some dr, Some cr) \<Rightarrow>
          if 2 \<le> length ps \<and> dr \<noteq> cr
          then Inl (RaisedException ''Postings do not balance'') else Inr ()
      | _ \<Rightarrow> Inl NumericOverflow)"

text \<open>Storing one posting; \<open>posting_values\<close> coerces the columns, the rest checks the constraints.\<close>

text \<open>A nullable column: null passes, any other value is coerced to the column's type.\<close>

definition nullable :: "('a \<Rightarrow> 'b option) \<Rightarrow> 'a option \<Rightarrow> 'b option option" where
  "nullable f v = (case v of None \<Rightarrow> Some None | Some x \<Rightarrow> map_option Some (f x))"

definition posting_values :: "posting_row \<Rightarrow> db_error + posting_row" where
  "posting_values r =
     (case (numeric_col 20 4 (p_amount r), nullable (numeric_col 20 4) (p_foreign_amount r)) of
        (Some v, Some fv) \<Rightarrow>
          (case nullable char3 (p_foreign_currency r) of
             None \<Rightarrow> Inl StringTooLong
           | Some c \<Rightarrow> Inr (r\<lparr>p_amount := v, p_foreign_amount := fv, p_foreign_currency := c\<rparr>))
      | _ \<Rightarrow> Inl NumericOverflow)"

definition dim_ok :: "dimension_row list \<Rightarrow> uuid option \<Rightarrow> bool" where
  "dim_ok ds x = (case x of None \<Rightarrow> True | Some i \<Rightarrow> list_ex (\<lambda>d. d_id d = i) ds)"

definition insert_posting :: "env \<Rightarrow> posting_row \<Rightarrow> (db, db_error, uuid) tx" where
  "insert_posting E r0 db =
     rbind (posting_values r0) (\<lambda>r.
      let (i, db1) = draw E db in
      if list_ex (\<lambda>p. p_id p = i) (postings db) then Inl (UniqueViolation ''postings_pkey'')
      else if p_amount r \<le> 0 then Inl (CheckViolation ''postings_amount_check'')
      else if \<not> is_debit r \<and> \<not> is_credit r then Inl (CheckViolation ''postings_direction_check'')
      else if txn_of db (p_txn r) = None
        then Inl (ForeignKeyViolation ''postings_transaction_id_fkey'')
      else if \<not> list_ex (\<lambda>a. a_id a = p_account r) (accounts db)
        then Inl (ForeignKeyViolation ''postings_account_id_fkey'')
      else if \<not> dim_ok (cost_centers db) (p_cost_center r)
        then Inl (ForeignKeyViolation ''postings_cost_center_id_fkey'')
      else if \<not> dim_ok (projects db) (p_project r)
        then Inl (ForeignKeyViolation ''postings_project_id_fkey'')
      else (let db2 = db1\<lparr>postings := postings db @ [r\<lparr>p_id := i\<rparr>]\<rparr> in
            if balance_trigger db
            then rbind (check_posting_balance db2 (p_txn r)) (\<lambda>_. Inr (i, db2))
            else Inr (i, db2)))"

text \<open>
  \<^verbatim>\<open>UPDATE transactions SET kind = k WHERE ...\<close>.  The trigger \<^verbatim>\<open>trg_block_txn_edit\<close> refuses every
  update of a row whose ledger is append-only.
\<close>

definition append_only :: "db \<Rightarrow> uuid \<Rightarrow> bool" where
  "append_only db l = (case ledger_of db l of None \<Rightarrow> False | Some r \<Rightarrow> l_append_only r)"

definition set_kind :: "(txn_row \<Rightarrow> bool) \<Rightarrow> string \<Rightarrow> txn_row list \<Rightarrow> txn_row list" where
  "set_kind sel k ts = map (\<lambda>t. if sel t then t\<lparr>t_kind := k\<rparr> else t) ts"

definition update_kind :: "(txn_row \<Rightarrow> bool) \<Rightarrow> string \<Rightarrow> db \<Rightarrow> db_error + db" where
  "update_kind sel k db =
     (if list_ex (\<lambda>t. sel t \<and> append_only db (t_ledger t)) (transactions db)
      then Inl (RaisedException ''ledger is append-only; edits are not allowed'')
      else Inr (db\<lparr>transactions := set_kind sel k (transactions db)\<rparr>))"

text \<open>
  \<^verbatim>\<open>DELETE FROM transactions WHERE id = $1\<close>: the append-only trigger, then the referential
  actions: postings, tax links and approvals of the row cascade, \<^verbatim>\<open>reverses_id\<close> is set to null.
\<close>

definition delete_transaction :: "uuid \<Rightarrow> db \<Rightarrow> db_error + db" where
  "delete_transaction i db =
     (if list_ex (\<lambda>t. t_id t = i \<and> append_only db (t_ledger t)) (transactions db)
      then Inl (RaisedException ''ledger is append-only; deletes are not allowed'')
      else (let gone = map p_id (filter (\<lambda>p. p_txn p = i) (postings db)) in
        Inr (db\<lparr>transactions := map (\<lambda>t. if t_reverses t = Some i then t\<lparr>t_reverses := None\<rparr> else t)
                                   (filter (\<lambda>t. t_id t \<noteq> i) (transactions db)),
                postings := filter (\<lambda>p. p_txn p \<noteq> i) (postings db),
                posting_taxes := filter (\<lambda>x. x_posting x \<notin> set gone) (posting_taxes db),
                approvals := filter (\<lambda>j. ja_txn j \<noteq> i) (approvals db),
                fx_revals := filter (\<lambda>f. fv_txn f \<noteq> i) (fx_revals db)\<rparr>)))"

text \<open>\<^verbatim>\<open>DELETE FROM postings WHERE transaction_id = $1\<close>, with the cascade to the tax links.\<close>

definition delete_postings :: "uuid \<Rightarrow> db \<Rightarrow> db" where
  "delete_postings i db =
     (let gone = map p_id (filter (\<lambda>p. p_txn p = i) (postings db)) in
      db\<lparr>postings := filter (\<lambda>p. p_txn p \<noteq> i) (postings db),
         posting_taxes := filter (\<lambda>x. x_posting x \<notin> set gone) (posting_taxes db)\<rparr>)"

definition insert_posting_tax :: "posting_tax_row \<Rightarrow> db \<Rightarrow> db_error + db" where
  "insert_posting_tax r db =
     (case (numeric_col 20 4 (x_tax_amount r),
            case x_base_amount r of None \<Rightarrow> Some None | Some b \<Rightarrow> map_option Some (numeric_col 20 4 b)) of
        (Some tv, Some bv) \<Rightarrow>
          if \<not> list_ex (\<lambda>p. p_id p = x_posting r) (postings db)
            then Inl (ForeignKeyViolation ''posting_taxes_posting_id_fkey'')
          else if x_rate r \<notin> set (tax_rate_ids db)
            then Inl (ForeignKeyViolation ''posting_taxes_tax_rate_id_fkey'')
          else if list_ex (\<lambda>x. x_posting x = x_posting r \<and> x_rate x = x_rate r) (posting_taxes db)
            then Inl (UniqueViolation ''posting_taxes_posting_id_tax_rate_id_key'')
          else Inr (db\<lparr>posting_taxes := posting_taxes db @
                         [r\<lparr>x_tax_amount := tv, x_base_amount := bv\<rparr>]\<rparr>)
      | _ \<Rightarrow> Inl NumericOverflow)"

text \<open>The constraint \<^verbatim>\<open>chk_account_subtype\<close> lists the subtypes of each type.\<close>

definition subtype_allowed :: "string \<Rightarrow> string \<Rightarrow> bool" where
  "subtype_allowed ty st =
     (case account_type_from_db ty of None \<Rightarrow> False
      | Some t \<Rightarrow> st \<in> set (map account_subtype_as_str (valid_subtypes t)))"

definition insert_account :: "env \<Rightarrow> account_row \<Rightarrow> (db, db_error, uuid) tx" where
  "insert_account E r db =
     (let (i, db1) = draw E db in
      case char3 (a_currency r) of None \<Rightarrow> Inl StringTooLong
      | Some currency \<Rightarrow>
      if list_ex (\<lambda>a. a_id a = i) (accounts db) then Inl (UniqueViolation ''accounts_pkey'')
      else if ledger_of db (a_ledger r) = None
        then Inl (ForeignKeyViolation ''accounts_ledger_id_fkey'')
      else if account_type_from_db (a_type r) = None then Inl (CheckViolation ''accounts_type_check'')
      else if \<not> subtype_allowed (a_type r) (a_subtype r) then Inl (CheckViolation ''chk_account_subtype'')
      else if list_ex (\<lambda>a. a_ledger a = a_ledger r \<and> a_name a = a_name r) (accounts db)
        then Inl (UniqueViolation ''accounts_ledger_id_name_key'')
      else Inr (i, db1\<lparr>accounts := accounts db @ [r\<lparr>a_id := i, a_currency := currency\<rparr>]\<rparr>))"

section \<open>Well-formed databases\<close>

definition number_key :: "txn_row \<Rightarrow> uuid \<times> int \<times> string option" where
  "number_key t = (t_ledger t, date_year (t_date t), t_number t)"

definition numbered :: "txn_row \<Rightarrow> bool" where
  "numbered t \<longleftrightarrow> t_number t \<noteq> None"

definition posting_wf :: "db \<Rightarrow> posting_row \<Rightarrow> bool" where
  "posting_wf db p \<longleftrightarrow>
     (is_debit p \<or> is_credit p) \<and> 0 < p_amount p \<and> on_grid 4 (p_amount p) \<and> p_amount p < 10 ^ 16
   \<and> p_txn p \<in> t_id ` set (transactions db) \<and> p_account p \<in> a_id ` set (accounts db)"

definition db_wf :: "db \<Rightarrow> bool" where
  "db_wf db \<longleftrightarrow>
     distinct (map t_id (transactions db))
   \<and> distinct (map p_id (postings db))
   \<and> distinct (map a_id (accounts db))
   \<and> distinct (map number_key (filter numbered (transactions db)))
   \<and> list_all (\<lambda>t. t_kind t \<in> set txn_kinds \<and> t_ledger t \<in> l_id ` set (ledgers db)) (transactions db)
   \<and> list_all (posting_wf db) (postings db)"

lemma txn_of_None: "txn_of db i = None \<longleftrightarrow> i \<notin> t_id ` set (transactions db)"
  by (auto simp: txn_of_def find_None_iff)

lemma txn_of_mem: "txn_of db i = Some t \<Longrightarrow> t \<in> set (transactions db) \<and> t_id t = i"
  unfolding txn_of_def by (rule find_Some_mem)

lemma txn_of_eqI:
  assumes "distinct (map t_id (transactions db))" and "t \<in> set (transactions db)" and "t_id t = i"
  shows "txn_of db i = Some t"
proof -
  have "txn_of db i \<noteq> None" using assms by (auto simp: txn_of_None)
  then obtain t' where t': "txn_of db i = Some t'" by auto
  then have "t' \<in> set (transactions db)" "t_id t' = i" using txn_of_mem by blast+
  with assms have "t' = t" by (auto simp: distinct_map inj_on_def)
  with t' show ?thesis by simp
qed

lemma ledger_of_mem: "ledger_of db l = Some r \<Longrightarrow> r \<in> set (ledgers db) \<and> l_id r = l"
  unfolding ledger_of_def by (rule find_Some_mem)

lemma ledger_of_None: "ledger_of db l = None \<longleftrightarrow> l \<notin> l_id ` set (ledgers db)"
  by (auto simp: ledger_of_def find_None_iff)

lemma number_taken_iff:
  "number_taken db l y n \<longleftrightarrow>
     (l, y, Some n) \<in> number_key ` set (filter numbered (transactions db))"
  by (auto simp: number_taken_def number_key_def numbered_def list_ex_iff image_iff)

section \<open>What a successful statement did\<close>

lemma insert_transaction_Inr:
  "insert_transaction E r db = Inr (i, db') \<longleftrightarrow>
     i = uuid_at E (drawn db) \<and> i \<notin> t_id ` set (transactions db)
   \<and> t_ledger r \<in> l_id ` set (ledgers db) \<and> t_kind r \<in> set txn_kinds
   \<and> (\<forall>o'. t_reverses r = Some o' \<longrightarrow> txn_of db o' \<noteq> None)
   \<and> (\<forall>n. t_number r = Some n \<longrightarrow> \<not> number_taken db (t_ledger r) (date_year (t_date r)) n)
   \<and> db' = db\<lparr>drawn := Suc (drawn db),
              transactions := transactions db @ [r\<lparr>t_id := i, t_created_at := now E\<rparr>]\<rparr>"
  unfolding insert_transaction_def draw_def Let_def split_beta fst_conv snd_conv
  by (auto simp: list_ex_key ledger_of_None split: option.splits)

lemma posting_values_Inr:
  "posting_values r0 = Inr r \<Longrightarrow>
     numeric_col 20 4 (p_amount r0) = Some (p_amount r) \<and> p_txn r = p_txn r0
   \<and> p_account r = p_account r0 \<and> p_direction r = p_direction r0 \<and> p_memo r = p_memo r0
   \<and> p_cost_center r = p_cost_center r0 \<and> p_project r = p_project r0
   \<and> (p_foreign_amount r = None \<longleftrightarrow> p_foreign_amount r0 = None)"
  by (cases "p_foreign_amount r0") (auto simp: posting_values_def nullable_def split: option.splits dest: sym)

lemma insert_posting_Inr:
  assumes "insert_posting E r0 db = Inr (i, db')"
  obtains r where "posting_values r0 = Inr r"
    and "i = uuid_at E (drawn db)" and "i \<notin> p_id ` set (postings db)"
    and "0 < p_amount r" and "is_debit r \<or> is_credit r"
    and "p_txn r \<in> t_id ` set (transactions db)" and "p_account r \<in> a_id ` set (accounts db)"
    and "db' = db\<lparr>drawn := Suc (drawn db), postings := postings db @ [r\<lparr>p_id := i\<rparr>]\<rparr>"
    and "balance_trigger db \<Longrightarrow> check_posting_balance db' (p_txn r) = Inr ()"
proof -
  from assms obtain r where r: "posting_values r0 = Inr r"
    by (auto simp: insert_posting_def result_simps)
  show thesis
  proof (rule that [OF r])
    show "i = uuid_at E (drawn db)" "i \<notin> p_id ` set (postings db)" "0 < p_amount r"
      "is_debit r \<or> is_credit r" "p_txn r \<in> t_id ` set (transactions db)"
      "p_account r \<in> a_id ` set (accounts db)"
      "db' = db\<lparr>drawn := Suc (drawn db), postings := postings db @ [r\<lparr>p_id := i\<rparr>]\<rparr>"
      using assms r
      by (auto simp: insert_posting_def draw_def Let_def list_ex_key txn_of_None result_simps
          split: if_splits)
    show "check_posting_balance db' (p_txn r) = Inr ()" if "balance_trigger db"
      using assms r that
      by (auto simp: insert_posting_def draw_def Let_def result_simps split: if_splits)
  qed
qed

lemma insert_account_Inr:
  "insert_account E r db = Inr (i, db') \<longleftrightarrow>
     (\<exists>c. char3 (a_currency r) = Some c \<and> i = uuid_at E (drawn db) \<and> i \<notin> a_id ` set (accounts db)
       \<and> a_ledger r \<in> l_id ` set (ledgers db) \<and> account_type_from_db (a_type r) \<noteq> None
       \<and> subtype_allowed (a_type r) (a_subtype r)
       \<and> (a_ledger r, a_name r) \<notin> (\<lambda>a. (a_ledger a, a_name a)) ` set (accounts db)
       \<and> db' = db\<lparr>drawn := Suc (drawn db), accounts := accounts db @ [r\<lparr>a_id := i, a_currency := c\<rparr>]\<rparr>)"
  unfolding insert_account_def draw_def Let_def split_beta fst_conv snd_conv
  by (cases "char3 (a_currency r)") (auto simp: list_ex_key list_ex_key2 ledger_of_None)

lemma numeric_col_pos:
  "numeric_col 20 4 x = Some v \<Longrightarrow> 0 < v \<Longrightarrow> on_grid 4 v \<and> v < 10 ^ 16"
  using away.rnd_grid [of 4 x] by (auto dest!: numeric_col_Some)

section \<open>Preservation of well-formedness\<close>

lemma db_wf_insert_transaction:
  assumes "db_wf db" and "insert_transaction E r db = Inr (i, db')"
  shows "db_wf db'"
proof -
  have nk: "number_key (r\<lparr>t_id := i, t_created_at := k\<rparr>) = number_key r" for k
    by (simp add: number_key_def)
  show ?thesis
    using assms
    by (cases "t_number r")
      (auto simp: insert_transaction_Inr db_wf_def posting_wf_def list_all_iff nk number_taken_iff
        number_key_def numbered_def)
qed

lemma db_wf_insert_account:
  "db_wf db \<Longrightarrow> insert_account E r db = Inr (i, db') \<Longrightarrow> db_wf db'"
  by (auto simp: insert_account_Inr db_wf_def posting_wf_def list_all_iff)

lemma db_wf_insert_posting:
  assumes "db_wf db" and "insert_posting E r0 db = Inr (i, db')"
  shows "db_wf db'"
  using assms(2)
proof (rule insert_posting_Inr)
  fix r
  assume r: "posting_values r0 = Inr r" "0 < p_amount r" "i \<notin> p_id ` set (postings db)"
    "is_debit r \<or> is_credit r" "p_txn r \<in> t_id ` set (transactions db)"
    "p_account r \<in> a_id ` set (accounts db)"
    "db' = db\<lparr>drawn := Suc (drawn db), postings := postings db @ [r\<lparr>p_id := i\<rparr>]\<rparr>"
  then have "on_grid 4 (p_amount r)" "p_amount r < 10 ^ 16"
    using posting_values_Inr numeric_col_pos by blast+
  with r have "posting_wf db (r\<lparr>p_id := i\<rparr>)"
    by (auto simp: posting_wf_def is_debit_def is_credit_def)
  with assms(1) r show ?thesis
    by (auto simp: db_wf_def list_all_iff posting_wf_def)
qed

lemma update_kind_Inr:
  "update_kind sel k db = Inr db' \<longleftrightarrow>
     db' = db\<lparr>transactions := set_kind sel k (transactions db)\<rparr>
   \<and> (\<forall>t\<in>set (transactions db). sel t \<longrightarrow> \<not> append_only db (t_ledger t))"
  by (auto simp: update_kind_def list_ex_iff)

lemma set_kind_ids [simp]: "map t_id (set_kind sel k ts) = map t_id ts"
  by (induction ts) (auto simp: set_kind_def)

lemma set_kind_id_set [simp]: "t_id ` set (set_kind sel k ts) = t_id ` set ts"
  by (metis list.set_map set_kind_ids)

lemma set_kind_numbers [simp]:
  "map number_key (filter numbered (set_kind sel k ts))
   = map number_key (filter numbered ts)"
  by (induction ts) (auto simp: set_kind_def number_key_def numbered_def)

lemma set_kind_mem:
  "t' \<in> set (set_kind sel k ts) \<longleftrightarrow>
     (\<exists>t\<in>set ts. t' = (if sel t then t\<lparr>t_kind := k\<rparr> else t))"
  by (auto simp: set_kind_def image_iff)

lemma db_wf_update_kind:
  assumes "db_wf db" and "update_kind sel k db = Inr db'" and "k \<in> set txn_kinds"
  shows "db_wf db'"
proof -
  from assms(2) have db': "db' = db\<lparr>transactions := set_kind sel k (transactions db)\<rparr>"
    by (simp add: update_kind_Inr)
  have "list_all (\<lambda>t. t_kind t \<in> set txn_kinds \<and> t_ledger t \<in> l_id ` set (ledgers db))
          (set_kind sel k (transactions db))"
    using assms(1,3) by (auto simp: db_wf_def list_all_iff set_kind_mem)
  moreover have "list_all (posting_wf db') (postings db)"
    using assms(1) by (auto simp: db' db_wf_def posting_wf_def list_all_iff)
  ultimately show ?thesis
    using assms(1) unfolding db_wf_def db' by simp
qed

section \<open>Fresh identifiers\<close>

text \<open>
  \<^verbatim>\<open>gen_random_uuid()\<close> never repeats itself and never draws the nil identifier: the stream is
  injective and what is still to be drawn occurs in no table.
\<close>

definition row_ids :: "db \<Rightarrow> uuid set" where
  "row_ids db =
     t_id ` set (transactions db) \<union> p_id ` set (postings db) \<union> a_id ` set (accounts db)
   \<union> j_id ` set (jobs db) \<union> wd_id ` set (deliveries db) \<union> wd_event ` set (deliveries db)
   \<union> au_id ` set (audit_entries db) \<union> d_id ` set (cost_centers db)"

definition fresh_ids :: "env \<Rightarrow> db \<Rightarrow> bool" where
  "fresh_ids E db \<longleftrightarrow>
     inj (uuid_at E) \<and> (\<forall>n\<ge>drawn db. uuid_at E n \<noteq> 0 \<and> uuid_at E n \<notin> row_ids db)"

lemma fresh_drawn:
  assumes "fresh_ids E db"
  shows "uuid_at E (drawn db) \<noteq> 0" "uuid_at E (drawn db) \<notin> row_ids db"
  using assms by (simp_all add: fresh_ids_def)

lemma fresh_ids_step:
  assumes "fresh_ids E db" and "row_ids db' \<subseteq> insert (uuid_at E (drawn db)) (row_ids db)"
    and "drawn db' = Suc (drawn db)"
  shows "fresh_ids E db'"
  unfolding fresh_ids_def
proof (intro conjI allI impI)
  show inj: "inj (uuid_at E)" using assms(1) by (simp add: fresh_ids_def)
  fix n assume n: "drawn db' \<le> n"
  then show "uuid_at E n \<noteq> 0" using assms(1,3) by (simp add: fresh_ids_def)
  have "uuid_at E n \<noteq> uuid_at E (drawn db)" using injD [OF inj] n assms(3) by fastforce
  moreover have "uuid_at E n \<notin> row_ids db" using assms(1,3) n by (simp add: fresh_ids_def)
  ultimately show "uuid_at E n \<notin> row_ids db'" using assms(2) by blast
qed

end
