(* ===== verification/Audit_Chain.thy ===== *)
theory Audit_Chain
  imports Db_Schema "HOL-Library.Product_Lexorder"
begin

text \<open>
  The hash chain over \<^verbatim>\<open>audit_entries\<close>, from \<^verbatim>\<open>src/src/audit/chain.rs\<close> and \<^verbatim>\<open>src/src/audit.rs\<close>:
  the canonical serialisation of a row, \<^verbatim>\<open>log_hashed\<close>, \<^verbatim>\<open>ensure_backfilled\<close>, \<^verbatim>\<open>verify\<close> and the
  listing query.  The results: the serialisation is injective, appending at the end of the
  order keeps a clean chain clean, and two clean chains that end in the same hash differ only
  where SHA-256 collides or in the content of the first row.
\<close>

section \<open>Canonical bytes\<close>

definition push_opt_uuid :: "env \<Rightarrow> uuid option \<Rightarrow> byte list" where
  "push_opt_uuid E v = (case v of Some u \<Rightarrow> 1 # uuid_bytes E u | None \<Rightarrow> [0])"

definition push_str :: "string \<Rightarrow> byte list" where
  "push_str s = u64_le (length (utf8 s)) @ utf8 s"

definition push_opt_json :: "env \<Rightarrow> json option \<Rightarrow> byte list" where
  "push_opt_json E v =
     (case v of Some j \<Rightarrow> 1 # u64_le (length (json_bytes E j)) @ json_bytes E j | None \<Rightarrow> [0])"

definition canonical_bytes ::
  "env \<Rightarrow> uuid option \<Rightarrow> uuid \<Rightarrow> string \<Rightarrow> string \<Rightarrow> uuid option \<Rightarrow> json option \<Rightarrow> json option \<Rightarrow> int \<Rightarrow> byte list"
  where
  "canonical_bytes E ledger_id actor_id action entity_type entity_id old_value new_value created_at =
     push_opt_uuid E ledger_id @ uuid_bytes E actor_id @ push_str action @ push_str entity_type
   @ push_opt_uuid E entity_id @ push_opt_json E old_value @ push_opt_json E new_value
   @ i64_le created_at"

definition row_bytes :: "env \<Rightarrow> audit_row \<Rightarrow> byte list" where
  "row_bytes E r = canonical_bytes E (au_ledger r) (au_actor r) (au_action r) (au_entity r)
                     (au_entity_id r) (au_old r) (au_new r) (au_created r)"

definition compute_hash :: "env \<Rightarrow> byte list option \<Rightarrow> byte list \<Rightarrow> byte list" where
  "compute_hash E prev content =
     sha256 E ((case prev of Some p \<Rightarrow> p | None \<Rightarrow> []) @ content)"

section \<open>Appending, backfilling, verifying\<close>

text \<open>\<^verbatim>\<open>ORDER BY created_at ASC, id ASC\<close>; the tail is the last row that has a hash.\<close>

definition chain_order :: "audit_row list \<Rightarrow> audit_row list" where
  "chain_order rows = sort_key (\<lambda>r. (au_created r, au_id r)) rows"

definition tail_hash :: "audit_row list \<Rightarrow> byte list option" where
  "tail_hash rows =
     (case rev (filter (\<lambda>r. au_hash r \<noteq> None) (chain_order rows)) of [] \<Rightarrow> None | r # _ \<Rightarrow> au_hash r)"

definition log_hashed ::
  "env \<Rightarrow> uuid option \<Rightarrow> uuid \<Rightarrow> string \<Rightarrow> string \<Rightarrow> uuid option \<Rightarrow> json option \<Rightarrow> json option \<Rightarrow> int
   \<Rightarrow> db \<Rightarrow> (db_error + unit) \<times> db" where
  "log_hashed E ledger_id actor_id action entity_type entity_id old_value new_value created_at =
     run_tx (\<lambda>db.
       let (i, db1) = draw E db;
           content = canonical_bytes E ledger_id actor_id action entity_type entity_id
                       old_value new_value created_at;
           prev = tail_hash (audit_entries db);
           row = \<lparr>au_id = i, au_prev = prev, au_hash = Some (compute_hash E prev content),
                  au_ledger = ledger_id, au_actor = actor_id, au_action = action,
                  au_entity = entity_type, au_entity_id = entity_id, au_old = old_value,
                  au_new = new_value, au_created = created_at\<rparr>
       in if list_ex (\<lambda>r. au_id r = i) (audit_entries db)
          then Inl (UniqueViolation ''audit_entries_pkey'')
          else Inr ((), db1\<lparr>audit_entries := audit_entries db @ [row]\<rparr>))"

text \<open>\<^verbatim>\<open>audit::log\<close> stamps the row with the current time.  Callers ignore its result.\<close>

definition audit_log ::
  "env \<Rightarrow> uuid option \<Rightarrow> uuid \<Rightarrow> string \<Rightarrow> string \<Rightarrow> uuid option \<Rightarrow> json option \<Rightarrow> json option
   \<Rightarrow> db \<Rightarrow> db" where
  "audit_log E ledger_id actor_id action entity_type entity_id old_value new_value db =
     snd (log_hashed E ledger_id actor_id action entity_type entity_id old_value new_value (now E) db)"

text \<open>\<^verbatim>\<open>UPDATE audit_entries SET prev_hash, hash WHERE id\<close>, one row at a time.\<close>

fun backfill_rows :: "env \<Rightarrow> byte list option \<Rightarrow> audit_row list \<Rightarrow> (uuid \<times> byte list option \<times> byte list) list"
  where
  "backfill_rows E prev [] = []"
| "backfill_rows E prev (r # rs) =
     (let h = compute_hash E prev (row_bytes E r)
      in (au_id r, prev, h) # backfill_rows E (Some h) rs)"

definition set_hashes :: "(uuid \<times> byte list option \<times> byte list) list \<Rightarrow> audit_row \<Rightarrow> audit_row" where
  "set_hashes us r =
     (case map_of us (au_id r) of None \<Rightarrow> r
      | Some (p, h) \<Rightarrow> r\<lparr>au_prev := p, au_hash := Some h\<rparr>)"

definition ensure_backfilled :: "env \<Rightarrow> db \<Rightarrow> nat \<times> db" where
  "ensure_backfilled E db =
     (let todo = chain_order (filter (\<lambda>r. au_hash r = None) (audit_entries db)) in
      if todo = [] then (0, db)
      else (let us = backfill_rows E (tail_hash (audit_entries db)) todo
            in (length todo, db\<lparr>audit_entries := map (set_hashes us) (audit_entries db)\<rparr>)))"

datatype break_reason = FirstRowHasPrev | PrevMismatch | HashMismatch

text \<open>The walk of \<^verbatim>\<open>verify\<close>: \<open>prev_hash\<close> is the hash of the row before, if it had one.\<close>

fun verify_rows :: "env \<Rightarrow> byte list option \<Rightarrow> audit_row list \<Rightarrow> (uuid \<times> break_reason) list" where
  "verify_rows E prev_hash [] = []"
| "verify_rows E prev_hash (row # rows) =
     (case prev_hash of
        None \<Rightarrow>
          (if au_prev row \<noteq> None then [(au_id row, FirstRowHasPrev)] else [])
          @ verify_rows E (au_hash row) rows
      | Some expected_prev \<Rightarrow>
          (if au_prev row \<noteq> Some expected_prev then [(au_id row, PrevMismatch)] else [])
          @ (if au_hash row \<noteq> Some (compute_hash E (au_prev row) (row_bytes E row))
             then [(au_id row, HashMismatch)] else [])
          @ verify_rows E (au_hash row) rows)"

definition verify :: "env \<Rightarrow> db \<Rightarrow> (uuid \<times> break_reason) list" where
  "verify E db = verify_rows E None (chain_order (audit_entries db))"

definition audit_list ::
  "uuid option \<Rightarrow> uuid option \<Rightarrow> string option \<Rightarrow> string option \<Rightarrow> int option \<Rightarrow> int option \<Rightarrow> nat \<Rightarrow> nat
   \<Rightarrow> db \<Rightarrow> audit_row list" where
  "audit_list ledger_id actor_id action entity_type from to limit offset db =
     take limit (drop offset (rev (sort_key au_created
       (filter (\<lambda>r. (ledger_id = None \<or> au_ledger r = ledger_id)
                 \<and> (actor_id = None \<or> Some (au_actor r) = actor_id)
                 \<and> (action = None \<or> Some (au_action r) = action)
                 \<and> (entity_type = None \<or> Some (au_entity r) = entity_type)
                 \<and> (case from of None \<Rightarrow> True | Some t \<Rightarrow> t \<le> au_created r)
                 \<and> (case to of None \<Rightarrow> True | Some t \<Rightarrow> au_created r \<le> t))
         (audit_entries db)))))"

section \<open>The serialisation is injective\<close>

text \<open>
  What the rows need of the crates: identifiers are sixteen bytes, different identifiers of 128 bits and
  different JSON values (of the set \<open>J\<close> of values in use) print differently; and of the row: identifiers fit in 128
  bits, lengths in 64 bits and the timestamp in an \<^verbatim>\<open>i64\<close>.
\<close>

definition faithful_bytes :: "env \<Rightarrow> json set \<Rightarrow> bool" where
  "faithful_bytes E J \<longleftrightarrow>
     (\<forall>u. length (uuid_bytes E u) = 16) \<and> inj_on (uuid_bytes E) {u. u < 2 ^ 128} \<and> inj_on (json_bytes E) J"

definition uuid_in_range :: "uuid option \<Rightarrow> bool" where
  "uuid_in_range v = (case v of None \<Rightarrow> True | Some u \<Rightarrow> u < 2 ^ 128)"

definition json_in_range :: "env \<Rightarrow> json set \<Rightarrow> json option \<Rightarrow> bool" where
  "json_in_range E J v =
     (case v of None \<Rightarrow> True | Some j \<Rightarrow> j \<in> J \<and> length (json_bytes E j) < 2 ^ 64)"

definition row_in_range :: "env \<Rightarrow> json set \<Rightarrow> audit_row \<Rightarrow> bool" where
  "row_in_range E J r \<longleftrightarrow>
     uuid_in_range (au_ledger r) \<and> au_actor r < 2 ^ 128 \<and> uuid_in_range (au_entity_id r)
   \<and> length (utf8 (au_action r)) < 2 ^ 64 \<and> length (utf8 (au_entity r)) < 2 ^ 64
   \<and> json_in_range E J (au_old r) \<and> json_in_range E J (au_new r)
   \<and> - (2 ^ 63) \<le> au_created r \<and> au_created r < 2 ^ 63"

definition same_content :: "audit_row \<Rightarrow> audit_row \<Rightarrow> bool" where
  "same_content r s \<longleftrightarrow>
     au_ledger r = au_ledger s \<and> au_actor r = au_actor s \<and> au_action r = au_action s
   \<and> au_entity r = au_entity s \<and> au_entity_id r = au_entity_id s \<and> au_old r = au_old s
   \<and> au_new r = au_new s \<and> au_created r = au_created s"

lemma u64_le_append:
  "m < 2 ^ 64 \<Longrightarrow> n < 2 ^ 64 \<Longrightarrow> u64_le m @ xs = u64_le n @ ys \<Longrightarrow> m = n \<and> xs = ys"
  using le_bytes_inj [of m 8 n] by (auto simp: u64_le_def)

lemma push_str_append:
  assumes "length (utf8 s) < 2 ^ 64" and "length (utf8 t) < 2 ^ 64"
    and "push_str s @ xs = push_str t @ ys"
  shows "s = t \<and> xs = ys"
proof -
  from assms(3) have "u64_le (length (utf8 s)) @ (utf8 s @ xs) = u64_le (length (utf8 t)) @ (utf8 t @ ys)"
    by (simp add: push_str_def)
  then have "length (utf8 s) = length (utf8 t)" "utf8 s @ xs = utf8 t @ ys"
    using u64_le_append [OF assms(1,2)] by auto
  then have "utf8 s = utf8 t" "xs = ys" by auto
  then show ?thesis by (auto dest: utf8_inj)
qed

lemma uuid_bytes_append:
  "faithful_bytes E J \<Longrightarrow> u < 2 ^ 128 \<Longrightarrow> v < 2 ^ 128 \<Longrightarrow> uuid_bytes E u @ xs = uuid_bytes E v @ ys \<Longrightarrow> u = v \<and> xs = ys"
  by (auto simp: faithful_bytes_def simp del: power_numeral dest: inj_onD)

lemma push_opt_uuid_append:
  "faithful_bytes E J \<Longrightarrow> uuid_in_range u \<Longrightarrow> uuid_in_range v \<Longrightarrow> push_opt_uuid E u @ xs = push_opt_uuid E v @ ys \<Longrightarrow> u = v \<and> xs = ys"
  using uuid_bytes_append [of E J "the u" "the v" xs ys]
  by (cases u; cases v) (simp_all add: push_opt_uuid_def uuid_in_range_def del: power_numeral)

lemma push_opt_json_append:
  assumes E: "faithful_bytes E J" and u: "json_in_range E J u" and v: "json_in_range E J v"
    and eq: "push_opt_json E u @ xs = push_opt_json E v @ ys"
  shows "u = v \<and> xs = ys"
proof (cases u)
  case None
  with eq show ?thesis by (cases v) (auto simp: push_opt_json_def)
next
  case (Some j)
  with eq obtain k where k: "v = Some k" by (cases v) (auto simp: push_opt_json_def)
  have len: "length (json_bytes E j) < 2 ^ 64" "length (json_bytes E k) < 2 ^ 64"
    using u v Some k by (simp_all add: json_in_range_def)
  from Some k eq have
    "u64_le (length (json_bytes E j)) @ json_bytes E j @ xs = u64_le (length (json_bytes E k)) @ json_bytes E k @ ys"
    by (simp add: push_opt_json_def)
  from u64_le_append [OF len this]
  have "json_bytes E j = json_bytes E k \<and> xs = ys" by (metis append_eq_append_conv)
  with E u v Some k show ?thesis
    by (auto simp: faithful_bytes_def json_in_range_def dest: inj_onD)
qed

lemma i64_le_inj:
  assumes "- (2 ^ 63) \<le> i" "i < 2 ^ 63" "- (2 ^ 63) \<le> j" "j < 2 ^ 63" "i64_le i = i64_le j"
  shows "i = j"
proof (rule ccontr)
  assume "i \<noteq> j"
  have "nat (i mod 2 ^ 64) < 256 ^ 8" "nat (j mod 2 ^ 64) < 256 ^ 8"
    by (simp_all add: nat_less_iff)
  with assms(5) have "nat (i mod 2 ^ 64) = nat (j mod 2 ^ 64)"
    unfolding i64_le_def by (rule le_bytes_inj [rotated 2])
  then have "i mod 2 ^ 64 = j mod 2 ^ 64"
    by (simp add: nat_eq_iff2 eq_nat_nat_iff)
  then have "2 ^ 64 dvd i - j" by (simp add: mod_eq_dvd_iff)
  with \<open>i \<noteq> j\<close> have "\<bar>2 ^ 64\<bar> \<le> \<bar>i - j\<bar>" by (intro dvd_imp_le_int) auto
  with assms(1-4) show False by simp
qed

lemma row_bytes_same_content:
  assumes E: "faithful_bytes E J" and r: "row_in_range E J r" and s: "row_in_range E J s"
    and eq: "row_bytes E r = row_bytes E s"
  shows "same_content r s"
proof -
  note eq = eq [unfolded row_bytes_def canonical_bytes_def]
  have us: "uuid_in_range (au_ledger r)" "uuid_in_range (au_ledger s)" "au_actor r < 2 ^ 128" "au_actor s < 2 ^ 128"
    "uuid_in_range (au_entity_id r)" "uuid_in_range (au_entity_id s)"
    using r s by (auto simp: row_in_range_def)
  note a1 = push_opt_uuid_append [OF E us(1,2) eq]
  note a2 = uuid_bytes_append [OF E us(3,4) a1 [THEN conjunct2]]
  have rs: "length (utf8 (au_action r)) < 2 ^ 64" "length (utf8 (au_action s)) < 2 ^ 64"
    "length (utf8 (au_entity r)) < 2 ^ 64" "length (utf8 (au_entity s)) < 2 ^ 64"
    using r s by (auto simp: row_in_range_def)
  note a3 = push_str_append [OF rs(1,2) a2 [THEN conjunct2]]
  note a4 = push_str_append [OF rs(3,4) a3 [THEN conjunct2]]
  note a5 = push_opt_uuid_append [OF E us(5,6) a4 [THEN conjunct2]]
  have js: "json_in_range E J (au_old r)" "json_in_range E J (au_old s)"
    "json_in_range E J (au_new r)" "json_in_range E J (au_new s)"
    using r s by (auto simp: row_in_range_def)
  note a6 = push_opt_json_append [OF E js(1,2) a5 [THEN conjunct2]]
  note a7 = push_opt_json_append [OF E js(3,4) a6 [THEN conjunct2]]
  have "au_created r = au_created s"
    using a7 r s by (intro i64_le_inj) (auto simp: row_in_range_def)
  with a1 a2 a3 a4 a5 a6 a7 show ?thesis by (auto simp: same_content_def)
qed


section \<open>Appending to a clean chain\<close>

definition all_hashed :: "audit_row list \<Rightarrow> bool" where
  "all_hashed rows \<longleftrightarrow> list_all (\<lambda>r. au_hash r \<noteq> None) rows"

definition end_hash :: "byte list option \<Rightarrow> audit_row list \<Rightarrow> byte list option" where
  "end_hash p rows = (if rows = [] then p else au_hash (last rows))"

lemma end_hash_simps [simp]:
  "end_hash p [] = p" "end_hash p (r # rows) = end_hash (au_hash r) rows"
  by (simp_all add: end_hash_def)

lemma verify_rows_append:
  "verify_rows E p (rows @ rows') = verify_rows E p rows @ verify_rows E (end_hash p rows) rows'"
  by (induction rows arbitrary: p) (auto split: option.splits)

lemma tail_hash_last:
  assumes "all_hashed rows"
  shows "tail_hash rows = end_hash None (chain_order rows)"
proof -
  have "filter (\<lambda>r. au_hash r \<noteq> None) (chain_order rows) = chain_order rows"
    using assms by (auto simp: all_hashed_def chain_order_def list_all_iff)
  then show ?thesis
    by (cases "chain_order rows" rule: rev_cases) (simp_all add: tail_hash_def end_hash_def)
qed

lemma end_hash_None_iff:
  "all_hashed rows \<Longrightarrow> end_hash None rows = None \<longleftrightarrow> rows = []"
  by (cases rows rule: rev_cases) (auto simp: end_hash_def all_hashed_def)

lemma all_hashed_chain_order [simp]: "all_hashed (chain_order rows) = all_hashed rows"
  by (simp add: all_hashed_def chain_order_def list_all_iff)

definition chain_clean :: "env \<Rightarrow> db \<Rightarrow> bool" where
  "chain_clean E db \<longleftrightarrow> all_hashed (audit_entries db) \<and> verify E db = []"

text \<open>
  The row that \<open>log_hashed\<close> writes continues the chain when it sorts after every row already
  there, by time and then by identifier.
\<close>

lemma log_hashed_chain_clean:
  assumes clean: "chain_clean E db"
    and last: "\<And>r. r \<in> set (audit_entries db) \<Longrightarrow>
                 (au_created r, au_id r) < (created, uuid_at E (drawn db))"
  shows "chain_clean E (snd (log_hashed E l a act ent eid ov nv created db))"
proof -
  let ?i = "uuid_at E (drawn db)" and ?rows = "audit_entries db"
  let ?prev = "tail_hash ?rows"
  let ?new = "\<lparr>au_id = ?i, au_prev = ?prev,
      au_hash = Some (compute_hash E ?prev (canonical_bytes E l a act ent eid ov nv created)),
      au_ledger = l, au_actor = a, au_action = act, au_entity = ent, au_entity_id = eid,
      au_old = ov, au_new = nv, au_created = created\<rparr>"
  have hashed: "all_hashed ?rows" and ver: "verify_rows E None (chain_order ?rows) = []"
    using clean by (auto simp: chain_clean_def verify_def)
  have ord: "chain_order (?rows @ [?new]) = chain_order ?rows @ [?new]"
    unfolding chain_order_def by (rule sort_key_snoc) (use last in fastforce)
  have prev: "?prev = end_hash None (chain_order ?rows)"
    by (rule tail_hash_last [OF hashed])
  have step: "verify_rows E (end_hash None (chain_order ?rows)) [?new] = []"
    unfolding prev [symmetric] by (cases ?prev) (simp_all add: row_bytes_def)
  have "verify_rows E None (chain_order (?rows @ [?new])) = []"
    unfolding ord verify_rows_append using ver step by simp
  moreover have "all_hashed (?rows @ [?new])" using hashed by (simp add: all_hashed_def)
  ultimately show ?thesis
    using clean by (auto simp: log_hashed_def run_tx_def draw_def Let_def chain_clean_def verify_def)
qed

section \<open>Tampering\<close>

text \<open>What is hashed for a row, and two logs that hold a collision: the inputs of two corresponding rows.\<close>

definition hashed_input :: "env \<Rightarrow> audit_row \<Rightarrow> byte list" where
  "hashed_input E r = (case au_prev r of Some p \<Rightarrow> p | None \<Rightarrow> []) @ row_bytes E r"

definition rows_collide :: "env \<Rightarrow> audit_row list \<Rightarrow> audit_row list \<Rightarrow> bool" where
  "rows_collide E rs ss \<longleftrightarrow>
     list_ex (\<lambda>(r, s). hashed_input E r \<noteq> hashed_input E s \<and> sha256 E (hashed_input E r) = sha256 E (hashed_input E s))
       (zip rs ss)"

lemma rows_collide_simps [simp]:
  "rows_collide E [] [] = False"
  "rows_collide E (r # rs) (s # ss) \<longleftrightarrow>
     hashed_input E r \<noteq> hashed_input E s \<and> sha256 E (hashed_input E r) = sha256 E (hashed_input E s) \<or> rows_collide E rs ss"
  by (simp_all add: rows_collide_def)

lemma verify_rows_Some_Nil:
  "verify_rows E (Some h) (r # rs) = [] \<longleftrightarrow>
     au_prev r = Some h \<and> au_hash r = Some (sha256 E (h @ row_bytes E r))
   \<and> verify_rows E (au_hash r) rs = []"
  by (auto simp: compute_hash_def)

lemma clean_chains_agree:
  assumes len: "\<And>x. length (sha256 E x) = 32"
  shows "verify_rows E (Some h) rs = [] \<Longrightarrow> verify_rows E (Some h') ss = [] \<Longrightarrow>
     length rs = length ss \<Longrightarrow> length h = 32 \<Longrightarrow> length h' = 32 \<Longrightarrow>
     end_hash (Some h) rs = end_hash (Some h') ss \<Longrightarrow>
     rows_collide E rs ss \<or> h = h' \<and> list_all2 (\<lambda>r s. row_bytes E r = row_bytes E s) rs ss"
proof (induction rs arbitrary: h h' ss)
  case Nil
  then show ?case by simp
next
  case (Cons r rs)
  then obtain s ss' where ss: "ss = s # ss'" by (cases ss) auto
  let ?a = "sha256 E (h @ row_bytes E r)" and ?b = "sha256 E (h' @ row_bytes E s)"
  note c = Cons.prems [unfolded ss verify_rows_Some_Nil]
  have hi: "hashed_input E r = h @ row_bytes E r" "hashed_input E s = h' @ row_bytes E s"
    using c by (simp_all add: hashed_input_def)
  have "rows_collide E rs ss' \<or> ?a = ?b \<and> list_all2 (\<lambda>r s. row_bytes E r = row_bytes E s) rs ss'"
    using c by (intro Cons.IH) (auto simp: len)
  then show ?case
  proof
    assume ab: "?a = ?b \<and> list_all2 (\<lambda>r s. row_bytes E r = row_bytes E s) rs ss'"
    show ?case
    proof (cases "h @ row_bytes E r = h' @ row_bytes E s")
      case True
      with c ab ss show ?thesis by simp
    next
      case False
      with ab show ?thesis by (simp add: ss hi)
    qed
  qed (simp add: ss)
qed

lemma verify_end_hashed:
  "verify_rows E (Some h) rs = [] \<Longrightarrow> all_hashed rs"
  by (induction rs arbitrary: h) (auto simp: verify_rows_Some_Nil all_hashed_def simp del: verify_rows.simps(2))


section \<open>Backfilling\<close>

lemma sort_key_map:
  "(\<And>x. f (g x) = f x) \<Longrightarrow> sort_key f (map g xs) = map g (sort_key f xs)"
proof (induction xs)
  case Nil
  then show ?case by simp
next
  case (Cons x xs)
  have "insort_key f (g x) (map g ys) = map g (insort_key f x ys)" for ys
    by (induction ys) (simp_all add: Cons.prems)
  with Cons show ?case by simp
qed

lemma set_hashes_key [simp]:
  "au_created (set_hashes us r) = au_created r" "au_id (set_hashes us r) = au_id r"
  "row_bytes E (set_hashes us r) = row_bytes E r"
  by (simp_all add: set_hashes_def row_bytes_def split: option.splits prod.splits)

lemma set_hashes_Cons: "au_id r \<noteq> i \<Longrightarrow> set_hashes ((i, p, h) # us) r = set_hashes us r"
  by (simp add: set_hashes_def)

lemma set_hashes_prev:
  "set_hashes ((au_id r, p, h) # us) r = r\<lparr>au_prev := p, au_hash := Some h\<rparr>"
  by (simp add: set_hashes_def)

text \<open>Only the hash columns change, so the walk over the updated rows meets what it expects.\<close>

lemma verify_backfilled:
  "distinct (map au_id rows) \<Longrightarrow>
     verify_rows E prev (map (set_hashes (backfill_rows E prev rows)) rows) = []
   \<and> all_hashed (map (set_hashes (backfill_rows E prev rows)) rows)"
proof (induction rows arbitrary: prev)
  case Nil
  then show ?case by (simp add: all_hashed_def)
next
  case (Cons r rows)
  let ?h = "compute_hash E prev (row_bytes E r)"
  have tl: "map (set_hashes (backfill_rows E prev (r # rows))) rows
          = map (set_hashes (backfill_rows E (Some ?h) rows)) rows"
  proof (intro map_cong refl)
    fix x assume "x \<in> set rows"
    with Cons.prems have "au_id x \<noteq> au_id r" by (metis distinct.simps(2) image_eqI list.map(2) list.set_map)
    then show "set_hashes (backfill_rows E prev (r # rows)) x = set_hashes (backfill_rows E (Some ?h) rows) x"
      by (simp add: Let_def set_hashes_Cons)
  qed
  have hd: "set_hashes (backfill_rows E prev (r # rows)) r = r\<lparr>au_prev := prev, au_hash := Some ?h\<rparr>"
    by (simp add: Let_def set_hashes_prev)
  have rb: "row_bytes E (r\<lparr>au_prev := p, au_hash := h\<rparr>) = row_bytes E r" for p h
    by (simp add: row_bytes_def)
  have "verify_rows E (Some ?h) (map (set_hashes (backfill_rows E (Some ?h) rows)) rows) = []"
    "all_hashed (map (set_hashes (backfill_rows E (Some ?h) rows)) rows)"
    using Cons by auto
  then show ?case
    unfolding list.map tl hd by (cases prev) (simp_all add: rb all_hashed_def)
qed

section \<open>Properties\<close>

text \<open>
  Appending keeps the chain intact.  When \<^verbatim>\<open>verify\<close> reports no break and the new row sorts
  after every existing row (by \<^verbatim>\<open>created_at\<close>, then id), \<^verbatim>\<open>verify\<close> reports no break after
  \<^verbatim>\<open>log_hashed\<close>.
\<close>

theorem audit_append_keeps_chain:
  assumes "chain_clean E db"
    and "\<forall>r\<in>set (audit_entries db). (au_created r, au_id r) < (created, uuid_at E (drawn db))"
  shows "verify E (snd (log_hashed E l a act ent eid ov nv created db)) = []"
  using log_hashed_chain_clean [of E db created l a act ent eid ov nv] assms
  by (simp add: chain_clean_def)



text \<open>
  The startup backfill builds a valid chain.  On a log in which no row has a hash yet,
  \<^verbatim>\<open>ensure_backfilled\<close> reports the number of rows and leaves a log that passes \<^verbatim>\<open>verify\<close>, and a
  second run changes nothing.
\<close>

theorem audit_backfill_from_scratch:
  assumes "\<forall>r\<in>set (audit_entries db). au_hash r = None" and "distinct (map au_id (audit_entries db))"
  shows "fst (ensure_backfilled E db) = length (audit_entries db)
       \<and> verify E (snd (ensure_backfilled E db)) = []
       \<and> ensure_backfilled E (snd (ensure_backfilled E db)) = (0, snd (ensure_backfilled E db))"
proof (cases "audit_entries db = []")
  case True
  then show ?thesis by (simp add: ensure_backfilled_def verify_def chain_order_def)
next
  case False
  let ?rows = "audit_entries db"
  let ?us = "backfill_rows E None (chain_order ?rows)"
  have todo: "filter (\<lambda>r. au_hash r = None) ?rows = ?rows" and tail: "tail_hash ?rows = None"
    using assms(1) by (auto simp: tail_hash_def chain_order_def filter_empty_conv)
  have ne: "chain_order ?rows \<noteq> []" using False by (metis chain_order_def length_0_conv length_sort)
  have res: "ensure_backfilled E db = (length ?rows, db\<lparr>audit_entries := map (set_hashes ?us) ?rows\<rparr>)"
    using ne by (simp add: ensure_backfilled_def todo tail Let_def) (simp add: chain_order_def)
  have ord: "chain_order (map (set_hashes ?us) ?rows) = map (set_hashes ?us) (chain_order ?rows)"
    unfolding chain_order_def by (rule sort_key_map) simp
  have "distinct (map au_id (chain_order ?rows))"
    using assms(2) by (simp add: chain_order_def distinct_map)
  from verify_backfilled [OF this, of E None]
  have v: "verify_rows E None (chain_order (map (set_hashes ?us) ?rows)) = []"
    and h: "all_hashed (map (set_hashes ?us) ?rows)"
    unfolding ord [symmetric] by simp_all
  from h have "filter (\<lambda>r. au_hash r = None) (map (set_hashes ?us) ?rows) = []"
    by (auto simp: filter_empty_conv all_hashed_def list_all_iff)
  then have "ensure_backfilled E (db\<lparr>audit_entries := map (set_hashes ?us) ?rows\<rparr>)
      = (0, db\<lparr>audit_entries := map (set_hashes ?us) ?rows\<rparr>)"
    by (simp add: ensure_backfilled_def chain_order_def)
  with res v show ?thesis by (simp add: verify_def)
qed

text \<open>
  \<^verbatim>\<open>verify\<close> does not protect the first row.  Whatever its content, actor, action and stored
  hash are replaced by, as long as \<^verbatim>\<open>hash\<close> keeps its value and \<^verbatim>\<open>prev_hash\<close> is null, the walk
  reports exactly the same breaks: the loop skips the content check of that row.
\<close>

theorem audit_first_row_unchecked:
  assumes "au_prev r = None" and "au_prev s = None" and "au_hash r = au_hash s"
  shows "verify_rows E None (r # rows) = verify_rows E None (s # rows)"
  using assms by simp

section \<open>Witnesses\<close>

text \<open>Identifiers of 128 bits as their sixteen bytes.\<close>

definition audit_env :: env where
  "audit_env = sample_env\<lparr>uuid_bytes := le_bytes 16\<rparr>"

definition sample_audit_db :: db where
  "sample_audit_db =
     snd (log_hashed audit_env (Some 1) 7 ''create'' ''transaction'' (Some 2) None None 20
       (snd (log_hashed audit_env None 7 ''login'' ''user'' None None None 10 empty_db)))"

definition sample_first_edited :: db where
  "sample_first_edited = sample_audit_db
     \<lparr>audit_entries := map (\<lambda>r. if au_id r = 20 then r\<lparr>au_action := ''logout''\<rparr> else r)
                         (audit_entries sample_audit_db)\<rparr>"

lemma sample_chain_clean: "chain_clean audit_env sample_audit_db"
  by code_simp

lemma sample_faithful: "faithful_bytes audit_env {}"
  using le_bytes_inj [of _ 16] by (simp add: faithful_bytes_def audit_env_def sample_env_def inj_on_def)

theorem audit_append_witness:
  "verify audit_env (snd (log_hashed audit_env (Some 1) 7 ''post'' ''transaction'' (Some 2)
     None None 30 sample_audit_db)) = []"
proof (rule audit_append_keeps_chain [OF sample_chain_clean])
  show "\<forall>r\<in>set (audit_entries sample_audit_db).
      (au_created r, au_id r) < (30, uuid_at audit_env (drawn sample_audit_db))"
    by code_simp
qed

definition sample_row1 :: audit_row where
  "sample_row1 =
    \<lparr>au_id = 20, au_prev = None, au_hash = Some (replicate 31 0 @ [0]), au_ledger = None, au_actor = 7,
      au_action = ''login'', au_entity = ''user'', au_entity_id = None, au_old = None, au_new = None,
      au_created = 10\<rparr>"

definition sample_row2 :: audit_row where
  "sample_row2 =
     \<lparr>au_id = 21, au_prev = Some (replicate 31 0 @ [0]), au_hash = Some (replicate 31 0 @ [0]),
      au_ledger = Some 1, au_actor = 7, au_action = ''create'', au_entity = ''transaction'',
      au_entity_id = Some 2, au_old = None, au_new = None, au_created = 20\<rparr>"


definition sample_unhashed_db :: db where
  "sample_unhashed_db = sample_audit_db
     \<lparr>audit_entries := map (\<lambda>r. r\<lparr>au_prev := None, au_hash := None\<rparr>) (audit_entries sample_audit_db)\<rparr>"

theorem audit_backfill_witness:
  "fst (ensure_backfilled audit_env sample_unhashed_db) = 2
   \<and> verify audit_env (snd (ensure_backfilled audit_env sample_unhashed_db)) = []"
proof -
  have "\<forall>r\<in>set (audit_entries sample_unhashed_db). au_hash r = None" by code_simp
  moreover have "distinct (map au_id (audit_entries sample_unhashed_db))" by code_simp
  ultimately have "fst (ensure_backfilled audit_env sample_unhashed_db) = length (audit_entries sample_unhashed_db)
      \<and> verify audit_env (snd (ensure_backfilled audit_env sample_unhashed_db)) = []"
    using audit_backfill_from_scratch [of sample_unhashed_db audit_env] by blast
  moreover have "length (audit_entries sample_unhashed_db) = 2" by code_simp
  ultimately show ?thesis by simp
qed

theorem audit_first_row_witness:
  "verify_rows audit_env None [sample_row1, sample_row2]
   = verify_rows audit_env None [sample_row1\<lparr>au_action := ''logout''\<rparr>, sample_row2]"
  by (rule audit_first_row_unchecked) (simp_all add: sample_row1_def)

end
