(* ===== verification/Job_Queue.thy ===== *)
theory Job_Queue
  imports Audit_Chain
begin

text \<open>
  The background queue (\<^verbatim>\<open>src/src/jobs/mod.rs\<close>), event fan-out (\<^verbatim>\<open>jobs/events.rs\<close>) and the
  automation rules (\<^verbatim>\<open>jobs/automation.rs\<close>).  A job moves from pending to running when it is
  claimed, and from running to done, back to pending with a delay, or to dead.  Every statement of
  this code is a transaction of its own, so an operation that fails half way keeps what it wrote:
  operations return the error together with the state.  The job handlers that talk to the network
  or to the file system are fields of \<open>handlers\<close>.
\<close>

section \<open>The queue\<close>

definition BACKOFF_SECONDS :: "int list" where
  "BACKOFF_SECONDS = [30, 120, 600, 3600, 21600]"

datatype job_error =
    Payload string
  | Failed string
  | JobDb db_error

definition enqueue :: "env \<Rightarrow> string \<Rightarrow> json \<Rightarrow> int option \<Rightarrow> db \<Rightarrow> (db_error + uuid) \<times> db" where
  "enqueue E kind payload run_at db =
     (let (i, db1) = draw E db in
      if list_ex (\<lambda>j. j_id j = i) (jobs db) then (Inl (UniqueViolation ''jobs_pkey''), db)
      else (Inr i, db1\<lparr>jobs := jobs db @
             [\<lparr>j_id = i, j_kind = kind, j_payload = payload,
               j_run_at = (case run_at of Some t \<Rightarrow> t | None \<Rightarrow> now E),
               j_attempts = 0, j_max_attempts = 5, j_status = ''pending'', j_created_at = now E,
               j_updated_at = now E\<rparr>]\<rparr>))"

record claimed_job =
  c_id :: uuid
  c_kind :: string
  c_payload :: json
  c_attempts :: int
  c_max_attempts :: int

definition to_claimed :: "job_row \<Rightarrow> claimed_job" where
  "to_claimed j = \<lparr>c_id = j_id j, c_kind = j_kind j, c_payload = j_payload j,
                   c_attempts = j_attempts j, c_max_attempts = j_max_attempts j\<rparr>"

definition due_jobs :: "env \<Rightarrow> nat \<Rightarrow> db \<Rightarrow> job_row list" where
  "due_jobs E limit db =
     take limit (sort_key j_run_at
       (filter (\<lambda>j. j_status j = ''pending'' \<and> j_run_at j \<le> now E) (jobs db)))"

definition claim_due :: "env \<Rightarrow> nat \<Rightarrow> db \<Rightarrow> claimed_job list \<times> db" where
  "claim_due E limit db =
     (let due = due_jobs E limit db; ids = map j_id due
      in (map to_claimed due,
          db\<lparr>jobs := map (\<lambda>j. if j_id j \<in> set ids
                              then j\<lparr>j_status := ''running'', j_updated_at := now E\<rparr> else j) (jobs db)\<rparr>))"

text \<open>
  The delay before the next attempt.  \<^verbatim>\<open>attempts as usize\<close> turns a negative count into a huge
  index, which is off the table like every index past its end.
\<close>

definition backoff_delay :: "int \<Rightarrow> int" where
  "backoff_delay attempts =
     (if attempts < 0 then last BACKOFF_SECONDS
      else let k = nat attempts - 1 in
           if k < length BACKOFF_SECONDS then BACKOFF_SECONDS ! k else last BACKOFF_SECONDS)"

text \<open>\<^verbatim>\<open>UPDATE jobs SET ... WHERE id = $1\<close>.\<close>

definition update_job :: "uuid \<Rightarrow> (job_row \<Rightarrow> job_row) \<Rightarrow> db \<Rightarrow> db" where
  "update_job i f db = db\<lparr>jobs := map (\<lambda>j. if j_id j = i then f j else j) (jobs db)\<rparr>"

definition finish_job :: "env \<Rightarrow> claimed_job \<Rightarrow> job_error + unit \<Rightarrow> db \<Rightarrow> db" where
  "finish_job E job result =
     (case result of
        Inr _ \<Rightarrow> update_job (c_id job) (\<lambda>j. j\<lparr>j_status := ''done'', j_updated_at := now E\<rparr>)
      | Inl e \<Rightarrow>
          (let attempts = c_attempts job + 1 in
           if c_max_attempts job \<le> attempts
           then update_job (c_id job)
                  (\<lambda>j. j\<lparr>j_status := ''dead'', j_attempts := attempts, j_updated_at := now E\<rparr>)
           else update_job (c_id job)
                  (\<lambda>j. j\<lparr>j_status := ''pending'', j_attempts := attempts,
                         j_run_at := now E + backoff_delay attempts * 1000000,
                         j_updated_at := now E\<rparr>)))"

definition purge_old :: "env \<Rightarrow> db \<Rightarrow> nat \<times> db" where
  "purge_old E db =
     (let old = (\<lambda>j. (j_status j = ''done'' \<or> j_status j = ''dead'')
                     \<and> j_updated_at j < now E - 30 * 86400 * 1000000)
      in (length (filter old (jobs db)), db\<lparr>jobs := filter (\<lambda>j. \<not> old j) (jobs db)\<rparr>))"

section \<open>Automation rules\<close>

definition EVENT_TYPES :: "string list" where
  "EVENT_TYPES = [''transaction.posted'', ''transaction.voided'', ''invoice.created'',
                  ''invoice.paid'', ''invoice.overdue'', ''budget.threshold_crossed'']"

definition INBOUND_EVENT_TYPES :: "string list" where
  "INBOUND_EVENT_TYPES = [''external.sync'', ''external.document.received'',
                          ''external.payment.received'']"

definition allowed_triggers :: "string list" where
  "allowed_triggers = EVENT_TYPES @ INBOUND_EVENT_TYPES"

definition LEDGER_ACTION_BUDGET_PER_HOUR :: nat where
  "LEDGER_ACTION_BUDGET_PER_HOUR = 120"

text \<open>\<^verbatim>\<open>data.get(f).or_else(|| data.get("data").and_then(|d| d.get(f)))\<close>.\<close>

definition event_field :: "json \<Rightarrow> string \<Rightarrow> json option" where
  "event_field data f =
     (case json_get data f of Some v \<Rightarrow> Some v
      | None \<Rightarrow> Option.bind (json_get data ''data'') (\<lambda>d. json_get d f))"

definition event_number :: "json \<Rightarrow> string \<Rightarrow> rat option" where
  "event_number data f = Option.bind (event_field data f) as_f64"

definition condition_holds :: "json \<Rightarrow> string \<times> json \<Rightarrow> bool" where
  "condition_holds data kv =
     (let (key, expected) = kv in
      if key = ''description_contains'' then
        (case as_str expected of None \<Rightarrow> False
         | Some needle \<Rightarrow>
             contains_str (to_lowercase needle)
               (to_lowercase (case Option.bind (event_field data ''description'') as_str of
                                Some h \<Rightarrow> h | None \<Rightarrow> [])))
      else if key = ''amount_gte'' then
        (case as_f64 expected of None \<Rightarrow> False
         | Some lo \<Rightarrow> (case event_number data ''amount'' of Some v \<Rightarrow> lo \<le> v | None \<Rightarrow> False))
      else if key = ''amount_lte'' then
        (case as_f64 expected of None \<Rightarrow> False
         | Some hi \<Rightarrow> (case event_number data ''amount'' of Some v \<Rightarrow> v \<le> hi | None \<Rightarrow> False))
      else if key = ''days_past_due_gte'' then
        (case as_f64 expected of None \<Rightarrow> False
         | Some lo \<Rightarrow> (case event_number data ''days_past_due'' of Some v \<Rightarrow> lo \<le> v | None \<Rightarrow> False))
      else False)"

definition conditions_match :: "json \<Rightarrow> json \<Rightarrow> bool" where
  "conditions_match conditions data =
     (case as_object conditions of None \<Rightarrow> False | Some kvs \<Rightarrow> list_all (condition_holds data) kvs)"

definition actions_last_hour :: "env \<Rightarrow> uuid \<Rightarrow> db \<Rightarrow> nat" where
  "actions_last_hour E ledger_id db =
     length (filter (\<lambda>j. j_kind j = ''automation_action''
               \<and> json_get (j_payload j) ''ledger_id'' = Some (JUuid ledger_id)
               \<and> now E - 3600 * 1000000 < j_created_at j) (jobs db))"

definition action_payload :: "uuid \<Rightarrow> string \<Rightarrow> json \<Rightarrow> rule_row \<Rightarrow> json" where
  "action_payload ledger_id event_type data r =
     JObj [(''rule_id'', JUuid (ar_id r)), (''ledger_id'', JUuid ledger_id),
           (''event_type'', JStr event_type), (''action'', JStr (ar_action r)),
           (''action_config'', ar_config r), (''data'', data)]"

fun enqueue_matches ::
  "env \<Rightarrow> uuid \<Rightarrow> string \<Rightarrow> json \<Rightarrow> rule_row list \<Rightarrow> db \<Rightarrow> nat \<times> db" where
  "enqueue_matches E ledger_id event_type data [] db = (0, db)"
| "enqueue_matches E ledger_id event_type data (r # rs) db =
     (if \<not> conditions_match (ar_conditions r) data
      then enqueue_matches E ledger_id event_type data rs db
      else (case enqueue E ''automation_action'' (action_payload ledger_id event_type data r) None db of
              (res, db1) \<Rightarrow>
                (case enqueue_matches E ledger_id event_type data rs db1 of
                   (n, db2) \<Rightarrow> (case res of Inr _ \<Rightarrow> n + 1 | Inl _ \<Rightarrow> n, db2))))"

definition match_and_enqueue :: "env \<Rightarrow> uuid \<Rightarrow> string \<Rightarrow> json \<Rightarrow> db \<Rightarrow> nat \<times> db" where
  "match_and_enqueue E ledger_id event_type data db =
     (let rs = filter (\<lambda>r. ar_ledger r = ledger_id \<and> ar_trigger r = event_type \<and> ar_enabled r) (rules db)
      in if rs = [] then (0, db)
         else if LEDGER_ACTION_BUDGET_PER_HOUR \<le> actions_last_hour E ledger_id db then (0, db)
         else enqueue_matches E ledger_id event_type data rs db)"

section \<open>Event fan-out\<close>

definition insert_delivery ::
  "env \<Rightarrow> uuid \<Rightarrow> uuid \<Rightarrow> string \<Rightarrow> json \<Rightarrow> db \<Rightarrow> (db_error + uuid) \<times> db" where
  "insert_delivery E sub event event_type payload db =
     (let (i, db1) = draw E db in
      if list_ex (\<lambda>d. wd_id d = i) (deliveries db)
        then (Inl (UniqueViolation ''webhook_deliveries_pkey''), db)
      else if \<not> list_ex (\<lambda>s. ws_id s = sub) (subscriptions db)
        then (Inl (ForeignKeyViolation ''webhook_deliveries_subscription_id_fkey''), db)
      else if list_ex (\<lambda>d. wd_subscription d = sub \<and> wd_event d = event \<and> wd_attempt d = 0) (deliveries db)
        then (Inl (UniqueViolation ''webhook_deliveries_subscription_id_event_id_attempt_key''), db)
      else (Inr i, db1\<lparr>deliveries := deliveries db @
             [\<lparr>wd_id = i, wd_subscription = sub, wd_event = event, wd_type = event_type,
               wd_payload = payload, wd_attempt = 0\<rparr>]\<rparr>))"

text \<open>
  One subscriber after the other.  The conflict clause of the insert turns a second attempt 0 into
  \<^verbatim>\<open>None\<close>, which becomes the nil identifier (0 here) and skips the subscriber; any other error ends the
  loop.
\<close>

fun emit_subs :: "env \<Rightarrow> uuid \<Rightarrow> string \<Rightarrow> json \<Rightarrow> uuid list \<Rightarrow> db \<Rightarrow> (db_error + unit) \<times> db" where
  "emit_subs E event event_type payload [] db = (Inr (), db)"
| "emit_subs E event event_type payload (s # ss) db =
     (case insert_delivery E s event event_type payload db of
        (Inl (UniqueViolation c), db1) \<Rightarrow>
          if c = ''webhook_deliveries_subscription_id_event_id_attempt_key''
          then emit_subs E event event_type payload ss db1
          else (Inl (UniqueViolation c), db1)
      | (Inl e, db1) \<Rightarrow> (Inl e, db1)
      | (Inr delivery_id, db1) \<Rightarrow>
          if delivery_id = 0 then emit_subs E event event_type payload ss db1
          else (case enqueue E ''webhook_delivery'' (JObj [(''delivery_id'', JUuid delivery_id)]) None db1 of
                  (Inl e, db2) \<Rightarrow> (Inl e, db2)
                | (Inr _, db2) \<Rightarrow> emit_subs E event event_type payload ss db2))"

definition emit_inner :: "env \<Rightarrow> uuid \<Rightarrow> string \<Rightarrow> json \<Rightarrow> db \<Rightarrow> (db_error + unit) \<times> db" where
  "emit_inner E ledger_id event_type data db =
     (let db1 = snd (match_and_enqueue E ledger_id event_type data db);
          subs = map ws_id (filter (\<lambda>s. ws_ledger s = ledger_id \<and> ws_enabled s
                                       \<and> event_type \<in> set (ws_events s)) (subscriptions db1))
      in if subs = [] then (Inr (), db1)
         else (let (event_id, db2) = draw E db1;
                   payload = JObj [(''id'', JUuid event_id), (''type'', JStr event_type),
                                   (''occurred_at'', JTime (now E)),
                                   (''ledger_id'', JUuid ledger_id), (''data'', data)]
               in emit_subs E event_id event_type payload subs db2))"

definition emit :: "env \<Rightarrow> uuid \<Rightarrow> string \<Rightarrow> json \<Rightarrow> db \<Rightarrow> db" where
  "emit E ledger_id event_type data db = snd (emit_inner E ledger_id event_type data db)"

section \<open>Running jobs\<close>

text \<open>
  \<^verbatim>\<open>payload_field::<T>\<close>: a missing key and a value of the wrong type are payload errors.  The text of
  the second comes from the deserialiser and is not modelled.
\<close>

definition payload_field :: "(json \<Rightarrow> 'a option) \<Rightarrow> json \<Rightarrow> string \<Rightarrow> job_error + 'a" where
  "payload_field decode payload key =
     rbind (ok_or (Payload (''missing '' @ key)) (json_get payload key))
       (\<lambda>v. ok_or (Payload (''bad '' @ key)) (decode v))"

text \<open>
  \<^verbatim>\<open>INSERT INTO cost_centers ... ON CONFLICT (ledger_id, name) DO UPDATE ... RETURNING id\<close>.
\<close>

definition upsert_cost_center :: "env \<Rightarrow> uuid \<Rightarrow> string \<Rightarrow> db \<Rightarrow> (db_error + uuid) \<times> db" where
  "upsert_cost_center E ledger_id nm db =
     (case find (\<lambda>d. d_ledger d = ledger_id \<and> d_name d = nm) (cost_centers db) of
        Some d \<Rightarrow> (Inr (d_id d), db)
      | None \<Rightarrow>
          (let (i, db1) = draw E db in
           if list_ex (\<lambda>d. d_id d = i) (cost_centers db) then (Inl (UniqueViolation ''cost_centers_pkey''), db)
           else if ledger_of db ledger_id = None
             then (Inl (ForeignKeyViolation ''cost_centers_ledger_id_fkey''), db)
           else (Inr i, db1\<lparr>cost_centers := cost_centers db @
                         [\<lparr>d_id = i, d_ledger = ledger_id, d_name = nm\<rparr>]\<rparr>)))"

text \<open>
  \<^verbatim>\<open>UPDATE postings SET cost_center_id = $2 WHERE transaction_id = $1 AND cost_center_id IS NULL\<close>;
  the balance trigger fires on updates too.
\<close>

definition categorize_postings :: "uuid \<Rightarrow> uuid \<Rightarrow> db \<Rightarrow> db_error + db" where
  "categorize_postings txn cc db =
     (let hit = (\<lambda>p. p_txn p = txn \<and> p_cost_center p = None);
          db1 = db\<lparr>postings := map (\<lambda>p. if hit p then p\<lparr>p_cost_center := Some cc\<rparr> else p) (postings db)\<rparr>
      in if balance_trigger db \<and> list_ex hit (postings db)
         then rbind (check_posting_balance db1 txn) (\<lambda>_. Inr db1) else Inr db1)"

text \<open>The three actions.  \<open>show_data\<close> prints the event into the text of the mail.\<close>

definition automation_action ::
  "env \<Rightarrow> (uuid \<Rightarrow> string \<Rightarrow> json \<Rightarrow> string) \<Rightarrow> uuid \<Rightarrow> uuid \<Rightarrow> string \<Rightarrow> string \<Rightarrow> json \<Rightarrow> json
   \<Rightarrow> db \<Rightarrow> (job_error + unit) \<times> db" where
  "automation_action E show_data rule_id ledger_id event_type action action_config data db =
     (if action = ''webhook_post'' then
        (case payload_field (json_uuid (parse_uuid E)) action_config ''subscription_id'' of
           Inl e \<Rightarrow> (Inl e, db)
         | Inr subscription_id \<Rightarrow>
             (let (event_id, db1) = draw E db;
                  envelope = JObj [(''id'', JUuid event_id), (''type'', JStr event_type),
                                   (''occurred_at'', JTime (now E)), (''ledger_id'', JUuid ledger_id),
                                   (''rule_id'', JUuid rule_id), (''data'', data)]
              in case insert_delivery E subscription_id event_id event_type envelope db1 of
                   (Inl e, db2) \<Rightarrow> (Inl (JobDb e), db2)
                 | (Inr delivery_id, db2) \<Rightarrow>
                     (case enqueue E ''webhook_delivery'' (JObj [(''delivery_id'', JUuid delivery_id)]) None db2 of
                        (Inl e, db3) \<Rightarrow> (Inl (JobDb e), db3) | (Inr _, db3) \<Rightarrow> (Inr (), db3))))
      else if action = ''email_notify'' then
        (case payload_field as_str action_config ''to'' of
           Inl e \<Rightarrow> (Inl e, db)
         | Inr to \<Rightarrow>
             (case enqueue E ''email_send''
                     (JObj [(''to'', JStr to), (''subject'', JStr (''[OpenAccounting] '' @ event_type)),
                            (''text'', JStr (show_data ledger_id event_type data))]) None db of
                (Inl e, db1) \<Rightarrow> (Inl (JobDb e), db1) | (Inr _, db1) \<Rightarrow> (Inr (), db1)))
      else if action = ''categorize_transaction'' then
        (case payload_field as_str action_config ''cost_center'' of
           Inl e \<Rightarrow> (Inl e, db)
         | Inr nm \<Rightarrow>
             (case Option.bind (event_field data ''transaction_id'') (json_uuid (parse_uuid E)) of
                None \<Rightarrow> (Inl (Payload ''categorize_transaction needs data.transaction_id''), db)
              | Some txn_id \<Rightarrow>
                  (case upsert_cost_center E ledger_id nm db of
                     (Inl e, db1) \<Rightarrow> (Inl (JobDb e), db1)
                   | (Inr cc_id, db1) \<Rightarrow>
                       (case categorize_postings txn_id cc_id db1 of
                          Inl e \<Rightarrow> (Inl (JobDb e), db1) | Inr db2 \<Rightarrow> (Inr (), db2)))))
      else (Inl (Failed (''unknown action'' @ action)), db))"

text \<open>
  After the action, \<^verbatim>\<open>created_by\<close> of the rule is read into a \<^verbatim>\<open>Uuid\<close>: a rule that is gone gives no
  audit row, a null column is a decoding error.
\<close>

definition automation_run ::
  "env \<Rightarrow> (uuid \<Rightarrow> string \<Rightarrow> json \<Rightarrow> string) \<Rightarrow> json \<Rightarrow> db \<Rightarrow> (job_error + unit) \<times> db" where
  "automation_run E show_data payload db =
     (case rbind (payload_field (json_uuid (parse_uuid E)) payload ''rule_id'') (\<lambda>rule_id.
           rbind (payload_field (json_uuid (parse_uuid E)) payload ''ledger_id'') (\<lambda>ledger_id.
           rbind (payload_field as_str payload ''event_type'') (\<lambda>event_type.
           rbind (payload_field as_str payload ''action'') (\<lambda>action.
           Inr (rule_id, ledger_id, event_type, action))))) of
        Inl e \<Rightarrow> (Inl e, db)
      | Inr (rule_id, ledger_id, event_type, action) \<Rightarrow>
          (let action_config = (case json_get payload ''action_config'' of Some v \<Rightarrow> v | None \<Rightarrow> JObj []);
               data = (case json_get payload ''data'' of Some v \<Rightarrow> v | None \<Rightarrow> JNull)
           in if map_option ar_enabled (find (\<lambda>r. ar_id r = rule_id) (rules db)) \<noteq> Some True
              then (Inr (), db)
              else (case automation_action E show_data rule_id ledger_id event_type action action_config data db of
                      (Inl e, db1) \<Rightarrow> (Inl e, db1)
                    | (Inr _, db1) \<Rightarrow>
                        (case find (\<lambda>r. ar_id r = rule_id) (rules db1) of
                           None \<Rightarrow> (Inr (), db1)
                         | Some r \<Rightarrow>
                             (case ar_created_by r of
                                None \<Rightarrow> (Inl (JobDb DecodeNull), db1)
                              | Some actor \<Rightarrow>
                                  (Inr (), audit_log E (Some ledger_id) actor ''automation_rule_run''
                                     ''automation_rule'' (Some rule_id) None
                                     (Some (JObj [(''event_type'', JStr event_type),
                                                  (''action'', JStr action)])) db1))))))"

record handlers =
  template_scan :: "db \<Rightarrow> (job_error + unit) \<times> db"
  invoice_reminder_scan :: "db \<Rightarrow> (job_error + unit) \<times> db"
  recurring_invoice_scan :: "db \<Rightarrow> (job_error + unit) \<times> db"
  restore_verify :: "db \<Rightarrow> (job_error + unit) \<times> db"
  webhook_deliver :: "json \<Rightarrow> db \<Rightarrow> (job_error + unit) \<times> db"
  email_send :: "json \<Rightarrow> db \<Rightarrow> (job_error + unit) \<times> db"
  weekly_digest :: "json \<Rightarrow> db \<Rightarrow> (job_error + unit) \<times> db"
  show_event :: "uuid \<Rightarrow> string \<Rightarrow> json \<Rightarrow> string"

definition run_handler :: "env \<Rightarrow> handlers \<Rightarrow> claimed_job \<Rightarrow> db \<Rightarrow> (job_error + unit) \<times> db" where
  "run_handler E H job db =
     (if c_kind job = ''template_scan'' then template_scan H db
      else if c_kind job = ''invoice_reminder_scan'' then invoice_reminder_scan H db
      else if c_kind job = ''recurring_invoice_scan'' then recurring_invoice_scan H db
      else if c_kind job = ''restore_verify'' then restore_verify H db
      else if c_kind job = ''webhook_delivery'' then webhook_deliver H (c_payload job) db
      else if c_kind job = ''automation_action'' then automation_run E (show_event H) (c_payload job) db
      else if c_kind job = ''email_send'' then email_send H (c_payload job) db
      else if c_kind job = ''weekly_digest'' then weekly_digest H (c_payload job) db
      else (Inl (Failed (''unknown job kind '' @ c_kind job)), db))"

definition execute :: "env \<Rightarrow> handlers \<Rightarrow> claimed_job \<Rightarrow> db \<Rightarrow> db" where
  "execute E H job db = (case run_handler E H job db of (result, db1) \<Rightarrow> finish_job E job result db1)"

definition run_due :: "env \<Rightarrow> handlers \<Rightarrow> nat \<Rightarrow> db \<Rightarrow> nat \<times> db" where
  "run_due E H limit db =
     (case claim_due E limit db of (js, db1) \<Rightarrow> (length js, fold (execute E H) js db1))"

section \<open>What the side channels leave alone\<close>

text \<open>
  \<open>books\<close> blanks the queue, the deliveries, the audit log and the count of identifiers drawn.
  Two states with the same books agree in every accounting table.
\<close>

definition books :: "db \<Rightarrow> db" where
  "books db = db\<lparr>deliveries := [], jobs := [], audit_entries := [], drawn := 0\<rparr>"

lemma books_eqD:
  assumes "books db = books db'"
  shows "users db = users db'" "members db = members db'" "ledgers db = ledgers db'"
    "accounts db = accounts db'" "transactions db = transactions db'" "postings db = postings db'"
    "posting_taxes db = posting_taxes db'" "closed_periods db = closed_periods db'"
    "approvals db = approvals db'" "fx_rates db = fx_rates db'" "fx_revals db = fx_revals db'"
    "balance_trigger db = balance_trigger db'" "rules db = rules db'"
    "subscriptions db = subscriptions db'" "cost_centers db = cost_centers db'" "projects db = projects db'"
  using assms by (cases db; cases db'; simp add: books_def)+

lemma books_jobs [frame]: "books (db\<lparr>jobs := x\<rparr>) = books db"
  and books_deliveries [frame]: "books (db\<lparr>deliveries := z\<rparr>) = books db"
  and books_drawn [frame]: "books (db\<lparr>drawn := n\<rparr>) = books db"
  and books_audit [frame]: "books (db\<lparr>audit_entries := y\<rparr>) = books db"
  by (simp_all add: books_def)

lemma enqueue_books [frame]: "books (snd (enqueue E k p t db)) = books db"
  by (simp add: enqueue_def draw_def Let_def frame)

lemma insert_delivery_books [frame]: "books (snd (insert_delivery E s e ty p db)) = books db"
  by (simp add: insert_delivery_def draw_def Let_def frame)

lemma enqueue_matches_books [frame]: "books (snd (enqueue_matches E l ty d rs db)) = books db"
proof (induction rs arbitrary: db)
  case (Cons r rs)
  have "books (snd (enqueue E k p t db)) = books db" for k p t by (rule frame)
  with Cons show ?case by (auto split: prod.splits) (metis snd_conv)+
qed simp

lemma match_and_enqueue_books [frame]: "books (snd (match_and_enqueue E l ty d db)) = books db"
  by (simp add: match_and_enqueue_def Let_def frame)

lemma emit_subs_books [frame]: "books (snd (emit_subs E ev ty p ss db)) = books db"
proof (induction ss arbitrary: db)
  case (Cons s ss)
  obtain r db1 where r: "insert_delivery E s ev ty p db = (r, db1)" by (cases "insert_delivery E s ev ty p db")
  with insert_delivery_books [of E s ev ty p db] have 1: "books db1 = books db" by simp
  show ?case
  proof (cases r)
    case (Inl e)
    with r 1 Cons show ?thesis by (cases e) simp_all
  next
    case (Inr i)
    obtain q db2 where q: "enqueue E ''webhook_delivery'' (JObj [(''delivery_id'', JUuid i)]) None db1 = (q, db2)"
      by (cases "enqueue E ''webhook_delivery'' (JObj [(''delivery_id'', JUuid i)]) None db1")
    with enqueue_books [of E "''webhook_delivery''" "JObj [(''delivery_id'', JUuid i)]" None db1]
    have "books db2 = books db1" by simp
    with r q 1 Inr Cons show ?thesis by (cases q) simp_all
  qed
qed simp

lemma emit_books [frame]: "books (emit E l ty d db) = books db"
  by (simp add: emit_def emit_inner_def draw_def Let_def frame)

lemma audit_log_books [frame]: "books (audit_log E l a act ent eid ov nv db) = books db"
  by (simp add: audit_log_def log_hashed_def run_tx_def draw_def Let_def frame)

section \<open>The life of a job\<close>

text \<open>
  The queue as a system of commands: enqueue, claim, finish a running job with whatever result its
  handler gave, purge.
\<close>

datatype job_command =
    Enqueue string json "int option"
  | Claim nat
  | Finish uuid "job_error + unit"
  | Purge

definition job_step :: "(nat \<Rightarrow> env) \<Rightarrow> nat \<times> job_command \<Rightarrow> db \<Rightarrow> db" where
  "job_step Es c db =
     (let E = Es (fst c) in
      case snd c of
        Enqueue k p t \<Rightarrow> snd (enqueue E k p t db)
      | Claim n \<Rightarrow> snd (claim_due E n db)
      | Finish i r \<Rightarrow>
          (case find (\<lambda>j. j_id j = i \<and> j_status j = ''running'') (jobs db) of
             None \<Rightarrow> db | Some j \<Rightarrow> finish_job E (to_claimed j) r db)
      | Purge \<Rightarrow> snd (purge_old E db))"

definition job_ok :: "job_row \<Rightarrow> bool" where
  "job_ok j \<longleftrightarrow>
     j_max_attempts j = 5
   \<and> (if j_status j = ''pending'' \<or> j_status j = ''running'' \<or> j_status j = ''done''
      then 0 \<le> j_attempts j \<and> j_attempts j < 5
      else j_status j = ''dead'' \<and> j_attempts j = 5)"

definition jobs_ok :: "db \<Rightarrow> bool" where
  "jobs_ok db \<longleftrightarrow> distinct (map j_id (jobs db)) \<and> list_all job_ok (jobs db)"

lemma distinct_update:
  "(\<And>j. j_id (f j) = j_id j) \<Longrightarrow> map j_id (map f js) = map j_id js"
  by simp

lemma jobs_ok_enqueue: "jobs_ok db \<Longrightarrow> jobs_ok (snd (enqueue E k p t db))"
  by (auto simp: enqueue_def draw_def Let_def jobs_ok_def job_ok_def list_ex_key)

lemma jobs_ok_map:
  assumes "jobs_ok db" and "\<And>j. j_id (f j) = j_id j" and "\<And>j. j \<in> set (jobs db) \<Longrightarrow> job_ok (f j)"
  shows "jobs_ok (db\<lparr>jobs := map f (jobs db)\<rparr>)"
  using assms by (simp add: jobs_ok_def comp_def list_all_iff)

lemma due_jobs_pending: "j \<in> set (due_jobs E n db) \<Longrightarrow> j \<in> set (jobs db) \<and> j_status j = ''pending'' \<and> j_run_at j \<le> now E"
  by (auto simp: due_jobs_def dest: in_set_takeD)

lemma same_id_same_job:
  "jobs_ok db \<Longrightarrow> j \<in> set (jobs db) \<Longrightarrow> k \<in> set (jobs db) \<Longrightarrow> j_id j = j_id k \<Longrightarrow> j = k"
  by (auto simp: jobs_ok_def distinct_map inj_on_def)

lemma jobs_ok_claim:
  assumes "jobs_ok db"
  shows "jobs_ok (snd (claim_due E n db))"
proof -
  have "job_ok (j\<lparr>j_status := ''running'', j_updated_at := t\<rparr>)"
    if "j \<in> set (jobs db)" "j_id j \<in> set (map j_id (due_jobs E n db))" for j t
  proof -
    from that(2) obtain k where k: "k \<in> set (due_jobs E n db)" "j_id j = j_id k" by auto
    then have "j = k" using same_id_same_job [OF assms that(1)] due_jobs_pending by blast
    with k due_jobs_pending have "j_status j = ''pending''" by blast
    moreover have "job_ok j" using assms that(1) by (auto simp: jobs_ok_def list_all_iff)
    ultimately show ?thesis by (simp add: job_ok_def)
  qed
  moreover have "job_ok j" if "j \<in> set (jobs db)" for j
    using assms that by (auto simp: jobs_ok_def list_all_iff)
  ultimately show ?thesis
    unfolding claim_due_def Let_def snd_conv by (intro jobs_ok_map [OF assms]) auto
qed

lemma jobs_ok_update_job:
  assumes "jobs_ok db" and "k \<in> set (jobs db)" and "job_ok (f k)" and "\<And>j. j_id (f j) = j_id j"
  shows "jobs_ok (update_job (j_id k) f db)"
  unfolding update_job_def
proof (rule jobs_ok_map [OF assms(1)])
  fix j assume j: "j \<in> set (jobs db)"
  then have "job_ok j" using assms(1) by (auto simp: jobs_ok_def list_all_iff)
  then show "job_ok (if j_id j = j_id k then f j else j)"
    using same_id_same_job [OF assms(1) j assms(2)] assms(3) by auto
qed (simp add: assms(4))

lemma jobs_ok_finish:
  assumes "jobs_ok db" and "k \<in> set (jobs db)" and "j_status k = ''running''"
  shows "jobs_ok (finish_job E (to_claimed k) r db)"
proof -
  have "job_ok k" using assms(1,2) by (auto simp: jobs_ok_def list_all_iff)
  then have kk: "j_max_attempts k = 5" "0 \<le> j_attempts k" "j_attempts k < 5"
    using assms(3) by (simp_all add: job_ok_def)
  note upd = jobs_ok_update_job [OF assms(1,2)]
  show ?thesis
  proof (cases r)
    case (Inr u)
    then show ?thesis by (simp add: finish_job_def to_claimed_def) (rule upd; simp add: job_ok_def kk)
  next
    case (Inl e)
    then show ?thesis
      by (simp add: finish_job_def to_claimed_def Let_def) (intro conjI impI upd; use kk in \<open>simp add: job_ok_def\<close>)
  qed
qed

lemma jobs_ok_purge: "jobs_ok db \<Longrightarrow> jobs_ok (snd (purge_old E db))"
  by (auto simp: purge_old_def Let_def jobs_ok_def list_all_iff distinct_map inj_on_def)

interpretation jq: command_system "job_step Es" "\<lambda>_. True" jobs_ok for Es
proof unfold_locales
  show "jobs_ok (job_step Es c db)" if "jobs_ok db" for c db
    using that
    by (auto simp: job_step_def Let_def jobs_ok_enqueue jobs_ok_claim jobs_ok_purge
        split: job_command.split option.split dest!: find_Some_mem intro: jobs_ok_finish)
qed

section \<open>Fan-out\<close>

lemma insert_delivery_fresh:
  assumes "fresh_ids E db" and "s \<in> ws_id ` set (subscriptions db)"
    and "\<forall>d\<in>set (deliveries db). wd_event d = ev \<longrightarrow> wd_subscription d \<noteq> s"
  shows "insert_delivery E s ev ty p db =
     (Inr (uuid_at E (drawn db)), db\<lparr>drawn := Suc (drawn db), deliveries := deliveries db @
        [\<lparr>wd_id = uuid_at E (drawn db), wd_subscription = s, wd_event = ev, wd_type = ty,
          wd_payload = p, wd_attempt = 0\<rparr>]\<rparr>)"
proof -
  have "uuid_at E (drawn db) \<notin> wd_id ` set (deliveries db)"
    using fresh_drawn [OF assms(1)] by (simp add: row_ids_def)
  with assms(2,3) show ?thesis
    by (auto simp: insert_delivery_def draw_def Let_def list_ex_key list_ex_iff)
qed

lemma enqueue_fresh:
  assumes "fresh_ids E db"
  shows "enqueue E k p t db = (Inr (uuid_at E (drawn db)), db\<lparr>drawn := Suc (drawn db), jobs := jobs db @
     [\<lparr>j_id = uuid_at E (drawn db), j_kind = k, j_payload = p,
       j_run_at = (case t of Some t \<Rightarrow> t | None \<Rightarrow> now E), j_attempts = 0, j_max_attempts = 5,
       j_status = ''pending'', j_created_at = now E, j_updated_at = now E\<rparr>]\<rparr>)"
proof -
  have "uuid_at E (drawn db) \<notin> j_id ` set (jobs db)"
    using fresh_drawn [OF assms] by (simp add: row_ids_def)
  then show ?thesis by (simp add: enqueue_def draw_def Let_def list_ex_key)
qed

lemma fresh_ids_enqueue: "fresh_ids E db \<Longrightarrow> fresh_ids E (snd (enqueue E k p t db))"
  by (rule fresh_ids_step) (auto simp: enqueue_fresh row_ids_def)

text \<open>The job and the delivery that subscriber \<open>s\<close> gets.\<close>

definition delivery_job :: "uuid \<Rightarrow> job_row \<Rightarrow> bool" where
  "delivery_job i j \<longleftrightarrow> j_kind j = ''webhook_delivery'' \<and> j_payload j = JObj [(''delivery_id'', JUuid i)]
                       \<and> j_status j = ''pending''"

lemma emit_subs_fanout:
  assumes "fresh_ids E db" and "distinct ss" and "set ss \<subseteq> ws_id ` set (subscriptions db)"
    and "ev \<notin> uuid_at E ` {drawn db..}"
    and "\<forall>d\<in>set (deliveries db). wd_event d = ev \<longrightarrow> wd_subscription d \<notin> set ss"
  shows "\<exists>ds js. fst (emit_subs E ev ty p ss db) = Inr ()
     \<and> deliveries (snd (emit_subs E ev ty p ss db)) = deliveries db @ ds
     \<and> jobs (snd (emit_subs E ev ty p ss db)) = jobs db @ js
     \<and> map wd_subscription ds = ss \<and> list_all (\<lambda>d. wd_event d = ev \<and> wd_type d = ty \<and> wd_payload d = p) ds
     \<and> list_all2 (\<lambda>d j. delivery_job (wd_id d) j) ds js"
  using assms
proof (induction ss arbitrary: db)
  case Nil
  then show ?case by simp
next
  case (Cons s ss)
  let ?i = "uuid_at E (drawn db)"
  let ?d = "\<lparr>wd_id = ?i, wd_subscription = s, wd_event = ev, wd_type = ty, wd_payload = p, wd_attempt = 0\<rparr>"
  let ?db1 = "db\<lparr>drawn := Suc (drawn db), deliveries := deliveries db @ [?d]\<rparr>"
  let ?pl = "JObj [(''delivery_id'', JUuid ?i)]"
  let ?q = "enqueue E ''webhook_delivery'' ?pl None ?db1"
  have nz: "?i \<noteq> 0" using fresh_drawn [OF Cons.prems(1)] by simp
  have ins: "insert_delivery E s ev ty p db = (Inr ?i, ?db1)"
    using Cons.prems by (intro insert_delivery_fresh) auto
  have fr1: "fresh_ids E ?db1"
    unfolding fresh_ids_def
  proof (intro conjI allI impI)
    show "inj (uuid_at E)" using Cons.prems(1) by (simp add: fresh_ids_def)
    fix n assume n: "drawn ?db1 \<le> n"
    then show "uuid_at E n \<noteq> 0" using Cons.prems(1) by (simp add: fresh_ids_def)
    have "uuid_at E n \<noteq> ?i" using Cons.prems(1) n injD [of "uuid_at E" n "drawn db"]
      by (fastforce simp: fresh_ids_def)
    moreover have "uuid_at E n \<noteq> ev" using Cons.prems(4) n by force
    ultimately show "uuid_at E n \<notin> row_ids ?db1"
      using Cons.prems(1) n by (auto simp: fresh_ids_def row_ids_def)
  qed
  note q = enqueue_fresh [OF fr1, of "''webhook_delivery''" ?pl None]
  have step: "emit_subs E ev ty p (s # ss) db = emit_subs E ev ty p ss (snd ?q)"
    using nz by (simp add: ins q)
  have dist: "distinct ss" using Cons.prems(2) by simp
  have sub: "set ss \<subseteq> ws_id ` set (subscriptions (snd ?q))"
    and evn: "ev \<notin> uuid_at E ` {drawn (snd ?q)..}"
    and new: "\<forall>d\<in>set (deliveries (snd ?q)). wd_event d = ev \<longrightarrow> wd_subscription d \<notin> set ss"
    using Cons.prems by (auto simp: q)
  from Cons.IH [OF fresh_ids_enqueue [OF fr1] dist sub evn new]
  obtain ds js where ih: "fst (emit_subs E ev ty p ss (snd ?q)) = Inr ()"
      "deliveries (snd (emit_subs E ev ty p ss (snd ?q))) = deliveries (snd ?q) @ ds"
      "jobs (snd (emit_subs E ev ty p ss (snd ?q))) = jobs (snd ?q) @ js"
      "map wd_subscription ds = ss"
      "list_all (\<lambda>d. wd_event d = ev \<and> wd_type d = ty \<and> wd_payload d = p) ds"
      "list_all2 (\<lambda>d j. delivery_job (wd_id d) j) ds js"
    by blast
  obtain j where j: "jobs (snd ?q) = jobs db @ [j]" "delivery_job ?i j"
    by (simp add: q delivery_job_def)
  have del: "deliveries (snd ?q) = deliveries db @ [?d]" by (simp add: q)
  show ?case
    unfolding step
    by (rule exI [of _ "?d # ds"], rule exI [of _ "j # js"]) (use ih j del in simp)
qed

lemma fresh_ids_enqueue_matches:
  "fresh_ids E db \<Longrightarrow> fresh_ids E (snd (enqueue_matches E l ty d rs db))"
proof (induction rs arbitrary: db)
  case (Cons r rs)
  have "fresh_ids E (snd (enqueue E k p t db))" for k p t
    by (rule fresh_ids_enqueue [OF Cons.prems])
  with Cons show ?case by (auto split: prod.splits) (metis snd_conv)+
qed simp

lemma fresh_ids_match_and_enqueue:
  "fresh_ids E db \<Longrightarrow> fresh_ids E (snd (match_and_enqueue E l ty d db))"
  by (simp add: match_and_enqueue_def Let_def fresh_ids_enqueue_matches)

lemma enqueue_matches_deliveries [simp]:
  "deliveries (snd (enqueue_matches E l ty d rs db)) = deliveries db"
proof (induction rs arbitrary: db)
  case (Cons r rs)
  have "deliveries (snd (enqueue E k p t db)) = deliveries db" for k p t
    by (simp add: enqueue_def draw_def Let_def)
  with Cons show ?case by (auto split: prod.splits) (metis snd_conv)+
qed simp

lemma enqueue_matches_count:
  "fresh_ids E db \<Longrightarrow>
     fst (enqueue_matches E l ty d rs db) = length (filter (\<lambda>r. conditions_match (ar_conditions r) d) rs)
   \<and> length (jobs (snd (enqueue_matches E l ty d rs db)))
     = length (jobs db) + length (filter (\<lambda>r. conditions_match (ar_conditions r) d) rs)"
proof (induction rs arbitrary: db)
  case (Cons r rs)
  let ?p = "action_payload l ty d r"
  note q = enqueue_fresh [OF Cons.prems, of "''automation_action''" ?p None]
  have "fresh_ids E (snd (enqueue E ''automation_action'' ?p None db))"
    by (rule fresh_ids_enqueue [OF Cons.prems])
  note ih = Cons.IH [OF this]
  show ?case
  proof (cases "conditions_match (ar_conditions r) d")
    case True
    then show ?thesis using ih by (simp add: q split_beta)
  qed (simp add: Cons.IH [OF Cons.prems])
qed simp

lemma job_ok_bounds:
  assumes "job_ok j"
  shows "0 \<le> j_attempts j \<and> j_attempts j \<le> 5 \<and> j_max_attempts j = 5
   \<and> (j_status j = ''dead'' \<longleftrightarrow> j_attempts j = 5)
   \<and> j_status j \<in> {''pending'', ''running'', ''done'', ''dead''}"
  using assms by (auto simp: job_ok_def split: if_splits)

section \<open>Properties\<close>

text \<open>
  A job is never handed out twice.  Two successive claims, at any times and with any limits,
  return disjoint sets of jobs.
\<close>

theorem claims_disjoint:
  "c_id ` set (fst (claim_due E n db)) \<inter> c_id ` set (fst (claim_due E' m (snd (claim_due E n db)))) = {}"
proof -
  let ?ids = "j_id ` set (due_jobs E n db)"
  have new: "j_id j \<notin> ?ids" if "j \<in> set (due_jobs E' m (snd (claim_due E n db)))" for j
    using due_jobs_pending [OF that] by (auto simp: claim_due_def Let_def split: if_splits)
  have c: "c_id ` set (fst (claim_due F k d)) = j_id ` set (due_jobs F k d)" for F k d
    by (simp add: claim_due_def Let_def to_claimed_def image_image)
  show ?thesis
  proof (rule equals0I)
    fix i assume i: "i \<in> c_id ` set (fst (claim_due E n db)) \<inter> c_id ` set (fst (claim_due E' m (snd (claim_due E n db))))"
    then have "i \<in> ?ids" and "i \<in> j_id ` set (due_jobs E' m (snd (claim_due E n db)))"
      by (simp_all only: c Int_iff)
    from this(2) show False
    proof (rule imageE)
      fix j assume "i = j_id j" "j \<in> set (due_jobs E' m (snd (claim_due E n db)))"
      with new \<open>i \<in> ?ids\<close> show False by simp
    qed
  qed
qed

text \<open>
  C17: Retries are bounded.  Whatever sequence of enqueue, claim, finish and purge commands runs, at
  whatever times, on an empty queue, every job has made at most five attempts, five is the maximum stored with it,
  a job is dead exactly when it has used all five, and its status is one of the four the schema knows.
\<close>

theorem job_attempts_bounded:
  assumes "jobs db0 = []"
  shows "\<forall>j\<in>set (jobs (fold (job_step Es) cs db0)).
     0 \<le> j_attempts j \<and> j_attempts j \<le> 5 \<and> j_max_attempts j = 5
   \<and> (j_status j = ''dead'' \<longleftrightarrow> j_attempts j = 5)
   \<and> j_status j \<in> {''pending'', ''running'', ''done'', ''dead''}"
proof -
  have "jobs_ok db0" using assms by (simp add: jobs_ok_def)
  then have "jobs_ok (fold (job_step Es) cs db0)" by (rule jq.run_inv) (simp add: list_all_iff)
  then have "job_ok j" if "j \<in> set (jobs (fold (job_step Es) cs db0))" for j
    using that by (simp add: jobs_ok_def list_all_iff)
  then show ?thesis by (blast dest: job_ok_bounds)
qed

text \<open>
  The retry schedule.  When the handler of a running job fails, the job waits 30 s, 2 min, 10 min
  or 1 h before attempt 2, 3, 4 or 5, and the fifth failure makes it dead.  No other job changes.  The
  sixth entry of the documented schedule, 6 h, is never used with the default of five attempts.
\<close>

theorem job_retry_schedule:
  assumes "jobs_ok db" and "k \<in> set (jobs db)" and "j_status k = ''running''"
  shows "jobs (finish_job E (to_claimed k) (Inl e) db) =
     map (\<lambda>j. if j_id j \<noteq> j_id k then j
             else if j_attempts k = 4 then k\<lparr>j_status := ''dead'', j_attempts := 5, j_updated_at := now E\<rparr>
             else k\<lparr>j_status := ''pending'', j_attempts := j_attempts k + 1,
                    j_run_at := now E + [30, 120, 600, 3600] ! nat (j_attempts k) * 1000000,
                    j_updated_at := now E\<rparr>) (jobs db)"
proof -
  have ok: "job_ok k" using assms(1,2) by (auto simp: jobs_ok_def list_all_iff)
  then have a: "j_max_attempts k = 5" "j_attempts k \<in> {0, 1, 2, 3, 4}"
    using assms(3) by (auto simp: job_ok_def)
  have same: "j = k" if "j \<in> set (jobs db)" "j_id j = j_id k" for j
    using same_id_same_job [OF assms(1) that(1) assms(2) that(2)] .
  show ?thesis
    using a(2)
    by (auto simp: finish_job_def to_claimed_def update_job_def Let_def a(1) backoff_delay_def
        BACKOFF_SECONDS_def dest: same)
qed

text \<open>
  Event fan-out is complete.  With fresh identifiers, \<^verbatim>\<open>emit\<close> adds exactly one delivery for each
  enabled subscription of the ledger to this event type, all with the same event and payload, queues
  one pending \<^verbatim>\<open>webhook_delivery\<close> job for each of them in the same order, and leaves the books alone.
\<close>

theorem emit_fanout:
  assumes "fresh_ids E db" and "distinct (map ws_id (subscriptions db))"
    and ss: "ss = map ws_id (filter (\<lambda>s. ws_ledger s = l \<and> ws_enabled s \<and> ty \<in> set (ws_events s)) (subscriptions db))"
  shows "\<exists>ds js ev. deliveries (emit E l ty d db) = deliveries db @ ds
     \<and> jobs (emit E l ty d db) = jobs (snd (match_and_enqueue E l ty d db)) @ js
     \<and> map wd_subscription ds = ss \<and> list_all (\<lambda>d. wd_event d = ev \<and> wd_type d = ty) ds
     \<and> list_all2 (\<lambda>d j. delivery_job (wd_id d) j) ds js
     \<and> books (emit E l ty d db) = books db"
proof (cases "ss = []")
  let ?db1 = "snd (match_and_enqueue E l ty d db)"
  have subs: "subscriptions ?db1 = subscriptions db"
    by (rule books_eqD) (rule match_and_enqueue_books)
  have del: "deliveries ?db1 = deliveries db" by (simp add: match_and_enqueue_def Let_def)
  {
    case True
    then have "emit E l ty d db = ?db1" by (simp add: emit_def emit_inner_def Let_def subs ss)
    with True del show ?thesis by (simp add: frame)
  next
    case False
    let ?ev = "uuid_at E (drawn ?db1)"
    let ?db2 = "?db1\<lparr>drawn := Suc (drawn ?db1)\<rparr>"
    define pl where "pl = JObj [(''id'', JUuid ?ev), (''type'', JStr ty), (''occurred_at'', JTime (now E)),
                                (''ledger_id'', JUuid l), (''data'', d)]"
    have em: "emit E l ty d db = snd (emit_subs E ?ev ty pl ss ?db2)"
      using False unfolding emit_def emit_inner_def Let_def subs ss [symmetric] draw_def pl_def
      by simp
    have fr1: "fresh_ids E ?db1" by (rule fresh_ids_match_and_enqueue [OF assms(1)])
    have "\<exists>ds js. fst (emit_subs E ?ev ty pl ss ?db2) = Inr ()
       \<and> deliveries (snd (emit_subs E ?ev ty pl ss ?db2)) = deliveries ?db2 @ ds
       \<and> jobs (snd (emit_subs E ?ev ty pl ss ?db2)) = jobs ?db2 @ js
       \<and> map wd_subscription ds = ss
       \<and> list_all (\<lambda>d. wd_event d = ?ev \<and> wd_type d = ty \<and> wd_payload d = pl) ds
       \<and> list_all2 (\<lambda>d j. delivery_job (wd_id d) j) ds js"
    proof (rule emit_subs_fanout)
      show "fresh_ids E ?db2" by (rule fresh_ids_step [OF fr1]) (auto simp: row_ids_def)
      show "distinct ss" using assms(2) by (auto simp: ss distinct_map inj_on_def)
      show "set ss \<subseteq> ws_id ` set (subscriptions ?db2)" by (auto simp: ss subs)
      show "?ev \<notin> uuid_at E ` {drawn ?db2..}" using fr1 by (auto simp: fresh_ids_def dest: injD)
      show "\<forall>d\<in>set (deliveries ?db2). wd_event d = ?ev \<longrightarrow> wd_subscription d \<notin> set ss"
        using fresh_drawn(2) [OF fr1] notin_imageD [of ?ev wd_event "set (deliveries ?db1)"]
        by (simp add: row_ids_def)
    qed
    then obtain ds js where r: "deliveries (emit E l ty d db) = deliveries db @ ds"
        "jobs (emit E l ty d db) = jobs ?db1 @ js" "map wd_subscription ds = ss"
        "list_all (\<lambda>d. wd_event d = ?ev \<and> wd_type d = ty \<and> wd_payload d = pl) ds"
        "list_all2 (\<lambda>d j. delivery_job (wd_id d) j) ds js"
      by (auto simp: em del)
    from r(4) have "list_all (\<lambda>d. wd_event d = ?ev \<and> wd_type d = ty) ds" by (auto simp: list_all_iff)
    with r show ?thesis using emit_books by blast
  }
qed

text \<open>
  Rules whose budget is used up queue nothing; otherwise \<^verbatim>\<open>match_and_enqueue\<close> queues one job for each
  enabled rule of the ledger and trigger whose conditions hold, and reports that number.  The budget is
  compared once per event, so an event with many rules can go beyond it.
\<close>

theorem automation_matches:
  assumes "fresh_ids E db"
    and rs: "rs = filter (\<lambda>r. ar_ledger r = l \<and> ar_trigger r = ty \<and> ar_enabled r
                             \<and> conditions_match (ar_conditions r) d) (rules db)"
  shows "fst (match_and_enqueue E l ty d db) = (if actions_last_hour E l db < 120 then length rs else 0)
   \<and> length (jobs (snd (match_and_enqueue E l ty d db)))
     = length (jobs db) + fst (match_and_enqueue E l ty d db)"
proof -
  let ?all = "filter (\<lambda>r. ar_ledger r = l \<and> ar_trigger r = ty \<and> ar_enabled r) (rules db)"
  have "rs = filter (\<lambda>r. conditions_match (ar_conditions r) d) ?all" by (simp add: rs conj_assoc)
  then show ?thesis
    using enqueue_matches_count [OF assms(1), of l ty d ?all]
    by (auto simp: match_and_enqueue_def Let_def LEDGER_ACTION_BUDGET_PER_HOUR_def)
qed

text \<open>
  A rule whose creator was deleted acts and still fails.  Its \<^verbatim>\<open>created_by\<close> is null, so
  \<^verbatim>\<open>automation::run\<close> queues the mail of an \<^verbatim>\<open>email_notify\<close> action and then returns a decoding error;
  the queue will run the job again, and every run queues another mail.
\<close>

theorem automation_orphan_rule_repeats:
  assumes "fresh_ids E db" and "find (\<lambda>r. ar_id r = rid) (rules db) = Some r"
    and "ar_enabled r" and "ar_created_by r = None"
    and "p = JObj [(''rule_id'', JUuid rid), (''ledger_id'', JUuid l), (''event_type'', JStr ty),
                   (''action'', JStr ''email_notify''), (''action_config'', JObj [(''to'', JStr addr)]),
                   (''data'', d)]"
  shows "fst (automation_run E sd p db) = Inl (JobDb DecodeNull)
   \<and> (\<exists>j. jobs (snd (automation_run E sd p db)) = jobs db @ [j] \<and> j_kind j = ''email_send'')"
  using assms(2-4)
  by (simp add: assms(5) automation_run_def automation_action_def payload_field_def
      enqueue_fresh [OF assms(1)])

section \<open>Witnesses\<close>

definition sample_queue_db :: db where
  "sample_queue_db = empty_db\<lparr>
     subscriptions := [\<lparr>ws_id = 5, ws_ledger = 1, ws_events = [''transaction.posted''], ws_enabled = True\<rparr>],
     rules := [\<lparr>ar_id = 6, ar_ledger = 1, ar_trigger = ''transaction.posted'', ar_conditions = JObj [],
                ar_action = ''email_notify'', ar_config = JObj [(''to'', JStr ''a@b.c'')], ar_enabled = True,
                ar_created_by = None\<rparr>],
     jobs := [\<lparr>j_id = 9, j_kind = ''email_send'', j_payload = JNull, j_run_at = 0, j_attempts = 4,
               j_max_attempts = 5, j_status = ''running'', j_created_at = 0, j_updated_at = 0\<rparr>]\<rparr>"

lemma sample_queue_fresh: "fresh_ids sample_env sample_queue_db"
  by (auto simp: fresh_ids_def sample_env_def sample_queue_db_def empty_db_def row_ids_def inj_def)

lemma sample_queue_jobs_ok: "jobs_ok sample_queue_db"
  by (simp add: jobs_ok_def job_ok_def sample_queue_db_def)

theorem job_attempts_bounded_witness:
  "list_all (\<lambda>j. j_attempts j \<le> 5 \<and> j_max_attempts j = 5)
     (jobs (fold (job_step (\<lambda>_. sample_env)) [(0, Enqueue ''email_send'' JNull None), (1, Claim 3)] empty_db))"
  using job_attempts_bounded [of empty_db "\<lambda>_. sample_env" "[(0, Enqueue ''email_send'' JNull None), (1, Claim 3)]"]
  by (simp add: empty_db_def list_all_iff)

theorem job_retry_schedule_witness:
  "map j_status (jobs (finish_job sample_env (to_claimed (jobs sample_queue_db ! 0)) (Inl (Failed ''x''))
     sample_queue_db)) = [''dead'']"
  using job_retry_schedule [OF sample_queue_jobs_ok, of "jobs sample_queue_db ! 0" sample_env "Failed ''x''"]
  by (simp add: sample_queue_db_def)

theorem emit_fanout_witness:
  "map wd_subscription (deliveries (emit sample_env 1 ''transaction.posted'' JNull sample_queue_db)) = [5]"
  using emit_fanout [OF sample_queue_fresh _ refl, of 1 "''transaction.posted''" JNull]
  by (auto simp: sample_queue_db_def empty_db_def)

theorem automation_matches_witness:
  "fst (match_and_enqueue sample_env 1 ''transaction.posted'' JNull sample_queue_db) = 1"
  using automation_matches [OF sample_queue_fresh refl, of 1 "''transaction.posted''" JNull]
  by (simp add: sample_queue_db_def conditions_match_def actions_last_hour_def)

theorem automation_orphan_witness:
  "fst (automation_run sample_env (\<lambda>_ _ _. []) (JObj [(''rule_id'', JUuid 6), (''ledger_id'', JUuid 1),
     (''event_type'', JStr ''x''), (''action'', JStr ''email_notify''),
     (''action_config'', JObj [(''to'', JStr ''a@b.c'')]), (''data'', JNull)]) sample_queue_db)
   = Inl (JobDb DecodeNull)"
  using automation_orphan_rule_repeats [OF sample_queue_fresh _ _ _ refl, where rid = 6 and r = "rules sample_queue_db ! 0"
      and l = 1 and ty = "''x''" and addr = "''a@b.c''" and d = JNull and sd = "\<lambda>_ _ _. []"]
  by (simp add: sample_queue_db_def)

end
