(* ===== verification/Close_Controls.thy ===== *)
theory Close_Controls
  imports Db_Schema
begin

text \<open>
  \<^verbatim>\<open>src/src/domain/close_controls.rs\<close>: the close watermark of a ledger, the maker-checker threshold,
  the gapless invoice numbers and the gap report.
\<close>

section \<open>Watermark and threshold\<close>

definition MIN_REASON_LEN :: nat where
  "MIN_REASON_LEN = 10"

definition validate_reason :: "string \<Rightarrow> string + string" where
  "validate_reason reason =
     (let trimmed = trim reason in
      if length trimmed < MIN_REASON_LEN
      then Inl (''Reason must be at least '' @ show_nat MIN_REASON_LEN @ '' characters.'')
      else Inr trimmed)"

text \<open>SQL's \<^verbatim>\<open>MAX\<close> over a column: null when no row has a value.\<close>

definition sql_max :: "'a::linorder list \<Rightarrow> 'a option" where
  "sql_max xs = (if xs = [] then None else Some (Max (set xs)))"

definition closed_through_for :: "db \<Rightarrow> uuid \<Rightarrow> date option" where
  "closed_through_for db ledger_id =
     (let rows = filter (\<lambda>c. cp_ledger c = ledger_id) (closed_periods db);
          through = sql_max (List.map_filter cp_through rows);
          year = sql_max (map cp_year rows)
      in case through of
           Some d \<Rightarrow> Some d
         | None \<Rightarrow> (case year of Some y \<Rightarrow> from_ymd_opt y 12 31 | None \<Rightarrow> None))"

text \<open>The same query on an open transaction.\<close>

definition closed_through_in_tx :: "db \<Rightarrow> uuid \<Rightarrow> date option" where
  "closed_through_in_tx db ledger_id =
     (let rows = filter (\<lambda>c. cp_ledger c = ledger_id) (closed_periods db);
          through = sql_max (List.map_filter cp_through rows);
          year = sql_max (map cp_year rows)
      in case through of
           Some d \<Rightarrow> Some d
         | None \<Rightarrow> (case year of Some y \<Rightarrow> from_ymd_opt y 12 31 | None \<Rightarrow> None))"

definition is_closed :: "date option \<Rightarrow> date \<Rightarrow> bool" where
  "is_closed watermark d = (case watermark of Some w \<Rightarrow> d \<le> w | None \<Rightarrow> False)"

definition approval_threshold :: "db \<Rightarrow> uuid \<Rightarrow> decimal option" where
  "approval_threshold db ledger_id =
     (case Option.bind (ledger_of db ledger_id) l_threshold of
        Some t \<Rightarrow> if 0 \<le> t then Some t else None
      | None \<Rightarrow> None)"

section \<open>Invoice numbers\<close>

definition invoice_number :: "int \<Rightarrow> int \<Rightarrow> string" where
  "invoice_number year n = show_int year @ ''-'' @ show_int_pad 4 n"

text \<open>
  \<^verbatim>\<open>substring(invoice_number from '-(\d+)$')\<close>: the digits after the last dash when the rest of the
  string is digits.
\<close>

definition number_suffix :: "string \<Rightarrow> string option" where
  "number_suffix s =
     (let ps = split_on (CHR ''-'') s; d = last ps
      in if 2 \<le> length ps \<and> d \<noteq> [] \<and> list_all is_digit d then Some d else None)"

definition numbers_like :: "db \<Rightarrow> uuid \<Rightarrow> int \<Rightarrow> invoice_row list" where
  "numbers_like db ledger_id year =
     filter (\<lambda>i. i_ledger i = ledger_id \<and>
              (case i_number i of None \<Rightarrow> False
               | Some n \<Rightarrow> strip_prefix (show_int year @ ''-'') n \<noteq> None)) (invoices db)"

definition max_suffix :: "db \<Rightarrow> uuid \<Rightarrow> int \<Rightarrow> db_error + int option" where
  "max_suffix db ledger_id year =
     (let ds = List.map_filter (\<lambda>i. Option.bind (i_number i) number_suffix) (numbers_like db ledger_id year)
      in if list_ex (\<lambda>d. 2 ^ 31 \<le> int (digits_val d)) ds then Inl NumericOverflow
         else Inr (map_option int (sql_max (map digits_val ds))))"

definition seq_of :: "db \<Rightarrow> uuid \<Rightarrow> int \<Rightarrow> int option" where
  "seq_of db ledger_id year =
     map_option sq_last (find (\<lambda>s. sq_ledger s = ledger_id \<and> sq_year s = year) (invoice_seqs db))"

definition insert_seq :: "uuid \<Rightarrow> int \<Rightarrow> int \<Rightarrow> db \<Rightarrow> db_error + db" where
  "insert_seq ledger_id year seed db =
     (if seq_of db ledger_id year \<noteq> None then Inr db
      else if seed < 0 then Inl (CheckViolation ''invoice_sequences_last_no_check'')
      else if ledger_of db ledger_id = None
        then Inl (ForeignKeyViolation ''invoice_sequences_ledger_id_fkey'')
      else Inr (db\<lparr>invoice_seqs := invoice_seqs db @
                     [\<lparr>sq_ledger = ledger_id, sq_year = year, sq_last = seed\<rparr>]\<rparr>))"

definition update_seq :: "uuid \<Rightarrow> int \<Rightarrow> int \<Rightarrow> db \<Rightarrow> db_error + db" where
  "update_seq ledger_id year n db =
     (if n < 0 \<and> seq_of db ledger_id year \<noteq> None
      then Inl (CheckViolation ''invoice_sequences_last_no_check'')
      else Inr (db\<lparr>invoice_seqs := map (\<lambda>s. if sq_ledger s = ledger_id \<and> sq_year s = year
                                             then s\<lparr>sq_last := n\<rparr> else s) (invoice_seqs db)\<rparr>))"

definition next_invoice_number :: "uuid \<Rightarrow> int \<Rightarrow> (db, db_error, string) tx" where
  "next_invoice_number ledger_id year db =
     rbind (case seq_of db ledger_id year of
              Some n \<Rightarrow> Inr (n, db)
            | None \<Rightarrow>
                rbind (max_suffix db ledger_id year) (\<lambda>m.
                let seed = (case m of Some k \<Rightarrow> k | None \<Rightarrow> 0) in
                rbind (insert_seq ledger_id year seed db) (\<lambda>db1.
                Inr (case seq_of db1 ledger_id year of Some n \<Rightarrow> n | None \<Rightarrow> seed, db1))))
       (\<lambda>(last_no, db1).
         let last_no = i32_wrap (last_no + 1) in
         rbind (update_seq ledger_id year last_no db1) (\<lambda>db2.
         Inr (invoice_number year last_no, db2)))"

text \<open>
  The gap report.  \<open>used\<close> is the list of (sequence number, invoice number, status) that parse; the
  \<^verbatim>\<open>BTreeMap\<close> keeps the last invoice number of each key and yields them in the order of the keys.
\<close>

definition used_numbers :: "db \<Rightarrow> uuid \<Rightarrow> int \<Rightarrow> (int \<times> string \<times> string) list" where
  "used_numbers db ledger_id year =
     List.map_filter (\<lambda>i.
       Option.bind (i_number i) (\<lambda>num.
       Option.bind (strip_prefix (show_int year @ ''-'') num) (\<lambda>suffix.
       map_option (\<lambda>n. (n, num, i_status i)) (parse_i32 suffix)))) (numbers_like db ledger_id year)"

definition invoice_gap_report :: "db \<Rightarrow> uuid \<Rightarrow> int \<Rightarrow> string list \<times> string list \<times> string list" where
  "invoice_gap_report db ledger_id year =
     (let used = used_numbers db ledger_id year;
          ks = sorted_list_of_set (set (map fst used));
          hi = (if ks = [] then 0 else last ks);
          voids = map (fst \<circ> snd) (filter (\<lambda>u. snd (snd u) = ''void'') used);
          missing = map (invoice_number year) (filter (\<lambda>n. n \<notin> set ks) [1..hi]);
          allocated = map (\<lambda>k. the (map_of (rev (map (\<lambda>u. (fst u, fst (snd u))) used)) k)) ks
      in (allocated, voids, missing))"

section \<open>Laws of the watermark\<close>

lemma closed_through_in_tx_eq [simp]: "closed_through_in_tx db l = closed_through_for db l"
  by (simp add: closed_through_in_tx_def closed_through_for_def)

lemma sql_max_Some:
  "sql_max xs = Some m \<Longrightarrow> m \<in> set xs \<and> (\<forall>x\<in>set xs. x \<le> m)"
  by (auto simp: sql_max_def split: if_splits)

lemma sql_max_None [simp]: "sql_max xs = None \<longleftrightarrow> xs = []"
  by (simp add: sql_max_def)

lemma set_map_filter: "y \<in> set (List.map_filter f xs) \<longleftrightarrow> (\<exists>x\<in>set xs. f x = Some y)"
  by (induction xs) (auto simp: map_filter_simps split: option.splits)

lemma map_filter_Nil: "List.map_filter f xs = [] \<longleftrightarrow> (\<forall>x\<in>set xs. f x = None)"
  by (induction xs) (auto simp: map_filter_simps split: option.splits)

definition periods_of :: "db \<Rightarrow> uuid \<Rightarrow> closed_row list" where
  "periods_of db l = filter (\<lambda>c. cp_ledger c = l) (closed_periods db)"

lemma closed_through_cases:
  obtains (through) d where "closed_through_for db l = Some d"
      and "\<exists>c\<in>set (periods_of db l). cp_through c = Some d"
      and "\<And>c e. c \<in> set (periods_of db l) \<Longrightarrow> cp_through c = Some e \<Longrightarrow> e \<le> d"
  | (legacy) y where "closed_through_for db l = from_ymd_opt y 12 31"
      and "\<forall>c\<in>set (periods_of db l). cp_through c = None"
      and "y \<in> cp_year ` set (periods_of db l)" and "\<And>c. c \<in> set (periods_of db l) \<Longrightarrow> cp_year c \<le> y"
  | (open_ledger) "closed_through_for db l = None" and "periods_of db l = []"
proof -
  let ?rows = "periods_of db l"
  have eq: "closed_through_for db l =
      (case sql_max (List.map_filter cp_through ?rows) of Some d \<Rightarrow> Some d
       | None \<Rightarrow> (case sql_max (map cp_year ?rows) of Some y \<Rightarrow> from_ymd_opt y 12 31 | None \<Rightarrow> None))"
    unfolding closed_through_for_def periods_of_def Let_def ..
  show thesis
  proof (cases "sql_max (List.map_filter cp_through ?rows)")
    case (Some d)
    then show thesis using sql_max_Some [OF Some] by (intro through) (auto simp: eq set_map_filter)
  next
    case None
    then have none: "\<forall>c\<in>set ?rows. cp_through c = None" by (simp add: map_filter_Nil)
    show thesis
    proof (cases "sql_max (map cp_year ?rows)")
      case (Some y)
      have "closed_through_for db l = from_ymd_opt y 12 31" unfolding eq None Some by simp
      then show thesis using sql_max_Some [OF Some] none by (intro legacy) auto
    next
      case None': None
      have "closed_through_for db l = None" unfolding eq None None' by simp
      with None' show thesis by (intro open_ledger) simp_all
    qed
  qed
qed

section \<open>Laws of the invoice numbers\<close>

lemma zero_is_digit: "is_digit (CHR ''0'')"
  by (simp add: is_digit_def)

lemma pad_digits: "0 \<le> n \<Longrightarrow> list_all is_digit (show_int_pad w n) \<and> show_int_pad w n \<noteq> []
   \<and> digits_val (show_int_pad w n) = nat n"
  using show_int_pad_nat [of w "nat n"] show_nat_digits [of "nat n"]
  by (auto simp: list_all_iff zero_is_digit digits_val_zeros)

lemma number_suffix_invoice_number:
  assumes "0 \<le> n"
  shows "number_suffix (invoice_number y n) = Some (show_int_pad 4 n)"
proof -
  have "CHR ''-'' \<notin> set (show_int_pad 4 n)"
    using pad_digits [OF assms, of 4] is_digit_dash by (auto simp: list_all_iff)
  then have "split_on (CHR ''-'') (invoice_number y n) = split_on (CHR ''-'') (show_int y) @ [show_int_pad 4 n]"
    by (simp add: invoice_number_def split_on_append_sep split_on_no_sep)
  moreover have "1 \<le> length (split_on (CHR ''-'') (show_int y))"
    by (simp add: Suc_leI)
  ultimately show ?thesis using pad_digits [OF assms, of 4] by (simp add: number_suffix_def Let_def)
qed

lemma strip_invoice_number [simp]:
  "strip_prefix (show_int y @ ''-'') (invoice_number y n) = Some (show_int_pad 4 n)"
  by (simp add: strip_prefix_def invoice_number_def)

lemma invoice_number_inj: "0 \<le> m \<Longrightarrow> 0 \<le> n \<Longrightarrow> invoice_number y m = invoice_number y n \<longleftrightarrow> m = n"
  using show_int_pad_inj [of 4 "nat m" "nat n"] by (auto simp: invoice_number_def)

lemma seq_of_update:
  "seq_of db l y = Some k \<Longrightarrow> update_seq l y n db = Inr db' \<Longrightarrow> seq_of db' l y = Some n"
proof -
  have f: "find (\<lambda>s. sq_ledger s = l \<and> sq_year s = y) (map (\<lambda>s. if sq_ledger s = l \<and> sq_year s = y
            then s\<lparr>sq_last := n\<rparr> else s) ss)
      = map_option (\<lambda>s. s\<lparr>sq_last := n\<rparr>) (find (\<lambda>s. sq_ledger s = l \<and> sq_year s = y) ss)" for ss
    by (induction ss) auto
  show "seq_of db l y = Some k \<Longrightarrow> update_seq l y n db = Inr db' \<Longrightarrow> seq_of db' l y = Some n"
    by (auto simp: seq_of_def update_seq_def f split: if_splits)
qed

text \<open>One allocation on an existing sequence.\<close>

lemma next_invoice_number_Some:
  assumes "seq_of db l y = Some k" and "0 \<le> k" and "k + 1 < 2 ^ 31"
  obtains db' where "next_invoice_number l y db = Inr (invoice_number y (k + 1), db')"
    and "seq_of db' l y = Some (k + 1)" and "invoices db' = invoices db" and "ledgers db' = ledgers db"
proof -
  have w: "i32_wrap (k + 1) = k + 1" using assms by (intro i32_wrap_id) auto
  obtain db' where u: "update_seq l y (k + 1) db = Inr db'" "invoices db' = invoices db" "ledgers db' = ledgers db"
    using assms by (simp add: update_seq_def)
  show thesis
    by (rule that [of db']) (use assms w u seq_of_update [OF assms(1) u(1)] in \<open>simp_all add: next_invoice_number_def\<close>)
qed

lemma seq_of_insert:
  assumes "seq_of db l y = None" and "insert_seq l y seed db = Inr db'"
  shows "seq_of db' l y = Some seed"
proof -
  have "find (\<lambda>s. sq_ledger s = l \<and> sq_year s = y) (invoice_seqs db) = None"
    using assms(1) by (simp add: seq_of_def)
  with assms show ?thesis
    by (auto simp: seq_of_def insert_seq_def find_append_None split: if_splits)
qed

text \<open>\<open>n\<close> allocations one after the other.\<close>

fun allocate :: "nat \<Rightarrow> uuid \<Rightarrow> int \<Rightarrow> (db, db_error, string list) tx" where
  "allocate 0 l y db = Inr ([], db)"
| "allocate (Suc n) l y db =
     rbind (next_invoice_number l y db) (\<lambda>(s, db1).
     rbind (allocate n l y db1) (\<lambda>(ss, db2). Inr (s # ss, db2)))"

lemma allocate_Some:
  assumes "seq_of db l y = Some k" and "0 \<le> k" and "k + int n < 2 ^ 31"
  shows "\<exists>db'. allocate n l y db = Inr (map (invoice_number y) [k + 1..k + int n], db')"
  using assms
proof (induction n arbitrary: k db)
  case 0
  then show ?case by simp
next
  case (Suc n)
  then have bound: "k + 1 < 2 ^ 31" by simp
  obtain db1 where db1: "next_invoice_number l y db = Inr (invoice_number y (k + 1), db1)"
    "seq_of db1 l y = Some (k + 1)"
    using next_invoice_number_Some [OF Suc.prems(1,2) bound] by metis
  from Suc.IH [OF db1(2)] Suc.prems(2,3)
  obtain db2 where db2: "allocate n l y db1 = Inr (map (invoice_number y) [k + 1 + 1..k + 1 + int n], db2)"
    by auto
  have "[k + 1..k + int (Suc n)] = (k + 1) # [k + 1 + 1..k + 1 + int n]"
    by (subst upto_rec1) (simp_all add: algebra_simps)
  with db1 db2 show ?case by simp
qed

lemma seed_bounds:
  assumes "max_suffix db l y = Inr m"
  shows "(\<forall>i\<in>set (numbers_like db l y). \<forall>d. Option.bind (i_number i) number_suffix = Some d \<longrightarrow>
            int (digits_val d) \<le> (case m of Some k \<Rightarrow> k | None \<Rightarrow> 0)) \<and> 0 \<le> (case m of Some k \<Rightarrow> k | None \<Rightarrow> 0)
         \<and> (case m of Some k \<Rightarrow> k | None \<Rightarrow> 0) < 2 ^ 31"
proof -
  let ?ds = "List.map_filter (\<lambda>i. Option.bind (i_number i) number_suffix) (numbers_like db l y)"
  have m: "m = map_option int (sql_max (map digits_val ?ds))" and small: "\<forall>d\<in>set ?ds. digits_val d < 2 ^ 31"
    using assms by (auto simp: max_suffix_def Let_def list_ex_iff not_le split: if_splits)
  show ?thesis
  proof (cases "sql_max (map digits_val ?ds)")
    case None
    then have "m = None" "\<forall>i\<in>set (numbers_like db l y). Option.bind (i_number i) number_suffix = None"
      using m by (simp_all add: map_filter_Nil)
    then show ?thesis by simp
  next
    case (Some k)
    from sql_max_Some [OF this] have k: "k \<in> digits_val ` set ?ds" "\<forall>d\<in>set ?ds. digits_val d \<le> k" by auto
    from k(1) small have "k < 2 ^ 31" by auto
    with k(2) Some m show ?thesis by (auto simp: set_map_filter)
  qed
qed

text \<open>An allocation on a ledger and year that has no sequence row yet.\<close>

lemma next_invoice_number_None:
  assumes "seq_of db l y = None" and "next_invoice_number l y db = Inr (s, db')"
  obtains m where "max_suffix db l y = Inr m"
    and "s = invoice_number y ((case m of Some k \<Rightarrow> k | None \<Rightarrow> 0) + 1)"
proof -
  from assms obtain m db1 where m: "max_suffix db l y = Inr m"
    and ins: "insert_seq l y (case m of Some k \<Rightarrow> k | None \<Rightarrow> 0) db = Inr db1"
    by (auto simp: next_invoice_number_def Let_def result_simps)
  let ?seed = "case m of Some k \<Rightarrow> k | None \<Rightarrow> 0"
  note sq = seq_of_insert [OF assms(1) ins]
  have upd: "rbind (update_seq l y (i32_wrap (?seed + 1)) db1)
       (\<lambda>db2. Inr (invoice_number y (i32_wrap (?seed + 1)), db2)) = Inr (s, db')"
    using assms m ins sq by (simp add: next_invoice_number_def Let_def)
  then have s: "s = invoice_number y (i32_wrap (?seed + 1))" and nn: "0 \<le> i32_wrap (?seed + 1)"
    using sq by (auto simp: result_simps update_seq_def split: if_splits)
  have "i32_wrap (?seed + 1) = ?seed + 1"
  proof (cases "?seed + 1 < 2 ^ 31")
    case True
    then show ?thesis using seed_bounds [OF m] by (intro i32_wrap_id) auto
  next
    case False
    then have "?seed + 1 = 2 ^ 31" using seed_bounds [OF m] by simp
    with nn show ?thesis by (simp add: i32_wrap_def)
  qed
  with s m show thesis by (intro that) auto
qed

lemma sorted_last_Max: "sorted xs \<Longrightarrow> xs \<noteq> [] \<Longrightarrow> last xs = Max (set xs)"
  by (cases xs rule: rev_cases) (auto simp: sorted_append intro!: Max_eqI [symmetric])

lemma used_numbers_keys:
  assumes "map i_number (numbers_like db l y) = map (Some \<circ> invoice_number y) ns"
    and "\<forall>n\<in>set ns. 1 \<le> n \<and> n < 2 ^ 31"
  shows "map (\<lambda>u. (fst u, fst (snd u))) (used_numbers db l y) = map (\<lambda>n. (n, invoice_number y n)) ns"
proof -
  have one: "Option.bind (Some (invoice_number y n)) (\<lambda>num.
       Option.bind (strip_prefix (show_int y @ ''-'') num) (\<lambda>suffix.
       map_option (\<lambda>n. (n, num, st)) (parse_i32 suffix))) = Some (n, invoice_number y n, st)"
    if "1 \<le> n \<and> n < 2 ^ 31" for n :: int and st
    using parse_show_int_pad [of "nat n" 4] that by (simp add: nat_less_iff)
  have "map (\<lambda>u. (fst u, fst (snd u))) (List.map_filter (\<lambda>i. Option.bind (i_number i) (\<lambda>num.
       Option.bind (strip_prefix (show_int y @ ''-'') num) (\<lambda>suffix.
       map_option (\<lambda>n. (n, num, i_status i)) (parse_i32 suffix)))) is) = map (\<lambda>n. (n, invoice_number y n)) ns"
    if "map i_number is = map (Some \<circ> invoice_number y) ns" "\<forall>n\<in>set ns. 1 \<le> n \<and> n < 2 ^ 31" for "is" ns
    using that
  proof (induction ns arbitrary: "is")
    case (Cons n ns)
    then obtain i is' where eq: "is = i # is'" "i_number i = Some (invoice_number y n)"
      "map i_number is' = map (Some \<circ> invoice_number y) ns" by (cases "is") auto
    with Cons.prems Cons.IH eq one [of n "i_status i"] show ?case by (simp only: map_filter_simps) simp
  qed (simp add: map_filter_simps)
  from this [OF assms] show ?thesis by (simp add: used_numbers_def)
qed

section \<open>Properties\<close>

text \<open>
  What the close gate rejects.  A date is closed exactly when some period of the ledger with a
  \<^verbatim>\<open>closed_through\<close> date reaches it, or when no period of the ledger has such a date and some legacy
  row's year (in the range of the calendar) reaches it.
\<close>

theorem watermark_gate:
  assumes "\<forall>c\<in>set (periods_of db l). valid_date (Date (cp_year c) 12 31)" and "valid_date d"
  shows "is_closed (closed_through_for db l) d \<longleftrightarrow>
     (\<exists>c\<in>set (periods_of db l). \<exists>w. cp_through c = Some w \<and> d \<le> w)
   \<or> (\<forall>c\<in>set (periods_of db l). cp_through c = None)
     \<and> (\<exists>c\<in>set (periods_of db l). date_year d \<le> cp_year c)"
proof (rule closed_through_cases [of db l])
  fix w assume w: "closed_through_for db l = Some w" "\<exists>c\<in>set (periods_of db l). cp_through c = Some w"
    "\<And>c e. c \<in> set (periods_of db l) \<Longrightarrow> cp_through c = Some e \<Longrightarrow> e \<le> w"
  then show ?thesis by (auto simp: is_closed_def dest: order_trans)
next
  fix y assume y: "closed_through_for db l = from_ymd_opt y 12 31"
    "\<forall>c\<in>set (periods_of db l). cp_through c = None" "y \<in> cp_year ` set (periods_of db l)"
    "\<And>c. c \<in> set (periods_of db l) \<Longrightarrow> cp_year c \<le> y"
  then have "closed_through_for db l = Some (Date y 12 31)" using assms(1) by (auto simp: from_ymd_opt_def)
  moreover have "d \<le> Date y 12 31 \<longleftrightarrow> date_year d \<le> y"
    using valid_date_le_year_end [OF assms(2)] date_year_mono [of d "Date y 12 31"] by auto
  ultimately show ?thesis using y by (auto simp: is_closed_def intro: order_trans)
qed (auto simp: is_closed_def)

text \<open>
  A later legacy close does not close anything once a watermark exists.  A ledger closed through a
  date \<open>w\<close>, to which a row closing a later year without \<^verbatim>\<open>closed_through\<close> is added, still accepts every
  date after \<open>w\<close>, although the documentation says that legacy rows are honoured as 31 December.
\<close>

theorem legacy_close_ignored:
  assumes "closed_periods db = [\<lparr>cp_ledger = l, cp_year = y, cp_by = u, cp_through = Some w\<rparr>,
                                \<lparr>cp_ledger = l, cp_year = y', cp_by = u', cp_through = None\<rparr>]"
    and "w < d"
  shows "\<not> is_closed (closed_through_for db l) d"
  using assms by (simp add: closed_through_for_def is_closed_def sql_max_def map_filter_simps Let_def)

text \<open>
  C16: Invoice numbers are gapless.  On a sequence that stands at \<open>k\<close>, \<open>n\<close> allocations return the
  numbers \<open>k + 1\<close> to \<open>k + n\<close> in order, all different, as long as they fit the \<^verbatim>\<open>INTEGER\<close> column.
\<close>

theorem invoice_numbers_gapless:
  assumes "seq_of db l y = Some k" and "0 \<le> k" and "k + int n < 2 ^ 31"
  shows "\<exists>db'. allocate n l y db = Inr (map (invoice_number y) [k + 1..k + int n], db')
     \<and> distinct (map (invoice_number y) [k + 1..k + int n])"
proof -
  have "inj_on (invoice_number y) (set [k + 1..k + int n])"
    using assms(2) by (auto simp: inj_on_def invoice_number_inj)
  then show ?thesis using allocate_Some [OF assms] by (simp add: distinct_map)
qed

text \<open>
  The first number of a year is unused.  When the ledger has no sequence for the year, the number
  \<^verbatim>\<open>next_invoice_number\<close> returns is carried by no invoice of the ledger.
\<close>

theorem first_invoice_number_unused:
  assumes "seq_of db l y = None" and "next_invoice_number l y db = Inr (s, db')"
  shows "\<not> (\<exists>i\<in>set (invoices db). i_ledger i = l \<and> i_number i = Some s)"
proof
  assume "\<exists>i\<in>set (invoices db). i_ledger i = l \<and> i_number i = Some s"
  then obtain i where i: "i \<in> set (invoices db)" "i_ledger i = l" "i_number i = Some s" by blast
  from assms obtain m where m: "max_suffix db l y = Inr m"
    and s: "s = invoice_number y ((case m of Some k \<Rightarrow> k | None \<Rightarrow> 0) + 1)"
    by (rule next_invoice_number_None)
  let ?seed = "case m of Some k \<Rightarrow> k | None \<Rightarrow> (0::int)"
  note b = seed_bounds [OF m]
  have nn: "0 \<le> ?seed + 1" using b by simp
  have "i \<in> set (numbers_like db l y)" using i s by (simp add: numbers_like_def)
  moreover have "Option.bind (i_number i) number_suffix = Some (show_int_pad 4 (?seed + 1))"
    using i s nn by (simp add: number_suffix_invoice_number)
  ultimately have "int (digits_val (show_int_pad 4 (?seed + 1))) \<le> ?seed" using b by blast
  then show False using pad_digits [OF nn, of 4] nn by simp
qed

text \<open>
  The gap report is exact.  If the invoices of the ledger whose numbers start with the year carry
  the sequence numbers \<open>ns\<close>, the report lists as missing exactly the numbers between 1 and the largest
  of \<open>ns\<close> that are not among them, in order, and as allocated each number of \<open>ns\<close> once, in order.
\<close>

theorem gap_report_exact:
  assumes rows: "map i_number (numbers_like db l y) = map (Some \<circ> invoice_number y) ns"
    and pos: "\<forall>n\<in>set ns. 1 \<le> n \<and> n < 2 ^ 31" and ne: "ns \<noteq> []"
  shows "fst (invoice_gap_report db l y) = map (invoice_number y) (sorted_list_of_set (set ns))
   \<and> snd (snd (invoice_gap_report db l y)) = map (invoice_number y) (filter (\<lambda>n. n \<notin> set ns) [1..Max (set ns)])"
proof -
  let ?used = "used_numbers db l y"
  note used = used_numbers_keys [OF rows pos]
  have keys: "set (map fst ?used) = set ns"
    using arg_cong [OF used, of "map fst"] by (simp add: comp_def)
  have val: "the (map_of (rev (map (\<lambda>u. (fst u, fst (snd u))) ?used)) n) = invoice_number y n" if "n \<in> set ns" for n
  proof -
    have "map_of (rev (map (\<lambda>n. (n, invoice_number y n)) ns)) n = Some (invoice_number y n)"
      using that by (simp add: rev_map map_of_map_restrict)
    then show ?thesis by (simp only: used option.sel)
  qed
  have "last (sorted_list_of_set (set ns)) = Max (set ns)"
    using ne sorted_last_Max [of "sorted_list_of_set (set ns)"] by simp
  moreover have "sorted_list_of_set (set ns) \<noteq> []" using ne by simp
  ultimately show ?thesis
    unfolding invoice_gap_report_def Let_def keys fst_conv snd_conv using val by simp
qed

section \<open>Witnesses\<close>

definition sample_close_db :: db where
  "sample_close_db = empty_db\<lparr>
     ledgers := [\<lparr>l_id = 1, l_owner = 7, l_name = ''Books'', l_base_currency = ''USD'', l_basis = ''ACCRUAL'',
                  l_append_only = False, l_threshold = None\<rparr>],
     closed_periods := [\<lparr>cp_ledger = 1, cp_year = 2025, cp_by = 7, cp_through = Some (Date 2025 12 31)\<rparr>,
                        \<lparr>cp_ledger = 1, cp_year = 2026, cp_by = 7, cp_through = None\<rparr>],
     invoice_seqs := [\<lparr>sq_ledger = 1, sq_year = 2026, sq_last = 41\<rparr>],
     invoices := [\<lparr>i_id = 3, i_ledger = 1, i_number = Some ''2025-0002'', i_status = ''sent''\<rparr>]\<rparr>"

theorem watermark_gate_witness:
  "is_closed (closed_through_for sample_close_db 1) (Date 2025 6 30)"
proof -
  have "\<forall>c\<in>set (periods_of sample_close_db 1). valid_date (Date (cp_year c) 12 31)" by code_simp
  moreover have "valid_date (Date 2025 6 30)" by code_simp
  ultimately show ?thesis using watermark_gate [of sample_close_db 1 "Date 2025 6 30"]
    by (simp add: periods_of_def sample_close_db_def)
qed

theorem legacy_close_ignored_witness:
  "\<not> is_closed (closed_through_for sample_close_db 1) (Date 2026 3 1)"
  by (rule legacy_close_ignored [where w = "Date 2025 12 31"]) (simp_all add: sample_close_db_def)

theorem invoice_numbers_gapless_witness:
  "\<exists>db'. allocate 2 1 2026 sample_close_db = Inr ([''2026-0042'', ''2026-0043''], db')"
proof -
  have "map (invoice_number 2026) [41 + 1..41 + int 2] = [''2026-0042'', ''2026-0043'']" by code_simp
  then show ?thesis
    using invoice_numbers_gapless [of sample_close_db 1 2026 41 2]
    by (simp add: sample_close_db_def seq_of_def)
qed

theorem first_invoice_number_unused_witness:
  "\<not> (\<exists>i\<in>set (invoices sample_close_db). i_ledger i = 1 \<and> i_number i = Some ''2025-0003'')"
proof (rule first_invoice_number_unused)
  show "seq_of sample_close_db 1 2025 = None" by code_simp
  show "next_invoice_number 1 2025 sample_close_db = Inr (''2025-0003'',
     sample_close_db\<lparr>invoice_seqs := [\<lparr>sq_ledger = 1, sq_year = 2026, sq_last = 41\<rparr>,
                                     \<lparr>sq_ledger = 1, sq_year = 2025, sq_last = 3\<rparr>]\<rparr>)" by code_simp
qed

theorem gap_report_exact_witness:
  "snd (snd (invoice_gap_report sample_close_db 1 2025)) = [''2025-0001'']"
proof -
  have "map i_number (numbers_like sample_close_db 1 2025) = map (Some \<circ> invoice_number 2025) [2]"
    by code_simp
  from gap_report_exact [OF this] show ?thesis
    by (simp add: invoice_number_def upto.simps) code_simp
qed

end
