(* ===== verification/Fx_Rates.thy ===== *)
theory Fx_Rates
  imports Db_Schema "HOL-Library.Product_Lexorder"
begin

text \<open>
  Exchange rates, from \<^verbatim>\<open>src/src/domain/fx.rs\<close>: the lookup that prefers the newest rate, the derived
  base amount, the parser of the ECB file and its upsert.  The month-end revaluation, which posts
  transactions, is in \<open>Fx_Revaluation\<close>.
\<close>

section \<open>Lookup and conversion\<close>

definition LOOKBACK_DAYS :: int where
  "LOOKBACK_DAYS = 90"

definition BASE_EXPONENT :: nat where
  "BASE_EXPONENT = 2"

datatype fx_error = MissingRate string string date | FxDb db_error

text \<open>
  The rows that match the pair in either direction, newest first, manual rates first on the same
  date; rows that tie keep the order of the table.
\<close>

definition pair_rows :: "db \<Rightarrow> string \<Rightarrow> string \<Rightarrow> date \<Rightarrow> fx_row list" where
  "pair_rows db base quote d =
     filter (\<lambda>r. ((fx_base r = base \<and> fx_quote r = quote) \<or> (fx_base r = quote \<and> fx_quote r = base))
                \<and> fx_date r \<le> d) (fx_rates db)"

fun best_row :: "fx_row list \<Rightarrow> fx_row option" where
  "best_row [] = None"
| "best_row (r # rs) =
     (case best_row rs of
        None \<Rightarrow> Some r
      | Some s \<Rightarrow> if fx_date r < fx_date s
                       \<or> fx_date r = fx_date s \<and> fx_source r \<noteq> ''manual'' \<and> fx_source s = ''manual''
                  then Some s else Some r)"

definition lookup :: "env \<Rightarrow> db \<Rightarrow> string \<Rightarrow> string \<Rightarrow> date \<Rightarrow> fx_error + decimal" where
  "lookup E db base quote d =
     (if base = quote then Inr 1
      else (case best_row (pair_rows db base quote d) of
              None \<Rightarrow> Inl (MissingRate base quote d)
            | Some r \<Rightarrow>
                if fx_rate r = 0 then Inl (MissingRate base quote d)
                else if fx_base r = base then Inr (fx_rate r)
                else Inr (dec_div E 1 (fx_rate r))))"

definition derive_base_amount :: "env \<Rightarrow> decimal \<Rightarrow> decimal \<Rightarrow> decimal" where
  "derive_base_amount E foreign_amount rate = round_away E BASE_EXPONENT (foreign_amount * rate)"

section \<open>The ECB file\<close>

text \<open>\<^verbatim>\<open>str::lines\<close>: lines end at a newline, a carriage return before it is dropped, and a final
  empty line does not count.\<close>

definition drop_cr :: "string \<Rightarrow> string" where
  "drop_cr s = (if s \<noteq> [] \<and> last s = CHR 0x0D then butlast s else s)"

definition str_lines :: "string \<Rightarrow> string list" where
  "str_lines s =
     (let ps = split_on (CHR 0x0A) s
      in map drop_cr (butlast ps) @ (if last ps = [] then [] else [last ps]))"

definition currency_code :: "string \<Rightarrow> bool" where
  "currency_code c \<longleftrightarrow> length c = 3 \<and> list_all ascii_upper c"

definition ecb_cell :: "env \<Rightarrow> date \<Rightarrow> string \<times> string \<Rightarrow> (string \<times> decimal \<times> date) option" where
  "ecb_cell E d cc =
     (let (cur, cell0) = cc; cell = trim cell0 in
      if cell = [] then None
      else (case parse_dec E cell of
              None \<Rightarrow> None
            | Some rate \<Rightarrow> if 0 < rate then Some (cur, rate, d) else None))"

definition ecb_line :: "env \<Rightarrow> string list \<Rightarrow> string \<Rightarrow> (string \<times> decimal \<times> date) list" where
  "ecb_line E currencies line =
     (case split_on (CHR '','') line of
        [] \<Rightarrow> []
      | date_raw # cols \<Rightarrow>
          (case parse_date E (trim date_raw) of
             None \<Rightarrow> []
           | Some d \<Rightarrow> List.map_filter (ecb_cell E d) (zip currencies cols)))"

definition parse_ecb_csv :: "env \<Rightarrow> string \<Rightarrow> (string \<times> decimal \<times> date) list" where
  "parse_ecb_csv E csv =
     (case str_lines csv of
        [] \<Rightarrow> []
      | header # ls \<Rightarrow>
          (let currencies = filter currency_code (map trim (drop 1 (split_on (CHR '','') header)))
           in concat (map (ecb_line E currencies) ls)))"

definition insert_ecb :: "nat \<times> db \<Rightarrow> string \<times> decimal \<times> date \<Rightarrow> db_error + nat \<times> db" where
  "insert_ecb s r =
     (let (n, db) = s; (quote, rate, d) = r in
      case (char3 quote, numeric_col 24 12 rate) of
        (Some q, Some v) \<Rightarrow>
          if v \<le> 0 then Inl (CheckViolation ''fx_rates_rate_check'')
          else if list_ex (\<lambda>x. fx_base x = ''EUR'' \<and> fx_quote x = q \<and> fx_date x = d) (fx_rates db)
            then Inr (n, db)
          else Inr (n + 1, db\<lparr>fx_rates := fx_rates db @
                 [\<lparr>fx_base = ''EUR'', fx_quote = q, fx_rate = v, fx_date = d, fx_source = ''ecb''\<rparr>]\<rparr>)
      | (None, _) \<Rightarrow> Inl StringTooLong
      | (_, None) \<Rightarrow> Inl NumericOverflow)"

definition upsert_ecb_rates :: "(string \<times> decimal \<times> date) list \<Rightarrow> db \<Rightarrow> (db_error + nat) \<times> db" where
  "upsert_ecb_rates rates = run_tx (\<lambda>db. try_fold insert_ecb (0, db) rates)"

section \<open>Laws\<close>

text \<open>The order of the query: later dates first, then manual rates.\<close>

definition row_rank :: "fx_row \<Rightarrow> date \<times> bool" where
  "row_rank r = (fx_date r, fx_source r = ''manual'')"

lemma best_row_None [simp]: "best_row rs = None \<longleftrightarrow> rs = []"
  by (cases rs) (auto split: option.splits if_splits)

lemma best_row_Some:
  "best_row rs = Some r \<Longrightarrow> r \<in> set rs \<and> (\<forall>s\<in>set rs. row_rank s \<le> row_rank r)"
proof (induction rs arbitrary: r)
  case Nil
  then show ?case by simp
next
  case (Cons x xs)
  show ?case
  proof (cases "best_row xs")
    case None
    with Cons.prems show ?thesis by simp
  next
    case (Some y)
    note ih = Cons.IH [OF Some]
    have "row_rank x \<le> row_rank y \<or> row_rank y \<le> row_rank x" by (rule linear)
    moreover have "r = (if fx_date x < fx_date y \<or> fx_date x = fx_date y \<and> fx_source x \<noteq> ''manual'' \<and> fx_source y = ''manual''
                        then y else x)"
      using Cons.prems Some by (auto split: if_splits)
    moreover have "(fx_date x < fx_date y \<or> fx_date x = fx_date y \<and> fx_source x \<noteq> ''manual'' \<and> fx_source y = ''manual'')
        \<longleftrightarrow> row_rank x < row_rank y"
      by (auto simp: row_rank_def)
    ultimately show ?thesis using ih by (auto intro: order_trans)
  qed
qed

lemma insert_ecb_Inr:
  assumes "insert_ecb (n, db) (q, v, d) = Inr (m, db')"
  obtains q3 v' where "char3 q = Some q3" and "numeric_col 24 12 v = Some v'" and "0 < v'"
    and "(\<exists>x\<in>set (fx_rates db). fx_base x = ''EUR'' \<and> fx_quote x = q3 \<and> fx_date x = d) \<and> m = n \<and> db' = db
       \<or> \<not> (\<exists>x\<in>set (fx_rates db). fx_base x = ''EUR'' \<and> fx_quote x = q3 \<and> fx_date x = d) \<and> m = n + 1
         \<and> db' = db\<lparr>fx_rates := fx_rates db @
             [\<lparr>fx_base = ''EUR'', fx_quote = q3, fx_rate = v', fx_date = d, fx_source = ''ecb''\<rparr>]\<rparr>"
  using assms
  by (cases "char3 q"; cases "numeric_col 24 12 v") (auto simp: insert_ecb_def list_ex_iff split: if_splits)

text \<open>A rate that is already stored, or was just stored, is skipped.\<close>

definition ecb_stored :: "db \<Rightarrow> string \<times> decimal \<times> date \<Rightarrow> bool" where
  "ecb_stored db r = (case r of (q, v, d) \<Rightarrow>
     (\<exists>q3 v'. char3 q = Some q3 \<and> numeric_col 24 12 v = Some v' \<and> 0 < v'
        \<and> (\<exists>x\<in>set (fx_rates db). fx_base x = ''EUR'' \<and> fx_quote x = q3 \<and> fx_date x = d)))"

lemma insert_ecb_stored: "ecb_stored db r \<Longrightarrow> insert_ecb (n, db) r = Inr (n, db)"
  by (cases r) (auto simp: ecb_stored_def insert_ecb_def list_ex_iff split: option.splits)

lemma insert_ecb_stores:
  assumes "insert_ecb (n, db) r = Inr (m, db')"
  shows "ecb_stored db' r \<and> (\<exists>new. fx_rates db' = fx_rates db @ new \<and> m = n + length new)
     \<and> db' = db\<lparr>fx_rates := fx_rates db'\<rparr>"
proof -
  obtain q v d where r: "r = (q, v, d)" by (cases r)
  show ?thesis
    by (rule insert_ecb_Inr [OF assms [unfolded r]]) (auto simp: r ecb_stored_def)
qed

lemma ecb_stored_mono: "ecb_stored db r \<Longrightarrow> fx_rates db' = fx_rates db @ new \<Longrightarrow> ecb_stored db' r"
  by (auto simp: ecb_stored_def)

lemma try_fold_ecb:
  assumes "try_fold insert_ecb (n, db) rs = Inr (m, db')"
  shows "list_all (ecb_stored db') rs \<and> (\<exists>new. fx_rates db' = fx_rates db @ new \<and> m = n + length new)
     \<and> db' = db\<lparr>fx_rates := fx_rates db'\<rparr>"
  using assms
proof (induction rs arbitrary: n db)
  case Nil
  then show ?case by simp
next
  case (Cons r rs)
  then obtain n1 db1 where 1: "insert_ecb (n, db) r = Inr (n1, db1)" "try_fold insert_ecb (n1, db1) rs = Inr (m, db')"
    by (auto simp: result_simps)
  note a = insert_ecb_stores [OF 1(1)] and b = Cons.IH [OF 1(2)]
  from a obtain x where x: "fx_rates db1 = fx_rates db @ x" "n1 = n + length x" by blast
  from b obtain y where y: "fx_rates db' = fx_rates db1 @ y" "m = n1 + length y" by blast
  have "ecb_stored db' r" using a y(1) ecb_stored_mono by blast
  moreover have "fx_rates db' = fx_rates db @ (x @ y)" "m = n + length (x @ y)" using x y by simp_all
  moreover have "db' = db\<lparr>fx_rates := fx_rates db'\<rparr>"
  proof -
    from a obtain z where z: "db1 = db\<lparr>fx_rates := z\<rparr>" by blast
    from b obtain w where "db' = db1\<lparr>fx_rates := w\<rparr>" by blast
    with z show ?thesis by simp
  qed
  ultimately show ?case using b by auto
qed

lemma try_fold_ecb_stored:
  "list_all (ecb_stored db) rs \<Longrightarrow> try_fold insert_ecb (n, db) rs = Inr (n, db)"
  by (induction rs) (auto simp: insert_ecb_stored)

section \<open>Properties\<close>

text \<open>
  Which rate is used.  A successful lookup of two different currencies uses a stored rate of the
  pair, in one of its directions, that is not later than the date; no stored rate of the pair up to
  the date is newer, and on the same day a manual rate is not passed over for another.
\<close>

theorem lookup_newest:
  assumes "base \<noteq> quote" and "lookup E db base quote d = Inr x"
  shows "\<exists>r\<in>set (pair_rows db base quote d).
     (\<forall>s\<in>set (pair_rows db base quote d). row_rank s \<le> row_rank r)
   \<and> x = (if fx_base r = base then fx_rate r else dec_div E 1 (fx_rate r))"
proof -
  from assms obtain r where r: "best_row (pair_rows db base quote d) = Some r"
    "x = (if fx_base r = base then fx_rate r else dec_div E 1 (fx_rate r))"
    by (auto simp: lookup_def split: option.splits if_splits)
  with best_row_Some [OF r(1)] show ?thesis by blast
qed

text \<open>
  No lookback limit.  The module documentation and the error text promise a hard error when no rate
  lies within 90 days; the lookup accepts a single stored rate however old it is.
\<close>

theorem lookup_ignores_lookback:
  assumes "base \<noteq> quote" and "fx_rates db = [r]" and "fx_base r = base" and "fx_quote r = quote"
    and "fx_date r \<le> d" and "fx_rate r \<noteq> 0"
  shows "lookup E db base quote d = Inr (fx_rate r)"
  using assms by (simp add: lookup_def pair_rows_def)

text \<open>
  Derived amounts.  With the documented rounding (half away from zero), the base amount of a foreign
  leg is a whole number of cents, lies within half a cent of the exact product, and changes sign with the
  foreign amount.
\<close>

theorem derived_amount_cents:
  assumes "round_away E = round_half_away"
  shows "on_grid 2 (derive_base_amount E x r)
   \<and> \<bar>derive_base_amount E x r - x * r\<bar> \<le> 1 / 200
   \<and> derive_base_amount E (- x) r = - derive_base_amount E x r"
  using away.rnd_grid [of 2 "x * r"] away.rnd_near [of 2 "x * r"] away.rnd_minus [of 2 "x * r"]
  by (simp add: derive_base_amount_def BASE_EXPONENT_def assms)

text \<open>
  Loading the ECB file is idempotent and never overwrites.  A successful upsert only appends rows,
  reports how many, changes no other table, and repeating it inserts nothing and changes nothing.
\<close>

theorem ecb_upsert_idempotent:
  assumes "upsert_ecb_rates rs db = (Inr n, db')"
  shows "(\<exists>new. fx_rates db' = fx_rates db @ new \<and> n = length new) \<and> db' = db\<lparr>fx_rates := fx_rates db'\<rparr>
       \<and> upsert_ecb_rates rs db' = (Inr 0, db')"
proof -
  have "try_fold insert_ecb (0, db) rs = Inr (n, db')"
    using assms by (simp add: upsert_ecb_rates_def result_simps)
  note t = try_fold_ecb [OF this]
  then have "try_fold insert_ecb (0, db') rs = Inr (0, db')" by (intro try_fold_ecb_stored) simp
  with t show ?thesis by (auto simp: upsert_ecb_rates_def result_simps)
qed

text \<open>
  A column whose heading is not a currency code shifts the rest.  The heading is dropped from the
  list of currencies but its cells are not, so the second currency gets the cell of the dropped column.
\<close>

theorem ecb_columns_shift:
  assumes "currency_code c1" and "currency_code c2" and "trim c1 = c1" and "trim c2 = c2"
    and "\<not> currency_code (trim h)" and "CHR '','' \<notin> set (c1 @ h @ c2 @ d1 @ x1 @ x2 @ x3)"
    and "parse_date E (trim d1) = Some d" and "trim x1 = []" and "trim x2 \<noteq> []"
    and "parse_dec E (trim x2) = Some v" and "0 < v"
  shows "ecb_line E (filter currency_code (map trim (drop 1 (split_on (CHR '','')
           (''Date,'' @ c1 @ '','' @ h @ '','' @ c2))))) (d1 @ '','' @ x1 @ '','' @ x2 @ '','' @ x3)
         = [(c2, v, d)]"
proof -
  have nc: "CHR '','' \<notin> set c1" "CHR '','' \<notin> set h" "CHR '','' \<notin> set c2" "CHR '','' \<notin> set d1"
    "CHR '','' \<notin> set x1" "CHR '','' \<notin> set x2" "CHR '','' \<notin> set x3"
    using assms(6) by auto
  have "split_on (CHR '','') (''Date,'' @ c1 @ '','' @ h @ '','' @ c2) = [''Date'', c1, h, c2]"
    using nc by (simp add: split_on_append_sep split_on_no_sep)
  moreover have "split_on (CHR '','') (d1 @ '','' @ x1 @ '','' @ x2 @ '','' @ x3) = [d1, x1, x2, x3]"
    using nc by (simp add: split_on_append_sep split_on_no_sep)
  ultimately show ?thesis
    using assms by (simp add: ecb_line_def ecb_cell_def map_filter_simps)
qed

section \<open>Witnesses\<close>

definition sample_fx_db :: db where
  "sample_fx_db = empty_db\<lparr>fx_rates :=
     [\<lparr>fx_base = ''EUR'', fx_quote = ''USD'', fx_rate = 11 / 10, fx_date = Date 2020 1 2, fx_source = ''ecb''\<rparr>]\<rparr>"

theorem lookup_newest_witness:
  "\<exists>r\<in>set (pair_rows sample_fx_db ''USD'' ''EUR'' (Date 2026 1 1)). 10 / 11 = 1 / fx_rate r"
proof -
  have "lookup sample_env sample_fx_db ''USD'' ''EUR'' (Date 2026 1 1) = Inr (10 / 11)"
    by (simp add: lookup_def pair_rows_def sample_fx_db_def sample_env_def)
  from lookup_newest [OF _ this]
  obtain r where r: "r \<in> set (pair_rows sample_fx_db ''USD'' ''EUR'' (Date 2026 1 1))"
    "10 / 11 = (if fx_base r = ''USD'' then fx_rate r else dec_div sample_env 1 (fx_rate r))" by auto
  moreover from r(1) have "fx_base r = ''EUR''" by (simp add: pair_rows_def sample_fx_db_def)
  ultimately show ?thesis by (auto simp: sample_env_def)
qed

theorem lookup_ignores_lookback_witness:
  "lookup sample_env sample_fx_db ''EUR'' ''USD'' (Date 2026 1 1) = Inr (11 / 10)"
  using lookup_ignores_lookback [of "''EUR''" "''USD''" sample_fx_db "fx_rates sample_fx_db ! 0" "Date 2026 1 1" sample_env]
  by (simp add: sample_fx_db_def)

theorem derived_amount_cents_witness:
  "\<bar>derive_base_amount sample_env 1000 (333333 / 1000000) - 1000 * (333333 / 1000000)\<bar> \<le> 1 / 200"
  using derived_amount_cents [of sample_env 1000 "333333 / 1000000"] by (simp add: sample_env_def)

theorem ecb_upsert_idempotent_witness:
  "\<exists>db'. upsert_ecb_rates [(''JPY'', 160, Date 2026 8 21)] sample_fx_db = (Inr 1, db')
     \<and> upsert_ecb_rates [(''JPY'', 160, Date 2026 8 21)] db' = (Inr 0, db')"
proof -
  have "on_grid 12 160" unfolding on_grid_def by simp
  then have "numeric_col 24 12 160 = Some 160" by (intro numeric_col_exact) simp_all
  then obtain db' where "upsert_ecb_rates [(''JPY'', 160, Date 2026 8 21)] sample_fx_db = (Inr 1, db')"
    by (simp add: upsert_ecb_rates_def run_tx_def insert_ecb_def char3_def sample_fx_db_def)
  with ecb_upsert_idempotent [OF this] show ?thesis by blast
qed

theorem ecb_columns_shift_witness:
  "ecb_line (sample_env\<lparr>parse_dec := \<lambda>_. Some 2, parse_date := \<lambda>_. Some (Date 2026 8 21)\<rparr>)
     (filter currency_code (map trim (drop 1 (split_on (CHR '','') ''Date,USD,note,JPY'')))) ''2026-08-21,,2,160''
   = [(''JPY'', 2, Date 2026 8 21)]"
proof -
  have "currency_code ''USD''" "currency_code ''JPY''" "trim ''USD'' = ''USD''" "trim ''JPY'' = ''JPY''"
    "\<not> currency_code (trim ''note'')" "trim ''2'' \<noteq> []" "trim [] = []"
    by code_simp+
  then show ?thesis
    using ecb_columns_shift [of "''USD''" "''JPY''" "''note''" "''2026-08-21''" "[]" "''2''" "''160''"
        "sample_env\<lparr>parse_dec := \<lambda>_. Some 2, parse_date := \<lambda>_. Some (Date 2026 8 21)\<rparr>" "Date 2026 8 21" 2]
    by simp
qed

end
