(* ===== verification/Posting_Service.thy ===== *)
theory Posting_Service
  imports Job_Queue Close_Controls Fx_Rates
begin

text \<open>
  The posting write path, \<^verbatim>\<open>src/src/domain/posting_service.rs\<close>: create, draft, promote, delete,
  approve and reject.  Every operation returns the result together with the database; what runs
  inside the database transaction is a body for \<open>run_tx\<close>, what runs after the commit (the approval
  row, the audit entry, the event) is applied to the committed state.
\<close>

section \<open>Requests and errors\<close>

record foreign_leg =
  f_signed_amount :: decimal
  f_currency :: string

record txn_line =
  n_account_id :: uuid
  n_signed_amount :: decimal
  n_memo :: "string option"
  n_tax_rate_id :: "uuid option"
  n_foreign :: "foreign_leg option"
  n_cost_center_id :: "uuid option"
  n_project_id :: "uuid option"

record tax_link =
  k_posting_idx :: nat
  k_tax_rate_id :: uuid
  k_base_amount :: decimal
  k_tax_amount :: decimal

record new_transaction =
  nt_ledger_id :: uuid
  nt_txn_date :: date
  nt_description :: string
  nt_payee :: "string option"
  nt_reference :: "string option"
  nt_kind :: "string option"
  nt_created_by :: uuid
  nt_lines :: "txn_line list"
  nt_reverses_id :: "uuid option"
  nt_number :: "string option"
  nt_tax_links :: "tax_link list"

record created_transaction =
  ct_id :: uuid
  ct_kind :: string
  ct_number :: "string option"

datatype posting_service_error =
    Unbalanced decimal decimal
  | PeriodClosed uuid int
  | HardClosed uuid date
  | SelfApproval
  | NotPending
  | LedgerNotFound
  | UnknownAccount uuid
  | WrongLedger uuid
  | UnknownCostCenter uuid
  | UnknownProject uuid
  | DuplicateNumber int string
  | MissingFxRate fx_error
  | Db db_error

section \<open>Creating a transaction\<close>

text \<open>
  The base amount of each line: derived from the rate of the transaction date for a line with a
  foreign leg, the signed amount otherwise.
\<close>

fun derive_lines :: "env \<Rightarrow> db \<Rightarrow> string \<Rightarrow> date \<Rightarrow> txn_line list \<Rightarrow> posting_service_error + decimal list" where
  "derive_lines E db base_currency d [] = Inr []"
| "derive_lines E db base_currency d (l # ls) =
     rbind (case n_foreign l of
              Some f \<Rightarrow> map_err MissingFxRate (map_sum id (derive_base_amount E (f_signed_amount f))
                          (lookup E db (f_currency f) base_currency d))
            | None \<Rightarrow> Inr (n_signed_amount l)) (\<lambda>a.
     rbind (derive_lines E db base_currency d ls) (\<lambda>as. Inr (a # as)))"

definition effective_amounts :: "env \<Rightarrow> db \<Rightarrow> new_transaction \<Rightarrow> posting_service_error + decimal list" where
  "effective_amounts E db new =
     (if list_ex (\<lambda>l. n_foreign l \<noteq> None) (nt_lines new)
      then (case ledger_of db (nt_ledger_id new) of
              None \<Rightarrow> Inl LedgerNotFound
            | Some r \<Rightarrow> derive_lines E db (l_base_currency r) (nt_txn_date new) (nt_lines new))
      else Inr (map n_signed_amount (nt_lines new)))"

definition sum_debits :: "decimal list \<Rightarrow> decimal" where
  "sum_debits as = foldl (\<lambda>acc a. if 0 \<le> a then acc + a else acc) 0 as"

definition sum_credits :: "decimal list \<Rightarrow> decimal" where
  "sum_credits as = foldl (\<lambda>acc a. if 0 \<le> a then acc else acc + - a) 0 as"

definition close_gate :: "db \<Rightarrow> uuid \<Rightarrow> date \<Rightarrow> posting_service_error + unit" where
  "close_gate db ledger_id d =
     (let watermark = closed_through_in_tx db ledger_id in
      if is_closed watermark d
      then Inl (HardClosed ledger_id (case watermark of Some w \<Rightarrow> w | None \<Rightarrow> d)) else Inr ())"

definition check_account :: "db \<Rightarrow> uuid \<Rightarrow> txn_line \<Rightarrow> posting_service_error + unit" where
  "check_account db ledger_id l =
     (if list_ex (\<lambda>a. a_id a = n_account_id l \<and> a_ledger a = ledger_id) (accounts db) then Inr ()
      else if list_ex (\<lambda>a. a_id a = n_account_id l) (accounts db) then Inl (WrongLedger (n_account_id l))
      else Inl (UnknownAccount (n_account_id l)))"

definition check_dimensions :: "db \<Rightarrow> uuid \<Rightarrow> txn_line \<Rightarrow> posting_service_error + unit" where
  "check_dimensions db ledger_id l =
     rbind (case n_cost_center_id l of None \<Rightarrow> Inr ()
            | Some cc \<Rightarrow> if list_ex (\<lambda>d. d_id d = cc \<and> d_ledger d = ledger_id) (cost_centers db)
                        then Inr () else Inl (UnknownCostCenter cc)) (\<lambda>_.
     case n_project_id l of None \<Rightarrow> Inr ()
     | Some p \<Rightarrow> if list_ex (\<lambda>d. d_id d = p \<and> d_ledger d = ledger_id) (projects db)
                then Inr () else Inl (UnknownProject p))"

definition year_count :: "db \<Rightarrow> uuid \<Rightarrow> int \<Rightarrow> nat" where
  "year_count db ledger_id year =
     length (filter (\<lambda>t. t_ledger t = ledger_id \<and> date_year (t_date t) = year) (transactions db))"

definition auto_number :: "int \<Rightarrow> nat \<Rightarrow> string" where
  "auto_number year n = show_int year @ ''-'' @ show_int_pad 6 (int n)"

definition resolve_number :: "db \<Rightarrow> new_transaction \<Rightarrow> posting_service_error + string" where
  "resolve_number db new =
     (let year = date_year (nt_txn_date new);
          user = (case nt_number new of None \<Rightarrow> None
                  | Some s \<Rightarrow> if trim s = [] then None else Some (trim s))
      in case user of
           Some user_num \<Rightarrow>
             if number_taken db (nt_ledger_id new) year user_num
             then Inl (DuplicateNumber year user_num) else Inr user_num
         | None \<Rightarrow> Inr (auto_number year (year_count db (nt_ledger_id new) year + 1)))"

definition requested_kind :: "new_transaction \<Rightarrow> string" where
  "requested_kind new = (case nt_kind new of Some k \<Rightarrow> k | None \<Rightarrow> ''standard'')"

definition needs_approval :: "db \<Rightarrow> new_transaction \<Rightarrow> bool \<Rightarrow> decimal \<Rightarrow> bool" where
  "needs_approval db new is_draft journal_total \<longleftrightarrow>
     \<not> is_draft \<and> (requested_kind new = ''standard'' \<or> requested_kind new = ''adjusting'')
   \<and> (case Option.bind (ledger_of db (nt_ledger_id new)) l_threshold of
        None \<Rightarrow> False | Some t \<Rightarrow> 0 \<le> t \<and> t \<le> journal_total)"

definition line_posting :: "uuid \<Rightarrow> txn_line \<times> decimal \<Rightarrow> posting_row" where
  "line_posting txn_id la =
     (let (l, a) = la in
      \<lparr>p_id = 0, p_txn = txn_id, p_account = n_account_id l, p_amount = \<bar>a\<bar>,
       p_direction = (if 0 \<le> a then ''DEBIT'' else ''CREDIT''), p_memo = n_memo l,
       p_foreign_amount = map_option (\<lambda>f. \<bar>f_signed_amount f\<bar>) (n_foreign l),
       p_foreign_currency = map_option f_currency (n_foreign l),
       p_cost_center = n_cost_center_id l, p_project = n_project_id l\<rparr>)"

definition insert_line :: "env \<Rightarrow> uuid \<Rightarrow> uuid list \<times> db \<Rightarrow> txn_line \<times> decimal \<Rightarrow> posting_service_error + uuid list \<times> db" where
  "insert_line E txn_id s la =
     rbind (map_err Db (insert_posting E (line_posting txn_id la) (snd s))) (\<lambda>(i, db').
     Inr (fst s @ [i], db'))"

definition insert_link :: "uuid list \<Rightarrow> db \<Rightarrow> tax_link \<Rightarrow> posting_service_error + db" where
  "insert_link posting_ids db k =
     (if k_posting_idx k < length posting_ids
      then map_err Db (insert_posting_tax
             \<lparr>x_posting = posting_ids ! k_posting_idx k, x_rate = k_tax_rate_id k,
              x_tax_amount = k_tax_amount k, x_base_amount = Some (k_base_amount k)\<rparr> db)
      else Inl (Unbalanced 0 0))"

text \<open>The row to insert; the currency is the ledger's.\<close>

definition new_txn_row :: "db \<Rightarrow> new_transaction \<Rightarrow> string \<Rightarrow> string \<Rightarrow> txn_row" where
  "new_txn_row db new kind number =
     \<lparr>t_id = 0, t_ledger = nt_ledger_id new, t_date = nt_txn_date new,
      t_description = nt_description new, t_payee = nt_payee new, t_reference = nt_reference new,
      t_currency = (case ledger_of db (nt_ledger_id new) of Some r \<Rightarrow> l_base_currency r | None \<Rightarrow> []),
      t_kind = kind, t_created_by = nt_created_by new, t_created_at = 0,
      t_reverses = nt_reverses_id new, t_number = Some number\<rparr>"

definition create_body ::
  "env \<Rightarrow> new_transaction \<Rightarrow> bool \<Rightarrow> decimal list \<Rightarrow> (db, posting_service_error, created_transaction) tx" where
  "create_body E new is_draft effective db0 =
     (let db = db0\<lparr>balance_trigger := False\<rparr> in
      rbind (ok_or LedgerNotFound (ledger_of db (nt_ledger_id new))) (\<lambda>_.
      rbind (if is_draft then Inr () else close_gate db (nt_ledger_id new) (nt_txn_date new)) (\<lambda>_.
      rbind (try_fold (\<lambda>_ l. check_account db (nt_ledger_id new) l) () (nt_lines new)) (\<lambda>_.
      rbind (try_fold (\<lambda>_ l. check_dimensions db (nt_ledger_id new) l) () (nt_lines new)) (\<lambda>_.
      rbind (resolve_number db new) (\<lambda>number.
      let kind = (if needs_approval db new is_draft (sum_debits effective) then ''pending''
                  else requested_kind new) in
      rbind (map_err Db (insert_transaction E (new_txn_row db new kind number) db)) (\<lambda>(txn_id, db1).
      rbind (try_fold (insert_line E txn_id) ([], db1) (zip (nt_lines new) effective)) (\<lambda>(posting_ids, db2).
      rbind (try_fold (insert_link posting_ids) db2 (nt_tax_links new)) (\<lambda>db3.
      Inr (\<lparr>ct_id = txn_id, ct_kind = kind, ct_number = Some number\<rparr>, db3))))))))))"

text \<open>\<^verbatim>\<open>INSERT INTO journal_approvals ... ON CONFLICT (txn_id) DO NOTHING\<close>, a statement of its own.\<close>

definition insert_approval :: "uuid \<Rightarrow> uuid \<Rightarrow> uuid \<Rightarrow> decimal \<Rightarrow> db \<Rightarrow> db_error + db" where
  "insert_approval txn_id ledger_id maker amount db =
     (case numeric_col 20 4 amount of
        None \<Rightarrow> Inl NumericOverflow
      | Some v \<Rightarrow>
          if v < 0 then Inl (CheckViolation ''journal_approvals_amount_check'')
          else if list_ex (\<lambda>j. ja_txn j = txn_id) (approvals db) then Inr db
          else if txn_of db txn_id = None then Inl (ForeignKeyViolation ''journal_approvals_txn_id_fkey'')
          else if ledger_of db ledger_id = None
            then Inl (ForeignKeyViolation ''journal_approvals_ledger_id_fkey'')
          else Inr (db\<lparr>approvals := approvals db @
                 [\<lparr>ja_txn = txn_id, ja_ledger = ledger_id, ja_maker = maker, ja_checker = None,
                   ja_status = ''pending'', ja_amount = v\<rparr>]\<rparr>))"

definition create_audit :: "env \<Rightarrow> new_transaction \<Rightarrow> bool \<Rightarrow> created_transaction \<Rightarrow> db \<Rightarrow> db" where
  "create_audit E new is_pending c =
     audit_log E (Some (nt_ledger_id new)) (nt_created_by new)
       (if is_pending then ''submit_pending'' else ''create'') ''transaction'' (Some (ct_id c)) None
       (Some (JObj [(''txn_id'', JUuid (ct_id c)), (''ledger_id'', JUuid (nt_ledger_id new)),
                    (''txn_date'', JDate (nt_txn_date new)), (''description'', JStr (nt_description new)),
                    (''kind'', JStr (ct_kind c)), (''lines'', JNum (of_nat (length (nt_lines new))))]))"

definition posted_event :: "created_transaction \<Rightarrow> json" where
  "posted_event c = JObj [(''transaction_id'', JUuid (ct_id c)), (''number'', opt_json JStr (ct_number c))]"

definition create_with_kind ::
  "env \<Rightarrow> new_transaction \<Rightarrow> bool \<Rightarrow> db \<Rightarrow> (posting_service_error + created_transaction) \<times> db" where
  "create_with_kind E new is_draft db =
     (if length (nt_lines new) < 2 then (Inl (Unbalanced 0 0), db)
      else (case effective_amounts E db new of
              Inl e \<Rightarrow> (Inl e, db)
            | Inr effective \<Rightarrow>
                if sum_debits effective \<noteq> sum_credits effective
                then (Inl (Unbalanced (sum_debits effective) (sum_credits effective)), db)
                else (case run_tx (create_body E new is_draft effective) db of
                        (Inl e, db1) \<Rightarrow> (Inl e, db1)
                      | (Inr c, db1) \<Rightarrow>
                          (let is_pending = needs_approval db new is_draft (sum_debits effective) in
                           case (if is_pending
                                 then insert_approval (ct_id c) (nt_ledger_id new) (nt_created_by new)
                                        (sum_debits effective) db1
                                 else Inr db1) of
                             Inl e \<Rightarrow> (Inl (Db e), db1)
                           | Inr db2 \<Rightarrow>
                               if is_draft then (Inr c, db2)
                               else (Inr c, emit E (nt_ledger_id new) ''transaction.posted'' (posted_event c)
                                              (create_audit E new is_pending c db2))))))"

definition create :: "env \<Rightarrow> new_transaction \<Rightarrow> db \<Rightarrow> (posting_service_error + created_transaction) \<times> db" where
  "create E new = create_with_kind E new False"

definition create_draft :: "env \<Rightarrow> new_transaction \<Rightarrow> db \<Rightarrow> (posting_service_error + created_transaction) \<times> db" where
  "create_draft E new = create_with_kind E (new\<lparr>nt_kind := Some ''draft''\<rparr>) True"

section \<open>Drafts and approvals\<close>

definition post_draft_body :: "uuid \<Rightarrow> uuid \<Rightarrow> (db, posting_service_error, unit) tx" where
  "post_draft_body ledger_id txn_id db =
     rbind (ok_or LedgerNotFound (ledger_of db ledger_id)) (\<lambda>_.
     rbind (ok_or LedgerNotFound (find (\<lambda>t. t_id t = txn_id \<and> t_ledger t = ledger_id) (transactions db))) (\<lambda>draft.
     if t_kind draft \<noteq> ''draft'' then Inl (Unbalanced 0 0)
     else rbind (close_gate db ledger_id (t_date draft)) (\<lambda>_.
          rbind (map_err Db (update_kind (\<lambda>t. t_id t = txn_id) ''standard'' db)) (\<lambda>db1.
          Inr ((), db1)))))"

definition post_draft :: "env \<Rightarrow> uuid \<Rightarrow> uuid \<Rightarrow> uuid \<Rightarrow> db \<Rightarrow> (posting_service_error + created_transaction) \<times> db" where
  "post_draft E ledger_id txn_id actor db =
     (case run_tx (post_draft_body ledger_id txn_id) db of
        (Inl e, db1) \<Rightarrow> (Inl e, db1)
      | (Inr _, db1) \<Rightarrow>
          (Inr \<lparr>ct_id = txn_id, ct_kind = ''standard'', ct_number = None\<rparr>,
           audit_log E (Some ledger_id) actor ''promote'' ''transaction'' (Some txn_id) None
             (Some (JObj [(''txn_id'', JUuid txn_id), (''kind'', JStr ''standard''),
                          (''from_kind'', JStr ''draft'')])) db1))"

definition delete_draft_body :: "uuid \<Rightarrow> uuid \<Rightarrow> (db, posting_service_error, unit) tx" where
  "delete_draft_body ledger_id txn_id db =
     rbind (ok_or LedgerNotFound (find (\<lambda>t. t_id t = txn_id \<and> t_ledger t = ledger_id) (transactions db))) (\<lambda>t.
     if t_kind t \<noteq> ''draft'' then Inl (Unbalanced 0 0)
     else rbind (map_err Db (delete_transaction txn_id (delete_postings txn_id db))) (\<lambda>db1. Inr ((), db1)))"

definition delete_draft :: "env \<Rightarrow> uuid \<Rightarrow> uuid \<Rightarrow> uuid \<Rightarrow> db \<Rightarrow> (posting_service_error + unit) \<times> db" where
  "delete_draft E ledger_id txn_id actor db =
     (case run_tx (delete_draft_body ledger_id txn_id) db of
        (Inl e, db1) \<Rightarrow> (Inl e, db1)
      | (Inr _, db1) \<Rightarrow>
          (Inr (), audit_log E (Some ledger_id) actor ''delete'' ''transaction'' (Some txn_id) None
             (Some (JObj [(''txn_id'', JUuid txn_id), (''kind'', JStr ''draft'')])) db1))"

definition decide :: "string \<Rightarrow> uuid \<Rightarrow> uuid \<Rightarrow> db \<Rightarrow> db" where
  "decide status txn_id checker db =
     db\<lparr>approvals := map (\<lambda>j. if ja_txn j = txn_id then j\<lparr>ja_status := status, ja_checker := Some checker\<rparr> else j)
                       (approvals db)\<rparr>"

text \<open>The guards that approving and rejecting share; the result is the maker.\<close>

definition pending_approval :: "uuid \<Rightarrow> uuid \<Rightarrow> uuid \<Rightarrow> db \<Rightarrow> posting_service_error + uuid" where
  "pending_approval ledger_id txn_id checker db =
     (case find (\<lambda>j. ja_txn j = txn_id \<and> ja_ledger j = ledger_id) (approvals db) of
        None \<Rightarrow> Inl NotPending
      | Some j \<Rightarrow>
          if ja_status j \<noteq> ''pending'' then Inl NotPending
          else if ja_maker j = checker then Inl SelfApproval
          else Inr (ja_maker j))"

definition approve_body :: "uuid \<Rightarrow> uuid \<Rightarrow> uuid \<Rightarrow> (db, posting_service_error, uuid) tx" where
  "approve_body ledger_id txn_id checker db =
     rbind (pending_approval ledger_id txn_id checker db) (\<lambda>maker.
     rbind (map_err Db (update_kind (\<lambda>t. t_id t = txn_id \<and> t_ledger t = ledger_id) ''standard'' db)) (\<lambda>db1.
     Inr (maker, decide ''approved'' txn_id checker db1)))"

definition approve_journal :: "env \<Rightarrow> uuid \<Rightarrow> uuid \<Rightarrow> uuid \<Rightarrow> db \<Rightarrow> (posting_service_error + unit) \<times> db" where
  "approve_journal E ledger_id txn_id checker db =
     (case run_tx (approve_body ledger_id txn_id checker) db of
        (Inl e, db1) \<Rightarrow> (Inl e, db1)
      | (Inr maker, db1) \<Rightarrow>
          (Inr (), audit_log E (Some ledger_id) checker ''approve'' ''transaction'' (Some txn_id) None
             (Some (JObj [(''txn_id'', JUuid txn_id), (''maker'', JUuid maker)])) db1))"

definition reject_body :: "uuid \<Rightarrow> uuid \<Rightarrow> uuid \<Rightarrow> (db, posting_service_error, uuid) tx" where
  "reject_body ledger_id txn_id checker db =
     rbind (pending_approval ledger_id txn_id checker db) (\<lambda>maker.
     rbind (map_err Db (update_kind (\<lambda>t. t_id t = txn_id) ''draft'' db)) (\<lambda>db1.
     Inr (maker, decide ''rejected'' txn_id checker db1)))"

definition reject_journal :: "env \<Rightarrow> uuid \<Rightarrow> uuid \<Rightarrow> uuid \<Rightarrow> db \<Rightarrow> (posting_service_error + unit) \<times> db" where
  "reject_journal E ledger_id txn_id checker db =
     (case run_tx (reject_body ledger_id txn_id checker) db of
        (Inl e, db1) \<Rightarrow> (Inl e, db1)
      | (Inr maker, db1) \<Rightarrow>
          (Inr (), audit_log E (Some ledger_id) checker ''reject'' ''transaction'' (Some txn_id) None
             (Some (JObj [(''txn_id'', JUuid txn_id), (''maker'', JUuid maker)])) db1))"

section \<open>What a successful write stored\<close>

text \<open>How a line with base amount \<open>a\<close> ends up as a posting.\<close>

definition line_stored :: "uuid \<Rightarrow> txn_line \<times> decimal \<Rightarrow> posting_row \<Rightarrow> bool" where
  "line_stored t la p \<longleftrightarrow>
     p_txn p = t \<and> p_account p = n_account_id (fst la) \<and> p_memo p = n_memo (fst la)
   \<and> p_direction p = (if 0 \<le> snd la then ''DEBIT'' else ''CREDIT'')
   \<and> p_amount p = round_half_away 4 \<bar>snd la\<bar> \<and> 0 < p_amount p
   \<and> p_cost_center p = n_cost_center_id (fst la) \<and> p_project p = n_project_id (fst la)
   \<and> (p_foreign_amount p = None \<longleftrightarrow> n_foreign (fst la) = None)"

lemma line_stored_txn: "list_all2 (line_stored t) las ps \<Longrightarrow> p \<in> set ps \<Longrightarrow> p_txn p = t"
  by (induction las ps rule: list_all2_induct) (auto simp: line_stored_def)

lemma insert_line_Inr:
  assumes "insert_line E t (ids, db) la = Inr (ids', db')" and "balance_trigger db = False"
  shows "\<exists>p. line_stored t la p \<and> ids' = ids @ [p_id p]
     \<and> db' = db\<lparr>drawn := Suc (drawn db), postings := postings db @ [p]\<rparr>"
proof -
  obtain l a where la: "la = (l, a)" by (cases la)
  from assms obtain i where i: "insert_posting E (line_posting t la) db = Inr (i, db')" "ids' = ids @ [i]"
    by (auto simp: insert_line_def result_simps)
  from i(1) show ?thesis
  proof (rule insert_posting_Inr)
    fix r
    assume r: "posting_values (line_posting t la) = Inr r" "0 < p_amount r"
      "db' = db\<lparr>drawn := Suc (drawn db), postings := postings db @ [r\<lparr>p_id := i\<rparr>]\<rparr>"
    note pv = posting_values_Inr [OF r(1)]
    then have "p_amount r = round_half_away 4 \<bar>a\<bar>"
      by (auto simp: la line_posting_def dest: numeric_col_Some)
    with pv r(2) have "line_stored t la (r\<lparr>p_id := i\<rparr>)"
      by (simp add: line_stored_def la line_posting_def)
    with r(3) i(2) show ?thesis by (intro exI [of _ "r\<lparr>p_id := i\<rparr>"]) simp
  qed
qed

lemma insert_lines_Inr:
  assumes "try_fold (insert_line E t) (ids, db) las = Inr (ids', db')" and "balance_trigger db = False"
  shows "\<exists>ps. list_all2 (line_stored t) las ps \<and> ids' = ids @ map p_id ps
     \<and> db' = db\<lparr>drawn := drawn db + length las, postings := postings db @ ps\<rparr>"
  using assms
proof (induction las arbitrary: ids db)
  case Nil
  then show ?case by simp
next
  case (Cons la las)
  then obtain s1 where 1: "insert_line E t (ids, db) la = Inr s1" "try_fold (insert_line E t) s1 las = Inr (ids', db')"
    by (auto simp: result_simps)
  obtain ids1 db1 where s1: "s1 = (ids1, db1)" by (cases s1)
  from insert_line_Inr [OF 1(1) [unfolded s1] Cons.prems(2)]
  obtain p where p: "line_stored t la p" "ids1 = ids @ [p_id p]"
    "db1 = db\<lparr>drawn := Suc (drawn db), postings := postings db @ [p]\<rparr>" by blast
  from Cons.IH [OF 1(2) [unfolded s1]] p(3) Cons.prems(2)
  obtain ps where ps: "list_all2 (line_stored t) las ps" "ids' = ids1 @ map p_id ps"
    "db' = db1\<lparr>drawn := drawn db1 + length las, postings := postings db1 @ ps\<rparr>" by auto
  show ?case by (rule exI [of _ "p # ps"]) (use p ps in simp)
qed

lemma insert_link_Inr:
  "insert_link ids db k = Inr db' \<Longrightarrow> \<exists>new. db' = db\<lparr>posting_taxes := posting_taxes db @ new\<rparr>"
  by (auto simp: insert_link_def insert_posting_tax_def result_simps split: if_splits option.splits)

lemma insert_links_Inr:
  "try_fold (insert_link ids) db ks = Inr db' \<Longrightarrow> \<exists>new. db' = db\<lparr>posting_taxes := posting_taxes db @ new\<rparr>"
proof (induction ks arbitrary: db)
  case Nil
  then show ?case by (intro exI [of _ "[]"]) simp
next
  case (Cons k ks)
  then obtain db1 where 1: "insert_link ids db k = Inr db1" "try_fold (insert_link ids) db1 ks = Inr db'"
    by (auto simp: result_simps)
  from insert_link_Inr [OF 1(1)] obtain x where x: "db1 = db\<lparr>posting_taxes := posting_taxes db @ x\<rparr>" by blast
  from Cons.IH [OF 1(2)] obtain y where "db' = db1\<lparr>posting_taxes := posting_taxes db1 @ y\<rparr>" by blast
  with x show ?case by (intro exI [of _ "x @ y"]) simp
qed

lemma ledger_of_frame [simp]:
  "ledger_of (db\<lparr>balance_trigger := b\<rparr>) l = ledger_of db l"
  "ledger_of (db\<lparr>transactions := ts\<rparr>) l = ledger_of db l"
  "ledger_of (db\<lparr>approvals := as\<rparr>) l = ledger_of db l"
  by (simp_all add: ledger_of_def)

lemma frame_trigger [simp]:
  "close_gate (db\<lparr>balance_trigger := b\<rparr>) l d = close_gate db l d"
  "check_account (db\<lparr>balance_trigger := b\<rparr>) l = check_account db l"
  "check_dimensions (db\<lparr>balance_trigger := b\<rparr>) l = check_dimensions db l"
  "resolve_number (db\<lparr>balance_trigger := b\<rparr>) new = resolve_number db new"
  "needs_approval (db\<lparr>balance_trigger := b\<rparr>) new dr tot = needs_approval db new dr tot"
  "new_txn_row (db\<lparr>balance_trigger := b\<rparr>) new k n = new_txn_row db new k n"
  by (simp_all add: close_gate_def closed_through_for_def check_account_def check_dimensions_def
      resolve_number_def number_taken_def year_count_def needs_approval_def new_txn_row_def Let_def
      fun_eq_iff cong: option.case_cong)

lemma gate_Inr [result_simps]: "(if b then Inr () else g) = Inr u \<longleftrightarrow> b \<or> g = Inr ()"
  by simp

lemma create_body_steps:
  assumes "create_body E new is_draft eff db = Inr (c, db')"
  obtains led number txn_id db1 ids db2 where
    "ledger_of db (nt_ledger_id new) = Some led"
    and "is_draft \<or> close_gate db (nt_ledger_id new) (nt_txn_date new) = Inr ()"
    and "try_fold (\<lambda>_ l. check_account db (nt_ledger_id new) l) () (nt_lines new) = Inr ()"
    and "resolve_number db new = Inr number"
    and "insert_transaction E (new_txn_row db new
           (if needs_approval db new is_draft (sum_debits eff) then ''pending'' else requested_kind new) number)
           (db\<lparr>balance_trigger := False\<rparr>) = Inr (txn_id, db1)"
    and "try_fold (insert_line E txn_id) ([], db1) (zip (nt_lines new) eff) = Inr (ids, db2)"
    and "try_fold (insert_link ids) db2 (nt_tax_links new) = Inr db'"
    and "c = \<lparr>ct_id = txn_id, ct_kind = (if needs_approval db new is_draft (sum_debits eff) then ''pending''
                                         else requested_kind new), ct_number = Some number\<rparr>"
  using assms unfolding create_body_def Let_def by (auto simp: result_simps)

lemma create_body_Inr:
  assumes "create_body E new is_draft eff db = Inr (c, db')"
  obtains led number kind ps new_taxes where
    "ledger_of db (nt_ledger_id new) = Some led"
    and "is_draft \<or> close_gate db (nt_ledger_id new) (nt_txn_date new) = Inr ()"
    and "try_fold (\<lambda>_ l. check_account db (nt_ledger_id new) l) () (nt_lines new) = Inr ()"
    and "resolve_number db new = Inr number"
    and "kind = (if needs_approval db new is_draft (sum_debits eff) then ''pending'' else requested_kind new)"
    and "kind \<in> set txn_kinds"
    and "c = \<lparr>ct_id = uuid_at E (drawn db), ct_kind = kind, ct_number = Some number\<rparr>"
    and "ct_id c \<notin> t_id ` set (transactions db)"
    and "\<not> number_taken db (nt_ledger_id new) (date_year (nt_txn_date new)) number"
    and "list_all2 (line_stored (ct_id c)) (zip (nt_lines new) eff) ps"
    and "db' = db\<lparr>transactions := transactions db @
                    [(new_txn_row db new kind number)\<lparr>t_id := ct_id c, t_created_at := now E\<rparr>],
                  postings := postings db @ ps, posting_taxes := posting_taxes db @ new_taxes,
                  balance_trigger := False, drawn := Suc (drawn db) + length (zip (nt_lines new) eff)\<rparr>"
proof -
  let ?db = "db\<lparr>balance_trigger := False\<rparr>"
  let ?kind = "if needs_approval db new is_draft (sum_debits eff) then ''pending'' else requested_kind new"
  from assms obtain led number txn_id db1 ids db2 where
    led: "ledger_of db (nt_ledger_id new) = Some led" and
    gate: "is_draft \<or> close_gate db (nt_ledger_id new) (nt_txn_date new) = Inr ()" and
    acc: "try_fold (\<lambda>_ l. check_account db (nt_ledger_id new) l) () (nt_lines new) = Inr ()" and
    num: "resolve_number db new = Inr number" and
    ins: "insert_transaction E (new_txn_row db new ?kind number) ?db = Inr (txn_id, db1)" and
    lines: "try_fold (insert_line E txn_id) ([], db1) (zip (nt_lines new) eff) = Inr (ids, db2)" and
    links: "try_fold (insert_link ids) db2 (nt_tax_links new) = Inr db'" and
    c: "c = \<lparr>ct_id = txn_id, ct_kind = ?kind, ct_number = Some number\<rparr>"
    by (rule create_body_steps)
  note i = ins [unfolded insert_transaction_Inr]
  have "balance_trigger db1 = False" using i by simp
  from insert_lines_Inr [OF lines this] obtain ps where
    ps: "list_all2 (line_stored txn_id) (zip (nt_lines new) eff) ps"
    "db2 = db1\<lparr>drawn := drawn db1 + length (zip (nt_lines new) eff), postings := postings db1 @ ps\<rparr>" by blast
  from insert_links_Inr [OF links] obtain tx where tx: "db' = db2\<lparr>posting_taxes := posting_taxes db2 @ tx\<rparr>" by blast
  show thesis
  proof (rule that [OF led gate acc num refl, of ps tx])
    show "?kind \<in> set txn_kinds" using i by (simp add: new_txn_row_def)
    show "c = \<lparr>ct_id = uuid_at E (drawn db), ct_kind = ?kind, ct_number = Some number\<rparr>" using i c by simp
    have "txn_id \<notin> t_id ` set (transactions db)" using i [THEN conjunct2, THEN conjunct1] by simp
    then show "ct_id c \<notin> t_id ` set (transactions db)" unfolding c by simp
    show "\<not> number_taken db (nt_ledger_id new) (date_year (nt_txn_date new)) number"
      using i by (simp add: new_txn_row_def number_taken_def)
    show "list_all2 (line_stored (ct_id c)) (zip (nt_lines new) eff) ps" using ps(1) c by simp
    show "db' = db\<lparr>transactions := transactions db @
                    [(new_txn_row db new ?kind number)\<lparr>t_id := ct_id c, t_created_at := now E\<rparr>],
                  postings := postings db @ ps, posting_taxes := posting_taxes db @ tx,
                  balance_trigger := False, drawn := Suc (drawn db) + length (zip (nt_lines new) eff)\<rparr>"
      using i ps(2) tx c by simp
  qed
qed

lemma length_derive_lines: "derive_lines E db b d ls = Inr as \<Longrightarrow> length as = length ls"
  by (induction ls arbitrary: as) (auto simp: result_simps)

lemma length_effective: "effective_amounts E db new = Inr as \<Longrightarrow> length as = length (nt_lines new)"
  by (auto simp: effective_amounts_def dest: length_derive_lines split: if_splits option.splits)

lemma sum_debits_eq: "sum_debits as = sum_list (map (\<lambda>a. if 0 \<le> a then a else 0) as)"
proof -
  have "foldl (\<lambda>acc a. if 0 \<le> a then acc + a else acc) z as = z + sum_list (map (\<lambda>a. if 0 \<le> a then a else 0) as)"
    for z :: decimal by (induction as arbitrary: z) auto
  then show ?thesis by (simp add: sum_debits_def)
qed

lemma sum_credits_eq: "sum_credits as = sum_list (map (\<lambda>a. if 0 \<le> a then 0 else - a) as)"
proof -
  have "foldl (\<lambda>acc a. if 0 \<le> a then acc else acc + - a) z as = z + sum_list (map (\<lambda>a. if 0 \<le> a then 0 else - a) as)"
    for z :: decimal by (induction as arbitrary: z) auto
  then show ?thesis by (simp add: sum_credits_def)
qed

lemma stored_debits:
  "list_all2 (line_stored t) las ps \<Longrightarrow>
     debit_sum ps = sum_list (map (\<lambda>a. if 0 \<le> a then round_half_away 4 \<bar>a\<bar> else 0) (map snd las))"
  by (induction las ps rule: list_all2_induct) (auto simp: debit_sum_def is_debit_def line_stored_def)

lemma stored_credits:
  "list_all2 (line_stored t) las ps \<Longrightarrow>
     credit_sum ps = sum_list (map (\<lambda>a. if 0 \<le> a then 0 else round_half_away 4 \<bar>a\<bar>) (map snd las))"
  by (induction las ps rule: list_all2_induct) (auto simp: credit_sum_def is_credit_def line_stored_def)

text \<open>Amounts with at most four decimals are stored as they are, so the totals survive.\<close>

lemma stored_totals:
  assumes "list_all2 (line_stored t) (zip ls as) ps" and "length as = length ls" and "list_all (on_grid 4) as"
  shows "debit_sum ps = sum_debits as" and "credit_sum ps = sum_credits as"
proof -
  have z: "map snd (zip ls as) = as" using assms(2) by simp
  have d: "map (\<lambda>a. if 0 \<le> a then round_half_away 4 \<bar>a\<bar> else 0) as = map (\<lambda>a. if 0 \<le> a then a else 0) as"
    using assms(3) by (auto simp: list_all_iff away.rnd_exact)
  show "debit_sum ps = sum_debits as"
    unfolding stored_debits [OF assms(1)] z d sum_debits_eq ..
  have c: "map (\<lambda>a. if 0 \<le> a then 0 else round_half_away 4 \<bar>a\<bar>) as = map (\<lambda>a. if 0 \<le> a then 0 else - a) as"
    using assms(3) by (auto simp: list_all_iff away.rnd_exact)
  show "credit_sum ps = sum_credits as"
    unfolding stored_credits [OF assms(1)] z c sum_credits_eq ..
qed

lemma insert_approval_Inr:
  assumes "insert_approval t l m a db = Inr db'"
  shows "\<exists>v. numeric_col 20 4 a = Some v \<and> db' = db\<lparr>approvals := approvals db @
     (if t \<in> ja_txn ` set (approvals db) then []
      else [\<lparr>ja_txn = t, ja_ledger = l, ja_maker = m, ja_checker = None, ja_status = ''pending'', ja_amount = v\<rparr>])\<rparr>"
  using assms by (auto simp: insert_approval_def list_ex_key split: option.splits if_splits)

lemma books_fields [simp]:
  "transactions (books db) = transactions db" "postings (books db) = postings db"
  "accounts (books db) = accounts db" "ledgers (books db) = ledgers db"
  "approvals (books db) = approvals db" "closed_periods (books db) = closed_periods db"
  "balance_trigger (books db) = balance_trigger db"
  by (simp_all add: books_def)

lemma create_with_kind_Inr:
  assumes "create_with_kind E new is_draft db = (Inr c, db')"
  obtains eff db1 db2 where "2 \<le> length (nt_lines new)" and "effective_amounts E db new = Inr eff"
    and "length eff = length (nt_lines new)" and "sum_debits eff = sum_credits eff"
    and "create_body E new is_draft eff db = Inr (c, db1)"
    and "if needs_approval db new is_draft (sum_debits eff)
         then insert_approval (ct_id c) (nt_ledger_id new) (nt_created_by new) (sum_debits eff) db1 = Inr db2
         else db2 = db1"
    and "books db' = books db2"
proof -
  from assms obtain eff where 1: "2 \<le> length (nt_lines new)" "effective_amounts E db new = Inr eff"
      "sum_debits eff = sum_credits eff"
    by (auto simp: create_with_kind_def split: if_splits sum.splits)
  then obtain db1 where 2: "create_body E new is_draft eff db = Inr (c, db1)"
    using assms by (auto simp: create_with_kind_def run_tx_def Let_def split: if_splits sum.splits prod.splits)
  let ?p = "needs_approval db new is_draft (sum_debits eff)"
  from assms 1 2 obtain db2 where 3: "(if ?p then insert_approval (ct_id c) (nt_ledger_id new) (nt_created_by new)
        (sum_debits eff) db1 else Inr db1) = Inr db2"
    by (auto simp: create_with_kind_def run_tx_def Let_def split: if_splits sum.splits)
  then have 4: "if ?p then insert_approval (ct_id c) (nt_ledger_id new) (nt_created_by new) (sum_debits eff) db1 = Inr db2
      else db2 = db1" by (simp split: if_splits)
  have "books db' = books db2"
    using assms 1 2 3 by (auto simp: create_with_kind_def run_tx_def Let_def create_audit_def frame split: if_splits)
  with 1 2 4 length_effective [OF 1(2)] show thesis by (intro that)
qed

lemma number_key_new_row: "number_key ((new_txn_row db new k n)\<lparr>t_id := i, t_created_at := z\<rparr>)
    = (nt_ledger_id new, date_year (nt_txn_date new), Some n)"
  by (simp add: number_key_def new_txn_row_def)

end
