(* ===== verification/Posting_Invariants.thy ===== *)
theory Posting_Invariants
  imports Posting_Service
begin

text \<open>
  What the posting service keeps: the schema's invariants (\<open>db_wf\<close>) and, for amounts with at most four
  decimals, that every stored transaction balances.  Both are proved for each operation and lifted to
  command sequences; the functional and safety properties of the operations follow, then the ways in
  which the code falls short of its documentation.
\<close>

section \<open>Well-formedness\<close>

lemma db_wf_cong:
  assumes "transactions db = transactions db'" "postings db = postings db'" "accounts db = accounts db'"
    "ledgers db = ledgers db'"
  shows "db_wf db \<longleftrightarrow> db_wf db'"
proof -
  have "posting_wf db = posting_wf db'" by (simp add: fun_eq_iff posting_wf_def assms)
  then show ?thesis by (simp add: db_wf_def assms)
qed

lemma db_wf_books: "books db = books db' \<Longrightarrow> db_wf db \<longleftrightarrow> db_wf db'"
  by (intro db_wf_cong books_eqD)

lemma db_wf_frame [simp]:
  "db_wf (db\<lparr>balance_trigger := b\<rparr>) = db_wf db" "db_wf (db\<lparr>posting_taxes := x\<rparr>) = db_wf db"
  "db_wf (db\<lparr>approvals := a\<rparr>) = db_wf db"
  by (rule db_wf_cong; simp)+

lemma approval_frame:
  assumes "if p then insert_approval t l m a db1 = Inr db2 else db2 = db1"
  shows "\<exists>as. db2 = db1\<lparr>approvals := as\<rparr>"
proof (cases p)
  case True
  then show ?thesis using assms insert_approval_Inr [of t l m a db1 db2] by auto
next
  case False
  then show ?thesis using assms by (intro exI [of _ "approvals db1"]) simp
qed

lemma db_wf_insert_lines:
  assumes "try_fold (insert_line E t) (ids, db) las = Inr (ids', db')" and "db_wf db"
  shows "db_wf db'"
proof -
  have "db_wf (snd (ids', db'))"
    by (rule try_fold_invariant [OF assms(1), where P = "\<lambda>s. db_wf (snd s)"])
       (auto simp: assms(2) insert_line_def result_simps intro: db_wf_insert_posting)
  then show ?thesis by simp
qed

lemma db_wf_create_body:
  assumes "create_body E new is_draft eff db = Inr (c, db')" and "db_wf db"
  shows "db_wf db'"
  using assms(1)
proof (rule create_body_steps)
  fix number txn_id db1 ids db2
  assume i: "insert_transaction E (new_txn_row db new (if needs_approval db new is_draft (sum_debits eff)
        then ''pending'' else requested_kind new) number) (db\<lparr>balance_trigger := False\<rparr>) = Inr (txn_id, db1)"
    and l: "try_fold (insert_line E txn_id) ([], db1) (zip (nt_lines new) eff) = Inr (ids, db2)"
    and k: "try_fold (insert_link ids) db2 (nt_tax_links new) = Inr db'"
  have "db_wf db1" by (rule db_wf_insert_transaction [OF _ i]) (simp add: assms(2))
  then have "db_wf db2" by (rule db_wf_insert_lines [OF l])
  moreover obtain x where "db' = db2\<lparr>posting_taxes := posting_taxes db2 @ x\<rparr>" using insert_links_Inr [OF k] by blast
  ultimately show ?thesis by simp
qed

text \<open>
  The state after create: the old one, or what the body committed, up to the approvals and the side
  channels.
\<close>

lemma create_with_kind_state:
  obtains (refused) "snd (create_with_kind E new is_draft db) = db"
  | (committed) eff c db1 as where "effective_amounts E db new = Inr eff" and "sum_debits eff = sum_credits eff"
      and "create_body E new is_draft eff db = Inr (c, db1)"
      and "books (snd (create_with_kind E new is_draft db)) = books (db1\<lparr>approvals := as\<rparr>)"
proof (cases "create_with_kind E new is_draft db")
  case (Pair r db')
  show thesis
  proof (cases r)
    case (Inr c)
    with Pair have "create_with_kind E new is_draft db = (Inr c, db')" by simp
    then show thesis
    proof (rule create_with_kind_Inr)
      fix eff db1 db2
      assume e: "effective_amounts E db new = Inr eff" "sum_debits eff = sum_credits eff"
          "create_body E new is_draft eff db = Inr (c, db1)" and books: "books db' = books db2"
        and ap: "if needs_approval db new is_draft (sum_debits eff)
           then insert_approval (ct_id c) (nt_ledger_id new) (nt_created_by new) (sum_debits eff) db1 = Inr db2
           else db2 = db1"
      obtain as where "db2 = db1\<lparr>approvals := as\<rparr>" using approval_frame [OF ap] by blast
      with e books Pair show thesis by (intro committed) simp_all
    qed
  next
    case (Inl e)
    show thesis
    proof (cases "db' = db")
      case True
      with Pair show thesis by (intro refused) simp
    next
      case False
      with Inl Pair obtain eff c where "effective_amounts E db new = Inr eff" "sum_debits eff = sum_credits eff"
          "create_body E new is_draft eff db = Inr (c, db')"
        by (auto simp: create_with_kind_def run_tx_def Let_def split: if_splits sum.splits prod.splits)
      with Pair show thesis by (intro committed [of eff c db' "approvals db'"]) simp_all
    qed
  qed
qed

lemma db_wf_create_with_kind:
  assumes "db_wf db"
  shows "db_wf (snd (create_with_kind E new is_draft db))"
proof (rule create_with_kind_state [of E new is_draft db])
  fix eff c db1 as
  assume "create_body E new is_draft eff db = Inr (c, db1)"
    and books: "books (snd (create_with_kind E new is_draft db)) = books (db1\<lparr>approvals := as\<rparr>)"
  then have "db_wf db1" using db_wf_create_body assms by blast
  then show ?thesis using db_wf_books [OF books] by simp
qed (simp add: assms)

lemma db_wf_delete:
  assumes "db_wf db" and "delete_transaction i (delete_postings i db) = Inr db'"
  shows "db_wf db'"
proof -
  let ?null = "\<lambda>t. if t_reverses t = Some i then t\<lparr>t_reverses := None\<rparr> else t"
  let ?ts = "filter (\<lambda>t. t_id t \<noteq> i) (transactions db)"
  have t: "transactions db' = map ?null ?ts" and p: "postings db' = filter (\<lambda>p. p_txn p \<noteq> i) (postings db)"
    and rest: "accounts db' = accounts db" "ledgers db' = ledgers db"
    using assms(2) by (auto simp: delete_transaction_def delete_postings_def Let_def split: if_splits)
  have ids: "map t_id (map ?null ts) = map t_id ts" for ts by (induction ts) auto
  have keys: "map number_key (filter numbered (map ?null ts)) = map number_key (filter numbered ts)" for ts
    by (induction ts) (auto simp: numbered_def number_key_def)
  have "distinct (map t_id ?ts)" using assms(1) by (simp add: db_wf_def distinct_map_filter)
  moreover have "distinct (map number_key (filter numbered ?ts))"
  proof -
    have "filter numbered ?ts = filter (\<lambda>t. t_id t \<noteq> i) (filter numbered (transactions db))"
      by (simp add: conj_commute)
    moreover have "distinct (map number_key (filter numbered (transactions db)))"
      using assms(1) by (simp add: db_wf_def)
    ultimately show ?thesis by (metis distinct_map_filter)
  qed
  moreover have "list_all (posting_wf db') (postings db')"
  proof -
    have "t_id ` set (transactions db') = t_id ` set (transactions db) - {i}"
    proof -
      have "set (map t_id (transactions db')) = set (map t_id ?ts)" unfolding t by (simp only: ids)
      then show ?thesis by auto
    qed
    then show ?thesis using assms(1) unfolding p by (auto simp: db_wf_def list_all_iff posting_wf_def rest)
  qed
  moreover have "distinct (map p_id (postings db'))" using assms(1) unfolding p by (simp add: db_wf_def distinct_map_filter)
  moreover have "list_all (\<lambda>t. t_kind t \<in> set txn_kinds \<and> t_ledger t \<in> l_id ` set (ledgers db')) (transactions db')"
    using assms(1) unfolding t rest by (auto simp: db_wf_def list_all_iff)
  ultimately show ?thesis using assms(1) unfolding db_wf_def t ids keys rest by simp
qed

lemma db_wf_post_draft:
  assumes "db_wf db"
  shows "db_wf (snd (post_draft E l t a db))"
proof (cases "post_draft_body l t db")
  case (Inl e)
  with assms show ?thesis by (simp add: post_draft_def run_tx_def)
next
  case (Inr r)
  then obtain db1 where u: "update_kind (\<lambda>x. t_id x = t) ''standard'' db = Inr db1" and r: "r = ((), db1)"
    by (auto simp: post_draft_body_def result_simps split: if_splits)
  have "db_wf db1" by (rule db_wf_update_kind [OF assms u]) (simp add: txn_kinds_def)
  then show ?thesis
    using Inr r db_wf_books [OF audit_log_books] by (simp add: post_draft_def run_tx_def)
qed

lemma db_wf_delete_draft:
  assumes "db_wf db"
  shows "db_wf (snd (delete_draft E l t a db))"
proof (cases "delete_draft_body l t db")
  case (Inl e)
  with assms show ?thesis by (simp add: delete_draft_def run_tx_def)
next
  case (Inr r)
  then obtain db1 where "delete_transaction t (delete_postings t db) = Inr db1" "r = ((), db1)"
    by (auto simp: delete_draft_body_def result_simps split: if_splits)
  moreover from this have "db_wf db1" using assms db_wf_delete by blast
  ultimately show ?thesis
    using Inr db_wf_books [OF audit_log_books] by (simp add: delete_draft_def run_tx_def)
qed

lemma db_wf_approve:
  assumes "db_wf db"
  shows "db_wf (snd (approve_journal E l t a db))"
proof (cases "approve_body l t a db")
  case (Inl e)
  with assms show ?thesis by (simp add: approve_journal_def run_tx_def)
next
  case (Inr r)
  then obtain m db1 where u: "update_kind (\<lambda>x. t_id x = t \<and> t_ledger x = l) ''standard'' db = Inr db1"
    and r: "r = (m, decide ''approved'' t a db1)"
    by (auto simp: approve_body_def result_simps)
  have "db_wf db1" by (rule db_wf_update_kind [OF assms u]) (simp add: txn_kinds_def)
  then show ?thesis
    using Inr r db_wf_books [OF audit_log_books] by (simp add: approve_journal_def run_tx_def decide_def)
qed

lemma db_wf_reject:
  assumes "db_wf db"
  shows "db_wf (snd (reject_journal E l t a db))"
proof (cases "reject_body l t a db")
  case (Inl e)
  with assms show ?thesis by (simp add: reject_journal_def run_tx_def)
next
  case (Inr r)
  then obtain m db1 where u: "update_kind (\<lambda>x. t_id x = t) ''draft'' db = Inr db1"
    and r: "r = (m, decide ''rejected'' t a db1)"
    by (auto simp: reject_body_def result_simps)
  have "db_wf db1" by (rule db_wf_update_kind [OF assms u]) (simp add: txn_kinds_def)
  then show ?thesis
    using Inr r db_wf_books [OF audit_log_books] by (simp add: reject_journal_def run_tx_def decide_def)
qed

section \<open>The service as a command system\<close>

datatype service_command =
    Create new_transaction
  | CreateDraft new_transaction
  | PostDraft uuid uuid uuid
  | DeleteDraft uuid uuid uuid
  | Approve uuid uuid uuid
  | Reject uuid uuid uuid

text \<open>Each command runs in an environment of its own: time passes between them.\<close>

definition service_step :: "(nat \<Rightarrow> env) \<Rightarrow> nat \<times> service_command \<Rightarrow> db \<Rightarrow> db" where
  "service_step Es c db =
     (let E = Es (fst c) in
      case snd c of
        Create new \<Rightarrow> snd (create E new db)
      | CreateDraft new \<Rightarrow> snd (create_draft E new db)
      | PostDraft l t a \<Rightarrow> snd (post_draft E l t a db)
      | DeleteDraft l t a \<Rightarrow> snd (delete_draft E l t a db)
      | Approve l t a \<Rightarrow> snd (approve_journal E l t a db)
      | Reject l t a \<Rightarrow> snd (reject_journal E l t a db))"

interpretation service_wf: command_system "service_step Es" "\<lambda>_. True" db_wf for Es
proof unfold_locales
  show "db_wf (service_step Es c db)" if "db_wf db" for c db
    using that
    by (auto simp: service_step_def Let_def create_def create_draft_def db_wf_create_with_kind
        db_wf_post_draft db_wf_delete_draft db_wf_approve db_wf_reject split: service_command.split)
qed

section \<open>Balance\<close>

definition all_balanced :: "db \<Rightarrow> bool" where
  "all_balanced db \<longleftrightarrow> (\<forall>i\<in>t_id ` set (transactions db). balanced db i)"

text \<open>
  Lines that are stored without rounding: a line without a foreign leg has at most four decimals.
  Derived amounts are rounded to cents.
\<close>

definition on_grid_lines :: "new_transaction \<Rightarrow> bool" where
  "on_grid_lines new \<longleftrightarrow> list_all (\<lambda>l. n_foreign l = None \<longrightarrow> on_grid 4 (n_signed_amount l)) (nt_lines new)"

lemma on_grid_mono: "on_grid 2 x \<Longrightarrow> on_grid 4 x"
proof -
  assume "on_grid 2 x"
  then have x: "x * 10 ^ 2 \<in> \<int>" by (simp only: on_grid_def)
  have "x * 10 ^ 2 * 100 \<in> \<int>" by (rule Ints_mult [OF x]) simp
  then show "on_grid 4 x" by (simp add: on_grid_def mult.commute)
qed

lemma derive_lines_on_grid:
  assumes "round_away E = round_half_away"
  shows "derive_lines E db b d ls = Inr as \<Longrightarrow>
     list_all (\<lambda>l. n_foreign l = None \<longrightarrow> on_grid 4 (n_signed_amount l)) ls \<Longrightarrow> list_all (on_grid 4) as"
proof (induction ls arbitrary: as)
  case (Cons l ls)
  have "on_grid 4 (derive_base_amount E x r)" for x r
    using away.rnd_grid [of 2 "x * r"] assms
    by (intro on_grid_mono) (simp add: derive_base_amount_def BASE_EXPONENT_def)
  with Cons show ?case
    by (auto simp: result_simps split: option.splits sum.splits) (auto simp: map_sum_def split: sum.splits)
qed simp

lemma effective_on_grid:
  assumes "round_away E = round_half_away" and "effective_amounts E db new = Inr as" and "on_grid_lines new"
  shows "list_all (on_grid 4) as"
proof (cases "list_ex (\<lambda>l. n_foreign l \<noteq> None) (nt_lines new)")
  case True
  then show ?thesis using assms derive_lines_on_grid [OF assms(1)]
    by (auto simp: effective_amounts_def on_grid_lines_def split: option.splits)
next
  case False
  then show ?thesis using assms by (auto simp: effective_amounts_def on_grid_lines_def list_all_iff list_ex_iff)
qed

lemma all_balanced_cong:
  "t_id ` set (transactions db) = t_id ` set (transactions db') \<Longrightarrow> postings db = postings db' \<Longrightarrow>
   all_balanced db \<longleftrightarrow> all_balanced db'"
  unfolding all_balanced_def balanced_def postings_of_def by simp

lemma all_balanced_books: "books db = books db' \<Longrightarrow> all_balanced db \<longleftrightarrow> all_balanced db'"
  by (rule all_balanced_cong) (simp_all add: books_eqD(5,6) [of db db'])

lemma posting_txn_exists: "db_wf db \<Longrightarrow> p \<in> set (postings db) \<Longrightarrow> p_txn p \<in> t_id ` set (transactions db)"
  by (simp add: db_wf_def list_all_iff posting_wf_def)

text \<open>The postings of the new transaction, and of every other one.\<close>

lemma create_body_postings:
  assumes wf: "db_wf db" and b: "create_body E new is_draft eff db = Inr (c, db')"
    and len: "length eff = length (nt_lines new)"
  shows "list_all2 (line_stored (ct_id c)) (zip (nt_lines new) eff) (postings_of db' (ct_id c))
     \<and> (\<forall>i. i \<noteq> ct_id c \<longrightarrow> postings_of db' i = postings_of db i)
     \<and> postings db' = postings db @ postings_of db' (ct_id c)"
  using b
proof (rule create_body_Inr)
  fix number kind ps tx
  assume fresh: "ct_id c \<notin> t_id ` set (transactions db)"
    and ps: "list_all2 (line_stored (ct_id c)) (zip (nt_lines new) eff) ps"
    and db': "db' = db\<lparr>transactions := transactions db @
                [(new_txn_row db new kind number)\<lparr>t_id := ct_id c, t_created_at := now E\<rparr>],
              postings := postings db @ ps, posting_taxes := posting_taxes db @ tx,
              balance_trigger := False, drawn := Suc (drawn db) + length (zip (nt_lines new) eff)\<rparr>"
  have old: "p_txn p \<noteq> ct_id c" if "p \<in> set (postings db)" for p
    using posting_txn_exists [OF wf that] fresh by metis
  have new: "\<forall>p\<in>set ps. p_txn p = ct_id c"
    using line_stored_txn [OF ps] by simp
  have "postings_of db' (ct_id c) = ps" using old new by (simp add: postings_of_def db' filter_empty_conv)
  moreover have "postings_of db' i = postings_of db i" if "i \<noteq> ct_id c" for i
    using new that by (auto simp: postings_of_def db' filter_empty_conv)
  ultimately show ?thesis using ps db' by simp
qed

lemma all_balanced_create_body:
  assumes wf: "db_wf db" and bal: "all_balanced db" and b: "create_body E new is_draft eff db = Inr (c, db')"
    and len: "length eff = length (nt_lines new)" and grid: "list_all (on_grid 4) eff"
    and eq: "sum_debits eff = sum_credits eff"
  shows "all_balanced db'"
proof -
  note p = create_body_postings [OF wf b len]
  have "balanced db' (ct_id c)"
    using stored_totals [OF _ len grid, of "ct_id c" "postings_of db' (ct_id c)"] p eq by (simp add: balanced_def)
  moreover have "balanced db' i = balanced db i" if "i \<noteq> ct_id c" for i
    using p that by (simp add: balanced_def)
  moreover have "t_id ` set (transactions db') = insert (ct_id c) (t_id ` set (transactions db))"
    using b by (rule create_body_Inr) auto
  ultimately show ?thesis using bal unfolding all_balanced_def by (metis insertE)
qed

lemma all_balanced_create_with_kind:
  assumes "db_wf db" and "all_balanced db" and "round_away E = round_half_away" and "on_grid_lines new"
  shows "all_balanced (snd (create_with_kind E new is_draft db))"
proof (rule create_with_kind_state [of E new is_draft db])
  fix eff c db1 as
  assume e: "effective_amounts E db new = Inr eff" "sum_debits eff = sum_credits eff"
      "create_body E new is_draft eff db = Inr (c, db1)"
    and books: "books (snd (create_with_kind E new is_draft db)) = books (db1\<lparr>approvals := as\<rparr>)"
  have "all_balanced db1"
    using all_balanced_create_body [OF assms(1,2) e(3) length_effective [OF e(1)]
        effective_on_grid [OF assms(3) e(1) assms(4)] e(2)] .
  then show ?thesis
    using all_balanced_books [OF books] all_balanced_cong [of "db1\<lparr>approvals := as\<rparr>" db1] by simp
qed (simp add: assms)

lemma all_balanced_update_kind:
  "update_kind sel k db = Inr db' \<Longrightarrow> all_balanced db' \<longleftrightarrow> all_balanced db"
  by (rule all_balanced_cong) (auto simp: update_kind_Inr)

lemma all_balanced_decide [simp]: "all_balanced (decide st t a db) \<longleftrightarrow> all_balanced db"
  by (rule all_balanced_cong) (simp_all add: decide_def)

lemma all_balanced_delete:
  assumes "all_balanced db" and "delete_transaction i (delete_postings i db) = Inr db'"
  shows "all_balanced db'"
proof -
  have t: "t_id ` set (transactions db') \<subseteq> t_id ` set (transactions db) - {i}"
    and p: "postings db' = filter (\<lambda>p. p_txn p \<noteq> i) (postings db)"
    using assms(2) by (auto simp: delete_transaction_def delete_postings_def Let_def split: if_splits)
  have "postings_of db' j = postings_of db j" if "j \<noteq> i" for j
    using that by (auto simp: postings_of_def p intro: filter_cong)
  then show ?thesis using assms(1) t by (auto simp: all_balanced_def balanced_def subset_iff)
qed

definition command_on_grid :: "(nat \<Rightarrow> env) \<Rightarrow> nat \<times> service_command \<Rightarrow> bool" where
  "command_on_grid Es c \<longleftrightarrow>
     round_away (Es (fst c)) = round_half_away
   \<and> (case snd c of Create new \<Rightarrow> on_grid_lines new | CreateDraft new \<Rightarrow> on_grid_lines new | _ \<Rightarrow> True)"

lemma all_balanced_step:
  assumes "command_on_grid Es c" and "db_wf db" and "all_balanced db"
  shows "all_balanced (service_step Es c db)"
proof -
  obtain n k where c: "c = (n, k)" by (cases c)
  have log: "all_balanced (audit_log E l a act ent eid ov nv d) \<longleftrightarrow> all_balanced d" for E l a act ent eid ov nv d
    by (rule all_balanced_books) (rule frame)
  show ?thesis
  proof (cases k)
    case (Create new)
    with assms show ?thesis
      by (auto simp: c command_on_grid_def service_step_def create_def intro: all_balanced_create_with_kind)
  next
    case (CreateDraft new)
    with assms have "on_grid_lines (new\<lparr>nt_kind := Some ''draft''\<rparr>)" by (simp add: c command_on_grid_def on_grid_lines_def)
    with assms CreateDraft show ?thesis
      by (auto simp: c command_on_grid_def service_step_def create_draft_def intro: all_balanced_create_with_kind)
  next
    case (PostDraft l t a)
    with assms(3) show ?thesis
      by (auto simp: c service_step_def post_draft_def run_tx_def log post_draft_body_def result_simps
          all_balanced_update_kind split: sum.splits if_splits prod.splits)
  next
    case (DeleteDraft l t a)
    with assms(3) show ?thesis
      by (auto simp: c service_step_def delete_draft_def run_tx_def log delete_draft_body_def result_simps
          intro: all_balanced_delete split: sum.splits if_splits prod.splits)
  next
    case (Approve l t a)
    with assms(3) show ?thesis
      by (auto simp: c service_step_def approve_journal_def run_tx_def log approve_body_def result_simps
          all_balanced_update_kind split: sum.splits prod.splits)
  next
    case (Reject l t a)
    with assms(3) show ?thesis
      by (auto simp: c service_step_def reject_journal_def run_tx_def log reject_body_def result_simps
          all_balanced_update_kind split: sum.splits prod.splits)
  qed
qed

interpretation service_books: command_system "service_step Es" "command_on_grid Es" "\<lambda>db. db_wf db \<and> all_balanced db" for Es
  by unfold_locales (use all_balanced_step service_wf.exec_inv in blast)

lemma ledger_totals:
  assumes "db_wf db" and "all_balanced db"
  shows "debit_sum (postings db) = credit_sum (postings db)"
proof -
  let ?A = "t_id ` set (transactions db)"
  have sub: "p_txn ` set (postings db) \<subseteq> ?A" using posting_txn_exists [OF assms(1)] by auto
  have d: "debit_sum (postings db) = (\<Sum>i\<in>?A. debit_sum (postings_of db i))"
    unfolding debit_sum_def postings_of_def by (rule sum_list_group [OF _ sub]) simp
  have c: "credit_sum (postings db) = (\<Sum>i\<in>?A. credit_sum (postings_of db i))"
    unfolding credit_sum_def postings_of_def by (rule sum_list_group [OF _ sub]) simp
  show ?thesis unfolding d c using assms(2) by (intro sum.cong) (auto simp: all_balanced_def balanced_def)
qed

section \<open>The four-eyes rule\<close>

lemma find_unique:
  assumes "distinct (map t_id (transactions db))" and "t \<in> set (transactions db)"
    and "find (\<lambda>x. t_id x = t_id t \<and> t_ledger x = l) (transactions db) = Some u"
  shows "u = t"
proof -
  from find_Some_mem [OF assms(3)] have "u \<in> set (transactions db)" "t_id u = t_id t" by simp_all
  with assms(1,2) show ?thesis by (auto simp: distinct_map inj_on_def)
qed

text \<open>A transaction keeps its row, up to the kind, and its postings through any other command.\<close>

lemma create_keeps_rows:
  "set (transactions db) \<subseteq> set (transactions (snd (create_with_kind E new is_draft db)))"
proof (rule create_with_kind_state [of E new is_draft db])
  fix eff c db1 as
  assume b: "create_body E new is_draft eff db = Inr (c, db1)"
    and books: "books (snd (create_with_kind E new is_draft db)) = books (db1\<lparr>approvals := as\<rparr>)"
  from b have "set (transactions db) \<subseteq> set (transactions db1)" by (rule create_body_Inr) auto
  then show ?thesis using books_eqD(5) [OF books] by simp
qed simp

lemma audit_log_transactions [simp]: "transactions (audit_log E l a act ent eid ov nv db) = transactions db"
  and audit_log_approvals [simp]: "approvals (audit_log E l a act ent eid ov nv db) = approvals db"
  using books_eqD(5,9) [OF audit_log_books [of E l a act ent eid ov nv db]] by simp_all

text \<open>Where a pending journal can go in one command.\<close>

lemma pending_step:
  assumes "distinct (map t_id (transactions db))" and t: "t \<in> set (transactions db)" and k: "t_kind t = ''pending''"
    and out: "\<not> (\<exists>t'\<in>set (transactions (service_step Es c db)). t_id t' = t_id t \<and> t_kind t' = ''pending'')"
  shows "\<exists>l ch j. (snd c = Approve l (t_id t) ch \<or> snd c = Reject l (t_id t) ch)
     \<and> j \<in> set (approvals db) \<and> ja_txn j = t_id t \<and> ja_ledger j = l \<and> ja_status j = ''pending'' \<and> ja_maker j \<noteq> ch"
proof -
  obtain n q where c: "c = (n, q)" by (cases c)
  have gone: "t \<notin> set (transactions (service_step Es c db))" using out k by blast
  have keep: "t \<in> set (set_kind sel knd (transactions db))" if "\<not> sel t" for sel knd
    using t that by (auto simp: set_kind_mem)
  have pend: "\<exists>j. j \<in> set (approvals db) \<and> ja_txn j = i \<and> ja_ledger j = l \<and> ja_status j = ''pending'' \<and> ja_maker j \<noteq> ch"
    if "pending_approval l i ch db = Inr m" for l i ch m
    using that by (auto simp: pending_approval_def dest!: find_Some_mem split: option.splits if_splits)
  show ?thesis
  proof (cases q)
    case (Create new)
    with gone t create_keeps_rows [of db "Es n" new False] show ?thesis by (auto simp: c service_step_def create_def)
  next
    case (CreateDraft new)
    with gone t create_keeps_rows [of db "Es n" "new\<lparr>nt_kind := Some ''draft''\<rparr>" True] show ?thesis
      by (auto simp: c service_step_def create_draft_def)
  next
    case (PostDraft l i a)
    have "t_id t \<noteq> i" if "find (\<lambda>x. t_id x = i \<and> t_ledger x = l) (transactions db) = Some u" "t_kind u = ''draft''" for u
      using find_unique [OF assms(1) t] that k by fastforce
    with PostDraft gone t keep show ?thesis
      by (fastforce simp: c service_step_def post_draft_def run_tx_def post_draft_body_def result_simps update_kind_Inr
          split: sum.splits if_splits prod.splits)
  next
    case (DeleteDraft l i a)
    have ne: "t_id t \<noteq> i" if "find (\<lambda>x. t_id x = i \<and> t_ledger x = l) (transactions db) = Some u" "t_kind u = ''draft''" for u
      using find_unique [OF assms(1) t] that k by fastforce
    show ?thesis
    proof (cases "delete_draft_body l i db")
      case (Inl e)
      with DeleteDraft gone t show ?thesis by (simp add: c service_step_def delete_draft_def run_tx_def)
    next
      case (Inr r)
      then obtain u db1 where u: "find (\<lambda>x. t_id x = i \<and> t_ledger x = l) (transactions db) = Some u" "t_kind u = ''draft''"
        and d: "delete_transaction i (delete_postings i db) = Inr db1" and r: "r = ((), db1)"
        by (auto simp: delete_draft_body_def result_simps split: if_splits)
      have "(if t_reverses t = Some i then t\<lparr>t_reverses := None\<rparr> else t) \<in> set (transactions db1)"
        using d ne [OF u] t
        by (auto simp: delete_transaction_def delete_postings_def Let_def split: if_splits)
      with DeleteDraft Inr r out k show ?thesis
        by (fastforce simp: c service_step_def delete_draft_def run_tx_def split: if_splits)
    qed
  next
    case (Approve l i ch)
    show ?thesis
    proof (cases "approve_body l i ch db")
      case (Inl e)
      with Approve gone t show ?thesis by (simp add: c service_step_def approve_journal_def run_tx_def)
    next
      case (Inr r)
      then obtain m db1 where m: "pending_approval l i ch db = Inr m"
        and u: "update_kind (\<lambda>x. t_id x = i \<and> t_ledger x = l) ''standard'' db = Inr db1"
        and r: "r = (m, decide ''approved'' i ch db1)"
        by (auto simp: approve_body_def result_simps)
      have "t_id t = i"
        using keep [of "\<lambda>x. t_id x = i \<and> t_ledger x = l" "''standard''"] gone Approve Inr r u
        by (auto simp: c service_step_def approve_journal_def run_tx_def update_kind_Inr decide_def)
      with pend [OF m] Approve show ?thesis by (auto simp: c)
    qed
  next
    case (Reject l i ch)
    show ?thesis
    proof (cases "reject_body l i ch db")
      case (Inl e)
      with Reject gone t show ?thesis by (simp add: c service_step_def reject_journal_def run_tx_def)
    next
      case (Inr r)
      then obtain m db1 where m: "pending_approval l i ch db = Inr m"
        and u: "update_kind (\<lambda>x. t_id x = i) ''draft'' db = Inr db1" and r: "r = (m, decide ''rejected'' i ch db1)"
        by (auto simp: reject_body_def result_simps)
      have "t_id t = i"
        using keep [of "\<lambda>x. t_id x = i" "''draft''"] gone Reject Inr r u
        by (auto simp: c service_step_def reject_journal_def run_tx_def update_kind_Inr decide_def)
      with pend [OF m] Reject show ?thesis by (auto simp: c)
    qed
  qed
qed

lemma close_gate_Inr: "close_gate db l d = Inr () \<longleftrightarrow> \<not> is_closed (closed_through_for db l) d"
  by (simp add: close_gate_def Let_def)

lemma create_stores_request_rows:
  assumes "db_wf db" and "create E new db = (Inr c, db')"
  shows "\<exists>eff. effective_amounts E db new = Inr eff \<and> sum_debits eff = sum_credits eff
     \<and> transactions db' = transactions db @
         [(new_txn_row db new (ct_kind c) (the (ct_number c)))\<lparr>t_id := ct_id c, t_created_at := now E\<rparr>]
     \<and> list_all2 (line_stored (ct_id c)) (zip (nt_lines new) eff) (postings_of db' (ct_id c))
     \<and> postings db' = postings db @ postings_of db' (ct_id c)"
  using assms(2) unfolding create_def
proof (rule create_with_kind_Inr)
  fix eff db1 db2
  assume e: "effective_amounts E db new = Inr eff" "sum_debits eff = sum_credits eff"
    and len: "length eff = length (nt_lines new)"
    and b: "create_body E new False eff db = Inr (c, db1)" and books: "books db' = books db2"
    and ap: "if needs_approval db new False (sum_debits eff)
       then insert_approval (ct_id c) (nt_ledger_id new) (nt_created_by new) (sum_debits eff) db1 = Inr db2
       else db2 = db1"
  obtain as where db2: "db2 = db1\<lparr>approvals := as\<rparr>" using approval_frame [OF ap] by blast
  note f = books_eqD(5,6) [OF books]
  have po: "postings_of db' = postings_of db1" using f(2) db2 by (simp add: postings_of_def fun_eq_iff)
  have "transactions db1 = transactions db @
         [(new_txn_row db new (ct_kind c) (the (ct_number c)))\<lparr>t_id := ct_id c, t_created_at := now E\<rparr>]"
    using b by (rule create_body_Inr) simp
  then show ?thesis using e f db2 create_body_postings [OF assms(1) b len] by (simp add: po)
qed

lemma create_turns_trigger_off:
  "snd (create_with_kind E new is_draft db) = db \<and> (\<exists>e. fst (create_with_kind E new is_draft db) = Inl e)
   \<or> \<not> balance_trigger (snd (create_with_kind E new is_draft db))"
proof -
  have off: "\<not> balance_trigger db1" if "create_body E new is_draft eff db = Inr (c, db1)" for eff c db1
    using that by (rule create_body_Inr) auto
  show ?thesis
  proof (cases "fst (create_with_kind E new is_draft db)")
    case (Inl e)
    with off show ?thesis
      by (auto simp: create_with_kind_def run_tx_def Let_def split: if_splits sum.splits prod.splits)
  next
    case (Inr c)
    then have "create_with_kind E new is_draft db = (Inr c, snd (create_with_kind E new is_draft db))"
      by (simp add: prod_eq_iff)
    then show ?thesis
    proof (rule create_with_kind_Inr)
      fix eff db1 db2
      assume b: "create_body E new is_draft eff db = Inr (c, db1)"
        and books: "books (snd (create_with_kind E new is_draft db)) = books db2"
        and ap: "if needs_approval db new is_draft (sum_debits eff)
           then insert_approval (ct_id c) (nt_ledger_id new) (nt_created_by new) (sum_debits eff) db1 = Inr db2
           else db2 = db1"
      obtain as where "db2 = db1\<lparr>approvals := as\<rparr>" using approval_frame [OF ap] by blast
      then show ?thesis using off [OF b] books_eqD(12) [OF books] by simp
    qed
  qed
qed

lemma audit_log_trigger [simp]: "balance_trigger (audit_log E l a act ent eid ov nv db) = balance_trigger db"
  using books_eqD(12) [OF audit_log_books [of E l a act ent eid ov nv db]] .

interpretation service_trigger: command_system "service_step Es" "\<lambda>_. True" "\<lambda>db. \<not> balance_trigger db" for Es
proof unfold_locales
  fix c :: "nat \<times> service_command" and db :: db assume off: "\<not> balance_trigger db"
  obtain n q where c: "c = (n, q)" by (cases c)
  have cr: "\<not> balance_trigger (snd (create_with_kind (Es n) new dr db))" for new dr
    using create_turns_trigger_off [of "Es n" new dr db] off by auto
  from off show "\<not> balance_trigger (service_step Es c db)"
    by (cases q)
       (auto simp: c cr service_step_def create_def create_draft_def post_draft_def delete_draft_def
          approve_journal_def reject_journal_def run_tx_def post_draft_body_def delete_draft_body_def
          approve_body_def reject_body_def result_simps update_kind_Inr decide_def delete_transaction_def
          delete_postings_def Let_def split: sum.splits prod.splits if_splits)
qed

section \<open>A valid request is accepted\<close>

lemma insert_line_succeeds:
  assumes "fresh_ids E db" and "\<not> balance_trigger db" and "t \<in> t_id ` set (transactions db)"
    and "n_account_id l \<in> a_id ` set (accounts db)" and "n_foreign l = None" and "n_cost_center_id l = None"
    and "n_project_id l = None" and "0 < round_half_away 4 \<bar>a\<bar>" and "round_half_away 4 \<bar>a\<bar> < 10 ^ 16"
  shows "\<exists>ids' db'. insert_line E t (ids, db) (l, a) = Inr (ids', db') \<and> fresh_ids E db'
     \<and> transactions db' = transactions db \<and> accounts db' = accounts db \<and> \<not> balance_trigger db'"
proof -
  let ?i = "uuid_at E (drawn db)"
  define r where "r = line_posting t (l, a)"
  define v where "v = r\<lparr>p_amount := round_half_away 4 \<bar>a\<bar>\<rparr>"
  have f: "p_amount v = round_half_away 4 \<bar>a\<bar>" "p_txn v = t" "p_account v = n_account_id l" "p_cost_center v = None"
    "p_project v = None" "is_debit v \<or> is_credit v"
    using assms(5-7) by (simp_all add: v_def r_def line_posting_def is_debit_def is_credit_def)
  have "numeric_col 20 4 (p_amount r) = Some (round_half_away 4 \<bar>a\<bar>)"
    using assms(8,9) by (simp add: numeric_col_def r_def line_posting_def)
  then have pv: "posting_values r = Inr v"
    using assms(5) by (simp add: posting_values_def nullable_def v_def r_def line_posting_def)
  have i: "?i \<notin> p_id ` set (postings db)" using fresh_drawn [OF assms(1)] by (simp add: row_ids_def)
  have txn: "txn_of db t \<noteq> None" using assms(3) by (simp add: txn_of_None)
  let ?db' = "db\<lparr>drawn := Suc (drawn db), postings := postings db @ [v\<lparr>p_id := ?i\<rparr>]\<rparr>"
  have ins: "insert_posting E r db = Inr (?i, ?db')"
    using assms(2,4,8) i f txn by (simp add: insert_posting_def pv draw_def Let_def list_ex_key dim_ok_def)
  have "fresh_ids E ?db'" by (rule fresh_ids_step [OF assms(1)]) (auto simp: row_ids_def)
  with ins assms(2) show ?thesis by (simp add: insert_line_def r_def)
qed

lemma insert_lines_succeed:
  assumes "fresh_ids E db" and "\<not> balance_trigger db" and "t \<in> t_id ` set (transactions db)"
    and "\<forall>(l, a)\<in>set las. n_account_id l \<in> a_id ` set (accounts db) \<and> n_foreign l = None \<and> n_cost_center_id l = None
       \<and> n_project_id l = None \<and> 0 < round_half_away 4 \<bar>a\<bar> \<and> round_half_away 4 \<bar>a\<bar> < 10 ^ 16"
  shows "\<exists>ids' db'. try_fold (insert_line E t) (ids, db) las = Inr (ids', db')"
  using assms
proof (induction las arbitrary: ids db)
  case Nil
  then show ?case by simp
next
  case (Cons la las)
  obtain l a where la: "la = (l, a)" by (cases la)
  from insert_line_succeeds [OF Cons.prems(1-3), of l a ids] Cons.prems(4) la
  obtain ids1 db1 where 1: "insert_line E t (ids, db) la = Inr (ids1, db1)" "fresh_ids E db1"
    "transactions db1 = transactions db" "accounts db1 = accounts db" "\<not> balance_trigger db1" by auto
  from Cons.IH [OF 1(2,5), of ids1] Cons.prems(3,4) 1 show ?case by auto
qed

definition valid_request :: "db \<Rightarrow> new_transaction \<Rightarrow> bool" where
  "valid_request db new \<longleftrightarrow>
     2 \<le> length (nt_lines new) \<and> sum_list (map n_signed_amount (nt_lines new)) = 0
   \<and> list_all (\<lambda>l. (\<exists>a\<in>set (accounts db). a_id a = n_account_id l \<and> a_ledger a = nt_ledger_id new)
        \<and> n_foreign l = None \<and> n_cost_center_id l = None \<and> n_project_id l = None
        \<and> 0 < round_half_away 4 \<bar>n_signed_amount l\<bar> \<and> round_half_away 4 \<bar>n_signed_amount l\<bar> < 10 ^ 16) (nt_lines new)
   \<and> round_half_away 4 (sum_debits (map n_signed_amount (nt_lines new))) < 10 ^ 16
   \<and> ledger_of db (nt_ledger_id new) \<noteq> None
   \<and> \<not> is_closed (closed_through_for db (nt_ledger_id new)) (nt_txn_date new)
   \<and> nt_kind new = None \<and> nt_reverses_id new = None \<and> nt_tax_links new = []
   \<and> (\<exists>s. nt_number new = Some s \<and> trim s \<noteq> []
        \<and> \<not> number_taken db (nt_ledger_id new) (date_year (nt_txn_date new)) (trim s))"

lemma sums_from_zero: "sum_list as = 0 \<Longrightarrow> sum_debits as = sum_credits as"
proof -
  have "sum_debits as - sum_credits as = sum_list as"
    unfolding sum_debits_eq sum_credits_eq by (induction as) auto
  then show "sum_list as = 0 \<Longrightarrow> sum_debits as = sum_credits as" by simp
qed

lemma try_fold_checks: "list_all (\<lambda>x. f x = Inr ()) xs \<Longrightarrow> try_fold (\<lambda>_ x. f x) () xs = Inr ()"
  by (induction xs) auto

lemma create_body_succeeds:
  assumes "valid_request db new" and "fresh_ids E db"
  shows "\<exists>c db'. create_body E new False (map n_signed_amount (nt_lines new)) db = Inr (c, db')"
proof -
  let ?db = "db\<lparr>balance_trigger := False\<rparr>" and ?as = "map n_signed_amount (nt_lines new)"
  let ?kind = "if needs_approval db new False (sum_debits ?as) then ''pending'' else requested_kind new"
  obtain s led where s: "nt_number new = Some s" "trim s \<noteq> []"
      "\<not> number_taken db (nt_ledger_id new) (date_year (nt_txn_date new)) (trim s)"
    and led: "ledger_of db (nt_ledger_id new) = Some led"
    using assms(1) by (auto simp: valid_request_def)
  have num: "resolve_number db new = Inr (trim s)" using s by (simp add: resolve_number_def Let_def)
  have gate: "close_gate db (nt_ledger_id new) (nt_txn_date new) = Inr ()"
    using assms(1) by (simp add: valid_request_def close_gate_Inr)
  have acc: "try_fold (\<lambda>_ l. check_account db (nt_ledger_id new) l) () (nt_lines new) = Inr ()"
    using assms(1) by (intro try_fold_checks) (auto simp: valid_request_def list_all_iff check_account_def list_ex_iff)
  have dim: "try_fold (\<lambda>_ l. check_dimensions db (nt_ledger_id new) l) () (nt_lines new) = Inr ()"
    using assms(1) by (intro try_fold_checks) (auto simp: valid_request_def list_all_iff check_dimensions_def)
  let ?row = "new_txn_row db new ?kind (trim s)" and ?i = "uuid_at E (drawn db)"
  let ?db1 = "?db\<lparr>drawn := Suc (drawn db), transactions := transactions db @ [?row\<lparr>t_id := ?i, t_created_at := now E\<rparr>]\<rparr>"
  have ins: "insert_transaction E ?row ?db = Inr (?i, ?db1)"
  proof -
    have "?i \<notin> t_id ` set (transactions db)" using fresh_drawn [OF assms(2)] by (simp add: row_ids_def)
    moreover have "nt_ledger_id new \<in> l_id ` set (ledgers db)" using ledger_of_mem [OF led] by (metis image_eqI)
    moreover have "?kind \<in> set txn_kinds" using assms(1) by (auto simp: valid_request_def requested_kind_def txn_kinds_def)
    ultimately show ?thesis
      using assms(1) s by (simp add: insert_transaction_Inr new_txn_row_def number_taken_def valid_request_def)
  qed
  have "fresh_ids E ?db1" by (rule fresh_ids_step [OF assms(2)]) (auto simp: row_ids_def)
  moreover have "\<forall>(l, a)\<in>set (zip (nt_lines new) ?as). n_account_id l \<in> a_id ` set (accounts ?db1) \<and> n_foreign l = None
       \<and> n_cost_center_id l = None \<and> n_project_id l = None \<and> 0 < round_half_away 4 \<bar>a\<bar> \<and> round_half_away 4 \<bar>a\<bar> < 10 ^ 16"
  proof -
    have "zip (nt_lines new) ?as = map (\<lambda>l. (l, n_signed_amount l)) (nt_lines new)"
      by (simp add: zip_map2 zip_same_conv_map)
    then show ?thesis using assms(1) by (auto simp: valid_request_def list_all_iff image_iff) metis
  qed
  ultimately obtain ids db2 where l: "try_fold (insert_line E ?i) ([], ?db1) (zip (nt_lines new) ?as) = Inr (ids, db2)"
    using insert_lines_succeed [of E ?db1 ?i "zip (nt_lines new) ?as" "[]"] by auto
  have "nt_tax_links new = []" using assms(1) by (simp add: valid_request_def)
  then have "create_body E new False ?as db = Inr (\<lparr>ct_id = ?i, ct_kind = ?kind, ct_number = Some (trim s)\<rparr>, db2)"
    using led gate acc dim num ins l unfolding create_body_def Let_def by simp
  then show ?thesis by blast
qed

lemma create_succeeds:
  assumes "valid_request db new" and "fresh_ids E db"
  shows "\<exists>c db'. create E new db = (Inr c, db') \<and> ct_number c = map_option trim (nt_number new) \<and>
     ct_kind c = (if needs_approval db new False (sum_debits (map n_signed_amount (nt_lines new)))
                  then ''pending'' else ''standard'')"
proof -
  let ?as = "map n_signed_amount (nt_lines new)"
  let ?p = "needs_approval db new False (sum_debits ?as)"
  have "\<not> list_ex (\<lambda>l. n_foreign l \<noteq> None) (nt_lines new)"
    using assms(1) by (auto simp: valid_request_def list_all_iff list_ex_iff)
  then have eff: "effective_amounts E db new = Inr ?as" by (simp add: effective_amounts_def)
  have sums: "sum_debits ?as = sum_credits ?as" using assms(1) by (intro sums_from_zero) (simp add: valid_request_def)
  have len: "\<not> length (nt_lines new) < 2" using assms(1) by (simp add: valid_request_def)
  from create_body_succeeds [OF assms] obtain c db1 where b: "create_body E new False ?as db = Inr (c, db1)" by blast
  have k: "ct_kind c = (if ?p then ''pending'' else ''standard'')" "ct_number c = map_option trim (nt_number new)"
    using b assms(1)
    by (auto elim!: create_body_Inr simp: valid_request_def requested_kind_def resolve_number_def Let_def)
  have row: "ct_id c \<in> t_id ` set (transactions db1)" "ledgers db1 = ledgers db"
    using b by (auto elim!: create_body_Inr)
  have "0 \<le> sum_debits ?as" unfolding sum_debits_eq by (rule sum_list_nonneg) auto
  then have "0 \<le> round_half_away 4 (sum_debits ?as)" by (rule away.rnd_nonneg)
  moreover have "round_half_away 4 (sum_debits ?as) < 10 ^ 16" "ledger_of db1 (nt_ledger_id new) \<noteq> None"
    using assms(1) row by (simp_all add: valid_request_def ledger_of_def)
  ultimately obtain db2 where "insert_approval (ct_id c) (nt_ledger_id new) (nt_created_by new) (sum_debits ?as) db1 = Inr db2"
    using row(1) by (cases "list_ex (\<lambda>j. ja_txn j = ct_id c) (approvals db1)")
       (auto simp: insert_approval_def numeric_col_def txn_of_None)
  then show ?thesis
    using b eff sums len k by (cases ?p) (simp_all add: create_def create_with_kind_def run_tx_def Let_def)
qed

section \<open>Properties\<close>

text \<open>
  C1: The books always balance.  Start from any well-formed database whose transactions balance (the
  empty one, for instance) and run any sequence of create, draft, promote, delete, approve and reject
  commands, each in its own environment with the documented rounding, whose plain amounts have at most
  four decimals.  Afterwards every transaction balances, the schema's invariants hold, and over the
  whole database the stored debits equal the stored credits, although the balance trigger is off.
\<close>

theorem books_always_balance:
  assumes "db_wf db" and "all_balanced db" and "list_all (command_on_grid Es) cs"
  shows "db_wf (fold (service_step Es) cs db)
   \<and> (\<forall>t\<in>set (transactions (fold (service_step Es) cs db)). balanced (fold (service_step Es) cs db) (t_id t))
   \<and> debit_sum (postings (fold (service_step Es) cs db)) = credit_sum (postings (fold (service_step Es) cs db))"
proof -
  have inv: "db_wf (fold (service_step Es) cs db) \<and> all_balanced (fold (service_step Es) cs db)"
    by (rule service_books.run_inv) (use assms in auto)
  then have "debit_sum (postings (fold (service_step Es) cs db)) = credit_sum (postings (fold (service_step Es) cs db))"
    using ledger_totals by blast
  with inv show ?thesis by (simp add: all_balanced_def)
qed

text \<open>
  C2: What create stores.  A successful create appends exactly one transaction row, dated and described
  as asked, with the number and the kind it reports, and exactly one posting per line, in line order,
  whose account, memo and dimensions are the line's, whose direction is the sign of the base amount and
  whose amount is its absolute value rounded to four decimals.  No other transaction or posting changes.
\<close>

theorem create_stores_request:
  assumes "db_wf db" and "create E new db = (Inr c, db')"
  shows "\<exists>eff. effective_amounts E db new = Inr eff \<and> sum_debits eff = sum_credits eff
     \<and> transactions db' = transactions db @
         [(new_txn_row db new (ct_kind c) (the (ct_number c)))\<lparr>t_id := ct_id c, t_created_at := now E\<rparr>]
     \<and> list_all2 (line_stored (ct_id c)) (zip (nt_lines new) eff) (postings_of db' (ct_id c))
     \<and> postings db' = postings db @ postings_of db' (ct_id c)"
  by (rule create_stores_request_rows [OF assms])

text \<open>
  C6: The close gate holds.  A journal that create accepts, or a draft that promotion posts, is dated
  after the ledger's close watermark.
\<close>

theorem closed_period_refused:
  assumes "fst (create E new db) = Inr c \<or> fst (post_draft E l t a db) = Inr c'"
  shows "fst (create E new db) = Inr c \<and> \<not> is_closed (closed_through_for db (nt_ledger_id new)) (nt_txn_date new)
     \<or> (\<exists>x\<in>set (transactions db). t_id x = t \<and> t_ledger x = l \<and> t_kind x = ''draft''
          \<and> \<not> is_closed (closed_through_for db l) (t_date x))"
  using assms
proof
  assume a: "fst (create E new db) = Inr c"
  then have "create_with_kind E new False db = (Inr c, snd (create E new db))" by (simp add: create_def prod_eq_iff)
  then show ?thesis
  proof (rule create_with_kind_Inr)
    fix eff db1
    assume "create_body E new False eff db = Inr (c, db1)"
    then have "close_gate db (nt_ledger_id new) (nt_txn_date new) = Inr ()" by (rule create_body_Inr) auto
    with a show ?thesis by (simp add: close_gate_Inr)
  qed
next
  assume "fst (post_draft E l t a db) = Inr c'"
  then obtain r where "post_draft_body l t db = Inr r"
    by (auto simp: post_draft_def run_tx_def split: sum.splits prod.splits)
  then show ?thesis
    by (auto simp: post_draft_body_def result_simps close_gate_Inr dest!: find_Some_mem split: if_splits)
qed

text \<open>
  C7: A refused request leaves no trace, with one exception.  When create returns an error, the database
  is exactly as before, unless the error is that of the approval row, which is written after the commit.
\<close>

theorem create_error_atomic:
  assumes "create E new db = (Inl e, db')"
  shows "db' = db \<or> (\<exists>eff c d. effective_amounts E db new = Inr eff \<and> create_body E new False eff db = Inr (c, db')
     \<and> needs_approval db new False (sum_debits eff)
     \<and> insert_approval (ct_id c) (nt_ledger_id new) (nt_created_by new) (sum_debits eff) db' = Inl d \<and> e = Db d)"
  using assms
  by (auto simp: create_def create_with_kind_def run_tx_def Let_def split: if_splits sum.splits prod.splits)

text \<open>
  C4: Large journals wait for a second pair of eyes.  When the ledger has a threshold and a standard or
  adjusting journal reaches it, create reports the kind pending, the one row it adds to the transactions is of that
  kind, a pending approval over the journal's total is recorded in the maker's name, and an approval or rejection by the
  maker is refused and changes nothing.
\<close>

theorem maker_checker_gate:
  assumes "db_wf db" and "create E new db = (Inr c, db')" and "ledger_of db (nt_ledger_id new) = Some led"
    and "l_threshold led = Some thr" and "0 \<le> thr" and "nt_kind new \<in> {None, Some ''standard'', Some ''adjusting''}"
    and "effective_amounts E db new = Inr eff" and "thr \<le> sum_debits eff"
    and "\<forall>j\<in>set (approvals db). ja_txn j \<in> t_id ` set (transactions db)"
  shows "ct_kind c = ''pending''
     \<and> (\<exists>t. transactions db' = transactions db @ [t] \<and> t_id t = ct_id c \<and> t_kind t = ''pending''
          \<and> t_ledger t = nt_ledger_id new \<and> t_created_by t = nt_created_by new)
     \<and> (\<exists>v. numeric_col 20 4 (sum_debits eff) = Some v \<and> approvals db' = approvals db @ [\<lparr>ja_txn = ct_id c, ja_ledger = nt_ledger_id new,
              ja_maker = nt_created_by new, ja_checker = None, ja_status = ''pending'', ja_amount = v\<rparr>])
     \<and> approve_journal E' (nt_ledger_id new) (ct_id c) (nt_created_by new) db' = (Inl SelfApproval, db')
     \<and> reject_journal E' (nt_ledger_id new) (ct_id c) (nt_created_by new) db' = (Inl SelfApproval, db')"
proof -
  have need: "needs_approval db new False (sum_debits eff)"
    using assms by (auto simp: needs_approval_def requested_kind_def)
  from create_stores_request_rows [OF assms(1,2)] have
    rows: "transactions db' = transactions db @ [(new_txn_row db new (ct_kind c) (the (ct_number c)))\<lparr>t_id := ct_id c, t_created_at := now E\<rparr>]"
    by blast
  from assms(2) have "create_with_kind E new False db = (Inr c, db')" by (simp add: create_def)
  then show ?thesis
  proof (rule create_with_kind_Inr)
    fix eff' db1 db2
    assume e: "effective_amounts E db new = Inr eff'" and b: "create_body E new False eff' db = Inr (c, db1)"
      and books: "books db' = books db2"
      and ap: "if needs_approval db new False (sum_debits eff')
         then insert_approval (ct_id c) (nt_ledger_id new) (nt_created_by new) (sum_debits eff') db1 = Inr db2
         else db2 = db1"
    have eff': "eff' = eff" using e assms(7) by simp
    have fresh: "ct_id c \<notin> t_id ` set (transactions db)" and kind: "ct_kind c = ''pending''"
      and same: "approvals db1 = approvals db"
      using b need unfolding eff' by (auto elim!: create_body_Inr)
    have nolist: "ct_id c \<notin> ja_txn ` set (approvals db)" using assms(9) fresh by auto
    from ap need eff' have "insert_approval (ct_id c) (nt_ledger_id new) (nt_created_by new) (sum_debits eff) db1 = Inr db2"
      by simp
    from insert_approval_Inr [OF this] same nolist obtain v where v: "numeric_col 20 4 (sum_debits eff) = Some v"
      "approvals db2 = approvals db @ [\<lparr>ja_txn = ct_id c, ja_ledger = nt_ledger_id new,
          ja_maker = nt_created_by new, ja_checker = None, ja_status = ''pending'', ja_amount = v\<rparr>]" by auto
    from this(2) have ap': "approvals db' = approvals db @ [\<lparr>ja_txn = ct_id c, ja_ledger = nt_ledger_id new,
          ja_maker = nt_created_by new, ja_checker = None, ja_status = ''pending'', ja_amount = v\<rparr>]"
      using books_eqD(9) [OF books] by simp
    have "find (\<lambda>j. ja_txn j = ct_id c \<and> ja_ledger j = nt_ledger_id new) (approvals db) = None"
      using nolist by (auto simp: find_None_iff dest: notin_imageD)
    then have "find (\<lambda>j. ja_txn j = ct_id c \<and> ja_ledger j = nt_ledger_id new) (approvals db')
        = Some \<lparr>ja_txn = ct_id c, ja_ledger = nt_ledger_id new,
            ja_maker = nt_created_by new, ja_checker = None, ja_status = ''pending'', ja_amount = v\<rparr>"
      unfolding ap' by (simp add: find_append_None)
    then have "pending_approval (nt_ledger_id new) (ct_id c) (nt_created_by new) db' = Inl SelfApproval"
      by (simp add: pending_approval_def)
    then show ?thesis
      using kind ap' v(1) rows
      by (simp add: approve_journal_def reject_journal_def approve_body_def reject_body_def run_tx_def new_txn_row_def)
  qed
qed

text \<open>
  C3: Only a second person decides.  If a pending journal is no longer pending after a command of the
  service, the command was an approval or a rejection of that journal by somebody other than the maker
  recorded in its pending approval.
\<close>

theorem pending_needs_second_person:
  assumes "db_wf db" and "t \<in> set (transactions db)" and "t_kind t = ''pending''"
    and "\<not> (\<exists>t'\<in>set (transactions (service_step Es c db)). t_id t' = t_id t \<and> t_kind t' = ''pending'')"
  shows "\<exists>l ch j. (snd c = Approve l (t_id t) ch \<or> snd c = Reject l (t_id t) ch)
     \<and> j \<in> set (approvals db) \<and> ja_txn j = t_id t \<and> ja_ledger j = l \<and> ja_status j = ''pending'' \<and> ja_maker j \<noteq> ch"
  using assms by (intro pending_step) (auto simp: db_wf_def)

text \<open>
  Automatic numbers collide after a deletion.  The automatic number is the count of the ledger's
  transactions of the year plus one.  Once that number is taken (after a draft that was not the last one
  has been deleted, or when a user chose it), every create without a number fails in that ledger and year.
\<close>

theorem auto_number_collision:
  assumes "number_taken db (nt_ledger_id new) (date_year (nt_txn_date new))
             (auto_number (date_year (nt_txn_date new)) (year_count db (nt_ledger_id new) (date_year (nt_txn_date new)) + 1))"
    and "nt_number new = None"
  shows "fst (create E new db) \<noteq> Inr c"
proof
  assume "fst (create E new db) = Inr c"
  then have "create_with_kind E new False db = (Inr c, snd (create E new db))" by (simp add: create_def prod_eq_iff)
  then show False
  proof (rule create_with_kind_Inr)
    fix eff db1
    assume "create_body E new False eff db = Inr (c, db1)"
    then show False using assms by (rule_tac create_body_Inr) (auto simp: resolve_number_def Let_def)
  qed
qed

text \<open>
  Rejection opens a way around the approval.  A pending journal above the threshold that a second
  person rejects becomes a draft, and its maker can post that draft: it ends as a standard transaction
  that nobody approved.
\<close>

theorem reject_then_promote_bypasses_approval:
  assumes wf: "distinct (map t_id (transactions db))" and t: "t \<in> set (transactions db)" "t_ledger t = l"
    and a: "find (\<lambda>j. ja_txn j = t_id t \<and> ja_ledger j = l) (approvals db) = Some j"
    and j: "ja_status j = ''pending''" "ja_maker j \<noteq> ch"
    and led: "ledger_of db l = Some led" "\<not> l_append_only led"
    and op: "\<not> is_closed (closed_through_for db l) (t_date t)"
  shows "\<exists>db'. fst (reject_journal E l (t_id t) ch db) = Inr () \<and> db' = snd (reject_journal E l (t_id t) ch db)
     \<and> fst (post_draft E l (t_id t) (ja_maker j) db') = Inr \<lparr>ct_id = t_id t, ct_kind = ''standard'', ct_number = None\<rparr>
     \<and> t\<lparr>t_kind := ''standard''\<rparr> \<in> set (transactions (snd (post_draft E l (t_id t) (ja_maker j) db')))
     \<and> (\<forall>x\<in>set (approvals (snd (post_draft E l (t_id t) (ja_maker j) db'))). ja_txn x = t_id t \<longrightarrow> ja_status x = ''rejected'')"
proof -
  let ?sel = "\<lambda>x. t_id x = t_id t"
  have same: "x = t" if "x \<in> set (transactions db)" "t_id x = t_id t" for x
    using wf t(1) that by (auto simp: distinct_map inj_on_def)
  have noao: "append_only db l = False" using led by (simp add: append_only_def)
  have u1: "update_kind ?sel ''draft'' db = Inr (db\<lparr>transactions := set_kind ?sel ''draft'' (transactions db)\<rparr>)"
    using same t noao by (auto simp: update_kind_def list_ex_iff)
  define d where "d = decide ''rejected'' (t_id t) ch (db\<lparr>transactions := set_kind ?sel ''draft'' (transactions db)\<rparr>)"
  obtain d1 where rej: "reject_journal E l (t_id t) ch db = (Inr (), d1)" and bk: "books d1 = books d"
    using a j u1 by (simp add: reject_journal_def reject_body_def pending_approval_def run_tx_def d_def frame)
  have d1: "transactions d1 = set_kind ?sel ''draft'' (transactions db)" "ledgers d1 = ledgers db"
    "closed_periods d1 = closed_periods db" "approvals d1 = approvals d"
    using books_eqD [OF bk] by (simp_all add: d_def decide_def)
  have mem: "t\<lparr>t_kind := ''draft''\<rparr> \<in> set (transactions d1)" using t(1) by (auto simp: d1 set_kind_mem intro!: bexI [of _ t])
  have dist: "distinct (map t_id (transactions d1))" using wf by (simp add: d1)
  have f: "find (\<lambda>x. t_id x = t_id t \<and> t_ledger x = l) (transactions d1) = Some (t\<lparr>t_kind := ''draft''\<rparr>)"
  proof -
    have "find (\<lambda>x. t_id x = t_id t \<and> t_ledger x = l) (transactions d1) \<noteq> None"
      using mem t(2) by (auto simp: find_None_iff intro!: exI [of _ "t\<lparr>t_kind := ''draft''\<rparr>"])
    then obtain u where u: "find (\<lambda>x. t_id x = t_id t \<and> t_ledger x = l) (transactions d1) = Some u" by blast
    with find_unique [OF dist mem, of l u] show ?thesis by simp
  qed
  have led1: "ledger_of d1 l = Some led" using led by (simp add: ledger_of_def d1)
  have op1: "\<not> is_closed (closed_through_for d1 l) (t_date t)" using op by (simp add: closed_through_for_def d1)
  have "append_only d1 l = False" using led led1 by (simp add: append_only_def)
  moreover have "x = t\<lparr>t_kind := ''draft''\<rparr>" if "x \<in> set (transactions d1)" "t_id x = t_id t" for x
    using inj_onD [OF dist [unfolded distinct_map, THEN conjunct2], of x "t\<lparr>t_kind := ''draft''\<rparr>"] that mem by simp
  ultimately have sel1: "\<not> (t_id x = t_id t \<and> append_only d1 (t_ledger x))" if "x \<in> set (transactions d1)" for x
    using that t(2) by fastforce
  have u2: "update_kind ?sel ''standard'' d1 = Inr (d1\<lparr>transactions := set_kind ?sel ''standard'' (transactions d1)\<rparr>)"
    using sel1 by (auto simp: update_kind_def list_ex_iff)
  have post: "post_draft_body l (t_id t) d1 = Inr ((), d1\<lparr>transactions := set_kind ?sel ''standard'' (transactions d1)\<rparr>)"
    using f led1 op1 u2 by (simp add: post_draft_body_def close_gate_Inr [THEN iffD2])
  have "t\<lparr>t_kind := ''standard''\<rparr> \<in> set (set_kind ?sel ''standard'' (transactions d1))"
    using mem by (auto simp: set_kind_mem intro!: bexI [of _ "t\<lparr>t_kind := ''draft''\<rparr>"])
  moreover have "\<forall>x\<in>set (approvals d1). ja_txn x = t_id t \<longrightarrow> ja_status x = ''rejected''"
    by (auto simp: d1 d_def decide_def)
  ultimately show ?thesis using rej post by (simp add: post_draft_def run_tx_def)
qed

text \<open>
  An approval posts into a closed period.  The close gate of create is not repeated: a pending
  journal whose date was closed in the meantime becomes a standard transaction when it is approved.
\<close>

theorem approve_ignores_close:
  assumes "t \<in> set (transactions db)" and "t_ledger t = l"
    and "find (\<lambda>j. ja_txn j = t_id t \<and> ja_ledger j = l) (approvals db) = Some j"
    and "ja_status j = ''pending''" and "ja_maker j \<noteq> ch" and "ledger_of db l = Some led" and "\<not> l_append_only led"
    and "is_closed (closed_through_for db l) (t_date t)"
  shows "fst (approve_journal E l (t_id t) ch db) = Inr ()
     \<and> t\<lparr>t_kind := ''standard''\<rparr> \<in> set (transactions (snd (approve_journal E l (t_id t) ch db)))
     \<and> is_closed (closed_through_for (snd (approve_journal E l (t_id t) ch db)) l) (t_date t)"
proof -
  let ?sel = "\<lambda>x. t_id x = t_id t \<and> t_ledger x = l"
  have "append_only db l = False" using assms(6,7) by (simp add: append_only_def)
  then have u: "update_kind ?sel ''standard'' db = Inr (db\<lparr>transactions := set_kind ?sel ''standard'' (transactions db)\<rparr>)"
    by (auto simp: update_kind_def list_ex_iff)
  define d where "d = decide ''approved'' (t_id t) ch (db\<lparr>transactions := set_kind ?sel ''standard'' (transactions db)\<rparr>)"
  obtain d1 where ap: "approve_journal E l (t_id t) ch db = (Inr (), d1)" and bk: "books d1 = books d"
    using assms(3-5) u by (simp add: approve_journal_def approve_body_def pending_approval_def run_tx_def d_def frame)
  have "transactions d1 = set_kind ?sel ''standard'' (transactions db)" "closed_periods d1 = closed_periods db"
    using books_eqD [OF bk] by (simp_all add: d_def decide_def)
  then show ?thesis
    using ap assms(1,2,8) by (auto simp: closed_through_for_def set_kind_mem intro!: bexI [of _ t])
qed

text \<open>
  A line of amount zero passes the validation but can never be stored: the \<^verbatim>\<open>CHECK (amount > 0)\<close> of
  the postings table refuses it, so the request fails.  The same holds of amounts that round to zero.
\<close>

theorem zero_line_refused:
  assumes "effective_amounts E db new = Inr eff" and "a \<in> set eff" and "round_half_away 4 \<bar>a\<bar> = 0"
  shows "fst (create E new db) \<noteq> Inr c"
proof
  assume "fst (create E new db) = Inr c"
  then have "create_with_kind E new False db = (Inr c, snd (create E new db))" by (simp add: create_def prod_eq_iff)
  then show False
  proof (rule create_with_kind_Inr)
    fix eff' db1
    assume e: "effective_amounts E db new = Inr eff'" and len: "length eff' = length (nt_lines new)"
      and "create_body E new False eff' db = Inr (c, db1)"
    then obtain ps where ps: "list_all2 (line_stored (ct_id c)) (zip (nt_lines new) eff') ps"
      by (rule_tac create_body_Inr) auto
    have eff': "eff' = eff" using e assms(1) by simp
    from assms(2) obtain k where k: "k < length eff" "eff ! k = a" by (auto simp: in_set_conv_nth)
    with ps len eff' have "line_stored (ct_id c) (nt_lines new ! k, a) (ps ! k)"
      by (auto simp: list_all2_conv_all_nth)
    with assms(3) show False by (auto simp: line_stored_def)
  qed
qed

text \<open>
  Amounts with more than four decimals can be stored unbalanced.  Two debits of 0.00005 and a credit
  of 0.0001 balance in the request; each posting is rounded on its own, and what is stored is 0.0002
  against 0.0001.
\<close>

theorem rounding_breaks_balance:
  assumes "db_wf db" and "create E new db = (Inr c, db')"
    and "map n_signed_amount (nt_lines new) = [5 / 100000, 5 / 100000, - 1 / 10000]"
    and "list_all (\<lambda>l. n_foreign l = None) (nt_lines new)"
  shows "debit_sum (postings_of db' (ct_id c)) = 2 / 10000 \<and> credit_sum (postings_of db' (ct_id c)) = 1 / 10000"
proof -
  from create_stores_request_rows [OF assms(1,2)] obtain eff where
    e: "effective_amounts E db new = Inr eff" and
    ps: "list_all2 (line_stored (ct_id c)) (zip (nt_lines new) eff) (postings_of db' (ct_id c))" by blast
  have "\<not> list_ex (\<lambda>l. n_foreign l \<noteq> None) (nt_lines new)" using assms(4) by (auto simp: list_ex_iff list_all_iff)
  then have eff: "eff = [5 / 100000, 5 / 100000, - 1 / 10000]" using e assms(3) by (simp add: effective_amounts_def)
  have len: "length (nt_lines new) = 3" using arg_cong [OF assms(3), of length] by simp
  have snd: "map snd (zip (nt_lines new) eff) = eff" using len by (simp add: eff)
  have r: "round_half_away 4 (5 / 100000) = 1 / 10000" "round_half_away 4 (1 / 10000) = 1 / 10000"
    by code_simp+
  show ?thesis
    using stored_debits [OF ps, unfolded snd] stored_credits [OF ps, unfolded snd] r by (simp add: eff)
qed

text \<open>
  The trigger is not restored.  \<^verbatim>\<open>ALTER TABLE ... DISABLE TRIGGER\<close> is part of the committed
  transaction: after any successful create the balance trigger is off for everybody, contrary to the
  comment that commit re-enables it, and no operation of the service turns it on again.
\<close>

theorem trigger_stays_off:
  assumes "create E new db = (Inr c, db')"
  shows "\<not> balance_trigger (fold (service_step Es) cs db')"
proof (rule service_trigger.run_inv)
  show "\<not> balance_trigger db'"
    using create_turns_trigger_off [of E new False db] assms by (auto simp: create_def)
qed (simp add: list_all_iff)

text \<open>
  Conditions on the amount never match a posted journal.  The event that create emits carries only
  the identifier and the number, so an automation rule with an \<^verbatim>\<open>amount_gte\<close>, \<^verbatim>\<open>amount_lte\<close> or
  \<^verbatim>\<open>days_past_due_gte\<close> condition, or with a non-empty \<^verbatim>\<open>description_contains\<close>, never fires on it.
\<close>

theorem posted_event_has_no_amount:
  assumes "(k, v) \<in> set conds"
    and "k \<in> {''amount_gte'', ''amount_lte'', ''days_past_due_gte''} \<or> k = ''description_contains'' \<and> v \<noteq> JStr []"
  shows "\<not> conditions_match (JObj conds) (posted_event c)"
proof -
  have n: "event_number (posted_event c) f = None" if "f \<in> {''amount'', ''days_past_due''}" for f
    using that by (auto simp: event_number_def event_field_def posted_event_def)
  have d: "event_field (posted_event c) ''description'' = None" by (simp add: event_field_def posted_event_def)
  have empty: "contains_str s [] \<longleftrightarrow> s = []" for s by simp
  have "\<not> condition_holds (posted_event c) (k, v)"
    using assms(2)
    by (cases v) (auto simp: condition_holds_def n d to_lowercase_def split: option.splits)
  with assms(1) show ?thesis by (auto simp: conditions_match_def list_all_iff)
qed

text \<open>
  C5: A valid request is accepted.  Two or more lines without foreign legs or dimensions, whose amounts
  sum to zero and each round to something that fits the column and is not zero, on accounts of the
  ledger, with an open date, an unused number and fresh identifiers: create succeeds and reports that
  number, and the journal is standard or pending according to the threshold.
\<close>

theorem create_accepts_valid:
  assumes "valid_request db new" and "fresh_ids E db"
  shows "\<exists>c db'. create E new db = (Inr c, db') \<and> ct_number c = map_option trim (nt_number new) \<and>
     ct_kind c = (if needs_approval db new False (sum_debits (map n_signed_amount (nt_lines new)))
                  then ''pending'' else ''standard'')"
  by (rule create_succeeds [OF assms])

section \<open>Witnesses\<close>

definition sample_line :: "uuid \<Rightarrow> decimal \<Rightarrow> txn_line" where
  "sample_line a x = \<lparr>n_account_id = a, n_signed_amount = x, n_memo = None, n_tax_rate_id = None,
     n_foreign = None, n_cost_center_id = None, n_project_id = None\<rparr>"

definition sample_request :: "string option \<Rightarrow> decimal list \<Rightarrow> new_transaction" where
  "sample_request num as =
     \<lparr>nt_ledger_id = 2, nt_txn_date = Date 2026 3 15, nt_description = ''Rent'', nt_payee = None,
      nt_reference = None, nt_kind = None, nt_created_by = 7, nt_lines = map (sample_line 11) as,
      nt_reverses_id = None, nt_number = num, nt_tax_links = []\<rparr>"

definition sample_books :: db where
  "sample_books = empty_db\<lparr>
     ledgers := [\<lparr>l_id = 2, l_owner = 7, l_name = ''Books'', l_base_currency = ''USD'', l_basis = ''ACCRUAL'',
                  l_append_only = False, l_threshold = Some 10000\<rparr>],
     accounts := [\<lparr>a_id = 11, a_ledger = 2, a_name = ''Cash'', a_code = Some ''1000'', a_type = ''ASSET'',
                   a_subtype = ''CASH'', a_currency = ''USD'', a_archived = False\<rparr>]\<rparr>"

lemma sample_rounds:
  "round_half_away 4 100 = 100" "round_half_away 4 20000 = 20000"
  "round_half_away 4 (1 / 20000) = 1 / 10000" "round_half_away 4 (1 / 10000) = 1 / 10000"
  by code_simp+

lemma sample_books_wf: "db_wf sample_books" "all_balanced sample_books"
  by (simp_all add: db_wf_def all_balanced_def sample_books_def empty_db_def)

lemma sample_fresh: "fresh_ids sample_env sample_books"
  by (auto simp: fresh_ids_def sample_env_def sample_books_def empty_db_def row_ids_def inj_def)

lemma no_periods_open: "closed_periods db = [] \<Longrightarrow> closed_through_for db l = None"
  by (simp add: closed_through_for_def sql_max_def map_filter_simps)

lemmas sample_request_simps =
  valid_request_def sample_request_def sample_line_def sum_debits_def sample_rounds no_periods_open is_closed_def
  number_taken_def

lemma sample_valid:
  "valid_request sample_books (sample_request (Some ''X'') [100, - 100])"
  "valid_request sample_books (sample_request (Some ''X'') [20000, - 20000])"
  "valid_request sample_books (sample_request (Some ''X'') [5 / 100000, 5 / 100000, - 1 / 10000])"
proof -
  have "trim ''X'' \<noteq> []" by code_simp
  then show "valid_request sample_books (sample_request (Some ''X'') [100, - 100])"
    "valid_request sample_books (sample_request (Some ''X'') [20000, - 20000])"
    "valid_request sample_books (sample_request (Some ''X'') [5 / 100000, 5 / 100000, - 1 / 10000])"
    by (simp_all add: sample_request_simps sample_books_def empty_db_def ledger_of_def)
qed

theorem books_always_balance_witness:
  "debit_sum (postings (fold (service_step (\<lambda>_. sample_env))
       [(0, Create (sample_request None [100, - 100])), (1, CreateDraft (sample_request None [5, - 5]))] sample_books))
   = credit_sum (postings (fold (service_step (\<lambda>_. sample_env))
       [(0, Create (sample_request None [100, - 100])), (1, CreateDraft (sample_request None [5, - 5]))] sample_books))"
proof -
  have "list_all (command_on_grid (\<lambda>_. sample_env))
      [(0, Create (sample_request None [100, - 100])), (1, CreateDraft (sample_request None [5, - 5]))]"
    by (simp add: command_on_grid_def sample_env_def on_grid_lines_def sample_request_def sample_line_def on_grid_def)
  from books_always_balance [OF sample_books_wf this] show ?thesis by blast
qed

theorem create_stores_request_witness:
  "\<exists>c db'. create sample_env (sample_request (Some ''X'') [100, - 100]) sample_books = (Inr c, db')
     \<and> length (postings_of db' (ct_id c)) = 2"
proof -
  obtain c db' where c: "create sample_env (sample_request (Some ''X'') [100, - 100]) sample_books = (Inr c, db')"
    using create_succeeds [OF sample_valid(1) sample_fresh] by blast
  from create_stores_request [OF sample_books_wf(1) c] obtain eff where
    eff: "effective_amounts sample_env sample_books (sample_request (Some ''X'') [100, - 100]) = Inr eff"
      "list_all2 (line_stored (ct_id c)) (zip (nt_lines (sample_request (Some ''X'') [100, - 100])) eff) (postings_of db' (ct_id c))"
    by blast
  have "length eff = 2" using length_effective [OF eff(1)] by (simp add: sample_request_def)
  then have "length (postings_of db' (ct_id c)) = 2"
    using list_all2_lengthD [OF eff(2)] by (simp add: sample_request_def)
  with c show ?thesis by blast
qed

theorem closed_period_refused_witness:
  "\<exists>c. fst (create sample_env (sample_request (Some ''X'') [100, - 100]) sample_books) = Inr c
     \<and> (\<not> is_closed (closed_through_for sample_books 2) (Date 2026 3 15))"
proof -
  obtain c db' where c: "create sample_env (sample_request (Some ''X'') [100, - 100]) sample_books = (Inr c, db')"
    using create_succeeds [OF sample_valid(1) sample_fresh] by blast
  have "fst (create sample_env (sample_request (Some ''X'') [100, - 100]) sample_books) = Inr c
      \<or> fst (post_draft sample_env 2 3 4 sample_books) = Inr \<lparr>ct_id = 0, ct_kind = [], ct_number = None\<rparr>"
    using c by simp
  from closed_period_refused [OF this] show ?thesis
    using c by (auto simp: sample_request_def sample_books_def empty_db_def)
qed

theorem create_error_atomic_witness:
  "snd (create sample_env (sample_request None [100, - 50]) sample_books) = sample_books"
proof -
  have e: "create sample_env (sample_request None [100, - 50]) sample_books = (Inl (Unbalanced 100 50), sample_books)"
    by (simp add: create_def create_with_kind_def effective_amounts_def sample_request_def sample_line_def
        sum_debits_def sum_credits_def)
  from create_error_atomic [OF this] show ?thesis by (auto simp: e)
qed

theorem maker_checker_gate_witness:
  "\<exists>c db'. create sample_env (sample_request (Some ''X'') [20000, - 20000]) sample_books = (Inr c, db')
     \<and> map t_kind (transactions db') = [''pending'']
     \<and> approve_journal sample_env 2 (ct_id c) 7 db' = (Inl SelfApproval, db')"
proof -
  let ?new = "sample_request (Some ''X'') [20000, - 20000]"
  obtain c db' where c: "create sample_env ?new sample_books = (Inr c, db')"
    using create_succeeds [OF sample_valid(2) sample_fresh] by blast
  have led: "ledger_of sample_books (nt_ledger_id ?new) = Some (ledgers sample_books ! 0)"
    by (simp add: ledger_of_def sample_books_def sample_request_def)
  have thr: "l_threshold (ledgers sample_books ! 0) = Some 10000" by (simp add: sample_books_def)
  have eff: "effective_amounts sample_env sample_books ?new = Inr [20000, - 20000]"
    by (simp add: effective_amounts_def sample_request_def sample_line_def)
  have "transactions sample_books = []" by (simp add: sample_books_def empty_db_def)
  then have "approve_journal sample_env (nt_ledger_id ?new) (ct_id c) (nt_created_by ?new) db' = (Inl SelfApproval, db')
      \<and> map t_kind (transactions db') = [''pending'']"
    using maker_checker_gate [OF sample_books_wf(1) c led thr _ _ eff, of sample_env]
    by (auto simp: sample_request_def sample_books_def empty_db_def sum_debits_def)
  with c show ?thesis by (auto simp: sample_request_def)
qed

definition sample_txn :: "string \<Rightarrow> string \<Rightarrow> txn_row" where
  "sample_txn knd num =
     \<lparr>t_id = 30, t_ledger = 2, t_date = Date 2026 3 15, t_description = ''Rent'', t_payee = None,
      t_reference = None, t_currency = ''USD'', t_kind = knd, t_created_by = 7, t_created_at = 0,
      t_reverses = None, t_number = Some num\<rparr>"

definition sample_approval :: approval_row where
  "sample_approval = \<lparr>ja_txn = 30, ja_ledger = 2, ja_maker = 7, ja_checker = None, ja_status = ''pending'',
                      ja_amount = 20000\<rparr>"

text \<open>One pending journal of the year that carries the number the next automatic one would get.\<close>

definition sample_pending :: db where
  "sample_pending = sample_books\<lparr>transactions := [sample_txn ''pending'' ''2026-000002''],
                                 approvals := [sample_approval]\<rparr>"

lemma sample_pending_wf: "db_wf sample_pending"
  by (simp add: db_wf_def sample_pending_def sample_txn_def sample_books_def txn_kinds_def empty_db_def numbered_def)

theorem pending_needs_second_person_witness:
  "\<exists>l ch j. (Approve 2 30 8 = Approve l 30 ch \<or> Approve 2 30 8 = Reject l 30 ch)
     \<and> j \<in> set (approvals sample_pending) \<and> ja_maker j \<noteq> ch"
proof -
  have led: "append_only sample_pending 2 = False"
    by (simp add: append_only_def ledger_of_def sample_pending_def sample_books_def)
  have "transactions (service_step (\<lambda>_. sample_env) (0, Approve 2 30 8) sample_pending)
      = [sample_txn ''standard'' ''2026-000002'']"
    by (simp add: service_step_def approve_journal_def approve_body_def pending_approval_def run_tx_def
        update_kind_def led decide_def set_kind_def)
       (simp add: sample_pending_def sample_approval_def sample_txn_def update_kind_def led decide_def set_kind_def
        append_only_def ledger_of_def sample_books_def empty_db_def)
  then have "\<not> (\<exists>t'\<in>set (transactions (service_step (\<lambda>_. sample_env) (0, Approve 2 30 8) sample_pending)).
      t_id t' = t_id (sample_txn ''pending'' ''2026-000002'') \<and> t_kind t' = ''pending'')"
    by (simp add: sample_txn_def)
  from pending_needs_second_person [OF sample_pending_wf _ _ this]
  show ?thesis by (auto simp: sample_pending_def sample_txn_def)
qed

theorem auto_number_collision_witness:
  "fst (create sample_env (sample_request None [100, - 100]) sample_pending)
   \<noteq> Inr \<lparr>ct_id = 20, ct_kind = ''standard'', ct_number = Some ''2026-000002''\<rparr>"
proof (rule auto_number_collision)
  have "auto_number 2026 2 = ''2026-000002''" by code_simp
  then show "number_taken sample_pending (nt_ledger_id (sample_request None [100, - 100]))
      (date_year (nt_txn_date (sample_request None [100, - 100])))
      (auto_number (date_year (nt_txn_date (sample_request None [100, - 100])))
        (year_count sample_pending (nt_ledger_id (sample_request None [100, - 100]))
          (date_year (nt_txn_date (sample_request None [100, - 100]))) + 1))"
    by (simp add: number_taken_def year_count_def sample_pending_def sample_request_def sample_txn_def numeral_2_eq_2)
qed (simp add: sample_request_def)

lemma sample_approval_found:
  "find (\<lambda>j. ja_txn j = 30 \<and> ja_ledger j = 2) (approvals sample_pending) = Some sample_approval"
  by (simp add: sample_pending_def sample_approval_def)

lemma sample_ledger: "ledger_of sample_pending 2 = Some (ledgers sample_books ! 0)" "\<not> l_append_only (ledgers sample_books ! 0)"
  by (simp_all add: ledger_of_def sample_pending_def sample_books_def)

theorem reject_then_promote_witness:
  "\<exists>db'. fst (reject_journal sample_env 2 30 8 sample_pending) = Inr ()
     \<and> fst (post_draft sample_env 2 30 7 db') = Inr \<lparr>ct_id = 30, ct_kind = ''standard'', ct_number = None\<rparr>"
proof -
  let ?t = "sample_txn ''pending'' ''2026-000002''"
  have "\<exists>db'. fst (reject_journal sample_env 2 (t_id ?t) 8 sample_pending) = Inr ()
     \<and> db' = snd (reject_journal sample_env 2 (t_id ?t) 8 sample_pending)
     \<and> fst (post_draft sample_env 2 (t_id ?t) (ja_maker sample_approval) db')
       = Inr \<lparr>ct_id = t_id ?t, ct_kind = ''standard'', ct_number = None\<rparr>
     \<and> ?t\<lparr>t_kind := ''standard''\<rparr> \<in> set (transactions (snd (post_draft sample_env 2 (t_id ?t) (ja_maker sample_approval) db')))
     \<and> (\<forall>x\<in>set (approvals (snd (post_draft sample_env 2 (t_id ?t) (ja_maker sample_approval) db'))).
          ja_txn x = t_id ?t \<longrightarrow> ja_status x = ''rejected'')"
    by (rule reject_then_promote_bypasses_approval [OF _ _ _ _ _ _ sample_ledger])
       (simp_all add: sample_pending_def sample_txn_def sample_approval_def is_closed_def no_periods_open
          sample_books_def empty_db_def)
  then show ?thesis by (auto simp: sample_txn_def sample_approval_def)
qed

theorem approve_ignores_close_witness:
  "fst (approve_journal sample_env 2 30 8 (sample_pending\<lparr>closed_periods :=
     [\<lparr>cp_ledger = 2, cp_year = 2026, cp_by = 7, cp_through = Some (Date 2026 3 31)\<rparr>]\<rparr>)) = Inr ()"
proof -
  let ?t = "sample_txn ''pending'' ''2026-000002''"
  let ?db = "sample_pending\<lparr>closed_periods := [\<lparr>cp_ledger = 2, cp_year = 2026, cp_by = 7, cp_through = Some (Date 2026 3 31)\<rparr>]\<rparr>"
  have "fst (approve_journal sample_env 2 (t_id ?t) 8 ?db) = Inr ()
     \<and> ?t\<lparr>t_kind := ''standard''\<rparr> \<in> set (transactions (snd (approve_journal sample_env 2 (t_id ?t) 8 ?db)))
     \<and> is_closed (closed_through_for (snd (approve_journal sample_env 2 (t_id ?t) 8 ?db)) 2) (t_date ?t)"
  proof (rule approve_ignores_close [where led = "ledgers sample_books ! 0" and j = sample_approval])
    show "is_closed (closed_through_for ?db 2) (t_date ?t)"
      by (simp add: closed_through_for_def sql_max_def map_filter_simps is_closed_def sample_txn_def)
    show "ledger_of ?db 2 = Some (ledgers sample_books ! 0)" using sample_ledger(1) by (simp add: ledger_of_def)
  qed (use sample_approval_found sample_ledger(2) in \<open>simp_all add: sample_pending_def sample_txn_def sample_approval_def\<close>)
  then show ?thesis by (simp add: sample_txn_def)
qed

theorem zero_line_refused_witness:
  "fst (create sample_env (sample_request None [0, 0]) sample_books) \<noteq> Inr \<lparr>ct_id = 20, ct_kind = ''standard'', ct_number = None\<rparr>"
  by (rule zero_line_refused [where eff = "[0, 0]" and a = 0])
     (simp_all add: effective_amounts_def sample_request_def sample_line_def away.rnd_zero)

theorem rounding_breaks_balance_witness:
  "\<exists>c db'. create sample_env (sample_request (Some ''X'') [5 / 100000, 5 / 100000, - 1 / 10000]) sample_books = (Inr c, db')
     \<and> debit_sum (postings_of db' (ct_id c)) \<noteq> credit_sum (postings_of db' (ct_id c))"
proof -
  obtain c db' where c: "create sample_env (sample_request (Some ''X'') [5 / 100000, 5 / 100000, - 1 / 10000]) sample_books = (Inr c, db')"
    using create_succeeds [OF sample_valid(3) sample_fresh] by blast
  have "debit_sum (postings_of db' (ct_id c)) = 2 / 10000 \<and> credit_sum (postings_of db' (ct_id c)) = 1 / 10000"
    by (rule rounding_breaks_balance [OF sample_books_wf(1) c]) (simp_all add: sample_request_def sample_line_def)
  with c show ?thesis by auto
qed

theorem trigger_stays_off_witness:
  "balance_trigger sample_books \<and> \<not> balance_trigger (snd (create sample_env (sample_request (Some ''X'') [100, - 100]) sample_books))"
proof -
  obtain c db' where c: "create sample_env (sample_request (Some ''X'') [100, - 100]) sample_books = (Inr c, db')"
    using create_succeeds [OF sample_valid(1) sample_fresh] by blast
  from trigger_stays_off [OF c, of _ "[]"] c show ?thesis by (simp add: sample_books_def empty_db_def)
qed

theorem posted_event_has_no_amount_witness:
  "\<not> conditions_match (JObj [(''amount_gte'', JNum 100)])
     (posted_event \<lparr>ct_id = 30, ct_kind = ''standard'', ct_number = Some ''X''\<rparr>)"
  by (rule posted_event_has_no_amount [where k = "''amount_gte''" and v = "JNum 100"]) simp_all

theorem create_accepts_valid_witness:
  "\<exists>c db'. create sample_env (sample_request (Some ''X'') [100, - 100]) sample_books = (Inr c, db') \<and> ct_kind c = ''standard''"
  using create_accepts_valid [OF sample_valid(1) sample_fresh]
  by (auto simp: needs_approval_def sample_request_def sample_line_def sum_debits_def sample_books_def ledger_of_def)

end
