(* ===== verification/Fx_Revaluation.thy ===== *)
theory Fx_Revaluation
  imports Posting_Invariants
begin

text \<open>
  The month-end revaluation of foreign-currency accounts, the second half of
  \<^verbatim>\<open>src/src/domain/fx.rs\<close>.  It runs outside any transaction: each account is posted through the
  posting service on its own, so an error keeps what was posted before it.
\<close>

section \<open>The accounts to revalue\<close>

record revaluation_posted =
  rp_account_id :: uuid
  rp_currency :: string
  rp_fx_gain_loss :: decimal
  rp_transaction_id :: uuid

datatype revaluation_error =
    AlreadyRevalued string
  | RevalFx fx_error
  | RevalPosting posting_service_error
  | RevalDb db_error

text \<open>The postings of an account that carry a foreign amount, and their two signed sums.\<close>

definition foreign_postings :: "db \<Rightarrow> uuid \<Rightarrow> posting_row list" where
  "foreign_postings db a = filter (\<lambda>p. p_account p = a \<and> p_foreign_amount p \<noteq> None) (postings db)"

definition foreign_balance :: "posting_row list \<Rightarrow> decimal" where
  "foreign_balance ps =
     sum_list (map (\<lambda>p. case p_foreign_amount p of None \<Rightarrow> 0
                        | Some f \<Rightarrow> if is_debit p then f else - f) ps)"

definition signed_balance :: "posting_row list \<Rightarrow> decimal" where
  "signed_balance ps = sum_list (map (\<lambda>p. if is_debit p then p_amount p else - p_amount p) ps)"

definition reval_candidates :: "db \<Rightarrow> uuid \<Rightarrow> (uuid \<times> string \<times> decimal \<times> decimal) list" where
  "reval_candidates db ledger_id =
     (case ledger_of db ledger_id of
        None \<Rightarrow> []
      | Some led \<Rightarrow>
          map (\<lambda>a. (a_id a, a_currency a, foreign_balance (foreign_postings db (a_id a)),
                    signed_balance (foreign_postings db (a_id a))))
            (filter (\<lambda>a. a_ledger a = ledger_id \<and> (a_type a = ''ASSET'' \<or> a_type a = ''LIABILITY'')
                       \<and> a_currency a \<noteq> l_base_currency led \<and> \<not> a_archived a
                       \<and> foreign_postings db (a_id a) \<noteq> []
                       \<and> foreign_balance (foreign_postings db (a_id a)) \<noteq> 0) (accounts db)))"

definition revalued :: "db \<Rightarrow> uuid \<Rightarrow> uuid \<Rightarrow> date \<Rightarrow> bool" where
  "revalued db ledger_id account_id month =
     list_ex (\<lambda>f. fv_ledger f = ledger_id \<and> fv_account f = account_id \<and> fv_month f = month) (fx_revals db)"

definition base_currency_of :: "db \<Rightarrow> uuid \<Rightarrow> db_error + string" where
  "base_currency_of db ledger_id =
     ok_or RowNotFound (map_option l_base_currency (ledger_of db ledger_id))"

section \<open>The profit and loss accounts\<close>

text \<open>\<^verbatim>\<open>MAX(NULLIF(code, '')::BIGINT)\<close> over the codes that are all digits.\<close>

definition max_code :: "db \<Rightarrow> uuid \<Rightarrow> db_error + int option" where
  "max_code db ledger_id =
     (let cs = List.map_filter (\<lambda>a. case a_code a of None \<Rightarrow> None
                 | Some c \<Rightarrow> if a_ledger a = ledger_id \<and> c \<noteq> [] \<and> list_all is_digit c
                            then Some (int (digits_val c)) else None) (accounts db)
      in if list_ex (\<lambda>c. 2 ^ 63 \<le> c) cs then Inl NumericOverflow else Inr (sql_max cs))"

definition ensure_one :: "env \<Rightarrow> uuid \<Rightarrow> string \<Rightarrow> string \<Rightarrow> string \<Rightarrow> db \<Rightarrow> (db_error + uuid) \<times> db" where
  "ensure_one E ledger_id nm acc_type subtype db =
     (case find (\<lambda>a. a_ledger a = ledger_id \<and> a_name a = nm) (accounts db) of
        Some a \<Rightarrow> (Inr (a_id a), db)
      | None \<Rightarrow>
          (case max_code db ledger_id of
             Inl e \<Rightarrow> (Inl e, db)
           | Inr m \<Rightarrow>
               run_tx (insert_account E
                 \<lparr>a_id = 0, a_ledger = ledger_id, a_name = nm,
                  a_code = map_option (\<lambda>c. show_int (i64_wrap (c + 1))) m, a_type = acc_type, a_subtype = subtype,
                  a_currency = (case ledger_of db ledger_id of Some l \<Rightarrow> l_base_currency l | None \<Rightarrow> []),
                  a_archived = False\<rparr>) db))"

definition ensure_fx_accounts :: "env \<Rightarrow> uuid \<Rightarrow> db \<Rightarrow> (db_error + uuid \<times> uuid) \<times> db" where
  "ensure_fx_accounts E ledger_id db =
     (case ensure_one E ledger_id ''FX Unrealized Gain/Loss'' ''INCOME'' ''OPERATING_INCOME'' db of
        (Inl e, db1) \<Rightarrow> (Inl e, db1)
      | (Inr gain, db1) \<Rightarrow>
          (case ensure_one E ledger_id ''FX Unrealized Loss'' ''EXPENSE'' ''OPERATING_EXPENSE'' db1 of
             (Inl e, db2) \<Rightarrow> (Inl e, db2)
           | (Inr loss, db2) \<Rightarrow> (Inr (gain, loss), db2)))"

section \<open>Posting the differences\<close>

definition reval_request :: "uuid \<Rightarrow> date \<Rightarrow> uuid \<Rightarrow> string \<Rightarrow> string \<Rightarrow> uuid \<Rightarrow> uuid \<Rightarrow> decimal \<Rightarrow> new_transaction" where
  "reval_request ledger_id d actor month_label currency debit_account credit_account amount =
     (let line = (\<lambda>acc x. \<lparr>n_account_id = acc, n_signed_amount = x, n_memo = Some (''FX revaluation '' @ currency),
                           n_tax_rate_id = None, n_foreign = None, n_cost_center_id = None, n_project_id = None\<rparr>)
      in \<lparr>nt_ledger_id = ledger_id, nt_txn_date = d,
          nt_description = ''FX revaluation '' @ month_label @ '' ('' @ currency @ '')'',
          nt_payee = None, nt_reference = None, nt_kind = None, nt_created_by = actor,
          nt_lines = [line debit_account amount, line credit_account (- amount)],
          nt_reverses_id = None, nt_number = None, nt_tax_links = []\<rparr>)"

definition insert_revaluation :: "fx_reval_row \<Rightarrow> db \<Rightarrow> db_error + db" where
  "insert_revaluation r db =
     (case numeric_col 20 4 (fv_gain r) of
        None \<Rightarrow> Inl NumericOverflow
      | Some v \<Rightarrow>
          if revalued db (fv_ledger r) (fv_account r) (fv_month r)
            then Inl (UniqueViolation ''fx_revaluations_ledger_id_account_id_period_month_key'')
          else if ledger_of db (fv_ledger r) = None
            then Inl (ForeignKeyViolation ''fx_revaluations_ledger_id_fkey'')
          else if \<not> list_ex (\<lambda>a. a_id a = fv_account r) (accounts db)
            then Inl (ForeignKeyViolation ''fx_revaluations_account_id_fkey'')
          else if txn_of db (fv_txn r) = None
            then Inl (ForeignKeyViolation ''fx_revaluations_transaction_id_fkey'')
          else Inr (db\<lparr>fx_revals := fx_revals db @ [r\<lparr>fv_gain := v\<rparr>]\<rparr>))"

fun revalue_accounts ::
  "env \<Rightarrow> uuid \<Rightarrow> date \<Rightarrow> uuid \<Rightarrow> date \<Rightarrow> string \<Rightarrow> (uuid \<times> string \<times> decimal \<times> decimal) list \<Rightarrow> db
   \<Rightarrow> (revaluation_error + revaluation_posted list) \<times> db" where
  "revalue_accounts E ledger_id d actor period_month month_label [] db = (Inr [], db)"
| "revalue_accounts E ledger_id d actor period_month month_label ((account_id, currency, fbal, book_value) # rest) db =
     (case rbind (map_err RevalDb (base_currency_of db ledger_id)) (\<lambda>base.
           map_err RevalFx (lookup E db currency base d)) of
        Inl e \<Rightarrow> (Inl e, db)
      | Inr rate \<Rightarrow>
          (let diff = derive_base_amount E fbal rate - book_value in
           if diff = 0 then revalue_accounts E ledger_id d actor period_month month_label rest db
           else (case ensure_fx_accounts E ledger_id db of
                   (Inl e, db1) \<Rightarrow> (Inl (RevalDb e), db1)
                 | (Inr (gain_account, loss_account), db1) \<Rightarrow>
                     (let (debit_account, credit_account) =
                            (if 0 < diff then (account_id, gain_account) else (loss_account, account_id))
                      in case create E (reval_request ledger_id d actor month_label currency debit_account
                                          credit_account \<bar>diff\<bar>) db1 of
                           (Inl e, db2) \<Rightarrow> (Inl (RevalPosting e), db2)
                         | (Inr created, db2) \<Rightarrow>
                             (case insert_revaluation \<lparr>fv_ledger = ledger_id, fv_account = account_id,
                                      fv_month = period_month, fv_txn = ct_id created, fv_gain = diff, fv_by = actor\<rparr> db2 of
                                Inl e \<Rightarrow> (Inl (RevalDb e), db2)
                              | Inr db3 \<Rightarrow>
                                  (case revalue_accounts E ledger_id d actor period_month month_label rest db3 of
                                     (Inl e, db4) \<Rightarrow> (Inl e, db4)
                                   | (Inr posted, db4) \<Rightarrow>
                                       (Inr (\<lparr>rp_account_id = account_id, rp_currency = currency,
                                              rp_fx_gain_loss = diff, rp_transaction_id = ct_id created\<rparr> # posted), db4)))))))"

definition month_label :: "date \<Rightarrow> string" where
  "month_label d = show_int_pad 4 (date_year d) @ ''-'' @ show_int_pad 2 (int (date_month d))"

definition run_revaluation ::
  "env \<Rightarrow> uuid \<Rightarrow> date \<Rightarrow> uuid \<Rightarrow> db \<Rightarrow> (revaluation_error + revaluation_posted list) \<times> db" where
  "run_revaluation E ledger_id d actor db =
     (let period_month = Date (date_year d) (date_month d) 1;
          pending = filter (\<lambda>c. \<not> revalued db ledger_id (fst c) period_month) (reval_candidates db ledger_id)
      in if pending = [] then (Inl (AlreadyRevalued (month_label period_month)), db)
         else revalue_accounts E ledger_id d actor period_month (month_label period_month) pending db)"

section \<open>What revaluation leaves alone\<close>

lemma line_stored_foreign:
  "list_all2 (line_stored t) las ps \<Longrightarrow> \<forall>la\<in>set las. n_foreign (fst la) = None \<Longrightarrow> p \<in> set ps \<Longrightarrow> p_foreign_amount p = None"
  by (induction las ps rule: list_all2_induct) (auto simp: line_stored_def)

lemma create_no_foreign:
  assumes "\<forall>l\<in>set (nt_lines new). n_foreign l = None"
  shows "\<exists>ps. postings (snd (create E new db)) = postings db @ ps \<and> (\<forall>p\<in>set ps. p_foreign_amount p = None)
     \<and> accounts (snd (create E new db)) = accounts db \<and> ledgers (snd (create E new db)) = ledgers db"
proof (rule create_with_kind_state [of E new False db])
  fix eff c db1 as
  assume b: "create_body E new False eff db = Inr (c, db1)"
    and books: "books (snd (create_with_kind E new False db)) = books (db1\<lparr>approvals := as\<rparr>)"
  from b obtain ps where ps: "list_all2 (line_stored (ct_id c)) (zip (nt_lines new) eff) ps"
      "postings db1 = postings db @ ps" "accounts db1 = accounts db" "ledgers db1 = ledgers db"
    by (rule create_body_Inr) auto
  have "\<forall>la\<in>set (zip (nt_lines new) eff). n_foreign (fst la) = None"
    using assms by (auto dest: set_zip_leftD)
  with line_stored_foreign [OF ps(1)] ps(2-4) books_eqD(3,4,6) [OF books] show ?thesis by (simp add: create_def)
qed (simp add: create_def)

text \<open>
  The states that a revaluation passes through: more income and expense accounts, more postings without
  a foreign amount, the same ledgers.
\<close>

definition reval_extends :: "db \<Rightarrow> db \<Rightarrow> bool" where
  "reval_extends db db' \<longleftrightarrow>
     (\<exists>ps as. postings db' = postings db @ ps \<and> (\<forall>p\<in>set ps. p_foreign_amount p = None)
        \<and> accounts db' = accounts db @ as \<and> (\<forall>a\<in>set as. a_type a = ''INCOME'' \<or> a_type a = ''EXPENSE'')
        \<and> ledgers db' = ledgers db)"

lemma reval_extends_refl: "reval_extends db db"
  by (simp add: reval_extends_def)

lemma reval_extends_trans:
  assumes "reval_extends db db'" and "reval_extends db' db''"
  shows "reval_extends db db''"
proof -
  from assms(1) obtain ps as where 1: "postings db' = postings db @ ps" "\<forall>p\<in>set ps. p_foreign_amount p = None"
    "accounts db' = accounts db @ as" "\<forall>a\<in>set as. a_type a = ''INCOME'' \<or> a_type a = ''EXPENSE''" "ledgers db' = ledgers db"
    by (auto simp: reval_extends_def)
  from assms(2) obtain qs bs where 2: "postings db'' = postings db' @ qs" "\<forall>p\<in>set qs. p_foreign_amount p = None"
    "accounts db'' = accounts db' @ bs" "\<forall>a\<in>set bs. a_type a = ''INCOME'' \<or> a_type a = ''EXPENSE''" "ledgers db'' = ledgers db'"
    by (auto simp: reval_extends_def)
  show ?thesis
    unfolding reval_extends_def by (rule exI [of _ "ps @ qs"], rule exI [of _ "as @ bs"]) (use 1 2 in auto)
qed

lemma ensure_one_extends:
  assumes "ty = ''INCOME'' \<or> ty = ''EXPENSE''"
  shows "reval_extends db (snd (ensure_one E l nm ty st db))"
  using assms
  by (auto simp: ensure_one_def run_tx_def insert_account_def draw_def Let_def reval_extends_def
      split: option.split sum.split)

lemma ensure_fx_accounts_extends: "reval_extends db (snd (ensure_fx_accounts E l db))"
proof -
  obtain r db1 where 1: "ensure_one E l ''FX Unrealized Gain/Loss'' ''INCOME'' ''OPERATING_INCOME'' db = (r, db1)"
    by (cases "ensure_one E l ''FX Unrealized Gain/Loss'' ''INCOME'' ''OPERATING_INCOME'' db")
  obtain q db2 where 2: "ensure_one E l ''FX Unrealized Loss'' ''EXPENSE'' ''OPERATING_EXPENSE'' db1 = (q, db2)"
    by (cases "ensure_one E l ''FX Unrealized Loss'' ''EXPENSE'' ''OPERATING_EXPENSE'' db1")
  have "reval_extends db db1" "reval_extends db1 db2"
    using ensure_one_extends [of "''INCOME''" db E l "''FX Unrealized Gain/Loss''" "''OPERATING_INCOME''"]
      ensure_one_extends [of "''EXPENSE''" db1 E l "''FX Unrealized Loss''" "''OPERATING_EXPENSE''"] 1 2 by simp_all
  then show ?thesis using 1 2 reval_extends_trans by (cases r; cases q) (auto simp: ensure_fx_accounts_def)
qed

lemma create_extends:
  "reval_extends db (snd (create E (reval_request l d a ml cur da ca x) db))"
  using create_no_foreign [of "reval_request l d a ml cur da ca x" E db]
  by (force simp: reval_extends_def reval_request_def Let_def)

lemma insert_revaluation_extends: "insert_revaluation r db = Inr db' \<Longrightarrow> reval_extends db db'"
  by (auto simp: insert_revaluation_def reval_extends_def split: option.splits if_splits)

lemma revalue_accounts_extends:
  "reval_extends db (snd (revalue_accounts E l d actor pm ml cs db))"
proof (induction cs arbitrary: db)
  case Nil
  then show ?case by (simp add: reval_extends_refl)
next
  case (Cons c cs)
  obtain acc cur fb bv where c: "c = (acc, cur, fb, bv)" by (cases c)
  show ?case
  proof (cases "rbind (map_err RevalDb (base_currency_of db l)) (\<lambda>base. map_err RevalFx (lookup E db cur base d))")
    case (Inl e)
    then show ?thesis by (simp add: c reval_extends_refl)
  next
    case (Inr rate)
    let ?diff = "derive_base_amount E fb rate - bv"
    obtain q db1 where q: "ensure_fx_accounts E l db = (q, db1)" by (cases "ensure_fx_accounts E l db")
    have e1: "reval_extends db db1" using ensure_fx_accounts_extends [of db E l] q by simp
    show ?thesis
    proof (cases q)
      case (Inl e)
      with Inr q e1 Cons.IH show ?thesis by (simp add: c Let_def)
    next
      case (Inr gl)
      obtain gain loss where gl: "gl = (gain, loss)" by (cases gl)
      define req where "req = reval_request l d actor ml cur (if 0 < ?diff then acc else loss)
          (if 0 < ?diff then gain else acc) \<bar>?diff\<bar>"
      obtain r db2 where r: "create E req db1 = (r, db2)" by (cases "create E req db1")
      have e2: "reval_extends db db2"
        using reval_extends_trans [OF e1] create_extends [of db1 E l d actor ml cur _ _ "\<bar>?diff\<bar>"] r
        by (metis req_def snd_conv)
      have step: "snd (revalue_accounts E l d actor pm ml (c # cs) db) =
          (if ?diff = 0 then snd (revalue_accounts E l d actor pm ml cs db)
           else case r of Inl e \<Rightarrow> db2
                | Inr created \<Rightarrow> (case insert_revaluation \<lparr>fv_ledger = l, fv_account = acc, fv_month = pm,
                      fv_txn = ct_id created, fv_gain = ?diff, fv_by = actor\<rparr> db2 of
                    Inl e \<Rightarrow> db2 | Inr db3 \<Rightarrow> snd (revalue_accounts E l d actor pm ml cs db3)))"
        using \<open>rbind _ _ = Inr rate\<close> q Inr gl r
        by (auto simp: c Let_def req_def split: sum.splits prod.splits)
      show ?thesis
        unfolding step using e2 Cons.IH insert_revaluation_extends reval_extends_trans
        by (auto split: sum.split) blast
    qed
  qed
qed

lemma foreign_postings_extends:
  assumes "reval_extends db db'"
  shows "foreign_postings db' a = foreign_postings db a"
  using assms by (auto simp: reval_extends_def foreign_postings_def filter_empty_conv)

lemma reval_candidates_extends:
  assumes "reval_extends db db'"
  shows "reval_candidates db' l = reval_candidates db l"
proof -
  from assms obtain as where as: "accounts db' = accounts db @ as" "ledgers db' = ledgers db"
    "\<forall>a\<in>set as. a_type a = ''INCOME'' \<or> a_type a = ''EXPENSE''"
    by (auto simp: reval_extends_def)
  show ?thesis
    unfolding reval_candidates_def ledger_of_def foreign_postings_extends [OF assms] as
    using as(3) by (auto simp: filter_empty_conv split: option.split)
qed

section \<open>What it posts\<close>

definition account_postings :: "db \<Rightarrow> uuid \<Rightarrow> posting_row list" where
  "account_postings db a = filter (\<lambda>p. p_account p = a) (postings db)"

text \<open>A two-line request with an amount of at most four decimals is stored as it is.\<close>

lemma reval_request_stored:
  assumes wf: "db_wf db" and c: "create E (reval_request l d actor ml cur da ca x) db = (Inr c, db')"
    and x: "0 < x" "on_grid 4 x"
  obtains p q where "postings db' = postings db @ [p, q]" and "p_account p = da" and "p_account q = ca"
    and "is_debit p" and "\<not> is_debit q" and "p_amount p = x" and "p_amount q = x"
proof -
  let ?new = "reval_request l d actor ml cur da ca x"
  from create_stores_request_rows [OF wf c] obtain eff where
    e: "effective_amounts E db ?new = Inr eff" and
    ps: "list_all2 (line_stored (ct_id c)) (zip (nt_lines ?new) eff) (postings_of db' (ct_id c))" and
    db': "postings db' = postings db @ postings_of db' (ct_id c)" by blast
  have "eff = [x, - x]" using e by (simp add: effective_amounts_def reval_request_def Let_def)
  with ps obtain p q where pq: "postings_of db' (ct_id c) = [p, q]"
    and p: "line_stored (ct_id c) (nt_lines ?new ! 0, x) p" and q: "line_stored (ct_id c) (nt_lines ?new ! 1, - x) q"
    by (auto simp: reval_request_def Let_def list_all2_Cons1)
  show thesis
    by (rule that [of p q])
       (use db' pq p q x in \<open>simp_all add: line_stored_def is_debit_def reval_request_def Let_def away.rnd_exact\<close>)
qed

lemma ensure_one_Inr:
  assumes "db_wf db" and "ensure_one E l nm ty st db = (Inr g, db1)"
  shows "db_wf db1 \<and> postings db1 = postings db \<and> set (accounts db) \<subseteq> set (accounts db1)
     \<and> (\<exists>x\<in>set (accounts db1). a_id x = g \<and> a_name x = nm)"
proof (cases "find (\<lambda>a. a_ledger a = l \<and> a_name a = nm) (accounts db)")
  case (Some a)
  with assms find_Some_mem [OF Some] show ?thesis by (auto simp: ensure_one_def)
next
  case None
  then obtain m where "max_code db l = Inr m" using assms(2) by (auto simp: ensure_one_def split: sum.splits)
  with None assms obtain r where r: "insert_account E r db = Inr (g, db1)" "a_name r = nm"
    by (auto simp: ensure_one_def result_simps)
  have "db_wf db1" using assms(1) r(1) by (rule db_wf_insert_account)
  then show ?thesis using r by (auto simp: insert_account_Inr)
qed

lemma ensure_fx_accounts_Inr:
  assumes "db_wf db" and "ensure_fx_accounts E l db = (Inr (gain, loss), db2)"
  shows "db_wf db2 \<and> postings db2 = postings db \<and> set (accounts db) \<subseteq> set (accounts db2)
     \<and> (\<exists>x\<in>set (accounts db2). a_id x = gain \<and> a_name x = ''FX Unrealized Gain/Loss'')
     \<and> (\<exists>x\<in>set (accounts db2). a_id x = loss \<and> a_name x = ''FX Unrealized Loss'')"
proof -
  from assms(2) obtain db1 where
    1: "ensure_one E l ''FX Unrealized Gain/Loss'' ''INCOME'' ''OPERATING_INCOME'' db = (Inr gain, db1)" and
    2: "ensure_one E l ''FX Unrealized Loss'' ''EXPENSE'' ''OPERATING_EXPENSE'' db1 = (Inr loss, db2)"
    by (auto simp: ensure_fx_accounts_def split: prod.splits sum.splits)
  note a = ensure_one_Inr [OF assms(1) 1]
  note b = ensure_one_Inr [OF a [THEN conjunct1] 2]
  from a b show ?thesis by auto
qed

lemma account_id_name:
  assumes "db_wf db" and "x \<in> set (accounts db)" and "y \<in> set (accounts db)" and "a_id x = a_id y"
  shows "x = y"
  using assms by (auto simp: db_wf_def distinct_map inj_on_def)

text \<open>Revaluing one account moves its balance by exactly the difference.\<close>

lemma revalue_one:
  assumes wf: "db_wf db" and run: "revalue_accounts E l d actor pm ml [(a, cur, fb, bv)] db = (Inr rs, db')"
    and rate: "base_currency_of db l = Inr base" "lookup E db cur base d = Inr rate"
    and grid: "on_grid 4 (derive_base_amount E fb rate - bv)"
    and acc: "x \<in> set (accounts db)" "a_id x = a" "a_name x \<notin> {''FX Unrealized Gain/Loss'', ''FX Unrealized Loss''}"
  shows "signed_balance (account_postings db' a)
       = signed_balance (account_postings db a) + (derive_base_amount E fb rate - bv)"
proof (cases "derive_base_amount E fb rate - bv = 0")
  case True
  with run rate show ?thesis by (simp add: Let_def)
next
  case False
  let ?diff = "derive_base_amount E fb rate - bv"
  from run rate False obtain gain loss db1 where g: "ensure_fx_accounts E l db = (Inr (gain, loss), db1)"
    by (auto simp: Let_def split: prod.splits sum.splits)
  define da ca where "da = (if 0 < ?diff then a else loss)" and "ca = (if 0 < ?diff then gain else a)"
  from run rate False g obtain c db2 where
    c: "create E (reval_request l d actor ml cur da ca \<bar>?diff\<bar>) db1 = (Inr c, db2)"
    by (auto simp: Let_def da_def ca_def split: prod.splits sum.splits if_splits)
  from run rate False g c have p2: "postings db' = postings db2"
    by (auto simp: Let_def da_def ca_def insert_revaluation_def split: prod.splits sum.splits if_splits option.splits)
  note e = ensure_fx_accounts_Inr [OF wf g]
  have ne: "gain \<noteq> a" "loss \<noteq> a"
    using e account_id_name [of db1 x] acc by blast+
  obtain p q where pq: "postings db2 = postings db1 @ [p, q]" "p_account p = da" "p_account q = ca"
      "is_debit p" "\<not> is_debit q" "p_amount p = \<bar>?diff\<bar>" "p_amount q = \<bar>?diff\<bar>"
    by (rule reval_request_stored [OF _ c]) (use e False grid in auto)
  then show ?thesis
    using ne e by (auto simp: account_postings_def p2 signed_balance_def da_def ca_def)
qed

section \<open>Properties\<close>

text \<open>
  Revaluations pile up.  A run of the revaluation, whatever its outcome, changes neither the
  candidate accounts nor the book values the next run will start from: the entries it posts carry no
  foreign amount and are not counted.  Each month therefore posts the whole difference to the original
  book value again instead of the change since the last revaluation.
\<close>

theorem revaluation_forgets_itself:
  "reval_candidates (snd (run_revaluation E l d actor db)) l = reval_candidates db l"
  unfolding run_revaluation_def Let_def
  using reval_candidates_extends [OF revalue_accounts_extends] by simp

text \<open>
  C18: A revaluation brings an account to its market value.  For an account all of whose postings carry a
  foreign amount and that is the only one pending, a successful run leaves it with a base balance equal
  to its foreign balance at the rate of the day, rounded to cents.
\<close>

theorem revaluation_reaches_market_value:
  assumes "db_wf db" and "round_away E = round_half_away"
    and "filter (\<lambda>c. \<not> revalued db l (fst c) (Date (date_year d) (date_month d) 1)) (reval_candidates db l) = [(a, cur, fb, bv)]"
    and "run_revaluation E l d actor db = (Inr rs, db')"
    and "base_currency_of db l = Inr base" and "lookup E db cur base d = Inr rate"
    and "x \<in> set (accounts db)" and "a_id x = a" and "a_name x \<notin> {''FX Unrealized Gain/Loss'', ''FX Unrealized Loss''}"
    and "\<forall>p\<in>set (account_postings db a). p_foreign_amount p \<noteq> None"
  shows "signed_balance (account_postings db' a) = round_half_away 2 (fb * rate)"
proof -
  have "(a, cur, fb, bv) \<in> set (reval_candidates db l)"
    using arg_cong [OF assms(3), of set] by auto
  then have bv: "bv = signed_balance (foreign_postings db a)"
    by (auto simp: reval_candidates_def split: option.splits)
  have same: "foreign_postings db a = account_postings db a"
    using assms(10) by (auto simp: foreign_postings_def account_postings_def intro!: filter_cong)
  have "list_all (on_grid 4) (map (\<lambda>p. if is_debit p then p_amount p else - p_amount p) (account_postings db a))"
    using assms(1) by (auto simp: account_postings_def db_wf_def list_all_iff posting_wf_def)
  then have "on_grid 4 bv" unfolding bv same signed_balance_def by (rule on_grid_sum_list)
  moreover have "on_grid 4 (derive_base_amount E fb rate)"
    using away.rnd_grid [of 2 "fb * rate"] assms(2)
    by (intro on_grid_mono) (simp add: derive_base_amount_def BASE_EXPONENT_def)
  ultimately have "on_grid 4 (derive_base_amount E fb rate - bv)"
    using on_grid_add [of 4 "derive_base_amount E fb rate" "- bv"] by simp
  moreover have "revalue_accounts E l d actor (Date (date_year d) (date_month d) 1)
      (month_label (Date (date_year d) (date_month d) 1)) [(a, cur, fb, bv)] db = (Inr rs, db')"
    using assms(3,4) by (simp add: run_revaluation_def Let_def)
  ultimately have "signed_balance (account_postings db' a)
      = signed_balance (account_postings db a) + (derive_base_amount E fb rate - bv)"
    by (intro revalue_one [OF assms(1) _ assms(5,6) _ assms(7-9)])
  then show ?thesis by (simp add: bv same derive_base_amount_def BASE_EXPONENT_def assms(2))
qed

text \<open>
  Once every candidate has a revaluation for the month, another run is refused without effect.
\<close>

theorem revaluation_once_per_month:
  assumes "\<forall>c\<in>set (reval_candidates db l). revalued db l (fst c) (Date (date_year d) (date_month d) 1)"
  shows "run_revaluation E l d actor db = (Inl (AlreadyRevalued (month_label (Date (date_year d) (date_month d) 1))), db)"
  using assms by (simp add: run_revaluation_def Let_def filter_empty_conv)

section \<open>Witnesses\<close>

text \<open>A bank account in euros with one posting of 100 EUR booked at 110 USD; the rate is now 1.20.\<close>

definition sample_fx_books :: db where
  "sample_fx_books = sample_books\<lparr>
     accounts := accounts sample_books @
       [\<lparr>a_id = 12, a_ledger = 2, a_name = ''Bank EUR'', a_code = None, a_type = ''ASSET'',
         a_subtype = ''CURRENT_ASSET'', a_currency = ''EUR'', a_archived = False\<rparr>],
     transactions := [sample_txn ''standard'' ''N1''],
     postings := [\<lparr>p_id = 40, p_txn = 30, p_account = 12, p_amount = 110, p_direction = ''DEBIT'', p_memo = None,
                   p_foreign_amount = Some 100, p_foreign_currency = Some ''EUR'', p_cost_center = None, p_project = None\<rparr>],
     fx_rates := [\<lparr>fx_base = ''EUR'', fx_quote = ''USD'', fx_rate = 12 / 10, fx_date = Date 2026 3 31, fx_source = ''ecb''\<rparr>],
     drawn := 30\<rparr>"

lemma sample_fx_wf: "db_wf sample_fx_books"
  by (auto simp: db_wf_def sample_fx_books_def sample_books_def empty_db_def sample_txn_def txn_kinds_def
      numbered_def posting_wf_def is_debit_def on_grid_def)

lemma sample_fx_candidates: "reval_candidates sample_fx_books 2 = [(12, ''EUR'', 100, 110)]"
  by code_simp

lemma sample_fx_runs: "\<not> isl (fst (run_revaluation sample_env 2 (Date 2026 3 31) 7 sample_fx_books))"
  by code_simp

theorem revaluation_market_witness:
  "signed_balance (account_postings (snd (run_revaluation sample_env 2 (Date 2026 3 31) 7 sample_fx_books)) 12)
   = round_half_away 2 (100 * (12 / 10))"
proof -
  obtain rs db' where r: "run_revaluation sample_env 2 (Date 2026 3 31) 7 sample_fx_books = (Inr rs, db')"
    using sample_fx_runs
    by (cases "run_revaluation sample_env 2 (Date 2026 3 31) 7 sample_fx_books"; cases "fst (run_revaluation sample_env 2 (Date 2026 3 31) 7 sample_fx_books)") auto
  have "signed_balance (account_postings db' 12) = round_half_away 2 (100 * (12 / 10))"
  proof (rule revaluation_reaches_market_value [OF sample_fx_wf _ _ r, where cur = "''EUR''" and bv = 110 and base = "''USD''"
        and x = "accounts sample_fx_books ! 1"])
    show "filter (\<lambda>c. \<not> revalued sample_fx_books 2 (fst c) (Date (date_year (Date 2026 3 31)) (date_month (Date 2026 3 31)) 1))
        (reval_candidates sample_fx_books 2) = [(12, ''EUR'', 100, 110)]"
      unfolding sample_fx_candidates by (simp add: revalued_def sample_fx_books_def sample_books_def empty_db_def)
    show "lookup sample_env sample_fx_books ''EUR'' ''USD'' (Date 2026 3 31) = Inr (12 / 10)"
      by (simp add: lookup_def pair_rows_def sample_fx_books_def)
    show "base_currency_of sample_fx_books 2 = Inr ''USD''"
      by (simp add: base_currency_of_def ledger_of_def sample_fx_books_def sample_books_def)
  qed (simp_all add: sample_env_def sample_fx_books_def sample_books_def account_postings_def)
  then show ?thesis by (simp add: r)
qed

theorem revaluation_once_witness:
  "run_revaluation sample_env 2 (Date 2026 3 31) 7 sample_books
   = (Inl (AlreadyRevalued (month_label (Date 2026 3 1))), sample_books)"
proof -
  have "reval_candidates sample_books 2 = []"
    by code_simp
  then show ?thesis using revaluation_once_per_month [of sample_books 2 "Date 2026 3 31" sample_env 7] by simp
qed

end
