(* ===== verification/Inventory_Valuation.thy ===== *)
theory Inventory_Valuation
  imports Db_Schema
begin

text \<open>
  Stock valuation, \<^verbatim>\<open>src/src/domain/inventory_valuation.rs\<close>.  Quantities are \<^verbatim>\<open>i32\<close>: the model writes the
  wrap-around out and the theorems name the bound under which it does not happen.  The locale \<open>stock\<close>
  is what both methods promise about quantities, \<open>priced_stock\<close> what they promise about values; FIFO
  and weighted average interpret both.  FIFO also refines a queue of single units.
\<close>

section \<open>The two methods\<close>

datatype valuation_method = Fifo | Average

fun method_str :: "valuation_method \<Rightarrow> string" where
  "method_str Fifo = ''fifo''"
| "method_str Average = ''average''"

definition parse_method :: "string \<Rightarrow> valuation_method option" where
  "parse_method s = (if s = ''fifo'' then Some Fifo else if s = ''average'' then Some Average else None)"

interpretation method_codec: str_codec method_str parse_method
proof
  show "parse_method (method_str x) = Some x" for x by (cases x) (simp_all add: parse_method_def)
  show "parse_method s = Some x \<Longrightarrow> method_str x = s" for s x by (auto simp: parse_method_def split: if_splits)
qed

record movement =
  mv_qty :: int
  mv_unit_cost :: decimal

text \<open>FIFO keeps layers of remaining quantity and unit cost, oldest first.\<close>

type_synonym layer = "int \<times> decimal"

definition layers_qty :: "layer list \<Rightarrow> int" where
  "layers_qty layers = foldl (\<lambda>s l. i32_wrap (s + fst l)) 0 layers"

definition layers_value :: "layer list \<Rightarrow> decimal" where
  "layers_value layers = sum_list (map (\<lambda>l. of_int (fst l) * snd l) layers)"

fun consume :: "int \<Rightarrow> layer list \<Rightarrow> layer list" where
  "consume need [] = []"
| "consume need ((q, c) # layers) =
     (if need = 0 then (q, c) # layers
      else let tk = min q need in (i32_wrap (q - tk), c) # consume (i32_wrap (need - tk)) layers)"

definition fifo_step :: "layer list \<Rightarrow> movement \<Rightarrow> string + layer list" where
  "fifo_step layers m =
     (if 0 \<le> mv_qty m then Inr (layers @ [(mv_qty m, mv_unit_cost m)])
      else let need = i32_wrap (- mv_qty m); on_hand = layers_qty layers in
        if on_hand < need
        then Inl (''FIFO sale of '' @ show_int (i32_wrap (- mv_qty m)) @ '' exceeds on-hand '' @ show_int on_hand)
        else Inr (filter (\<lambda>l. 0 < fst l) (consume need layers)))"

definition valuate_fifo :: "movement list \<Rightarrow> string + int \<times> decimal" where
  "valuate_fifo movements =
     rbind (try_fold fifo_step [] movements) (\<lambda>layers. Inr (layers_qty layers, layers_value layers))"

definition average_step :: "env \<Rightarrow> int \<times> decimal \<Rightarrow> movement \<Rightarrow> string + int \<times> decimal" where
  "average_step E s m =
     (let (qty, val) = s in
      if 0 \<le> mv_qty m then Inr (i32_wrap (qty + mv_qty m), val + of_int (mv_qty m) * mv_unit_cost m)
      else let need = i32_wrap (- mv_qty m) in
        if qty < need
        then Inl (''average sale of '' @ show_int (i32_wrap (- mv_qty m)) @ '' exceeds on-hand '' @ show_int qty)
        else let avg = (if 0 < qty then dec_div E val (of_int qty) else 0);
                 qty' = i32_wrap (qty - need)
             in Inr (qty', if qty' = 0 then 0 else val - of_int need * avg))"

definition valuate_average :: "env \<Rightarrow> movement list \<Rightarrow> string + int \<times> decimal" where
  "valuate_average E movements = try_fold (average_step E) (0, 0) movements"

fun valuate :: "env \<Rightarrow> valuation_method \<Rightarrow> movement list \<Rightarrow> string + int \<times> decimal" where
  "valuate E Fifo movements = valuate_fifo movements"
| "valuate E Average movements = valuate_average E movements"

section \<open>What every method promises\<close>

definition i32_max :: int where
  "i32_max = 2 ^ 31 - 1"

definition bought :: "movement list \<Rightarrow> int" where
  "bought ms = sum_list (map (\<lambda>m. max 0 (mv_qty m)) ms)"

definition sold :: "movement list \<Rightarrow> int" where
  "sold ms = sum_list (map (\<lambda>m. max 0 (- mv_qty m)) ms)"

text \<open>No movement is larger than an \<^verbatim>\<open>i32\<close> and all purchases together fit one.\<close>

definition in_range :: "movement list \<Rightarrow> bool" where
  "in_range ms \<longleftrightarrow> list_all (\<lambda>m. - i32_max \<le> mv_qty m) ms \<and> bought ms \<le> i32_max"

text \<open>No sale exceeds the stock it meets.\<close>

fun covered :: "int \<Rightarrow> movement list \<Rightarrow> bool" where
  "covered q [] \<longleftrightarrow> True"
| "covered q (m # ms) \<longleftrightarrow> 0 \<le> q + mv_qty m \<and> covered (q + mv_qty m) ms"

lemma i32_wrap_fits: "- i32_max \<le> i \<Longrightarrow> i \<le> i32_max \<Longrightarrow> i32_wrap i = i"
  by (simp add: i32_wrap_id i32_max_def)

lemma bought_simps [simp]: "bought [] = 0" "bought (m # ms) = max 0 (mv_qty m) + bought ms"
  by (simp_all add: bought_def)

lemma sold_simps [simp]: "sold [] = 0" "sold (m # ms) = max 0 (- mv_qty m) + sold ms"
  by (simp_all add: sold_def)

lemma bought_nonneg [simp]: "0 \<le> bought ms" and sold_nonneg [simp]: "0 \<le> sold ms"
  by (induction ms) auto

locale stock =
  fixes step :: "'s \<Rightarrow> movement \<Rightarrow> string + 's" and start :: 's and qty :: "'s \<Rightarrow> int" and good :: "'s \<Rightarrow> bool"
  assumes start_good: "good start" and start_qty: "qty start = 0"
    and qty_range: "good s \<Longrightarrow> 0 \<le> qty s \<and> qty s \<le> i32_max"
    and step_refuses: "good s \<Longrightarrow> - i32_max \<le> mv_qty m \<Longrightarrow> qty s + mv_qty m < 0 \<Longrightarrow> \<exists>e. step s m = Inl e"
    and step_moves: "good s \<Longrightarrow> - i32_max \<le> mv_qty m \<Longrightarrow> 0 \<le> qty s + mv_qty m \<Longrightarrow> qty s + mv_qty m \<le> i32_max
      \<Longrightarrow> \<exists>s'. step s m = Inr s' \<and> good s' \<and> qty s' = qty s + mv_qty m"
begin

lemma run_from:
  assumes "good s" and "list_all (\<lambda>m. - i32_max \<le> mv_qty m) ms" and "qty s + bought ms \<le> i32_max"
  shows "if covered (qty s) ms
         then \<exists>s'. try_fold step s ms = Inr s' \<and> good s' \<and> qty s' = qty s + bought ms - sold ms
         else \<exists>e. try_fold step s ms = Inl e"
  using assms
proof (induction ms arbitrary: s)
  case Nil
  then show ?case by simp
next
  case (Cons m ms)
  have r: "- i32_max \<le> mv_qty m" using Cons.prems(2) by simp
  have le: "qty s + mv_qty m \<le> i32_max" using Cons.prems(3) bought_nonneg [of ms] unfolding bought_simps by linarith
  show ?case
  proof (cases "0 \<le> qty s + mv_qty m")
    case False
    then show ?thesis using step_refuses [OF Cons.prems(1) r] by auto
  next
    case True
    then obtain s' where s': "step s m = Inr s'" "good s'" "qty s' = qty s + mv_qty m"
      using step_moves [OF Cons.prems(1) r _ le] by blast
    have "qty s' + bought ms \<le> i32_max" using s'(3) Cons.prems(3) by simp
    from Cons.IH [OF s'(2) _ this] Cons.prems(2) s' True show ?thesis by (auto simp: max_def)
  qed
qed

lemma run_stock:
  assumes "in_range ms"
  shows "if covered 0 ms then \<exists>s'. try_fold step start ms = Inr s' \<and> good s' \<and> qty s' = bought ms - sold ms
         else \<exists>e. try_fold step start ms = Inl e"
  using run_from [OF start_good, of ms] assms by (auto simp: start_qty in_range_def split: if_splits)

end

text \<open>
  Values: when every unit was bought for a price between \<open>lo\<close> and \<open>hi\<close>, the stock is worth between
  \<open>lo\<close> and \<open>hi\<close> a unit, up to an error of \<open>eps\<close> for each unit sold.
\<close>

locale priced_stock = stock step start qty good
  for step :: "'s \<Rightarrow> movement \<Rightarrow> string + 's" and start :: 's and qty :: "'s \<Rightarrow> int" and good :: "'s \<Rightarrow> bool" +
  fixes worth :: "'s \<Rightarrow> decimal" and priced :: "decimal \<Rightarrow> decimal \<Rightarrow> decimal \<Rightarrow> 's \<Rightarrow> bool" and eps :: decimal
  assumes priced_worth: "good s \<Longrightarrow> 0 \<le> err \<Longrightarrow> priced lo hi err s
      \<Longrightarrow> of_int (qty s) * lo - err \<le> worth s \<and> worth s \<le> of_int (qty s) * hi + err"
    and start_priced: "priced lo hi 0 start"
    and step_priced: "good s \<Longrightarrow> - i32_max \<le> mv_qty m \<Longrightarrow> 0 \<le> qty s + mv_qty m \<Longrightarrow> qty s + mv_qty m \<le> i32_max
      \<Longrightarrow> step s m = Inr s' \<Longrightarrow> 0 \<le> err \<Longrightarrow> (0 < mv_qty m \<longrightarrow> lo \<le> mv_unit_cost m \<and> mv_unit_cost m \<le> hi)
      \<Longrightarrow> priced lo hi err s \<Longrightarrow> priced lo hi (err + of_int (max 0 (- mv_qty m)) * eps) s'"
    and eps_nonneg: "0 \<le> eps"
begin

lemma run_priced:
  assumes "good s" and "list_all (\<lambda>m. - i32_max \<le> mv_qty m) ms" and "qty s + bought ms \<le> i32_max"
    and "try_fold step s ms = Inr s'" and "0 \<le> err" and "priced lo hi err s"
    and "list_all (\<lambda>m. 0 < mv_qty m \<longrightarrow> lo \<le> mv_unit_cost m \<and> mv_unit_cost m \<le> hi) ms"
  shows "priced lo hi (err + of_int (sold ms) * eps) s'"
  using assms
proof (induction ms arbitrary: s err)
  case Nil
  then show ?case by simp
next
  case (Cons m ms)
  have r: "- i32_max \<le> mv_qty m" using Cons.prems(2) by simp
  have le: "qty s + mv_qty m \<le> i32_max" using Cons.prems(3) bought_nonneg [of ms] unfolding bought_simps by linarith
  from Cons.prems(4) obtain t where t: "step s m = Inr t" "try_fold step t ms = Inr s'"
    by (auto simp: result_simps)
  have ge: "0 \<le> qty s + mv_qty m" using step_refuses [OF Cons.prems(1) r] t(1) by force
  then have tg: "good t" "qty t = qty s + mv_qty m"
    using step_moves [OF Cons.prems(1) r _ le] t(1) by auto
  let ?err = "err + of_int (max 0 (- mv_qty m)) * eps"
  have "0 \<le> ?err" using Cons.prems(5) eps_nonneg by simp
  moreover have "priced lo hi ?err t"
    using step_priced [OF Cons.prems(1) r ge le t(1) Cons.prems(5)] Cons.prems(6,7) by simp
  ultimately have "priced lo hi (?err + of_int (sold ms) * eps) s'"
    using Cons.IH [OF tg(1) _ _ t(2)] Cons.prems(2,3,7) tg(2) by simp
  then show ?case by (simp add: algebra_simps)
qed

lemma run_worth:
  assumes "in_range ms" and "covered 0 ms"
    and "list_all (\<lambda>m. 0 < mv_qty m \<longrightarrow> lo \<le> mv_unit_cost m \<and> mv_unit_cost m \<le> hi) ms"
  shows "\<exists>s'. try_fold step start ms = Inr s' \<and> qty s' = bought ms - sold ms
     \<and> of_int (qty s') * lo - of_int (sold ms) * eps \<le> worth s'
     \<and> worth s' \<le> of_int (qty s') * hi + of_int (sold ms) * eps"
proof -
  from run_stock [OF assms(1)] assms(2) obtain s' where s': "try_fold step start ms = Inr s'" "good s'"
    "qty s' = bought ms - sold ms" by auto
  have "priced lo hi (0 + of_int (sold ms) * eps) s'"
    using run_priced [OF start_good _ _ s'(1) _ start_priced] assms by (simp add: in_range_def start_qty)
  with priced_worth [OF s'(2)] s' eps_nonneg show ?thesis by auto
qed

end

section \<open>FIFO is a queue of units\<close>

definition units :: "layer list \<Rightarrow> decimal list" where
  "units layers = concat (map (\<lambda>l. replicate (nat (fst l)) (snd l)) layers)"

definition fifo_good :: "layer list \<Rightarrow> bool" where
  "fifo_good layers \<longleftrightarrow> list_all (\<lambda>l. 0 \<le> fst l) layers \<and> sum_list (map fst layers) \<le> i32_max"

text \<open>The specification: units leave in the order in which they came.\<close>

fun unit_queue :: "decimal list \<Rightarrow> movement list \<Rightarrow> decimal list option" where
  "unit_queue us [] = Some us"
| "unit_queue us (m # ms) =
     (if 0 \<le> mv_qty m then unit_queue (us @ replicate (nat (mv_qty m)) (mv_unit_cost m)) ms
      else if int (length us) < - mv_qty m then None
      else unit_queue (drop (nat (- mv_qty m)) us) ms)"

lemma units_simps [simp]: "units [] = []" "units (l # ls) = replicate (nat (fst l)) (snd l) @ units ls"
  "units (ls @ ks) = units ls @ units ks"
  by (simp_all add: units_def)

lemma units_filter: "units (filter (\<lambda>l. 0 < fst l) ls) = units ls"
  by (induction ls) auto

lemma length_units: "list_all (\<lambda>l. 0 \<le> fst l) ls \<Longrightarrow> int (length (units ls)) = sum_list (map fst ls)"
  by (induction ls) auto

lemma layers_value_units: "list_all (\<lambda>l. 0 \<le> fst l) ls \<Longrightarrow> layers_value ls = sum_list (units ls)"
  by (induction ls) (auto simp: layers_value_def sum_list_replicate)

lemma sum_qty_nonneg: "list_all (\<lambda>l. 0 \<le> fst l) ls \<Longrightarrow> 0 \<le> (sum_list (map fst ls) :: int)"
  by (induction ls) auto

lemma layers_qty_from:
  "list_all (\<lambda>l. 0 \<le> fst l) ls \<Longrightarrow> 0 \<le> s \<Longrightarrow> s + sum_list (map fst ls) \<le> i32_max
   \<Longrightarrow> foldl (\<lambda>s l. i32_wrap (s + fst l)) s ls = s + sum_list (map fst ls)"
proof (induction ls arbitrary: s)
  case Nil
  then show ?case by simp
next
  case (Cons l ls)
  have "0 \<le> sum_list (map fst ls)" using Cons.prems(1) sum_qty_nonneg [of ls] by simp
  then have "i32_wrap (s + fst l) = s + fst l"
    using Cons.prems by (intro i32_wrap_fits) (auto simp: i32_max_def)
  then show ?case using Cons.IH [of "s + fst l"] Cons.prems by (simp add: add.assoc)
qed

lemma layers_qty_units: "fifo_good ls \<Longrightarrow> layers_qty ls = int (length (units ls))"
  using layers_qty_from [of ls 0] by (simp add: layers_qty_def fifo_good_def length_units)

lemma consume_units:
  assumes "list_all (\<lambda>l. 0 \<le> fst l \<and> fst l \<le> i32_max) ls" and "0 \<le> need" and "need \<le> i32_max"
  shows "units (consume need ls) = drop (nat need) (units ls) \<and> list_all (\<lambda>l. 0 \<le> fst l) (consume need ls)"
  using assms
proof (induction need ls rule: consume.induct)
  case (1 need)
  then show ?case by simp
next
  case (2 need q c ls)
  show ?case
  proof (cases "need = 0")
    case True
    then show ?thesis using "2.prems" by (auto simp: list_all_iff)
  next
    case False
    have w: "i32_wrap (q - min q need) = q - min q need" "i32_wrap (need - min q need) = need - min q need"
      using "2.prems" by (auto intro!: i32_wrap_fits simp: i32_max_def)
    have ih: "units (consume (need - min q need) ls) = drop (nat (need - min q need)) (units ls)
        \<and> list_all (\<lambda>l. 0 \<le> fst l) (consume (need - min q need) ls)"
      using "2.IH" [OF False refl] "2.prems" unfolding w by auto
    show ?thesis
    proof (cases "q \<le> need")
      case True
      then have "nat need - nat q = nat (need - q)" using "2.prems" by (simp add: nat_diff_distrib)
      then show ?thesis using ih False True "2.prems" w by (simp add: min_def)
    next
      case ql: False
      then have "need - min q need = 0" by (simp add: min_def)
      then show ?thesis using ih False ql "2.prems" w by (simp add: min_def nat_diff_distrib)
    qed
  qed
qed

lemma fifo_good_bounds:
  assumes "fifo_good ls"
  shows "list_all (\<lambda>l. 0 \<le> fst l \<and> fst l \<le> i32_max) ls"
proof -
  have "l \<in> set ls \<Longrightarrow> fst l \<le> sum_list (map fst ls)" if "list_all (\<lambda>l. 0 \<le> fst l) ls" for l and ls :: "layer list"
    using that sum_qty_nonneg by (induction ls) force+
  then show ?thesis using assms by (force simp: fifo_good_def list_all_iff)
qed

lemma fifo_good_units:
  assumes "list_all (\<lambda>l. 0 \<le> fst l) ls" and "int (length (units ls)) \<le> i32_max"
  shows "fifo_good ls"
  using assms by (simp add: fifo_good_def length_units)

lemma fifo_sale:
  assumes "fifo_good ls" and "mv_qty m < 0" and "- i32_max \<le> mv_qty m" and "- mv_qty m \<le> layers_qty ls"
  shows "\<exists>ls'. fifo_step ls m = Inr ls' \<and> fifo_good ls' \<and> units ls' = drop (nat (- mv_qty m)) (units ls)"
proof -
  let ?ls = "filter (\<lambda>l. 0 < fst l) (consume (- mv_qty m) ls)"
  have w: "i32_wrap (- mv_qty m) = - mv_qty m" using assms(2,3) by (simp add: i32_wrap_fits)
  have c: "units (consume (- mv_qty m) ls) = drop (nat (- mv_qty m)) (units ls)"
    using consume_units [OF fifo_good_bounds [OF assms(1)], of "- mv_qty m"] assms(2,3) by simp
  have "fifo_good ?ls"
    using c length_units [of ls] assms(1)
    by (intro fifo_good_units) (auto simp: units_filter list_all_iff fifo_good_def)
  then show ?thesis using assms w c by (simp add: fifo_step_def units_filter)
qed

lemma fifo_purchase:
  assumes "fifo_good ls" and "0 \<le> mv_qty m" and "layers_qty ls + mv_qty m \<le> i32_max"
  shows "fifo_step ls m = Inr (ls @ [(mv_qty m, mv_unit_cost m)]) \<and> fifo_good (ls @ [(mv_qty m, mv_unit_cost m)])"
  using assms layers_qty_units [OF assms(1)] by (auto simp: fifo_step_def fifo_good_def length_units)

lemma fifo_refuses:
  assumes "fifo_good ls" and "- i32_max \<le> mv_qty m" and "layers_qty ls < - mv_qty m"
  shows "fifo_step ls m
    = Inl (''FIFO sale of '' @ show_int (- mv_qty m) @ '' exceeds on-hand '' @ show_int (layers_qty ls))"
proof -
  have "0 < - mv_qty m" using assms(3) layers_qty_units [OF assms(1)] by linarith
  then show ?thesis using assms i32_wrap_fits [of "- mv_qty m"] by (simp add: fifo_step_def)
qed

interpretation fifo: priced_stock fifo_step "[]" layers_qty fifo_good layers_value
  "\<lambda>lo hi err ls. list_all (\<lambda>u. lo \<le> u \<and> u \<le> hi) (units ls)" 0
proof
  show "fifo_good []" "layers_qty [] = 0" by (simp_all add: fifo_good_def layers_qty_def i32_max_def)
next
  fix ls assume "fifo_good ls"
  then show "0 \<le> layers_qty ls \<and> layers_qty ls \<le> i32_max"
    using layers_qty_units [of ls] sum_qty_nonneg [of ls] by (simp add: fifo_good_def length_units)
next
  fix ls and m :: movement
  assume "fifo_good ls" and "- i32_max \<le> mv_qty m" and "layers_qty ls + mv_qty m < 0"
  then show "\<exists>e. fifo_step ls m = Inl e" using fifo_refuses [of ls m] by simp
next
  fix ls and m :: movement
  assume a: "fifo_good ls" "- i32_max \<le> mv_qty m" "0 \<le> layers_qty ls + mv_qty m" "layers_qty ls + mv_qty m \<le> i32_max"
  show "\<exists>ls'. fifo_step ls m = Inr ls' \<and> fifo_good ls' \<and> layers_qty ls' = layers_qty ls + mv_qty m"
  proof (cases "0 \<le> mv_qty m")
    case True
    with fifo_purchase [OF a(1) True a(4)] layers_qty_units a(1) show ?thesis by auto
  next
    case False
    with fifo_sale [OF a(1) _ a(2)] a(3) layers_qty_units a(1) show ?thesis by fastforce
  qed
next
  fix ls :: "layer list" and lo hi err :: decimal
  assume g: "fifo_good ls" and e: "0 \<le> err" and w: "list_all (\<lambda>u. lo \<le> u \<and> u \<le> hi) (units ls)"
  have "of_nat (length us) * lo \<le> sum_list us \<and> sum_list us \<le> of_nat (length us) * hi"
    if "list_all (\<lambda>u. lo \<le> u \<and> u \<le> hi) us" for us :: "decimal list"
    using that by (induction us) (auto simp: algebra_simps)
  from this [OF w] e show "of_int (layers_qty ls) * lo - err \<le> layers_value ls
      \<and> layers_value ls \<le> of_int (layers_qty ls) * hi + err"
    using g layers_qty_units [OF g] layers_value_units [of ls] by (simp add: fifo_good_def)
next
  fix ls ls' and m :: movement and lo hi err :: decimal
  assume a: "fifo_good ls" "- i32_max \<le> mv_qty m" "0 \<le> layers_qty ls + mv_qty m" "layers_qty ls + mv_qty m \<le> i32_max"
    and s: "fifo_step ls m = Inr ls'" and c: "0 < mv_qty m \<longrightarrow> lo \<le> mv_unit_cost m \<and> mv_unit_cost m \<le> hi"
    and w: "list_all (\<lambda>u. lo \<le> u \<and> u \<le> hi) (units ls)"
  show "list_all (\<lambda>u. lo \<le> u \<and> u \<le> hi) (units ls')"
  proof (cases "0 \<le> mv_qty m")
    case True
    with fifo_purchase [OF a(1) True a(4)] s c w show ?thesis by (auto simp: list_all_iff)
  next
    case False
    with fifo_sale [OF a(1) _ a(2)] a(3) s w show ?thesis by (auto simp: list_all_iff dest: in_set_dropD)
  qed
qed simp_all

text \<open>The steps of FIFO are the steps of the queue, seen through \<open>units\<close>.\<close>

lemma fifo_refines_from:
  assumes "fifo_good ls" and "list_all (\<lambda>m. - i32_max \<le> mv_qty m) ms" and "layers_qty ls + bought ms \<le> i32_max"
  shows "map_option units (case try_fold fifo_step ls ms of Inl e \<Rightarrow> None | Inr ls' \<Rightarrow> Some ls') = unit_queue (units ls) ms
     \<and> (\<forall>ls'. try_fold fifo_step ls ms = Inr ls' \<longrightarrow> fifo_good ls')"
  using assms
proof (induction ms arbitrary: ls)
  case Nil
  then show ?case by simp
next
  case (Cons m ms)
  note q = layers_qty_units [OF Cons.prems(1)]
  have r: "- i32_max \<le> mv_qty m" using Cons.prems(2) by simp
  have le: "layers_qty ls + mv_qty m \<le> i32_max"
    using Cons.prems(3) bought_nonneg [of ms] unfolding bought_simps by linarith
  show ?case
  proof (cases "0 \<le> mv_qty m")
    case True
    let ?ls = "ls @ [(mv_qty m, mv_unit_cost m)]"
    have p: "fifo_step ls m = Inr ?ls" "fifo_good ?ls"
      using fifo_purchase [OF Cons.prems(1) True le] by simp_all
    have "layers_qty ?ls + bought ms \<le> i32_max" using layers_qty_units [OF p(2)] q Cons.prems(3) True by simp
    from Cons.IH [OF p(2) _ this] p Cons.prems(2) True show ?thesis by simp
  next
    case False
    show ?thesis
    proof (cases "layers_qty ls < - mv_qty m")
      case True
      then show ?thesis using fifo_refuses [OF Cons.prems(1) r True] False q by simp
    next
      case enough: False
      then obtain ls' where s: "fifo_step ls m = Inr ls'" "fifo_good ls'" "units ls' = drop (nat (- mv_qty m)) (units ls)"
        using fifo_sale [OF Cons.prems(1) _ r] False by auto
      have "layers_qty ls' + bought ms \<le> i32_max"
        using layers_qty_units [OF s(2)] s(3) q Cons.prems(3) False by simp
      from Cons.IH [OF s(2) _ this] s Cons.prems(2) False enough q show ?thesis by simp
    qed
  qed
qed

section \<open>Weighted average\<close>

definition average_good :: "int \<times> decimal \<Rightarrow> bool" where
  "average_good s \<longleftrightarrow> 0 \<le> fst s \<and> fst s \<le> i32_max \<and> (fst s = 0 \<longrightarrow> snd s = 0)"

lemma average_purchase:
  assumes "average_good s" and "0 \<le> mv_qty m" and "fst s + mv_qty m \<le> i32_max"
  shows "average_step E s m = Inr (fst s + mv_qty m, snd s + of_int (mv_qty m) * mv_unit_cost m)"
proof -
  have "i32_wrap (fst s + mv_qty m) = fst s + mv_qty m"
    using assms by (intro i32_wrap_fits) (auto simp: average_good_def i32_max_def)
  then show ?thesis using assms by (cases s) (simp add: average_step_def)
qed

lemma average_sale:
  assumes "average_good s" and "mv_qty m < 0" and "- i32_max \<le> mv_qty m" and "- mv_qty m \<le> fst s"
  shows "average_step E s m = Inr (fst s + mv_qty m,
     if fst s + mv_qty m = 0 then 0 else snd s + of_int (mv_qty m) * dec_div E (snd s) (of_int (fst s)))"
proof -
  have "i32_wrap (- mv_qty m) = - mv_qty m" "i32_wrap (fst s + mv_qty m) = fst s + mv_qty m"
    using assms by (auto intro!: i32_wrap_fits simp: average_good_def i32_max_def)
  then show ?thesis using assms by (auto simp: average_step_def average_good_def Let_def split: prod.split)
qed

lemma average_refuses:
  assumes "average_good s" and "- i32_max \<le> mv_qty m" and "fst s < - mv_qty m"
  shows "average_step E s m
    = Inl (''average sale of '' @ show_int (- mv_qty m) @ '' exceeds on-hand '' @ show_int (fst s))"
proof -
  have "0 < - mv_qty m" using assms by (simp add: average_good_def)
  then show ?thesis using assms i32_wrap_fits [of "- mv_qty m"] by (auto simp: average_step_def split: prod.split)
qed

interpretation average: stock "average_step E" "(0, 0)" fst average_good for E
proof
  show "average_good (0, 0)" "fst (0 :: int, 0 :: decimal) = 0" by (simp_all add: average_good_def i32_max_def)
next
  fix s assume "average_good s" then show "0 \<le> fst s \<and> fst s \<le> i32_max" by (simp add: average_good_def)
next
  fix s and m :: movement
  assume "average_good s" and "- i32_max \<le> mv_qty m" and "fst s + mv_qty m < 0"
  then show "\<exists>e. average_step E s m = Inl e" using average_refuses [of s m E] by simp
next
  fix s and m :: movement
  assume a: "average_good s" "- i32_max \<le> mv_qty m" "0 \<le> fst s + mv_qty m" "fst s + mv_qty m \<le> i32_max"
  show "\<exists>s'. average_step E s m = Inr s' \<and> average_good s' \<and> fst s' = fst s + mv_qty m"
  proof (cases "0 \<le> mv_qty m")
    case True
    with average_purchase [OF a(1) True a(4), of E] a show ?thesis
      by (auto simp: average_good_def)
  next
    case False
    with average_sale [OF a(1) _ a(2), of E] a show ?thesis by (auto simp: average_good_def)
  qed
qed

text \<open>
  The average is computed with a rounded division; \<open>eps\<close> bounds its error.  Each unit sold takes at
  most that error out of the remaining value.
\<close>

lemma average_sale_value:
  fixes q n v avg lo hi err eps :: decimal
  assumes n: "0 < n" "n \<le> q" and avg: "\<bar>avg - v / q\<bar> \<le> eps" and err: "0 \<le> err"
    and v: "q * lo - err \<le> v" "v \<le> q * hi + err"
  shows "(q - n) * lo - (err + n * eps) \<le> v - n * avg \<and> v - n * avg \<le> (q - n) * hi + (err + n * eps)"
proof -
  define r where "r = (q - n) / q"
  have r: "0 \<le> r" "r \<le> 1" "q * r = q - n" "v * r = v - n * (v / q)" using n by (auto simp: r_def field_simps)
  have "(q * lo - err) * r \<le> v * r" "v * r \<le> (q * hi + err) * r"
    using v r(1) by (auto intro: mult_right_mono)
  then have "q * r * lo - err * r \<le> v * r" "v * r \<le> q * r * hi + err * r" by (simp_all add: algebra_simps)
  then have "(q - n) * lo - err * r \<le> v * r" "v * r \<le> (q - n) * hi + err * r" unfolding r(3) .
  moreover have "err * r \<le> err" using err r by (simp add: mult_left_le)
  moreover have "\<bar>n * (avg - v / q)\<bar> \<le> n * eps" using n avg by (simp add: abs_mult)
  then have "\<bar>n * avg - n * (v / q)\<bar> \<le> n * eps" by (simp add: algebra_simps)
  ultimately show ?thesis using r(4) by linarith
qed

lemma average_priced:
  assumes div: "\<And>x n. 0 < n \<Longrightarrow> \<bar>dec_div E x (of_int n) - x / of_int n\<bar> \<le> eps" and eps: "0 \<le> eps"
  shows "priced_stock (average_step E) (0, 0) fst average_good snd
     (\<lambda>lo hi err s. of_int (fst s) * lo - err \<le> snd s \<and> snd s \<le> of_int (fst s) * hi + err) eps"
proof unfold_locales
  fix s s' and m :: movement and lo hi err :: decimal
  assume a: "average_good s" "- i32_max \<le> mv_qty m" "0 \<le> fst s + mv_qty m" "fst s + mv_qty m \<le> i32_max"
    and s: "average_step E s m = Inr s'" and err: "0 \<le> err"
    and c: "0 < mv_qty m \<longrightarrow> lo \<le> mv_unit_cost m \<and> mv_unit_cost m \<le> hi"
    and p: "of_int (fst s) * lo - err \<le> snd s \<and> snd s \<le> of_int (fst s) * hi + err"
  show "of_int (fst s') * lo - (err + of_int (max 0 (- mv_qty m)) * eps) \<le> snd s'
      \<and> snd s' \<le> of_int (fst s') * hi + (err + of_int (max 0 (- mv_qty m)) * eps)"
  proof (cases "0 \<le> mv_qty m")
    case True
    have "of_int (mv_qty m) * lo \<le> of_int (mv_qty m) * mv_unit_cost m"
      "of_int (mv_qty m) * mv_unit_cost m \<le> of_int (mv_qty m) * hi"
      using c True by (cases "mv_qty m = 0"; auto simp: mult_left_mono)+
    with average_purchase [OF a(1) True a(4), of E] s p True show ?thesis by (auto simp: algebra_simps)
  next
    case False
    then have "- mv_qty m \<le> fst s" "0 < fst s" using a(3) by simp_all
    with average_sale [OF a(1) _ a(2), of E] False s
    have s': "fst s' = fst s + mv_qty m" "snd s' = (if fst s + mv_qty m = 0 then 0
        else snd s - of_int (- mv_qty m) * dec_div E (snd s) (of_int (fst s)))" by auto
    have "0 \<le> of_int (- mv_qty m) * eps" using False eps by (intro mult_nonneg_nonneg) simp_all
    moreover have "of_int (fst s + mv_qty m) * lo - (err + of_int (- mv_qty m) * eps)
          \<le> snd s - of_int (- mv_qty m) * dec_div E (snd s) (of_int (fst s))
        \<and> snd s - of_int (- mv_qty m) * dec_div E (snd s) (of_int (fst s))
          \<le> of_int (fst s + mv_qty m) * hi + (err + of_int (- mv_qty m) * eps)"
      using average_sale_value [of "of_int (- mv_qty m)" "of_int (fst s)" _ "snd s" _ err lo hi,
          OF _ _ div [OF \<open>0 < fst s\<close>] err] p a(3) False
      by simp
    ultimately show ?thesis
      using s' False err by (cases "fst s' = 0") (simp_all del: of_int_add of_int_minus)
  qed
qed (use eps in \<open>simp_all add: average_good_def\<close>)

section \<open>Properties\<close>

text \<open>
  Both valuation methods agree on quantities.  For movements whose purchases together fit an \<^verbatim>\<open>i32\<close>,
  either method succeeds exactly when no sale exceeds the stock it meets, and then reports what was
  bought less what was sold.
\<close>

theorem valuation_quantity:
  assumes "in_range ms"
  shows "(\<forall>q v. valuate E m ms = Inr (q, v) \<longrightarrow> q = bought ms - sold ms)
    \<and> ((\<exists>q v. valuate E m ms = Inr (q, v)) \<longleftrightarrow> covered 0 ms)"
proof (cases m)
  case Fifo
  with fifo.run_stock [OF assms] show ?thesis by (auto simp: valuate_fifo_def split: if_splits)
next
  case Average
  with average.run_stock [OF assms, of E] show ?thesis by (force simp: valuate_average_def split: if_splits)
qed

text \<open>
  C19: FIFO valuation refines a queue of single units: it fails exactly when the queue underflows, and
  otherwise reports how many units are left and the sum of their purchase prices.
\<close>

theorem fifo_refines_queue:
  assumes "in_range ms"
  shows "(case valuate_fifo ms of Inl e \<Rightarrow> None | Inr r \<Rightarrow> Some r)
    = map_option (\<lambda>us. (int (length us), sum_list us)) (unit_queue [] ms)"
proof -
  have r: "map_option units (case try_fold fifo_step [] ms of Inl e \<Rightarrow> None | Inr ls' \<Rightarrow> Some ls') = unit_queue [] ms"
      "\<And>ls'. try_fold fifo_step [] ms = Inr ls' \<Longrightarrow> fifo_good ls'"
    using fifo_refines_from [OF fifo.start_good, of ms] assms by (auto simp: in_range_def fifo.start_qty)
  show ?thesis
  proof (cases "try_fold fifo_step [] ms")
    case (Inr ls)
    then have "fifo_good ls" by (rule r(2))
    with r(1) Inr show ?thesis
      by (auto simp: valuate_fifo_def layers_qty_units layers_value_units fifo_good_def simp flip: r(1))
  qed (use r(1) in \<open>auto simp: valuate_fifo_def simp flip: r(1)\<close>)
qed

text \<open>
  The stock is worth what was paid for it.  If every unit was bought for a price between \<open>lo\<close> and
  \<open>hi\<close>, FIFO values each unit left between \<open>lo\<close> and \<open>hi\<close>; the weighted average does so up to the error
  of one division for each unit sold.
\<close>

theorem valuation_bounds:
  assumes "in_range ms" and "covered 0 ms"
    and "list_all (\<lambda>m. 0 < mv_qty m \<longrightarrow> lo \<le> mv_unit_cost m \<and> mv_unit_cost m \<le> hi) ms"
    and "\<And>x n. 0 < n \<Longrightarrow> \<bar>dec_div E x (of_int n) - x / of_int n\<bar> \<le> eps" and "0 \<le> eps"
  shows "(\<exists>q v. valuate E Fifo ms = Inr (q, v) \<and> of_int q * lo \<le> v \<and> v \<le> of_int q * hi)
    \<and> (\<exists>q v. valuate E Average ms = Inr (q, v)
        \<and> of_int q * lo - of_int (sold ms) * eps \<le> v \<and> v \<le> of_int q * hi + of_int (sold ms) * eps)"
  using fifo.run_worth [OF assms(1-3)] priced_stock.run_worth [OF average_priced [OF assms(4,5)] assms(1-3)]
  by (auto simp: valuate_fifo_def valuate_average_def)

section \<open>Witnesses\<close>

definition sample_movements :: "movement list" where
  "sample_movements =
     [\<lparr>mv_qty = 10, mv_unit_cost = 5\<rparr>, \<lparr>mv_qty = 10, mv_unit_cost = 7\<rparr>, \<lparr>mv_qty = - 12, mv_unit_cost = 0\<rparr>]"

lemma sample_in_range: "in_range sample_movements" "covered 0 sample_movements"
  by (simp_all add: in_range_def sample_movements_def i32_max_def)

theorem valuation_quantity_witness:
  "\<exists>q v. valuate sample_env Average sample_movements = Inr (q, v)"
  using valuation_quantity [OF sample_in_range(1), of sample_env Average] sample_in_range(2) by blast

theorem fifo_refines_queue_witness:
  "valuate_fifo sample_movements = Inr (8, 56) \<and>
   (case valuate_fifo sample_movements of Inl e \<Rightarrow> None | Inr r \<Rightarrow> Some r)
    = map_option (\<lambda>us. (int (length us), sum_list us)) (unit_queue [] sample_movements)"
proof
  show "valuate_fifo sample_movements = Inr (8, 56)" by code_simp
qed (rule fifo_refines_queue [OF sample_in_range(1)])

theorem valuation_bounds_witness:
  "\<exists>q v. valuate sample_env Average sample_movements = Inr (q, v) \<and> of_int q * 5 \<le> v \<and> v \<le> of_int q * 7"
  using valuation_bounds [OF sample_in_range, of 5 7 sample_env 0]
  by (auto simp: sample_movements_def sample_env_def)

end
