(* ===== verification/Ledger_Access.thy ===== *)
theory Ledger_Access
  imports Job_Queue
begin

text \<open>
  Who may do what: the errors of the HTTP layer (\<^verbatim>\<open>src/src/error.rs\<close>), the access checks every handler
  starts with, the creation of a ledger with its default chart, and the append-only switch
  (\<^verbatim>\<open>src/src/handlers/ledgers.rs\<close>).  The locale \<open>access_check\<close> is what handlers rely on; each check
  interprets it.  Rendering and redirect targets are left out.
\<close>

section \<open>Errors of the HTTP layer\<close>

datatype app_error =
    NotFound
  | Unauthorized
  | Forbidden
  | ForbiddenMsg string
  | Validation string
  | Unprocessable string
  | Conflict string
  | Gone string
  | Io string
  | AppDb db_error
  | Template string
  | Multipart string
  | Internal string

fun app_status :: "app_error \<Rightarrow> nat" where
  "app_status NotFound = 404"
| "app_status Unauthorized = 401"
| "app_status Forbidden = 403"
| "app_status (ForbiddenMsg _) = 403"
| "app_status (Validation _) = 400"
| "app_status (Multipart _) = 400"
| "app_status (Unprocessable _) = 422"
| "app_status (Conflict _) = 409"
| "app_status (Gone _) = 410"
| "app_status (Io _) = 500"
| "app_status (AppDb _) = 500"
| "app_status (Template _) = 500"
| "app_status (Internal _) = 500"

section \<open>The access checks\<close>

definition ensure_owner :: "db \<Rightarrow> uuid \<Rightarrow> uuid \<Rightarrow> app_error + ledger_row" where
  "ensure_owner db user_id ledger_id =
     ok_or NotFound (find (\<lambda>l. l_id l = ledger_id \<and> l_owner l = user_id) (ledgers db))"

definition ensure_access :: "db \<Rightarrow> uuid \<Rightarrow> uuid \<Rightarrow> app_error + ledger_row \<times> string" where
  "ensure_access db user_id ledger_id =
     rbind (ok_or NotFound (ledger_of db ledger_id)) (\<lambda>ledger.
       if l_owner ledger = user_id then Inr (ledger, ''owner'')
       else (case find (\<lambda>m. m_ledger m = ledger_id \<and> m_user m = user_id) (members db) of
               Some m \<Rightarrow> Inr (ledger, m_role m)
             | None \<Rightarrow> Inl NotFound))"

definition ensure_writer :: "db \<Rightarrow> uuid \<Rightarrow> uuid \<Rightarrow> app_error + ledger_row" where
  "ensure_writer db user_id ledger_id =
     rbind (ensure_access db user_id ledger_id) (\<lambda>(ledger, role).
       if role = ''viewer'' \<or> role = ''auditor'' then Inl Forbidden else Inr ledger)"

definition ensure_exporter :: "db \<Rightarrow> uuid \<Rightarrow> uuid \<Rightarrow> app_error + ledger_row" where
  "ensure_exporter db user_id ledger_id =
     rbind (ensure_access db user_id ledger_id) (\<lambda>(ledger, role). Inr ledger)"

definition is_admin :: "db \<Rightarrow> uuid \<Rightarrow> bool" where
  "is_admin db user_id \<longleftrightarrow>
     map_option u_role (find (\<lambda>u. u_id u = user_id) (users db)) = Some ''admin''"

definition ensure_owner_or_admin :: "db \<Rightarrow> uuid \<Rightarrow> uuid \<Rightarrow> app_error + ledger_row" where
  "ensure_owner_or_admin db user_id ledger_id =
     rbind (ensure_access db user_id ledger_id) (\<lambda>(ledger, role).
       if role = ''owner'' then Inr ledger
       else if is_admin db user_id then Inr ledger
       else Inl Forbidden)"

definition ensure_owner_strict :: "db \<Rightarrow> uuid \<Rightarrow> uuid \<Rightarrow> app_error + ledger_row" where
  "ensure_owner_strict db user_id ledger_id =
     rbind (ensure_access db user_id ledger_id) (\<lambda>(ledger, role).
       if role \<noteq> ''owner'' then Inl Forbidden else Inr ledger)"

section \<open>Creating a ledger\<close>

record new_ledger_form =
  f_name :: string
  f_base_currency :: string
  f_timezone :: string
  f_basis :: string
  f_inventory_method :: string

text \<open>The form is shown again with a message, or the browser is sent to the new ledger.\<close>

datatype ledger_response = FormError string | RedirectTo uuid

definition insert_ledger :: "env \<Rightarrow> ledger_row \<Rightarrow> (db, db_error, uuid) tx" where
  "insert_ledger E r db =
     (let (i, db1) = draw E db in
      case char3 (l_base_currency r) of None \<Rightarrow> Inl StringTooLong
      | Some c \<Rightarrow>
          if list_ex (\<lambda>l. l_id l = i) (ledgers db) then Inl (UniqueViolation ''ledgers_pkey'')
          else if l_basis r \<noteq> ''accrual'' \<and> l_basis r \<noteq> ''cash'' then Inl (CheckViolation ''ledgers_basis_check'')
          else Inr (i, db1\<lparr>ledgers := ledgers db @ [r\<lparr>l_id := i, l_base_currency := c\<rparr>]\<rparr>))"

definition seed_account :: "env \<Rightarrow> uuid \<Rightarrow> db \<Rightarrow> new_account \<Rightarrow> db_error + db" where
  "seed_account E ledger_id db acct =
     rbind (insert_account E
       \<lparr>a_id = 0, a_ledger = ledger_id, a_name = na_name acct, a_code = na_code acct,
        a_type = account_type_as_str (na_type acct), a_subtype = account_subtype_as_str (na_subtype acct),
        a_currency = na_currency acct, a_archived = na_archived acct\<rparr> db) (\<lambda>(_, db'). Inr db')"

text \<open>The approval threshold is the default of its column.\<close>

definition create_ledger_body :: "env \<Rightarrow> uuid \<Rightarrow> string \<Rightarrow> string \<Rightarrow> string \<Rightarrow> (db, db_error, uuid) tx" where
  "create_ledger_body E user_id name currency basis db =
     rbind (insert_ledger E
       \<lparr>l_id = 0, l_owner = user_id, l_name = name, l_base_currency = currency, l_basis = basis,
        l_append_only = False, l_threshold = Some 10000\<rparr> db) (\<lambda>(i, db1).
     rbind (try_fold (seed_account E i) db1 (default_chart_of_accounts currency)) (\<lambda>db2. Inr (i, db2)))"

definition create_ledger ::
  "env \<Rightarrow> uuid option \<Rightarrow> new_ledger_form \<Rightarrow> db \<Rightarrow> (app_error + ledger_response) \<times> db" where
  "create_ledger E user form db =
     (case user of None \<Rightarrow> (Inl Unauthorized, db)
      | Some user_id \<Rightarrow>
        (let name = trim (f_name form); currency = to_uppercase (trim (f_base_currency form));
             basis = (if trim (f_basis form) = ''cash'' then ''cash'' else ''accrual'')
         in if name = [] then (Inr (FormError ''Name is required''), db)
            else if length (utf8 currency) \<noteq> 3
              then (Inr (FormError ''Currency must be a 3-letter code (e.g. USD, EUR)''), db)
            else (case run_tx (create_ledger_body E user_id name currency basis) db of
                    (Inl e, db1) \<Rightarrow> (Inl (AppDb e), db1)
                  | (Inr i, db1) \<Rightarrow>
                      (Inr (RedirectTo i),
                       audit_log E (Some i) user_id ''create'' ''ledger'' (Some i) None
                         (Some (JObj [(''name'', JStr name), (''currency'', JStr currency)])) db1))))"

section \<open>The append-only switch\<close>

definition toggle_append_only ::
  "env \<Rightarrow> uuid option \<Rightarrow> uuid \<Rightarrow> bool \<Rightarrow> db \<Rightarrow> (app_error + unit) \<times> db" where
  "toggle_append_only E user ledger_id enabled db =
     (case rbind (ok_or Unauthorized user) (\<lambda>user_id.
             rbind (ensure_owner_strict db user_id ledger_id) (\<lambda>ledger. Inr (user_id, ledger))) of
        Inl e \<Rightarrow> (Inl e, db)
      | Inr (user_id, ledger) \<Rightarrow>
          if l_owner ledger \<noteq> user_id then (Inl Forbidden, db)
          else if l_append_only ledger = enabled then (Inr (), db)
          else (Inr (),
                audit_log E (Some ledger_id) user_id ''toggle'' ''ledger'' (Some ledger_id) None
                  (Some (JObj [(''field'', JStr ''append_only''), (''previous'', JBool (l_append_only ledger)),
                               (''new'', JBool enabled)]))
                  (db\<lparr>ledgers := map (\<lambda>l. if l_id l = ledger_id then l\<lparr>l_append_only := enabled\<rparr> else l) (ledgers db)\<rparr>)))"

section \<open>What a check promises its handler\<close>

text \<open>
  \<open>role\<close> is the part a user plays in a ledger.  A check grants exactly the roles it is meant for, returns
  the ledger asked for, and tells a stranger nothing: the error is the one for a ledger that does not
  exist.
\<close>

definition role :: "db \<Rightarrow> uuid \<Rightarrow> uuid \<Rightarrow> string option" where
  "role db user_id ledger_id =
     (case ledger_of db ledger_id of None \<Rightarrow> None
      | Some l \<Rightarrow> if l_owner l = user_id then Some ''owner''
                 else map_option m_role (find (\<lambda>m. m_ledger m = ledger_id \<and> m_user m = user_id) (members db)))"

locale access_check =
  fixes check :: "db \<Rightarrow> uuid \<Rightarrow> uuid \<Rightarrow> app_error + ledger_row" and grants :: "db \<Rightarrow> uuid \<Rightarrow> string \<Rightarrow> bool"
  assumes check_spec: "check db u l =
     (case role db u l of None \<Rightarrow> Inl NotFound
      | Some r \<Rightarrow> if grants db u r then Inr (the (ledger_of db l)) else Inl Forbidden)"
begin

lemma granted:
  "check db u l = Inr led \<longleftrightarrow> (\<exists>r. role db u l = Some r \<and> grants db u r \<and> ledger_of db l = Some led)"
  by (auto simp: check_spec role_def split: option.splits if_splits)

lemma refused: "check db u l = Inl e \<Longrightarrow> e = NotFound \<or> e = Forbidden"
  by (auto simp: check_spec split: option.splits if_splits)

lemma stranger: "role db u l = None \<Longrightarrow> ledger_of db l' = None \<Longrightarrow> check db u l = check db u l'"
  by (simp add: check_spec role_def)

lemma owner_granted:
  "grants db u ''owner'' \<Longrightarrow> ledger_of db l = Some led \<Longrightarrow> l_owner led = u \<Longrightarrow> check db u l = Inr led"
  by (simp add: check_spec role_def)

end

lemma ensure_access_role:
  "ensure_access db u l =
     (case role db u l of None \<Rightarrow> Inl NotFound | Some r \<Rightarrow> Inr (the (ledger_of db l), r))"
  by (auto simp: ensure_access_def role_def split: option.split)

interpretation writer: access_check ensure_writer "\<lambda>db u r. r \<noteq> ''viewer'' \<and> r \<noteq> ''auditor''"
  by unfold_locales (auto simp: ensure_writer_def ensure_access_role split: option.split)

interpretation exporter: access_check ensure_exporter "\<lambda>db u r. True"
  by unfold_locales (auto simp: ensure_exporter_def ensure_access_role split: option.split)

interpretation owner_or_admin: access_check ensure_owner_or_admin "\<lambda>db u r. r = ''owner'' \<or> is_admin db u"
  by unfold_locales (auto simp: ensure_owner_or_admin_def ensure_access_role split: option.split)

interpretation owner_strict: access_check ensure_owner_strict "\<lambda>db u r. r = ''owner''"
  by unfold_locales (auto simp: ensure_owner_strict_def ensure_access_role split: option.split)

text \<open>The member roles the schema allows.\<close>

definition member_roles :: "string list" where
  "member_roles = [''editor'', ''viewer'', ''accountant'', ''auditor'']"

definition members_wf :: "db \<Rightarrow> bool" where
  "members_wf db \<longleftrightarrow> list_all (\<lambda>m. m_role m \<in> set member_roles) (members db)"

lemma role_owner_iff:
  assumes "members_wf db"
  shows "role db u l = Some ''owner'' \<longleftrightarrow> (\<exists>led. ledger_of db l = Some led \<and> l_owner led = u)"
proof -
  have "m_role m \<noteq> ''owner''" if "find (\<lambda>m. m_ledger m = l \<and> m_user m = u) (members db) = Some m" for m
    using find_Some_mem [OF that] assms by (auto simp: members_wf_def list_all_iff member_roles_def)
  then show ?thesis by (auto simp: role_def split: option.splits if_splits)
qed

lemma role_range:
  assumes "members_wf db" and "role db u l = Some r"
  shows "r \<in> {''owner'', ''editor'', ''viewer'', ''accountant'', ''auditor''}"
  using assms
  by (auto simp: role_def members_wf_def list_all_iff member_roles_def split: option.splits if_splits dest!: find_Some_mem)

section \<open>Seeding the chart\<close>

definition seeded :: "uuid \<Rightarrow> string \<Rightarrow> new_account \<Rightarrow> account_row \<Rightarrow> bool" where
  "seeded l c na a \<longleftrightarrow>
     a_ledger a = l \<and> a_name a = na_name na \<and> a_code a = na_code na
   \<and> a_type a = account_type_as_str (na_type na) \<and> a_subtype a = account_subtype_as_str (na_subtype na)
   \<and> a_currency a = c \<and> a_archived a = na_archived na"

lemma length_utf8: "length s \<le> length (utf8 s)"
proof (induction s)
  case (Cons c s)
  have "1 \<le> length (utf8_char c)" by (simp add: utf8_char_def Let_def)
  with Cons show ?case by simp
qed simp

lemma char3_short: "length (utf8 s) \<le> 3 \<Longrightarrow> char3 s = Some (take 3 (s @ replicate 3 (CHR '' '')))"
  using length_utf8 [of s] by (simp add: char3_def)

lemma seed_accounts:
  assumes "l \<in> l_id ` set (ledgers db)" and "inj (uuid_at E)"
    and "\<And>n. drawn db \<le> n \<Longrightarrow> uuid_at E n \<notin> a_id ` set (accounts db)"
    and "distinct (map na_name nas)"
    and "\<And>a na. a \<in> set (accounts db) \<Longrightarrow> a_ledger a = l \<Longrightarrow> na \<in> set nas \<Longrightarrow> a_name a \<noteq> na_name na"
    and "\<And>na. na \<in> set nas \<Longrightarrow> na_subtype na \<in> set (valid_subtypes (na_type na)) \<and> char3 (na_currency na) = Some c"
  shows "\<exists>as n. try_fold (seed_account E l) db nas = Inr (db\<lparr>accounts := accounts db @ as, drawn := n\<rparr>)
     \<and> list_all2 (seeded l c) nas as"
  using assms
proof (induction nas arbitrary: db)
  case Nil
  show ?case by (rule exI [of _ "[]"], rule exI [of _ "drawn db"]) simp
next
  case (Cons na nas)
  let ?r = "\<lparr>a_id = 0, a_ledger = l, a_name = na_name na, a_code = na_code na,
    a_type = account_type_as_str (na_type na), a_subtype = account_subtype_as_str (na_subtype na),
    a_currency = na_currency na, a_archived = na_archived na\<rparr>"
  let ?a = "?r\<lparr>a_id := uuid_at E (drawn db), a_currency := c\<rparr>"
  let ?db = "db\<lparr>drawn := Suc (drawn db), accounts := accounts db @ [?a]\<rparr>"
  have "subtype_allowed (a_type ?r) (a_subtype ?r)"
    using Cons.prems(6) [of na] by (simp add: subtype_allowed_def account_type.round_trip)
  moreover have "(l, na_name na) \<notin> (\<lambda>a. (a_ledger a, a_name a)) ` set (accounts db)"
    using Cons.prems(5) by fastforce
  ultimately have "insert_account E ?r db = Inr (uuid_at E (drawn db), ?db)"
    using Cons.prems(1,6) Cons.prems(3) [of "drawn db"]
    by (simp add: insert_account_Inr account_type.round_trip)
  then have step: "seed_account E l db na = Inr ?db" by (simp add: seed_account_def)
  have "\<exists>as n. try_fold (seed_account E l) ?db nas = Inr (?db\<lparr>accounts := accounts ?db @ as, drawn := n\<rparr>)
     \<and> list_all2 (seeded l c) nas as"
  proof (rule Cons.IH)
    show "uuid_at E n \<notin> a_id ` set (accounts ?db)" if "drawn ?db \<le> n" for n
      using Cons.prems(2) Cons.prems(3) [of n] that by (auto dest: injD)
    show "a_name a \<noteq> na_name na'" if "a \<in> set (accounts ?db)" "a_ledger a = l" "na' \<in> set nas" for a na'
    proof -
      from that(1) consider "a \<in> set (accounts db)" | "a_name a = na_name na" by fastforce
      then show ?thesis using that(2,3) Cons.prems(4) Cons.prems(5) [of a na'] by cases auto
    qed
  qed (use Cons.prems in auto)
  then obtain as n where "try_fold (seed_account E l) ?db nas = Inr (?db\<lparr>accounts := accounts ?db @ as, drawn := n\<rparr>)"
      "list_all2 (seeded l c) nas as" by blast
  moreover have "seeded l c na ?a" by (simp add: seeded_def)
  ultimately show ?case using step by (intro exI [of _ "?a # as"] exI [of _ n]) simp
qed

text \<open>Identifiers still to be drawn name neither a ledger nor an account.\<close>

definition ledger_ids_fresh :: "env \<Rightarrow> db \<Rightarrow> bool" where
  "ledger_ids_fresh E db \<longleftrightarrow>
     inj (uuid_at E) \<and> (\<forall>n\<ge>drawn db. uuid_at E n \<notin> l_id ` set (ledgers db) \<union> a_id ` set (accounts db))"

lemma create_ledger_body_Inr:
  assumes fresh: "ledger_ids_fresh E db" and fk: "\<forall>a\<in>set (accounts db). a_ledger a \<in> l_id ` set (ledgers db)"
    and cur: "length (utf8 currency) = 3" and basis: "basis = ''cash'' \<or> basis = ''accrual''"
  shows "\<exists>as n. create_ledger_body E u name currency basis db = Inr (uuid_at E (drawn db),
      db\<lparr>ledgers := ledgers db @ [\<lparr>l_id = uuid_at E (drawn db), l_owner = u, l_name = name,
           l_base_currency = take 3 (currency @ replicate 3 (CHR '' '')), l_basis = basis,
           l_append_only = False, l_threshold = Some 10000\<rparr>],
         accounts := accounts db @ as, drawn := n\<rparr>)
     \<and> list_all2 (seeded (uuid_at E (drawn db)) (take 3 (currency @ replicate 3 (CHR '' ''))))
         (default_chart_of_accounts currency) as"
proof -
  let ?i = "uuid_at E (drawn db)" and ?c = "take 3 (currency @ replicate 3 (CHR '' ''))"
  let ?db = "db\<lparr>drawn := Suc (drawn db), ledgers := ledgers db @ [\<lparr>l_id = ?i, l_owner = u, l_name = name,
           l_base_currency = ?c, l_basis = basis, l_append_only = False, l_threshold = Some 10000\<rparr>]\<rparr>"
  have c3: "char3 currency = Some ?c" using cur by (simp add: char3_short)
  have i: "?i \<notin> l_id ` set (ledgers db)" using fresh by (simp add: ledger_ids_fresh_def)
  have ins: "insert_ledger E \<lparr>l_id = 0, l_owner = u, l_name = name, l_base_currency = currency, l_basis = basis,
      l_append_only = False, l_threshold = Some 10000\<rparr> db = Inr (?i, ?db)"
    using i basis c3 by (auto simp: insert_ledger_def draw_def Let_def list_ex_key)
  have "\<exists>as n. try_fold (seed_account E ?i) ?db (default_chart_of_accounts currency)
        = Inr (?db\<lparr>accounts := accounts ?db @ as, drawn := n\<rparr>)
      \<and> list_all2 (seeded ?i ?c) (default_chart_of_accounts currency) as"
  proof (rule seed_accounts)
    show "inj (uuid_at E)" using fresh by (simp add: ledger_ids_fresh_def)
    show "uuid_at E n \<notin> a_id ` set (accounts ?db)" if "drawn ?db \<le> n" for n
      using that fresh by (simp add: ledger_ids_fresh_def)
    show "a_name a \<noteq> na_name na" if "a \<in> set (accounts ?db)" "a_ledger a = ?i" for a na
    proof -
      have "a_ledger a \<in> l_id ` set (ledgers db)" using fk that(1) by simp
      with i that(2) show ?thesis by simp
    qed
    show "na_subtype na \<in> set (valid_subtypes (na_type na)) \<and> char3 (na_currency na) = Some ?c"
      if "na \<in> set (default_chart_of_accounts currency)" for na
      using default_chart_well_typed [OF that] c3 by simp
  qed (simp_all add: default_chart_names_distinct)
  then obtain as n where "try_fold (seed_account E ?i) ?db (default_chart_of_accounts currency)
        = Inr (?db\<lparr>accounts := accounts ?db @ as, drawn := n\<rparr>)"
      "list_all2 (seeded ?i ?c) (default_chart_of_accounts currency) as" by blast
  then show ?thesis
    by (intro exI [of _ as] exI [of _ n]) (simp add: create_ledger_body_def ins)
qed

section \<open>Properties\<close>


text \<open>
  A new ledger is complete.  With a name and a three-byte currency, creation succeeds; the ledger
  belongs to its creator, who can write to it while nobody else can, its accounts are exactly the
  default chart, and no other ledger or account changes.
\<close>

theorem create_ledger_seeds_chart:
  assumes "ledger_ids_fresh E db" and "\<forall>a\<in>set (accounts db). a_ledger a \<in> l_id ` set (ledgers db)"
    and "\<forall>m\<in>set (members db). m_ledger m \<in> l_id ` set (ledgers db)"
    and "trim (f_name form) \<noteq> []" and "length (utf8 (to_uppercase (trim (f_base_currency form)))) = 3"
  shows "\<exists>i db'. create_ledger E (Some u) form db = (Inr (RedirectTo i), db')
     \<and> (\<exists>led as c. ledgers db' = ledgers db @ [led] \<and> accounts db' = accounts db @ as
          \<and> l_id led = i \<and> l_owner led = u \<and> l_name led = trim (f_name form)
          \<and> list_all2 (seeded i c) (default_chart_of_accounts (to_uppercase (trim (f_base_currency form)))) as
          \<and> (\<forall>v. ensure_writer db' v i = (if v = u then Inr led else Inl NotFound)))"
proof -
  let ?cur = "to_uppercase (trim (f_base_currency form))"
  let ?basis = "if trim (f_basis form) = ''cash'' then ''cash'' else ''accrual''"
  let ?i = "uuid_at E (drawn db)" and ?c = "take 3 (?cur @ replicate 3 (CHR '' ''))"
  let ?led = "\<lparr>l_id = ?i, l_owner = u, l_name = trim (f_name form), l_base_currency = ?c, l_basis = ?basis,
    l_append_only = False, l_threshold = Some 10000\<rparr>"
  have "?basis = ''cash'' \<or> ?basis = ''accrual''" by simp
  from create_ledger_body_Inr [OF assms(1,2,5) this, of u "trim (f_name form)"] obtain as n where
    body: "create_ledger_body E u (trim (f_name form)) ?cur ?basis db
        = Inr (?i, db\<lparr>ledgers := ledgers db @ [?led], accounts := accounts db @ as, drawn := n\<rparr>)"
    and as: "list_all2 (seeded ?i ?c) (default_chart_of_accounts ?cur) as"
    by blast
  let ?db1 = "db\<lparr>ledgers := ledgers db @ [?led], accounts := accounts db @ as, drawn := n\<rparr>"
  define db' where "db' = audit_log E (Some ?i) u ''create'' ''ledger'' (Some ?i) None
     (Some (JObj [(''name'', JStr (trim (f_name form))), (''currency'', JStr ?cur)])) ?db1"
  have run: "create_ledger E (Some u) form db = (Inr (RedirectTo ?i), db')"
    unfolding create_ledger_def Let_def using assms(4,5) body by (simp add: run_tx_def db'_def)
  have same: "ledgers db' = ledgers ?db1" "accounts db' = accounts ?db1" "members db' = members ?db1"
    unfolding db'_def using books_eqD [OF audit_log_books] by auto
  have i: "?i \<notin> l_id ` set (ledgers db)" using assms(1) by (simp add: ledger_ids_fresh_def)
  have led: "ledger_of db' ?i = Some ?led"
  proof -
    have none: "find (\<lambda>l. l_id l = ?i) (ledgers db) = None" using notin_imageD [OF i] by (auto simp: find_None_iff)
    show ?thesis by (simp add: ledger_of_def same find_append_None [OF none])
  qed
  have "find (\<lambda>m. m_ledger m = ?i \<and> m_user m = v) (members db') = None" for v
    using assms(3) i by (simp add: same find_None_iff) metis
  then have "ensure_writer db' v ?i = (if v = u then Inr ?led else Inl NotFound)" for v
    using led by (simp add: writer.check_spec role_def)
  with run as same show ?thesis by auto
qed

text \<open>
  Only the owner can switch append-only mode.  A ledger whose flag changed was switched by its
  owner to the requested value; everything else about the books is as before.
\<close>

theorem append_only_owner_only:
  assumes "members_wf db" and "toggle_append_only E user l enabled db = (r, db')"
  shows "books db' = books db
     \<or> (\<exists>u led. user = Some u \<and> ledger_of db l = Some led \<and> l_owner led = u \<and> l_append_only led \<noteq> enabled \<and> r = Inr ()
          \<and> books db' = books (db\<lparr>ledgers := map (\<lambda>x. if l_id x = l then x\<lparr>l_append_only := enabled\<rparr> else x) (ledgers db)\<rparr>))"
proof (cases "\<exists>u led. user = Some u \<and> ensure_owner_strict db u l = Inr led \<and> l_owner led = u \<and> l_append_only led \<noteq> enabled")
  case True
  then obtain u led where "user = Some u" "ensure_owner_strict db u l = Inr led" "l_owner led = u" "l_append_only led \<noteq> enabled"
    by blast
  with assms(2) show ?thesis
    by (auto simp: toggle_append_only_def owner_strict.granted audit_log_books)
next
  case False
  then have "db' = db"
    using assms(2) by (auto simp: toggle_append_only_def result_simps split: sum.splits if_splits option.splits)
  then show ?thesis by simp
qed

section \<open>Witnesses\<close>

definition sample_ledger_form :: new_ledger_form where
  "sample_ledger_form =
     \<lparr>f_name = ''Shop'', f_base_currency = ''eur'', f_timezone = [], f_basis = [], f_inventory_method = []\<rparr>"

definition sample_access :: db where
  "sample_access = empty_db
     \<lparr>ledgers := [\<lparr>l_id = 2, l_owner = 7, l_name = ''Books'', l_base_currency = ''USD'', l_basis = ''accrual'',
                   l_append_only = False, l_threshold = None\<rparr>],
      members := [\<lparr>m_ledger = 2, m_user = 8, m_role = ''editor''\<rparr>, \<lparr>m_ledger = 2, m_user = 9, m_role = ''auditor''\<rparr>]\<rparr>"

lemma sample_access_simps:
  "members_wf sample_access" "ledger_of sample_access 2 = Some (hd (ledgers sample_access))"
  "ledger_of sample_access 3 = None" "role sample_access 8 2 = Some ''editor''" "role sample_access 9 2 = Some ''auditor''"
  by (simp_all add: members_wf_def sample_access_def empty_db_def member_roles_def ledger_of_def role_def)


theorem create_ledger_seeds_chart_witness:
  "\<exists>i db'. create_ledger sample_env (Some 7) sample_ledger_form sample_access = (Inr (RedirectTo i), db')"
proof -
  have "ledger_ids_fresh sample_env sample_access"
    by (auto simp: ledger_ids_fresh_def sample_env_def sample_access_def empty_db_def inj_def)
  moreover have "trim (f_name sample_ledger_form) \<noteq> []"
    "length (utf8 (to_uppercase (trim (f_base_currency sample_ledger_form)))) = 3" by code_simp+
  ultimately show ?thesis
    using create_ledger_seeds_chart [of sample_env sample_access sample_ledger_form 7]
    by (auto simp: sample_access_def empty_db_def)
qed

theorem append_only_owner_only_witness:
  "books (snd (toggle_append_only sample_env (Some 8) 2 True sample_access)) = books sample_access"
  using append_only_owner_only [OF sample_access_simps(1), of sample_env "Some 8" 2 True]
  by (cases "toggle_append_only sample_env (Some 8) 2 True sample_access")
    (auto simp: sample_access_simps, simp add: sample_access_def)

end
