(* ===== verification/Period_Close.thy ===== *)
theory Period_Close
  imports Posting_Invariants Ledger_Access
begin

text \<open>
  Closing and reopening periods, approving journals and setting the approval threshold over HTTP:
  \<^verbatim>\<open>src/src/handlers/closing.rs\<close>.  The handlers compose the access checks of \<^verbatim>\<open>handlers/ledgers.rs\<close>, the
  close controls and the posting service.
\<close>

section \<open>Rows of closed periods\<close>

definition insert_closed_period :: "closed_row \<Rightarrow> db \<Rightarrow> db_error + db" where
  "insert_closed_period r db =
     (if ledger_of db (cp_ledger r) = None then Inl (ForeignKeyViolation ''closed_periods_ledger_id_fkey'')
      else if list_ex (\<lambda>c. cp_ledger c = cp_ledger r \<and> cp_year c = cp_year r) (closed_periods db)
        then Inl (UniqueViolation ''closed_periods_ledger_id_period_year_key'')
      else Inr (db\<lparr>closed_periods := closed_periods db @ [r]\<rparr>))"

definition signed_in :: "uuid option \<Rightarrow> app_error + uuid" where
  "signed_in user = ok_or Unauthorized user"

section \<open>Closing a year\<close>

text \<open>
  The income and expense accounts with a balance.  The dates of the year stand in the second outer
  join, so they filter no posting: every posting of the account counts, whatever its date.
\<close>

definition raw_net :: "db \<Rightarrow> uuid \<Rightarrow> decimal" where
  "raw_net db a =
     (let ps = filter (\<lambda>p. p_account p = a) (postings db) in debit_sum ps - credit_sum ps)"

definition account_balances :: "db \<Rightarrow> uuid \<Rightarrow> (uuid \<times> string \<times> decimal) list" where
  "account_balances db ledger_id =
     map (\<lambda>a. (a_id a, a_type a, raw_net db (a_id a)))
       (filter (\<lambda>a. a_ledger a = ledger_id \<and> (a_type a = ''INCOME'' \<or> a_type a = ''EXPENSE'')
                  \<and> raw_net db (a_id a) \<noteq> 0) (accounts db))"

definition retained_earnings :: "env \<Rightarrow> uuid \<Rightarrow> string \<Rightarrow> (db, db_error, uuid) tx" where
  "retained_earnings E ledger_id base_currency db =
     (case find (\<lambda>a. a_ledger a = ledger_id \<and> a_subtype a = ''RETAINED_EARNINGS'') (accounts db) of
        Some a \<Rightarrow> Inr (a_id a, db)
      | None \<Rightarrow>
          insert_account E
            \<lparr>a_id = 0, a_ledger = ledger_id, a_name = ''Retained Earnings'', a_code = Some ''3050'',
             a_type = ''EQUITY'', a_subtype = ''RETAINED_EARNINGS'', a_currency = base_currency,
             a_archived = False\<rparr> db)"

definition net_income :: "(uuid \<times> string \<times> decimal) list \<Rightarrow> decimal" where
  "net_income bs =
     foldl (\<lambda>acc (_, ty, raw). if ty = ''INCOME'' then acc - raw
                              else if ty = ''EXPENSE'' then acc + raw else acc) 0 bs"

definition closing_posting :: "uuid \<Rightarrow> uuid \<Rightarrow> decimal \<Rightarrow> string \<Rightarrow> string \<Rightarrow> posting_row" where
  "closing_posting txn account amount dir memo =
     \<lparr>p_id = 0, p_txn = txn, p_account = account, p_amount = amount, p_direction = dir, p_memo = Some memo,
      p_foreign_amount = None, p_foreign_currency = None, p_cost_center = None, p_project = None\<rparr>"

definition add_posting :: "env \<Rightarrow> posting_row \<Rightarrow> db \<Rightarrow> db_error + db" where
  "add_posting E r db = rbind (insert_posting E r db) (\<lambda>(_, db'). Inr db')"

definition close_account :: "env \<Rightarrow> uuid \<Rightarrow> db \<Rightarrow> uuid \<times> string \<times> decimal \<Rightarrow> db_error + db" where
  "close_account E txn db b =
     (let (account, ty, raw) = b in
      if \<bar>raw\<bar> = 0 then Inr db
      else if ty = ''INCOME'' then add_posting E (closing_posting txn account \<bar>raw\<bar> ''DEBIT'' ''Close to retained earnings'') db
      else if ty = ''EXPENSE'' then add_posting E (closing_posting txn account \<bar>raw\<bar> ''CREDIT'' ''Close to retained earnings'') db
      else Inr db)"

definition close_to_equity :: "env \<Rightarrow> uuid \<Rightarrow> uuid \<Rightarrow> decimal \<Rightarrow> db \<Rightarrow> db_error + db" where
  "close_to_equity E txn account ni db =
     (if 0 < ni then add_posting E (closing_posting txn account ni ''CREDIT'' ''Net income for year'') db
      else if ni < 0 then add_posting E (closing_posting txn account \<bar>ni\<bar> ''DEBIT'' ''Net loss for year'') db
      else Inr db)"

definition year_end_txn :: "ledger_row \<Rightarrow> int \<Rightarrow> date \<Rightarrow> uuid \<Rightarrow> txn_row" where
  "year_end_txn ledger year period_end user_id =
     \<lparr>t_id = 0, t_ledger = l_id ledger, t_date = period_end, t_description = ''Year-end close '' @ show_int year,
      t_payee = None, t_reference = None, t_currency = l_base_currency ledger, t_kind = ''closing'',
      t_created_by = user_id, t_created_at = 0, t_reverses = None, t_number = None\<rparr>"

text \<open>The body between \<^verbatim>\<open>BEGIN\<close> and \<^verbatim>\<open>COMMIT\<close>.\<close>

definition close_year_body :: "env \<Rightarrow> ledger_row \<Rightarrow> int \<Rightarrow> uuid \<Rightarrow> (db, app_error, date) tx" where
  "close_year_body E ledger year user_id db =
     (let ledger_id = l_id ledger in
      if list_ex (\<lambda>c. cp_ledger c = ledger_id \<and> cp_year c = year) (closed_periods db)
      then Inl (Validation (''Period '' @ show_int year @ '' is already closed.''))
      else
        rbind (ok_or (Internal ''Invalid year'') (from_ymd_opt year 1 1)) (\<lambda>period_start.
        rbind (ok_or (Internal ''Invalid year'') (from_ymd_opt year 12 31)) (\<lambda>period_end.
        map_err AppDb (
          let bs = account_balances db ledger_id in
          rbind (retained_earnings E ledger_id (l_base_currency ledger) db) (\<lambda>(equity, db1).
          rbind (insert_transaction E (year_end_txn ledger year period_end user_id) db1) (\<lambda>(txn, db2).
          rbind (try_fold (close_account E txn) db2 bs) (\<lambda>db3.
          rbind (close_to_equity E txn equity (net_income bs) db3) (\<lambda>db4.
          rbind (insert_closed_period
                   \<lparr>cp_ledger = ledger_id, cp_year = year, cp_by = user_id, cp_through = Some period_end\<rparr> db4) (\<lambda>db5.
          Inr (period_end, db5))))))))))"

definition close_year :: "env \<Rightarrow> uuid option \<Rightarrow> uuid \<Rightarrow> int \<Rightarrow> db \<Rightarrow> (app_error + unit) \<times> db" where
  "close_year E user ledger_id year db =
     (case rbind (signed_in user) (\<lambda>user_id. rbind (ensure_owner db user_id ledger_id) (\<lambda>l. Inr (user_id, l))) of
        Inl e \<Rightarrow> (Inl e, db)
      | Inr (user_id, ledger) \<Rightarrow>
          (case run_tx (close_year_body E ledger year user_id) db of
             (Inl e, db1) \<Rightarrow> (Inl e, db1)
           | (Inr period_end, db1) \<Rightarrow>
               (Inr (), audit_log E (Some ledger_id) user_id ''close'' ''period'' None None
                  (Some (JObj [(''year'', JNum (of_int year)), (''closed_through'', JDate period_end)])) db1)))"

section \<open>Closing through a date, reopening\<close>

definition close_period :: "env \<Rightarrow> uuid option \<Rightarrow> uuid \<Rightarrow> string \<Rightarrow> db \<Rightarrow> (app_error + unit) \<times> db" where
  "close_period E user ledger_id closed_through db =
     (case
        rbind (signed_in user) (\<lambda>user_id.
        rbind (ensure_owner_or_admin db user_id ledger_id) (\<lambda>_.
        rbind (ok_or (Validation ''Invalid closed_through date (YYYY-MM-DD)'') (parse_date E (trim closed_through))) (\<lambda>through.
        rbind (case closed_through_for db ledger_id of
                 Some w \<Rightarrow> if through \<le> w then Inl (Validation (''Ledger is already closed through '' @ show_date w @ ''.''))
                          else Inr ()
               | None \<Rightarrow> Inr ()) (\<lambda>_.
        rbind (map_err AppDb (insert_closed_period
                 \<lparr>cp_ledger = ledger_id, cp_year = date_year through, cp_by = user_id, cp_through = Some through\<rparr> db)) (\<lambda>db1.
        Inr (user_id, through, db1)))))) of
        Inl e \<Rightarrow> (Inl e, db)
      | Inr (user_id, through, db1) \<Rightarrow>
          (Inr (), audit_log E (Some ledger_id) user_id ''close'' ''period'' None None
             (Some (JObj [(''closed_through'', JDate through)])) db1))"

record reopen_form =
  rf_reason :: string
  rf_closed_through :: "string option"

definition reopen_target :: "env \<Rightarrow> string option \<Rightarrow> app_error + date option" where
  "reopen_target E closed_through =
     (case map_option trim closed_through of
        None \<Rightarrow> Inr None
      | Some s \<Rightarrow> if s = [] then Inr None
                 else rbind (ok_or (Validation ''Invalid closed_through date'') (parse_date E s)) (\<lambda>d. Inr (Some d)))"

definition drop_closed :: "uuid \<Rightarrow> date option \<Rightarrow> db \<Rightarrow> db" where
  "drop_closed ledger_id through db =
     (case through of
        Some d \<Rightarrow>
          db\<lparr>closed_periods :=
               filter (\<lambda>c. \<not> (cp_ledger c = ledger_id \<and> date_year d \<le> cp_year c \<and> cp_through c = None))
                 (filter (\<lambda>c. \<not> (cp_ledger c = ledger_id \<and> (case cp_through c of None \<Rightarrow> False | Some t \<Rightarrow> d \<le> t)))
                    (closed_periods db))\<rparr>
      | None \<Rightarrow> db\<lparr>closed_periods := filter (\<lambda>c. cp_ledger c \<noteq> ledger_id) (closed_periods db)\<rparr>)"

text \<open>The \<^verbatim>\<open>CHECK\<close> on the length of the reason repeats \<^verbatim>\<open>validate_reason\<close>.\<close>

definition insert_reopen :: "reopen_row \<Rightarrow> db \<Rightarrow> db_error + db" where
  "insert_reopen r db =
     (if ledger_of db (ro_ledger r) = None then Inl (ForeignKeyViolation ''reopen_events_ledger_id_fkey'')
      else if length (ro_reason r) < 10 then Inl (CheckViolation ''reopen_events_reason_check'')
      else Inr (db\<lparr>reopen_events := reopen_events db @ [r]\<rparr>))"

definition reopen_period :: "env \<Rightarrow> uuid option \<Rightarrow> uuid \<Rightarrow> reopen_form \<Rightarrow> db \<Rightarrow> (app_error + unit) \<times> db" where
  "reopen_period E user ledger_id form db =
     (case
        rbind (signed_in user) (\<lambda>user_id.
        rbind (ensure_owner_or_admin db user_id ledger_id) (\<lambda>_.
        rbind (map_err Validation (validate_reason (rf_reason form))) (\<lambda>reason.
        rbind (reopen_target E (rf_closed_through form)) (\<lambda>through. Inr (user_id, reason, through))))) of
        Inl e \<Rightarrow> (Inl e, db)
      | Inr (user_id, reason, through) \<Rightarrow>
          (let db1 = drop_closed ledger_id through db in
           case insert_reopen \<lparr>ro_ledger = ledger_id, ro_through = through, ro_by = user_id, ro_reason = reason\<rparr> db1 of
             Inl e \<Rightarrow> (Inl (AppDb e), db1)
           | Inr db2 \<Rightarrow>
               (Inr (), audit_log E (Some ledger_id) user_id ''reopen'' ''period'' None None
                  (Some (JObj [(''closed_through'', opt_json JDate through), (''reason'', JStr reason)])) db2)))"

section \<open>Approvals over HTTP\<close>

text \<open>\<open>display\<close> is the text of an error; it prints identifiers and decimals, which third-party crates format.\<close>

definition approval_result ::
  "(posting_service_error \<Rightarrow> string) \<Rightarrow> string \<Rightarrow> posting_service_error + unit \<Rightarrow> app_error + unit" where
  "approval_result display verb r =
     (case r of
        Inr () \<Rightarrow> Inr ()
      | Inl SelfApproval \<Rightarrow> Inl (ForbiddenMsg (''Maker cannot '' @ verb @ '' their own journal.''))
      | Inl NotPending \<Rightarrow> Inl (Validation ''Journal is not pending approval.'')
      | Inl (Posting_Service.Db e) \<Rightarrow> Inl (AppDb e)
      | Inl e \<Rightarrow> Inl (Internal (display e)))"

definition approve :: "env \<Rightarrow> (posting_service_error \<Rightarrow> string) \<Rightarrow> uuid option \<Rightarrow> uuid \<Rightarrow> uuid \<Rightarrow> db \<Rightarrow> (app_error + unit) \<times> db" where
  "approve E display user ledger_id txn_id db =
     (case rbind (signed_in user) (\<lambda>user_id. rbind (ensure_writer db user_id ledger_id) (\<lambda>_. Inr user_id)) of
        Inl e \<Rightarrow> (Inl e, db)
      | Inr user_id \<Rightarrow>
          (let (r, db1) = approve_journal E ledger_id txn_id user_id db in (approval_result display ''approve'' r, db1)))"

definition reject :: "env \<Rightarrow> (posting_service_error \<Rightarrow> string) \<Rightarrow> uuid option \<Rightarrow> uuid \<Rightarrow> uuid \<Rightarrow> db \<Rightarrow> (app_error + unit) \<times> db" where
  "reject E display user ledger_id txn_id db =
     (case rbind (signed_in user) (\<lambda>user_id. rbind (ensure_writer db user_id ledger_id) (\<lambda>_. Inr user_id)) of
        Inl e \<Rightarrow> (Inl e, db)
      | Inr user_id \<Rightarrow>
          (let (r, db1) = reject_journal E ledger_id txn_id user_id db in (approval_result display ''reject'' r, db1)))"

definition update_threshold :: "env \<Rightarrow> uuid option \<Rightarrow> uuid \<Rightarrow> string \<Rightarrow> db \<Rightarrow> (app_error + unit) \<times> db" where
  "update_threshold E user ledger_id text db =
     (case
        rbind (signed_in user) (\<lambda>user_id.
        rbind (ensure_owner_or_admin db user_id ledger_id) (\<lambda>_.
        rbind (ok_or (Validation ''Invalid threshold'') (parse_dec E (trim text))) (\<lambda>threshold.
        if threshold < 0 then Inl (Validation ''Threshold cannot be negative'')
        else rbind (ok_or (AppDb NumericOverflow) (numeric_col 20 4 threshold)) (\<lambda>v. Inr (user_id, threshold, v))))) of
        Inl e \<Rightarrow> (Inl e, db)
      | Inr (user_id, threshold, v) \<Rightarrow>
          (Inr (), audit_log E (Some ledger_id) user_id ''update_threshold'' ''ledger'' (Some ledger_id) None
             (Some (JObj [(''approval_threshold'', JDec threshold)]))
             (db\<lparr>ledgers := map (\<lambda>l. if l_id l = ledger_id then l\<lparr>l_threshold := Some v\<rparr> else l) (ledgers db)\<rparr>)))"

definition approval_queue :: "db \<Rightarrow> uuid option \<Rightarrow> uuid \<Rightarrow> app_error + (uuid \<times> string \<times> date \<times> decimal \<times> uuid) list" where
  "approval_queue db user ledger_id =
     rbind (signed_in user) (\<lambda>user_id.
     rbind (ensure_writer db user_id ledger_id) (\<lambda>_.
     Inr (List.map_filter (\<lambda>ja. map_option (\<lambda>t. (t_id t, t_description t, t_date t, ja_amount ja, ja_maker ja)) (txn_of db (ja_txn ja)))
            (filter (\<lambda>ja. ja_ledger ja = ledger_id \<and> ja_status ja = ''pending'') (approvals db)))))"

section \<open>What a year-end close posts\<close>

definition net :: "posting_row list \<Rightarrow> decimal" where
  "net ps = debit_sum ps - credit_sum ps"

abbreviation net_of :: "posting_row list \<Rightarrow> uuid \<Rightarrow> decimal" where
  "net_of ps a \<equiv> net (filter (\<lambda>p. p_account p = a) ps)"

lemma net_simps [simp]: "net [] = 0" "net (ps @ qs) = net ps + net qs"
  "net (p # ps) = (if is_debit p then p_amount p else if is_credit p then - p_amount p else 0) + net ps"
  by (auto simp: net_def debit_sum_def credit_sum_def is_debit_def is_credit_def)

lemma raw_net_eq: "raw_net db a = net_of (postings db) a"
  by (simp add: raw_net_def net_def Let_def)

lemma net_on_grid: "\<forall>p\<in>set ps. on_grid 4 (p_amount p) \<Longrightarrow> on_grid 4 (net ps)"
  by (induction ps) (auto simp: on_grid_add)

lemma raw_net_on_grid: "db_wf db \<Longrightarrow> on_grid 4 (raw_net db a)"
  unfolding raw_net_eq by (rule net_on_grid) (auto simp: db_wf_def posting_wf_def list_all_iff)

lemma add_posting_Inr:
  assumes "add_posting E r db = Inr db'" and "on_grid 4 (p_amount r)"
  obtains p where "db' = db\<lparr>drawn := Suc (drawn db), postings := postings db @ [p]\<rparr>"
    and "p_txn p = p_txn r" and "p_account p = p_account r" and "p_amount p = p_amount r"
    and "p_direction p = p_direction r"
proof -
  from assms(1) obtain i where "insert_posting E r db = Inr (i, db')" by (auto simp: add_posting_def result_simps)
  then show thesis
  proof (rule insert_posting_Inr)
    fix q
    assume q: "posting_values r = Inr q" "db' = db\<lparr>drawn := Suc (drawn db), postings := postings db @ [q\<lparr>p_id := i\<rparr>]\<rparr>"
    have "p_amount q = p_amount r"
      using posting_values_Inr [OF q(1)] assms(2) by (auto dest!: numeric_col_Some simp: away.rnd_exact)
    with posting_values_Inr [OF q(1)] q(2) show thesis by (intro that [of "q\<lparr>p_id := i\<rparr>"]) simp_all
  qed
qed

text \<open>The posting that closes one account.\<close>

definition closes :: "uuid \<Rightarrow> uuid \<times> string \<times> decimal \<Rightarrow> posting_row \<Rightarrow> bool" where
  "closes t b p \<longleftrightarrow>
     p_txn p = t \<and> p_account p = fst b \<and> p_amount p = \<bar>snd (snd b)\<bar>
   \<and> p_direction p = (if fst (snd b) = ''INCOME'' then ''DEBIT'' else ''CREDIT'')"

definition closable :: "uuid \<times> string \<times> decimal \<Rightarrow> bool" where
  "closable b \<longleftrightarrow> fst (snd b) \<in> {''INCOME'', ''EXPENSE''} \<and> snd (snd b) \<noteq> 0 \<and> on_grid 4 (snd (snd b))"

lemma close_accounts_Inr:
  assumes "try_fold (close_account E t) db bs = Inr db'" and "\<forall>b\<in>set bs. closable b"
  shows "\<exists>ps n. db' = db\<lparr>drawn := n, postings := postings db @ ps\<rparr> \<and> list_all2 (closes t) bs ps"
  using assms
proof (induction bs arbitrary: db)
  case Nil
  then show ?case by (intro exI [of _ "[]"] exI [of _ "drawn db"]) simp
next
  case (Cons b bs)
  obtain a ty raw where b: "b = (a, ty, raw)" by (cases b)
  let ?dir = "if ty = ''INCOME'' then ''DEBIT'' else ''CREDIT''"
  from Cons.prems obtain db1 where db1: "close_account E t db b = Inr db1" "try_fold (close_account E t) db1 bs = Inr db'"
    by (auto simp: result_simps)
  have "add_posting E (closing_posting t a \<bar>raw\<bar> ?dir ''Close to retained earnings'') db = Inr db1"
    using db1(1) Cons.prems(2) by (auto simp: close_account_def b closable_def split: if_splits)
  then obtain p where p: "db1 = db\<lparr>drawn := Suc (drawn db), postings := postings db @ [p]\<rparr>" "closes t b p"
    using Cons.prems(2) by (elim add_posting_Inr) (auto simp: closing_posting_def closes_def closable_def b)
  from Cons.IH [OF db1(2)] Cons.prems(2) obtain ps n where
    "db' = db1\<lparr>drawn := n, postings := postings db1 @ ps\<rparr>" "list_all2 (closes t) bs ps" by auto
  with p show ?case by (intro exI [of _ "p # ps"] exI [of _ n]) simp
qed

lemma close_to_equity_Inr:
  assumes "close_to_equity E t a ni db = Inr db'" and "on_grid 4 ni"
  obtains ps n where "db' = db\<lparr>drawn := n, postings := postings db @ ps\<rparr>" and "net ps = - ni"
    and "\<forall>p\<in>set ps. p_txn p = t \<and> p_account p = a"
proof (cases "ni = 0")
  case True
  with assms(1) show thesis by (intro that [of "[]" "drawn db"]) (simp_all add: close_to_equity_def)
next
  case False
  let ?r = "closing_posting t a \<bar>ni\<bar> (if 0 < ni then ''CREDIT'' else ''DEBIT'')
    (if 0 < ni then ''Net income for year'' else ''Net loss for year'')"
  have "add_posting E ?r db = Inr db'" using assms(1) False by (auto simp: close_to_equity_def split: if_splits)
  then obtain p where p: "db' = db\<lparr>drawn := Suc (drawn db), postings := postings db @ [p]\<rparr>"
    "p_txn p = t" "p_account p = a" "p_amount p = \<bar>ni\<bar>" "p_direction p = (if 0 < ni then ''CREDIT'' else ''DEBIT'')"
    using assms(2) by (elim add_posting_Inr) (auto simp: closing_posting_def)
  then show thesis
    by (intro that [of "[p]" "Suc (drawn db)"]) (auto simp: is_debit_def is_credit_def)
qed

lemma close_year_body_Inr:
  assumes wf: "db_wf db" and run: "close_year_body E ledger y u db = Inr (d, db5)"
  obtains equity db1 t ps qs n where "retained_earnings E (l_id ledger) (l_base_currency ledger) db = Inr (equity, db1)"
    and "t \<notin> t_id ` set (transactions db)" and "d = Date y 12 31"
    and "list_all2 (closes t) (account_balances db (l_id ledger)) ps"
    and "net qs = - net_income (account_balances db (l_id ledger))" and "\<forall>p\<in>set qs. p_txn p = t \<and> p_account p = equity"
    and "postings db5 = postings db @ ps @ qs" and "accounts db5 = accounts db1"
    and "map t_id (transactions db5) = map t_id (transactions db) @ [t]"
    and "closed_periods db5 = closed_periods db
           @ [\<lparr>cp_ledger = l_id ledger, cp_year = y, cp_by = u, cp_through = Some d\<rparr>]"
proof -
  let ?bs = "account_balances db (l_id ledger)"
  from run obtain equity db1 t db2 db3 db4 where
    d: "d = Date y 12 31" and 1: "retained_earnings E (l_id ledger) (l_base_currency ledger) db = Inr (equity, db1)" and
    2: "insert_transaction E (year_end_txn ledger y d u) db1 = Inr (t, db2)" and
    3: "try_fold (close_account E t) db2 ?bs = Inr db3" and
    4: "close_to_equity E t equity (net_income ?bs) db3 = Inr db4" and
    5: "insert_closed_period \<lparr>cp_ledger = l_id ledger, cp_year = y, cp_by = u, cp_through = Some d\<rparr> db4 = Inr db5"
    by (auto simp: close_year_body_def Let_def result_simps split: if_splits dest!: from_ymd_opt_SomeD)
  have re: "transactions db1 = transactions db" "postings db1 = postings db" "closed_periods db1 = closed_periods db"
    using 1 by (auto simp: retained_earnings_def insert_account_Inr split: option.splits)
  have cl: "\<forall>b\<in>set ?bs. closable b"
    using raw_net_on_grid [OF wf] by (auto simp: account_balances_def closable_def)
  from close_accounts_Inr [OF 3 this] obtain ps n where
    db3: "db3 = db2\<lparr>drawn := n, postings := postings db2 @ ps\<rparr>" and ps: "list_all2 (closes t) ?bs ps" by blast
  have "on_grid 4 (foldl (\<lambda>acc (_, ty, raw). if ty = ''INCOME'' then acc - raw
      else if ty = ''EXPENSE'' then acc + raw else acc) x bs)"
    if "on_grid 4 x" "\<forall>b\<in>set bs. closable b" for x bs
    using that
  proof (induction bs arbitrary: x)
    case (Cons b bs)
    have "on_grid 4 (x - snd (snd b))" "on_grid 4 (x + snd (snd b))"
      using Cons.prems on_grid_add [of 4 x "- snd (snd b)"] by (auto simp: closable_def on_grid_add)
    with Cons show ?case by (cases b) auto
  qed simp
  then have "on_grid 4 (net_income ?bs)" using cl by (simp add: net_income_def)
  from close_to_equity_Inr [OF 4 this] obtain qs m where
    db4: "db4 = db3\<lparr>drawn := m, postings := postings db3 @ qs\<rparr>" and qs: "net qs = - net_income ?bs"
      "\<forall>p\<in>set qs. p_txn p = t \<and> p_account p = equity" by blast
  have db5: "db5 = db4\<lparr>closed_periods := closed_periods db4 @
      [\<lparr>cp_ledger = l_id ledger, cp_year = y, cp_by = u, cp_through = Some d\<rparr>]\<rparr>"
    using 5 by (auto simp: insert_closed_period_def split: if_splits)
  from 2 re show thesis
    by (intro that [OF 1 _ d ps qs]) (auto simp: insert_transaction_Inr db3 db4 db5)
qed

text \<open>Income accounts in credit, expense accounts in debit.\<close>

definition natural :: "uuid \<times> string \<times> decimal \<Rightarrow> bool" where
  "natural b \<longleftrightarrow> (if fst (snd b) = ''INCOME'' then snd (snd b) < 0 else 0 < snd (snd b))"

definition expenses :: "(uuid \<times> string \<times> decimal) list \<Rightarrow> decimal" where
  "expenses bs = sum_list (map (\<lambda>b. if fst (snd b) = ''EXPENSE'' then snd (snd b) else 0) bs)"

lemma closes_net:
  assumes "list_all2 (closes t) bs ps" and "\<forall>b\<in>set bs. closable b \<and> natural b"
  shows "net ps - net_income bs = - 2 * expenses bs"
proof -
  let ?f = "\<lambda>acc (_, ty, raw). if ty = ''INCOME'' then acc - raw else if ty = ''EXPENSE'' then acc + raw else acc"
  have "net ps - foldl ?f x bs = - x - 2 * expenses bs" for x
    using assms
  proof (induction bs ps arbitrary: x rule: list_all2_induct)
    case Nil
    then show ?case by (simp add: expenses_def)
  next
    case (Cons b bs p ps)
    obtain c ty raw where b: "b = (c, ty, raw)" by (cases b)
    have ih: "net ps - foldl ?f y bs = - y - 2 * expenses bs" for y using Cons by simp
    have "ty = ''INCOME'' \<and> raw < 0 \<or> ty = ''EXPENSE'' \<and> 0 < raw"
      using Cons.prems by (auto simp: b closable_def natural_def)
    then show ?case
      using Cons.hyps(1) ih [of "x - raw"] ih [of "x + raw"]
      by (auto simp: b closes_def expenses_def is_debit_def is_credit_def)
  qed
  from this [of 0] show ?thesis by (simp add: net_income_def)
qed

lemma closes_net_of:
  assumes "list_all2 (closes t) bs ps" and "\<forall>b\<in>set bs. closable b \<and> natural b" and "distinct (map fst bs)"
  shows "net_of ps a = (case map_of bs a of None \<Rightarrow> 0 | Some (ty, raw) \<Rightarrow> - raw)"
  using assms
proof (induction bs ps rule: list_all2_induct)
  case Nil
  then show ?case by simp
next
  case (Cons b bs p ps)
  obtain c ty raw where b: "b = (c, ty, raw)" by (cases b)
  show ?case
  proof (cases "c = a")
    case True
    then have "map_of bs a = None" using Cons.prems(2) by (simp add: map_of_eq_None_iff b)
    with Cons True show ?thesis
      by (auto simp: b closes_def closable_def natural_def is_debit_def is_credit_def)
  next
    case False
    with Cons show ?thesis by (simp add: b closes_def)
  qed
qed

lemma account_balances_natural:
  assumes "db_wf db" and "list_all natural (account_balances db l)"
  shows "\<forall>b\<in>set (account_balances db l). closable b \<and> natural b" "distinct (map fst (account_balances db l))"
proof -
  show "\<forall>b\<in>set (account_balances db l). closable b \<and> natural b"
    using assms raw_net_on_grid [OF assms(1)] by (auto simp: list_all_iff account_balances_def closable_def)
  have "map fst (account_balances db l) = map a_id (filter (\<lambda>a. a_ledger a = l
      \<and> (a_type a = ''INCOME'' \<or> a_type a = ''EXPENSE'') \<and> raw_net db (a_id a) \<noteq> 0) (accounts db))"
    by (simp add: account_balances_def comp_def)
  then show "distinct (map fst (account_balances db l))"
    using assms(1) by (simp add: db_wf_def distinct_map_filter)
qed

lemma close_year_runs:
  assumes "close_year E user l y db = (Inr (), db')"
  obtains u ledger d db5 where "user = Some u" and "ensure_owner db u l = Inr ledger"
    and "close_year_body E ledger y u db = Inr (d, db5)" and "books db' = books db5" and "l_id ledger = l"
proof -
  from assms obtain u ledger d db5 where "user = Some u" "ensure_owner db u l = Inr ledger"
    "close_year_body E ledger y u db = Inr (d, db5)" "books db' = books db5"
    by (auto simp: close_year_def signed_in_def result_simps audit_log_books split: sum.splits prod.splits)
  moreover then have "l_id ledger = l" by (auto simp: ensure_owner_def result_simps dest!: find_Some_mem)
  ultimately show thesis by (intro that)
qed

lemma postings_of_new:
  assumes "db_wf db" and "t \<notin> t_id ` set (transactions db)"
  shows "filter (\<lambda>p. p_txn p = t) (postings db) = []"
  using assms by (auto simp: db_wf_def posting_wf_def list_all_iff filter_empty_conv)

lemma retained_earnings_account:
  assumes "db_wf db" and "\<forall>a\<in>set (accounts db). subtype_allowed (a_type a) (a_subtype a)"
    and "retained_earnings E l cur db = Inr (equity, db1)" and "a \<in> set (accounts db1)"
    and "a_type a = ''INCOME'' \<or> a_type a = ''EXPENSE''"
  shows "a \<in> set (accounts db) \<and> a_id a \<noteq> equity"
proof (cases "find (\<lambda>a. a_ledger a = l \<and> a_subtype a = ''RETAINED_EARNINGS'') (accounts db)")
  case None
  with assms(3) obtain x where x: "accounts db1 = accounts db @ [x]" "a_type x = ''EQUITY''"
      "equity \<notin> a_id ` set (accounts db)" by (auto simp: retained_earnings_def insert_account_Inr)
  have "a \<noteq> x" using assms(5) x(2) by auto
  then have "a \<in> set (accounts db)" using assms(4) x(1) by simp
  with notin_imageD [OF x(3)] show ?thesis by blast
next
  case (Some r)
  then have r: "r \<in> set (accounts db)" "a_subtype r = ''RETAINED_EARNINGS''" by (auto dest: find_Some_mem)
  have "subtype_allowed (a_type r) ''RETAINED_EARNINGS''" using assms(2) r by fastforce
  then have "a_type r = ''EQUITY''"
    by (auto simp: subtype_allowed_def account_type_from_db_def split: if_splits)
  then have "a \<noteq> r" using assms(5) by auto
  moreover have "equity = a_id r" "db1 = db" using assms(3) Some by (auto simp: retained_earnings_def)
  ultimately show ?thesis using assms(1,4) r(1) by (auto simp: db_wf_def distinct_map inj_on_def)
qed

lemma account_balances_map_of:
  assumes "db_wf db" and "a \<in> set (accounts db)" and "a_ledger a = l"
    and "a_type a = ''INCOME'' \<or> a_type a = ''EXPENSE''"
  shows "map_of (account_balances db l) (a_id a)
     = (if raw_net db (a_id a) = 0 then None else Some (a_type a, raw_net db (a_id a)))"
proof -
  have inj: "b = a" if "b \<in> set (accounts db)" "a_id b = a_id a" for b
    using assms(1,2) that by (auto simp: db_wf_def distinct_map inj_on_def)
  show ?thesis
  proof (cases "raw_net db (a_id a) = 0")
    case True
    then show ?thesis using inj by (auto simp: map_of_eq_None_iff account_balances_def)
  next
    case False
    have "distinct (map fst (account_balances db l))"
      using assms(1) by (simp add: account_balances_def comp_def db_wf_def distinct_map_filter)
    moreover have "(a_id a, a_type a, raw_net db (a_id a)) \<in> set (account_balances db l)"
      using assms(2-4) False by (force simp: account_balances_def)
    ultimately show ?thesis using False by (simp add: map_of_is_SomeI)
  qed
qed

lemma closed_through_covers:
  assumes "c \<in> set (periods_of db l)" and "cp_through c = Some d"
  shows "is_closed (closed_through_for db l) d"
  by (rule closed_through_cases [of db l]) (use assms in \<open>auto simp: is_closed_def\<close>)

section \<open>Properties of closing\<close>

text \<open>
  The year-end entry does not balance.  When income accounts are in credit and expense accounts in
  debit, a successful close adds one transaction whose credits exceed its debits by twice the total
  of the expenses, because expenses are added to the net income instead of subtracted.
\<close>

theorem close_year_unbalanced:
  assumes "db_wf db" and "close_year E user l y db = (Inr (), db')" and "list_all natural (account_balances db l)"
  shows "\<exists>t. map t_id (transactions db') = map t_id (transactions db) @ [t]
     \<and> credit_sum (postings_of db' t) - debit_sum (postings_of db' t) = 2 * expenses (account_balances db l)"
  using assms(2)
proof (rule close_year_runs)
  fix u ledger d db5
  assume b: "close_year_body E ledger y u db = Inr (d, db5)" and same: "books db' = books db5" and l: "l_id ledger = l"
  from assms(1) b show ?thesis
  proof (rule close_year_body_Inr)
    fix equity db1 t ps qs n
    assume t: "t \<notin> t_id ` set (transactions db)" and ps: "list_all2 (closes t) (account_balances db (l_id ledger)) ps"
      and qs: "net qs = - net_income (account_balances db (l_id ledger))" "\<forall>p\<in>set qs. p_txn p = t \<and> p_account p = equity"
      and po: "postings db5 = postings db @ ps @ qs" and ts: "map t_id (transactions db5) = map t_id (transactions db) @ [t]"
    have "filter (\<lambda>p. p_txn p = t) ps = ps"
      using ps by (induction rule: list_all2_induct) (auto simp: closes_def)
    then have "postings_of db' t = ps @ qs"
      using postings_of_new [OF assms(1) t] qs(2) books_eqD(6) [OF same] by (simp add: postings_of_def po filter_True)
    then have "net (postings_of db' t) = - 2 * expenses (account_balances db l)"
      using closes_net [OF ps] account_balances_natural(1) [OF assms(1,3)] qs(1) by (simp add: l)
    with ts books_eqD(5) [OF same] show ?thesis by (intro exI [of _ t]) (simp add: net_def)
  qed
qed

text \<open>
  A year-end close empties the income and expense accounts.  Under the same condition on the signs,
  no income or expense account of the ledger has a balance afterwards, and the watermark of the
  ledger's closed periods gains the last day of the year.
\<close>

theorem close_year_zeroes_accounts:
  assumes "db_wf db" and "close_year E user l y db = (Inr (), db')" and "list_all natural (account_balances db l)"
    and "\<forall>a\<in>set (accounts db). subtype_allowed (a_type a) (a_subtype a)"
  shows "account_balances db' l = [] \<and> is_closed (closed_through_for db' l) (Date y 12 31)"
  using assms(2)
proof (rule close_year_runs)
  fix u ledger d db5
  assume b: "close_year_body E ledger y u db = Inr (d, db5)" and same: "books db' = books db5" and l: "l_id ledger = l"
  note nat = account_balances_natural [OF assms(1,3)]
  from assms(1) b show ?thesis
  proof (rule close_year_body_Inr)
    fix equity db1 t ps qs n
    assume re: "retained_earnings E (l_id ledger) (l_base_currency ledger) db = Inr (equity, db1)" and d: "d = Date y 12 31"
      and ps: "list_all2 (closes t) (account_balances db (l_id ledger)) ps"
      and qs: "\<forall>p\<in>set qs. p_txn p = t \<and> p_account p = equity"
      and po: "postings db5 = postings db @ ps @ qs" and ac: "accounts db5 = accounts db1"
      and cp: "closed_periods db5 = closed_periods db
           @ [\<lparr>cp_ledger = l_id ledger, cp_year = y, cp_by = u, cp_through = Some d\<rparr>]"
    have bal: "raw_net db' (a_id a) = 0"
      if a: "a \<in> set (accounts db')" "a_ledger a = l" "a_type a = ''INCOME'' \<or> a_type a = ''EXPENSE''" for a
    proof -
      have a1: "a \<in> set (accounts db1)" using a(1) books_eqD(4) [OF same] ac by simp
      have mem: "a \<in> set (accounts db)" and ne: "a_id a \<noteq> equity"
        using retained_earnings_account [OF assms(1,4) re a1 a(3)] by auto
      have "net_of qs (a_id a) = 0" using qs ne by (simp add: filter_False)
      moreover have "map_of (account_balances db l) (a_id a)
          = (if raw_net db (a_id a) = 0 then None else Some (a_type a, raw_net db (a_id a)))"
        using account_balances_map_of [OF assms(1) mem a(2,3)] .
      then have "net_of ps (a_id a) = - raw_net db (a_id a)"
        using closes_net_of [OF ps] nat by (simp add: l)
      ultimately show ?thesis using books_eqD(6) [OF same] by (simp add: raw_net_eq po)
    qed
    then have "account_balances db' l = []" by (auto simp: account_balances_def filter_empty_conv)
    moreover have "\<lparr>cp_ledger = l, cp_year = y, cp_by = u, cp_through = Some d\<rparr> \<in> set (periods_of db' l)"
      using cp books_eqD(8) [OF same] by (simp add: periods_of_def l)
    then have "is_closed (closed_through_for db' l) d"
      by (rule closed_through_covers) simp
    ultimately show ?thesis by (simp add: d)
  qed
qed

lemma close_period_Inr:
  assumes "close_period E user l txt db = (Inr (), db')"
  obtains u led d where "user = Some u" and "ensure_owner_or_admin db u l = Inr led" and "parse_date E (trim txt) = Some d"
    and "\<forall>w. closed_through_for db l = Some w \<longrightarrow> w < d"
    and "\<forall>c\<in>set (periods_of db l). cp_year c \<noteq> date_year d"
    and "closed_periods db' = closed_periods db
           @ [\<lparr>cp_ledger = l, cp_year = date_year d, cp_by = u, cp_through = Some d\<rparr>]"
proof -
  from assms obtain u led d db1 where 1: "user = Some u" "ensure_owner_or_admin db u l = Inr led"
      "parse_date E (trim txt) = Some d"
    and gate: "(case closed_through_for db l of
        Some w \<Rightarrow> if d \<le> w then Inl (Validation (''Ledger is already closed through '' @ show_date w @ ''.'')) else Inr ()
      | None \<Rightarrow> Inr ()) = Inr ()"
    and ins: "insert_closed_period \<lparr>cp_ledger = l, cp_year = date_year d, cp_by = u, cp_through = Some d\<rparr> db = Inr db1"
    and same: "books db' = books db1"
    by (auto simp: close_period_def signed_in_def result_simps audit_log_books split: sum.splits)
  from gate have "\<forall>w. closed_through_for db l = Some w \<longrightarrow> w < d" by (auto split: option.splits if_splits)
  with ins books_eqD(8) [OF same] show thesis
    by (intro that [OF 1]) (auto simp: insert_closed_period_def periods_of_def list_ex_iff split: if_splits)
qed

text \<open>
  Closing through a date moves the watermark there.  It takes the owner or an administrator with a
  role in the ledger; the new watermark lies after the old one, and a date of the ledger is closed
  afterwards exactly when it is not after the watermark.
\<close>

theorem close_period_advances:
  assumes "close_period E user l txt db = (Inr (), db')"
  shows "\<exists>u d. user = Some u \<and> parse_date E (trim txt) = Some d
     \<and> (role db u l = Some ''owner'' \<or> is_admin db u \<and> role db u l \<noteq> None)
     \<and> (\<forall>w. closed_through_for db l = Some w \<longrightarrow> w < d)
     \<and> (\<forall>x. is_closed (closed_through_for db' l) x \<longleftrightarrow> x \<le> d)"
  using assms
proof (rule close_period_Inr)
  fix u led d
  assume a: "user = Some u" "ensure_owner_or_admin db u l = Inr led" "parse_date E (trim txt) = Some d"
    and w: "\<forall>w. closed_through_for db l = Some w \<longrightarrow> w < d"
    and cp: "closed_periods db' = closed_periods db
           @ [\<lparr>cp_ledger = l, cp_year = date_year d, cp_by = u, cp_through = Some d\<rparr>]"
  let ?r = "\<lparr>cp_ledger = l, cp_year = date_year d, cp_by = u, cp_through = Some d\<rparr>"
  have per: "periods_of db' l = periods_of db l @ [?r]" by (simp add: periods_of_def cp)
  have old: "e < d" if "c \<in> set (periods_of db l)" "cp_through c = Some e" for c e
    using w closed_through_covers [OF that] by (auto simp: is_closed_def split: option.splits)
  have "closed_through_for db' l = Some d"
  proof (cases rule: closed_through_cases [of db' l])
    case (through e)
    have "d \<le> e" using through(3) [of ?r d] per by simp
    moreover have "e \<le> d" using through(2) old per by fastforce
    ultimately show ?thesis using through(1) by simp
  qed (auto simp: per)
  with a w show ?thesis by (auto simp: is_closed_def owner_or_admin.granted)
qed

text \<open>
  A ledger can be closed only once in a calendar year.  After a successful close, a later date of the
  same year is refused and nothing changes, because the table of closed periods has one row for each
  year: closing month by month is impossible.
\<close>

theorem close_period_once_per_year:
  assumes "close_period E user l txt db = (Inr (), db')" and "parse_date E (trim txt) = Some d"
    and "parse_date E' (trim txt') = Some d'" and "date_year d' = date_year d"
  shows "\<exists>e. close_period E' user' l txt' db' = (Inl e, db')"
proof (rule ccontr)
  assume "\<nexists>e. close_period E' user' l txt' db' = (Inl e, db')"
  then obtain db'' where "close_period E' user' l txt' db' = (Inr (), db'')"
    by (auto simp: close_period_def split: sum.splits prod.splits)
  then have "\<forall>c\<in>set (periods_of db' l). cp_year c \<noteq> date_year d'"
    using assms(3) by (elim close_period_Inr) auto
  moreover have "\<exists>c\<in>set (periods_of db' l). cp_year c = date_year d"
    using assms(1,2) by (elim close_period_Inr) (auto simp: periods_of_def)
  ultimately show False using assms(4) by auto
qed

text \<open>
  C21: Reopening takes a reason of ten characters and leaves a record of it.  A full reopening leaves the
  ledger without a watermark; reopening from a date leaves that date and every later one open.
\<close>

theorem reopen_reopens:
  assumes "reopen_period E user l form db = (Inr (), db')"
  shows "\<exists>u through. user = Some u \<and> reopen_target E (rf_closed_through form) = Inr through
     \<and> 10 \<le> length (trim (rf_reason form))
     \<and> reopen_events db' = reopen_events db
          @ [\<lparr>ro_ledger = l, ro_through = through, ro_by = u, ro_reason = trim (rf_reason form)\<rparr>]
     \<and> (\<forall>x. (case through of None \<Rightarrow> True | Some d \<Rightarrow> d \<le> x) \<longrightarrow> \<not> is_closed (closed_through_for db' l) x)"
proof -
  from assms obtain u led through db2 where u: "user = Some u" "ensure_owner_or_admin db u l = Inr led"
    and rs: "validate_reason (rf_reason form) = Inr (trim (rf_reason form))" "10 \<le> length (trim (rf_reason form))"
    and tg: "reopen_target E (rf_closed_through form) = Inr through"
    and ins: "insert_reopen \<lparr>ro_ledger = l, ro_through = through, ro_by = u, ro_reason = trim (rf_reason form)\<rparr>
        (drop_closed l through db) = Inr db2"
    and same: "books db' = books db2"
    by (auto simp: reopen_period_def signed_in_def result_simps validate_reason_def MIN_REASON_LEN_def Let_def
        audit_log_books split: sum.splits if_splits)
  have cp: "closed_periods db' = closed_periods (drop_closed l through db)"
    and ro: "reopen_events db' = reopen_events db
          @ [\<lparr>ro_ledger = l, ro_through = through, ro_by = u, ro_reason = trim (rf_reason form)\<rparr>]"
  proof -
    let ?row = "\<lparr>ro_ledger = l, ro_through = through, ro_by = u, ro_reason = trim (rf_reason form)\<rparr>"
    have db2: "db2 = (drop_closed l through db)\<lparr>reopen_events := reopen_events (drop_closed l through db) @ [?row]\<rparr>"
      using ins by (simp add: insert_reopen_def split: if_splits)
    have "reopen_events (drop_closed l through db) = reopen_events db" by (simp add: drop_closed_def split: option.split)
    then show "closed_periods db' = closed_periods (drop_closed l through db)" "reopen_events db' = reopen_events db @ [?row]"
      using db2 books_eqD(8) [OF same] arg_cong [OF same, of reopen_events] by (simp_all add: books_def)
  qed
  have open_from: "\<not> is_closed (closed_through_for db' l) x"
    if "case through of None \<Rightarrow> True | Some d \<Rightarrow> d \<le> x" for x
  proof (cases through)
    case None
    then have "periods_of db' l = []" by (simp add: periods_of_def cp drop_closed_def filter_empty_conv)
    then show ?thesis by (cases rule: closed_through_cases [of db' l]) (auto simp: is_closed_def)
  next
    case (Some d)
    then have keep: "c \<in> set (periods_of db' l) \<Longrightarrow>
        (case cp_through c of Some t \<Rightarrow> t < d | None \<Rightarrow> cp_year c < date_year d)" for c
      by (auto simp: periods_of_def cp drop_closed_def split: option.splits)
    show ?thesis
    proof (cases rule: closed_through_cases [of db' l])
      case (through e)
      then have "e < d" using keep by fastforce
      with through(1) that Some show ?thesis by (auto simp: is_closed_def)
    next
      case (legacy y)
      then have "y < date_year d" using keep by fastforce
      then have "\<not> d \<le> Date y 12 31" by (cases d) auto
      with legacy(1) that Some show ?thesis by (auto simp: is_closed_def from_ymd_opt_def split: if_splits)
    qed (simp add: is_closed_def)
  qed
  with u tg rs ro show ?thesis by blast
qed

text \<open>
  A journal approved over HTTP was approved by a second person who may write.  Viewers, auditors,
  strangers and the maker are refused.
\<close>

theorem approve_over_http:
  assumes "members_wf db" and "approve E display user l t db = (Inr (), db')"
  shows "\<exists>u ja. user = Some u \<and> role db u l \<in> {Some ''owner'', Some ''editor'', Some ''accountant''}
     \<and> ja \<in> set (approvals db) \<and> ja_txn ja = t \<and> ja_ledger ja = l \<and> ja_status ja = ''pending'' \<and> ja_maker ja \<noteq> u"
proof -
  from assms(2) obtain u led where u: "user = Some u" "ensure_writer db u l = Inr led"
      "approval_result display ''approve'' (fst (approve_journal E l t u db)) = Inr ()"
    by (auto simp: approve_def signed_in_def result_simps split: sum.splits prod.splits)
  then have "fst (approve_journal E l t u db) = Inr ()"
    by (auto simp: approval_result_def split: sum.splits posting_service_error.splits)
  then obtain m where "pending_approval l t u db = Inr m"
    by (auto simp: approve_journal_def approve_body_def run_tx_def result_simps split: sum.splits prod.splits)
  then obtain ja where "ja \<in> set (approvals db)" "ja_txn ja = t" "ja_ledger ja = l" "ja_status ja = ''pending''" "ja_maker ja \<noteq> u"
    by (auto simp: pending_approval_def dest!: find_Some_mem split: option.splits if_splits)
  moreover have "role db u l \<in> {Some ''owner'', Some ''editor'', Some ''accountant''}"
    using u(2) role_range [OF assms(1), of u l] by (auto simp: writer.granted)
  ultimately show ?thesis using u(1) by blast
qed

section \<open>Witnesses\<close>

definition sample_posting :: "uuid \<Rightarrow> uuid \<Rightarrow> uuid \<Rightarrow> decimal \<Rightarrow> string \<Rightarrow> posting_row" where
  "sample_posting i t a x dir = (closing_posting t a x dir [])\<lparr>p_id := i\<rparr>"

definition sample_account :: "uuid \<Rightarrow> string \<Rightarrow> string \<Rightarrow> string \<Rightarrow> account_row" where
  "sample_account i name ty st =
     \<lparr>a_id = i, a_ledger = 2, a_name = name, a_code = None, a_type = ty, a_subtype = st, a_currency = ''USD'', a_archived = False\<rparr>"

text \<open>Sales of 100 and a rent of 40 in 2025.\<close>

definition sample_year :: db where
  "sample_year = sample_access
     \<lparr>accounts := [sample_account 11 ''Cash'' ''ASSET'' ''CURRENT_ASSET'', sample_account 12 ''Sales'' ''INCOME'' ''OPERATING_INCOME'',
                   sample_account 13 ''Rent'' ''EXPENSE'' ''OPERATING_EXPENSE''],
      transactions := [(year_end_txn (hd (ledgers sample_access)) 2025 (Date 2025 5 1) 7)\<lparr>t_id := 3, t_kind := ''standard''\<rparr>],
      postings := [sample_posting 4 3 11 60 ''DEBIT'', sample_posting 5 3 13 40 ''DEBIT'', sample_posting 6 3 12 100 ''CREDIT''],
      balance_trigger := False\<rparr>"

lemma sample_year_wf: "db_wf sample_year"
  by (simp add: db_wf_def sample_year_def sample_access_def empty_db_def posting_wf_def sample_posting_def sample_account_def
      closing_posting_def year_end_txn_def is_debit_def is_credit_def on_grid_def txn_kinds_def numbered_def)

lemma sample_year_closes:
  "fst (close_year sample_env (Some 7) 2 2025 sample_year) = Inr ()" "list_all natural (account_balances sample_year 2)"
  "expenses (account_balances sample_year 2) = 40"
  "list_all (\<lambda>a. subtype_allowed (a_type a) (a_subtype a)) (accounts sample_year)"
  by code_simp+

lemma sample_year_run:
  "close_year sample_env (Some 7) 2 2025 sample_year = (Inr (), snd (close_year sample_env (Some 7) 2 2025 sample_year))"
  using sample_year_closes(1) by (metis prod.collapse)

theorem close_year_unbalanced_witness:
  "\<exists>t. credit_sum (postings_of (snd (close_year sample_env (Some 7) 2 2025 sample_year)) t)
     - debit_sum (postings_of (snd (close_year sample_env (Some 7) 2 2025 sample_year)) t) = 80"
  using close_year_unbalanced [OF sample_year_wf sample_year_run sample_year_closes(2)] sample_year_closes(3) by auto

theorem close_year_zeroes_accounts_witness:
  "account_balances (snd (close_year sample_env (Some 7) 2 2025 sample_year)) 2 = []"
  using close_year_zeroes_accounts [OF sample_year_wf sample_year_run sample_year_closes(2)] sample_year_closes(4)
  by (simp add: list_all_iff)

definition sample_dates :: env where
  "sample_dates = sample_env\<lparr>parse_date := (\<lambda>s. if s = ''2026-01-31'' then Some (Date 2026 1 31)
     else if s = ''2026-02-28'' then Some (Date 2026 2 28) else None)\<rparr>"

definition sample_closed :: db where
  "sample_closed = snd (close_period sample_dates (Some 7) 2 ''2026-01-31'' sample_access)"

lemma sample_close_runs:
  "close_period sample_dates (Some 7) 2 ''2026-01-31'' sample_access = (Inr (), sample_closed)"
proof -
  have "fst (close_period sample_dates (Some 7) 2 ''2026-01-31'' sample_access) = Inr ()" by code_simp
  then show ?thesis by (metis prod.collapse sample_closed_def)
qed

lemma sample_trim: "parse_date sample_dates (trim ''2026-01-31'') = Some (Date 2026 1 31)"
    "parse_date sample_dates (trim ''2026-02-28'') = Some (Date 2026 2 28)"
  by code_simp+

theorem close_period_advances_witness:
  "\<exists>d. \<forall>x. is_closed (closed_through_for sample_closed 2) x \<longleftrightarrow> x \<le> d"
  using close_period_advances [OF sample_close_runs] by blast

theorem close_period_once_per_year_witness:
  "\<exists>e. close_period sample_dates (Some 7) 2 ''2026-02-28'' sample_closed = (Inl e, sample_closed)"
  by (rule close_period_once_per_year [OF sample_close_runs sample_trim]) simp

definition sample_reopen :: reopen_form where
  "sample_reopen = \<lparr>rf_reason = ''late invoice'', rf_closed_through = None\<rparr>"

theorem reopen_reopens_witness:
  "\<not> is_closed (closed_through_for (snd (reopen_period sample_dates (Some 7) 2 sample_reopen sample_closed)) 2) (Date 2026 1 15)"
proof -
  have "fst (reopen_period sample_dates (Some 7) 2 sample_reopen sample_closed) = Inr ()" by code_simp
  then have "reopen_period sample_dates (Some 7) 2 sample_reopen sample_closed
      = (Inr (), snd (reopen_period sample_dates (Some 7) 2 sample_reopen sample_closed))" by (metis prod.collapse)
  from reopen_reopens [OF this] show ?thesis by (auto simp: sample_reopen_def reopen_target_def)
qed

definition sample_queue :: db where
  "sample_queue = sample_access
     \<lparr>transactions := [(year_end_txn (hd (ledgers sample_access)) 2025 (Date 2025 5 1) 7)\<lparr>t_id := 3, t_kind := ''pending''\<rparr>],
      approvals := [\<lparr>ja_txn = 3, ja_ledger = 2, ja_maker = 7, ja_checker = None, ja_status = ''pending'', ja_amount = 100\<rparr>]\<rparr>"

theorem approve_over_http_witness:
  "\<exists>ja. ja \<in> set (approvals sample_queue) \<and> ja_maker ja \<noteq> 8"
proof -
  have "fst (approve sample_env (\<lambda>_. []) (Some 8) 2 3 sample_queue) = Inr ()" by code_simp
  then have r: "approve sample_env (\<lambda>_. []) (Some 8) 2 3 sample_queue
      = (Inr (), snd (approve sample_env (\<lambda>_. []) (Some 8) 2 3 sample_queue))" by (metis prod.collapse)
  have "members_wf sample_queue" using sample_access_simps(1) by (simp add: members_wf_def sample_queue_def)
  from approve_over_http [OF this r] show ?thesis by auto
qed

end
