(* ===== verification/Reports.thy ===== *)
theory Reports
  imports Period_Close
begin

text \<open>
  The financial statements of \<^verbatim>\<open>src/src/reports\<close>: trial balance, balance sheet, income statement,
  general ledger and cash flow.  Each SQL query is written with the joins it has, as lists of joined
  rows, and each grouped sum as a sum over them, so that a condition in the \<^verbatim>\<open>ON\<close> clause of an outer
  join has the effect it has in SQL.  \<^verbatim>\<open>ORDER BY\<close> on texts depends on the collation of the database, a
  parameter \<open>rank\<close> that places each text.
\<close>

section \<open>Joins and dimensions\<close>

definition inner_join :: "('a \<Rightarrow> 'b \<Rightarrow> bool) \<Rightarrow> 'a list \<Rightarrow> 'b list \<Rightarrow> ('a \<times> 'b) list" where
  "inner_join on xs ys = concat (map (\<lambda>x. map (Pair x) (filter (on x) ys)) xs)"

definition left_join :: "('a \<Rightarrow> 'b \<Rightarrow> bool) \<Rightarrow> 'a list \<Rightarrow> 'b list \<Rightarrow> ('a \<times> 'b option) list" where
  "left_join on xs ys =
     concat (map (\<lambda>x. let ms = filter (on x) ys in if ms = [] then [(x, None)] else map (\<lambda>y. (x, Some y)) ms) xs)"

record dimension_filter =
  df_cost_center :: "uuid option"
  df_project :: "uuid option"

definition filter_empty :: dimension_filter where
  "filter_empty = \<lparr>df_cost_center = None, df_project = None\<rparr>"

definition filter_active :: "dimension_filter \<Rightarrow> bool" where
  "filter_active f \<longleftrightarrow> df_cost_center f \<noteq> None \<or> df_project f \<noteq> None"

definition parse_optional_id :: "env \<Rightarrow> string option \<Rightarrow> string \<Rightarrow> string + uuid option" where
  "parse_optional_id E raw param =
     (case map_option trim raw of
        None \<Rightarrow> Inr None
      | Some s \<Rightarrow>
          if s = [] then Inr None
          else (case parse_uuid E s of
                  Some u \<Rightarrow> Inr (Some u)
                | None \<Rightarrow> Inl (''invalid '' @ param @ '' '' @ [CHR 0x27] @ s @ [CHR 0x27] @ '', expected a UUID'')))"

text \<open>\<^verbatim>\<open>$3 IS NULL OR p.cost_center_id = $3\<close>, and the same for the project.\<close>

definition in_slice :: "dimension_filter \<Rightarrow> posting_row \<Rightarrow> bool" where
  "in_slice f p \<longleftrightarrow>
     (df_cost_center f = None \<or> p_cost_center p = df_cost_center f)
   \<and> (df_project f = None \<or> p_project p = df_project f)"

definition untagged :: "dimension_filter \<Rightarrow> posting_row \<Rightarrow> bool" where
  "untagged f p \<longleftrightarrow>
     (df_cost_center f \<noteq> None \<and> p_cost_center p = None) \<or> (df_project f \<noteq> None \<and> p_project p = None)"

definition final :: "txn_row \<Rightarrow> bool" where
  "final t \<longleftrightarrow> t_kind t \<noteq> ''draft'' \<and> t_kind t \<noteq> ''pending''"

definition cash_name :: "string \<Rightarrow> bool" where
  "cash_name s \<longleftrightarrow> contains_str ''cash'' (to_lowercase s) \<or> contains_str ''bank'' (to_lowercase s)"

text \<open>The signed amount of a posting: what it adds to debits less credits.\<close>

definition signed :: "posting_row \<Rightarrow> decimal" where
  "signed p = (if is_debit p then p_amount p else 0) - (if is_credit p then p_amount p else 0)"

datatype report_basis = Accrual | Cash

fun basis_str :: "report_basis \<Rightarrow> string" where
  "basis_str Accrual = ''accrual''"
| "basis_str Cash = ''cash''"

fun basis_label :: "report_basis \<Rightarrow> string" where
  "basis_label Accrual = ''Accrual''"
| "basis_label Cash = ''Cash''"

definition parse_basis :: "string \<Rightarrow> app_error + report_basis" where
  "parse_basis s =
     (if s = ''accrual'' \<or> s = [] then Inr Accrual
      else if s = ''cash'' then Inr Cash
      else Inl (Validation (''Unknown basis '' @ [CHR 0x27] @ s @ [CHR 0x27] @ '', expected ''
             @ [CHR 0x27] @ ''accrual'' @ [CHR 0x27] @ '' or '' @ [CHR 0x27] @ ''cash'' @ [CHR 0x27] @ ''.'')))"

section \<open>Trial balance\<close>

record trial_balance_row =
  tb_account :: uuid
  tb_name :: string
  tb_type :: string
  tb_debit :: decimal
  tb_credit :: decimal

record trial_balance_result =
  tr_rows :: "trial_balance_row list"
  tr_total_debit :: decimal
  tr_total_credit :: decimal
  tr_unassigned :: "(decimal \<times> decimal) option"

text \<open>
  \<^verbatim>\<open>accounts a LEFT JOIN postings p ... LEFT JOIN transactions t ON t.id = p.transaction_id AND
  t.txn_date <= as_of AND t.kind NOT IN ('draft','pending')\<close>.
\<close>

type_synonym joined = "(account_row \<times> posting_row option) \<times> txn_row option"

definition account_join :: "db \<Rightarrow> uuid \<Rightarrow> date \<Rightarrow> dimension_filter \<Rightarrow> joined list" where
  "account_join db ledger_id as_of f =
     filter (\<lambda>r. a_ledger (fst (fst r)) = ledger_id)
       (left_join (\<lambda>ap t. case snd ap of None \<Rightarrow> False
                          | Some p \<Rightarrow> t_id t = p_txn p \<and> t_date t \<le> as_of \<and> final t)
          (left_join (\<lambda>a p. p_account p = a_id a \<and> in_slice f p) (accounts db) (postings db))
          (transactions db))"

text \<open>\<^verbatim>\<open>GROUP BY a.id\<close> with the sum of debits less the sum of credits.\<close>

definition group_net :: "joined list \<Rightarrow> uuid \<Rightarrow> decimal" where
  "group_net rows i =
     sum_list (map (\<lambda>r. case snd (fst r) of None \<Rightarrow> 0 | Some p \<Rightarrow> if a_id (fst (fst r)) = i then signed p else 0) rows)"

definition account_nets :: "(string \<Rightarrow> nat) \<Rightarrow> db \<Rightarrow> uuid \<Rightarrow> date \<Rightarrow> dimension_filter \<Rightarrow> (account_row \<times> decimal) list" where
  "account_nets rank db ledger_id as_of f =
     map (\<lambda>a. (a, group_net (account_join db ledger_id as_of f) (a_id a)))
       (sort_key (\<lambda>a. (rank (a_type a), rank (a_name a))) (filter (\<lambda>a. a_ledger a = ledger_id) (accounts db)))"

definition debit_normal :: "string \<Rightarrow> bool" where
  "debit_normal ty \<longleftrightarrow> ty = ''ASSET'' \<or> ty = ''EXPENSE''"

definition trial_row :: "account_row \<times> decimal \<Rightarrow> trial_balance_row" where
  "trial_row an =
     (let (a, n) = an; (dr, cr) = (if debit_normal (a_type a) then (max n 0, 0) else (0, max (- n) 0))
      in \<lparr>tb_account = a_id a, tb_name = a_name a, tb_type = a_type a, tb_debit = dr, tb_credit = cr\<rparr>)"

definition unassigned_sums :: "db \<Rightarrow> uuid \<Rightarrow> date \<Rightarrow> dimension_filter \<Rightarrow> decimal \<times> decimal" where
  "unassigned_sums db ledger_id as_of f =
     (let rows = filter (\<lambda>r. untagged f (fst (fst r)))
            (inner_join (\<lambda>pt a. a_id a = p_account (fst pt) \<and> a_ledger a = ledger_id)
               (inner_join (\<lambda>p t. t_id t = p_txn p \<and> t_date t \<le> as_of \<and> final t) (postings db) (transactions db))
               (accounts db));
          ps = map (fst \<circ> fst) rows
      in (debit_sum ps, credit_sum ps))"

definition build_trial_balance_filtered ::
  "(string \<Rightarrow> nat) \<Rightarrow> db \<Rightarrow> uuid \<Rightarrow> date \<Rightarrow> dimension_filter \<Rightarrow> trial_balance_result" where
  "build_trial_balance_filtered rank db ledger_id as_of f =
     (let rows = map trial_row (filter (\<lambda>an. snd an \<noteq> 0) (account_nets rank db ledger_id as_of f))
      in \<lparr>tr_rows = rows,
          tr_total_debit = foldl (\<lambda>s r. s + tb_debit r) 0 rows,
          tr_total_credit = foldl (\<lambda>s r. s + tb_credit r) 0 rows,
          tr_unassigned = (if filter_active f then Some (unassigned_sums db ledger_id as_of f) else None)\<rparr>)"

definition build_trial_balance :: "(string \<Rightarrow> nat) \<Rightarrow> db \<Rightarrow> uuid \<Rightarrow> date \<Rightarrow> trial_balance_result" where
  "build_trial_balance rank db ledger_id as_of = build_trial_balance_filtered rank db ledger_id as_of filter_empty"

section \<open>Balance sheet\<close>

record account_total =
  at_account :: uuid
  at_name :: string
  at_type :: string
  at_amount :: decimal
  at_prior :: "decimal option"

record report_section =
  rs_label :: string
  rs_accounts :: "account_total list"
  rs_total :: decimal

record balance_sheet_result =
  bs_assets :: "report_section list"
  bs_liabilities :: "report_section list"
  bs_equity :: "account_total list"
  bs_net_income :: decimal
  bs_total_assets :: decimal
  bs_total_liabilities :: decimal
  bs_total_equity :: decimal
  bs_total_liab_equity :: decimal

definition asset_subtypes :: "(string \<times> string) list" where
  "asset_subtypes =
     [(''CURRENT_ASSET'', ''Current Assets''), (''FIXED_ASSET'', ''Fixed Assets''),
      (''INTANGIBLE_ASSET'', ''Intangible Assets''), (''OTHER_ASSET'', ''Other Assets'')]"

definition liability_subtypes :: "(string \<times> string) list" where
  "liability_subtypes =
     [(''CURRENT_LIABILITY'', ''Current Liabilities''), (''LONG_TERM_LIABILITY'', ''Long-Term Liabilities'')]"

text \<open>The rows of the query: the outer joins of the trial balance without the dimension slice.\<close>

definition balance_rows :: "(string \<Rightarrow> nat) \<Rightarrow> db \<Rightarrow> uuid \<Rightarrow> date \<Rightarrow> (account_row \<times> decimal) list" where
  "balance_rows rank db ledger_id as_of =
     map (\<lambda>a. (a, group_net (account_join db ledger_id as_of filter_empty) (a_id a)))
       (sort_key (\<lambda>a. (rank (a_type a), rank (a_subtype a), rank (a_name a)))
          (filter (\<lambda>a. a_ledger a = ledger_id \<and> a_type a \<in> {''ASSET'', ''LIABILITY'', ''EQUITY''}) (accounts db)))"

definition section_accounts :: "decimal \<Rightarrow> string \<Rightarrow> string \<Rightarrow> (account_row \<times> decimal) list \<Rightarrow> account_total list" where
  "section_accounts sg ty st rows =
     filter (\<lambda>t. at_amount t \<noteq> 0)
       (map (\<lambda>(a, n). \<lparr>at_account = a_id a, at_name = a_name a, at_type = a_type a, at_amount = sg * n, at_prior = None\<rparr>)
          (filter (\<lambda>(a, n). a_type a = ty \<and> a_subtype a = st) rows))"

definition total_of :: "account_total list \<Rightarrow> decimal" where
  "total_of ts = sum_list (map at_amount ts)"

definition sections :: "decimal \<Rightarrow> string \<Rightarrow> (string \<times> string) list \<Rightarrow> (account_row \<times> decimal) list \<Rightarrow> report_section list" where
  "sections sg ty sts rows =
     List.map_filter (\<lambda>(st, label).
       let ts = section_accounts sg ty st rows in
       if ts = [] then None else Some \<lparr>rs_label = label, rs_accounts = ts, rs_total = total_of ts\<rparr>) sts"

definition equity_accounts :: "(account_row \<times> decimal) list \<Rightarrow> account_total list" where
  "equity_accounts rows =
     filter (\<lambda>t. at_amount t \<noteq> 0)
       (map (\<lambda>(a, n). \<lparr>at_account = a_id a, at_name = a_name a, at_type = a_subtype a, at_amount = - n, at_prior = None\<rparr>)
          (filter (\<lambda>(a, n). a_type a = ''EQUITY'') rows))"

definition build_balance_sheet ::
  "(string \<Rightarrow> nat) \<Rightarrow> db \<Rightarrow> uuid \<Rightarrow> date \<Rightarrow> decimal \<Rightarrow> balance_sheet_result" where
  "build_balance_sheet rank db ledger_id as_of ni =
     (let rows = balance_rows rank db ledger_id as_of;
          assets = sections 1 ''ASSET'' asset_subtypes rows;
          liabilities = sections (- 1) ''LIABILITY'' liability_subtypes rows;
          equity = equity_accounts rows;
          total_assets = sum_list (map rs_total assets);
          total_liab = sum_list (map rs_total liabilities);
          total_eq = total_of equity
      in \<lparr>bs_assets = assets, bs_liabilities = liabilities, bs_equity = equity, bs_net_income = ni,
          bs_total_assets = total_assets, bs_total_liabilities = total_liab, bs_total_equity = total_eq,
          bs_total_liab_equity = total_liab + total_eq + ni\<rparr>)"

section \<open>Income statement\<close>

record excluded_totals =
  ex_revenue :: decimal
  ex_expense :: decimal

record income_statement_result =
  is_basis :: report_basis
  is_revenue :: report_section
  is_cogs :: report_section
  is_gross_profit :: decimal
  is_opex :: report_section
  is_operating_income :: decimal
  is_non_operating :: "report_section option"
  is_before_tax :: decimal
  is_tax :: "report_section option"
  is_net_income :: decimal
  is_excluded :: "excluded_totals option"
  is_unassigned :: "excluded_totals option"

record income_row =
  ir_id :: uuid
  ir_name :: string
  ir_type :: string
  ir_subtype :: string
  ir_accrual :: decimal
  ir_cash :: decimal

definition peer_is_cash :: "db \<Rightarrow> posting_row \<Rightarrow> bool" where
  "peer_is_cash db p \<longleftrightarrow>
     list_ex (\<lambda>p2. p_txn p2 = p_txn p \<and> p_id p2 \<noteq> p_id p
                 \<and> list_ex (\<lambda>a. a_id a = p_account p2 \<and> cash_name (a_name a)) (accounts db)) (postings db)"

definition income_type :: "string \<Rightarrow> bool" where
  "income_type ty \<longleftrightarrow> ty = ''INCOME'' \<or> ty = ''EXPENSE''"

text \<open>The inner joins: postings of the ledger's income and expense accounts in final transactions of the period.\<close>

definition income_join :: "db \<Rightarrow> uuid \<Rightarrow> date \<Rightarrow> date \<Rightarrow> (posting_row \<Rightarrow> bool) \<Rightarrow> ((account_row \<times> posting_row) \<times> txn_row) list" where
  "income_join db ledger_id from to sel =
     filter (\<lambda>r. a_ledger (fst (fst r)) = ledger_id \<and> income_type (a_type (fst (fst r))))
       (inner_join (\<lambda>ap t. t_id t = p_txn (snd ap) \<and> from \<le> t_date t \<and> t_date t \<le> to \<and> final t)
          (inner_join (\<lambda>a p. p_account p = a_id a \<and> sel p) (accounts db) (postings db)) (transactions db))"

definition join_net :: "(posting_row \<Rightarrow> bool) \<Rightarrow> ((account_row \<times> posting_row) \<times> txn_row) list \<Rightarrow> decimal" where
  "join_net sel rows = sum_list (map (\<lambda>r. if sel (snd (fst r)) then signed (snd (fst r)) else 0) rows)"

definition income_rows ::
  "(string \<Rightarrow> nat) \<Rightarrow> db \<Rightarrow> uuid \<Rightarrow> date \<Rightarrow> date \<Rightarrow> dimension_filter \<Rightarrow> income_row list" where
  "income_rows rank db ledger_id from to f =
     (let rows = income_join db ledger_id from to (in_slice f);
          of_account = (\<lambda>a. filter (\<lambda>r. a_id (fst (fst r)) = a_id a) rows)
      in map (\<lambda>a. \<lparr>ir_id = a_id a, ir_name = a_name a, ir_type = a_type a, ir_subtype = a_subtype a,
                    ir_accrual = join_net (\<lambda>_. True) (of_account a), ir_cash = join_net (peer_is_cash db) (of_account a)\<rparr>)
           (sort_key (\<lambda>a. (rank (a_type a), rank (a_subtype a), rank (a_name a)))
              (filter (\<lambda>a. of_account a \<noteq> []) (accounts db))))"

definition raw_net_for_basis :: "report_basis \<Rightarrow> income_row \<Rightarrow> decimal" where
  "raw_net_for_basis b r = (case b of Accrual \<Rightarrow> ir_accrual r | Cash \<Rightarrow> ir_cash r)"

definition make_accounts :: "report_basis \<Rightarrow> income_row list \<Rightarrow> string \<Rightarrow> string \<Rightarrow> account_total list" where
  "make_accounts b rows ty st =
     filter (\<lambda>t. at_amount t \<noteq> 0)
       (map (\<lambda>r. \<lparr>at_account = ir_id r, at_name = ir_name r, at_type = ir_subtype r,
                  at_amount = (if ir_type r = ''INCOME'' then - raw_net_for_basis b r else raw_net_for_basis b r), at_prior = None\<rparr>)
          (filter (\<lambda>r. ir_type r = ty \<and> ir_subtype r = st) rows))"

definition excluded_by_cash :: "income_row list \<Rightarrow> decimal \<Rightarrow> decimal \<Rightarrow> excluded_totals" where
  "excluded_by_cash rows revenue_total expense_total =
     \<lparr>ex_revenue = sum_list (map (\<lambda>r. - ir_accrual r)
                     (filter (\<lambda>r. ir_type r = ''INCOME'' \<and> ir_subtype r = ''OPERATING_INCOME'') rows)) - revenue_total,
      ex_expense = sum_list (map ir_accrual (filter (\<lambda>r. ir_type r = ''EXPENSE'') rows)) - expense_total\<rparr>"

text \<open>The totals of the untagged postings, one row for each of the two account types.\<close>

definition unassigned_totals ::
  "db \<Rightarrow> uuid \<Rightarrow> date \<Rightarrow> date \<Rightarrow> report_basis \<Rightarrow> dimension_filter \<Rightarrow> excluded_totals" where
  "unassigned_totals db ledger_id from to b f =
     (let rows = income_join db ledger_id from to (untagged f);
          n = (\<lambda>ty. join_net (case b of Accrual \<Rightarrow> (\<lambda>_. True) | Cash \<Rightarrow> peer_is_cash db)
                      (filter (\<lambda>r. a_type (fst (fst r)) = ty) rows))
      in \<lparr>ex_revenue = - n ''INCOME'', ex_expense = n ''EXPENSE''\<rparr>)"

definition build_income_statement_filtered ::
  "(string \<Rightarrow> nat) \<Rightarrow> db \<Rightarrow> uuid \<Rightarrow> date \<Rightarrow> date \<Rightarrow> report_basis \<Rightarrow> dimension_filter \<Rightarrow> income_statement_result" where
  "build_income_statement_filtered rank db ledger_id from to b f =
     (let rows = income_rows rank db ledger_id from to f;
          revenue = make_accounts b rows ''INCOME'' ''OPERATING_INCOME'';
          cogs = make_accounts b rows ''EXPENSE'' ''COST_OF_GOODS_SOLD'';
          gross_profit = total_of revenue - total_of cogs;
          opex = make_accounts b rows ''EXPENSE'' ''OPERATING_EXPENSE'';
          operating_income = gross_profit - total_of opex;
          non_op_income = make_accounts b rows ''INCOME'' ''NON_OPERATING_INCOME'';
          non_op_expense = make_accounts b rows ''EXPENSE'' ''NON_OPERATING_EXPENSE'';
          non_op_net = total_of non_op_income - total_of non_op_expense;
          income_before_tax = operating_income + non_op_net;
          tax = make_accounts b rows ''EXPENSE'' ''TAX_EXPENSE''
      in \<lparr>is_basis = b,
          is_revenue = \<lparr>rs_label = ''Revenue'', rs_accounts = revenue, rs_total = total_of revenue\<rparr>,
          is_cogs = \<lparr>rs_label = ''Cost of Goods Sold'', rs_accounts = cogs, rs_total = total_of cogs\<rparr>,
          is_gross_profit = gross_profit,
          is_opex = \<lparr>rs_label = ''Operating Expenses'', rs_accounts = opex, rs_total = total_of opex\<rparr>,
          is_operating_income = operating_income,
          is_non_operating =
            (if non_op_net \<noteq> 0 \<or> non_op_income \<noteq> [] \<or> non_op_expense \<noteq> []
             then Some \<lparr>rs_label = ''Non-Operating Income (Expense)'', rs_accounts = non_op_income @ non_op_expense,
                        rs_total = non_op_net\<rparr>
             else None),
          is_before_tax = income_before_tax,
          is_tax = (if total_of tax \<noteq> 0
                    then Some \<lparr>rs_label = ''Income Tax Expense'', rs_accounts = tax, rs_total = total_of tax\<rparr> else None),
          is_net_income = income_before_tax - total_of tax,
          is_excluded = (if b = Cash then Some (excluded_by_cash rows (total_of revenue)
                                                   (total_of cogs + total_of opex + total_of tax)) else None),
          is_unassigned = (if filter_active f then Some (unassigned_totals db ledger_id from to b f) else None)\<rparr>)"

definition build_income_statement ::
  "(string \<Rightarrow> nat) \<Rightarrow> db \<Rightarrow> uuid \<Rightarrow> date \<Rightarrow> date \<Rightarrow> report_basis \<Rightarrow> income_statement_result" where
  "build_income_statement rank db ledger_id from to b =
     build_income_statement_filtered rank db ledger_id from to b filter_empty"

section \<open>General ledger\<close>

record general_ledger_entry =
  ge_txn :: uuid
  ge_date :: date
  ge_description :: string
  ge_payee :: string
  ge_account :: uuid
  ge_account_name :: string
  ge_direction :: string
  ge_amount :: decimal
  ge_memo :: string

definition ledger_entry :: "(posting_row \<times> txn_row) \<times> account_row \<Rightarrow> general_ledger_entry" where
  "ledger_entry r =
     (let ((p, t), a) = r in
      \<lparr>ge_txn = t_id t, ge_date = t_date t, ge_description = t_description t,
       ge_payee = (case t_payee t of Some x \<Rightarrow> x | None \<Rightarrow> []), ge_account = a_id a, ge_account_name = a_name a,
       ge_direction = p_direction p, ge_amount = p_amount p, ge_memo = (case p_memo p of Some x \<Rightarrow> x | None \<Rightarrow> [])\<rparr>)"

definition ledger_balance :: "db \<Rightarrow> uuid \<Rightarrow> date \<Rightarrow> account_row \<Rightarrow> decimal" where
  "ledger_balance db ledger_id to a =
     (let sm = sum_list (map (\<lambda>r. case snd (fst r) of None \<Rightarrow> 0
                    | Some p \<Rightarrow> if a_id (fst (fst r)) = a_id a then (if is_debit p then p_amount p else - p_amount p) else 0)
                 (account_join db ledger_id to filter_empty))
      in if debit_normal (a_type a) then sm else - sm)"

definition build_general_ledger ::
  "db \<Rightarrow> uuid \<Rightarrow> date \<Rightarrow> date \<Rightarrow> uuid option \<Rightarrow> general_ledger_entry list \<times> (uuid \<rightharpoonup> decimal)" where
  "build_general_ledger db ledger_id from to account_filter =
     (map ledger_entry
        (sort_key (\<lambda>r. (t_date (snd (fst r)), t_created_at (snd (fst r)), p_id (fst (fst r))))
          (filter (\<lambda>r. t_ledger (snd (fst r)) = ledger_id \<and> from \<le> t_date (snd (fst r)) \<and> t_date (snd (fst r)) \<le> to
                     \<and> (account_filter = None \<or> Some (p_account (fst (fst r))) = account_filter) \<and> final (snd (fst r)))
            (inner_join (\<lambda>pt a. a_id a = p_account (fst pt))
               (inner_join (\<lambda>p t. t_id t = p_txn p) (postings db) (transactions db)) (accounts db)))),
      map_of (map (\<lambda>a. (a_id a, ledger_balance db ledger_id to a)) (filter (\<lambda>a. a_ledger a = ledger_id) (accounts db))))"

section \<open>Cash flow\<close>

record cash_flow_result =
  cf_basis :: report_basis
  cf_opening :: decimal
  cf_closing :: decimal
  cf_movement :: decimal
  cf_inflows :: "(string \<times> decimal) list"
  cf_outflows :: "(string \<times> decimal) list"
  cf_total_inflows :: decimal
  cf_total_outflows :: decimal

definition cash_accounts :: "db \<Rightarrow> uuid \<Rightarrow> account_row list" where
  "cash_accounts db ledger_id =
     filter (\<lambda>a. a_ledger a = ledger_id \<and> a_type a = ''ASSET''
               \<and> (cash_name (a_name a) \<or> (case a_code a of Some c \<Rightarrow> take 1 c = ''1'' | None \<Rightarrow> False))) (accounts db)"

definition cash_balance :: "db \<Rightarrow> uuid \<Rightarrow> uuid list \<Rightarrow> date \<Rightarrow> decimal" where
  "cash_balance db ledger_id ids d =
     sum_list (map (\<lambda>r. signed (fst r))
       (filter (\<lambda>r. t_ledger (snd r) = ledger_id \<and> p_account (fst r) \<in> set ids \<and> t_date (snd r) \<le> d \<and> final (snd r))
          (inner_join (\<lambda>p t. t_id t = p_txn p) (postings db) (transactions db))))"

definition cash_flow_rows :: "(string \<Rightarrow> nat) \<Rightarrow> db \<Rightarrow> uuid \<Rightarrow> uuid list \<Rightarrow> date \<Rightarrow> date \<Rightarrow> (string \<times> decimal) list" where
  "cash_flow_rows rank db ledger_id ids from to =
     (let rows = filter (\<lambda>r. t_ledger (snd r) = ledger_id \<and> from \<le> t_date (snd r) \<and> t_date (snd r) \<le> to
                      \<and> a_id (fst (fst r)) \<in> set ids \<and> final (snd r))
            (inner_join (\<lambda>ap t. t_id t = p_txn (snd ap))
               (inner_join (\<lambda>a p. p_account p = a_id a) (accounts db) (postings db)) (transactions db));
          of_account = (\<lambda>a. filter (\<lambda>r. a_id (fst (fst r)) = a_id a) rows)
      in map (\<lambda>a. (a_name a, sum_list (map (\<lambda>r. signed (snd (fst r))) (of_account a))))
           (sort_key (\<lambda>a. rank (a_name a)) (filter (\<lambda>a. of_account a \<noteq> []) (accounts db))))"

definition build_cash_flow :: "(string \<Rightarrow> nat) \<Rightarrow> db \<Rightarrow> uuid \<Rightarrow> date \<Rightarrow> date \<Rightarrow> report_basis \<Rightarrow> cash_flow_result" where
  "build_cash_flow rank db ledger_id from to b =
     (let ids = map a_id (cash_accounts db ledger_id) in
      if ids = []
      then \<lparr>cf_basis = b, cf_opening = 0, cf_closing = 0, cf_movement = 0, cf_inflows = [], cf_outflows = [],
            cf_total_inflows = 0, cf_total_outflows = 0\<rparr>
      else
        (let opening = cash_balance db ledger_id ids from; closing = cash_balance db ledger_id ids to;
             flows = cash_flow_rows rank db ledger_id ids from to;
             inflows = filter (\<lambda>r. 0 < snd r) flows;
             outflows = map (\<lambda>r. (fst r, - snd r)) (filter (\<lambda>r. snd r < 0) flows)
         in \<lparr>cf_basis = b, cf_opening = opening, cf_closing = closing, cf_movement = closing - opening,
             cf_inflows = inflows, cf_outflows = outflows,
             cf_total_inflows = sum_list (map snd inflows), cf_total_outflows = sum_list (map snd outflows)\<rparr>))"

end
