(* ===== verification/Report_Properties.thy ===== *)
theory Report_Properties
  imports Reports
begin

text \<open>
  What the statements of \<^verbatim>\<open>src/src/reports\<close> say about the books.  The joins are reduced to sums over
  postings first; the statements then follow from the balance of every transaction.
\<close>

section \<open>Sums over joins\<close>

lemma sum_list_insort: "sum_list (map g (insort_key k x xs)) = g x + (sum_list (map g xs) :: 'b :: comm_monoid_add)"
  by (induction xs) (auto simp: add.left_commute)

lemma sum_list_sort: "sum_list (map g (sort_key k xs)) = (sum_list (map g xs) :: 'b :: comm_monoid_add)"
  by (induction xs) (auto simp: sum_list_insort)

lemma foldl_sum: "foldl (\<lambda>s r. s + f r) (x :: 'b :: comm_monoid_add) rs = x + sum_list (map f rs)"
  by (induction rs arbitrary: x) (auto simp: add.assoc)

lemma sum_list_if: "sum_list (map (\<lambda>x. if P x then g x else 0) xs) = (sum_list (map g (filter P xs)) :: 'b :: monoid_add)"
  by (induction xs) auto

lemma sum_list_filter_zero:
  assumes "\<And>x. x \<in> set xs \<Longrightarrow> \<not> P x \<Longrightarrow> g x = 0"
  shows "sum_list (map g (filter P xs)) = (sum_list (map g xs) :: 'b :: monoid_add)"
  using assms by (induction xs) auto

lemma sum_list_delta:
  assumes "distinct (map k xs)" and "a \<in> set xs"
  shows "sum_list (map (\<lambda>x. if k x = k a then g x else 0) xs) = (g a :: 'b :: comm_monoid_add)"
  using assms
proof (induction xs)
  case (Cons x xs)
  show ?case
  proof (cases "k x = k a")
    case True
    then have "a \<notin> set xs" using Cons.prems(1) by (auto simp: image_iff)
    then have "a = x" using Cons.prems(2) by simp
    moreover have "filter (\<lambda>y. k y = k a) xs = []"
      using notin_imageD [of "k x" k "set xs"] Cons.prems(1) True by (auto simp: filter_empty_conv)
    ultimately show ?thesis by (simp add: sum_list_if)
  qed (use Cons in auto)
qed simp

text \<open>A second join that matches at most once neither drops nor repeats a row of an outer join.\<close>

lemma left_join_sum_fst:
  assumes "\<forall>x\<in>set xs. length (filter (on x) ys) \<le> 1"
  shows "sum_list (map (\<lambda>r. w (fst r)) (left_join on xs ys)) = (sum_list (map w xs) :: 'b :: comm_monoid_add)"
  using assms
proof (induction xs)
  case (Cons x xs)
  have "filter (on x) ys = [] \<or> (\<exists>y. filter (on x) ys = [y])"
    using Cons.prems by (cases "filter (on x) ys") auto
  with Cons show ?case by (auto simp: left_join_def Let_def)
qed (simp add: left_join_def)

lemma left_join_sum:
  "sum_list (map (\<lambda>r. case snd r of None \<Rightarrow> 0 | Some y \<Rightarrow> g (fst r) y) (left_join on xs ys))
   = (sum_list (map (\<lambda>x. sum_list (map (g x) (filter (on x) ys))) xs) :: 'b :: comm_monoid_add)"
  by (induction xs) (auto simp: left_join_def Let_def comp_def)

lemma inner_join_sum_fst:
  assumes "\<forall>x\<in>set xs. length (filter (on x) ys) \<le> 1"
  shows "sum_list (map (\<lambda>r. w (fst r)) (inner_join on xs ys))
    = (sum_list (map w (filter (\<lambda>x. \<exists>y\<in>set ys. on x y) xs)) :: 'b :: comm_monoid_add)"
  using assms
proof (induction xs)
  case (Cons x xs)
  have "filter (on x) ys = [] \<or> (\<exists>y. filter (on x) ys = [y])"
    using Cons.prems by (cases "filter (on x) ys") auto
  moreover have "(\<exists>y\<in>set ys. on x y) \<longleftrightarrow> filter (on x) ys \<noteq> []" by (auto simp: filter_empty_conv)
  ultimately show ?case using Cons by (auto simp: inner_join_def)
qed (simp add: inner_join_def)

lemma inner_join_sum:
  "sum_list (map (\<lambda>r. g (fst r) (snd r)) (inner_join on xs ys))
   = (sum_list (map (\<lambda>x. sum_list (map (g x) (filter (on x) ys))) xs) :: 'b :: comm_monoid_add)"
  by (induction xs) (auto simp: inner_join_def comp_def)

lemma at_most_one_key:
  assumes "distinct (map k xs)"
  shows "length (filter (\<lambda>x. k x = i \<and> P x) xs) \<le> 1"
  using assms
proof (induction xs)
  case (Cons x xs)
  show ?case
  proof (cases "k x = i \<and> P x")
    case True
    then have "filter (\<lambda>y. k y = i \<and> P y) xs = []" using Cons.prems by (auto simp: filter_empty_conv image_iff)
    with True show ?thesis by simp
  qed (use Cons in auto)
qed simp

section \<open>Balances of accounts\<close>

lemma net_signed: "net ps = sum_list (map signed ps)"
  by (induction ps) (auto simp: signed_def is_debit_def is_credit_def)

lemma net_filter_disj:
  assumes "\<And>p. \<not> (P p \<and> R p)"
  shows "net (filter (\<lambda>p. P p \<or> R p) ps) = net (filter P ps) + net (filter R ps)"
  using assms by (induction ps) auto

text \<open>The balances of a set of accounts add up to the balance of their postings.\<close>

lemma net_of_accounts:
  assumes "distinct (map a_id as)"
  shows "sum_list (map (\<lambda>a. net (filter (\<lambda>p. p_account p = a_id a \<and> Q p) ps)) as)
    = net (filter (\<lambda>p. p_account p \<in> a_id ` set as \<and> Q p) ps)"
  using assms
proof (induction as)
  case (Cons a as)
  have eq: "(\<lambda>p. p_account p \<in> a_id ` set (a # as) \<and> Q p)
      = (\<lambda>p. (p_account p = a_id a \<and> Q p) \<or> (p_account p \<in> a_id ` set as \<and> Q p))" by auto
  have "\<not> ((p_account p = a_id a \<and> Q p) \<and> (p_account p \<in> a_id ` set as \<and> Q p))" for p
    using Cons.prems by auto
  note disj = net_filter_disj [of "\<lambda>p. p_account p = a_id a \<and> Q p" "\<lambda>p. p_account p \<in> a_id ` set as \<and> Q p", OF this]
  show ?case unfolding eq disj using Cons by simp
qed simp

lemma account_net:
  assumes "db_wf db" and "a \<in> set (accounts db)" and "a_ledger a = l"
  shows "group_net (account_join db l d f) (a_id a)
    = net (filter (\<lambda>p. p_account p = a_id a \<and> in_slice f p) (postings db))"
proof -
  let ?on2 = "\<lambda>ap t. case snd ap of None \<Rightarrow> False | Some p \<Rightarrow> t_id t = p_txn p \<and> t_date t \<le> d \<and> final t"
  let ?on1 = "\<lambda>a p. p_account p = a_id a \<and> in_slice f p"
  let ?g = "\<lambda>b p. if a_ledger b = l \<and> a_id b = a_id a then signed p else 0"
  have "length (filter (?on2 ap) (transactions db)) \<le> 1" for ap :: "account_row \<times> posting_row option"
    using at_most_one_key [of t_id "transactions db"] assms(1) by (cases "snd ap") (auto simp: db_wf_def)
  note j2 = left_join_sum_fst [of _ ?on2 "transactions db", OF ballI, OF this]
  have "group_net (account_join db l d f) (a_id a)
      = sum_list (map (\<lambda>r. case snd (fst r) of None \<Rightarrow> 0 | Some p \<Rightarrow> ?g (fst (fst r)) p)
          (left_join ?on2 (left_join ?on1 (accounts db) (postings db)) (transactions db)))"
    unfolding group_net_def account_join_def sum_list_if [symmetric]
    by (intro arg_cong [of _ _ sum_list] map_cong refl) (auto split: option.split)
  also have "\<dots> = sum_list (map (\<lambda>x. sum_list (map (?g x) (filter (?on1 x) (postings db)))) (accounts db))"
    using j2 [of "\<lambda>x. case snd x of None \<Rightarrow> 0 | Some p \<Rightarrow> ?g (fst x) p" "left_join ?on1 (accounts db) (postings db)"]
      left_join_sum [of ?g ?on1 "accounts db" "postings db"] by simp
  also have "\<dots> = sum_list (map (\<lambda>x. if a_id x = a_id a
      then (if a_ledger x = l then net (filter (?on1 x) (postings db)) else 0) else 0) (accounts db))"
    by (intro arg_cong [of _ _ sum_list] map_cong refl) (auto simp: net_signed)
  also have "\<dots> = net (filter (?on1 a) (postings db))"
    using sum_list_delta [of a_id "accounts db" a "\<lambda>x. if a_ledger x = l then net (filter (?on1 x) (postings db)) else 0"]
      assms by (simp add: db_wf_def)
  finally show ?thesis .
qed

text \<open>The accounts of a ledger, and the balance of one without a slice.\<close>

definition ledger_accounts :: "db \<Rightarrow> uuid \<Rightarrow> account_row list" where
  "ledger_accounts db l = filter (\<lambda>a. a_ledger a = l) (accounts db)"

lemma account_net_all:
  assumes "db_wf db" and "a \<in> set (ledger_accounts db l)"
  shows "group_net (account_join db l d filter_empty) (a_id a) = raw_net db (a_id a)"
  using account_net [OF assms(1), of a l d filter_empty] assms(2)
  by (simp add: ledger_accounts_def raw_net_eq in_slice_def filter_empty_def)

text \<open>Every posting is booked on an account of the ledger of its transaction.\<close>

definition ledger_consistent :: "db \<Rightarrow> bool" where
  "ledger_consistent db \<longleftrightarrow>
     (\<forall>p\<in>set (postings db). \<forall>a\<in>set (accounts db). \<forall>t\<in>set (transactions db).
        a_id a = p_account p \<longrightarrow> t_id t = p_txn p \<longrightarrow> a_ledger a = t_ledger t)"

lemma net_of_transactions:
  assumes "db_wf db" and "all_balanced db"
  shows "net (filter (\<lambda>p. p_txn p \<in> t_id ` set (filter R (transactions db))) (postings db)) = 0"
proof -
  let ?A = "t_id ` set (filter R (transactions db))" and ?ps = "filter (\<lambda>p. p_txn p \<in> t_id ` set (filter R (transactions db))) (postings db)"
  have "net ?ps = (\<Sum>i\<in>?A. sum_list (map signed (filter (\<lambda>p. p_txn p = i) ?ps)))"
    unfolding net_signed by (rule sum_list_group) auto
  also have "\<dots> = 0"
  proof (rule sum.neutral, rule ballI)
    fix i assume i: "i \<in> ?A"
    then have "filter (\<lambda>p. p_txn p = i) ?ps = postings_of db i" by (auto simp: postings_of_def intro: filter_cong)
    moreover have "balanced db i" using i assms(2) by (auto simp: all_balanced_def)
    ultimately show "sum_list (map signed (filter (\<lambda>p. p_txn p = i) ?ps)) = 0"
      by (simp add: balanced_def net_def flip: net_signed)
  qed
  finally show ?thesis .
qed

lemma txn_unique:
  assumes "db_wf db" and "s \<in> set (transactions db)" and "t \<in> set (transactions db)" and "t_id s = t_id t"
  shows "s = t"
  using assms by (auto simp: db_wf_def distinct_map inj_on_def)

lemma account_unique:
  assumes "db_wf db" and "a \<in> set (accounts db)" and "b \<in> set (accounts db)" and "a_id a = a_id b"
  shows "a = b"
  using assms by (auto simp: db_wf_def distinct_map inj_on_def)

lemma account_in_ledger:
  assumes "db_wf db" and "ledger_consistent db" and "p \<in> set (postings db)"
  shows "p_account p \<in> a_id ` set (ledger_accounts db l)
    \<longleftrightarrow> p_txn p \<in> t_id ` set (filter (\<lambda>t. t_ledger t = l) (transactions db))"
proof -
  from assms(1,3) obtain a t where at: "a \<in> set (accounts db)" "a_id a = p_account p" "t \<in> set (transactions db)" "t_id t = p_txn p"
    by (auto simp: db_wf_def posting_wf_def list_all_iff)
  then have same: "a_ledger a = t_ledger t" using assms(2,3) by (auto simp: ledger_consistent_def)
  have ua: "b = a" if "b \<in> set (accounts db)" "a_id b = p_account p" for b
    using account_unique [OF assms(1) that(1) at(1)] at that by simp
  have ut: "s = t" if "s \<in> set (transactions db)" "t_id s = p_txn p" for s
    using txn_unique [OF assms(1) that(1) at(3)] at that by simp
  have "p_account p \<in> a_id ` set (ledger_accounts db l) \<longleftrightarrow> a_ledger a = l"
  proof
    assume "p_account p \<in> a_id ` set (ledger_accounts db l)"
    then obtain b where "b \<in> set (accounts db)" "a_ledger b = l" "a_id b = p_account p" by (auto simp: ledger_accounts_def)
    with ua show "a_ledger a = l" by auto
  next
    assume "a_ledger a = l"
    then have "a \<in> set (ledger_accounts db l)" using at by (simp add: ledger_accounts_def)
    then show "p_account p \<in> a_id ` set (ledger_accounts db l)" unfolding at(2) [symmetric] by (rule imageI)
  qed
  moreover have "p_txn p \<in> t_id ` set (filter (\<lambda>t. t_ledger t = l) (transactions db)) \<longleftrightarrow> t_ledger t = l"
  proof
    assume "p_txn p \<in> t_id ` set (filter (\<lambda>t. t_ledger t = l) (transactions db))"
    then obtain s where "s \<in> set (transactions db)" "t_ledger s = l" "t_id s = p_txn p" by auto
    with ut show "t_ledger t = l" by auto
  next
    assume "t_ledger t = l"
    then have "t \<in> set (filter (\<lambda>t. t_ledger t = l) (transactions db))" using at by simp
    then show "p_txn p \<in> t_id ` set (filter (\<lambda>t. t_ledger t = l) (transactions db))"
      unfolding at(4) [symmetric] by (rule imageI)
  qed
  ultimately show ?thesis using same by simp
qed

text \<open>In books that balance, the balances of a ledger's accounts add up to zero.\<close>

lemma ledger_nets_cancel:
  assumes "db_wf db" and "all_balanced db" and "ledger_consistent db"
  shows "sum_list (map (\<lambda>a. raw_net db (a_id a)) (ledger_accounts db l)) = 0"
proof -
  have d: "distinct (map a_id (ledger_accounts db l))"
    using assms(1) by (simp add: ledger_accounts_def db_wf_def distinct_map_filter)
  have "sum_list (map (\<lambda>a. raw_net db (a_id a)) (ledger_accounts db l))
      = net (filter (\<lambda>p. p_account p \<in> a_id ` set (ledger_accounts db l)) (postings db))"
    using net_of_accounts [OF d, of "\<lambda>_. True" "postings db"] by (simp add: raw_net_eq)
  also have "\<dots> = net (filter (\<lambda>p. p_txn p \<in> t_id ` set (filter (\<lambda>t. t_ledger t = l) (transactions db))) (postings db))"
    using account_in_ledger [OF assms(1,3)] by (simp cong: filter_cong)
  finally show ?thesis using net_of_transactions [OF assms(1,2)] by simp
qed

section \<open>Trial balance\<close>

lemma account_nets_raw:
  assumes "db_wf db"
  shows "account_nets rank db l d filter_empty = map (\<lambda>a. (a, raw_net db (a_id a)))
    (sort_key (\<lambda>a. (rank (a_type a), rank (a_name a))) (ledger_accounts db l))"
  unfolding account_nets_def ledger_accounts_def
  by (rule map_cong [OF refl]) (simp add: account_net_all [OF assms] ledger_accounts_def)

lemma balance_rows_raw:
  assumes "db_wf db"
  shows "balance_rows rank db l d = map (\<lambda>a. (a, raw_net db (a_id a)))
    (sort_key (\<lambda>a. (rank (a_type a), rank (a_subtype a), rank (a_name a)))
       (filter (\<lambda>a. a_type a \<in> {''ASSET'', ''LIABILITY'', ''EQUITY''}) (ledger_accounts db l)))"
  unfolding balance_rows_def ledger_accounts_def filter_filter
  by (rule map_cong) (auto simp: account_net_all [OF assms] ledger_accounts_def conj_commute)

text \<open>What the trial balance leaves out: a balance on the side opposite to the account's normal one.\<close>

definition dropped_debits :: "db \<Rightarrow> uuid \<Rightarrow> decimal" where
  "dropped_debits db l =
     sum_list (map (\<lambda>a. max (raw_net db (a_id a)) 0) (filter (\<lambda>a. \<not> debit_normal (a_type a)) (ledger_accounts db l)))"

definition dropped_credits :: "db \<Rightarrow> uuid \<Rightarrow> decimal" where
  "dropped_credits db l =
     sum_list (map (\<lambda>a. max (- raw_net db (a_id a)) 0) (filter (\<lambda>a. debit_normal (a_type a)) (ledger_accounts db l)))"

lemma trial_totals:
  assumes "db_wf db"
  shows "tr_total_debit (build_trial_balance rank db l d) - tr_total_credit (build_trial_balance rank db l d)
    = sum_list (map (\<lambda>a. raw_net db (a_id a)) (ledger_accounts db l)) + dropped_credits db l - dropped_debits db l"
proof -
  let ?v = "\<lambda>r. tb_debit r - tb_credit r"
  let ?rows = "map trial_row (filter (\<lambda>an. snd an \<noteq> 0) (account_nets rank db l d filter_empty))"
  have "tr_total_debit (build_trial_balance rank db l d) - tr_total_credit (build_trial_balance rank db l d)
      = sum_list (map ?v ?rows)"
    by (simp add: build_trial_balance_def build_trial_balance_filtered_def Let_def foldl_sum comp_def sum_list_subtractf)
  also have "\<dots> = sum_list (map (\<lambda>an. ?v (trial_row an)) (account_nets rank db l d filter_empty))"
    unfolding map_map comp_def by (rule sum_list_filter_zero) (auto simp: trial_row_def split: prod.splits)
  also have "\<dots> = sum_list (map (\<lambda>a. ?v (trial_row (a, raw_net db (a_id a)))) (ledger_accounts db l))"
    unfolding account_nets_raw [OF assms] by (simp add: comp_def sum_list_sort)
  also have "\<dots> = sum_list (map (\<lambda>a. raw_net db (a_id a)) (ledger_accounts db l)) + dropped_credits db l - dropped_debits db l"
  proof -
    have "sum_list (map (\<lambda>a. ?v (trial_row (a, raw_net db (a_id a)))) as) = sum_list (map (\<lambda>a. raw_net db (a_id a)) as)
        + sum_list (map (\<lambda>a. max (- raw_net db (a_id a)) 0) (filter (\<lambda>a. debit_normal (a_type a)) as))
        - sum_list (map (\<lambda>a. max (raw_net db (a_id a)) 0) (filter (\<lambda>a. \<not> debit_normal (a_type a)) as))" for as
      by (induction as) (auto simp: trial_row_def max_def)
    then show ?thesis by (simp add: dropped_credits_def dropped_debits_def)
  qed
  finally show ?thesis .
qed

section \<open>Income statement\<close>

definition in_period :: "db \<Rightarrow> date \<Rightarrow> date \<Rightarrow> posting_row \<Rightarrow> bool" where
  "in_period db from to p \<longleftrightarrow>
     (\<exists>t\<in>set (transactions db). t_id t = p_txn p \<and> from \<le> t_date t \<and> t_date t \<le> to \<and> final t)"

definition income_ids :: "db \<Rightarrow> uuid \<Rightarrow> uuid set" where
  "income_ids db l = a_id ` set (filter (\<lambda>a. income_type (a_type a)) (ledger_accounts db l))"

lemma income_join_net:
  assumes "db_wf db"
  shows "join_net S (income_join db l from to sel)
    = net (filter (\<lambda>p. p_account p \<in> income_ids db l \<and> sel p \<and> S p \<and> in_period db from to p) (postings db))"
proof -
  let ?on2 = "\<lambda>ap t. t_id t = p_txn (snd ap) \<and> from \<le> t_date t \<and> t_date t \<le> to \<and> final t"
  let ?on1 = "\<lambda>a p. p_account p = a_id a \<and> sel p"
  let ?w = "\<lambda>ap. if a_ledger (fst ap) = l \<and> income_type (a_type (fst ap)) then (if S (snd ap) then signed (snd ap) else 0) else 0"
  let ?as = "filter (\<lambda>a. income_type (a_type a)) (ledger_accounts db l)"
  have "length (filter (?on2 ap) (transactions db)) \<le> 1" for ap :: "account_row \<times> posting_row"
    using at_most_one_key [of t_id "transactions db"] assms by (simp add: db_wf_def)
  note j2 = inner_join_sum_fst [of _ ?on2 "transactions db", OF ballI, OF this]
  have "join_net S (income_join db l from to sel)
      = sum_list (map (\<lambda>r. ?w (fst r)) (inner_join ?on2 (inner_join ?on1 (accounts db) (postings db)) (transactions db)))"
    unfolding join_net_def income_join_def sum_list_if [symmetric] by simp
  also have "\<dots> = sum_list (map ?w (filter (\<lambda>x. in_period db from to (snd x)) (inner_join ?on1 (accounts db) (postings db))))"
    unfolding in_period_def by (rule j2)
  also have "\<dots> = sum_list (map (\<lambda>x. if in_period db from to (snd x) then ?w x else 0) (inner_join ?on1 (accounts db) (postings db)))"
    by (rule sum_list_if [symmetric])
  also have "\<dots> = sum_list (map (\<lambda>x. sum_list (map (\<lambda>p. if in_period db from to p then ?w (x, p) else 0)
      (filter (?on1 x) (postings db)))) (accounts db))"
    using inner_join_sum [of "\<lambda>a p. if in_period db from to p then ?w (a, p) else 0" ?on1 "accounts db" "postings db"] by (simp only: fst_conv snd_conv)
  also have "\<dots> = sum_list (map (\<lambda>a. if a_ledger a = l \<and> income_type (a_type a)
      then net (filter (\<lambda>p. p_account p = a_id a \<and> sel p \<and> S p \<and> in_period db from to p) (postings db)) else 0) (accounts db))"
  proof (intro arg_cong [of _ _ sum_list] map_cong refl)
    fix a
    show "sum_list (map (\<lambda>p. if in_period db from to p then ?w (a, p) else 0) (filter (?on1 a) (postings db)))
        = (if a_ledger a = l \<and> income_type (a_type a)
           then net (filter (\<lambda>p. p_account p = a_id a \<and> sel p \<and> S p \<and> in_period db from to p) (postings db)) else 0)"
      unfolding net_signed by (auto simp: sum_list_if conj_ac)
  qed
  also have "\<dots> = sum_list (map (\<lambda>a. net (filter (\<lambda>p. p_account p = a_id a \<and> sel p \<and> S p \<and> in_period db from to p) (postings db))) ?as)"
    unfolding sum_list_if ledger_accounts_def filter_filter by (simp add: conj_commute)
  also have "\<dots> = net (filter (\<lambda>p. p_account p \<in> income_ids db l \<and> sel p \<and> S p \<and> in_period db from to p) (postings db))"
    unfolding income_ids_def
    by (rule net_of_accounts) (use assms in \<open>simp add: ledger_accounts_def db_wf_def distinct_map_filter\<close>)
  finally show ?thesis .
qed

lemma sum_by_account:
  assumes "db_wf db" and "\<forall>r\<in>set rows. f r \<in> set (accounts db)"
  shows "sum_list (map (\<lambda>a. sum_list (map g (filter (\<lambda>r. a_id (f r) = a_id a) rows))) (accounts db)) = (sum_list (map g rows) :: decimal)"
proof -
  have "sum_list (map g rows) = (\<Sum>i\<in>a_id ` set (accounts db). sum_list (map g (filter (\<lambda>r. a_id (f r) = i) rows)))"
    by (rule sum_list_group) (use assms(2) in auto)
  also have "\<dots> = sum_list (map (\<lambda>i. sum_list (map g (filter (\<lambda>r. a_id (f r) = i) rows))) (map a_id (accounts db)))"
    using assms(1) by (subst sum_list_distinct_conv_sum_set) (simp_all add: db_wf_def)
  finally show ?thesis by (simp add: comp_def)
qed

lemma join_net_accounts:
  assumes "db_wf db" and "\<forall>r\<in>set rows. fst (fst r) \<in> set (accounts db)"
  shows "sum_list (map (\<lambda>a. join_net S (filter (\<lambda>r. a_id (fst (fst r)) = a_id a) rows)) (accounts db)) = join_net S rows"
  unfolding join_net_def by (rule sum_by_account [OF assms])

definition row_amount :: "report_basis \<Rightarrow> income_row \<Rightarrow> decimal" where
  "row_amount b r = (if ir_type r = ''INCOME'' then - raw_net_for_basis b r else raw_net_for_basis b r)"

lemma total_make_accounts:
  "total_of (make_accounts b rows ty st)
   = sum_list (map (row_amount b) (filter (\<lambda>r. ir_type r = ty \<and> ir_subtype r = st) rows))"
  unfolding total_of_def make_accounts_def
  by (subst sum_list_filter_zero) (simp_all add: comp_def row_amount_def [abs_def])

definition income_pairs :: "(string \<times> string) set" where
  "income_pairs = {(''INCOME'', ''OPERATING_INCOME''), (''INCOME'', ''NON_OPERATING_INCOME''),
     (''EXPENSE'', ''COST_OF_GOODS_SOLD''), (''EXPENSE'', ''OPERATING_EXPENSE''),
     (''EXPENSE'', ''NON_OPERATING_EXPENSE''), (''EXPENSE'', ''TAX_EXPENSE'')}"

lemma net_income_rows:
  fixes b :: report_basis
  assumes "\<forall>r\<in>set rows. (ir_type r, ir_subtype r) \<in> income_pairs"
  defines "T \<equiv> \<lambda>ty st. total_of (make_accounts b rows ty st)"
  shows "T ''INCOME'' ''OPERATING_INCOME'' - T ''EXPENSE'' ''COST_OF_GOODS_SOLD'' - T ''EXPENSE'' ''OPERATING_EXPENSE''
     + (T ''INCOME'' ''NON_OPERATING_INCOME'' - T ''EXPENSE'' ''NON_OPERATING_EXPENSE'') - T ''EXPENSE'' ''TAX_EXPENSE''
     = - sum_list (map (raw_net_for_basis b) rows)"
  using assms(1) unfolding T_def total_make_accounts
proof (induction rows)
  case (Cons r rows)
  from Cons.prems have "(ir_type r, ir_subtype r) \<in> income_pairs" by simp
  then show ?case using Cons by (auto simp: income_pairs_def row_amount_def)
qed simp

lemma subtype_income_pair:
  assumes "subtype_allowed (a_type a) (a_subtype a)" and "income_type (a_type a)"
  shows "(a_type a, a_subtype a) \<in> income_pairs"
  using assms
  by (auto simp: subtype_allowed_def income_type_def income_pairs_def account_type_from_db_def split: if_splits)

definition basis_counts :: "db \<Rightarrow> report_basis \<Rightarrow> posting_row \<Rightarrow> bool" where
  "basis_counts db b p = (case b of Accrual \<Rightarrow> True | Cash \<Rightarrow> peer_is_cash db p)"

lemma income_rows_sum:
  assumes "db_wf db"
  shows "sum_list (map (raw_net_for_basis b) (income_rows rank db l from to f))
     = join_net (basis_counts db b) (income_join db l from to (in_slice f))"
proof -
  let ?rows = "income_join db l from to (in_slice f)"
  let ?of = "\<lambda>a. filter (\<lambda>r. a_id (fst (fst r)) = a_id a) ?rows"
  have "sum_list (map (raw_net_for_basis b) (income_rows rank db l from to f))
      = sum_list (map (\<lambda>a. join_net (basis_counts db b) (?of a)) (filter (\<lambda>a. ?of a \<noteq> []) (accounts db)))"
    unfolding income_rows_def Let_def
    by (cases b) (simp_all add: comp_def raw_net_for_basis_def sum_list_sort basis_counts_def [abs_def])
  also have "\<dots> = sum_list (map (\<lambda>a. join_net (basis_counts db b) (?of a)) (accounts db))"
    by (rule sum_list_filter_zero) (auto simp: join_net_def)
  also have "\<dots> = join_net (basis_counts db b) ?rows"
    by (rule join_net_accounts [OF assms]) (auto simp: income_join_def inner_join_def)
  finally show ?thesis .
qed

lemma net_income_eq:
  assumes "db_wf db" and "\<forall>a\<in>set (accounts db). subtype_allowed (a_type a) (a_subtype a)"
  shows "is_net_income (build_income_statement_filtered rank db l from to b f)
    = - net (filter (\<lambda>p. p_account p \<in> income_ids db l \<and> in_slice f p \<and> basis_counts db b p \<and> in_period db from to p)
        (postings db))"
proof -
  let ?rows = "income_rows rank db l from to f"
  have "\<forall>r\<in>set ?rows. (ir_type r, ir_subtype r) \<in> income_pairs"
  proof
    fix r assume "r \<in> set ?rows"
    then obtain a x where a: "a \<in> set (accounts db)" "ir_type r = a_type a" "ir_subtype r = a_subtype a"
        and x: "x \<in> set (income_join db l from to (in_slice f))" "a_id (fst (fst x)) = a_id a"
      by (auto simp: income_rows_def Let_def filter_empty_conv)
    then have "fst (fst x) \<in> set (accounts db)" "income_type (a_type (fst (fst x)))"
      by (auto simp: income_join_def inner_join_def)
    then have "income_type (a_type a)" using a(1) x(2) assms(1) by (auto simp: db_wf_def distinct_map inj_on_def)
    with a assms(2) show "(ir_type r, ir_subtype r) \<in> income_pairs" by (simp add: subtype_income_pair)
  qed
  from net_income_rows [OF this, of b] show ?thesis
    by (simp add: build_income_statement_filtered_def Let_def income_rows_sum [OF assms(1)] income_join_net [OF assms(1)])
qed

section \<open>Balance sheet\<close>

definition type_net :: "db \<Rightarrow> uuid \<Rightarrow> string \<Rightarrow> decimal" where
  "type_net db l ty = sum_list (map (\<lambda>a. raw_net db (a_id a)) (filter (\<lambda>a. a_type a = ty) (ledger_accounts db l)))"

lemma total_section:
  "total_of (section_accounts sg ty st rows)
   = sg * sum_list (map snd (filter (\<lambda>r. a_type (fst r) = ty \<and> a_subtype (fst r) = st) rows))"
proof -
  have "total_of (section_accounts sg ty st rows)
      = sum_list (map (\<lambda>r. sg * snd r) (filter (\<lambda>r. a_type (fst r) = ty \<and> a_subtype (fst r) = st) rows))"
    unfolding total_of_def section_accounts_def
    by (subst sum_list_filter_zero) (simp_all add: comp_def case_prod_unfold)
  then show ?thesis by (simp add: sum_list_const_mult)
qed

lemma total_sections:
  "sum_list (map rs_total (sections sg ty sts rows))
   = sum_list (map (\<lambda>s. total_of (section_accounts sg ty (fst s) rows)) sts)"
  unfolding sections_def
  by (induction sts) (auto simp: map_filter_simps Let_def total_of_def)

text \<open>The two subtypes that no section of the balance sheet shows.\<close>

definition hidden_subtype :: "string \<Rightarrow> bool" where
  "hidden_subtype st \<longleftrightarrow> st = ''EMPLOYEE_ADVANCE'' \<or> st = ''EMPLOYEE_PAYABLE''"

lemma asset_sections_total:
  assumes "\<forall>r\<in>set rows. subtype_allowed (a_type (fst r)) (a_subtype (fst r)) \<and> (hidden_subtype (a_subtype (fst r)) \<longrightarrow> snd r = 0)"
  shows "sum_list (map rs_total (sections 1 ''ASSET'' asset_subtypes rows))
     = sum_list (map snd (filter (\<lambda>r. a_type (fst r) = ''ASSET'') rows))"
  using assms unfolding total_sections total_section asset_subtypes_def
proof (induction rows)
  case (Cons r rows)
  have "a_type (fst r) = ''ASSET'' \<Longrightarrow> a_subtype (fst r)
      \<in> {''CURRENT_ASSET'', ''FIXED_ASSET'', ''INTANGIBLE_ASSET'', ''OTHER_ASSET'', ''EMPLOYEE_ADVANCE''}"
    using Cons.prems by (auto simp: subtype_allowed_def account_type_from_db_def)
  with Cons show ?case by (auto simp: hidden_subtype_def)
qed simp

lemma liability_sections_total:
  assumes "\<forall>r\<in>set rows. subtype_allowed (a_type (fst r)) (a_subtype (fst r)) \<and> (hidden_subtype (a_subtype (fst r)) \<longrightarrow> snd r = 0)"
  shows "sum_list (map rs_total (sections (- 1) ''LIABILITY'' liability_subtypes rows))
     = - sum_list (map snd (filter (\<lambda>r. a_type (fst r) = ''LIABILITY'') rows))"
  using assms unfolding total_sections total_section liability_subtypes_def
proof (induction rows)
  case (Cons r rows)
  have "a_type (fst r) = ''LIABILITY'' \<Longrightarrow> a_subtype (fst r)
      \<in> {''CURRENT_LIABILITY'', ''LONG_TERM_LIABILITY'', ''EMPLOYEE_PAYABLE''}"
    using Cons.prems by (auto simp: subtype_allowed_def account_type_from_db_def)
  with Cons show ?case by (auto simp: hidden_subtype_def)
qed simp

lemma equity_total: "total_of (equity_accounts rows) = - sum_list (map snd (filter (\<lambda>r. a_type (fst r) = ''EQUITY'') rows))"
proof -
  have "total_of (equity_accounts rows) = sum_list (map (\<lambda>r. - snd r) (filter (\<lambda>r. a_type (fst r) = ''EQUITY'') rows))"
    unfolding total_of_def equity_accounts_def by (subst sum_list_filter_zero) (simp_all add: comp_def case_prod_unfold)
  then show ?thesis by (simp add: uminus_sum_list_map comp_def)
qed

lemma balance_rows_type:
  assumes "db_wf db" and "ty \<in> {''ASSET'', ''LIABILITY'', ''EQUITY''}"
  shows "sum_list (map snd (filter (\<lambda>r. a_type (fst r) = ty) (balance_rows rank db l d))) = type_net db l ty"
proof -
  have sub: "filter (\<lambda>a. a_type a = ty) (filter (\<lambda>a. a_type a \<in> {''ASSET'', ''LIABILITY'', ''EQUITY''}) as)
      = filter (\<lambda>a. a_type a = ty) as" for as
    using assms(2) by (induction as) auto
  show ?thesis
    unfolding balance_rows_raw [OF assms(1)] type_net_def sub [of "ledger_accounts db l", symmetric]
    by (simp add: filter_map filter_sort sum_list_sort comp_def)
qed

text \<open>
  Balances that the balance sheet can show and the income statement of the period explains: no
  employee subtype has one, and every transaction of the ledger is final and in the period.
\<close>

definition statement_complete :: "db \<Rightarrow> uuid \<Rightarrow> date \<Rightarrow> date \<Rightarrow> bool" where
  "statement_complete db l from to \<longleftrightarrow>
     (\<forall>a\<in>set (accounts db). subtype_allowed (a_type a) (a_subtype a)
        \<and> (a_ledger a = l \<and> hidden_subtype (a_subtype a) \<longrightarrow> raw_net db (a_id a) = 0))
   \<and> (\<forall>t\<in>set (transactions db). t_ledger t = l \<longrightarrow> final t \<and> from \<le> t_date t \<and> t_date t \<le> to)"

lemma types_exhaust:
  assumes "\<forall>a\<in>set as. subtype_allowed (a_type a) (a_subtype a)"
  shows "sum_list (map g as) = sum_list (map g (filter (\<lambda>a. a_type a = ''ASSET'') as))
     + sum_list (map g (filter (\<lambda>a. a_type a = ''LIABILITY'') as)) + sum_list (map g (filter (\<lambda>a. a_type a = ''EQUITY'') as))
     + (sum_list (map g (filter (\<lambda>a. income_type (a_type a)) as)) :: decimal)"
  using assms
proof (induction as)
  case (Cons a as)
  have "a_type a \<in> {''ASSET'', ''LIABILITY'', ''EQUITY'', ''INCOME'', ''EXPENSE''}"
    using Cons.prems by (auto simp: subtype_allowed_def account_type_from_db_def split: if_splits)
  with Cons show ?case by (auto simp: income_type_def)
qed simp

lemma income_net_complete:
  assumes "db_wf db" and "ledger_consistent db" and "statement_complete db l from to"
  shows "net (filter (\<lambda>p. p_account p \<in> income_ids db l \<and> in_period db from to p) (postings db))
     = sum_list (map (\<lambda>a. raw_net db (a_id a)) (filter (\<lambda>a. income_type (a_type a)) (ledger_accounts db l)))"
proof -
  let ?as = "filter (\<lambda>a. income_type (a_type a)) (ledger_accounts db l)"
  have d: "distinct (map a_id ?as)" using assms(1) by (simp add: ledger_accounts_def db_wf_def distinct_map_filter)
  have "in_period db from to p" if p: "p \<in> set (postings db)" and i: "p_account p \<in> income_ids db l" for p
  proof -
    have "p_account p \<in> a_id ` set (ledger_accounts db l)" using i by (auto simp: income_ids_def)
    then obtain t where "t \<in> set (transactions db)" "t_ledger t = l" "t_id t = p_txn p"
      using account_in_ledger [OF assms(1,2) p] by auto
    then show ?thesis using assms(3) by (auto simp: in_period_def statement_complete_def)
  qed
  then have "filter (\<lambda>p. p_account p \<in> income_ids db l \<and> in_period db from to p) (postings db)
      = filter (\<lambda>p. p_account p \<in> income_ids db l) (postings db)" by (auto intro: filter_cong)
  then show ?thesis
    using net_of_accounts [OF d, of "\<lambda>_. True" "postings db"] by (simp add: raw_net_eq income_ids_def)
qed

section \<open>Cash flow\<close>

text \<open>The net of the cash postings of a ledger's final transactions whose date satisfies a condition.\<close>

definition dated_in :: "db \<Rightarrow> uuid \<Rightarrow> (date \<Rightarrow> bool) \<Rightarrow> posting_row \<Rightarrow> bool" where
  "dated_in db l P p \<longleftrightarrow> (\<exists>t\<in>set (transactions db). t_id t = p_txn p \<and> t_ledger t = l \<and> final t \<and> P (t_date t))"

definition cash_net :: "db \<Rightarrow> uuid \<Rightarrow> (date \<Rightarrow> bool) \<Rightarrow> decimal" where
  "cash_net db l P =
     net (filter (\<lambda>p. p_account p \<in> a_id ` set (cash_accounts db l) \<and> dated_in db l P p) (postings db))"

lemma inner_join_filter:
  "filter (\<lambda>r. Q (fst r) \<and> R (snd r)) (inner_join on xs ys) = inner_join (\<lambda>x y. on x y \<and> Q x \<and> R y) xs ys"
  unfolding inner_join_def
  by (induction xs) (auto simp: filter_map comp_def filter_empty_conv intro: filter_cong)

lemma dated_join:
  assumes "db_wf db"
  shows "sum_list (map (\<lambda>r. w (fst r)) (filter (\<lambda>r. Q (fst r) \<and> t_ledger (snd r) = l \<and> final (snd r) \<and> P (t_date (snd r)))
      (inner_join (\<lambda>x t. t_id t = p_txn (k x)) xs (transactions db))))
    = (sum_list (map w (filter (\<lambda>x. Q x \<and> dated_in db l P (k x)) xs)) :: decimal)"
proof -
  let ?on = "\<lambda>x t. t_id t = p_txn (k x) \<and> Q x \<and> t_ledger t = l \<and> final t \<and> P (t_date t)"
  have "length (filter (?on x) (transactions db)) \<le> 1" for x
    using at_most_one_key [of t_id "transactions db"] assms by (simp add: db_wf_def)
  note j = inner_join_sum_fst [of xs ?on "transactions db" w, OF ballI, OF this]
  have "(\<lambda>x. \<exists>y\<in>set (transactions db). ?on x y) = (\<lambda>x. Q x \<and> dated_in db l P (k x))"
    by (auto simp: dated_in_def)
  then show ?thesis using j
    unfolding inner_join_filter [of Q "\<lambda>t. t_ledger t = l \<and> final t \<and> P (t_date t)"] by simp
qed

lemma cash_balance_net:
  assumes "db_wf db"
  shows "cash_balance db l (map a_id (cash_accounts db l)) d = cash_net db l (\<lambda>x. x \<le> d)"
proof -
  let ?c = "\<lambda>p. p_account p \<in> a_id ` set (cash_accounts db l)"
  have eq: "(\<lambda>r. t_ledger (snd r) = l \<and> ?c (fst r) \<and> t_date (snd r) \<le> d \<and> final (snd r))
      = (\<lambda>r. ?c (fst r) \<and> t_ledger (snd r) = l \<and> final (snd r) \<and> t_date (snd r) \<le> d)" by blast
  show ?thesis unfolding cash_balance_def list.set_map eq
    using dated_join [OF assms, of signed ?c l "\<lambda>x. x \<le> d" id "postings db"]
    by (simp add: cash_net_def net_signed)
qed

lemma cash_net_split:
  assumes "db_wf db" and "\<And>x. \<not> (P x \<and> R x)"
  shows "cash_net db l (\<lambda>x. P x \<or> R x) = cash_net db l P + cash_net db l R"
proof -
  let ?c = "\<lambda>p. p_account p \<in> a_id ` set (cash_accounts db l)"
  have "\<not> ((?c p \<and> dated_in db l P p) \<and> (?c p \<and> dated_in db l R p))" for p
    unfolding dated_in_def using txn_unique [OF assms(1)] assms(2) by metis
  note d = net_filter_disj [of "\<lambda>p. ?c p \<and> dated_in db l P p" "\<lambda>p. ?c p \<and> dated_in db l R p", OF this]
  have "(\<lambda>p. ?c p \<and> dated_in db l (\<lambda>x. P x \<or> R x) p) = (\<lambda>p. (?c p \<and> dated_in db l P p) \<or> (?c p \<and> dated_in db l R p))"
    by (auto simp: dated_in_def)
  then show ?thesis using d by (simp add: cash_net_def)
qed

lemma cash_flow_rows_sum:
  assumes "db_wf db"
  shows "sum_list (map snd (cash_flow_rows rank db l (map a_id (cash_accounts db l)) from to))
    = cash_net db l (\<lambda>x. from \<le> x \<and> x \<le> to)"
proof -
  let ?ids = "a_id ` set (cash_accounts db l)"
  let ?ap = "inner_join (\<lambda>a p. p_account p = a_id a) (accounts db) (postings db)"
  let ?rows = "filter (\<lambda>r. t_ledger (snd r) = l \<and> from \<le> t_date (snd r) \<and> t_date (snd r) \<le> to
                      \<and> a_id (fst (fst r)) \<in> ?ids \<and> final (snd r)) (inner_join (\<lambda>ap t. t_id t = p_txn (snd ap)) ?ap (transactions db))"
  let ?of = "\<lambda>a. filter (\<lambda>r. a_id (fst (fst r)) = a_id a) ?rows"
  let ?g = "\<lambda>ap :: account_row \<times> posting_row. signed (snd ap)"
  have "sum_list (map snd (cash_flow_rows rank db l (map a_id (cash_accounts db l)) from to))
      = sum_list (map (\<lambda>a. sum_list (map (\<lambda>r. ?g (fst r)) (?of a))) (filter (\<lambda>a. ?of a \<noteq> []) (accounts db)))"
    unfolding cash_flow_rows_def Let_def by (simp add: sum_list_sort comp_def)
  also have "\<dots> = sum_list (map (\<lambda>a. sum_list (map (\<lambda>r. ?g (fst r)) (?of a))) (accounts db))"
    by (rule sum_list_filter_zero) auto
  also have "\<dots> = sum_list (map (\<lambda>r. ?g (fst r)) ?rows)"
    by (rule sum_by_account [OF assms]) (auto simp: inner_join_def)
  also have "\<dots> = sum_list (map ?g (filter (\<lambda>ap. a_id (fst ap) \<in> ?ids \<and> dated_in db l (\<lambda>x. from \<le> x \<and> x \<le> to) (snd ap)) ?ap))"
    using dated_join [OF assms, of ?g "\<lambda>ap. a_id (fst ap) \<in> ?ids" l "\<lambda>x. from \<le> x \<and> x \<le> to" snd ?ap]
    by (simp add: conj_ac)
  also have "\<dots> = sum_list (map (\<lambda>a. net (filter (\<lambda>p. p_account p = a_id a
      \<and> p_account p \<in> ?ids \<and> dated_in db l (\<lambda>x. from \<le> x \<and> x \<le> to) p) (postings db))) (accounts db))"
    unfolding sum_list_if [symmetric] inner_join_sum [of "\<lambda>a p. if a_id a \<in> ?ids \<and> dated_in db l (\<lambda>x. from \<le> x \<and> x \<le> to) p then signed p else 0"]
    unfolding sum_list_if net_signed filter_filter
    by (intro arg_cong [of _ _ sum_list] map_cong refl filter_cong) metis
  also have "\<dots> = cash_net db l (\<lambda>x. from \<le> x \<and> x \<le> to)"
  proof -
    have "distinct (map a_id (accounts db))" using assms by (simp add: db_wf_def)
    note n = net_of_accounts [OF this, of "\<lambda>p. p_account p \<in> ?ids \<and> dated_in db l (\<lambda>x. from \<le> x \<and> x \<le> to) p" "postings db"]
    have "?ids \<subseteq> a_id ` set (accounts db)" by (auto simp: cash_accounts_def)
    then show ?thesis unfolding n cash_net_def by (intro arg_cong [of _ _ net] filter_cong) auto
  qed
  finally show ?thesis .
qed

lemma signed_split: "sum_list (map snd (filter (\<lambda>r. 0 < snd r) rs)) - sum_list (map snd (map (\<lambda>r. (fst r, - snd r)) (filter (\<lambda>r. snd r < 0) rs)))
    = (sum_list (map snd rs) :: decimal)"
  by (induction rs) auto

section \<open>What the statements show\<close>

lemma ledger_balance_raw:
  assumes "db_wf db" and "a \<in> set (ledger_accounts db l)"
  shows "ledger_balance db l d a = (if debit_normal (a_type a) then raw_net db (a_id a) else - raw_net db (a_id a))"
proof -
  have s: "is_debit p \<Longrightarrow> p_amount p = signed p" "\<not> is_debit p \<Longrightarrow> - p_amount p = signed p" if "p \<in> set (postings db)" for p
    using assms(1) that by (auto simp: db_wf_def posting_wf_def list_all_iff signed_def is_debit_def is_credit_def)
  have "sum_list (map (\<lambda>r. case snd (fst r) of None \<Rightarrow> 0
        | Some p \<Rightarrow> if a_id (fst (fst r)) = a_id a then (if is_debit p then p_amount p else - p_amount p) else 0)
      (account_join db l d filter_empty)) = group_net (account_join db l d filter_empty) (a_id a)"
    unfolding group_net_def
    by (intro arg_cong [of _ _ sum_list] map_cong refl)
       (auto intro: s simp: account_join_def left_join_def Let_def split: option.split if_splits)
  then show ?thesis by (simp add: ledger_balance_def account_net_all [OF assms])
qed

text \<open>
  The date of the trial balance, of the balance sheet and of the general ledger's balances has no
  effect, and neither has the kind of a transaction: both conditions stand in the \<^verbatim>\<open>ON\<close> clause of an outer
  join on transactions while the amounts are summed over postings, so each account shows the balance of
  all of its postings, of later dates, drafts and pending entries too.
\<close>

theorem reports_ignore_date:
  assumes "db_wf db"
  shows "tr_rows (build_trial_balance rank db l d)
       = map (\<lambda>a. trial_row (a, raw_net db (a_id a)))
           (filter (\<lambda>a. raw_net db (a_id a) \<noteq> 0) (sort_key (\<lambda>a. (rank (a_type a), rank (a_name a))) (ledger_accounts db l)))
    \<and> build_balance_sheet rank db l d ni = build_balance_sheet rank db l d' ni
    \<and> snd (build_general_ledger db l from d acc) = snd (build_general_ledger db l from' d' acc')"
proof (intro conjI)
  show "tr_rows (build_trial_balance rank db l d)
       = map (\<lambda>a. trial_row (a, raw_net db (a_id a)))
           (filter (\<lambda>a. raw_net db (a_id a) \<noteq> 0) (sort_key (\<lambda>a. (rank (a_type a), rank (a_name a))) (ledger_accounts db l)))"
    by (simp add: build_trial_balance_def build_trial_balance_filtered_def Let_def account_nets_raw [OF assms] filter_map comp_def)
  show "build_balance_sheet rank db l d ni = build_balance_sheet rank db l d' ni"
    by (simp add: build_balance_sheet_def balance_rows_raw [OF assms])
  have "ledger_balance db l d a = ledger_balance db l d' a" if "a \<in> set (filter (\<lambda>a. a_ledger a = l) (accounts db))" for a
    using ledger_balance_raw [OF assms, of a l] that by (simp add: ledger_accounts_def)
  then show "snd (build_general_ledger db l from d acc) = snd (build_general_ledger db l from' d' acc')"
    unfolding build_general_ledger_def snd_conv by (intro arg_cong [of _ _ map_of] map_cong refl) simp
qed

text \<open>
  In books where every transaction balances and every posting is booked in its transaction's ledger,
  the totals of the trial balance differ by exactly the balances it leaves out: the credit balances of
  asset and expense accounts and the debit balances of the other accounts, shown as zero.
\<close>

theorem trial_balance_difference:
  assumes "db_wf db" and "all_balanced db" and "ledger_consistent db"
  shows "tr_total_debit (build_trial_balance rank db l d) - tr_total_credit (build_trial_balance rank db l d)
    = dropped_credits db l - dropped_debits db l"
  using trial_totals [OF assms(1)] ledger_nets_cancel [OF assms] by simp

text \<open>
  The net income of the income statement, built up section by section from grouped rows, is minus
  the net of the income and expense postings of the ledger that are in the slice, in the period, final,
  and under the cash basis have a cash account on another line of their transaction.
\<close>

theorem income_statement_net:
  assumes "db_wf db" and "list_all (\<lambda>a. subtype_allowed (a_type a) (a_subtype a)) (accounts db)"
  shows "is_net_income (build_income_statement_filtered rank db l from to b f)
    = - net (filter (\<lambda>p. p_account p \<in> income_ids db l \<and> in_slice f p \<and> basis_counts db b p \<and> in_period db from to p)
        (postings db))"
  using net_income_eq [OF assms(1)] assms(2) by (simp add: list_all_iff)

lemma balance_rows_shown:
  assumes "db_wf db" and "statement_complete db l from to"
  shows "\<forall>r\<in>set (balance_rows rank db l d). subtype_allowed (a_type (fst r)) (a_subtype (fst r))
           \<and> (hidden_subtype (a_subtype (fst r)) \<longrightarrow> snd r = 0)"
  using assms(2) by (auto simp: balance_rows_raw [OF assms(1)] statement_complete_def ledger_accounts_def)

lemma net_income_complete:
  assumes "db_wf db" and "ledger_consistent db" and "statement_complete db l from to"
  shows "is_net_income (build_income_statement rank db l from to Accrual)
    = - sum_list (map (\<lambda>a. raw_net db (a_id a)) (filter (\<lambda>a. income_type (a_type a)) (ledger_accounts db l)))"
proof -
  have "\<forall>a\<in>set (accounts db). subtype_allowed (a_type a) (a_subtype a)" using assms(3) by (simp add: statement_complete_def)
  from net_income_eq [OF assms(1) this, of rank l "from" "to" Accrual filter_empty] income_net_complete [OF assms]
  show ?thesis by (simp add: build_income_statement_def basis_counts_def in_slice_def filter_empty_def)
qed


text \<open>
  The inflows less the outflows of the cash flow statement are not its movement: they exceed it by
  the net of the cash postings of the first day, which the opening balance already includes.
\<close>

theorem cash_flow_first_day:
  assumes "db_wf db" and "from \<le> to"
  shows "cf_total_inflows (build_cash_flow rank db l from to b) - cf_total_outflows (build_cash_flow rank db l from to b)
    = cf_movement (build_cash_flow rank db l from to b) + cash_net db l (\<lambda>x. x = from)"
proof (cases "cash_accounts db l = []")
  case True
  then show ?thesis by (simp add: build_cash_flow_def cash_net_def)
next
  case False
  have le: "(\<lambda>x. x \<le> to) = (\<lambda>x. x \<le> from \<or> (from < x \<and> x \<le> to))" using assms(2) by auto
  have "(\<lambda>x. from \<le> x \<and> x \<le> to) = (\<lambda>x. x = from \<or> (from < x \<and> x \<le> to))" using assms(2) by auto
  then have "cash_net db l (\<lambda>x. from \<le> x \<and> x \<le> to) = cash_net db l (\<lambda>x. x = from) + cash_net db l (\<lambda>x. from < x \<and> x \<le> to)"
    using cash_net_split [OF assms(1), of "\<lambda>x. x = from" "\<lambda>x. from < x \<and> x \<le> to" l] by auto
  moreover have "cash_net db l (\<lambda>x. x \<le> to) = cash_net db l (\<lambda>x. x \<le> from) + cash_net db l (\<lambda>x. from < x \<and> x \<le> to)"
    unfolding le by (rule cash_net_split [OF assms(1)]) auto
  ultimately show ?thesis
    using False signed_split [of "cash_flow_rows rank db l (map a_id (cash_accounts db l)) from to"]
    by (simp add: build_cash_flow_def Let_def cash_balance_net [OF assms(1)] cash_flow_rows_sum [OF assms(1)])
qed

text \<open>
  Reading back the text of a basis gives the basis, the empty text means accrual, and every other
  text is refused.
\<close>

theorem basis_round_trip:
  "parse_basis (basis_str b) = Inr b
   \<and> (isl (parse_basis s) \<longleftrightarrow> s \<notin> {[], basis_str Accrual, basis_str Cash})"
  by (cases b) (auto simp: parse_basis_def)

section \<open>Witnesses\<close>

lemma sample_year_books:
  "all_balanced sample_year" "ledger_consistent sample_year"
  "list_all (\<lambda>a. subtype_allowed (a_type a) (a_subtype a)) (accounts sample_year)"
  "statement_complete sample_year 2 (Date 2025 1 1) (Date 2025 12 31)"
  by code_simp+

theorem reports_ignore_date_witness:
  "build_balance_sheet (\<lambda>_. 0) sample_year 2 (Date 1999 1 1) 60 = build_balance_sheet (\<lambda>_. 0) sample_year 2 (Date 2025 12 31) 60
   \<and> bs_total_assets (build_balance_sheet (\<lambda>_. 0) sample_year 2 (Date 1999 1 1) 60) = 60"
proof
  show e: "build_balance_sheet (\<lambda>_. 0) sample_year 2 (Date 1999 1 1) 60 = build_balance_sheet (\<lambda>_. 0) sample_year 2 (Date 2025 12 31) 60"
    using reports_ignore_date [OF sample_year_wf, of "\<lambda>_. 0" 2 "Date 1999 1 1" 60 "Date 2025 12 31"] by blast
  show "bs_total_assets (build_balance_sheet (\<lambda>_. 0) sample_year 2 (Date 1999 1 1) 60) = 60" by code_simp
qed

theorem trial_balance_difference_witness:
  "tr_total_debit (build_trial_balance (\<lambda>_. 0) sample_year 2 (Date 2025 12 31))
     = tr_total_credit (build_trial_balance (\<lambda>_. 0) sample_year 2 (Date 2025 12 31))"
proof -
  have "dropped_credits sample_year 2 = 0" "dropped_debits sample_year 2 = 0" by code_simp+
  with trial_balance_difference [OF sample_year_wf sample_year_books(1,2), of "\<lambda>_. 0" 2 "Date 2025 12 31"]
  show ?thesis by simp
qed

theorem income_statement_net_witness:
  "is_net_income (build_income_statement_filtered (\<lambda>_. 0) sample_year 2 (Date 2025 1 1) (Date 2025 12 31) Cash filter_empty) = 60"
proof -
  have "net (filter (\<lambda>p. p_account p \<in> income_ids sample_year 2 \<and> in_slice filter_empty p \<and> basis_counts sample_year Cash p
      \<and> in_period sample_year (Date 2025 1 1) (Date 2025 12 31) p) (postings sample_year)) = - 60" by code_simp
  with income_statement_net [OF sample_year_wf sample_year_books(3), of "\<lambda>_. 0" 2 "Date 2025 1 1" "Date 2025 12 31" Cash filter_empty]
  show ?thesis by simp
qed


theorem cash_flow_first_day_witness:
  "cf_total_inflows (build_cash_flow (\<lambda>_. 0) sample_year 2 (Date 2025 5 1) (Date 2025 12 31) Cash)
     = cf_movement (build_cash_flow (\<lambda>_. 0) sample_year 2 (Date 2025 5 1) (Date 2025 12 31) Cash) + 60"
proof -
  have "cash_net sample_year 2 (\<lambda>x. x = Date 2025 5 1) = 60"
    "cf_total_outflows (build_cash_flow (\<lambda>_. 0) sample_year 2 (Date 2025 5 1) (Date 2025 12 31) Cash) = 0"
    "Date 2025 5 1 \<le> Date 2025 12 31" by code_simp+
  with cash_flow_first_day [OF sample_year_wf, of "Date 2025 5 1" "Date 2025 12 31" "\<lambda>_. 0" 2 Cash]
  show ?thesis by simp
qed

end
