(* ===== verification/Calendar.thy ===== *)
theory Calendar
  imports OA_Prelude
begin

text \<open>
  Date arithmetic: adding days as \<^verbatim>\<open>chrono\<close> does, and the three implementations of stepping by months
  that the sources contain: \<^verbatim>\<open>next_month_n\<close> of \<^verbatim>\<open>src/src/reports/cash_flow_forecast.rs\<close>,
  \<^verbatim>\<open>add_months\<close> of \<^verbatim>\<open>src/src/jobs/template_run.rs\<close> and the one of \<^verbatim>\<open>src/src/handlers/templates.rs\<close>.  A
  function that panics outside the range of \<^verbatim>\<open>NaiveDate\<close> returns \<open>None\<close> there.
\<close>

section \<open>Days\<close>

fun next_day :: "date \<Rightarrow> date" where
  "next_day (Date y m d) =
     (if d < month_len y m then Date y m (Suc d) else if m < 12 then Date y (Suc m) 1 else Date (y + 1) 1 1)"

lemma next_day_def:
  "next_day d =
     (if date_day d < month_len (date_year d) (date_month d) then Date (date_year d) (date_month d) (Suc (date_day d))
      else if date_month d < 12 then Date (date_year d) (Suc (date_month d)) 1
      else Date (date_year d + 1) 1 1)"
  by (cases d) simp

definition plus_days :: "date \<Rightarrow> nat \<Rightarrow> date" where
  "plus_days d n = (next_day ^^ n) d"

text \<open>\<^verbatim>\<open>date + Duration::days(n)\<close>, which panics when the sum is out of range.\<close>

definition add_days :: "date \<Rightarrow> nat \<Rightarrow> date option" where
  "add_days d n = (let r = plus_days d n in if valid_date r then Some r else None)"

text \<open>\<^verbatim>\<open>NaiveDate::pred_opt\<close>.\<close>

definition pred_opt :: "date \<Rightarrow> date option" where
  "pred_opt d =
     (if 1 < date_day d then from_ymd_opt (date_year d) (date_month d) (date_day d - 1)
      else if 1 < date_month d then from_ymd_opt (date_year d) (date_month d - 1) (month_len (date_year d) (date_month d - 1))
      else from_ymd_opt (date_year d - 1) 12 31)"

section \<open>Months\<close>

function carry_up :: "int \<Rightarrow> int \<Rightarrow> int \<times> int" where
  "carry_up year month = (if 12 < month then carry_up (year + 1) (month - 12) else (year, month))"
  by auto

termination
  by (relation "measure (\<lambda>(_, month). nat month)") auto

function carry_down :: "int \<Rightarrow> int \<Rightarrow> int \<times> int" where
  "carry_down year month = (if month < 1 then carry_down (year - 1) (month + 12) else (year, month))"
  by auto

termination
  by (relation "measure (\<lambda>(_, month). nat (1 - month))") auto

text \<open>The loops are unfolded by need only.\<close>

declare carry_up.simps [simp del] carry_down.simps [simp del]

definition last_day_of_month :: "int \<Rightarrow> nat \<Rightarrow> nat option" where
  "last_day_of_month year month =
     (let (y, m) = (if month = 12 then (year + 1, 1) else (year, month + 1)) in
      case from_ymd_opt y m 1 of None \<Rightarrow> None | Some first \<Rightarrow> map_option date_day (pred_opt first))"

definition next_month_n :: "date \<Rightarrow> int \<Rightarrow> date option" where
  "next_month_n d n =
     (let (y1, m1) = carry_up (date_year d) (int (date_month d) + n); (year, month) = carry_down y1 m1 in
      map_option (\<lambda>last_day. case from_ymd_opt year (nat month) (min (date_day d) last_day) of Some r \<Rightarrow> r | None \<Rightarrow> d)
        (last_day_of_month year (nat month)))"

definition days_in_month :: "int \<Rightarrow> nat \<Rightarrow> nat" where
  "days_in_month year month =
     (if month \<in> {1, 3, 5, 7, 8, 10, 12} then 31
      else if month \<in> {4, 6, 9, 11} then 30
      else if month = 2 then (if year mod 4 = 0 \<and> (year mod 100 \<noteq> 0 \<or> year mod 400 = 0) then 29 else 28)
      else 30)"

definition add_months :: "date \<Rightarrow> int \<Rightarrow> date" where
  "add_months d months =
     (let total = date_year d * 12 + (int (date_month d) - 1) + months;
          year = total div 12;
          month = nat (total mod 12) + 1
      in case from_ymd_opt year month (min (date_day d) (days_in_month year month)) of Some r \<Rightarrow> r | None \<Rightarrow> d)"

section \<open>Order of days\<close>

lemma month_len_bounds: "28 \<le> month_len y m" "month_len y m \<le> 31"
  by (auto simp: month_len_def)

lemma date_collapse: "Date (date_year d) (date_month d) (date_day d) = d"
  by (cases d) simp

lemma next_day_greater: "d < next_day d"
  by (cases d) (auto simp: next_day_def)

text \<open>A date on the calendar, without the limits of the type.\<close>

definition on_calendar :: "date \<Rightarrow> bool" where
  "on_calendar d \<longleftrightarrow> 1 \<le> date_month d \<and> date_month d \<le> 12 \<and> 1 \<le> date_day d
     \<and> date_day d \<le> month_len (date_year d) (date_month d)"

lemma valid_date_iff: "valid_date d \<longleftrightarrow> on_calendar d \<and> -262143 \<le> date_year d \<and> date_year d \<le> 262142"
  by (auto simp: valid_date_def on_calendar_def)

lemma next_day_on_calendar: "on_calendar d \<Longrightarrow> on_calendar (next_day d)"
  using month_len_bounds(1) [of "date_year d" "Suc (date_month d)"] month_len_bounds(1) [of "date_year d + 1" 1]
  by (cases d) (auto simp: on_calendar_def next_day_def)

text \<open>There is no date between a day and the next.\<close>

lemma next_day_least: "on_calendar d \<Longrightarrow> on_calendar e \<Longrightarrow> d < e \<Longrightarrow> next_day d \<le> e"
  by (cases d; cases e) (auto simp: on_calendar_def next_day_def)

lemma next_day_mono: "on_calendar d \<Longrightarrow> on_calendar e \<Longrightarrow> d \<le> e \<Longrightarrow> next_day d \<le> next_day e"
  by (cases "d = e") (auto intro: order_trans [OF next_day_least] less_imp_le [OF next_day_greater])

lemma plus_days_simps [simp]: "plus_days d 0 = d" "plus_days d (Suc n) = next_day (plus_days d n)"
  by (simp_all add: plus_days_def)

lemma plus_days_on_calendar: "on_calendar d \<Longrightarrow> on_calendar (plus_days d n)"
  by (induction n) (simp_all add: next_day_on_calendar)

lemma plus_days_mono: "on_calendar d \<Longrightarrow> on_calendar e \<Longrightarrow> d \<le> e \<Longrightarrow> plus_days d n \<le> plus_days e n"
  by (induction n) (simp_all add: next_day_mono plus_days_on_calendar)

lemma plus_days_less: "m < n \<Longrightarrow> plus_days d m < plus_days d n"
proof (induction n)
  case (Suc n)
  then show ?case using next_day_greater [of "plus_days d n"] by (cases "m = n") (auto intro: less_trans)
qed simp

lemma plus_days_le_iff: "plus_days d m \<le> plus_days d n \<longleftrightarrow> m \<le> n"
  using plus_days_less [of m n d] plus_days_less [of n m d] by (cases "m \<le> n") (auto simp: le_less not_le)

lemma plus_days_eq_iff: "plus_days d m = plus_days d n \<longleftrightarrow> m = n"
  using plus_days_less [of m n d] plus_days_less [of n m d] by (cases m n rule: linorder_cases) auto

text \<open>Every later date is reached by counting days.\<close>

lemma plus_days_reaches:
  assumes "on_calendar d" and "on_calendar e" and "d \<le> e" and "e \<le> plus_days d n"
  shows "\<exists>k\<le>n. e = plus_days d k"
  using assms(4)
proof (induction n)
  case 0
  with assms(3) show ?case by auto
next
  case (Suc n)
  show ?case
  proof (cases "e \<le> plus_days d n")
    case True
    with Suc.IH show ?thesis by (auto intro: le_SucI)
  next
    case False
    then have "next_day (plus_days d n) \<le> e"
      using next_day_least [OF plus_days_on_calendar [OF assms(1)] assms(2)] by simp
    with Suc.prems have "e = plus_days d (Suc n)" by simp
    then show ?thesis by blast
  qed
qed

lemma add_days_Some: "add_days d n = Some r \<longleftrightarrow> r = plus_days d n \<and> valid_date r"
  by (auto simp: add_days_def Let_def)

text \<open>One year is enough for 365 days.\<close>

lemma next_day_year: "on_calendar d \<Longrightarrow> date_year d \<le> date_year (next_day d)"
  by (auto simp: next_day_def)

lemma plus_days_year: "on_calendar d \<Longrightarrow> date_year d \<le> date_year (plus_days d n)"
  by (induction n) (auto intro: order_trans [OF _ next_day_year] plus_days_on_calendar)

lemma plus_days_add: "plus_days d (m + n) = plus_days (plus_days d m) n"
  by (induction n) simp_all

lemma plus_days_year_bound: "date_year (plus_days d n) \<le> date_year d + int n"
  by (induction n) (auto simp: next_day_def)

lemma add_days_in_range:
  assumes "valid_date d" and "date_year d + int n \<le> 262142"
  shows "add_days d n = Some (plus_days d n)"
  using assms plus_days_on_calendar [of d n] plus_days_year [of d n] plus_days_year_bound [of d n]
  by (auto simp: add_days_Some valid_date_iff)

section \<open>Stepping by months\<close>

lemma carry_up_eq: "1 \<le> month \<Longrightarrow> carry_up year month = (year + (month - 1) div 12, (month - 1) mod 12 + 1)"
proof (induction year month rule: carry_up.induct)
  case (1 year month)
  show ?case
  proof (cases "12 < month")
    case True
    with 1 have "carry_up year month = (year + 1 + (month - 13) div 12, (month - 13) mod 12 + 1)"
      by (subst carry_up.simps) (simp add: algebra_simps)
    moreover have "month - 1 = (month - 13) + 1 * 12" by simp
    then have "(month - 1) div 12 = (month - 13) div 12 + 1" "(month - 1) mod 12 = (month - 13) mod 12"
      by (simp_all only: div_mult_self1 mod_mult_self1)
    ultimately show ?thesis by simp
  next
    case False
    with 1 have "(month - 1) div 12 = 0" "(month - 1) mod 12 = month - 1" by auto
    with False show ?thesis by (subst carry_up.simps) simp
  qed
qed

lemma carry_down_id: "1 \<le> month \<Longrightarrow> carry_down year month = (year, month)"
  by (subst carry_down.simps) simp

lemma days_in_month_len: "1 \<le> month \<Longrightarrow> month \<le> 12 \<Longrightarrow> days_in_month year month = month_len year month"
  unfolding days_in_month_def month_len_def is_leap_def by (simp, presburger)

lemma last_day_of_month_len:
  assumes "1 \<le> month" and "month \<le> 12" and "-262143 \<le> year" and "year < 262142"
  shows "last_day_of_month year month = Some (month_len year month)"
proof (cases "month = 12")
  case True
  with assms show ?thesis
    by (simp add: last_day_of_month_def from_ymd_opt_def valid_date_def pred_opt_def month_len_def)
next
  case False
  with assms month_len_bounds [of year month] month_len_bounds [of year "Suc month"] show ?thesis
    by (simp add: last_day_of_month_def from_ymd_opt_def valid_date_def pred_opt_def)
qed

text \<open>Where stepping \<open>n\<close> months from a date leads.\<close>

definition month_step :: "date \<Rightarrow> int \<Rightarrow> date" where
  "month_step d n =
     (let total = date_year d * 12 + (int (date_month d) - 1) + n; year = total div 12; month = nat (total mod 12) + 1
      in Date year month (min (date_day d) (month_len year month)))"

lemma month_step_on_calendar: "on_calendar d \<Longrightarrow> on_calendar (month_step d n)"
  using month_len_bounds(1) [of "date_year (month_step d n)" "date_month (month_step d n)"]
  by (auto simp: on_calendar_def month_step_def Let_def)

lemma month_step_year:
  assumes "on_calendar d" and "0 \<le> n"
  shows "date_year d \<le> date_year (month_step d n)" "date_year (month_step d n) \<le> date_year d + n"
  using assms by (auto simp: month_step_def Let_def on_calendar_def)

lemma month_step_greater:
  assumes "on_calendar d" and "0 < n"
  shows "d < month_step d n"
proof -
  let ?total = "date_year d * 12 + (int (date_month d) - 1) + n"
  have "date_year d < ?total div 12 \<or> (date_year d = ?total div 12 \<and> date_month d < nat (?total mod 12) + 1)"
  proof (cases "?total div 12 = date_year d")
    case True
    then have "?total mod 12 = ?total - 12 * date_year d" by presburger
    then show ?thesis using True assms by auto
  next
    case False
    moreover have "date_year d \<le> ?total div 12" using assms by (auto simp: on_calendar_def)
    ultimately show ?thesis by simp
  qed
  then show ?thesis by (cases d) (auto simp: month_step_def Let_def)
qed

lemma add_months_eq:
  assumes "valid_date d" and "0 \<le> n" and "date_year d + n \<le> 262142"
  shows "add_months d n = month_step d n"
proof -
  have c: "on_calendar d" using assms(1) by (simp add: valid_date_iff)
  have "days_in_month y (nat (t mod 12) + 1) = month_len y (nat (t mod 12) + 1)" for y t :: int
    by (rule days_in_month_len) (simp_all add: nat_less_iff [symmetric] Suc_le_eq)
  moreover have "valid_date (month_step d n)"
    using month_step_on_calendar [OF c] month_step_year [OF c assms(2)] assms by (auto simp: valid_date_iff)
  ultimately show ?thesis by (simp add: add_months_def month_step_def Let_def from_ymd_opt_def)
qed

lemma carry_up_months:
  assumes "1 \<le> int m + n"
  shows "carry_up y (int m + n) = ((y * 12 + (int m - 1) + n) div 12, (y * 12 + (int m - 1) + n) mod 12 + 1)"
proof -
  have "y * 12 + (int m - 1) + n = (int m + n - 1) + y * 12" by simp
  then have "(y * 12 + (int m - 1) + n) div 12 = y + (int m + n - 1) div 12"
    "(y * 12 + (int m - 1) + n) mod 12 = (int m + n - 1) mod 12"
    by (simp_all only: div_mult_self1 mod_mult_self1)
  then show ?thesis using carry_up_eq [OF assms] by (simp add: algebra_simps)
qed

lemma next_month_n_eq:
  assumes "valid_date d" and "0 \<le> n" and "date_year d + n < 262142"
  shows "next_month_n d n = Some (month_step d n)"
proof -
  have c: "on_calendar d" using assms(1) by (simp add: valid_date_iff)
  let ?t = "date_year d * 12 + (int (date_month d) - 1) + n"
  have m: "1 \<le> int (date_month d) + n" using c assms(2) by (simp add: on_calendar_def)
  have m1: "1 \<le> ?t mod 12 + 1" by simp
  have nat: "nat (?t mod 12 + 1) = nat (?t mod 12) + 1" by (simp add: nat_add_distrib)
  have y: "-262143 \<le> ?t div 12" "?t div 12 < 262142"
    using month_step_year [OF c assms(2)] assms by (auto simp: month_step_def Let_def valid_date_iff)
  have l: "last_day_of_month (?t div 12) (nat (?t mod 12) + 1) = Some (month_len (?t div 12) (nat (?t mod 12) + 1))"
    by (rule last_day_of_month_len) (use y in \<open>simp_all add: nat_less_iff [symmetric] Suc_le_eq\<close>)
  have "valid_date (month_step d n)"
    using month_step_on_calendar [OF c] month_step_year [OF c assms(2)] assms by (auto simp: valid_date_iff)
  then show ?thesis
    unfolding next_month_n_def carry_up_months [OF m] prod.case Let_def carry_down_id [OF m1] nat l
    by (simp add: month_step_def Let_def from_ymd_opt_def)
qed

text \<open>
  Two implementations of stepping by months agree: the loop of the cash-flow forecast, which derives
  the length of a month from the first day of the next, and the division of the template job, which has
  a table of lengths, give the same date for every date and number of months that stay in range.
\<close>

theorem month_steps_agree:
  assumes "valid_date d" and "0 \<le> n" and "date_year d + n < 262142"
  shows "next_month_n d n = Some (add_months d n)"
  using assms by (simp add: next_month_n_eq add_months_eq)

theorem month_steps_agree_witness:
  "next_month_n (Date 2026 1 31) 1 = Some (add_months (Date 2026 1 31) 1) \<and> add_months (Date 2026 1 31) 1 = Date 2026 2 28"
proof
  show "next_month_n (Date 2026 1 31) 1 = Some (add_months (Date 2026 1 31) 1)"
    by (rule month_steps_agree) code_simp+
  show "add_months (Date 2026 1 31) 1 = Date 2026 2 28" by code_simp
qed

section \<open>Steps that move forward\<close>

lemma last_day_of_month_SomeD:
  assumes "last_day_of_month year month = Some l" and "1 \<le> month" and "month \<le> 12"
  shows "l = month_len year month"
  using assms
  by (cases "month = 12")
     (auto simp: last_day_of_month_def from_ymd_opt_def pred_opt_def month_len_def split: option.splits if_splits)

lemma month_index: "1 \<le> nat (t mod 12) + 1" "nat (t mod 12) + 1 \<le> 12" for t :: int
  by (simp_all add: nat_less_iff [symmetric] Suc_le_eq)

lemma add_months_cases:
  assumes "valid_date d"
  shows "add_months d n = d \<or> add_months d n = month_step d n \<and> valid_date (month_step d n)"
  unfolding add_months_def month_step_def Let_def days_in_month_len [OF month_index]
  by (auto simp: from_ymd_opt_def)

lemma next_month_n_cases:
  assumes "valid_date d" and "0 \<le> n" and "next_month_n d n = Some r"
  shows "r = d \<or> r = month_step d n \<and> valid_date (month_step d n)"
proof -
  let ?t = "date_year d * 12 + (int (date_month d) - 1) + n"
  have m: "1 \<le> int (date_month d) + n" using assms(1,2) by (simp add: valid_date_iff on_calendar_def)
  have m1: "1 \<le> ?t mod 12 + 1" by simp
  have nat: "nat (?t mod 12 + 1) = nat (?t mod 12) + 1" by (simp add: nat_add_distrib)
  from assms(3) obtain l where l: "last_day_of_month (?t div 12) (nat (?t mod 12) + 1) = Some l"
    and r: "r = (case from_ymd_opt (?t div 12) (nat (?t mod 12) + 1) (min (date_day d) l) of Some r \<Rightarrow> r | None \<Rightarrow> d)"
    unfolding next_month_n_def carry_up_months [OF m] prod.case Let_def carry_down_id [OF m1] nat by (auto simp del: One_nat_def)
  from last_day_of_month_SomeD [OF l month_index] r show ?thesis
    by (auto simp: month_step_def Let_def from_ymd_opt_def)
qed

text \<open>
  A step to the next occurrence of a schedule never leads back, and leads forward from every date well
  inside the range of \<^verbatim>\<open>NaiveDate\<close>.  \<open>occurrence\<close> repeats it; \<open>walk\<close> is the loop that visits occurrences up
  to a last date for at most \<open>g\<close> rounds.
\<close>

definition LAST_YEAR :: int where
  "LAST_YEAR = 262128"

primrec occurrence :: "(date \<Rightarrow> date option) \<Rightarrow> nat \<Rightarrow> date \<Rightarrow> date option" where
  "occurrence step 0 d = Some d"
| "occurrence step (Suc k) d = (case step d of None \<Rightarrow> None | Some d' \<Rightarrow> occurrence step k d')"

fun walk :: "(date \<Rightarrow> date option) \<Rightarrow> nat \<Rightarrow> date \<Rightarrow> date \<Rightarrow> date list option" where
  "walk step 0 h d = Some []"
| "walk step (Suc g) h d =
     (if d \<le> h then (case step d of None \<Rightarrow> None | Some d' \<Rightarrow> map_option ((#) d) (walk step g h d')) else Some [])"

locale schedule =
  fixes step :: "date \<Rightarrow> date option"
  assumes no_way_back: "valid_date d \<Longrightarrow> step d = Some d' \<Longrightarrow> valid_date d' \<and> d \<le> d'"
    and forward: "valid_date d \<Longrightarrow> date_year d < LAST_YEAR \<Longrightarrow> \<exists>d'. step d = Some d' \<and> d < d'"
begin

lemma forwardD:
  assumes "valid_date d" and "date_year d < LAST_YEAR"
  obtains d' where "step d = Some d'" and "d < d'" and "valid_date d'"
  using forward [OF assms] no_way_back [OF assms(1)] by blast

lemma occurrence_ge: "valid_date d \<Longrightarrow> occurrence step k d = Some e \<Longrightarrow> valid_date e \<and> d \<le> e"
proof (induction k arbitrary: d)
  case (Suc k)
  then obtain d' where d': "step d = Some d'" "occurrence step k d' = Some e" by (auto split: option.splits)
  with Suc.IH no_way_back [OF Suc.prems(1) d'(1)] show ?case by (meson order_trans)
qed simp

text \<open>Each occurrence is at least a day after the one before.\<close>

lemma step_plus_days:
  assumes "valid_date d" and "date_year d < LAST_YEAR" and "step d = Some d'"
  shows "plus_days d (Suc n) \<le> plus_days d' n"
proof -
  have d: "valid_date d'" "d < d'" using forwardD [OF assms(1,2)] assms(3) by auto
  have c: "on_calendar d" "on_calendar d'" using assms(1) d(1) by (simp_all add: valid_date_iff)
  have "plus_days d (1 + n) = plus_days (next_day d) n" unfolding plus_days_add by simp
  also have "\<dots> \<le> plus_days d' n"
    using plus_days_mono [OF next_day_on_calendar [OF c(1)] c(2) next_day_least [OF c d(2)]] .
  finally show ?thesis by simp
qed

lemma walk_total: "valid_date d \<Longrightarrow> date_year h < LAST_YEAR \<Longrightarrow> \<exists>ds. walk step g h d = Some ds"
proof (induction g arbitrary: d)
  case (Suc g)
  show ?case
  proof (cases "d \<le> h")
    case True
    with Suc.prems have "date_year d < LAST_YEAR" using date_year_mono [of d h] by simp
    with Suc.prems obtain d' where "step d = Some d'" "valid_date d'" by (blast elim: forwardD)
    with Suc True show ?thesis by fastforce
  qed simp
qed simp

lemma walk_mem: "valid_date d \<Longrightarrow> walk step g h d = Some ds \<Longrightarrow> e \<in> set ds \<Longrightarrow>
    e \<le> h \<and> d \<le> e \<and> (\<exists>k. occurrence step k d = Some e)"
proof (induction g arbitrary: d ds)
  case (Suc g)
  from Suc.prems(2,3) have h: "d \<le> h" by (auto split: if_splits)
  with Suc.prems(2) obtain d' ds' where d': "step d = Some d'" "walk step g h d' = Some ds'" "ds = d # ds'"
    by (auto split: option.splits)
  have v: "valid_date d'" "d \<le> d'" using no_way_back [OF Suc.prems(1) d'(1)] by auto
  show ?case
  proof (cases "e = d")
    case True
    then show ?thesis using h by (auto intro: exI [of _ 0])
  next
    case False
    then have "e \<in> set ds'" using Suc.prems(3) d'(3) by simp
    from Suc.IH [OF v(1) d'(2) this] obtain k where "e \<le> h" "d' \<le> e" "occurrence step k d' = Some e" by blast
    then show ?thesis using v(2) d'(1) by (auto intro!: exI [of _ "Suc k"])
  qed
qed simp

lemma walk_Suc:
  assumes "valid_date d" and "date_year h < LAST_YEAR" and "d \<le> h" and "walk step (Suc g) h d = Some ds"
  obtains d' ds' where "step d = Some d'" and "d < d'" and "valid_date d'" and "walk step g h d' = Some ds'" and "ds = d # ds'"
proof -
  have "date_year d < LAST_YEAR" using assms(2) date_year_mono [OF assms(3)] by simp
  with assms(1) obtain d' where d': "step d = Some d'" "d < d'" "valid_date d'" by (rule forwardD)
  with assms(3,4) obtain ds' where "walk step g h d' = Some ds'" "ds = d # ds'" by auto
  with d' show thesis by (rule that)
qed

lemma walk_distinct: "valid_date d \<Longrightarrow> date_year h < LAST_YEAR \<Longrightarrow> walk step g h d = Some ds \<Longrightarrow> sorted_wrt (<) ds"
proof (induction g arbitrary: d ds)
  case (Suc g)
  show ?case
  proof (cases "d \<le> h")
    case True
    obtain d' ds' where d': "step d = Some d'" "d < d'" "valid_date d'" "walk step g h d' = Some ds'" "ds = d # ds'"
      using Suc.prems(1,2) True Suc.prems(3) by (rule walk_Suc)
    then have "\<forall>e\<in>set ds'. d < e" using walk_mem [OF d'(3,4)] by fastforce
    then show ?thesis using Suc.IH [OF d'(3) Suc.prems(2) d'(4)] d'(5) by simp
  qed (use Suc.prems in simp)
qed simp

text \<open>With enough rounds the loop visits every occurrence up to the last date.\<close>

lemma walk_complete:
  assumes "valid_date d" and "date_year h < LAST_YEAR" and "h < plus_days d g" and "walk step g h d = Some ds"
    and "occurrence step k d = Some e" and "e \<le> h"
  shows "e \<in> set ds"
  using assms
proof (induction g arbitrary: d ds k)
  case 0
  then show ?case using occurrence_ge [of d k e] by fastforce
next
  case (Suc g)
  have "d \<le> h" using occurrence_ge [OF Suc.prems(1,5)] Suc.prems(6) by (blast intro: order_trans)
  then have y: "date_year d < LAST_YEAR" using Suc.prems(2) date_year_mono [of d h] by simp
  obtain d' ds' where d': "step d = Some d'" "d < d'" "valid_date d'" "walk step g h d' = Some ds'" "ds = d # ds'"
    using Suc.prems(1,2) \<open>d \<le> h\<close> Suc.prems(4) by (rule walk_Suc)
  show ?case
  proof (cases k)
    case 0
    then show ?thesis using Suc.prems(5) d'(5) by simp
  next
    case (Suc j)
    have "h < plus_days d' g" using Suc.prems(3) step_plus_days [OF Suc.prems(1) y d'(1), of g] by simp
    moreover have "occurrence step j d' = Some e" using Suc.prems(5) Suc d'(1) by simp
    ultimately show ?thesis using Suc.IH [OF d'(3) Suc.prems(2) _ d'(4) _ Suc.prems(6)] d'(5) by simp
  qed
qed

end

end
