(* ===== verification/Recurring_Templates.thy ===== *)
theory Recurring_Templates
  imports Calendar Period_Close
begin

text \<open>
  Recurring transaction templates: the daily job of \<^verbatim>\<open>src/src/jobs/template_run.rs\<close> and the handlers of
  \<^verbatim>\<open>src/src/handlers/templates.rs\<close>.  The tables they add are fields of \<open>tdb\<close> beside the books; the column
  \<^verbatim>\<open>transactions.template_id\<close> is the list \<open>template_of\<close> of pairs of a transaction and its template.
  Indexing past the end of a form's list and dates past the range of \<^verbatim>\<open>NaiveDate\<close> panic, which unwinds
  the call like an error.
\<close>

section \<open>Tables\<close>

record txn_template =
  tt_id :: uuid
  tt_ledger :: uuid
  tt_description :: string
  tt_payee :: "string option"
  tt_reference :: "string option"
  tt_frequency :: string
  tt_next :: date
  tt_active :: bool

record template_posting =
  tp_template :: uuid
  tp_account :: uuid
  tp_direction :: string
  tp_amount :: decimal
  tp_memo :: "string option"

record tdb =
  core :: db
  templates :: "txn_template list"
  template_postings :: "template_posting list"
  template_of :: "(uuid \<times> uuid) list"

datatype 'e failure = Failure 'e | Panicked

definition FREQUENCIES :: "string list" where
  "FREQUENCIES = [''weekly'', ''biweekly'', ''monthly'', ''quarterly'', ''yearly'']"

definition lines_of :: "tdb \<Rightarrow> uuid \<Rightarrow> template_posting list" where
  "lines_of s i = filter (\<lambda>l. tp_template l = i) (template_postings s)"

definition insert_template :: "env \<Rightarrow> txn_template \<Rightarrow> (tdb, db_error, uuid) tx" where
  "insert_template E r s =
     (let (i, db1) = draw E (core s) in
      if list_ex (\<lambda>t. tt_id t = i) (templates s) then Inl (UniqueViolation ''transaction_templates_pkey'')
      else if ledger_of (core s) (tt_ledger r) = None then Inl (ForeignKeyViolation ''transaction_templates_ledger_id_fkey'')
      else if tt_frequency r \<notin> set FREQUENCIES then Inl (CheckViolation ''transaction_templates_frequency_check'')
      else Inr (i, s\<lparr>core := db1, templates := templates s @ [r\<lparr>tt_id := i\<rparr>]\<rparr>))"

definition insert_template_posting :: "template_posting \<Rightarrow> tdb \<Rightarrow> db_error + tdb" where
  "insert_template_posting r s =
     (case numeric_col 20 4 (tp_amount r) of None \<Rightarrow> Inl NumericOverflow
      | Some v \<Rightarrow>
          if \<not> list_ex (\<lambda>t. tt_id t = tp_template r) (templates s)
            then Inl (ForeignKeyViolation ''template_postings_template_id_fkey'')
          else if \<not> list_ex (\<lambda>a. a_id a = tp_account r) (accounts (core s))
            then Inl (ForeignKeyViolation ''template_postings_account_id_fkey'')
          else if tp_direction r \<notin> {''DEBIT'', ''CREDIT''} then Inl (CheckViolation ''template_postings_direction_check'')
          else Inr (s\<lparr>template_postings := template_postings s @ [r\<lparr>tp_amount := v\<rparr>]\<rparr>))"

definition set_next :: "uuid \<Rightarrow> date \<Rightarrow> tdb \<Rightarrow> tdb" where
  "set_next i d s = s\<lparr>templates := map (\<lambda>t. if tt_id t = i then t\<lparr>tt_next := d\<rparr> else t) (templates s)\<rparr>"

text \<open>\<^verbatim>\<open>Uuid\<close>'s \<^verbatim>\<open>Display\<close>: the bytes in lower-case hexadecimal, hyphens after four, six, eight and ten.\<close>

definition hex_byte :: "byte \<Rightarrow> string" where
  "hex_byte b = [''0123456789abcdef'' ! (unat b div 16), ''0123456789abcdef'' ! (unat b mod 16)]"

definition show_uuid :: "env \<Rightarrow> uuid \<Rightarrow> string" where
  "show_uuid E u =
     (let h = (\<lambda>i n. concat (map hex_byte (take n (drop i (uuid_bytes E u))))) in
      h 0 4 @ ''-'' @ h 4 2 @ ''-'' @ h 6 2 @ ''-'' @ h 8 2 @ ''-'' @ h 10 6)"

text \<open>The statements of the books on the extended state.\<close>

definition on_core :: "(db, 'e, 'a) tx \<Rightarrow> (tdb, 'e, 'a) tx" where
  "on_core f s = rbind (f (core s)) (\<lambda>(x, db'). Inr (x, s\<lparr>core := db'\<rparr>))"

section \<open>The scheduled job\<close>

definition advance_frequency :: "date \<Rightarrow> string \<Rightarrow> date option" where
  "advance_frequency d f =
     (if f = ''weekly'' then add_days d 7
      else if f = ''biweekly'' then add_days d 14
      else if f = ''monthly'' then Some (add_months d 1)
      else if f = ''quarterly'' then Some (add_months d 3)
      else if f = ''yearly'' then Some (add_months d 12)
      else add_days d 7)"

definition frequency_of :: "tdb \<Rightarrow> uuid \<Rightarrow> db_error + string" where
  "frequency_of s i = ok_or RowNotFound (map_option tt_frequency (find (\<lambda>t. tt_id t = i) (templates s)))"

definition occurrence_txn :: "uuid \<Rightarrow> date \<Rightarrow> string \<Rightarrow> string option \<Rightarrow> string option \<Rightarrow> string \<Rightarrow> uuid \<Rightarrow> txn_row" where
  "occurrence_txn ledger_id d description payee reference currency actor =
     \<lparr>t_id = 0, t_ledger = ledger_id, t_date = d, t_description = description, t_payee = payee, t_reference = reference,
      t_currency = currency, t_kind = ''recurring'', t_created_by = actor, t_created_at = 0, t_reverses = None,
      t_number = None\<rparr>"

definition template_line :: "uuid \<Rightarrow> template_posting \<Rightarrow> posting_row" where
  "template_line txn l =
     \<lparr>p_id = 0, p_txn = txn, p_account = tp_account l, p_amount = tp_amount l, p_direction = tp_direction l,
      p_memo = tp_memo l, p_foreign_amount = None, p_foreign_currency = None, p_cost_center = None, p_project = None\<rparr>"

text \<open>The partial unique index \<^verbatim>\<open>uq_txn_template_due\<close> on (template, date).\<close>

definition occurrence_taken :: "tdb \<Rightarrow> uuid \<Rightarrow> date \<Rightarrow> bool" where
  "occurrence_taken s i d \<longleftrightarrow>
     list_ex (\<lambda>t. t_date t = d \<and> list_ex (\<lambda>p. p = (t_id t, i)) (template_of s)) (transactions (core s))"

text \<open>\<^verbatim>\<open>INSERT INTO transactions ... ON CONFLICT DO NOTHING RETURNING id\<close>.\<close>

definition insert_occurrence :: "env \<Rightarrow> uuid \<Rightarrow> txn_row \<Rightarrow> (tdb, db_error, uuid option) tx" where
  "insert_occurrence E template_id r s =
     (if occurrence_taken s template_id (t_date r) then Inr (None, s)
      else if \<not> list_ex (\<lambda>t. tt_id t = template_id) (templates s)
        then Inl (ForeignKeyViolation ''transactions_template_id_fkey'')
      else rbind (on_core (insert_transaction E r) s) (\<lambda>(i, s1).
           Inr (Some i, s1\<lparr>template_of := template_of s1 @ [(i, template_id)]\<rparr>)))"

definition insert_lines :: "env \<Rightarrow> uuid \<Rightarrow> template_posting list \<Rightarrow> tdb \<Rightarrow> db_error + tdb" where
  "insert_lines E txn ls s =
     rbind (try_fold (\<lambda>db l. add_posting E (template_line txn l) db) (core s) ls) (\<lambda>db'. Inr (s\<lparr>core := db'\<rparr>))"

text \<open>The database transaction of one occurrence; \<open>None\<close> when it was posted before.\<close>

definition occurrence_body ::
  "env \<Rightarrow> uuid \<Rightarrow> txn_row \<Rightarrow> template_posting list \<Rightarrow> (tdb, job_error failure, uuid option) tx" where
  "occurrence_body E template_id r ls s =
     rbind (map_err (Failure \<circ> JobDb) (insert_occurrence E template_id r s)) (\<lambda>(inserted, s1).
       case inserted of
         None \<Rightarrow> Inr (None, s)
       | Some txn \<Rightarrow>
           rbind (map_err (Failure \<circ> JobDb) (insert_lines E txn ls s1)) (\<lambda>s2.
           rbind (map_err (Failure \<circ> JobDb) (frequency_of s template_id)) (\<lambda>f.
           rbind (ok_or Panicked (advance_frequency (t_date r) f)) (\<lambda>d.
           Inr (Some txn, set_next template_id d s2)))))"

text \<open>After the commit: the audit entry and the event.\<close>

definition announce :: "env \<Rightarrow> uuid \<Rightarrow> uuid \<Rightarrow> uuid \<Rightarrow> date \<Rightarrow> uuid \<Rightarrow> db \<Rightarrow> db" where
  "announce E ledger_id actor template_id due_date txn db =
     emit E ledger_id ''transaction.posted'' (JObj [(''transaction_id'', JUuid txn), (''source'', JStr ''recurring'')])
       (audit_log E (Some ledger_id) actor ''auto_generate'' ''transaction'' (Some txn) None
          (Some (JObj [(''template_id'', JUuid template_id), (''due_date'', JStr (show_date due_date))])) db)"

definition run_occurrence ::
  "env \<Rightarrow> uuid \<Rightarrow> uuid \<Rightarrow> string \<Rightarrow> string option \<Rightarrow> string option \<Rightarrow> date \<Rightarrow> tdb \<Rightarrow> (job_error failure + bool) \<times> tdb" where
  "run_occurrence E template_id ledger_id description payee reference due_date s =
     (let ls = lines_of s template_id in
      if length ls < 2
      then (Inl (Failure (Failed (''template '' @ show_uuid E template_id @ '' has fewer than two postings''))), s)
      else
        (case ledger_of (core s) ledger_id of
           None \<Rightarrow> (Inl (Failure (JobDb RowNotFound)), s)
         | Some ledger \<Rightarrow>
             (case run_tx (occurrence_body E template_id
                       (occurrence_txn ledger_id due_date description payee reference (l_base_currency ledger) (l_owner ledger)) ls) s of
                (Inl e, s1) \<Rightarrow> (Inl e, s1)
              | (Inr None, s1) \<Rightarrow> (Inr False, s1)
              | (Inr (Some txn), s1) \<Rightarrow>
                  (Inr True, s1\<lparr>core := announce E ledger_id (l_owner ledger) template_id due_date txn (core s1)\<rparr>))))"

text \<open>The loop that catches up missed occurrences; the first argument is what is left of the 120 rounds.\<close>

fun catch_up :: "env \<Rightarrow> nat \<Rightarrow> txn_template \<Rightarrow> date \<Rightarrow> tdb \<Rightarrow> (job_error failure + unit) \<times> tdb" where
  "catch_up E 0 t cursor s = (Inr (), s)"
| "catch_up E (Suc g) t cursor s =
     (if cursor \<le> today E
      then (case run_occurrence E (tt_id t) (tt_ledger t) (tt_description t) (tt_payee t) (tt_reference t) cursor s of
              (Inl e, s1) \<Rightarrow> (Inl e, s1)
            | (Inr False, s1) \<Rightarrow> (Inr (), s1)
            | (Inr True, s1) \<Rightarrow>
                (case advance_frequency cursor (tt_frequency t) of
                   None \<Rightarrow> (Inl Panicked, s1)
                 | Some c \<Rightarrow> catch_up E g t c s1))
      else (Inr (), s))"

fun scan_due :: "env \<Rightarrow> txn_template list \<Rightarrow> tdb \<Rightarrow> (job_error failure + unit) \<times> tdb" where
  "scan_due E [] s = (Inr (), s)"
| "scan_due E (t # ts) s =
     (case catch_up E 120 t (tt_next t) s of
        (Inl e, s1) \<Rightarrow> (Inl e, s1)
      | (Inr _, s1) \<Rightarrow> scan_due E ts s1)"

definition due_templates :: "env \<Rightarrow> tdb \<Rightarrow> txn_template list" where
  "due_templates E s = filter (\<lambda>t. tt_active t \<and> tt_next t \<le> today E) (templates s)"

definition scan_and_run :: "env \<Rightarrow> tdb \<Rightarrow> (job_error failure + unit) \<times> tdb" where
  "scan_and_run E s = scan_due E (due_templates E s) s"

section \<open>The handlers\<close>

record new_template_form =
  nf_description :: string
  nf_payee :: "string option"
  nf_reference :: "string option"
  nf_frequency :: string
  nf_next_date :: string
  nf_account_id :: "string list"
  nf_direction :: "string list"
  nf_amount :: "string list"
  nf_memo :: "string list"

definition nonempty :: "string option \<Rightarrow> string option" where
  "nonempty x = (case x of Some v \<Rightarrow> if v = [] then None else Some v | None \<Rightarrow> None)"

text \<open>\<^verbatim>\<open>xs[i]\<close>.\<close>

definition index_or_panic :: "'a list \<Rightarrow> nat \<Rightarrow> 'e failure + 'a" where
  "index_or_panic xs i = (if i < length xs then Inr (xs ! i) else Inl Panicked)"

definition form_line :: "env \<Rightarrow> new_template_form \<Rightarrow> uuid \<Rightarrow> tdb \<Rightarrow> nat \<Rightarrow> app_error failure + tdb" where
  "form_line E form template_id s i =
     rbind (ok_or (Failure (Validation ''Invalid account'')) (parse_uuid E (nf_account_id form ! i))) (\<lambda>account.
     rbind (index_or_panic (nf_direction form) i) (\<lambda>direction.
     rbind (index_or_panic (nf_amount form) i) (\<lambda>raw.
     rbind (ok_or (Failure (Validation ''Invalid amount'')) (parse_dec E raw)) (\<lambda>amount.
     let memo = (if i < length (nf_memo form) then nf_memo form ! i else []) in
     map_err (Failure \<circ> AppDb) (insert_template_posting
       \<lparr>tp_template = template_id, tp_account = account, tp_direction = direction, tp_amount = amount,
        tp_memo = (if memo = [] then None else Some memo)\<rparr> s)))))"

definition create_template_body :: "env \<Rightarrow> uuid \<Rightarrow> new_template_form \<Rightarrow> string \<Rightarrow> date \<Rightarrow> (tdb, app_error failure, uuid) tx" where
  "create_template_body E ledger_id form description next_date s =
     rbind (map_err (Failure \<circ> AppDb) (insert_template E
       \<lparr>tt_id = 0, tt_ledger = ledger_id, tt_description = description, tt_payee = nonempty (nf_payee form),
        tt_reference = nonempty (nf_reference form), tt_frequency = nf_frequency form, tt_next = next_date,
        tt_active = True\<rparr> s)) (\<lambda>(i, s1).
     rbind (try_fold (form_line E form i) s1 [0..<length (nf_account_id form)]) (\<lambda>s2. Inr (i, s2)))"

definition create_template :: "env \<Rightarrow> uuid option \<Rightarrow> uuid \<Rightarrow> new_template_form \<Rightarrow> tdb \<Rightarrow> (app_error failure + unit) \<times> tdb" where
  "create_template E user ledger_id form s =
     (case map_err Failure (
         rbind (signed_in user) (\<lambda>user_id.
         rbind (ensure_writer (core s) user_id ledger_id) (\<lambda>_.
         let description = trim (nf_description form) in
         if description = [] then Inl (Validation ''Description is required'')
         else if nf_frequency form \<notin> set FREQUENCIES then Inl (Validation ''Invalid frequency'')
         else rbind (ok_or (Validation ''Invalid date'') (parse_date E (nf_next_date form))) (\<lambda>next_date.
              if length (nf_account_id form) < 2 then Inl (Validation ''At least two posting lines required'')
              else Inr (user_id, description, next_date))))) of
        Inl e \<Rightarrow> (Inl e, s)
      | Inr (user_id, description, next_date) \<Rightarrow>
          (case run_tx (create_template_body E ledger_id form description next_date) s of
             (Inl e, s1) \<Rightarrow> (Inl e, s1)
           | (Inr i, s1) \<Rightarrow>
               (Inr (), s1\<lparr>core := audit_log E (Some ledger_id) user_id ''create'' ''template'' (Some i) None
                  (Some (JObj [(''description'', JStr description), (''frequency'', JStr (nf_frequency form))])) (core s1)\<rparr>)))"

definition toggle_template :: "env \<Rightarrow> uuid option \<Rightarrow> uuid \<Rightarrow> uuid \<Rightarrow> tdb \<Rightarrow> (app_error + unit) \<times> tdb" where
  "toggle_template E user ledger_id template_id s =
     (case rbind (signed_in user) (\<lambda>user_id. rbind (ensure_writer (core s) user_id ledger_id) (\<lambda>_. Inr user_id)) of
        Inl e \<Rightarrow> (Inl e, s)
      | Inr user_id \<Rightarrow>
          (Inr (), s\<lparr>templates := map (\<lambda>t. if tt_id t = template_id then t\<lparr>tt_active := \<not> tt_active t\<rparr> else t) (templates s),
                     core := audit_log E (Some ledger_id) user_id ''toggle'' ''template'' (Some template_id) None None (core s)\<rparr>))"

text \<open>\<^verbatim>\<open>DELETE\<close> cascades to the lines and sets \<^verbatim>\<open>transactions.template_id\<close> to null.\<close>

definition drop_template :: "uuid \<Rightarrow> tdb \<Rightarrow> tdb" where
  "drop_template i s =
     s\<lparr>templates := filter (\<lambda>t. tt_id t \<noteq> i) (templates s),
       template_postings := filter (\<lambda>l. tp_template l \<noteq> i) (template_postings s),
       template_of := filter (\<lambda>p. snd p \<noteq> i) (template_of s)\<rparr>"

definition delete_template :: "env \<Rightarrow> uuid option \<Rightarrow> uuid \<Rightarrow> uuid \<Rightarrow> tdb \<Rightarrow> (app_error + unit) \<times> tdb" where
  "delete_template E user ledger_id template_id s =
     (case rbind (signed_in user) (\<lambda>user_id. rbind (ensure_writer (core s) user_id ledger_id) (\<lambda>_. Inr user_id)) of
        Inl e \<Rightarrow> (Inl e, s)
      | Inr user_id \<Rightarrow>
          (let s1 = drop_template template_id s in
           (Inr (), s1\<lparr>core := audit_log E (Some ledger_id) user_id ''delete'' ''template'' (Some template_id) None None (core s1)\<rparr>)))"

text \<open>The handler's own step: it keeps the date where the target month has no such day.\<close>

definition handler_advance_frequency :: "date \<Rightarrow> string \<Rightarrow> date option" where
  "handler_advance_frequency d f =
     (if f = ''weekly'' then add_days d 7
      else if f = ''biweekly'' then add_days d 14
      else Some (case
        (if f = ''monthly''
         then (let m = date_month d + 1; (y, m') = (if 12 < m then (date_year d + 1, 1) else (date_year d, m))
               in from_ymd_opt y m' (date_day d))
         else if f = ''quarterly''
         then (let (y, m) = carry_up (date_year d) (int (date_month d) + 3) in from_ymd_opt y (nat m) (date_day d))
         else if f = ''yearly'' then from_ymd_opt (date_year d + 1) (date_month d) (date_day d)
         else None) of Some r \<Rightarrow> r | None \<Rightarrow> d))"

text \<open>The new date is written to the template whose identifier is that of the new transaction.\<close>

definition run_template_body :: "env \<Rightarrow> uuid \<Rightarrow> txn_template \<Rightarrow> template_posting list \<Rightarrow> date \<Rightarrow> uuid
   \<Rightarrow> (tdb, app_error failure, uuid) tx" where
  "run_template_body E ledger_id t ls due_date user_id s =
     rbind (ok_or (Failure (AppDb (RaisedException ''null value in column currency''))) (ledger_of (core s) ledger_id)) (\<lambda>ledger.
     rbind (map_err (Failure \<circ> AppDb) (on_core (insert_transaction E
              (occurrence_txn ledger_id due_date (tt_description t) (tt_payee t) (tt_reference t) (l_base_currency ledger) user_id)) s))
       (\<lambda>(txn, s1).
     rbind (map_err (Failure \<circ> AppDb) (insert_lines E txn ls s1)) (\<lambda>s2.
     rbind (ok_or Panicked (handler_advance_frequency due_date (tt_frequency t))) (\<lambda>d.
     let s3 = set_next txn d s2 in
     Inr (txn, s3\<lparr>core := audit_log E (Some ledger_id) user_id ''auto_generate'' ''transaction'' (Some txn) None
            (Some (JObj [(''template_id'', JUuid txn), (''template_description'', JStr (tt_description t))])) (core s3)\<rparr>)))))"

definition run_template :: "env \<Rightarrow> uuid \<Rightarrow> txn_template \<Rightarrow> template_posting list \<Rightarrow> date \<Rightarrow> uuid \<Rightarrow> tdb
   \<Rightarrow> (app_error failure + uuid) \<times> tdb" where
  "run_template E ledger_id t ls due_date user_id = run_tx (run_template_body E ledger_id t ls due_date user_id)"

definition run_now :: "env \<Rightarrow> uuid option \<Rightarrow> uuid \<Rightarrow> uuid \<Rightarrow> tdb \<Rightarrow> (app_error failure + unit) \<times> tdb" where
  "run_now E user ledger_id template_id s =
     (case map_err Failure (
         rbind (signed_in user) (\<lambda>user_id.
         rbind (ensure_writer (core s) user_id ledger_id) (\<lambda>_.
         rbind (ok_or NotFound (find (\<lambda>t. tt_id t = template_id) (templates s))) (\<lambda>t.
         if \<not> tt_active t then Inl (Validation ''Template is inactive'') else Inr (user_id, t))))) of
        Inl e \<Rightarrow> (Inl e, s)
      | Inr (user_id, t) \<Rightarrow>
          (case run_template E ledger_id t (lines_of s template_id) (tt_next t) user_id s of
             (Inl e, s1) \<Rightarrow> (Inl e, s1)
           | (Inr _, s1) \<Rightarrow> (Inr (), s1)))"

text \<open>A template that fails is logged and skipped; a panic ends the request.\<close>

fun process_templates :: "env \<Rightarrow> uuid \<Rightarrow> txn_template list \<Rightarrow> tdb \<Rightarrow> (app_error failure + unit) \<times> tdb" where
  "process_templates E user_id [] s = (Inr (), s)"
| "process_templates E user_id (t # ts) s =
     (case run_template E (tt_ledger t) t (lines_of s (tt_id t)) (tt_next t) user_id s of
        (Inl Panicked, s1) \<Rightarrow> (Inl Panicked, s1)
      | (_, s1) \<Rightarrow> process_templates E user_id ts s1)"

definition process_due :: "env \<Rightarrow> uuid option \<Rightarrow> tdb \<Rightarrow> (app_error failure + unit) \<times> tdb" where
  "process_due E user s =
     (case map_err Failure (signed_in user) of
        Inl e \<Rightarrow> (Inl e, s)
      | Inr user_id \<Rightarrow> process_templates E user_id (due_templates E s) s)"

section \<open>What a run leaves behind\<close>

definition line_booked :: "uuid \<Rightarrow> template_posting \<Rightarrow> posting_row \<Rightarrow> bool" where
  "line_booked txn l p \<longleftrightarrow>
     p_txn p = txn \<and> p_account p = tp_account l \<and> p_direction p = tp_direction l \<and> p_memo p = tp_memo l
   \<and> numeric_col 20 4 (tp_amount l) = Some (p_amount p)"

lemma add_template_line:
  assumes "add_posting E (template_line txn l) db = Inr db'"
  obtains p where "db' = db\<lparr>drawn := Suc (drawn db), postings := postings db @ [p]\<rparr>" and "line_booked txn l p"
proof -
  from assms obtain i where "insert_posting E (template_line txn l) db = Inr (i, db')"
    by (auto simp: add_posting_def result_simps)
  then show thesis
  proof (rule insert_posting_Inr)
    fix q
    assume q: "posting_values (template_line txn l) = Inr q" "db' = db\<lparr>drawn := Suc (drawn db), postings := postings db @ [q\<lparr>p_id := i\<rparr>]\<rparr>"
    from posting_values_Inr [OF q(1)] q(2) show thesis
      by (intro that [of "q\<lparr>p_id := i\<rparr>"]) (simp_all add: template_line_def line_booked_def)
  qed
qed

lemma insert_template_lines_Inr:
  assumes "insert_lines E txn ls s = Inr s'"
  shows "\<exists>ps. list_all2 (line_booked txn) ls ps
     \<and> s' = s\<lparr>core := (core s)\<lparr>drawn := drawn (core s) + length ls, postings := postings (core s) @ ps\<rparr>\<rparr>"
proof -
  have "\<exists>ps. list_all2 (line_booked txn) ls ps \<and> db' = db\<lparr>drawn := drawn db + length ls, postings := postings db @ ps\<rparr>"
    if "try_fold (\<lambda>db l. add_posting E (template_line txn l) db) db ls = Inr db'" for db db'
    using that
  proof (induction ls arbitrary: db)
    case (Cons l ls)
    then obtain db1 where 1: "add_posting E (template_line txn l) db = Inr db1"
      "try_fold (\<lambda>db l. add_posting E (template_line txn l) db) db1 ls = Inr db'" by (auto simp: result_simps)
    from 1(1) obtain p where p: "db1 = db\<lparr>drawn := Suc (drawn db), postings := postings db @ [p]\<rparr>" "line_booked txn l p"
      by (rule add_template_line)
    from Cons.IH [OF 1(2)] obtain ps where "list_all2 (line_booked txn) ls ps"
      "db' = db1\<lparr>drawn := drawn db1 + length ls, postings := postings db1 @ ps\<rparr>" by blast
    with p have "list_all2 (line_booked txn) (l # ls) (p # ps)"
      "db' = db\<lparr>drawn := drawn db + length (l # ls), postings := postings db @ (p # ps)\<rparr>" by simp_all
    then show ?case by blast
  qed simp
  then show ?thesis using assms by (fastforce simp: insert_lines_def result_simps)
qed

lemma insert_occurrence_Some:
  assumes "insert_occurrence E i r s = Inr (Some txn, s1)"
  shows "\<not> occurrence_taken s i (t_date r) \<and> txn \<notin> t_id ` set (transactions (core s))
     \<and> s1 = s\<lparr>core := (core s)\<lparr>drawn := Suc (drawn (core s)),
                  transactions := transactions (core s) @ [r\<lparr>t_id := txn, t_created_at := now E\<rparr>]\<rparr>,
              template_of := template_of s @ [(txn, i)]\<rparr>"
  using assms by (auto simp: insert_occurrence_def on_core_def result_simps insert_transaction_Inr split: if_splits)

text \<open>What one posted occurrence changes.\<close>

definition occurrence_posted ::
  "uuid \<Rightarrow> uuid \<Rightarrow> date \<Rightarrow> tdb \<Rightarrow> tdb \<Rightarrow> bool" where
  "occurrence_posted i l d s s' \<longleftrightarrow>
     (\<exists>t ps f d'. transactions (core s') = transactions (core s) @ [t] \<and> t_id t \<notin> t_id ` set (transactions (core s))
        \<and> t_ledger t = l \<and> t_date t = d \<and> t_kind t = ''recurring''
        \<and> postings (core s') = postings (core s) @ ps \<and> list_all2 (line_booked (t_id t)) (lines_of s i) ps
        \<and> frequency_of s i = Inr f \<and> advance_frequency d f = Some d'
        \<and> templates s' = templates (set_next i d' s) \<and> template_postings s' = template_postings s
        \<and> template_of s' = template_of s @ [(t_id t, i)])"

lemma announce_tables [simp]:
  "transactions (announce E l a i d txn db) = transactions db" "postings (announce E l a i d txn db) = postings db"
proof -
  have "books (announce E l a i d txn db) = books db" by (simp add: announce_def frame)
  then show "transactions (announce E l a i d txn db) = transactions db" "postings (announce E l a i d txn db) = postings db"
    by (rule books_eqD)+
qed

lemma run_occurrence_True:
  assumes "run_occurrence E i l desc payee ref d s = (Inr True, s')"
  shows "occurrence_posted i l d s s' \<and> \<not> occurrence_taken s i d"
proof -
  from assms obtain ledger :: ledger_row and txn s1 where
    b: "occurrence_body E i (occurrence_txn l d desc payee ref (l_base_currency ledger) (l_owner ledger)) (lines_of s i) s
        = Inr (Some txn, s1)"
    and "s' = s1\<lparr>core := announce E l (l_owner ledger) i d txn (core s1)\<rparr>"
    by (auto simp: run_occurrence_def Let_def result_simps split: if_splits option.splits sum.splits prod.splits)
  then have s': "transactions (core s') = transactions (core s1)" "postings (core s') = postings (core s1)"
    "templates s' = templates s1" "template_postings s' = template_postings s1" "template_of s' = template_of s1"
    by simp_all
  let ?r = "occurrence_txn l d desc payee ref (l_base_currency ledger) (l_owner ledger)"
  from b obtain s2 s3 f d' where ins: "insert_occurrence E i ?r s = Inr (Some txn, s2)"
    and lines: "insert_lines E txn (lines_of s i) s2 = Inr s3" and f: "frequency_of s i = Inr f"
    and d': "advance_frequency d f = Some d'" and s1: "s1 = set_next i d' s3"
    by (auto simp: occurrence_body_def occurrence_txn_def result_simps split: option.splits)
  from insert_template_lines_Inr [OF lines] obtain ps where "list_all2 (line_booked txn) (lines_of s i) ps"
    "s3 = s2\<lparr>core := (core s2)\<lparr>drawn := drawn (core s2) + length (lines_of s i), postings := postings (core s2) @ ps\<rparr>\<rparr>" by blast
  with insert_occurrence_Some [OF ins] f d' show ?thesis
    unfolding occurrence_posted_def
    by (intro conjI exI [of _ "?r\<lparr>t_id := txn, t_created_at := now E\<rparr>"] exI [of _ ps] exI [of _ f] exI [of _ d'])
       (simp_all add: s' s1 set_next_def occurrence_txn_def)
qed

lemma run_occurrence_False:
  assumes "run_occurrence E i l desc payee ref d s = (Inr False, s')"
  shows "s' = s \<and> occurrence_taken s i d"
  using assms
  by (auto simp: run_occurrence_def occurrence_body_def insert_occurrence_def occurrence_txn_def Let_def result_simps
      split: if_splits option.splits sum.splits prod.splits)

lemma run_occurrence_error:
  assumes "run_occurrence E i l desc payee ref d s = (Inl e, s')"
  shows "s' = s"
  using assms by (auto simp: run_occurrence_def Let_def result_simps split: if_splits option.splits sum.splits prod.splits)

text \<open>
  One occurrence of a recurring template is atomic.  An error leaves the state as it was; \<open>False\<close>
  means that the occurrence of that date was posted before, and changes nothing; \<open>True\<close> means that one
  transaction of that date in the ledger of the template was appended, with exactly the template's lines,
  that it is linked to the template, and that the template alone moved on by its frequency.
\<close>

theorem occurrence_atomic:
  assumes "run_occurrence E i l desc payee ref d s = (r, s')"
  shows "case r of
      Inl e \<Rightarrow> s' = s
    | Inr False \<Rightarrow> s' = s \<and> occurrence_taken s i d
    | Inr True \<Rightarrow> occurrence_posted i l d s s' \<and> \<not> occurrence_taken s i d"
  using assms run_occurrence_error run_occurrence_False run_occurrence_True
  by (auto split: sum.split bool.split)

lemma catch_up_pos:
  "0 < g \<Longrightarrow> catch_up E g t cursor s =
     (if cursor \<le> today E
      then (case run_occurrence E (tt_id t) (tt_ledger t) (tt_description t) (tt_payee t) (tt_reference t) cursor s of
              (Inl e, s1) \<Rightarrow> (Inl e, s1)
            | (Inr False, s1) \<Rightarrow> (Inr (), s1)
            | (Inr True, s1) \<Rightarrow>
                (case advance_frequency cursor (tt_frequency t) of
                   None \<Rightarrow> (Inl Panicked, s1)
                 | Some c \<Rightarrow> catch_up E (g - 1) t c s1))
      else (Inr (), s))"
proof (cases g)
  case (Suc n)
  show ?thesis unfolding Suc diff_Suc_1 by (rule catch_up.simps)
qed simp

text \<open>
  A due template with fewer than two lines stops the daily run: the error ends the loop over the
  templates, and every template after it stays unposted on every run.
\<close>

theorem bad_template_blocks_scan:
  assumes "due_templates E s = t # ts" and "length (lines_of s (tt_id t)) < 2"
  shows "\<exists>m. scan_and_run E s = (Inl (Failure (Failed m)), s)"
proof -
  have "tt_next t \<le> today E" using assms(1) by (auto simp: due_templates_def filter_eq_Cons_iff)
  then have "\<exists>m. catch_up E 120 t (tt_next t) s = (Inl (Failure (Failed m)), s)"
    using assms(2) by (simp add: catch_up_pos run_occurrence_def)
  then show ?thesis using assms(1) by (auto simp: scan_and_run_def)
qed

section \<open>Catching up\<close>

lemma plus_days_ge: "d \<le> plus_days d n"
  using plus_days_less [of 0 n d] by (cases n) auto

interpretation job_schedule: schedule "\<lambda>d. advance_frequency d f" for f
proof
  fix d d' assume v: "valid_date d" and a: "advance_frequency d f = Some d'"
  have c: "on_calendar d" using v by (simp add: valid_date_iff)
  have "valid_date (add_months d n) \<and> d \<le> add_months d n" if "0 < n" for n
    using add_months_cases [OF v, of n] month_step_greater [OF c that] v by auto
  then show "valid_date d' \<and> d \<le> d'"
    using a plus_days_ge by (auto simp: advance_frequency_def add_days_Some split: if_splits)
next
  fix d assume v: "valid_date d" and y: "date_year d < LAST_YEAR"
  have c: "on_calendar d" using v by (simp add: valid_date_iff)
  have m: "d < add_months d n" if "0 < n" "n \<le> 12" for n
    using add_months_eq [OF v, of n] month_step_greater [OF c that(1)] that y by (simp add: LAST_YEAR_def)
  have d: "add_days d n = Some (plus_days d n)" if "n \<le> 14" for n
    by (rule add_days_in_range [OF v]) (use that y in \<open>simp add: LAST_YEAR_def\<close>)
  show "\<exists>d'. advance_frequency d f = Some d' \<and> d < d'"
    using m [of 1] m [of 3] m [of 12] d [of 7] d [of 14] plus_days_less [of 0 7 d] plus_days_less [of 0 14 d]
    by (simp add: advance_frequency_def)
qed

text \<open>Rows that refer to each other: keys are unique, next dates exist, links point to transactions.\<close>

definition tdb_wf :: "tdb \<Rightarrow> bool" where
  "tdb_wf s \<longleftrightarrow>
     distinct (map tt_id (templates s)) \<and> list_all (\<lambda>t. valid_date (tt_next t)) (templates s)
   \<and> fst ` set (template_of s) \<subseteq> t_id ` set (transactions (core s))"

lemma set_next_ids: "map tt_id (templates (set_next i d s)) = map tt_id (templates s)"
  by (simp add: set_next_def comp_def)

lemma posted_taken:
  assumes "tdb_wf s" and "occurrence_posted i l d s s'"
  shows "occurrence_taken s' j e \<longleftrightarrow> occurrence_taken s j e \<or> (j = i \<and> e = d)"
proof -
  from assms(2) obtain t where t: "transactions (core s') = transactions (core s) @ [t]"
    "t_id t \<notin> t_id ` set (transactions (core s))" "t_date t = d" "template_of s' = template_of s @ [(t_id t, i)]"
    unfolding occurrence_posted_def by blast
  have "(t_id t, j) \<notin> set (template_of s)" using assms(1) t(2) by (force simp: tdb_wf_def)
  moreover have "(t_id x, j) \<in> set (template_of s') \<longleftrightarrow> (t_id x, j) \<in> set (template_of s)"
    if "x \<in> set (transactions (core s))" for x
    using notin_imageD [OF t(2) that] by (auto simp: t(4))
  ultimately show ?thesis unfolding occurrence_taken_def t(1)
    by (auto simp: list_ex_iff t(3,4))
qed

lemma posted_wf:
  assumes "tdb_wf s" and "occurrence_posted i l d s s'" and "valid_date d"
  shows "tdb_wf s'"
proof -
  from assms(2) obtain t f d' where t: "transactions (core s') = transactions (core s) @ [t]"
    "advance_frequency d f = Some d'" "templates s' = templates (set_next i d' s)" "template_of s' = template_of s @ [(t_id t, i)]"
    unfolding occurrence_posted_def by blast
  have "valid_date d'" using job_schedule.no_way_back [OF assms(3) t(2)] by simp
  then have "list_all (\<lambda>t. valid_date (tt_next t)) (templates s')"
    using assms(1) by (auto simp: tdb_wf_def list_all_iff t(3) set_next_def)
  moreover have "map tt_id (templates s') = map tt_id (templates s)" unfolding t(3) by (rule set_next_ids)
  ultimately show ?thesis using assms(1) unfolding tdb_wf_def t(1,4) by auto
qed

text \<open>One template after its loop: it is due after today, and nothing else changed.\<close>

definition advanced :: "env \<Rightarrow> uuid \<Rightarrow> tdb \<Rightarrow> tdb \<Rightarrow> bool" where
  "advanced E i s s' \<longleftrightarrow>
     tdb_wf s' \<and> (\<exists>c>today E. templates s' = templates (set_next i c s))
   \<and> (\<forall>j d. j \<noteq> i \<longrightarrow> occurrence_taken s' j d = occurrence_taken s j d)"

lemma set_next_others: "filter (\<lambda>u. tt_id u \<noteq> i) (templates (set_next i d s)) = filter (\<lambda>u. tt_id u \<noteq> i) (templates s)"
proof -
  have "filter (\<lambda>u. tt_id u \<noteq> i) (map (\<lambda>t. if tt_id t = i then t\<lparr>tt_next := d\<rparr> else t) ts) = filter (\<lambda>u. tt_id u \<noteq> i) ts" for ts
    by (induction ts) auto
  then show ?thesis by (simp add: set_next_def)
qed

lemma set_next_self:
  assumes "distinct (map tt_id (templates s))" and "x \<in> set (templates s)"
  shows "templates (set_next (tt_id x) (tt_next x) s) = templates s"
proof -
  have "(if tt_id t = tt_id x then t\<lparr>tt_next := tt_next x\<rparr> else t) = t" if "t \<in> set (templates s)" for t
    using assms that by (auto simp: distinct_map inj_on_def)
  then show ?thesis by (simp add: set_next_def map_idI)
qed

lemma set_next_twice: "templates (set_next i d (set_next i c s)) = templates (set_next i d s)"
  by (simp add: set_next_def comp_def)

lemma set_next_cong: "templates s = templates s' \<Longrightarrow> templates (set_next i d s) = templates (set_next i d s')"
  by (simp add: set_next_def)

lemma find_key: "distinct (map k xs) \<Longrightarrow> x \<in> set xs \<Longrightarrow> find (\<lambda>y. k y = k x) xs = Some x"
  by (induction xs) (auto simp: image_iff)

lemma frequency_of_mem:
  assumes "distinct (map tt_id (templates s))" and "x \<in> set (templates s)"
  shows "frequency_of s (tt_id x) = Inr (tt_frequency x)"
  using find_key [OF assms] by (simp add: frequency_of_def)

text \<open>Occurrences (template, ledger, date) posted one after the other, and nothing else in between.\<close>

inductive posted_run :: "(uuid \<times> uuid \<times> date) list \<Rightarrow> tdb \<Rightarrow> tdb \<Rightarrow> bool" where
  nothing: "posted_run [] s s"
| one_more: "occurrence_posted i l d s s1 \<Longrightarrow> posted_run os s1 s' \<Longrightarrow> posted_run ((i, l, d) # os) s s'"

lemma posted_run_append: "posted_run os s s1 \<Longrightarrow> posted_run os' s1 s' \<Longrightarrow> posted_run (os @ os') s s'"
  by (induction rule: posted_run.induct) (auto intro: posted_run.intros)

text \<open>
  A template in the middle of its loop: its row carries the cursor, and no occurrence from there on is posted.
\<close>

definition at_cursor :: "txn_template \<Rightarrow> date \<Rightarrow> tdb \<Rightarrow> bool" where
  "at_cursor t cursor s \<longleftrightarrow>
     tdb_wf s \<and> (\<exists>x\<in>set (templates s). tt_id x = tt_id t \<and> tt_next x = cursor \<and> tt_frequency x = tt_frequency t)
   \<and> (\<forall>d\<ge>cursor. \<not> occurrence_taken s (tt_id t) d)"

lemma catch_up_step:
  assumes "at_cursor t cursor s" and "cursor \<le> today E" and "date_year (today E) < LAST_YEAR"
    and "catch_up E (Suc g) t cursor s = (Inr (), s')"
  obtains s1 c where "occurrence_posted (tt_id t) (tt_ledger t) cursor s s1" and "at_cursor t c s1"
    and "templates s1 = templates (set_next (tt_id t) c s)" and "advance_frequency cursor (tt_frequency t) = Some c"
    and "\<And>h n. h < plus_days cursor (Suc n) \<Longrightarrow> h < plus_days c n" and "catch_up E g t c s1 = (Inr (), s')"
proof -
  from assms(1) obtain x where wf: "tdb_wf s" and x: "x \<in> set (templates s)" "tt_id x = tt_id t" "tt_next x = cursor"
    "tt_frequency x = tt_frequency t" and free: "\<forall>d\<ge>cursor. \<not> occurrence_taken s (tt_id t) d" by (auto simp: at_cursor_def)
  note dist = wf [unfolded tdb_wf_def, THEN conjunct1]
  have v: "valid_date cursor" using wf x by (auto simp: tdb_wf_def list_all_iff)
  obtain r s1 where run: "run_occurrence E (tt_id t) (tt_ledger t) (tt_description t) (tt_payee t) (tt_reference t) cursor s = (r, s1)"
    by (cases "run_occurrence E (tt_id t) (tt_ledger t) (tt_description t) (tt_payee t) (tt_reference t) cursor s")
  have r: "r = Inr True"
  proof (cases r)
    case (Inl e)
    then show ?thesis using assms(2,4) run by simp
  next
    case (Inr b)
    then show ?thesis using run_occurrence_False [of E "tt_id t" _ _ _ _ cursor s s1] run free by (cases b) auto
  qed
  with run run_occurrence_True have posted: "occurrence_posted (tt_id t) (tt_ledger t) cursor s s1" by blast
  have y: "date_year cursor < LAST_YEAR" using date_year_mono [OF assms(2)] assms(3) by simp
  obtain c where c: "advance_frequency cursor (tt_frequency t) = Some c" "cursor < c"
    using v y by (blast elim: job_schedule.forwardD)
  have "frequency_of s (tt_id t) = Inr (tt_frequency t)" using frequency_of_mem [OF dist x(1)] x(2,4) by simp
  then have t1: "templates s1 = templates (set_next (tt_id t) c s)"
    using posted c(1) unfolding occurrence_posted_def by auto
  have "x\<lparr>tt_next := c\<rparr> \<in> set (templates s1)" using x(1,2) by (force simp: t1 set_next_def)
  moreover have "\<forall>d\<ge>c. \<not> occurrence_taken s1 (tt_id t) d"
    using posted_taken [OF wf posted] free c(2) by auto
  ultimately have "at_cursor t c s1"
    using posted_wf [OF wf posted v] x unfolding at_cursor_def by (intro conjI bexI [of _ "x\<lparr>tt_next := c\<rparr>"]) simp_all
  then show thesis
    using that [OF posted _ t1 c(1) less_le_trans [OF _ job_schedule.step_plus_days [OF v y c(1)]]] assms(2,4) run r c(1) by simp
qed

lemma advanced_refl:
  assumes "at_cursor t cursor s" and "today E < cursor"
  shows "advanced E (tt_id t) s s"
proof -
  from assms(1) obtain x where x: "x \<in> set (templates s)" "tt_id x = tt_id t" "tt_next x = cursor" and wf: "tdb_wf s"
    by (auto simp: at_cursor_def)
  then have "templates s = templates (set_next (tt_id t) cursor s)"
    using set_next_self [of s x] by (simp add: tdb_wf_def)
  then show ?thesis using wf assms(2) unfolding advanced_def by blast
qed

lemma catch_up_advances:
  assumes "at_cursor t cursor s" and "today E < plus_days cursor g" and "date_year (today E) < LAST_YEAR"
    and "catch_up E g t cursor s = (Inr (), s')"
  shows "advanced E (tt_id t) s s'
     \<and> (\<exists>ds. walk (\<lambda>d. advance_frequency d (tt_frequency t)) g (today E) cursor = Some ds
          \<and> posted_run (map (\<lambda>d. (tt_id t, tt_ledger t, d)) ds) s s')"
  using assms
proof (induction g arbitrary: cursor s)
  case 0
  then show ?case
    using advanced_refl [of t cursor s E] by (auto intro: posted_run.nothing)
next
  case (Suc g)
  show ?case
  proof (cases "cursor \<le> today E")
    case False
    then have s': "s' = s" using Suc.prems(4) by simp
    have "advanced E (tt_id t) s s" using advanced_refl [OF Suc.prems(1)] False by simp
    then show ?thesis using False by (auto simp: s' intro: posted_run.nothing)
  next
    case True
    from catch_up_step [OF Suc.prems(1) True Suc.prems(3,4)] obtain s1 c where
      posted: "occurrence_posted (tt_id t) (tt_ledger t) cursor s s1" and at: "at_cursor t c s1"
      and t1: "templates s1 = templates (set_next (tt_id t) c s)" and c: "advance_frequency cursor (tt_frequency t) = Some c"
      and far: "\<And>h n. h < plus_days cursor (Suc n) \<Longrightarrow> h < plus_days c n" and rest: "catch_up E g t c s1 = (Inr (), s')"
      by blast
    have wf: "tdb_wf s" using Suc.prems(1) by (simp add: at_cursor_def)
    from Suc.IH [OF at far [OF Suc.prems(2)] Suc.prems(3) rest] obtain ds where
      adv: "advanced E (tt_id t) s1 s'" and ds: "walk (\<lambda>d. advance_frequency d (tt_frequency t)) g (today E) c = Some ds"
        "posted_run (map (\<lambda>d. (tt_id t, tt_ledger t, d)) ds) s1 s'" by blast
    have "advanced E (tt_id t) s s'"
      using adv posted_taken [OF wf posted] set_next_twice [of "tt_id t"] set_next_cong [OF t1] by (auto simp: advanced_def)
    moreover have "posted_run (map (\<lambda>d. (tt_id t, tt_ledger t, d)) (cursor # ds)) s s'"
      using posted_run.one_more [OF posted ds(2)] by simp
    ultimately show ?thesis using True c ds(1) by auto
  qed
qed

text \<open>Templates the daily run can bring up to date: at most 120 days behind, no occurrence posted ahead.\<close>

definition catchable :: "env \<Rightarrow> tdb \<Rightarrow> txn_template \<Rightarrow> bool" where
  "catchable E s t \<longleftrightarrow> today E < plus_days (tt_next t) 120 \<and> (\<forall>d\<ge>tt_next t. \<not> occurrence_taken s (tt_id t) d)"

text \<open>The dates a template has missed by today: its next date and the following ones of its schedule.\<close>

definition missed :: "env \<Rightarrow> txn_template \<Rightarrow> date list" where
  "missed E t = (case walk (\<lambda>d. advance_frequency d (tt_frequency t)) 120 (today E) (tt_next t) of Some ds \<Rightarrow> ds | None \<Rightarrow> [])"

definition missed_occurrences :: "env \<Rightarrow> txn_template list \<Rightarrow> (uuid \<times> uuid \<times> date) list" where
  "missed_occurrences E ts = concat (map (\<lambda>t. map (\<lambda>d. (tt_id t, tt_ledger t, d)) (missed E t)) ts)"

lemma missed_dates:
  assumes "valid_date (tt_next t)" and "date_year (today E) < LAST_YEAR" and "today E < plus_days (tt_next t) 120"
  shows "set (missed E t) = {d. \<exists>k. occurrence (\<lambda>d. advance_frequency d (tt_frequency t)) k (tt_next t) = Some d \<and> d \<le> today E}"
proof -
  obtain ds where ds: "walk (\<lambda>d. advance_frequency d (tt_frequency t)) 120 (today E) (tt_next t) = Some ds"
    using job_schedule.walk_total [OF assms(1,2)] by blast
  show ?thesis
    using job_schedule.walk_mem [OF assms(1) ds] job_schedule.walk_complete [OF assms(1,2,3) ds]
    by (auto simp: missed_def ds)
qed

lemma scan_due_advances:
  assumes "tdb_wf s" and "distinct (map tt_id ts)" and "set ts \<subseteq> set (templates s)"
    and "\<forall>t\<in>set ts. catchable E s t" and "date_year (today E) < LAST_YEAR" and "scan_due E ts s = (Inr (), s')"
  shows "(\<forall>t'\<in>set (templates s'). tt_id t' \<in> tt_id ` set ts \<longrightarrow> today E < tt_next t')
       \<and> filter (\<lambda>t. tt_id t \<notin> tt_id ` set ts) (templates s') = filter (\<lambda>t. tt_id t \<notin> tt_id ` set ts) (templates s)
       \<and> posted_run (missed_occurrences E ts) s s'"
  using assms
proof (induction ts arbitrary: s)
  case (Cons t ts)
  from Cons.prems(6) obtain s1 where c: "catch_up E 120 t (tt_next t) s = (Inr (), s1)" and rest: "scan_due E ts s1 = (Inr (), s')"
    by (auto split: prod.splits sum.splits)
  have t: "t \<in> set (templates s)" "catchable E s t" "tt_id t \<notin> tt_id ` set ts" using Cons.prems(2-4) by auto
  have "at_cursor t (tt_next t) s" using t(1,2) Cons.prems(1) by (auto simp: at_cursor_def catchable_def)
  from catch_up_advances [OF this _ Cons.prems(5) c] t(2)
  have adv: "advanced E (tt_id t) s s1" and run: "posted_run (map (\<lambda>d. (tt_id t, tt_ledger t, d)) (missed E t)) s s1"
    by (auto simp: catchable_def missed_def)
  then obtain d where d: "today E < d" "templates s1 = templates (set_next (tt_id t) d s)" by (auto simp: advanced_def)
  have other: "tt_id u \<noteq> tt_id t" if "u \<in> set ts" for u using notin_imageD [OF t(3) that] .
  have "u \<in> set (templates s1)" if "u \<in> set ts" for u
    using that Cons.prems(3) other [OF that] by (auto simp: d(2) set_next_def intro!: image_eqI [of _ _ u])
  moreover have "catchable E s1 u" if "u \<in> set ts" for u
    using that Cons.prems(4) adv other [OF that] by (auto simp: catchable_def advanced_def)
  ultimately have IH: "(\<forall>t'\<in>set (templates s'). tt_id t' \<in> tt_id ` set ts \<longrightarrow> today E < tt_next t')"
      "filter (\<lambda>t. tt_id t \<notin> tt_id ` set ts) (templates s') = filter (\<lambda>t. tt_id t \<notin> tt_id ` set ts) (templates s1)"
      "posted_run (missed_occurrences E ts) s1 s'"
    using Cons.IH [of s1] adv rest Cons.prems(2,5) by (auto simp: advanced_def)
  have "today E < tt_next t'" if "t' \<in> set (templates s')" "tt_id t' = tt_id t" for t'
  proof -
    have "t' \<in> set (filter (\<lambda>t. tt_id t \<notin> tt_id ` set ts) (templates s'))" using that t(3) by simp
    then have "t' \<in> set (templates s1)" unfolding IH(2) by simp
    then show ?thesis using that(2) d by (auto simp: set_next_def split: if_splits)
  qed
  moreover have "filter (\<lambda>u. tt_id u \<notin> tt_id ` set (t # ts)) (templates s') = filter (\<lambda>u. tt_id u \<notin> tt_id ` set (t # ts)) (templates s)"
  proof -
    have "filter (\<lambda>u. tt_id u \<noteq> tt_id t) (templates s1) = filter (\<lambda>u. tt_id u \<noteq> tt_id t) (templates s)"
      unfolding d(2) by (rule set_next_others)
    from arg_cong [OF this, of "filter (\<lambda>u. tt_id u \<notin> tt_id ` set ts)"]
    show ?thesis using arg_cong [OF IH(2), of "filter (\<lambda>u. tt_id u \<noteq> tt_id t)"] by (simp add: conj_commute)
  qed
  ultimately show ?case using IH(1) posted_run_append [OF run IH(3)] by (auto simp: missed_occurrences_def)
qed (simp add: missed_occurrences_def posted_run.nothing)

text \<open>
  C23: The daily run posts what was missed and is idempotent.  Where every due template was at most 120 days behind
  and had no occurrence posted from its next date on, a run that returns without an error has posted exactly the
  missed occurrences of the due templates, template by template and in the order of their dates, each as one
  transaction with the lines of its template; the missed dates of a template are those of its schedule up to today.
  No template is due any more, and running it again the same day changes nothing.
\<close>

theorem scan_catches_up:
  assumes "tdb_wf s" and "list_all (catchable E s) (due_templates E s)" and "date_year (today E) < LAST_YEAR"
    and "scan_and_run E s = (Inr (), s')"
  shows "posted_run (missed_occurrences E (due_templates E s)) s s'
     \<and> (\<forall>t\<in>set (due_templates E s). set (missed E t)
          = {d. \<exists>k. occurrence (\<lambda>d. advance_frequency d (tt_frequency t)) k (tt_next t) = Some d \<and> d \<le> today E})
     \<and> due_templates E s' = [] \<and> scan_and_run E s' = (Inr (), s')"
proof -
  let ?due = "due_templates E s"
  have d: "distinct (map tt_id ?due)" "set ?due \<subseteq> set (templates s)"
    using assms(1) by (auto simp: tdb_wf_def due_templates_def distinct_map_filter)
  have "\<forall>t\<in>set ?due. catchable E s t" using assms(2) by (simp add: list_all_iff)
  from scan_due_advances [OF assms(1) d this assms(3)] assms(4)
  have adv: "\<forall>t'\<in>set (templates s'). tt_id t' \<in> tt_id ` set ?due \<longrightarrow> today E < tt_next t'"
    and rest: "filter (\<lambda>t. tt_id t \<notin> tt_id ` set ?due) (templates s') = filter (\<lambda>t. tt_id t \<notin> tt_id ` set ?due) (templates s)"
    and run: "posted_run (missed_occurrences E ?due) s s'"
    by (simp_all add: scan_and_run_def)
  have dates: "set (missed E t) = {d. \<exists>k. occurrence (\<lambda>d. advance_frequency d (tt_frequency t)) k (tt_next t) = Some d \<and> d \<le> today E}"
    if "t \<in> set ?due" for t
    using that assms(1,2) d(2) by (intro missed_dates [OF _ assms(3)]) (auto simp: tdb_wf_def list_all_iff catchable_def)
  have "\<not> (tt_active t \<and> tt_next t \<le> today E)" if "t \<in> set (templates s')" for t
  proof (cases "tt_id t \<in> tt_id ` set ?due")
    case True
    then show ?thesis using adv that by auto
  next
    case False
    then have "t \<in> set (filter (\<lambda>t. tt_id t \<notin> tt_id ` set ?due) (templates s'))" using that by simp
    then have "t \<in> set (templates s)" unfolding rest by simp
    then show ?thesis using False by (auto simp: due_templates_def)
  qed
  then have "due_templates E s' = []" by (simp add: due_templates_def filter_empty_conv)
  then show ?thesis using run dates by (simp add: scan_and_run_def)
qed

section \<open>Running a template by hand\<close>

lemma run_template_Inr:
  assumes "run_template E l t ls d u s = (Inr txn, s')"
    and "uuid_at E (drawn (core s)) \<notin> tt_id ` set (templates s)"
  shows "templates s' = templates s \<and> template_of s' = template_of s \<and> template_postings s' = template_postings s
     \<and> (\<exists>r. transactions (core s') = transactions (core s) @ [r] \<and> t_id r = txn \<and> t_ledger r = l \<and> t_date r = d)"
proof -
  from assms(1) obtain ledger :: ledger_row and s1 s2 e where
    ins: "on_core (insert_transaction E (occurrence_txn l d (tt_description t) (tt_payee t) (tt_reference t) (l_base_currency ledger) u)) s = Inr (txn, s1)"
    and lines: "insert_lines E txn ls s1 = Inr s2"
    and "s' = (set_next txn e s2)\<lparr>core := audit_log E (Some l) u ''auto_generate'' ''transaction'' (Some txn) None
      (Some (JObj [(''template_id'', JUuid txn), (''template_description'', JStr (tt_description t))])) (core (set_next txn e s2))\<rparr>"
    by (auto simp: run_template_def run_template_body_def Let_def result_simps)
  then have s': "templates s' = templates (set_next txn e s2)" "template_of s' = template_of s2"
      "template_postings s' = template_postings s2" "transactions (core s') = transactions (core s2)"
    by (simp_all add: set_next_def)
  from ins have "s1 = s\<lparr>core := (core s)\<lparr>drawn := Suc (drawn (core s)), transactions := transactions (core s) @
      [(occurrence_txn l d (tt_description t) (tt_payee t) (tt_reference t) (l_base_currency ledger) u)\<lparr>t_id := txn, t_created_at := now E\<rparr>]\<rparr>\<rparr>"
    and txn: "txn = uuid_at E (drawn (core s))"
    by (auto simp: on_core_def result_simps insert_transaction_Inr)
  moreover from insert_template_lines_Inr [OF lines] obtain ps where
    "s2 = s1\<lparr>core := (core s1)\<lparr>drawn := drawn (core s1) + length ls, postings := postings (core s1) @ ps\<rparr>\<rparr>" by blast
  moreover have "templates (set_next txn e s) = templates s"
    using notin_imageD [OF assms(2)] txn by (auto simp: set_next_def intro!: map_idI)
  ultimately show ?thesis by (simp add: s' set_next_def occurrence_txn_def)
qed

text \<open>
  Running a template by hand posts its occurrence but does not move it on: the new date is written to
  the template whose identifier is that of the new transaction, which does not exist.  The template stays
  due on the same date, without the link that would stop the daily run from posting that occurrence again.
  The transaction is posted in the ledger of the request, whichever ledger the template belongs to.
\<close>

theorem manual_run_repeats:
  assumes "run_now E user l i s = (Inr (), s')" and "uuid_at E (drawn (core s)) \<notin> tt_id ` set (templates s)"
  shows "templates s' = templates s \<and> template_of s' = template_of s
     \<and> (\<exists>t r. find (\<lambda>t. tt_id t = i) (templates s) = Some t \<and> transactions (core s') = transactions (core s) @ [r]
          \<and> t_ledger r = l \<and> t_date r = tt_next t)"
proof -
  from assms(1) obtain u t txn where "find (\<lambda>t. tt_id t = i) (templates s) = Some t"
    and "run_template E l t (lines_of s i) (tt_next t) u s = (Inr txn, s')"
    by (auto simp: run_now_def result_simps split: sum.splits prod.splits if_splits)
  with run_template_Inr [OF _ assms(2)] show ?thesis by blast
qed

text \<open>The step of the handler stands still on the last day of a long month.\<close>

lemma handler_step_stands_still: "handler_advance_frequency (Date 2026 1 31) ''monthly'' = Some (Date 2026 1 31)"
  by code_simp

section \<open>Witnesses\<close>

definition sample_template :: txn_template where
  "sample_template = \<lparr>tt_id = 31, tt_ledger = 2, tt_description = ''Rent'', tt_payee = None, tt_reference = None,
     tt_frequency = ''monthly'', tt_next = Date 2026 8 20, tt_active = True\<rparr>"

definition sample_tdb :: tdb where
  "sample_tdb = \<lparr>core = sample_year, templates = [sample_template],
     template_postings = [\<lparr>tp_template = 31, tp_account = 13, tp_direction = ''DEBIT'', tp_amount = 40, tp_memo = None\<rparr>,
                          \<lparr>tp_template = 31, tp_account = 11, tp_direction = ''CREDIT'', tp_amount = 40, tp_memo = None\<rparr>],
     template_of = []\<rparr>"

definition sample_uuids :: env where
  "sample_uuids = sample_env\<lparr>uuid_at := (\<lambda>n. 50 + n)\<rparr>"

definition sample_scanned :: tdb where
  "sample_scanned = snd (scan_and_run sample_uuids sample_tdb)"

lemma sample_scan: "scan_and_run sample_uuids sample_tdb = (Inr (), sample_scanned)"
proof -
  have "fst (scan_and_run sample_uuids sample_tdb) = Inr ()" by code_simp
  then show ?thesis by (metis prod.collapse sample_scanned_def)
qed

theorem scan_catches_up_witness:
  "posted_run [(31, 2, Date 2026 8 20)] sample_tdb sample_scanned \<and> due_templates sample_uuids sample_scanned = []"
proof -
  have "missed_occurrences sample_uuids (due_templates sample_uuids sample_tdb) = [(31, 2, Date 2026 8 20)]" by code_simp
  moreover have "tdb_wf sample_tdb" "date_year (today sample_uuids) < LAST_YEAR" by code_simp+
  moreover have "due_templates sample_uuids sample_tdb = [sample_template]" "today sample_uuids < plus_days (Date 2026 8 20) 2"
    by code_simp+
  then have "list_all (catchable sample_uuids sample_tdb) (due_templates sample_uuids sample_tdb)"
    using plus_days_less [of 2 120 "Date 2026 8 20"]
    by (simp add: catchable_def occurrence_taken_def sample_template_def sample_tdb_def list_ex_iff)
  ultimately show ?thesis using scan_catches_up [OF _ _ _ sample_scan] by simp
qed

definition occurrence_result :: "(job_error failure + bool) \<times> tdb" where
  "occurrence_result = run_occurrence sample_uuids 31 2 ''Rent'' None None (Date 2026 8 20) sample_tdb"

theorem occurrence_atomic_witness: "occurrence_posted 31 2 (Date 2026 8 20) sample_tdb (snd occurrence_result)"
proof -
  have "fst occurrence_result = Inr True" by code_simp
  then have "run_occurrence sample_uuids 31 2 ''Rent'' None None (Date 2026 8 20) sample_tdb = (Inr True, snd occurrence_result)"
    by (metis prod.collapse occurrence_result_def)
  from occurrence_atomic [OF this] show ?thesis by simp
qed

theorem bad_template_blocks_scan_witness:
  "\<exists>m. scan_and_run sample_uuids (sample_tdb\<lparr>template_postings := []\<rparr>)
     = (Inl (Failure (Failed m)), sample_tdb\<lparr>template_postings := []\<rparr>)"
proof (rule bad_template_blocks_scan)
  show "due_templates sample_uuids (sample_tdb\<lparr>template_postings := []\<rparr>) = [sample_template]" by code_simp
  show "length (lines_of (sample_tdb\<lparr>template_postings := []\<rparr>) (tt_id sample_template)) < 2" by code_simp
qed

definition sample_manual :: tdb where
  "sample_manual = snd (run_now sample_uuids (Some 7) 2 31 sample_tdb)"

theorem manual_run_repeats_witness: "templates sample_manual = [sample_template] \<and> template_of sample_manual = []"
proof -
  have "fst (run_now sample_uuids (Some 7) 2 31 sample_tdb) = Inr ()" by code_simp
  then have r: "run_now sample_uuids (Some 7) 2 31 sample_tdb = (Inr (), sample_manual)"
    by (metis prod.collapse sample_manual_def)
  have "uuid_at sample_uuids (drawn (core sample_tdb)) \<notin> tt_id ` set (templates sample_tdb)" by code_simp
  from manual_run_repeats [OF r this] show ?thesis by (simp add: sample_tdb_def)
qed

end
