(* ===== verification/Forecast.thy ===== *)
theory Forecast
  imports Recurring_Templates Reports
begin

text \<open>
  The cash-flow forecast of \<^verbatim>\<open>src/src/reports/cash_flow_forecast.rs\<close>: recurring templates are laid out over
  the days of the horizon and applied to today's cash balance.  \<open>None\<close> stands for a panic of date
  arithmetic.  The loop over the occurrences of a template is the loop \<open>walk\<close> of a \<open>schedule\<close>.
\<close>

section \<open>Occurrences\<close>

record forecast_template =
  ft_id :: uuid
  ft_description :: string
  ft_payee :: "string option"
  ft_frequency :: string
  ft_next :: date
  ft_amount :: decimal
  ft_direction :: string

record forecast_entry =
  fe_date :: date
  fe_description :: string
  fe_payee :: "string option"
  fe_amount :: decimal

record forecast_point =
  fp_date :: date
  fp_balance :: decimal

record forecast_result =
  fr_today_balance :: decimal
  fr_horizon :: nat
  fr_entries :: "forecast_entry list"
  fr_points :: "forecast_point list"
  fr_min :: decimal
  fr_min_date :: date
  fr_max :: decimal
  fr_max_date :: date
  fr_ending :: decimal

definition advance_once :: "string \<Rightarrow> date \<Rightarrow> date option" where
  "advance_once f d =
     (if f = ''weekly'' then add_days d 7
      else if f = ''biweekly'' then add_days d 14
      else if f = ''monthly'' then next_month_n d 1
      else if f = ''quarterly'' then next_month_n d 3
      else if f = ''yearly'' then next_month_n d 12
      else Some d)"

definition advance :: "date \<Rightarrow> string \<Rightarrow> nat \<Rightarrow> date option" where
  "advance d f n = occurrence (advance_once f) n d"

definition is_recognised_frequency :: "string \<Rightarrow> bool" where
  "is_recognised_frequency f \<longleftrightarrow> f \<in> set [''weekly'', ''biweekly'', ''monthly'', ''quarterly'', ''yearly'']"

definition template_entry :: "forecast_template \<Rightarrow> date \<Rightarrow> forecast_entry" where
  "template_entry t d =
     \<lparr>fe_date = d, fe_description = ft_description t, fe_payee = ft_payee t,
      fe_amount = (if ft_direction t = ''DEBIT'' then ft_amount t
                   else if ft_direction t = ''CREDIT'' then - ft_amount t else ft_amount t)\<rparr>"

text \<open>The inner loop, with what is left of its 400 rounds.\<close>

fun materialize_template :: "forecast_template \<Rightarrow> date \<Rightarrow> date \<Rightarrow> nat \<Rightarrow> date \<Rightarrow> forecast_entry list option" where
  "materialize_template t start horizon 0 d = Some []"
| "materialize_template t start horizon (Suc g) d =
     (if d \<le> horizon
      then (case advance d (ft_frequency t) 1 of None \<Rightarrow> None
            | Some d' \<Rightarrow> map_option (\<lambda>es. (if start \<le> d then [template_entry t d] else []) @ es)
                           (materialize_template t start horizon g d'))
      else Some [])"

fun materialize_all :: "forecast_template list \<Rightarrow> date \<Rightarrow> date \<Rightarrow> forecast_entry list option" where
  "materialize_all [] start horizon = Some []"
| "materialize_all (t # ts) start horizon =
     (case (if is_recognised_frequency (ft_frequency t) then materialize_template t start horizon 400 (ft_next t) else Some []) of
        None \<Rightarrow> None
      | Some es \<Rightarrow> map_option ((@) es) (materialize_all ts start horizon))"

definition materialize_forecast :: "forecast_template list \<Rightarrow> date \<Rightarrow> nat \<Rightarrow> forecast_entry list option" where
  "materialize_forecast ts start horizon_days =
     (case add_days start horizon_days of None \<Rightarrow> None
      | Some horizon \<Rightarrow> map_option (sort_key fe_date) (materialize_all ts start horizon))"

section \<open>The balance line\<close>

text \<open>\<^verbatim>\<open>while idx < entries.len() && entries[idx].date == d\<close> on the entries not applied yet.\<close>

fun apply_day :: "date \<Rightarrow> decimal \<Rightarrow> forecast_entry list \<Rightarrow> decimal \<times> forecast_entry list" where
  "apply_day d b [] = (b, [])"
| "apply_day d b (e # es) = (if fe_date e = d then apply_day d (b + fe_amount e) es else (b, e # es))"

fun project_days :: "date \<Rightarrow> decimal \<Rightarrow> forecast_entry list \<Rightarrow> nat list \<Rightarrow> forecast_point list option" where
  "project_days start b es [] = Some []"
| "project_days start b es (k # ks) =
     (case add_days start k of None \<Rightarrow> None
      | Some d \<Rightarrow>
          (let (b', es') = apply_day d b es in
           map_option ((#) \<lparr>fp_date = d, fp_balance = b'\<rparr>) (project_days start b' es' ks)))"

definition project :: "date \<Rightarrow> decimal \<Rightarrow> forecast_entry list \<Rightarrow> nat \<Rightarrow> forecast_point list option" where
  "project start today_balance es horizon_days = project_days start today_balance es [0..<Suc horizon_days]"

section \<open>The report\<close>

definition load_active_templates :: "tdb \<Rightarrow> uuid \<Rightarrow> forecast_template list" where
  "load_active_templates s ledger_id =
     map (\<lambda>r. let ((t, l), a) = r in
            \<lparr>ft_id = tt_id t, ft_description = tt_description t, ft_payee = tt_payee t, ft_frequency = tt_frequency t,
             ft_next = tt_next t, ft_amount = tp_amount l, ft_direction = tp_direction l\<rparr>)
       (filter (\<lambda>r. tt_ledger (fst (fst r)) = ledger_id \<and> tt_active (fst (fst r)) \<and> cash_name (a_name (snd r)))
          (inner_join (\<lambda>tl a. a_id a = tp_account (snd tl))
             (inner_join (\<lambda>t l. tp_template l = tt_id t) (templates s) (template_postings s)) (accounts (core s))))"

definition today_cash_balance :: "db \<Rightarrow> uuid \<Rightarrow> decimal" where
  "today_cash_balance db ledger_id =
     sum_list (map (\<lambda>r. signed (fst (fst r)))
       (filter (\<lambda>r. t_ledger (snd (fst r)) = ledger_id \<and> a_ledger (snd r) = ledger_id \<and> cash_name (a_name (snd r)) \<and> final (snd (fst r)))
          (inner_join (\<lambda>pt a. a_id a = p_account (fst pt))
             (inner_join (\<lambda>p t. t_id t = p_txn p) (postings db) (transactions db)) (accounts db))))"

text \<open>\<^verbatim>\<open>min_by_key\<close> returns the first of equal minima, \<^verbatim>\<open>max_by_key\<close> the last of equal maxima.\<close>

definition min_point :: "forecast_point list \<Rightarrow> forecast_point option" where
  "min_point ps = (case ps of [] \<Rightarrow> None
     | p # qs \<Rightarrow> Some (foldl (\<lambda>m q. if fp_balance q < fp_balance m then q else m) p qs))"

definition max_point :: "forecast_point list \<Rightarrow> forecast_point option" where
  "max_point ps = (case ps of [] \<Rightarrow> None
     | p # qs \<Rightarrow> Some (foldl (\<lambda>m q. if fp_balance m \<le> fp_balance q then q else m) p qs))"

definition build_forecast :: "env \<Rightarrow> tdb \<Rightarrow> uuid \<Rightarrow> nat \<Rightarrow> forecast_result option" where
  "build_forecast E s ledger_id horizon_days =
     (let start = today E; balance = today_cash_balance (core s) ledger_id; here = \<lparr>fp_date = start, fp_balance = balance\<rparr> in
      case materialize_forecast (load_active_templates s ledger_id) start horizon_days of None \<Rightarrow> None
      | Some es \<Rightarrow>
          (case project start balance es horizon_days of None \<Rightarrow> None
           | Some ps \<Rightarrow>
               (let mn = (case min_point ps of Some p \<Rightarrow> p | None \<Rightarrow> here); mx = (case max_point ps of Some p \<Rightarrow> p | None \<Rightarrow> here) in
                Some \<lparr>fr_today_balance = balance, fr_horizon = horizon_days, fr_entries = es, fr_points = ps,
                      fr_min = fp_balance mn, fr_min_date = fp_date mn, fr_max = fp_balance mx, fr_max_date = fp_date mx,
                      fr_ending = (if ps = [] then balance else fp_balance (last ps))\<rparr>)))"

section \<open>Occurrences of a template\<close>

lemma next_month_n_forward:
  assumes "valid_date d" and "0 < n"
  shows "next_month_n d n = Some r \<Longrightarrow> valid_date r \<and> d \<le> r"
    and "date_year d + n < 262142 \<Longrightarrow> \<exists>r. next_month_n d n = Some r \<and> d < r"
proof -
  have c: "on_calendar d" using assms(1) by (simp add: valid_date_iff)
  show "valid_date r \<and> d \<le> r" if "next_month_n d n = Some r"
    using next_month_n_cases [OF assms(1) _ that] month_step_greater [OF c assms(2)] assms by auto
  show "\<exists>r. next_month_n d n = Some r \<and> d < r" if "date_year d + n < 262142"
    using next_month_n_eq [OF assms(1) _ that] month_step_greater [OF c assms(2)] assms(2) by simp
qed

lemma advance_once_forward:
  assumes "valid_date d" and "is_recognised_frequency f"
  shows "advance_once f d = Some r \<Longrightarrow> valid_date r \<and> d \<le> r"
    and "date_year d < LAST_YEAR \<Longrightarrow> \<exists>r. advance_once f d = Some r \<and> d < r"
proof -
  show "valid_date r \<and> d \<le> r" if "advance_once f d = Some r"
    using that next_month_n_forward(1) [OF assms(1), of 1 r] next_month_n_forward(1) [OF assms(1), of 3 r]
      next_month_n_forward(1) [OF assms(1), of 12 r] plus_days_ge assms(2)
    by (auto simp: advance_once_def add_days_Some is_recognised_frequency_def split: if_splits)
  assume y: "date_year d < LAST_YEAR"
  have d: "\<exists>r. add_days d n = Some r \<and> d < r" if "0 < n" "n \<le> 14" for n
    using add_days_in_range [OF assms(1), of n] plus_days_less [of 0 n d] that y by (simp add: LAST_YEAR_def)
  have m: "\<exists>r. next_month_n d n = Some r \<and> d < r" if "0 < n" "n \<le> 12" for n
    by (rule next_month_n_forward(2) [OF assms(1) that(1)]) (use that y in \<open>simp add: LAST_YEAR_def\<close>)
  show "\<exists>r. advance_once f d = Some r \<and> d < r"
    using d [of 7] d [of 14] m [of 1] m [of 3] m [of 12] assms(2)
    by (auto simp: advance_once_def is_recognised_frequency_def)
qed

text \<open>A schedule for every recognised frequency; other frequencies are read as weekly here.\<close>

definition recognised_step :: "string \<Rightarrow> date \<Rightarrow> date option" where
  "recognised_step f = advance_once (if is_recognised_frequency f then f else ''weekly'')"

interpretation forecast_schedule: schedule "recognised_step f" for f
proof
  fix d d'
  let ?f = "if is_recognised_frequency f then f else ''weekly''"
  have rec: "is_recognised_frequency ?f" by (simp add: is_recognised_frequency_def)
  show "valid_date d' \<and> d \<le> d'" if "valid_date d" "recognised_step f d = Some d'"
    using advance_once_forward(1) [OF that(1) rec] that(2) by (simp add: recognised_step_def)
  show "\<exists>d'. recognised_step f d = Some d' \<and> d < d'" if "valid_date d" "date_year d < LAST_YEAR"
    using advance_once_forward(2) [OF that(1) rec that(2)] by (simp add: recognised_step_def)
qed

lemma materialize_walk:
  assumes "is_recognised_frequency (ft_frequency t)"
  shows "materialize_template t start horizon g d
    = map_option (\<lambda>ds. map (template_entry t) (filter (\<lambda>x. start \<le> x) ds)) (walk (recognised_step (ft_frequency t)) g horizon d)"
  by (induction g arbitrary: d)
     (auto simp: advance_def recognised_step_def assms option.map_comp comp_def split: option.split)

lemma walk_dates:
  assumes "valid_date d" and "date_year h < LAST_YEAR" and "walk (recognised_step f) g h d = Some ds"
  shows "\<forall>x\<in>set ds. valid_date x \<and> x \<le> h"
  using forecast_schedule.walk_mem [OF assms(1,3)] forecast_schedule.occurrence_ge [OF assms(1)] by blast

lemma materialize_all_total:
  assumes "list_all (\<lambda>t. valid_date (ft_next t)) ts" and "date_year h < LAST_YEAR"
  shows "\<exists>es. materialize_all ts start h = Some es \<and> (\<forall>e\<in>set es. valid_date (fe_date e) \<and> start \<le> fe_date e \<and> fe_date e \<le> h)"
  using assms(1)
proof (induction ts)
  case (Cons t ts)
  then obtain es where es: "materialize_all ts start h = Some es"
    "\<forall>e\<in>set es. valid_date (fe_date e) \<and> start \<le> fe_date e \<and> fe_date e \<le> h" by auto
  have v: "valid_date (ft_next t)" using Cons.prems by simp
  obtain ds where ds: "walk (recognised_step (ft_frequency t)) 400 h (ft_next t) = Some ds"
    using forecast_schedule.walk_total [OF v assms(2)] by blast
  show ?case
  proof (cases "is_recognised_frequency (ft_frequency t)")
    case True
    have "materialize_all (t # ts) start h = Some (map (template_entry t) (filter (\<lambda>x. start \<le> x) ds) @ es)"
      using es(1) ds True by (simp add: materialize_walk)
    then show ?thesis using es(2) walk_dates [OF v assms(2) ds] by (auto simp: template_entry_def)
  next
    case False
    then show ?thesis using es by simp
  qed
qed simp

section \<open>The line is the running balance\<close>

lemma apply_day_filter:
  assumes "sorted (map fe_date es)" and "\<forall>e\<in>set es. d \<le> fe_date e"
  shows "apply_day d b es = (b + sum_list (map fe_amount (filter (\<lambda>e. fe_date e = d) es)), filter (\<lambda>e. d < fe_date e) es)"
  using assms
proof (induction es arbitrary: b)
  case (Cons e es)
  show ?case
  proof (cases "fe_date e = d")
    case False
    then have "d < fe_date e" using Cons.prems(2) by auto
    then have "\<forall>x\<in>set es. d < fe_date x" using Cons.prems(1) by auto
    then have "filter (\<lambda>e. fe_date e = d) es = []" "filter (\<lambda>e. d < fe_date e) es = es" by (auto simp: filter_empty_conv)
    then show ?thesis using False \<open>d < fe_date e\<close> by simp
  qed (use Cons in auto)
qed simp

lemma sorted_filter_dates: "sorted (map fe_date es) \<Longrightarrow> sorted (map fe_date (filter P es))"
  by (induction es) auto

lemma sum_dates_split:
  assumes "d < d'"
  shows "sum_list (map fe_amount (filter (\<lambda>e. fe_date e \<le> d') es))
    = sum_list (map fe_amount (filter (\<lambda>e. fe_date e \<le> d) es)) + sum_list (map fe_amount (filter (\<lambda>e. d < fe_date e \<and> fe_date e \<le> d') es))"
  using assms by (induction es) auto

definition line_point :: "date \<Rightarrow> decimal \<Rightarrow> forecast_entry list \<Rightarrow> nat \<Rightarrow> forecast_point" where
  "line_point start b es k =
     \<lparr>fp_date = plus_days start k,
      fp_balance = b + sum_list (map fe_amount (filter (\<lambda>e. fe_date e \<le> plus_days start k) es))\<rparr>"

lemma project_days_line:
  assumes "valid_date start" and "date_year start + int n \<le> 262142" and "j \<le> n" and "sorted (map fe_date es)"
    and "\<forall>e\<in>set es. valid_date (fe_date e) \<and> plus_days start j \<le> fe_date e"
  shows "project_days start b es [j..<n] = Some (map (line_point start b es) [j..<n])"
  using assms(3-)
proof (induction "n - j" arbitrary: j b es)
  case 0
  then show ?case by simp
next
  case (Suc m)
  then have j: "j < n" by simp
  let ?d = "plus_days start j" and ?es = "filter (\<lambda>e. plus_days start j < fe_date e) es"
  let ?b = "b + sum_list (map fe_amount (filter (\<lambda>e. fe_date e = ?d) es))"
  have c: "on_calendar start" using assms(1) by (simp add: valid_date_iff)
  have day: "add_days start j = Some ?d" by (rule add_days_in_range [OF assms(1)]) (use assms(2) j in simp)
  have app: "apply_day ?d b es = (?b, ?es)" by (rule apply_day_filter) (use Suc.prems in auto)
  have le: "(fe_date e \<le> ?d) = (fe_date e = ?d)" if "e \<in> set es" for e using Suc.prems(3) that by auto
  have later: "plus_days start (Suc j) \<le> fe_date e" if "e \<in> set ?es" for e
    using that Suc.prems(3) next_day_least [OF plus_days_on_calendar [OF c, of j], of "fe_date e"]
    by (auto simp: valid_date_iff)
  have IH: "project_days start ?b ?es [Suc j..<n] = Some (map (line_point start ?b ?es) [Suc j..<n])"
    using Suc.prems later by (intro Suc.hyps) (use Suc.hyps(2) j sorted_filter_dates in auto)
  have pt: "line_point start ?b ?es k = line_point start b es k" if "j < k" for k
    using sum_dates_split [OF plus_days_less [OF that, of start], of es] le
    by (simp add: line_point_def filter_filter conj_commute cong: filter_cong)
  have "\<lparr>fp_date = ?d, fp_balance = ?b\<rparr> = line_point start b es j" using le by (simp add: line_point_def cong: filter_cong)
  moreover have "map (line_point start ?b ?es) [Suc j..<n] = map (line_point start b es) [Suc j..<n]"
    by (rule map_cong [OF refl]) (use pt in auto)
  ultimately show ?case unfolding upt_conv_Cons [OF j] using day app IH by (simp add: Let_def)
qed

text \<open>The first of the lowest points, the last of the highest ones.\<close>

lemma min_point_first:
  "ps \<noteq> [] \<Longrightarrow> \<exists>i<length ps. min_point ps = Some (ps ! i) \<and> (\<forall>j<length ps. fp_balance (ps ! i) \<le> fp_balance (ps ! j))
     \<and> (\<forall>j<i. fp_balance (ps ! i) < fp_balance (ps ! j))"
proof (induction ps rule: rev_nonempty_induct)
  case (single p)
  then show ?case by (simp add: min_point_def)
next
  case (snoc q ps)
  then obtain i where i: "i < length ps" "min_point ps = Some (ps ! i)" "\<forall>j<length ps. fp_balance (ps ! i) \<le> fp_balance (ps ! j)"
    "\<forall>j<i. fp_balance (ps ! i) < fp_balance (ps ! j)" by blast
  have m: "min_point (ps @ [q]) = Some (if fp_balance q < fp_balance (ps ! i) then q else ps ! i)"
    using i(2) snoc(1) by (cases ps) (simp_all add: min_point_def)
  show ?case
  proof (cases "fp_balance q < fp_balance (ps ! i)")
    case True
    then show ?thesis using m i(3)
      by (intro exI [of _ "length ps"]) (auto simp: nth_append less_Suc_eq intro: less_le_trans less_imp_le)
  next
    case False
    then show ?thesis using m i by (intro exI [of _ i]) (auto simp: nth_append less_Suc_eq)
  qed
qed

lemma max_point_last:
  "ps \<noteq> [] \<Longrightarrow> \<exists>i<length ps. max_point ps = Some (ps ! i) \<and> (\<forall>j<length ps. fp_balance (ps ! j) \<le> fp_balance (ps ! i))
     \<and> (\<forall>j<length ps. i < j \<longrightarrow> fp_balance (ps ! j) < fp_balance (ps ! i))"
proof (induction ps rule: rev_nonempty_induct)
  case (single p)
  then show ?case by (simp add: max_point_def)
next
  case (snoc q ps)
  then obtain i where i: "i < length ps" "max_point ps = Some (ps ! i)" "\<forall>j<length ps. fp_balance (ps ! j) \<le> fp_balance (ps ! i)"
    "\<forall>j<length ps. i < j \<longrightarrow> fp_balance (ps ! j) < fp_balance (ps ! i)" by blast
  have m: "max_point (ps @ [q]) = Some (if fp_balance (ps ! i) \<le> fp_balance q then q else ps ! i)"
    using i(2) snoc(1) by (cases ps) (simp_all add: max_point_def)
  show ?case
  proof (cases "fp_balance (ps ! i) \<le> fp_balance q")
    case True
    then show ?thesis using m i(3) by (intro exI [of _ "length ps"]) (auto simp: nth_append less_Suc_eq intro: order_trans)
  next
    case False
    then show ?thesis using m i by (intro exI [of _ i]) (auto simp: nth_append less_Suc_eq)
  qed
qed

text \<open>Day \<open>i\<close> of a line is its first lowest, its last highest.\<close>

definition lowest_first :: "forecast_point list \<Rightarrow> nat \<Rightarrow> bool" where
  "lowest_first ps i \<longleftrightarrow> i < length ps \<and> (\<forall>j<length ps. fp_balance (ps ! i) \<le> fp_balance (ps ! j))
     \<and> (\<forall>j<i. fp_balance (ps ! i) < fp_balance (ps ! j))"

definition highest_last :: "forecast_point list \<Rightarrow> nat \<Rightarrow> bool" where
  "highest_last ps i \<longleftrightarrow> i < length ps \<and> (\<forall>j<length ps. fp_balance (ps ! j) \<le> fp_balance (ps ! i))
     \<and> (\<forall>j<length ps. i < j \<longrightarrow> fp_balance (ps ! j) < fp_balance (ps ! i))"

lemma min_max_points:
  assumes "ps \<noteq> []"
  obtains i k where "min_point ps = Some (ps ! i)" and "lowest_first ps i" and "max_point ps = Some (ps ! k)" and "highest_last ps k"
  using min_point_first [OF assms] max_point_last [OF assms] unfolding lowest_first_def highest_last_def by blast


definition occurrences_until :: "forecast_template \<Rightarrow> date \<Rightarrow> forecast_entry set" where
  "occurrences_until t h = {template_entry t d | k d. advance (ft_next t) (ft_frequency t) k = Some d \<and> d \<le> h}"

lemma materialize_template_occurrences:
  assumes "valid_date (ft_next t)" and "on_calendar start" and "start \<le> ft_next t" and "is_recognised_frequency (ft_frequency t)"
    and "h \<le> 365" and "date_year (plus_days start h) < LAST_YEAR"
  shows "\<exists>es. materialize_template t start (plus_days start h) 400 (ft_next t) = Some es
     \<and> set es = occurrences_until t (plus_days start h)"
proof -
  let ?st = "recognised_step (ft_frequency t)" and ?h = "plus_days start h"
  obtain ds where ds: "walk ?st 400 ?h (ft_next t) = Some ds" using forecast_schedule.walk_total [OF assms(1,6)] by blast
  have cn: "on_calendar (ft_next t)" using assms(1) by (simp add: valid_date_iff)
  have "?h < plus_days start 400" by (rule plus_days_less) (use assms(5) in simp)
  also have "\<dots> \<le> plus_days (ft_next t) 400" by (rule plus_days_mono [OF assms(2) cn assms(3)])
  finally have far: "?h < plus_days (ft_next t) 400" .
  have "set ds = {d. \<exists>k. occurrence ?st k (ft_next t) = Some d \<and> d \<le> ?h}"
    using forecast_schedule.walk_mem [OF assms(1) ds] forecast_schedule.walk_complete [OF assms(1,6) far ds] by blast
  moreover have "filter (\<lambda>x. start \<le> x) ds = ds"
    using forecast_schedule.walk_mem [OF assms(1) ds] assms(3) by (fastforce simp: filter_id_conv)
  moreover have "advance d (ft_frequency t) k = occurrence ?st k d" for k d
    using assms(4) by (simp add: advance_def recognised_step_def)
  ultimately show ?thesis using ds assms(4) by (auto simp: materialize_walk occurrences_until_def)
qed

text \<open>
  The forecast misses no occurrence and adds none.  Over a horizon of at most 365 days, for templates
  that are not overdue, it returns entries sorted by date that are exactly the occurrences up to the
  horizon of every template of a recognised frequency: the limit of 400 rounds is never reached.
\<close>

theorem forecast_occurrences:
  assumes "valid_date start" and "h \<le> 365" and "date_year start + int h < LAST_YEAR"
    and "list_all (\<lambda>t. valid_date (ft_next t) \<and> start \<le> ft_next t) ts"
  shows "\<exists>es. materialize_forecast ts start h = Some es \<and> sorted (map fe_date es)
     \<and> set es = (\<Union>t\<in>set (filter (is_recognised_frequency \<circ> ft_frequency) ts). occurrences_until t (plus_days start h))"
proof -
  let ?h = "plus_days start h"
  have c: "on_calendar start" using assms(1) by (simp add: valid_date_iff)
  have y: "date_year ?h < LAST_YEAR" using plus_days_year_bound [of start h] assms(3) by simp
  have day: "add_days start h = Some ?h" by (rule add_days_in_range [OF assms(1)]) (use assms(3) in \<open>simp add: LAST_YEAR_def\<close>)
  have "\<exists>es. materialize_all ts start ?h = Some es
      \<and> set es = (\<Union>t\<in>set (filter (is_recognised_frequency \<circ> ft_frequency) ts). occurrences_until t ?h)"
    using assms(4)
  proof (induction ts)
    case (Cons t ts)
    then obtain es where es: "materialize_all ts start ?h = Some es"
      "set es = (\<Union>t\<in>set (filter (is_recognised_frequency \<circ> ft_frequency) ts). occurrences_until t ?h)" by auto
    show ?case
    proof (cases "is_recognised_frequency (ft_frequency t)")
      case True
      with Cons.prems obtain es1 where "materialize_template t start ?h 400 (ft_next t) = Some es1" "set es1 = occurrences_until t ?h"
        using materialize_template_occurrences [OF _ c _ True assms(2) y] by auto
      then show ?thesis using True es by auto
    next
      case False
      then show ?thesis using es by auto
    qed
  qed simp
  then show ?thesis by (auto simp: materialize_forecast_def day)
qed

section \<open>Witnesses\<close>

lemma sample_templates_valid: "valid_date (today sample_uuids)" "list_all (\<lambda>t. valid_date (tt_next t)) (templates sample_tdb)"
  by code_simp+


definition sample_forecast_template :: forecast_template where
  "sample_forecast_template = \<lparr>ft_id = 31, ft_description = ''Rent'', ft_payee = None, ft_frequency = ''monthly'',
     ft_next = Date 2026 8 31, ft_amount = 40, ft_direction = ''CREDIT''\<rparr>"

theorem forecast_occurrences_witness:
  "\<exists>es. materialize_forecast [sample_forecast_template] (Date 2026 8 21) 60 = Some es \<and> sorted (map fe_date es)
     \<and> template_entry sample_forecast_template (Date 2026 9 30) \<in> set es"
proof -
  have "valid_date (Date 2026 8 21)" "date_year (Date 2026 8 21) + int 60 < LAST_YEAR"
    "list_all (\<lambda>t. valid_date (ft_next t) \<and> Date 2026 8 21 \<le> ft_next t) [sample_forecast_template]" by code_simp+
  from forecast_occurrences [OF this(1) _ this(2,3)] obtain es where
    es: "materialize_forecast [sample_forecast_template] (Date 2026 8 21) 60 = Some es" "sorted (map fe_date es)"
    "set es = (\<Union>t\<in>set (filter (is_recognised_frequency \<circ> ft_frequency) [sample_forecast_template]).
        occurrences_until t (plus_days (Date 2026 8 21) 60))" by auto
  have "advance (ft_next sample_forecast_template) (ft_frequency sample_forecast_template) 1 = Some (Date 2026 9 30)"
    "is_recognised_frequency (ft_frequency sample_forecast_template)" "Date 2026 9 30 \<le> plus_days (Date 2026 8 21) 60"
    by code_simp+
  then have "template_entry sample_forecast_template (Date 2026 9 30) \<in> set es"
    by (auto simp: es(3) occurrences_until_def intro!: exI [of _ "1 :: nat"] exI [of _ "Date 2026 9 30"] simp del: plus_days_simps)
  with es(1,2) show ?thesis by blast
qed

text \<open>An occurrence clamped to the end of a short month does not return to the end of the next one.\<close>

lemma month_end_drifts: "advance (Date 2026 1 31) ''monthly'' 2 = Some (Date 2026 3 28)"
  by code_simp

end
