(* ===== verification/Fixed_Assets.thy ===== *)
theory Fixed_Assets
  imports Recurring_Templates
begin

text \<open>
  Fixed assets: the depreciation formulas of \<^verbatim>\<open>src/src/domain/depreciation.rs\<close> and the handlers of
  \<^verbatim>\<open>src/src/handlers/fixed_assets.rs\<close> that register, depreciate and dispose of an asset.  The table
  \<^verbatim>\<open>fixed_assets\<close> stands beside the books in \<open>adb\<close>; a disposal posts through the posting service.  Division
  and rounding are those of the environment; dividing by zero panics.
\<close>

section \<open>Formulas\<close>

definition straight_line_monthly :: "env \<Rightarrow> decimal \<Rightarrow> decimal \<Rightarrow> int \<Rightarrow> decimal option" where
  "straight_line_monthly E cost salvage life_years =
     (if life_years \<le> 0 then Some 0
      else (let months = i32_wrap (life_years * 12) in
            if months = 0 then None else Some (dec_div E (cost - salvage) (of_int months))))"

definition declining_balance_monthly :: "env \<Rightarrow> decimal \<Rightarrow> int \<Rightarrow> decimal" where
  "declining_balance_monthly E nbv life_years =
     (if life_years \<le> 0 \<or> nbv \<le> 0 then 0
      else round_dp E 2 (dec_div E (dec_div E (nbv * 2) (of_int life_years)) 12))"

definition net_book_value :: "decimal \<Rightarrow> decimal \<Rightarrow> decimal" where
  "net_book_value cost accumulated = cost - accumulated"

definition cap_at_depreciable :: "decimal \<Rightarrow> decimal \<Rightarrow> decimal \<Rightarrow> decimal \<Rightarrow> decimal" where
  "cap_at_depreciable proposed accumulated cost salvage =
     (let remaining = max (cost - salvage - accumulated) 0 in max (min proposed remaining) 0)"

definition annual_depreciation :: "env \<Rightarrow> decimal \<Rightarrow> decimal \<Rightarrow> int \<Rightarrow> decimal" where
  "annual_depreciation E cost salvage life = (if life \<le> 0 then 0 else dec_div E (cost - salvage) (of_int life))"

section \<open>The register\<close>

record asset_row =
  as_id :: uuid
  as_ledger :: uuid
  as_name :: string
  as_description :: "string option"
  as_account :: uuid
  as_purchase_date :: date
  as_cost :: decimal
  as_salvage :: decimal
  as_life :: int
  as_method :: string
  as_accumulated :: decimal
  as_status :: string
  as_disposed_date :: "date option"
  as_disposed_amount :: "decimal option"

record adb =
  acore :: db
  assets :: "asset_row list"

record new_asset_form =
  naf_name :: string
  naf_description :: "string option"
  naf_account_id :: string
  naf_purchase_date :: string
  naf_purchase_cost :: string
  naf_salvage_value :: "string option"
  naf_useful_life_years :: string
  naf_depreciation_method :: string

definition DEPRECIATION_METHODS :: "string list" where
  "DEPRECIATION_METHODS = [''straight_line'', ''declining_balance'']"

definition insert_asset :: "env \<Rightarrow> asset_row \<Rightarrow> (adb, db_error, uuid) tx" where
  "insert_asset E r s =
     (case (numeric_col 20 4 (as_cost r), numeric_col 20 4 (as_salvage r)) of
        (Some cost, Some salvage) \<Rightarrow>
          (let (i, db1) = draw E (acore s) in
           if list_ex (\<lambda>a. as_id a = i) (assets s) then Inl (UniqueViolation ''fixed_assets_pkey'')
           else if ledger_of (acore s) (as_ledger r) = None then Inl (ForeignKeyViolation ''fixed_assets_ledger_id_fkey'')
           else if \<not> list_ex (\<lambda>a. a_id a = as_account r) (accounts (acore s))
             then Inl (ForeignKeyViolation ''fixed_assets_account_id_fkey'')
           else if as_method r \<notin> set DEPRECIATION_METHODS then Inl (CheckViolation ''fixed_assets_depreciation_method_check'')
           else Inr (i, s\<lparr>acore := db1, assets := assets s @ [r\<lparr>as_id := i, as_cost := cost, as_salvage := salvage\<rparr>]\<rparr>))
      | _ \<Rightarrow> Inl NumericOverflow)"

definition set_asset :: "uuid \<Rightarrow> (asset_row \<Rightarrow> asset_row) \<Rightarrow> adb \<Rightarrow> adb" where
  "set_asset i f s = s\<lparr>assets := map (\<lambda>a. if as_id a = i then f a else a) (assets s)\<rparr>"

definition asset_request :: "env \<Rightarrow> db \<Rightarrow> uuid option \<Rightarrow> uuid \<Rightarrow> new_asset_form \<Rightarrow> app_error + uuid \<times> decimal \<times> asset_row" where
  "asset_request E db user ledger_id form =
     rbind (signed_in user) (\<lambda>user_id.
     rbind (ensure_writer db user_id ledger_id) (\<lambda>_.
     let name = trim (naf_name form) in
     if name = [] then Inl (Validation ''Name is required'') else
     rbind (ok_or (Validation ''Invalid account'') (parse_uuid E (naf_account_id form))) (\<lambda>account_id.
     rbind (ok_or (Validation ''Invalid cost'') (parse_dec E (naf_purchase_cost form))) (\<lambda>cost.
     rbind (ok_or (Validation ''Invalid salvage'')
              (parse_dec E (case naf_salvage_value form of Some v \<Rightarrow> v | None \<Rightarrow> ''0''))) (\<lambda>salvage.
     rbind (ok_or (Validation ''Invalid life'') (parse_i32 (naf_useful_life_years form))) (\<lambda>life.
     if life \<le> 0 then Inl (Validation ''Life must be > 0'')
     else if naf_depreciation_method form \<notin> set DEPRECIATION_METHODS then Inl (Validation ''Invalid method'')
     else
     rbind (ok_or (Validation ''Invalid date'') (parse_date E (naf_purchase_date form))) (\<lambda>d.
     Inr (user_id, cost,
          \<lparr>as_id = 0, as_ledger = ledger_id, as_name = name, as_description = nonempty (naf_description form),
           as_account = account_id, as_purchase_date = d, as_cost = cost, as_salvage = salvage, as_life = life,
           as_method = naf_depreciation_method form, as_accumulated = 0, as_status = ''active'',
           as_disposed_date = None, as_disposed_amount = None\<rparr>))))))))"

definition create_asset :: "env \<Rightarrow> uuid option \<Rightarrow> uuid \<Rightarrow> new_asset_form \<Rightarrow> adb \<Rightarrow> (app_error + unit) \<times> adb" where
  "create_asset E user ledger_id form s =
     (case asset_request E (acore s) user ledger_id form of
        Inl e \<Rightarrow> (Inl e, s)
      | Inr (user_id, cost, r) \<Rightarrow>
          (case run_tx (insert_asset E r) s of
             (Inl e, s1) \<Rightarrow> (Inl (AppDb e), s1)
           | (Inr i, s1) \<Rightarrow>
               (Inr (), s1\<lparr>acore := audit_log E (Some ledger_id) user_id ''create'' ''fixed_asset'' (Some i) None
                  (Some (JObj [(''name'', JStr (as_name r)), (''cost'', JDec cost)])) (acore s1)\<rparr>)))"

section \<open>Depreciating\<close>

text \<open>One month's charge on a row: what is added, and the row the \<^verbatim>\<open>UPDATE\<close> stores.\<close>

definition monthly_charge :: "env \<Rightarrow> asset_row \<Rightarrow> app_error failure + decimal" where
  "monthly_charge E a =
     (if as_status a = ''disposed'' \<or> as_status a = ''fully_depreciated''
      then Inl (Failure (Validation ''Asset cannot be depreciated''))
      else
        rbind (if as_method a = ''declining_balance''
               then Inr (declining_balance_monthly E (as_cost a - as_accumulated a) (as_life a))
               else ok_or Panicked (straight_line_monthly E (as_cost a) (as_salvage a) (as_life a))) (\<lambda>proposed.
        Inr (cap_at_depreciable proposed (as_accumulated a) (as_cost a) (as_salvage a))))"

definition depreciate_row :: "env \<Rightarrow> asset_row \<Rightarrow> app_error failure + asset_row" where
  "depreciate_row E a =
     rbind (monthly_charge E a) (\<lambda>to_add.
     let new_total = as_accumulated a + to_add;
         new_status = (if as_cost a - as_salvage a \<le> new_total then ''fully_depreciated'' else ''active'')
     in case numeric_col 20 4 new_total of
          None \<Rightarrow> Inl (Failure (AppDb NumericOverflow))
        | Some v \<Rightarrow> Inr (a\<lparr>as_accumulated := v, as_status := new_status\<rparr>))"

definition calculate_depreciation :: "env \<Rightarrow> uuid option \<Rightarrow> uuid \<Rightarrow> uuid \<Rightarrow> adb \<Rightarrow> (app_error failure + unit) \<times> adb" where
  "calculate_depreciation E user ledger_id asset_id s =
     (case
        rbind (map_err Failure (signed_in user)) (\<lambda>user_id.
        rbind (map_err Failure (ensure_writer (acore s) user_id ledger_id)) (\<lambda>_.
        rbind (ok_or (Failure NotFound) (find (\<lambda>a. as_id a = asset_id) (assets s))) (\<lambda>a.
        rbind (monthly_charge E a) (\<lambda>to_add.
        rbind (depreciate_row E a) (\<lambda>a'. Inr (user_id, to_add, a, a')))))) of
        Inl e \<Rightarrow> (Inl e, s)
      | Inr (user_id, to_add, a, a') \<Rightarrow>
          (let s1 = set_asset asset_id (\<lambda>x. x\<lparr>as_accumulated := as_accumulated a', as_status := as_status a'\<rparr>) s in
           (Inr (), s1\<lparr>acore := audit_log E (Some ledger_id) user_id ''calculate_depreciation'' ''fixed_asset'' (Some asset_id) None
              (Some (JObj [(''amount'', JDec to_add), (''new_total'', JDec (as_accumulated a + to_add)), (''method'', JStr (as_method a))]))
              (acore s1)\<rparr>)))"

section \<open>Disposing\<close>

text \<open>The account a query with \<^verbatim>\<open>ORDER BY code NULLS LAST LIMIT 1\<close> or \<^verbatim>\<open>ORDER BY name LIMIT 1\<close> returns.\<close>

definition first_by_code :: "(string \<Rightarrow> nat) \<Rightarrow> (account_row \<Rightarrow> bool) \<Rightarrow> db \<Rightarrow> uuid option" where
  "first_by_code rank P db =
     (case sort_key (\<lambda>a. case a_code a of Some c \<Rightarrow> (0 :: nat, rank c) | None \<Rightarrow> (1, 0)) (filter P (accounts db)) of
        [] \<Rightarrow> None | a # _ \<Rightarrow> Some (a_id a))"

definition first_by_name :: "(string \<Rightarrow> nat) \<Rightarrow> (account_row \<Rightarrow> bool) \<Rightarrow> db \<Rightarrow> uuid option" where
  "first_by_name rank P db =
     (case sort_key (\<lambda>a. rank (a_name a)) (filter P (accounts db)) of [] \<Rightarrow> None | a # _ \<Rightarrow> Some (a_id a))"

definition proceeds_account :: "(string \<Rightarrow> nat) \<Rightarrow> db \<Rightarrow> uuid \<Rightarrow> uuid option" where
  "proceeds_account rank db ledger_id =
     (case first_by_code rank (\<lambda>a. a_ledger a = ledger_id \<and> a_type a = ''ASSET''
             \<and> (contains_str ''cash'' (to_lowercase (a_name a)) \<or> contains_str ''bank'' (to_lowercase (a_name a)))) db of
        Some i \<Rightarrow> Some i
      | None \<Rightarrow> first_by_code rank (\<lambda>a. a_ledger a = ledger_id \<and> a_type a = ''ASSET'') db)"

definition disposal_line :: "uuid \<Rightarrow> decimal \<Rightarrow> string \<Rightarrow> txn_line" where
  "disposal_line account amount memo =
     \<lparr>n_account_id = account, n_signed_amount = amount, n_memo = Some memo, n_tax_rate_id = None, n_foreign = None,
      n_cost_center_id = None, n_project_id = None\<rparr>"

definition disposal_transaction :: "uuid \<Rightarrow> date \<Rightarrow> uuid \<Rightarrow> txn_line list \<Rightarrow> new_transaction" where
  "disposal_transaction ledger_id d user_id lines =
     \<lparr>nt_ledger_id = ledger_id, nt_txn_date = d, nt_description = ''Disposal of fixed asset'', nt_payee = None,
      nt_reference = None, nt_kind = None, nt_created_by = user_id, nt_lines = lines, nt_reverses_id = None,
      nt_number = None, nt_tax_links = []\<rparr>"

definition disposal_lines :: "(string \<Rightarrow> nat) \<Rightarrow> db \<Rightarrow> uuid \<Rightarrow> uuid \<Rightarrow> decimal \<Rightarrow> decimal \<Rightarrow> app_error + txn_line list" where
  "disposal_lines rank db ledger_id asset_account amount nbv =
     (let gain_loss = amount - nbv in
      rbind (ok_or (Validation ''disposal needs a cash account for the proceeds'') (proceeds_account rank db ledger_id)) (\<lambda>cash.
      rbind (ok_or (Validation (''disposal needs an income/expense account for the '' @ (if 0 < gain_loss then ''gain'' else ''loss'')))
               (first_by_name rank (\<lambda>a. a_ledger a = ledger_id \<and> a_type a = (if 0 < gain_loss then ''INCOME'' else ''EXPENSE'')) db)) (\<lambda>gl.
      Inr [disposal_line cash amount ''Disposal proceeds'',
           disposal_line asset_account (- nbv) ''Disposal: relieve asset NBV'',
           disposal_line gl (- gain_loss) (if 0 < gain_loss then ''Disposal gain'' else ''Disposal loss'')])))"

definition post_disposal ::
  "env \<Rightarrow> (posting_service_error \<Rightarrow> string) \<Rightarrow> (string \<Rightarrow> nat) \<Rightarrow> uuid \<Rightarrow> uuid \<Rightarrow> uuid \<Rightarrow> date \<Rightarrow> decimal \<Rightarrow> decimal \<Rightarrow> db
   \<Rightarrow> (app_error + unit) \<times> db" where
  "post_disposal E show_err rank user_id ledger_id asset_account d amount nbv db =
     (if amount - nbv = 0 then (Inr (), db)
      else (case disposal_lines rank db ledger_id asset_account amount nbv of
              Inl e \<Rightarrow> (Inl e, db)
            | Inr lines \<Rightarrow>
                (case create E (disposal_transaction ledger_id d user_id lines) db of
                   (Inl e, db1) \<Rightarrow> (Inl (Validation (''disposal posting failed: '' @ show_err e)), db1)
                 | (Inr _, db1) \<Rightarrow> (Inr (), db1))))"

text \<open>The form is a map of names to values.\<close>

definition dispose_request :: "env \<Rightarrow> adb \<Rightarrow> uuid option \<Rightarrow> uuid \<Rightarrow> uuid \<Rightarrow> (string \<rightharpoonup> string) \<Rightarrow> app_error + uuid \<times> date \<times> decimal \<times> asset_row" where
  "dispose_request E s user ledger_id asset_id form =
     rbind (signed_in user) (\<lambda>user_id.
     rbind (ensure_writer (acore s) user_id ledger_id) (\<lambda>_.
     rbind (ok_or (Validation ''Invalid date'') (parse_date E (case form ''disposed_date'' of Some v \<Rightarrow> v | None \<Rightarrow> []))) (\<lambda>d.
     rbind (ok_or (Validation ''Missing amount'') (form ''disposed_amount'')) (\<lambda>raw.
     rbind (ok_or (Validation ''Invalid amount'') (parse_dec E raw)) (\<lambda>amount.
     rbind (ok_or NotFound (find (\<lambda>a. as_id a = asset_id \<and> as_ledger a = ledger_id) (assets s))) (\<lambda>a.
     Inr (user_id, d, amount, a)))))))"

definition dispose ::
  "env \<Rightarrow> (posting_service_error \<Rightarrow> string) \<Rightarrow> (string \<Rightarrow> nat) \<Rightarrow> uuid option \<Rightarrow> uuid \<Rightarrow> uuid \<Rightarrow> (string \<rightharpoonup> string) \<Rightarrow> adb
   \<Rightarrow> (app_error + unit) \<times> adb" where
  "dispose E show_err rank user ledger_id asset_id form s =
     (case dispose_request E s user ledger_id asset_id form of
        Inl e \<Rightarrow> (Inl e, s)
      | Inr (user_id, d, amount, a) \<Rightarrow>
          (case post_disposal E show_err rank user_id ledger_id (as_account a) d amount
                  (net_book_value (as_cost a) (as_accumulated a)) (acore s) of
             (Inl e, db1) \<Rightarrow> (Inl e, s\<lparr>acore := db1\<rparr>)
           | (Inr _, db1) \<Rightarrow>
               (case numeric_col 20 4 amount of
                  None \<Rightarrow> (Inl (AppDb NumericOverflow), s\<lparr>acore := db1\<rparr>)
                | Some v \<Rightarrow>
                    (let s1 = set_asset asset_id (\<lambda>x. x\<lparr>as_status := ''disposed'', as_disposed_date := Some d,
                                                         as_disposed_amount := Some v\<rparr>) (s\<lparr>acore := db1\<rparr>)
                     in (Inr (), s1\<lparr>acore := audit_log E (Some ledger_id) user_id ''dispose'' ''fixed_asset'' (Some asset_id) None
                            (Some (JObj [(''amount'', JDec amount)])) (acore s1)\<rparr>)))))"

section \<open>Accumulated depreciation stays within the depreciable base\<close>

definition asset_wf :: "asset_row \<Rightarrow> bool" where
  "asset_wf a \<longleftrightarrow>
     on_grid 4 (as_cost a) \<and> on_grid 4 (as_salvage a) \<and> on_grid 4 (as_accumulated a)
   \<and> 0 \<le> as_accumulated a \<and> as_accumulated a \<le> max 0 (as_cost a - as_salvage a)"

definition assets_ok :: "adb \<Rightarrow> bool" where
  "assets_ok s \<longleftrightarrow> distinct (map as_id (assets s)) \<and> list_all asset_wf (assets s)"

lemma cap_bounds:
  assumes "0 \<le> acc" and "acc \<le> max 0 (cost - salvage)"
  shows "0 \<le> cap_at_depreciable p acc cost salvage"
    and "acc + cap_at_depreciable p acc cost salvage \<le> max 0 (cost - salvage)"
  using assms by (auto simp: cap_at_depreciable_def Let_def max_def min_def)

lemma on_grid_base: "asset_wf a \<Longrightarrow> on_grid 4 (max 0 (as_cost a - as_salvage a))"
  using on_grid_add [of 4 "as_cost a" "- as_salvage a"] by (simp add: asset_wf_def max_def)

lemma depreciate_row_Inr:
  assumes "depreciate_row E a = Inr a'"
  obtains c where "monthly_charge E a = Inr c" and "numeric_col 20 4 (as_accumulated a + c) = Some (as_accumulated a')"
    and "as_status a' = (if as_cost a - as_salvage a \<le> as_accumulated a + c then ''fully_depreciated'' else ''active'')"
    and "a' = a\<lparr>as_accumulated := as_accumulated a', as_status := as_status a'\<rparr>"
  using assms by (auto simp: depreciate_row_def Let_def result_simps split: option.splits)

lemma monthly_charge_cap:
  assumes "monthly_charge E a = Inr c"
  obtains p where "c = cap_at_depreciable p (as_accumulated a) (as_cost a) (as_salvage a)"
  using assms by (auto simp: monthly_charge_def result_simps split: if_splits)

lemma depreciate_row_wf:
  assumes "asset_wf a" and "depreciate_row E a = Inr a'"
  shows "asset_wf a' \<and> as_accumulated a \<le> as_accumulated a'"
proof -
  from assms(2) obtain c where c: "monthly_charge E a = Inr c" "numeric_col 20 4 (as_accumulated a + c) = Some (as_accumulated a')"
    and a': "a' = a\<lparr>as_accumulated := as_accumulated a', as_status := as_status a'\<rparr>" by (rule depreciate_row_Inr)
  obtain p where p: "c = cap_at_depreciable p (as_accumulated a) (as_cost a) (as_salvage a)" using c(1) by (rule monthly_charge_cap)
  have b: "0 \<le> c" "as_accumulated a + c \<le> max 0 (as_cost a - as_salvage a)"
    unfolding p using cap_bounds assms(1) by (auto simp: asset_wf_def)
  have v: "as_accumulated a' = round_half_away 4 (as_accumulated a + c)" using numeric_col_Some [OF c(2)] by simp
  have "round_half_away 4 (as_accumulated a) \<le> as_accumulated a'" unfolding v by (rule away.rnd_mono) (use b in simp)
  then have "as_accumulated a \<le> as_accumulated a'" using assms(1) by (simp add: asset_wf_def away.rnd_exact)
  moreover have "as_accumulated a' \<le> max 0 (as_cost a - as_salvage a)"
    using away.rnd_mono [OF b(2), of 4] away.rnd_exact [OF on_grid_base [OF assms(1)]] by (simp add: v)
  moreover have "on_grid 4 (as_accumulated a')" unfolding v by (rule away.rnd_grid)
  moreover have "as_cost a' = as_cost a" "as_salvage a' = as_salvage a" by (subst a', simp)+
  ultimately show ?thesis using assms(1) by (simp add: asset_wf_def)
qed

lemma assets_ok_set:
  assumes "assets_ok s" and "\<And>a. a \<in> set (assets s) \<Longrightarrow> as_id a = i \<Longrightarrow> asset_wf (f a) \<and> as_id (f a) = i"
  shows "assets_ok (set_asset i f s)"
proof -
  have "map as_id (assets (set_asset i f s)) = map as_id (assets s)" using assms(2) by (auto simp: set_asset_def)
  moreover have "list_all asset_wf (assets (set_asset i f s))" using assms by (auto simp: set_asset_def assets_ok_def list_all_iff)
  ultimately show ?thesis using assms(1) unfolding assets_ok_def by (simp del: list.map)
qed

lemma assets_ok_core [simp]: "assets_ok (s\<lparr>acore := db\<rparr>) \<longleftrightarrow> assets_ok s"
  by (simp add: assets_ok_def)

lemma assets_ok_depreciate:
  assumes "assets_ok s"
  shows "assets_ok (snd (calculate_depreciation E user l i s))"
proof (cases "fst (calculate_depreciation E user l i s)")
  case (Inl e)
  then show ?thesis using assms by (auto simp: calculate_depreciation_def Let_def split: sum.splits prod.splits)
next
  case (Inr u)
  then obtain a a' where a: "find (\<lambda>a. as_id a = i) (assets s) = Some a" "depreciate_row E a = Inr a'"
    and s': "assets (snd (calculate_depreciation E user l i s))
      = assets (set_asset i (\<lambda>x. x\<lparr>as_accumulated := as_accumulated a', as_status := as_status a'\<rparr>) s)"
    by (auto simp: calculate_depreciation_def Let_def result_simps split: sum.splits prod.splits)
  have m: "a \<in> set (assets s)" "as_id a = i" using find_Some_mem [OF a(1)] by auto
  have wf: "asset_wf a'" using depreciate_row_wf [OF _ a(2)] assms m(1) by (auto simp: assets_ok_def list_all_iff)
  have eq: "a\<lparr>as_accumulated := as_accumulated a', as_status := as_status a'\<rparr> = a'"
    using a(2) by (rule depreciate_row_Inr) simp
  have "assets_ok (set_asset i (\<lambda>x. x\<lparr>as_accumulated := as_accumulated a', as_status := as_status a'\<rparr>) s)"
  proof (rule assets_ok_set [OF assms])
    fix x assume "x \<in> set (assets s)" "as_id x = i"
    then have "x = a" using assms m by (auto simp: assets_ok_def distinct_map inj_on_def)
    with wf eq have "asset_wf (x\<lparr>as_accumulated := as_accumulated a', as_status := as_status a'\<rparr>)" by simp
    then show "asset_wf (x\<lparr>as_accumulated := as_accumulated a', as_status := as_status a'\<rparr>)
        \<and> as_id (x\<lparr>as_accumulated := as_accumulated a', as_status := as_status a'\<rparr>) = i" using \<open>as_id x = i\<close> by simp
  qed
  then show ?thesis using s' by (simp add: assets_ok_def)
qed

lemma assets_ok_dispose:
  assumes "assets_ok s"
  shows "assets_ok (snd (dispose E sh rank user l i form s))"
proof -
  have "assets_ok (set_asset i (\<lambda>x. x\<lparr>as_status := ''disposed'', as_disposed_date := d, as_disposed_amount := v\<rparr>) (s\<lparr>acore := db\<rparr>))" for d v db
    by (rule assets_ok_set) (use assms in \<open>auto simp: assets_ok_def asset_wf_def list_all_iff\<close>)
  then show ?thesis using assms by (auto simp: dispose_def Let_def split: sum.splits prod.splits option.splits)
qed

lemma assets_ok_create:
  assumes "assets_ok s"
  shows "assets_ok (snd (create_asset E user l form s))"
proof -
  have "assets_ok s1" if "insert_asset E r s = Inr (i, s1)" "as_accumulated r = 0" for r i s1
    using assms that away.rnd_grid
    by (auto simp: insert_asset_def draw_def Let_def assets_ok_def asset_wf_def list_ex_key dest!: numeric_col_Some split: option.splits if_splits)
  moreover have "as_accumulated r = 0" if "asset_request E (acore s) user l form = Inr (u, c, r)" for u c r
    using that by (auto simp: asset_request_def Let_def result_simps split: if_splits)
  ultimately show ?thesis using assms
    by (fastforce simp: create_asset_def run_tx_def split: sum.splits prod.splits)
qed

text \<open>The register as a system of commands, each in an environment of its own.\<close>

datatype asset_command =
    CreateAsset "uuid option" uuid new_asset_form
  | Depreciate "uuid option" uuid uuid
  | Dispose "uuid option" uuid uuid "string \<rightharpoonup> string"

definition asset_step ::
  "(nat \<Rightarrow> env) \<Rightarrow> (posting_service_error \<Rightarrow> string) \<Rightarrow> (string \<Rightarrow> nat) \<Rightarrow> nat \<times> asset_command \<Rightarrow> adb \<Rightarrow> adb" where
  "asset_step Es sh rank c s =
     (case snd c of
        CreateAsset user l form \<Rightarrow> snd (create_asset (Es (fst c)) user l form s)
      | Depreciate user l i \<Rightarrow> snd (calculate_depreciation (Es (fst c)) user l i s)
      | Dispose user l i form \<Rightarrow> snd (dispose (Es (fst c)) sh rank user l i form s))"

interpretation register: command_system "asset_step Es sh rank" "\<lambda>_. True" assets_ok for Es sh rank
  by unfold_locales
     (simp add: asset_step_def assets_ok_create assets_ok_depreciate assets_ok_dispose split: asset_command.split)

text \<open>
  C25: Depreciation never passes the depreciable base.  After any sequence of registering, depreciating and
  disposing, whatever the division and the rounding give, every asset's net book value lies between its cost
  and the smaller of its cost and its salvage value.
\<close>

theorem net_book_value_bounds:
  assumes "assets_ok s" and "a \<in> set (assets (fold (asset_step Es sh rank) cs s))"
  shows "min (as_cost a) (as_salvage a) \<le> net_book_value (as_cost a) (as_accumulated a)
    \<and> net_book_value (as_cost a) (as_accumulated a) \<le> as_cost a"
proof -
  have "assets_ok (fold (asset_step Es sh rank) cs s)"
    by (rule register.run_inv [OF assms(1)]) (simp add: list_all_iff)
  then have "asset_wf a" using assms(2) by (auto simp: assets_ok_def list_all_iff)
  then show ?thesis by (auto simp: asset_wf_def net_book_value_def)
qed

section \<open>How long depreciation takes\<close>

text \<open>The row after a number of months; a month that is refused leaves it.\<close>

primrec months :: "env \<Rightarrow> nat \<Rightarrow> asset_row \<Rightarrow> asset_row" where
  "months E 0 a = a"
| "months E (Suc n) a = (case depreciate_row E a of Inr a' \<Rightarrow> months E n a' | Inl _ \<Rightarrow> a)"

lemma round_up_half:
  assumes "on_grid 4 x" and "0 \<le> x" and "1 / 20000 \<le> m"
  shows "x + 1 / 10000 \<le> round_half_away 4 (x + m)"
proof -
  from assms(1) obtain k where k: "x * 10 ^ 4 = of_int k" by (auto simp: on_grid_def elim: Ints_cases)
  then have x: "x = of_int k / 10 ^ 4" by simp
  have "round_half_away 4 (x + 1 / 20000) = of_int (k + 1) / 10 ^ 4"
  proof -
    have "(x + 1 / 20000) * 10 ^ 4 + 1 / 2 = of_int (k + 1)" using k by simp
    then have "\<lfloor>(x + 1 / 20000) * 10 ^ 4 + 1 / 2\<rfloor> = k + 1" by (simp only: floor_of_int)
    then show ?thesis using assms(2) by (simp add: round_half_away_def sgn_rat_def)
  qed
  also have "\<dots> = x + 1 / 10000" unfolding x by simp
  finally show ?thesis using away.rnd_mono [of "x + 1 / 20000" "x + m" 4] assms(3) by simp
qed

lemma straight_line_step:
  assumes "asset_wf a" and "as_status a = ''active''" and "as_method a = ''straight_line''"
    and "straight_line_monthly E (as_cost a) (as_salvage a) (as_life a) = Some m" and "1 / 20000 \<le> m"
    and "as_cost a - as_salvage a < 10 ^ 16"
  obtains a' where "depreciate_row E a = Inr a'" and "asset_wf a'"
    and "a' = a\<lparr>as_accumulated := as_accumulated a', as_status := as_status a'\<rparr>"
    and "as_status a' = ''fully_depreciated'' \<and> as_accumulated a' = max 0 (as_cost a - as_salvage a)
       \<or> as_status a' = ''active'' \<and> as_accumulated a + 1 / 10000 \<le> as_accumulated a'"
proof -
  let ?base = "as_cost a - as_salvage a"
  define c where "c = cap_at_depreciable m (as_accumulated a) (as_cost a) (as_salvage a)"
  have ch: "monthly_charge E a = Inr c" using assms(2-4) by (simp add: monthly_charge_def c_def)
  have w: "on_grid 4 (as_accumulated a)" "0 \<le> as_accumulated a" "as_accumulated a \<le> max 0 ?base"
    using assms(1) by (simp_all add: asset_wf_def)
  have b: "0 \<le> c" "as_accumulated a + c \<le> max 0 ?base" unfolding c_def using cap_bounds w(2,3) by auto
  let ?v = "round_half_away 4 (as_accumulated a + c)"
  have "?v \<le> max 0 ?base" using away.rnd_mono [OF b(2), of 4] away.rnd_exact [OF on_grid_base [OF assms(1)]] by simp
  moreover have "0 \<le> ?v" by (rule away.rnd_nonneg) (use b w in simp)
  ultimately have "numeric_col 20 4 (as_accumulated a + c) = Some ?v" using assms(6) by (auto simp: numeric_col_def max_def split: if_splits)
  then have d: "depreciate_row E a = Inr (a\<lparr>as_accumulated := ?v,
      as_status := if ?base \<le> as_accumulated a + c then ''fully_depreciated'' else ''active''\<rparr>)"
    by (simp add: depreciate_row_def ch Let_def)
  show thesis
  proof (rule that [OF d])
    show "asset_wf (a\<lparr>as_accumulated := ?v, as_status := if ?base \<le> as_accumulated a + c then ''fully_depreciated'' else ''active''\<rparr>)"
      using depreciate_row_wf [OF assms(1) d] by simp
    have full: "?v = max 0 ?base" if "?base \<le> as_accumulated a + c"
    proof -
      have "as_accumulated a + c = max 0 ?base" using that b w(2) by auto
      then show ?thesis using away.rnd_exact [OF on_grid_base [OF assms(1)]] by simp
    qed
    have more: "as_accumulated a + 1 / 10000 \<le> ?v" if "\<not> ?base \<le> as_accumulated a + c"
    proof -
      have "c = m" using that w assms(5) by (auto simp: c_def cap_at_depreciable_def Let_def max_def min_def split: if_splits)
      then show ?thesis using round_up_half [OF w(1,2) assms(5)] by simp
    qed
    show "as_status (a\<lparr>as_accumulated := ?v, as_status := if ?base \<le> as_accumulated a + c then ''fully_depreciated'' else ''active''\<rparr>) = ''fully_depreciated''
        \<and> as_accumulated (a\<lparr>as_accumulated := ?v, as_status := if ?base \<le> as_accumulated a + c then ''fully_depreciated'' else ''active''\<rparr>) = max 0 ?base
      \<or> as_status (a\<lparr>as_accumulated := ?v, as_status := if ?base \<le> as_accumulated a + c then ''fully_depreciated'' else ''active''\<rparr>) = ''active''
        \<and> as_accumulated a + 1 / 10000 \<le> as_accumulated (a\<lparr>as_accumulated := ?v, as_status := if ?base \<le> as_accumulated a + c then ''fully_depreciated'' else ''active''\<rparr>)"
      using full more by auto
  qed simp
qed

lemma straight_line_finishes:
  assumes "asset_wf a" and "as_status a = ''active''" and "as_method a = ''straight_line''"
    and "straight_line_monthly E (as_cost a) (as_salvage a) (as_life a) = Some m" and "1 / 20000 \<le> m"
    and "as_cost a - as_salvage a < 10 ^ 16" and "as_cost a - as_salvage a - as_accumulated a < of_nat (Suc k) / 10000"
  shows "\<exists>n\<le>Suc k. as_status (months E n a) = ''fully_depreciated''
     \<and> as_accumulated (months E n a) = max 0 (as_cost a - as_salvage a)"
  using assms
proof (induction k arbitrary: a)
  case (0 a)
  from 0(1-6) obtain a' where a': "depreciate_row E a = Inr a'" "asset_wf a'"
      "a' = a\<lparr>as_accumulated := as_accumulated a', as_status := as_status a'\<rparr>"
    and "as_status a' = ''fully_depreciated'' \<and> as_accumulated a' = max 0 (as_cost a - as_salvage a)
       \<or> as_status a' = ''active'' \<and> as_accumulated a + 1 / 10000 \<le> as_accumulated a'" by (rule straight_line_step)
  then have o: "as_status a' = ''fully_depreciated'' \<and> as_accumulated a' = max 0 (as_cost a - as_salvage a)
       \<or> as_status a' = ''active'' \<and> as_accumulated a + 1 / 10000 \<le> as_accumulated a'" by blast
  have "as_cost a' = as_cost a" "as_salvage a' = as_salvage a" by (subst a'(3), simp)+
  then have "as_accumulated a' \<le> max 0 (as_cost a - as_salvage a)" using a'(2) by (simp add: asset_wf_def)
  moreover have "0 \<le> as_accumulated a" using 0(1) by (simp add: asset_wf_def)
  ultimately have "\<not> as_accumulated a + 1 / 10000 \<le> as_accumulated a'" using 0(7) by (simp add: max_def split: if_splits)
  with o a'(1) show ?case by (intro exI [of _ 1]) simp
next
  case (Suc k a)
  from Suc.prems(1-6) obtain a' where a': "depreciate_row E a = Inr a'" "asset_wf a'"
      "a' = a\<lparr>as_accumulated := as_accumulated a', as_status := as_status a'\<rparr>"
    and o: "as_status a' = ''fully_depreciated'' \<and> as_accumulated a' = max 0 (as_cost a - as_salvage a)
       \<or> as_status a' = ''active'' \<and> as_accumulated a + 1 / 10000 \<le> as_accumulated a'" by (rule straight_line_step)
  have same: "as_cost a' = as_cost a" "as_salvage a' = as_salvage a" "as_life a' = as_life a" "as_method a' = as_method a"
    by (subst a'(3), simp)+
  from o show ?case
  proof
    assume "as_status a' = ''fully_depreciated'' \<and> as_accumulated a' = max 0 (as_cost a - as_salvage a)"
    then show ?thesis using a'(1) by (intro exI [of _ 1]) simp
  next
    assume act: "as_status a' = ''active'' \<and> as_accumulated a + 1 / 10000 \<le> as_accumulated a'"
    then have "as_cost a' - as_salvage a' - as_accumulated a' < of_nat (Suc k) / 10000"
      using Suc.prems(7) by (simp add: same field_simps)
    then obtain n where "n \<le> Suc k" "as_status (months E n a') = ''fully_depreciated''"
      "as_accumulated (months E n a') = max 0 (as_cost a - as_salvage a)"
      using Suc.IH [of a'] a'(2) act Suc.prems by (auto simp: same)
    then show ?thesis using a'(1) by (intro exI [of _ "Suc n"]) simp
  qed
qed

text \<open>
  Straight-line depreciation ends.  An active asset whose monthly charge is at least half of the
  smallest stored amount is fully depreciated after finitely many months, with an accumulated depreciation of
  exactly the depreciable base, even though every total is rounded to four decimals on the way.
\<close>

theorem straight_line_completes:
  assumes "asset_wf a" and "as_status a = ''active''" and "as_method a = ''straight_line''"
    and "straight_line_monthly E (as_cost a) (as_salvage a) (as_life a) = Some m" and "1 / 20000 \<le> m"
    and "as_cost a - as_salvage a < 10 ^ 16"
  shows "\<exists>n. as_status (months E n a) = ''fully_depreciated''
     \<and> as_accumulated (months E n a) = max 0 (as_cost a - as_salvage a)"
proof -
  obtain k :: nat where "(as_cost a - as_salvage a - as_accumulated a) * 10000 < of_nat k" using reals_Archimedean2 by blast
  then have "as_cost a - as_salvage a - as_accumulated a < of_nat (Suc k) / 10000" by (simp add: field_simps)
  from straight_line_finishes [OF assms this] show ?thesis by blast
qed

text \<open>
  Declining-balance depreciation can stop short of the base.  Once the charge rounds to zero cents, the
  asset stays as it is: active, with its salvage value never reached, however often it is depreciated.
\<close>

theorem declining_balance_stalls:
  assumes "asset_wf a" and "as_status a = ''active''" and "as_method a = ''declining_balance''"
    and "as_accumulated a < as_cost a - as_salvage a" and "as_accumulated a < 10 ^ 16"
    and "declining_balance_monthly E (as_cost a - as_accumulated a) (as_life a) = 0"
  shows "months E n a = a"
proof -
  have "monthly_charge E a = Inr 0" using assms by (simp add: monthly_charge_def cap_at_depreciable_def Let_def)
  moreover have "numeric_col 20 4 (as_accumulated a) = Some (as_accumulated a)"
    by (rule numeric_col_exact) (use assms(1,5) in \<open>simp_all add: asset_wf_def\<close>)
  ultimately have "depreciate_row E a = Inr a" using assms(2,4) by (simp add: depreciate_row_def Let_def)
  then show ?thesis by (induction n) simp_all
qed

section \<open>What a disposal posts\<close>

lemma disposal_effective:
  assumes "disposal_lines rank db l acc amount nbv = Inr lines"
  shows "effective_amounts E db' (disposal_transaction l' d u lines) = Inr [amount, - nbv, nbv - amount]"
  using assms by (auto simp: disposal_lines_def disposal_transaction_def disposal_line_def effective_amounts_def Let_def result_simps)

text \<open>
  An asset cannot be scrapped.  A disposal without proceeds of an asset that still has a book value, and a
  sale of an asset without one, are refused whatever else the request says: the entry would have a line of
  amount zero, which no posting can have.  The register is left as it was.
\<close>

theorem scrapping_refused:
  assumes "dispose_request E s user l i form = Inr (u, d, amount, a)"
    and "(amount = 0) \<noteq> (net_book_value (as_cost a) (as_accumulated a) = 0)"
  shows "isl (fst (dispose E sh rank user l i form s)) \<and> assets (snd (dispose E sh rank user l i form s)) = assets s"
proof -
  let ?nbv = "net_book_value (as_cost a) (as_accumulated a)"
  have "isl (fst (post_disposal E sh rank u l (as_account a) d amount ?nbv (acore s)))"
  proof (cases "disposal_lines rank (acore s) l (as_account a) amount ?nbv")
    case (Inr lines)
    have "round_half_away 4 \<bar>0\<bar> = 0" by (simp add: away.rnd_zero)
    moreover have "0 \<in> set [amount, - ?nbv, ?nbv - amount]" using assms(2) by auto
    ultimately have "fst (create E (disposal_transaction l d u lines) (acore s)) \<noteq> Inr c" for c
      using zero_line_refused [OF disposal_effective [OF Inr], of 0] by blast
    then have "isl (fst (create E (disposal_transaction l d u lines) (acore s)))"
      by (cases "fst (create E (disposal_transaction l d u lines) (acore s))") auto
    then show ?thesis using Inr assms(2) by (auto simp: post_disposal_def split: prod.splits sum.splits)
  qed (use assms(2) in \<open>auto simp: post_disposal_def\<close>)
  then obtain e db1 where "post_disposal E sh rank u l (as_account a) d amount ?nbv (acore s) = (Inl e, db1)"
    by (cases "post_disposal E sh rank u l (as_account a) d amount ?nbv (acore s)") (auto simp: isl_def)
  then show ?thesis using assms(1) by (simp add: dispose_def)
qed

text \<open>
  What a disposal books.  When the proceeds equal the book value nothing at all is posted, so neither the
  proceeds nor the asset's removal reach the books; otherwise one transaction is added with the proceeds on
  the cash account, the book value on the asset account and the gain or loss on the first income or expense
  account, each rounded to four decimals.
\<close>

theorem disposal_entry:
  assumes "db_wf (acore s)" and "dispose_request E s user l i form = Inr (u, d, amount, a)"
    and "dispose E sh rank user l i form s = (Inr (), s')"
  shows "if amount = net_book_value (as_cost a) (as_accumulated a)
    then transactions (acore s') = transactions (acore s) \<and> postings (acore s') = postings (acore s)
    else (\<exists>t ps lines. disposal_lines rank (acore s) l (as_account a) amount (net_book_value (as_cost a) (as_accumulated a)) = Inr lines
       \<and> transactions (acore s') = transactions (acore s) @ [t] \<and> t_date t = d \<and> t_ledger t = l
       \<and> postings (acore s') = postings (acore s) @ ps
       \<and> list_all2 (line_stored (t_id t)) (zip lines (map n_signed_amount lines)) ps)"
proof -
  let ?nbv = "net_book_value (as_cost a) (as_accumulated a)"
  from assms(2,3) obtain db1 where p: "post_disposal E sh rank u l (as_account a) d amount ?nbv (acore s) = (Inr (), db1)"
    and "books (acore s') = books db1"
    by (auto simp: dispose_def set_asset_def Let_def frame split: sum.splits prod.splits option.splits)
  then have s': "transactions (acore s') = transactions db1" "postings (acore s') = postings db1" using books_eqD(5,6) by blast+
  show ?thesis
  proof (cases "amount = ?nbv")
    case True
    then show ?thesis using p s' by (simp add: post_disposal_def)
  next
    case False
    with p obtain lines c where lines: "disposal_lines rank (acore s) l (as_account a) amount ?nbv = Inr lines"
      and c: "create E (disposal_transaction l d u lines) (acore s) = (Inr c, db1)"
      by (auto simp: post_disposal_def split: sum.splits prod.splits if_splits)
    have "map n_signed_amount lines = [amount, - ?nbv, ?nbv - amount]"
      using lines by (auto simp: disposal_lines_def disposal_line_def Let_def result_simps)
    with create_stores_request_rows [OF assms(1) c] disposal_effective [OF lines] lines s' False
    show ?thesis by (auto simp: disposal_transaction_def new_txn_row_def)
  qed
qed

section \<open>Witnesses\<close>

definition sample_asset :: asset_row where
  "sample_asset =
     \<lparr>as_id = 41, as_ledger = 2, as_name = ''Van'', as_description = None, as_account = 11, as_purchase_date = Date 2026 1 1,
      as_cost = 1000, as_salvage = 100, as_life = 5, as_method = ''straight_line'', as_accumulated = 0, as_status = ''active'',
      as_disposed_date = None, as_disposed_amount = None\<rparr>"

definition sample_adb :: adb where
  "sample_adb = \<lparr>acore = sample_year, assets = [sample_asset]\<rparr>"

definition sample_parse :: env where
  "sample_parse = sample_uuids\<lparr>parse_date := (\<lambda>s. if s = ''2026-08-01'' then Some (Date 2026 8 1) else None),
     parse_dec := (\<lambda>s. if s = ''0'' then Some 0 else if s = ''1200'' then Some 1200 else None)\<rparr>"

lemma sample_asset_wf: "asset_wf sample_asset"
  by (simp add: asset_wf_def sample_asset_def on_grid_def)

theorem net_book_value_bounds_witness:
  "100 \<le> net_book_value 1000 (as_accumulated (hd (assets (fold (asset_step (\<lambda>_. sample_uuids) (\<lambda>_. []) (\<lambda>_. 0))
     [(0, Depreciate (Some 7) 2 41)] sample_adb))))"
proof -
  let ?s = "fold (asset_step (\<lambda>_. sample_uuids) (\<lambda>_. []) (\<lambda>_. 0)) [(0, Depreciate (Some 7) 2 41)] sample_adb"
  have ok: "assets_ok sample_adb" using sample_asset_wf by (simp add: assets_ok_def sample_adb_def)
  have "map as_id (assets ?s) = [41]" "map as_cost (assets ?s) = [1000]" "map as_salvage (assets ?s) = [100]" by code_simp+
  then obtain a where a: "assets ?s = [a]" "as_cost a = 1000" "as_salvage a = 100" by (cases "assets ?s") auto
  then have "a \<in> set (assets ?s)" by simp
  from net_book_value_bounds [OF ok this] show ?thesis using a by simp
qed

theorem straight_line_completes_witness: "\<exists>n. as_status (months sample_env n sample_asset) = ''fully_depreciated''"
proof -
  have "as_status sample_asset = ''active''" "as_method sample_asset = ''straight_line''"
    "straight_line_monthly sample_env (as_cost sample_asset) (as_salvage sample_asset) (as_life sample_asset) = Some 15"
    "as_cost sample_asset - as_salvage sample_asset < 10 ^ 16" by code_simp+
  from straight_line_completes [OF sample_asset_wf this(1-3) _ this(4)] show ?thesis by auto
qed

definition sample_declining :: asset_row where
  "sample_declining = sample_asset\<lparr>as_method := ''declining_balance'', as_salvage := 0, as_accumulated := 99999 / 100\<rparr>"

theorem declining_balance_stalls_witness: "months sample_env 1000 sample_declining = sample_declining"
proof (rule declining_balance_stalls)
  show "asset_wf sample_declining" by (simp add: asset_wf_def sample_declining_def sample_asset_def on_grid_def)
  show "as_status sample_declining = ''active''" "as_method sample_declining = ''declining_balance''"
    "as_accumulated sample_declining < as_cost sample_declining - as_salvage sample_declining"
    "as_accumulated sample_declining < 10 ^ 16"
    "declining_balance_monthly sample_env (as_cost sample_declining - as_accumulated sample_declining) (as_life sample_declining) = 0"
    by code_simp+
qed

theorem scrapping_refused_witness:
  "isl (fst (dispose sample_parse (\<lambda>_. []) (\<lambda>_. 0) (Some 7) 2 41
     [''disposed_date'' \<mapsto> ''2026-08-01'', ''disposed_amount'' \<mapsto> ''0''] sample_adb))"
proof -
  let ?form = "[''disposed_date'' \<mapsto> ''2026-08-01'', ''disposed_amount'' \<mapsto> ''0'']"
  have "dispose_request sample_parse sample_adb (Some 7) 2 41 ?form = Inr (7, Date 2026 8 1, 0, sample_asset)" by code_simp
  from scrapping_refused [OF this] show ?thesis by (simp add: net_book_value_def sample_asset_def)
qed

definition sample_disposed :: adb where
  "sample_disposed = snd (dispose sample_parse (\<lambda>_. []) (\<lambda>_. 0) (Some 7) 2 41
     [''disposed_date'' \<mapsto> ''2026-08-01'', ''disposed_amount'' \<mapsto> ''1200''] sample_adb)"

theorem disposal_entry_witness:
  "\<exists>t. transactions (acore sample_disposed) = transactions (acore sample_adb) @ [t] \<and> t_date t = Date 2026 8 1"
proof -
  let ?form = "[''disposed_date'' \<mapsto> ''2026-08-01'', ''disposed_amount'' \<mapsto> ''1200'']"
  have r: "dispose_request sample_parse sample_adb (Some 7) 2 41 ?form = Inr (7, Date 2026 8 1, 1200, sample_asset)" by code_simp
  have "fst (dispose sample_parse (\<lambda>_. []) (\<lambda>_. 0) (Some 7) 2 41 ?form sample_adb) = Inr ()" by code_simp
  then have d: "dispose sample_parse (\<lambda>_. []) (\<lambda>_. 0) (Some 7) 2 41 ?form sample_adb = (Inr (), sample_disposed)"
    by (metis prod.collapse sample_disposed_def)
  have wf: "db_wf (acore sample_adb)" using sample_year_wf by (simp add: sample_adb_def)
  from disposal_entry [OF wf r d] show ?thesis by (auto simp: net_book_value_def sample_asset_def)
qed

end
