(* ===== verification/Investment_Lots.thy ===== *)
theory Investment_Lots
  imports Reports
begin

text \<open>
  Investment lots: \<^verbatim>\<open>src/src/domain/investment_lot.rs\<close> with the reports on holdings and realised gains
  (\<^verbatim>\<open>src/src/reports/holdings.rs\<close>, \<^verbatim>\<open>src/src/reports/realized_gains.rs\<close>).  The two tables stand beside the
  books in \<open>idb\<close>.  The matching loop runs until the quantity is used up or no lot is open; it may not end in
  general, so it is a partial function, and \<open>None\<close> means that it does not return.  Every \<^verbatim>\<open>INSERT\<close> commits on
  its own.
\<close>

section \<open>Tables\<close>

record lot_row =
  lt_id :: uuid
  lt_account :: uuid
  lt_acquired :: date
  lt_qty :: decimal
  lt_unit_cost :: decimal
  lt_currency :: string
  lt_txn :: uuid

record disposal_row =
  ds_id :: uuid
  ds_lot :: uuid
  ds_qty :: decimal
  ds_unit_proceeds :: decimal
  ds_disposed_at :: date
  ds_txn :: uuid
  ds_gain :: decimal

record idb =
  icore :: db
  lots :: "lot_row list"
  disposals :: "disposal_row list"

definition insert_lot :: "env \<Rightarrow> uuid \<Rightarrow> date \<Rightarrow> decimal \<Rightarrow> decimal \<Rightarrow> string \<Rightarrow> uuid \<Rightarrow> (idb, db_error, uuid) tx" where
  "insert_lot E account_id acquired_at qty unit_cost currency source_txn s =
     (case (numeric_col 20 8 qty, numeric_col 20 8 unit_cost) of
        (Some q, Some c) \<Rightarrow>
          (case char3 currency of None \<Rightarrow> Inl StringTooLong
           | Some cur \<Rightarrow>
               (let (i, db1) = draw E (icore s) in
                if list_ex (\<lambda>l. lt_id l = i) (lots s) then Inl (UniqueViolation ''investment_lots_pkey'')
                else if q \<le> 0 then Inl (CheckViolation ''investment_lots_qty_check'')
                else if c < 0 then Inl (CheckViolation ''investment_lots_unit_cost_check'')
                else if \<not> list_ex (\<lambda>a. a_id a = account_id) (accounts (icore s))
                  then Inl (ForeignKeyViolation ''investment_lots_account_id_fkey'')
                else if txn_of (icore s) source_txn = None then Inl (ForeignKeyViolation ''investment_lots_source_txn_id_fkey'')
                else Inr (i, s\<lparr>icore := db1,
                       lots := lots s @ [\<lparr>lt_id = i, lt_account = account_id, lt_acquired = acquired_at, lt_qty = q,
                                           lt_unit_cost = c, lt_currency = cur, lt_txn = source_txn\<rparr>]\<rparr>)))
      | _ \<Rightarrow> Inl NumericOverflow)"

definition insert_disposal :: "env \<Rightarrow> disposal_row \<Rightarrow> (idb, db_error, uuid) tx" where
  "insert_disposal E r s =
     (case (numeric_col 20 8 (ds_qty r), numeric_col 20 8 (ds_unit_proceeds r), numeric_col 20 8 (ds_gain r)) of
        (Some q, Some p, Some g) \<Rightarrow>
          (let (i, db1) = draw E (icore s) in
           if list_ex (\<lambda>d. ds_id d = i) (disposals s) then Inl (UniqueViolation ''investment_disposals_pkey'')
           else if q \<le> 0 then Inl (CheckViolation ''investment_disposals_qty_check'')
           else if p < 0 then Inl (CheckViolation ''investment_disposals_unit_proceeds_check'')
           else if \<not> list_ex (\<lambda>l. lt_id l = ds_lot r) (lots s) then Inl (ForeignKeyViolation ''investment_disposals_lot_id_fkey'')
           else if txn_of (icore s) (ds_txn r) = None then Inl (ForeignKeyViolation ''investment_disposals_source_txn_id_fkey'')
           else Inr (i, s\<lparr>icore := db1,
                  disposals := disposals s @ [r\<lparr>ds_id := i, ds_qty := q, ds_unit_proceeds := p, ds_gain := g\<rparr>]\<rparr>))
      | _ \<Rightarrow> Inl NumericOverflow)"

section \<open>Matching\<close>

text \<open>\<^verbatim>\<open>l.qty - COALESCE(SUM(d.qty), 0)\<close> for one lot.\<close>

definition sold :: "idb \<Rightarrow> uuid \<Rightarrow> decimal" where
  "sold s i = sum_list (map ds_qty (filter (\<lambda>d. ds_lot d = i) (disposals s)))"

definition open_qty :: "idb \<Rightarrow> lot_row \<Rightarrow> decimal" where
  "open_qty s l = lt_qty l - sold s (lt_id l)"

text \<open>Identifiers are compared byte by byte, which is the order of the numbers.\<close>

definition older :: "lot_row \<Rightarrow> lot_row \<Rightarrow> bool" where
  "older l m \<longleftrightarrow> lt_acquired l < lt_acquired m \<or> lt_acquired l = lt_acquired m \<and> lt_id l < lt_id m"

fun oldest :: "lot_row list \<Rightarrow> lot_row option" where
  "oldest [] = None"
| "oldest (l # ls) = (case oldest ls of None \<Rightarrow> Some l | Some m \<Rightarrow> if older m l then Some m else Some l)"

definition open_lots :: "idb \<Rightarrow> uuid \<Rightarrow> lot_row list" where
  "open_lots s account_id = filter (\<lambda>l. lt_account l = account_id \<and> 0 < open_qty s l) (lots s)"

definition lot_disposal :: "lot_row \<Rightarrow> decimal \<Rightarrow> decimal \<Rightarrow> date \<Rightarrow> uuid \<Rightarrow> disposal_row" where
  "lot_disposal l taken unit_proceeds d txn =
     \<lparr>ds_id = 0, ds_lot = lt_id l, ds_qty = taken, ds_unit_proceeds = unit_proceeds, ds_disposed_at = d, ds_txn = txn,
      ds_gain = taken * unit_proceeds - taken * lt_unit_cost l\<rparr>"

partial_function (option) fifo_loop ::
  "env \<Rightarrow> uuid \<Rightarrow> decimal \<Rightarrow> date \<Rightarrow> uuid \<Rightarrow> decimal \<Rightarrow> disposal_row list \<Rightarrow> idb \<Rightarrow> ((db_error + disposal_row list) \<times> idb) option" where
  "fifo_loop E account_id unit_proceeds d txn remaining acc s =
     (if remaining \<le> 0 then Some (Inr acc, s)
      else (case oldest (open_lots s account_id) of
              None \<Rightarrow> Some (Inr acc, s)
            | Some l \<Rightarrow>
                (let available = open_qty s l;
                     taken = (if available \<le> remaining then available else remaining);
                     row = lot_disposal l taken unit_proceeds d txn
                 in case run_tx (insert_disposal E row) s of
                      (Inl e, s1) \<Rightarrow> Some (Inl e, s1)
                    | (Inr i, s1) \<Rightarrow>
                        fifo_loop E account_id unit_proceeds d txn (remaining - taken) (acc @ [row\<lparr>ds_id := i\<rparr>]) s1)))"

declare fifo_loop.simps [code]

definition fifo_match ::
  "env \<Rightarrow> uuid \<Rightarrow> decimal \<Rightarrow> decimal \<Rightarrow> date \<Rightarrow> uuid \<Rightarrow> idb \<Rightarrow> ((db_error + disposal_row list) \<times> idb) option" where
  "fifo_match E account_id sell_qty unit_proceeds d txn s = fifo_loop E account_id unit_proceeds d txn sell_qty [] s"

section \<open>Reports\<close>

definition lots_of :: "idb \<Rightarrow> uuid \<Rightarrow> lot_row list" where
  "lots_of s account_id = filter (\<lambda>l. lt_account l = account_id) (lots s)"

definition remaining_qty :: "idb \<Rightarrow> uuid \<Rightarrow> decimal" where
  "remaining_qty s account_id = sum_list (map (open_qty s) (lots_of s account_id))"

definition cost_basis :: "idb \<Rightarrow> uuid \<Rightarrow> decimal" where
  "cost_basis s account_id = sum_list (map (\<lambda>l. open_qty s l * lt_unit_cost l) (open_lots s account_id))"

definition holdings :: "(string \<Rightarrow> nat) \<Rightarrow> uuid option \<Rightarrow> uuid \<Rightarrow> idb \<Rightarrow> app_error + (uuid \<times> string \<times> string \<times> decimal \<times> decimal \<times> string) list" where
  "holdings rank user ledger_id s =
     rbind (signed_in user) (\<lambda>user_id.
     rbind (ensure_access (icore s) user_id ledger_id) (\<lambda>_.
     Inr (map (\<lambda>a. (a_id a, a_name a, a_type a, remaining_qty s (a_id a), cost_basis s (a_id a), a_currency a))
            (sort_key (\<lambda>a. rank (a_name a))
               (filter (\<lambda>a. a_ledger a = ledger_id \<and> list_ex (\<lambda>l. lt_account l = a_id a) (lots s)) (accounts (icore s)))))))"

text \<open>\<^verbatim>\<open>ORDER BY d.disposed_at DESC, d.id DESC\<close>.\<close>

definition realized_gains :: "uuid option \<Rightarrow> uuid \<Rightarrow> idb \<Rightarrow> app_error + (disposal_row \<times> uuid \<times> string) list" where
  "realized_gains user ledger_id s =
     rbind (signed_in user) (\<lambda>user_id.
     rbind (ensure_access (icore s) user_id ledger_id) (\<lambda>_.
     Inr (map (\<lambda>r. let (((d, l), a), t) = r in (d, a_id a, a_name a))
       (rev (sort_key (\<lambda>r. (ds_disposed_at (fst (fst (fst r))), ds_id (fst (fst (fst r)))))
         (filter (\<lambda>r. t_ledger (snd r) = ledger_id \<and> final (snd r))
           (inner_join (\<lambda>dla t. t_id t = ds_txn (fst (fst dla)))
             (inner_join (\<lambda>dl a. a_id a = lt_account (snd dl))
               (inner_join (\<lambda>d l. lt_id l = ds_lot d) (disposals s) (lots s)) (accounts (icore s))) (transactions (icore s)))))))))"

section \<open>The oldest lot\<close>

lemma oldest_None: "oldest ls = None \<longleftrightarrow> ls = []"
  by (cases ls) (auto split: option.splits)

lemma oldest_Some:
  assumes "oldest ls = Some l"
  shows "l \<in> set ls \<and> (\<forall>m\<in>set ls. \<not> older m l)"
  using assms
proof (induction ls arbitrary: l)
  case (Cons a ls)
  show ?case
  proof (cases "oldest ls")
    case None
    then show ?thesis using Cons.prems by (auto simp: oldest_None older_def)
  next
    case (Some m)
    then have m: "m \<in> set ls" "\<forall>x\<in>set ls. \<not> older x m" using Cons.IH by auto
    show ?thesis
    proof (cases "older m a")
      case True
      then have "l = m" using Cons.prems Some by simp
      moreover have "\<not> older a m" using True by (auto simp: older_def)
      ultimately show ?thesis using m by auto
    next
      case False
      then have "l = a" using Cons.prems Some by simp
      moreover have "\<not> older x a" if "x \<in> set ls" for x using m(2) that False by (force simp: older_def)
      ultimately show ?thesis by (auto simp: older_def)
    qed
  qed
qed simp

section \<open>Lots that are never oversold\<close>

definition lots_ok :: "idb \<Rightarrow> bool" where
  "lots_ok s \<longleftrightarrow>
     distinct (map lt_id (lots s)) \<and> list_all (\<lambda>l. on_grid 8 (lt_qty l) \<and> 0 \<le> open_qty s l) (lots s)
   \<and> list_all (\<lambda>d. on_grid 8 (ds_qty d)) (disposals s)"

lemma on_grid_open:
  assumes "lots_ok s" and "l \<in> set (lots s)"
  shows "on_grid 8 (open_qty s l)"
proof -
  have "on_grid 8 (sold s (lt_id l))"
    unfolding sold_def by (rule on_grid_sum_list) (use assms(1) in \<open>auto simp: lots_ok_def list_all_iff\<close>)
  then show ?thesis using on_grid_add [of 8 "lt_qty l" "- sold s (lt_id l)"] assms by (simp add: open_qty_def lots_ok_def list_all_iff)
qed

lemma insert_disposal_Inr:
  assumes "insert_disposal E r s = Inr (i, s1)" and "on_grid 8 (ds_qty r)"
  shows "s1 = s\<lparr>icore := (icore s)\<lparr>drawn := Suc (drawn (icore s))\<rparr>,
     disposals := disposals s @ [r\<lparr>ds_id := i, ds_unit_proceeds := round_half_away 8 (ds_unit_proceeds r),
                                    ds_gain := round_half_away 8 (ds_gain r)\<rparr>]\<rparr>"
  using assms
  by (auto simp: insert_disposal_def draw_def Let_def away.rnd_exact dest!: numeric_col_Some split: option.splits if_splits)

text \<open>What one disposal of a quantity from a lot changes.\<close>

lemma disposal_effect:
  assumes "lots_ok s" and "l \<in> set (lots s)" and "q \<le> open_qty s l" and "on_grid 8 q"
    and "s1 = s\<lparr>icore := db, disposals := disposals s @ [r]\<rparr>" and "ds_lot r = lt_id l" and "ds_qty r = q"
  shows "\<forall>m\<in>set (lots s). open_qty s1 m = (if m = l then open_qty s l - q else open_qty s m)" and "lots_ok s1"
proof -
  have u: "lt_id m = lt_id l \<longleftrightarrow> m = l" if "m \<in> set (lots s)" for m
    using assms(1,2) that by (auto simp: lots_ok_def distinct_map inj_on_def)
  show o: "\<forall>m\<in>set (lots s). open_qty s1 m = (if m = l then open_qty s l - q else open_qty s m)"
  proof
    fix m assume "m \<in> set (lots s)"
    with u [of m] show "open_qty s1 m = (if m = l then open_qty s l - q else open_qty s m)"
      by (cases "m = l") (auto simp: assms(5-7) open_qty_def sold_def)
  qed
  then show "lots_ok s1" using assms(1,3,4) by (auto simp: lots_ok_def list_all_iff assms(5,7))
qed

lemma sum_change_one:
  assumes "distinct xs" and "x \<in> set xs" and "\<forall>y\<in>set xs. f y = (if y = x then g x - q else g y)"
  shows "sum_list (map f xs) = sum_list (map g xs) - (q :: decimal)"
  using assms
proof (induction xs)
  case (Cons y ys)
  show ?case
  proof (cases "y = x")
    case True
    have "sum_list (map f ys) = sum_list (map g ys)"
      by (intro arg_cong [of _ _ sum_list] map_cong refl) (use Cons.prems True in auto)
    then show ?thesis using True Cons.prems by simp
  next
    case False
    then show ?thesis using Cons by auto
  qed
qed simp

lemma sum_list_open:
  assumes "\<And>x. x \<in> set xs \<Longrightarrow> \<not> P x \<Longrightarrow> g x = 0"
  shows "sum_list (map g (filter P xs)) = (sum_list (map g xs) :: decimal)"
  using assms by (induction xs) auto

lemma cost_basis_all:
  assumes "lots_ok s"
  shows "cost_basis s acc = sum_list (map (\<lambda>l. open_qty s l * lt_unit_cost l) (lots_of s acc))"
proof -
  have "open_lots s acc = filter (\<lambda>l. 0 < open_qty s l) (lots_of s acc)" by (auto simp: open_lots_def lots_of_def conj_commute)
  moreover have "open_qty s l = 0" if "l \<in> set (lots_of s acc)" "\<not> 0 < open_qty s l" for l
    using assms that by (fastforce simp: lots_ok_def lots_of_def list_all_iff)
  ultimately show ?thesis unfolding cost_basis_def by (auto intro!: sum_list_open)
qed

section \<open>The loop ends and uses the oldest lots\<close>

text \<open>
  What matching a quantity did: lots of other accounts and lots with a newer key than an open one are
  untouched, the quantity and the cost basis that left the account are those of the new disposals.
\<close>

definition matched :: "uuid \<Rightarrow> decimal \<Rightarrow> decimal \<Rightarrow> idb \<Rightarrow> idb \<Rightarrow> disposal_row list \<Rightarrow> bool" where
  "matched acc unit_proceeds q s s' ds \<longleftrightarrow>
     lots s' = lots s
   \<and> sum_list (map ds_qty ds) = min q (remaining_qty s acc)
   \<and> remaining_qty s' acc = remaining_qty s acc - sum_list (map ds_qty ds)
   \<and> sum_list (map ds_gain ds) = sum_list (map ds_qty ds) * unit_proceeds - (cost_basis s acc - cost_basis s' acc)
   \<and> (\<forall>l\<in>set (lots s). lt_account l \<noteq> acc \<longrightarrow> open_qty s' l = open_qty s l)
   \<and> (\<forall>l\<in>set (lots s). \<forall>m\<in>set (lots_of s acc). open_qty s' l \<noteq> open_qty s l \<longrightarrow> older m l \<longrightarrow> open_qty s' m = 0)"

lemma one_disposal:
  assumes "lots_ok s" and "l \<in> set (lots_of s acc)" and "q \<le> open_qty s l" and "on_grid 8 q"
    and "s1 = s\<lparr>icore := db, disposals := disposals s @ [r]\<rparr>" and "ds_lot r = lt_id l" and "ds_qty r = q"
  shows "lots_ok s1" and "remaining_qty s1 acc = remaining_qty s acc - q"
    and "cost_basis s1 acc = cost_basis s acc - q * lt_unit_cost l"
    and "\<forall>m\<in>set (lots s). open_qty s1 m = (if m = l then open_qty s l - q else open_qty s m)"
proof -
  have l: "l \<in> set (lots s)" using assms(2) by (simp add: lots_of_def)
  note e = disposal_effect [OF assms(1) l assms(3-)]
  show ok: "lots_ok s1" and o: "\<forall>m\<in>set (lots s). open_qty s1 m = (if m = l then open_qty s l - q else open_qty s m)"
    by (rule e(2), rule e(1))
  have d: "distinct (lots_of s acc)" using assms(1) by (auto simp: lots_ok_def lots_of_def distinct_map)
  have same: "lots_of s1 acc = lots_of s acc" by (simp add: assms(5) lots_of_def)
  have in_lots: "m \<in> set (lots s)" if "m \<in> set (lots_of s acc)" for m using that by (simp add: lots_of_def)
  show "remaining_qty s1 acc = remaining_qty s acc - q"
    unfolding remaining_qty_def same by (rule sum_change_one [OF d assms(2)]) (use o in_lots in auto)
  show "cost_basis s1 acc = cost_basis s acc - q * lt_unit_cost l"
    unfolding cost_basis_all [OF ok] cost_basis_all [OF assms(1)] same
    by (rule sum_change_one [OF d assms(2)]) (use o in_lots in \<open>auto simp: algebra_simps\<close>)
qed

lemma matched_nil:
  assumes "q \<le> 0 \<and> q = 0 \<or> remaining_qty s acc = 0 \<and> 0 \<le> q" and "lots_ok s"
  shows "matched acc p q s s []"
proof -
  have "0 \<le> remaining_qty s acc"
    unfolding remaining_qty_def using assms(2) by (intro sum_list_nonneg) (auto simp: lots_ok_def lots_of_def list_all_iff)
  then show ?thesis using assms(1) by (auto simp: matched_def)
qed

lemma matched_step:
  assumes "lots_ok s" and "oldest (open_lots s acc) = Some l" and "0 < q" and "t = min (open_qty s l) q" and "on_grid 8 t"
    and "s1 = s\<lparr>icore := db, disposals := disposals s @ [r]\<rparr>" and "ds_lot r = lt_id l" and "ds_qty r = t"
    and "matched acc p (q - t) s1 s' ds" and "lots_ok s'" and "\<forall>m\<in>set (lots s). open_qty s' m \<le> open_qty s1 m"
    and "ds_qty x = t" and "ds_gain x = t * p - t * lt_unit_cost l"
  shows "matched acc p q s s' (x # ds)"
proof -
  from oldest_Some [OF assms(2)] have l: "l \<in> set (lots_of s acc)" "0 < open_qty s l"
    and first: "\<And>m. m \<in> set (open_lots s acc) \<Longrightarrow> \<not> older m l" by (auto simp: open_lots_def lots_of_def)
  have "t \<le> open_qty s l" using assms(4) by simp
  note e = one_disposal [OF assms(1) l(1) this assms(5-8)]
  have lots1: "lots s1 = lots s" "lots_of s1 acc = lots_of s acc" by (simp_all add: assms(6) lots_of_def)
  have ls: "lots s' = lots s"
    and other: "\<And>k. k \<in> set (lots s) \<Longrightarrow> lt_account k \<noteq> acc \<Longrightarrow> open_qty s' k = open_qty s1 k"
    and fifo1: "\<And>k m. k \<in> set (lots s) \<Longrightarrow> m \<in> set (lots_of s acc) \<Longrightarrow> open_qty s' k \<noteq> open_qty s1 k \<Longrightarrow> older m k \<Longrightarrow> open_qty s' m = 0"
    using assms(9) unfolding matched_def lots1 by blast+
  have older0: "open_qty s' m = 0" if m: "m \<in> set (lots_of s acc)" "older m l" for m
  proof -
    have ml: "m \<in> set (lots s)" "lt_account m = acc" using m(1) by (auto simp: lots_of_def)
    have "\<not> 0 < open_qty s m" using first [of m] m(2) ml by (auto simp: open_lots_def)
    moreover have "m \<noteq> l" using m(2) by (auto simp: older_def)
    ultimately have "open_qty s1 m \<le> 0" using e(4) ml by auto
    moreover have "0 \<le> open_qty s' m" using assms(10) ml(1) ls by (simp add: lots_ok_def list_all_iff)
    moreover have "open_qty s' m \<le> open_qty s1 m" using assms(11) ml(1) by blast
    ultimately show ?thesis by simp
  qed
  have fifo: "open_qty s' m = 0" if "k \<in> set (lots s)" "m \<in> set (lots_of s acc)" "open_qty s' k \<noteq> open_qty s k" "older m k" for k m
  proof (cases "k = l")
    case True
    then show ?thesis using older0 that by simp
  next
    case False
    then have "open_qty s' k \<noteq> open_qty s1 k" using e(4) that(1,3) by simp
    then show ?thesis using fifo1 that by blast
  qed
  moreover have "open_qty s' k = open_qty s k" if "k \<in> set (lots s)" "lt_account k \<noteq> acc" for k
    using other [OF that] e(4) that l(1) by (auto simp: lots_of_def)
  moreover
  have m: "lots s' = lots s" "sum_list (map ds_qty ds) = min (q - t) (remaining_qty s acc - t)"
    "remaining_qty s' acc = remaining_qty s acc - t - sum_list (map ds_qty ds)"
    "sum_list (map ds_gain ds) = sum_list (map ds_qty ds) * p - (cost_basis s acc - t * lt_unit_cost l - cost_basis s' acc)"
    using assms(9) unfolding matched_def e(2,3) lots1 by blast+
  have "sum_list (map ds_qty (x # ds)) = min q (remaining_qty s acc)"
    using m(2) assms(12) by (simp add: min_diff_distrib_left [symmetric])
  moreover have "remaining_qty s' acc = remaining_qty s acc - sum_list (map ds_qty (x # ds))" using m(3) assms(12) by simp
  moreover have "sum_list (map ds_gain (x # ds)) = sum_list (map ds_qty (x # ds)) * p - (cost_basis s acc - cost_basis s' acc)"
    using m(4) assms(12,13) by (simp add: algebra_simps)
  ultimately show ?thesis using m(1) unfolding matched_def by blast
qed

definition loop_result ::
  "uuid \<Rightarrow> decimal \<Rightarrow> decimal \<Rightarrow> disposal_row list \<Rightarrow> idb \<Rightarrow> ((db_error + disposal_row list) \<times> idb) option \<Rightarrow> bool" where
  "loop_result account_id unit_proceeds q acc s res \<longleftrightarrow>
     (\<exists>r s'. res = Some (r, s') \<and> lots_ok s' \<and> lots s' = lots s
        \<and> (\<forall>m\<in>set (lots s). open_qty s' m \<le> open_qty s m)
        \<and> (\<forall>ds. r = Inr ds \<longrightarrow> (\<exists>new. ds = acc @ new \<and> matched account_id unit_proceeds q s s' new)))"

lemma loop_result_stop:
  assumes "lots_ok s" and "q = 0 \<or> remaining_qty s account_id = 0 \<and> 0 \<le> q"
  shows "loop_result account_id p q acc s (Some (Inr acc, s))"
  using matched_nil [of q s account_id p] assms by (auto simp: loop_result_def)

lemma no_open_lots:
  assumes "lots_ok s" and "open_lots s account_id = []"
  shows "remaining_qty s account_id = 0"
proof -
  have "open_qty s l = 0" if "l \<in> set (lots_of s account_id)" for l
    using assms that by (fastforce simp: lots_ok_def lots_of_def open_lots_def list_all_iff filter_empty_conv)
  then show ?thesis using sum_list_open [of "lots_of s account_id" "\<lambda>_. False" "open_qty s"] by (simp add: remaining_qty_def)
qed

lemma fifo_loop_unfold:
  assumes "0 < q" and "oldest (open_lots s account_id) = Some l"
    and t: "t = min (open_qty s l) q" and row: "row = lot_disposal l t p d txn"
  shows "fifo_loop E account_id p d txn q acc s =
    (case run_tx (insert_disposal E row) s of (Inl e, s1) \<Rightarrow> Some (Inl e, s1)
     | (Inr i, s1) \<Rightarrow> fifo_loop E account_id p d txn (q - t) (acc @ [row\<lparr>ds_id := i\<rparr>]) s1)"
  unfolding row t min_def using assms(1,2) by (subst fifo_loop.simps) (simp add: Let_def)

text \<open>One round of the loop, seen from its rest; a lot that is used up is no longer open.\<close>

lemma loop_result_step:
  assumes "lots_ok s" and "oldest (open_lots s account_id) = Some l" and "0 < q" and "t = min (open_qty s l) q" and "on_grid 8 t"
    and s1: "s1 = s\<lparr>icore := db, disposals := disposals s @ [r]\<rparr>" and r: "ds_lot r = lt_id l" "ds_qty r = t"
    and rest: "loop_result account_id p (q - t) (acc @ [x]) s1 res"
    and x: "ds_qty x = t" "ds_gain x = t * p - t * lt_unit_cost l"
  shows "loop_result account_id p q acc s res"
proof -
  have l: "l \<in> set (lots_of s account_id)" "t \<le> open_qty s l" "0 \<le> t"
    using oldest_Some [OF assms(2)] assms(3,4) by (auto simp: open_lots_def lots_of_def)
  note e = one_disposal [OF assms(1) l(1,2) assms(5) s1 r]
  obtain v s' where res: "res = Some (v, s')" and ok': "lots_ok s'" and ls: "lots s' = lots s1"
    and le: "\<forall>m\<in>set (lots s1). open_qty s' m \<le> open_qty s1 m"
    and m: "\<And>ds. v = Inr ds \<Longrightarrow> \<exists>new. ds = (acc @ [x]) @ new \<and> matched account_id p (q - t) s1 s' new"
    using rest unfolding loop_result_def by blast
  have ls1: "lots s1 = lots s" by (simp add: s1)
  have le1: "\<forall>m\<in>set (lots s). open_qty s' m \<le> open_qty s1 m" using le unfolding ls1 .
  moreover have "\<forall>m\<in>set (lots s). open_qty s1 m \<le> open_qty s m" using e(4) l(3) by simp
  ultimately have "\<forall>m\<in>set (lots s). open_qty s' m \<le> open_qty s m" by (meson order_trans)
  moreover have "\<exists>new. ds = acc @ new \<and> matched account_id p q s s' new" if v: "v = Inr ds" for ds
  proof -
    from m [OF v] obtain new where new: "ds = acc @ x # new" "matched account_id p (q - t) s1 s' new" by auto
    from matched_step [OF assms(1-5) s1 r new(2) ok' le1 x] new(1) show ?thesis by blast
  qed
  ultimately show ?thesis unfolding loop_result_def using res ok' ls ls1 by auto
qed

lemma fewer_open_lots:
  assumes "lots_ok s" and l: "l \<in> set (open_lots s account_id)" and "lots s1 = lots s"
    and "\<forall>m\<in>set (lots s). open_qty s1 m = (if m = l then 0 else open_qty s m)"
  shows "length (open_lots s1 account_id) < length (open_lots s account_id)"
proof -
  have "open_lots s1 account_id = filter (\<lambda>m. m \<noteq> l) (open_lots s account_id)"
    unfolding open_lots_def assms(3) filter_filter by (rule filter_cong) (use assms(4) in auto)
  then show ?thesis using l by (simp add: length_filter_less)
qed

lemma fifo_loop_total:
  assumes "lots_ok s" and "on_grid 8 q" and "0 \<le> q"
  shows "loop_result account_id p q acc s (fifo_loop E account_id p d txn q acc s)"
  using assms
proof (induction "length (open_lots s account_id)" arbitrary: s q acc rule: less_induct)
  case less
  note ok = less.prems(1)
  consider "q = 0" | "0 < q" "oldest (open_lots s account_id) = None" | l where "0 < q" "oldest (open_lots s account_id) = Some l"
    using less.prems(3) by (cases "oldest (open_lots s account_id)") fastforce+
  then show ?case
  proof cases
    case 1
    then show ?thesis using loop_result_stop [OF ok] by (subst fifo_loop.simps) simp
  next
    case 2
    then show ?thesis using loop_result_stop [OF ok, of q account_id] no_open_lots [OF ok] less.prems(3)
      by (subst fifo_loop.simps) (simp add: oldest_None)
  next
    case (3 l)
    define t where "t = min (open_qty s l) q"
    define row where "row = lot_disposal l t p d txn"
    have l: "l \<in> set (lots_of s account_id)" "l \<in> set (open_lots s account_id)" "0 < open_qty s l" "t \<le> open_qty s l"
      using oldest_Some [OF 3(2)] by (auto simp: open_lots_def lots_of_def t_def)
    have lg: "l \<in> set (lots s)" using l(1) by (simp add: lots_of_def)
    have grid: "on_grid 8 t" "on_grid 8 (q - t)" "0 \<le> q - t" and row: "ds_qty row = t" "ds_lot row = lt_id l"
      "ds_gain row = t * p - t * lt_unit_cost l"
      using on_grid_open [OF ok lg] less.prems(2) on_grid_add [of 8 q "- t"] by (auto simp: t_def min_def row_def lot_disposal_def)
    note unfold = fifo_loop_unfold [OF 3 t_def row_def]
    show ?thesis
    proof (cases "insert_disposal E row s")
      case (Inl e)
      then show ?thesis unfolding unfold using ok by (simp add: run_tx_def loop_result_def)
    next
      case (Inr is1)
      then obtain i s1 where is1: "insert_disposal E row s = Inr (i, s1)" by (cases is1) auto
      from insert_disposal_Inr [OF is1] grid(1) row(1) obtain db r
        where s1: "s1 = s\<lparr>icore := db, disposals := disposals s @ [r]\<rparr>" and r: "ds_lot r = lt_id l" "ds_qty r = t"
        using row(2) by fastforce
      note e = one_disposal [OF ok l(1,4) grid(1) s1 r]
      let ?acc = "acc @ [row\<lparr>ds_id := i\<rparr>]"
      have "loop_result account_id p (q - t) ?acc s1 (fifo_loop E account_id p d txn (q - t) ?acc s1)"
      proof (cases "t = open_qty s l")
        case True
        then have "length (open_lots s1 account_id) < length (open_lots s account_id)"
          using fewer_open_lots [OF ok l(2)] e(4) by (simp add: s1)
        then show ?thesis by (rule less.hyps) (use e(1) grid in auto)
      next
        case False
        then have "q - t = 0" by (simp add: t_def min_def split: if_splits)
        then show ?thesis using loop_result_stop [OF e(1)] by (subst fifo_loop.simps) simp
      qed
      from loop_result_step [OF ok 3(2,1) t_def grid(1) s1 r this] row
      have "loop_result account_id p q acc s (fifo_loop E account_id p d txn (q - t) ?acc s1)" by simp
      then show ?thesis unfolding unfold by (simp add: run_tx_def is1)
    qed
  qed
qed

text \<open>A new lot is entirely open; the tables stay as the loop needs them.\<close>

lemma insert_lot_keeps:
  assumes "lots_ok s" and "list_all (\<lambda>d. list_ex (\<lambda>l. lt_id l = ds_lot d) (lots s)) (disposals s)"
    and "insert_lot E account_id d qty cost cur txn s = Inr (i, s')"
  shows "lots_ok s'" and "\<exists>l. lots s' = lots s @ [l] \<and> lt_id l = i \<and> open_qty s' l = lt_qty l"
proof -
  from assms(3) obtain db c where s': "s' = s\<lparr>icore := db, lots := lots s @ [\<lparr>lt_id = i, lt_account = account_id,
      lt_acquired = d, lt_qty = round_half_away 8 qty, lt_unit_cost = round_half_away 8 cost, lt_currency = c, lt_txn = txn\<rparr>]\<rparr>"
    and new: "\<not> list_ex (\<lambda>l. lt_id l = i) (lots s)" and pos: "0 < round_half_away 8 qty"
    by (auto simp: insert_lot_def draw_def Let_def not_le dest!: numeric_col_Some split: option.splits if_splits)
  have unsold: "sold s' i = 0"
  proof -
    have "filter (\<lambda>x. ds_lot x = i) (disposals s) = []" using assms(2) new by (auto simp: filter_empty_conv list_all_iff list_ex_iff)
    then show ?thesis by (simp add: sold_def s')
  qed
  have "sold s' j = sold s j" for j by (simp add: sold_def s')
  then show "lots_ok s'" using assms(1) new pos unsold
    by (auto simp: lots_ok_def open_qty_def s' list_all_iff list_ex_iff away.rnd_grid)
  show "\<exists>l. lots s' = lots s @ [l] \<and> lt_id l = i \<and> open_qty s' l = lt_qty l" using unsold by (simp add: s' open_qty_def)
qed

text \<open>
  C26: Selling a quantity of at most eight decimals from lots that are not oversold always returns: each round closes a
  lot or uses the quantity up.  Afterwards no lot is oversold and the lots are the same.  When no insert fails,
  the disposals add up to the quantity or to all that was open, whichever is less; the account holds exactly that
  much less; the gains are the proceeds less the fall of the cost basis that the holdings report shows; other
  accounts are untouched; and a lot is only drawn on when every older lot of the account ends up empty.
\<close>

theorem fifo_match_total:
  assumes "lots_ok s" and "on_grid 8 sell_qty" and "0 \<le> sell_qty"
  shows "\<exists>r s'. fifo_match E account_id sell_qty unit_proceeds d txn s = Some (r, s') \<and> lots_ok s' \<and> lots s' = lots s
    \<and> (\<forall>ds. r = Inr ds \<longrightarrow> matched account_id unit_proceeds sell_qty s s' ds)"
  using fifo_loop_total [OF assms, of account_id unit_proceeds "[]" E d txn] by (auto simp: loop_result_def fifo_match_def)

definition sample_lots :: idb where
  "sample_lots = \<lparr>icore = sample_year,
     lots = [\<lparr>lt_id = 51, lt_account = 11, lt_acquired = Date 2025 6 1, lt_qty = 10, lt_unit_cost = 8, lt_currency = ''USD'', lt_txn = 3\<rparr>,
             \<lparr>lt_id = 52, lt_account = 11, lt_acquired = Date 2025 5 1, lt_qty = 10, lt_unit_cost = 5, lt_currency = ''USD'', lt_txn = 3\<rparr>],
     disposals = []\<rparr>"

theorem fifo_match_total_witness:
  "\<exists>ds s'. fifo_match sample_env 11 15 9 (Date 2025 7 1) 3 sample_lots = Some (Inr ds, s')
     \<and> map (\<lambda>x. (ds_lot x, ds_qty x, ds_gain x)) ds = [(52, 10, 40), (51, 5, 5)] \<and> remaining_qty s' 11 = 5"
proof -
  have ok: "lots_ok sample_lots" by (simp add: lots_ok_def sample_lots_def on_grid_def open_qty_def sold_def)
  have "on_grid 8 (15 :: decimal)" "0 \<le> (15 :: decimal)" by (simp_all add: on_grid_def)
  from fifo_match_total [OF ok this, of sample_env 11 9 "Date 2025 7 1" 3] obtain r s'
    where r: "fifo_match sample_env 11 15 9 (Date 2025 7 1) 3 sample_lots = Some (r, s')"
      and m: "\<And>ds. r = Inr ds \<Longrightarrow> matched 11 9 15 sample_lots s' ds" by auto
  have "map_option (\<lambda>(v, _). map_sum (\<lambda>_. ()) (map (\<lambda>x. (ds_lot x, ds_qty x, ds_gain x))) v)
      (fifo_match sample_env 11 15 9 (Date 2025 7 1) 3 sample_lots) = Some (Inr [(52, 10, 40), (51, 5, 5)])" by code_simp
  with r obtain ds where ds: "r = Inr ds" "map (\<lambda>x. (ds_lot x, ds_qty x, ds_gain x)) ds = [(52, 10, 40), (51, 5, 5)]"
    by (cases r) auto
  have "remaining_qty sample_lots 11 = 20" by code_simp
  moreover have "sum_list (map ds_qty ds) = 15" using ds(2) by auto
  ultimately have "remaining_qty s' 11 = 5" using m [OF ds(1)] by (simp add: matched_def)
  with r ds show ?thesis by (intro exI [of _ ds] exI [of _ s'] conjI) simp_all
qed

end
