(* ===== verification/Posting_Batches.thy ===== *)
theory Posting_Batches
  imports Period_Close
begin

text \<open>
  Several handlers write the rows of a transaction themselves instead of calling the posting service: one
  \<^verbatim>\<open>INSERT INTO transactions\<close> and one \<^verbatim>\<open>INSERT INTO postings\<close> per line.  This theory holds the row such
  statements insert and what a batch of them leaves in the books.
\<close>

definition plain_posting :: "uuid \<Rightarrow> uuid \<Rightarrow> decimal \<Rightarrow> string \<Rightarrow> posting_row" where
  "plain_posting txn account amount direction =
     \<lparr>p_id = 0, p_txn = txn, p_account = account, p_amount = amount, p_direction = direction, p_memo = None,
      p_foreign_amount = None, p_foreign_currency = None, p_cost_center = None, p_project = None\<rparr>"

definition add_postings :: "env \<Rightarrow> posting_row list \<Rightarrow> db \<Rightarrow> db_error + db" where
  "add_postings E ps db = try_fold (\<lambda>db p. add_posting E p db) db ps"

text \<open>A posting as requested and as stored.\<close>

definition posting_stored :: "posting_row \<Rightarrow> posting_row \<Rightarrow> bool" where
  "posting_stored p q \<longleftrightarrow>
     p_txn q = p_txn p \<and> p_account q = p_account p \<and> p_direction q = p_direction p \<and> p_memo q = p_memo p
   \<and> p_amount q = round_half_away 4 (p_amount p) \<and> 0 < p_amount q"

lemma add_posting_stored:
  assumes "add_posting E p db = Inr db'"
  obtains q where "db' = db\<lparr>drawn := Suc (drawn db), postings := postings db @ [q]\<rparr>" and "posting_stored p q"
proof -
  from assms obtain i where "insert_posting E p db = Inr (i, db')" by (auto simp: add_posting_def result_simps)
  then show thesis
  proof (rule insert_posting_Inr)
    fix q
    assume q: "posting_values p = Inr q" "0 < p_amount q" "db' = db\<lparr>drawn := Suc (drawn db), postings := postings db @ [q\<lparr>p_id := i\<rparr>]\<rparr>"
    from posting_values_Inr [OF q(1)] q(2) numeric_col_Some have "posting_stored p (q\<lparr>p_id := i\<rparr>)"
      by (auto simp: posting_stored_def)
    with q(3) show thesis by (rule that)
  qed
qed

lemma add_postings_stored:
  assumes "add_postings E ps db = Inr db'"
  shows "\<exists>qs. list_all2 posting_stored ps qs \<and> db' = db\<lparr>drawn := drawn db + length ps, postings := postings db @ qs\<rparr>"
  using assms unfolding add_postings_def
proof (induction ps arbitrary: db)
  case (Cons p ps)
  then obtain db1 where 1: "add_posting E p db = Inr db1" "try_fold (\<lambda>db p. add_posting E p db) db1 ps = Inr db'"
    by (auto simp: result_simps)
  from 1(1) obtain q where q: "db1 = db\<lparr>drawn := Suc (drawn db), postings := postings db @ [q]\<rparr>" "posting_stored p q"
    by (rule add_posting_stored)
  from Cons.IH [OF 1(2)] obtain qs where "list_all2 posting_stored ps qs"
    "db' = db1\<lparr>drawn := drawn db1 + length ps, postings := postings db1 @ qs\<rparr>" by blast
  with q have "list_all2 posting_stored (p # ps) (q # qs)"
    "db' = db\<lparr>drawn := drawn db + length (p # ps), postings := postings db @ (q # qs)\<rparr>" by simp_all
  then show ?case by blast
qed simp

lemma stored_txn: "list_all2 posting_stored ps qs \<Longrightarrow> list_all (\<lambda>p. p_txn p = t) ps \<Longrightarrow> list_all (\<lambda>p. p_txn p = t) qs"
  by (induction rule: list_all2_induct) (auto simp: posting_stored_def)

text \<open>Amounts of at most four decimals are stored as they are, so the totals are those requested.\<close>

lemma stored_sums:
  assumes "list_all2 posting_stored ps qs" and "list_all (\<lambda>p. on_grid 4 (p_amount p)) ps"
  shows "debit_sum qs = debit_sum ps" and "credit_sum qs = credit_sum ps"
  using assms
  by (induction rule: list_all2_induct)
     (auto simp: debit_sum_def credit_sum_def posting_stored_def is_debit_def is_credit_def away.rnd_exact)

text \<open>The batch of a transaction that is inserted with it: its rows are exactly the batch.\<close>

lemma new_entry:
  assumes "db_wf db" and "insert_transaction E r db = Inr (t, db1)" and "add_postings E ps db1 = Inr db2"
    and "list_all (\<lambda>p. p_txn p = t) ps"
  obtains qs where "list_all2 posting_stored ps qs" and "postings_of db2 t = qs"
    and "transactions db2 = transactions db @ [r\<lparr>t_id := t, t_created_at := now E\<rparr>]" and "postings db2 = postings db @ qs"
    and "t \<notin> t_id ` set (transactions db)"
proof -
  from assms(2) have t: "t \<notin> t_id ` set (transactions db)"
    and db1: "db1 = db\<lparr>drawn := Suc (drawn db), transactions := transactions db @ [r\<lparr>t_id := t, t_created_at := now E\<rparr>]\<rparr>"
    by (auto simp: insert_transaction_Inr)
  from add_postings_stored [OF assms(3)] obtain qs where qs: "list_all2 posting_stored ps qs"
    "db2 = db1\<lparr>drawn := drawn db1 + length ps, postings := postings db1 @ qs\<rparr>" by blast
  have "filter (\<lambda>p. p_txn p = t) qs = qs" using stored_txn [OF qs(1) assms(4)] by (simp add: list_all_iff filter_id_conv)
  then have "postings_of db2 t = qs" using postings_of_new [OF assms(1) t] by (simp add: postings_of_def qs(2) db1)
  then show thesis using that [OF qs(1)] t by (simp add: qs(2) db1)
qed

text \<open>\<^verbatim>\<open>GROUP BY\<close>: the sums of the groups add up to the sum of the rows.\<close>

lemma sum_list_one_group:
  "distinct as \<Longrightarrow> sum_list (map (\<lambda>a. if k = a then x else (0 :: decimal)) as) = (if k \<in> set as then x else 0)"
  by (induction as) auto

lemma sum_groups:
  assumes "distinct as" and "key ` set ls \<subseteq> set as"
  shows "sum_list (map (\<lambda>a. sum_list (map f (filter (\<lambda>l. key l = a) ls))) as) = (sum_list (map f ls) :: decimal)"
  using assms(2)
proof (induction ls)
  case (Cons l ls)
  have "(\<lambda>a. sum_list (map f (filter (\<lambda>l. key l = a) (l # ls))))
      = (\<lambda>a. (if key l = a then f l else 0) + sum_list (map f (filter (\<lambda>l. key l = a) ls)))" by auto
  then have "sum_list (map (\<lambda>a. sum_list (map f (filter (\<lambda>l. key l = a) (l # ls)))) as)
      = sum_list (map (\<lambda>a. if key l = a then f l else 0) as) + sum_list (map (\<lambda>a. sum_list (map f (filter (\<lambda>l. key l = a) ls))) as)"
    by (simp only: sum_list_addf)
  then show ?case using Cons sum_list_one_group [OF assms(1), of "key l" "f l"] by simp
qed simp

lemma audit_log_tables [simp]:
  "transactions (audit_log E l u a e i o' n db) = transactions db" "postings (audit_log E l u a e i o' n db) = postings db"
  "accounts (audit_log E l u a e i o' n db) = accounts db"
proof -
  have "books (audit_log E l u a e i o' n db) = books db" by (simp add: frame)
  then show "transactions (audit_log E l u a e i o' n db) = transactions db" "postings (audit_log E l u a e i o' n db) = postings db"
    "accounts (audit_log E l u a e i o' n db) = accounts db" by (rule books_eqD)+
qed

end
