(* ===== verification/Expense_Policies.thy ===== *)
theory Expense_Policies
  imports Env Rust_Text "HOL-Library.Log_Nat"
begin

text \<open>
  The expense policies of \<^verbatim>\<open>src/src/domain/policies.rs\<close> and the pure part of
  \<^verbatim>\<open>src/src/domain/approval_routing.rs\<close>.  A policy's configuration is a JSON value read by \<^verbatim>\<open>serde\<close>: a
  struct is an object with its fields or an array of their values in order.  How a decimal is read from a JSON
  value is code of \<^verbatim>\<open>rust_decimal\<close>; it is the argument \<open>de\<close>.
\<close>

section \<open>Kinds and severities\<close>

datatype policy_kind = CategoryCap | ReceiptRequired | PerDiem

fun policy_kind_as_str :: "policy_kind \<Rightarrow> string" where
  "policy_kind_as_str CategoryCap = ''category_cap''"
| "policy_kind_as_str ReceiptRequired = ''receipt_required''"
| "policy_kind_as_str PerDiem = ''per_diem''"

definition parse_policy_kind :: "string \<Rightarrow> policy_kind option" where
  "parse_policy_kind s =
     (if s = ''category_cap'' then Some CategoryCap
      else if s = ''receipt_required'' then Some ReceiptRequired
      else if s = ''per_diem'' then Some PerDiem else None)"

datatype severity = Hard | Soft

fun severity_as_str :: "severity \<Rightarrow> string" where
  "severity_as_str Hard = ''hard''"
| "severity_as_str Soft = ''soft''"

definition parse_severity :: "string \<Rightarrow> severity option" where
  "parse_severity s = (if s = ''hard'' then Some Hard else if s = ''soft'' then Some Soft else None)"

record policy =
  pol_id :: uuid
  pol_name :: string
  pol_kind :: policy_kind
  pol_config :: json
  pol_severity :: severity

record policy_line =
  pl_category :: string
  pl_date :: date
  pl_amount :: decimal
  pl_has_receipt :: bool

datatype violation =
    CategoryCapOver string date int int
  | ReceiptMissing int int
  | PerDiemOver string date int int

definition is_hard :: "violation \<Rightarrow> severity \<Rightarrow> bool" where
  "is_hard v policy_severity \<longleftrightarrow> policy_severity = Hard"

section \<open>Amounts in cents\<close>

text \<open>
  \<^verbatim>\<open>str::parse::<f64>()\<close> rounds to the nearest number with 53 significant bits, ties to even.  The
  decimals here lie far inside the range of normal numbers.
\<close>

definition f64_exponent :: "rat \<Rightarrow> int" where
  "f64_exponent x =
     (let (p, q) = quotient_of \<bar>x\<bar>; e = int (floorlog 2 (nat p)) - int (floorlog 2 (nat q))
      in if (if 0 \<le> e then q * 2 ^ nat e \<le> p else q \<le> p * 2 ^ nat (- e)) then e else e - 1)"

definition f64_of :: "rat \<Rightarrow> rat" where
  "f64_of x =
     (if x = 0 then 0
      else let e = f64_exponent x - 52; u = (if 0 \<le> e then 2 ^ nat e else 1 / 2 ^ nat (- e)) in round_half_even 0 (x / u) * u)"

text \<open>\<^verbatim>\<open>as i64\<close> drops the fraction and saturates.\<close>

definition as_i64 :: "rat \<Rightarrow> int" where
  "as_i64 x = (let t = (if 0 \<le> x then \<lfloor>x\<rfloor> else \<lceil>x\<rceil>) in max (- (2 ^ 63)) (min (2 ^ 63 - 1) t))"

definition decimal_to_cents :: "decimal \<Rightarrow> int" where
  "decimal_to_cents d = as_i64 (f64_of (d * 100))"

section \<open>Configurations\<close>

definition config_fields :: "string list \<Rightarrow> json \<Rightarrow> (string \<rightharpoonup> json) option" where
  "config_fields names j =
     (case j of JObj kvs \<Rightarrow> Some (map_of kvs)
      | JArr xs \<Rightarrow> if length xs = length names then Some (map_of (zip names xs)) else None
      | _ \<Rightarrow> None)"

definition string_field :: "(string \<rightharpoonup> json) \<Rightarrow> string \<Rightarrow> string option" where
  "string_field m k = Option.bind (m k) as_str"

definition decimal_field :: "(json \<Rightarrow> decimal option) \<Rightarrow> (string \<rightharpoonup> json) \<Rightarrow> string \<Rightarrow> decimal option" where
  "decimal_field de m k = Option.bind (m k) de"

definition category_cap_config :: "(json \<Rightarrow> decimal option) \<Rightarrow> json \<Rightarrow> (string \<times> decimal) option" where
  "category_cap_config de j =
     Option.bind (config_fields [''category'', ''max_per_day''] j) (\<lambda>m.
     Option.bind (string_field m ''category'') (\<lambda>c.
     Option.bind (decimal_field de m ''max_per_day'') (\<lambda>x. Some (c, x))))"

definition receipt_required_config :: "(json \<Rightarrow> decimal option) \<Rightarrow> json \<Rightarrow> decimal option" where
  "receipt_required_config de j =
     Option.bind (config_fields [''min_amount''] j) (\<lambda>m. decimal_field de m ''min_amount'')"

definition per_diem_config :: "(json \<Rightarrow> decimal option) \<Rightarrow> json \<Rightarrow> (string \<times> decimal) option" where
  "per_diem_config de j =
     Option.bind (config_fields [''destination'', ''daily_rate''] j) (\<lambda>m.
     Option.bind (string_field m ''destination'') (\<lambda>d.
     Option.bind (decimal_field de m ''daily_rate'') (\<lambda>x. Some (d, x))))"

section \<open>Evaluation\<close>

definition day_total :: "policy_line list \<Rightarrow> string \<Rightarrow> date \<Rightarrow> decimal" where
  "day_total lines category d =
     sum_list (map pl_amount (filter (\<lambda>l. pl_category l = category \<and> pl_date l = d) lines))"

text \<open>The loop over the lines; \<open>seen\<close> holds the dates reported so far (the category is always the same).\<close>

fun cap_loop :: "policy_line list \<Rightarrow> string \<Rightarrow> decimal \<Rightarrow> policy_line list \<Rightarrow> (string \<times> date) list \<Rightarrow> violation list" where
  "cap_loop all c cap [] seen = []"
| "cap_loop all c cap (l # ls) seen =
     (if pl_category l \<noteq> c then cap_loop all c cap ls seen
      else if (c, pl_date l) \<in> set seen then cap_loop all c cap ls seen
      else if cap < day_total all c (pl_date l)
      then CategoryCapOver c (pl_date l) (decimal_to_cents (day_total all c (pl_date l))) (decimal_to_cents cap)
           # cap_loop all c cap ls ((c, pl_date l) # seen)
      else cap_loop all c cap ls seen)"

definition eval_category_cap :: "(json \<Rightarrow> decimal option) \<Rightarrow> policy \<Rightarrow> policy_line list \<Rightarrow> violation list" where
  "eval_category_cap de policy lines =
     (case category_cap_config de (pol_config policy) of None \<Rightarrow> []
      | Some (c, cap) \<Rightarrow> cap_loop lines c cap lines [])"

definition eval_receipt_required :: "(json \<Rightarrow> decimal option) \<Rightarrow> policy \<Rightarrow> policy_line list \<Rightarrow> violation list" where
  "eval_receipt_required de policy lines =
     (case receipt_required_config de (pol_config policy) of None \<Rightarrow> []
      | Some m \<Rightarrow> map (\<lambda>l. ReceiptMissing (decimal_to_cents (pl_amount l)) (decimal_to_cents m))
                    (filter (\<lambda>l. m \<le> pl_amount l \<and> \<not> pl_has_receipt l) lines))"

text \<open>The loop over the lines of a per-diem policy reports nothing.\<close>

definition eval_per_diem :: "(json \<Rightarrow> decimal option) \<Rightarrow> policy \<Rightarrow> policy_line list \<Rightarrow> violation list" where
  "eval_per_diem de policy lines =
     (case per_diem_config de (pol_config policy) of None \<Rightarrow> [] | Some _ \<Rightarrow> [])"

definition evaluate :: "(json \<Rightarrow> decimal option) \<Rightarrow> policy \<Rightarrow> policy_line list \<Rightarrow> violation list" where
  "evaluate de policy lines =
     (case pol_kind policy of
        CategoryCap \<Rightarrow> eval_category_cap de policy lines
      | ReceiptRequired \<Rightarrow> eval_receipt_required de policy lines
      | PerDiem \<Rightarrow> eval_per_diem de policy lines)"

section \<open>Approval levels\<close>

definition resolve_required_levels :: "int list \<Rightarrow> int list" where
  "resolve_required_levels matching = remdups_adj (sort (if matching = [] then [1] else matching))"

section \<open>What the evaluation reports\<close>

lemma parse_policy_kind_as_str [simp]: "parse_policy_kind (policy_kind_as_str k) = Some k"
  by (cases k) (simp_all add: parse_policy_kind_def)

lemma parse_severity_as_str [simp]: "parse_severity (severity_as_str k) = Some k"
  by (cases k) (simp_all add: parse_severity_def)

fun cap_date :: "violation \<Rightarrow> date option" where
  "cap_date (CategoryCapOver _ d _ _) = Some d"
| "cap_date _ = None"

lemma cap_loop_dates:
  "set (map cap_date (cap_loop all c cap ls seen)) =
     {Some d |d. cap < day_total all c d \<and> (c, d) \<notin> set seen \<and> (\<exists>l\<in>set ls. pl_category l = c \<and> pl_date l = d)}
   \<and> distinct (map cap_date (cap_loop all c cap ls seen))"
proof (induction ls arbitrary: seen)
  case (Cons l ls)
  let ?d = "pl_date l"
  show ?case
  proof (cases "pl_category l = c \<and> (c, ?d) \<notin> set seen \<and> cap < day_total all c ?d")
    case True
    then have "cap_loop all c cap (l # ls) seen =
        CategoryCapOver c ?d (decimal_to_cents (day_total all c ?d)) (decimal_to_cents cap) # cap_loop all c cap ls ((c, ?d) # seen)"
      by simp
    with Cons.IH [of "(c, ?d) # seen"] True show ?thesis by auto
  next
    case False
    then have "cap_loop all c cap (l # ls) seen = cap_loop all c cap ls seen" by auto
    with Cons.IH [of seen] False show ?thesis by auto
  qed
qed simp

text \<open>
  C30: A daily cap is evaluated exactly.  For a well-formed cap on a category, the dates reported are those on which
  the amounts of that category add up to more than the cap, each once, however many lines the day has; a
  configuration that cannot be read reports nothing, so a mistyped hard policy never blocks anything.
\<close>

theorem category_cap_exact:
  "case category_cap_config de (pol_config p) of
     None \<Rightarrow> eval_category_cap de p lines = []
   | Some (c, cap) \<Rightarrow>
       distinct (map cap_date (eval_category_cap de p lines))
     \<and> set (map cap_date (eval_category_cap de p lines))
       = {Some d |d. cap < day_total lines c d \<and> d \<in> pl_date ` set (filter (\<lambda>l. pl_category l = c) lines)}"
proof (cases "category_cap_config de (pol_config p)")
  case (Some x)
  obtain c cap where "x = (c, cap)" by (cases x)
  with Some have e: "eval_category_cap de p lines = cap_loop lines c cap lines []" by (simp add: eval_category_cap_def)
  from cap_loop_dates [of lines c cap lines "[]"] show ?thesis
    unfolding e Some \<open>x = (c, cap)\<close> by (auto simp: image_iff)
qed (simp add: eval_category_cap_def)

lemma distinct_remdups_adj:
  "sorted xs \<Longrightarrow> distinct (remdups_adj (xs :: int list))"
proof (induction xs rule: remdups_adj.induct)
  case (3 x y xs)
  then show ?case by (cases "x = y") (fastforce simp del: remdups_adj.simps(3) simp: remdups_adj.simps(3))+
qed simp_all

lemma resolve_required_levels_spec:
  "set (resolve_required_levels ls) = (if ls = [] then {1} else set ls)"
  "sorted (resolve_required_levels ls)" "distinct (resolve_required_levels ls)"
  by (simp_all add: resolve_required_levels_def sorted_remdups_adj distinct_remdups_adj)

end
