(* ===== verification/Reimbursement.thy ===== *)
theory Reimbursement
  imports Recurring_Templates Posting_Batches Expense_Policies
begin

text \<open>
  Expense claims: \<^verbatim>\<open>src/src/domain/reimbursement.rs\<close>, \<^verbatim>\<open>src/src/domain/approval_routing.rs\<close> and the handlers
  of \<^verbatim>\<open>src/src/handlers/reimbursement.rs\<close> and \<^verbatim>\<open>src/src/handlers/approval_policies.rs\<close>, and the one
  handler of \<^verbatim>\<open>src/src/handlers/document_ocr.rs\<close> that writes claim lines, with the tables of the migrations
  0019, 0026 and 0027 beside the books in \<open>rdb\<close>.  Queries without \<^verbatim>\<open>ORDER BY\<close> return rows in
  the order of insertion.  Statements outside a transaction commit one by one.
\<close>

section \<open>The documented state machine\<close>

datatype claim_status = Draft | Submitted | PartiallyApproved | FullyApproved | Approved | Rejected | Paid

fun claim_status_as_str :: "claim_status \<Rightarrow> string" where
  "claim_status_as_str Draft = ''draft''"
| "claim_status_as_str Submitted = ''submitted''"
| "claim_status_as_str PartiallyApproved = ''partially_approved''"
| "claim_status_as_str FullyApproved = ''fully_approved''"
| "claim_status_as_str Approved = ''approved''"
| "claim_status_as_str Rejected = ''rejected''"
| "claim_status_as_str Paid = ''paid''"

definition parse_claim_status :: "string \<Rightarrow> claim_status option" where
  "parse_claim_status s =
     (if s = ''draft'' then Some Draft
      else if s = ''submitted'' then Some Submitted
      else if s = ''partially_approved'' then Some PartiallyApproved
      else if s = ''fully_approved'' then Some FullyApproved
      else if s = ''approved'' then Some Approved
      else if s = ''rejected'' then Some Rejected
      else if s = ''paid'' then Some Paid else None)"

fun can_transition_to :: "claim_status \<Rightarrow> claim_status \<Rightarrow> bool" where
  "can_transition_to Draft Submitted = True"
| "can_transition_to Submitted PartiallyApproved = True"
| "can_transition_to Submitted FullyApproved = True"
| "can_transition_to Submitted Rejected = True"
| "can_transition_to PartiallyApproved PartiallyApproved = True"
| "can_transition_to PartiallyApproved FullyApproved = True"
| "can_transition_to FullyApproved Paid = True"
| "can_transition_to Approved Paid = True"
| "can_transition_to Rejected Draft = True"
| "can_transition_to _ _ = False"

section \<open>Tables\<close>

record claim_row =
  cl_id :: uuid
  cl_ledger :: uuid
  cl_short_id :: string
  cl_employee :: uuid
  cl_employee_name :: string
  cl_title :: string
  cl_description :: string
  cl_currency :: string
  cl_status :: string
  cl_approved_by :: "uuid option"
  cl_approved_at :: "int option"
  cl_rejected_reason :: "string option"
  cl_paid_at :: "int option"
  cl_payout_account :: "uuid option"

record claim_line =
  rl_id :: uuid
  rl_claim :: uuid
  rl_date :: date
  rl_description :: string
  rl_amount :: decimal
  rl_account :: uuid
  rl_tax :: decimal
  rl_advance :: decimal

record claim_event =
  ce_claim :: uuid
  ce_actor :: uuid
  ce_type :: string
  ce_payload :: json

record expense_policy_row =
  ep_id :: uuid
  ep_ledger :: uuid
  ep_name :: string
  ep_kind :: string
  ep_config :: json
  ep_severity :: string
  ep_active :: bool

record approval_policy_row =
  ap_id :: uuid
  ap_ledger :: uuid
  ap_name :: string
  ap_min :: decimal
  ap_role :: string
  ap_level :: int

record approval_step_row =
  st_claim :: uuid
  st_level :: int
  st_approver :: uuid

record rdb =
  rcore :: db
  claims :: "claim_row list"
  claim_lines :: "claim_line list"
  claim_events :: "claim_event list"
  expense_policies :: "expense_policy_row list"
  approval_policies :: "approval_policy_row list"
  approval_steps :: "approval_step_row list"

definition lines_of_claim :: "rdb \<Rightarrow> uuid \<Rightarrow> claim_line list" where
  "lines_of_claim s i = filter (\<lambda>l. rl_claim l = i) (claim_lines s)"

definition insert_claim :: "claim_row \<Rightarrow> rdb \<Rightarrow> db_error + rdb" where
  "insert_claim r s =
     (case char3 (cl_currency r) of None \<Rightarrow> Inl StringTooLong
      | Some c \<Rightarrow>
          if list_ex (\<lambda>x. cl_id x = cl_id r) (claims s) then Inl (UniqueViolation ''reimbursement_claims_pkey'')
          else if ledger_of (rcore s) (cl_ledger r) = None then Inl (ForeignKeyViolation ''reimbursement_claims_ledger_id_fkey'')
          else if list_ex (\<lambda>x. cl_ledger x = cl_ledger r \<and> cl_short_id x = cl_short_id r) (claims s)
            then Inl (UniqueViolation ''reimbursement_claims_ledger_id_short_id_key'')
          else Inr (s\<lparr>claims := claims s @ [r\<lparr>cl_currency := c\<rparr>]\<rparr>))"

definition insert_claim_line :: "env \<Rightarrow> claim_line \<Rightarrow> rdb \<Rightarrow> db_error + rdb" where
  "insert_claim_line E r s =
     (case (numeric_col 20 4 (rl_amount r), numeric_col 20 4 (rl_tax r), numeric_col 20 4 (rl_advance r)) of
        (Some a, Some t, Some v) \<Rightarrow>
          (let (i, db1) = draw E (rcore s) in
           if list_ex (\<lambda>l. rl_id l = i) (claim_lines s) then Inl (UniqueViolation ''reimbursement_lines_pkey'')
           else if \<not> list_ex (\<lambda>c. cl_id c = rl_claim r) (claims s) then Inl (ForeignKeyViolation ''reimbursement_lines_claim_id_fkey'')
           else if a \<le> 0 then Inl (CheckViolation ''reimbursement_lines_amount_check'')
           else if \<not> list_ex (\<lambda>x. a_id x = rl_account r) (accounts (rcore s))
             then Inl (ForeignKeyViolation ''reimbursement_lines_gl_account_id_fkey'')
           else if t < 0 then Inl (CheckViolation ''reimbursement_lines_tax_amount_check'')
           else if v < 0 then Inl (CheckViolation ''reimbursement_lines_advance_amount_check'')
           else Inr (s\<lparr>rcore := db1, claim_lines := claim_lines s @ [r\<lparr>rl_id := i, rl_amount := a, rl_tax := t, rl_advance := v\<rparr>]\<rparr>))
      | _ \<Rightarrow> Inl NumericOverflow)"

definition log_event :: "uuid \<Rightarrow> uuid \<Rightarrow> string \<Rightarrow> json \<Rightarrow> rdb \<Rightarrow> rdb" where
  "log_event claim_id actor event payload s =
     s\<lparr>claim_events := claim_events s @ [\<lparr>ce_claim = claim_id, ce_actor = actor, ce_type = event, ce_payload = payload\<rparr>]\<rparr>"

definition set_claim :: "(claim_row \<Rightarrow> bool) \<Rightarrow> (claim_row \<Rightarrow> claim_row) \<Rightarrow> rdb \<Rightarrow> rdb" where
  "set_claim P f s = s\<lparr>claims := map (\<lambda>c. if P c then f c else c) (claims s)\<rparr>"

definition log_core :: "env \<Rightarrow> uuid \<Rightarrow> uuid \<Rightarrow> string \<Rightarrow> string \<Rightarrow> uuid option \<Rightarrow> json option \<Rightarrow> rdb \<Rightarrow> rdb" where
  "log_core E ledger_id user_id action entity i new s =
     s\<lparr>rcore := audit_log E (Some ledger_id) user_id action entity i None new (rcore s)\<rparr>"

section \<open>Approval routing\<close>

definition required_levels :: "rdb \<Rightarrow> uuid \<Rightarrow> decimal \<Rightarrow> int list" where
  "required_levels s ledger_id tot =
     resolve_required_levels (map ap_level (filter (\<lambda>p. ap_ledger p = ledger_id \<and> ap_min p \<le> tot) (approval_policies s)))"

definition recorded_levels :: "rdb \<Rightarrow> uuid \<Rightarrow> int list" where
  "recorded_levels s claim_id = sort (remdups (map st_level (filter (\<lambda>x. st_claim x = claim_id) (approval_steps s))))"

definition owner_of :: "db \<Rightarrow> uuid \<Rightarrow> uuid option" where
  "owner_of db ledger_id = map_option l_owner (ledger_of db ledger_id)"

definition eligible_approvers :: "db \<Rightarrow> uuid \<Rightarrow> string \<Rightarrow> uuid list" where
  "eligible_approvers db ledger_id min_role =
     sort (remdups (map u_id (filter (\<lambda>u.
       (owner_of db ledger_id = Some (u_id u)
        \<or> list_ex (\<lambda>m. m_ledger m = ledger_id \<and> m_user m = u_id u \<and> m_role m \<noteq> ''viewer'') (members db))
     \<and> (min_role = ''Accountant'' \<or> u_role u = ''admin'' \<or> owner_of db ledger_id = Some (u_id u))) (users db))))"

definition approver_role_for_level :: "rdb \<Rightarrow> uuid \<Rightarrow> int \<Rightarrow> decimal \<Rightarrow> string" where
  "approver_role_for_level s ledger_id level tot =
     (case sort_key (\<lambda>p. - ap_min p)
             (filter (\<lambda>p. ap_ledger p = ledger_id \<and> ap_level p = level \<and> ap_min p \<le> tot) (approval_policies s)) of
        [] \<Rightarrow> ''Admin'' | p # _ \<Rightarrow> ap_role p)"

definition ledger_user_count :: "db \<Rightarrow> uuid \<Rightarrow> nat" where
  "ledger_user_count db ledger_id =
     length (remdups (map l_owner (filter (\<lambda>l. l_id l = ledger_id) (ledgers db))
                      @ map m_user (filter (\<lambda>m. m_ledger m = ledger_id) (members db))))"

section \<open>Loading and policy checks\<close>

definition load_claim :: "rdb \<Rightarrow> uuid \<Rightarrow> uuid \<Rightarrow> app_error + claim_row \<times> claim_status" where
  "load_claim s claim_id ledger_id =
     rbind (ok_or NotFound (find (\<lambda>c. cl_id c = claim_id \<and> cl_ledger c = ledger_id) (claims s))) (\<lambda>c.
     rbind (ok_or (Internal ''bad status'') (parse_claim_status (cl_status c))) (\<lambda>st. Inr (c, st)))"

definition policy_line_of :: "db \<Rightarrow> claim_line \<Rightarrow> policy_line" where
  "policy_line_of db l =
     \<lparr>pl_category = (case find (\<lambda>a. a_id a = rl_account l) (accounts db) of Some a \<Rightarrow> a_name a | None \<Rightarrow> ''other''),
      pl_date = rl_date l, pl_amount = rl_amount l, pl_has_receipt = False\<rparr>"

definition policy_of :: "expense_policy_row \<Rightarrow> policy option" where
  "policy_of r =
     Option.bind (parse_policy_kind (ep_kind r)) (\<lambda>k.
     Option.bind (parse_severity (ep_severity r)) (\<lambda>v.
     Some \<lparr>pol_id = ep_id r, pol_name = ep_name r, pol_kind = k, pol_config = ep_config r, pol_severity = v\<rparr>))"

definition collect_policy_violations :: "(json \<Rightarrow> decimal option) \<Rightarrow> rdb \<Rightarrow> uuid \<Rightarrow> app_error + (policy \<times> violation) list" where
  "collect_policy_violations de s claim_id =
     rbind (ok_or (AppDb RowNotFound) (find (\<lambda>c. cl_id c = claim_id) (claims s))) (\<lambda>c.
     let lines = map (policy_line_of (rcore s)) (lines_of_claim s claim_id);
         policies = List.map_filter policy_of (filter (\<lambda>p. ep_ledger p = cl_ledger c \<and> ep_active p) (expense_policies s))
     in Inr (concat (map (\<lambda>p. map (Pair p) (evaluate de p lines)) policies)))"

definition cents_text :: "int \<Rightarrow> string" where
  "cents_text n = show_int n @ [CHR 0xA2]"

fun violation_detail :: "violation \<Rightarrow> string" where
  "violation_detail (CategoryCapOver category d actual cap) =
     ''category '' @ [CHR 0x27] @ category @ [CHR 0x27] @ '' cap exceeded (actual '' @ cents_text actual @ '' > cap '' @ cents_text cap @ '')''"
| "violation_detail (ReceiptMissing amount min_required) =
     ''receipt required for '' @ cents_text amount @ '' (min '' @ cents_text min_required @ '')''"
| "violation_detail (PerDiemOver destination d actual daily_rate) =
     ''per-diem for '' @ [CHR 0x27] @ destination @ [CHR 0x27] @ '' exceeded (actual '' @ cents_text actual @ '' > rate ''
       @ cents_text daily_rate @ '')''"

fun join_text :: "string \<Rightarrow> string list \<Rightarrow> string" where
  "join_text sep [] = []"
| "join_text sep [x] = x"
| "join_text sep (x # y # zs) = x @ sep @ join_text sep (y # zs)"

definition hard_violation_message :: "(policy \<times> violation) list \<Rightarrow> string option" where
  "hard_violation_message violations =
     (let msgs = map (\<lambda>(p, v). ''['' @ pol_name p @ ''] '' @ violation_detail v)
                   (filter (\<lambda>(p, v). pol_severity p = Hard) violations)
      in if msgs = [] then None else Some (''policy violation: '' @ join_text ''; '' msgs))"

definition check_policies :: "(json \<Rightarrow> decimal option) \<Rightarrow> rdb \<Rightarrow> uuid \<Rightarrow> app_error + unit" where
  "check_policies de s claim_id =
     rbind (collect_policy_violations de s claim_id) (\<lambda>vs.
       case hard_violation_message vs of Some m \<Rightarrow> Inl (Validation m) | None \<Rightarrow> Inr ())"

definition status_event :: "claim_status \<Rightarrow> string" where
  "status_event st =
     (case st of Submitted \<Rightarrow> ''submit'' | PartiallyApproved \<Rightarrow> ''approve'' | FullyApproved \<Rightarrow> ''approve''
      | Approved \<Rightarrow> ''approve'' | Rejected \<Rightarrow> ''reject'' | Paid \<Rightarrow> ''pay'' | Draft \<Rightarrow> ''create'')"

definition update_status :: "uuid \<Rightarrow> uuid \<Rightarrow> claim_status \<Rightarrow> json option \<Rightarrow> rdb \<Rightarrow> rdb" where
  "update_status claim_id actor_id new_status payload s =
     log_event claim_id actor_id (status_event new_status) (case payload of Some p \<Rightarrow> p | None \<Rightarrow> JObj [])
       (set_claim (\<lambda>c. cl_id c = claim_id) (\<lambda>c. c\<lparr>cl_status := claim_status_as_str new_status\<rparr>) s)"

definition quoted :: "string \<Rightarrow> string" where
  "quoted t = [CHR 0x27] @ t @ [CHR 0x27]"

section \<open>Drafting, submitting and rejecting\<close>

record new_claim_form =
  ncf_title :: string
  ncf_description :: "string option"
  ncf_currency :: string
  ncf_employee_name :: string

definition format_short_id :: "env \<Rightarrow> uuid \<Rightarrow> string" where
  "format_short_id E u = take 8 (concat (map hex_byte (uuid_bytes E u)))"

definition create_claim :: "env \<Rightarrow> uuid option \<Rightarrow> uuid \<Rightarrow> new_claim_form \<Rightarrow> rdb \<Rightarrow> (app_error + unit) \<times> rdb" where
  "create_claim E user ledger_id form s =
     (case
        rbind (signed_in user) (\<lambda>user_id.
        rbind (ensure_writer (rcore s) user_id ledger_id) (\<lambda>ledger.
        if trim (ncf_title form) = [] then Inl (Validation ''title is required'')
        else if length (utf8 (ncf_currency form)) \<noteq> 3 then Inl (Validation ''currency must be a 3-letter code'')
        else if trim (ncf_employee_name form) = [] then Inl (Validation ''employee_name is required'')
        else if to_uppercase (ncf_currency form) \<noteq> to_uppercase (l_base_currency ledger)
          then Inl (Validation (''currency mismatch: claim '' @ quoted (to_uppercase (ncf_currency form)) @ '' vs ledger base ''
                 @ quoted (l_base_currency ledger)))
        else Inr user_id)) of
        Inl e \<Rightarrow> (Inl e, s)
      | Inr user_id \<Rightarrow>
          (let (new_id, db1) = draw E (rcore s); s0 = s\<lparr>rcore := db1\<rparr> in
           case insert_claim
             \<lparr>cl_id = new_id, cl_ledger = ledger_id, cl_short_id = format_short_id E new_id, cl_employee = user_id,
              cl_employee_name = trim (ncf_employee_name form), cl_title = trim (ncf_title form),
              cl_description = (case ncf_description form of Some d \<Rightarrow> d | None \<Rightarrow> []),
              cl_currency = to_uppercase (ncf_currency form), cl_status = ''draft'', cl_approved_by = None, cl_approved_at = None,
              cl_rejected_reason = None, cl_paid_at = None, cl_payout_account = None\<rparr> s0 of
             Inl e \<Rightarrow> (Inl (AppDb e), s0)
           | Inr s1 \<Rightarrow>
               (Inr (), log_core E ledger_id user_id ''reimbursement.create'' ''reimbursement_claim'' (Some new_id)
                  (Some (JObj [(''title'', JStr (ncf_title form))])) (log_event new_id user_id ''create'' (JObj []) s1))))"

record new_line_form =
  nlf_txn_date :: string
  nlf_description :: string
  nlf_amount :: string
  nlf_account :: uuid
  nlf_tax_amount :: "string option"
  nlf_advance_amount :: "string option"

definition EXPENSE_SUBTYPES :: "string list" where
  "EXPENSE_SUBTYPES = [''OPERATING_EXPENSE'', ''COST_OF_GOODS_SOLD'', ''NON_OPERATING_EXPENSE'', ''TAX_EXPENSE'']"

text \<open>The texts of parse errors come from the crates that parse; \<open>why\<close> gives them.\<close>

definition line_request ::
  "env \<Rightarrow> (string \<Rightarrow> string) \<Rightarrow> uuid option \<Rightarrow> uuid \<Rightarrow> uuid \<Rightarrow> new_line_form \<Rightarrow> rdb \<Rightarrow> app_error + claim_line" where
  "line_request E why user ledger_id claim_id form s =
     rbind (signed_in user) (\<lambda>user_id.
     rbind (ensure_writer (rcore s) user_id ledger_id) (\<lambda>_.
     rbind (load_claim s claim_id ledger_id) (\<lambda>(claim, status).
     if status \<noteq> Draft
     then Inl (Validation (''claim is in status '' @ quoted (claim_status_as_str status) @ '', only drafts accept new lines''))
     else
     rbind (ok_or (Validation (''bad amount: '' @ why (nlf_amount form))) (parse_dec E (nlf_amount form))) (\<lambda>amount.
     if amount \<le> 0 then Inl (Validation ''amount must be positive'')
     else
     let raw_tax = (case nlf_tax_amount form of Some v \<Rightarrow> v | None \<Rightarrow> ''0'');
         raw_advance = (case nlf_advance_amount form of Some v \<Rightarrow> v | None \<Rightarrow> ''0'') in
     rbind (ok_or (Validation (''bad tax_amount: '' @ why raw_tax)) (parse_dec E raw_tax)) (\<lambda>tax.
     rbind (ok_or (Validation (''bad advance_amount: '' @ why raw_advance)) (parse_dec E raw_advance)) (\<lambda>advance.
     rbind (ok_or (Validation (''bad date: '' @ why (nlf_txn_date form))) (parse_date E (nlf_txn_date form))) (\<lambda>d.
     rbind (ok_or (Validation ''gl_account not in ledger'')
              (find (\<lambda>a. a_id a = nlf_account form \<and> a_ledger a = ledger_id) (accounts (rcore s)))) (\<lambda>a.
     if a_subtype a \<notin> set EXPENSE_SUBTYPES
     then Inl (Validation (''gl account subtype '' @ quoted (a_subtype a) @ '' is not an EXPENSE''))
     else Inr \<lparr>rl_id = 0, rl_claim = claim_id, rl_date = d, rl_description = nlf_description form, rl_amount = amount,
               rl_account = nlf_account form, rl_tax = tax, rl_advance = advance\<rparr>))))))))"

definition add_line ::
  "env \<Rightarrow> (string \<Rightarrow> string) \<Rightarrow> uuid option \<Rightarrow> uuid \<Rightarrow> uuid \<Rightarrow> new_line_form \<Rightarrow> rdb \<Rightarrow> (app_error + unit) \<times> rdb" where
  "add_line E why user ledger_id claim_id form s =
     (case line_request E why user ledger_id claim_id form s of
        Inl e \<Rightarrow> (Inl e, s)
      | Inr r \<Rightarrow> (case insert_claim_line E r s of Inl e \<Rightarrow> (Inl (AppDb e), s) | Inr s1 \<Rightarrow> (Inr (), s1)))"

text \<open>
  The other way a line gets on a claim: \<^verbatim>\<open>document_ocr::apply\<close> copies a scanned receipt onto it.  The table
  \<^verbatim>\<open>document_ocr_results\<close> is written by the background recogniser and is an argument; the row that the handler
  then adds to the feedback corpus is in no table of the model.  The status of the claim is not looked at.
\<close>

record ocr_result =
  or_document :: uuid
  or_amount :: "decimal option"
  or_date :: "date option"
  or_merchant :: "string option"
  or_error :: "string option"

definition ensure_doc_mutation_access :: "db \<Rightarrow> uuid \<Rightarrow> uuid \<Rightarrow> app_error + unit" where
  "ensure_doc_mutation_access db user_id ledger_id =
     (if list_ex (\<lambda>u. u_id u = user_id \<and> u_role u = ''Admin'') (users db) then Inr ()
      else rbind (ensure_access db user_id ledger_id) (\<lambda>(_, role). if role = ''viewer'' then Inl NotFound else Inr ()))"

definition ocr_request :: "uuid option \<Rightarrow> uuid \<Rightarrow> uuid \<Rightarrow> uuid \<Rightarrow> ocr_result list \<Rightarrow> rdb \<Rightarrow> app_error + uuid \<times> claim_line" where
  "ocr_request user ledger_id doc_id claim_id ocr_results s =
     rbind (signed_in user) (\<lambda>user_id.
     rbind (ensure_doc_mutation_access (rcore s) user_id ledger_id) (\<lambda>_.
     rbind (ok_or (Validation ''OCR result not available'')
              (find (\<lambda>r. or_document r = doc_id \<and> or_error r = None) ocr_results)) (\<lambda>r.
     rbind (ok_or (Validation ''No amount in OCR result'') (or_amount r)) (\<lambda>amount.
     rbind (ok_or (Validation ''No date in OCR result'') (or_date r)) (\<lambda>d.
     if \<not> list_ex (\<lambda>c. cl_id c = claim_id \<and> cl_ledger c = ledger_id) (claims s) then Inl NotFound
     else
     rbind (ok_or (Validation (''No '' @ quoted ''Other Expense'' @ '' account found''))
              (find (\<lambda>a. a_ledger a = ledger_id \<and> a_name a = ''Other Expense'') (accounts (rcore s)))) (\<lambda>a.
     Inr (user_id,
          \<lparr>rl_id = 0, rl_claim = claim_id, rl_date = d,
           rl_description = (case or_merchant r of Some m \<Rightarrow> m | None \<Rightarrow> ''Receipt (OCR)''), rl_amount = amount,
           rl_account = a_id a, rl_tax = 0, rl_advance = 0\<rparr>)))))))"

definition apply_ocr :: "env \<Rightarrow> uuid option \<Rightarrow> uuid \<Rightarrow> uuid \<Rightarrow> uuid \<Rightarrow> ocr_result list \<Rightarrow> rdb \<Rightarrow> (app_error + unit) \<times> rdb" where
  "apply_ocr E user ledger_id doc_id claim_id ocr_results s =
     (case ocr_request user ledger_id doc_id claim_id ocr_results s of
        Inl e \<Rightarrow> (Inl e, s)
      | Inr (user_id, r) \<Rightarrow>
          (case insert_claim_line E r s of
             Inl e \<Rightarrow> (Inl (AppDb e), s)
           | Inr s1 \<Rightarrow>
               (Inr (), log_core E ledger_id user_id ''apply'' ''document.ocr'' (Some doc_id)
                  (Some (JObj [(''claim_id'', JUuid claim_id), (''amount'', JDec (rl_amount r))])) s1)))"

definition submit :: "(json \<Rightarrow> decimal option) \<Rightarrow> uuid option \<Rightarrow> uuid \<Rightarrow> uuid \<Rightarrow> rdb \<Rightarrow> (app_error + unit) \<times> rdb" where
  "submit de user ledger_id claim_id s =
     (case
        rbind (signed_in user) (\<lambda>user_id.
        rbind (ensure_writer (rcore s) user_id ledger_id) (\<lambda>_.
        rbind (load_claim s claim_id ledger_id) (\<lambda>(claim, status).
        if \<not> can_transition_to status Submitted
        then Inl (Validation (''claim cannot be submitted from status '' @ quoted (claim_status_as_str status)))
        else if lines_of_claim s claim_id = [] then Inl (Validation ''cannot submit an empty claim'')
        else rbind (check_policies de s claim_id) (\<lambda>_. Inr user_id)))) of
        Inl e \<Rightarrow> (Inl e, s)
      | Inr user_id \<Rightarrow> (Inr (), update_status claim_id user_id Submitted None s))"

definition reject :: "uuid option \<Rightarrow> uuid \<Rightarrow> uuid \<Rightarrow> string \<Rightarrow> rdb \<Rightarrow> (app_error + unit) \<times> rdb" where
  "reject user ledger_id claim_id reason s =
     (case
        rbind (signed_in user) (\<lambda>user_id.
        rbind (ensure_writer (rcore s) user_id ledger_id) (\<lambda>_.
        rbind (load_claim s claim_id ledger_id) (\<lambda>(claim, status).
        if \<not> can_transition_to status Rejected
        then Inl (Validation (''claim cannot be rejected from status '' @ quoted (claim_status_as_str status)))
        else if trim reason = [] then Inl (Validation ''rejection reason is required'')
        else Inr user_id))) of
        Inl e \<Rightarrow> (Inl e, s)
      | Inr user_id \<Rightarrow>
          (Inr (), update_status claim_id user_id Rejected (Some (JObj [(''reason'', JStr reason)]))
             (set_claim (\<lambda>c. cl_id c = claim_id \<and> cl_ledger c = ledger_id) (\<lambda>c. c\<lparr>cl_rejected_reason := Some (trim reason)\<rparr>) s)))"

section \<open>Approving\<close>

definition claim_total :: "rdb \<Rightarrow> uuid \<Rightarrow> decimal" where
  "claim_total s i = sum_list (map (\<lambda>l. rl_amount l + rl_tax l) (lines_of_claim s i))"

definition advance_total :: "rdb \<Rightarrow> uuid \<Rightarrow> decimal" where
  "advance_total s i = sum_list (map rl_advance (lines_of_claim s i))"

definition first_account :: "db \<Rightarrow> uuid \<Rightarrow> string \<Rightarrow> string \<Rightarrow> uuid option" where
  "first_account db ledger_id ty st =
     map_option a_id (find (\<lambda>a. a_ledger a = ledger_id \<and> a_type a = ty \<and> a_subtype a = st) (accounts db))"

text \<open>\<^verbatim>\<open>GROUP BY gl_account_id\<close>: account, expense net of advances, tax.\<close>

definition grouped_lines :: "claim_line list \<Rightarrow> (uuid \<times> decimal \<times> decimal) list" where
  "grouped_lines ls =
     map (\<lambda>a. (a, sum_list (map (\<lambda>l. rl_amount l - rl_advance l) (filter (\<lambda>l. rl_account l = a) ls)),
                  sum_list (map rl_tax (filter (\<lambda>l. rl_account l = a) ls)))) (remdups (map rl_account ls))"

definition claim_txn :: "uuid \<Rightarrow> date \<Rightarrow> string \<Rightarrow> claim_row \<Rightarrow> uuid \<Rightarrow> txn_row" where
  "claim_txn ledger_id d description claim user_id =
     \<lparr>t_id = 0, t_ledger = ledger_id, t_date = d, t_description = description, t_payee = Some (cl_employee_name claim),
      t_reference = Some (cl_short_id claim), t_currency = cl_currency claim, t_kind = ''standard'', t_created_by = user_id,
      t_created_at = 0, t_reverses = None, t_number = None\<rparr>"

text \<open>The postings in the order in which they are inserted.\<close>

definition expense_postings :: "uuid \<Rightarrow> (uuid \<times> decimal \<times> decimal) list \<Rightarrow> posting_row list" where
  "expense_postings txn grouped =
     concat (map (\<lambda>(a, net, tax). plain_posting txn a net ''DEBIT''
                    # (if 0 < tax then [plain_posting txn a tax ''DEBIT''] else [])) grouped)"

definition approval_postings :: "db \<Rightarrow> uuid \<Rightarrow> uuid \<Rightarrow> uuid \<Rightarrow> (uuid \<times> decimal \<times> decimal) list \<Rightarrow> decimal \<Rightarrow> posting_row list" where
  "approval_postings db ledger_id txn payable grouped advance =
     expense_postings txn grouped
   @ (if 0 < advance
      then (case first_account db ledger_id ''ASSET'' ''EMPLOYEE_ADVANCE'' of
              Some a \<Rightarrow> [plain_posting txn a advance ''CREDIT''] | None \<Rightarrow> [])
      else [])
   @ [plain_posting txn payable (sum_list (map (\<lambda>(_, net, _). net) grouped) - advance) ''CREDIT'']"

datatype approve_outcome = AlreadyApproved | PartlyApproved | FullApproval uuid

definition post_approval :: "env \<Rightarrow> uuid \<Rightarrow> uuid \<Rightarrow> claim_row \<Rightarrow> int \<Rightarrow> decimal \<Rightarrow> (rdb, app_error, approve_outcome) tx" where
  "post_approval E ledger_id user_id claim level tot s =
     (let ls = lines_of_claim s (cl_id claim); grouped = grouped_lines ls; advance = advance_total s (cl_id claim) in
      rbind (ok_or (Internal ''no EMPLOYEE_PAYABLE account in ledger; create one before approving'')
               (first_account (rcore s) ledger_id ''LIABILITY'' ''EMPLOYEE_PAYABLE'')) (\<lambda>payable.
      if grouped = [] then Inl (Validation ''no lines on claim to approve'')
      else
      rbind (map_err AppDb (insert_transaction E
               (claim_txn ledger_id (Min (set (map rl_date ls))) (''Reimbursement '' @ cl_short_id claim) claim user_id) (rcore s)))
        (\<lambda>(txn, db1).
      rbind (map_err AppDb (add_postings E (approval_postings (rcore s) ledger_id txn payable grouped advance) db1)) (\<lambda>db2.
      Inr (FullApproval txn,
           log_event (cl_id claim) user_id ''approve''
             (JObj [(''txn_id'', JUuid txn), (''total'', JDec tot), (''tax'', JDec (sum_list (map (\<lambda>(_, _, t). t) grouped))),
                    (''level'', JNum (of_int level)), (''status'', JStr ''fully_approved'')])
             (set_claim (\<lambda>c. cl_id c = cl_id claim \<and> cl_ledger c = ledger_id)
                (\<lambda>c. c\<lparr>cl_status := ''fully_approved'', cl_approved_by := Some user_id, cl_approved_at := Some (now E)\<rparr>)
                (s\<lparr>rcore := db2\<rparr>)))))))"

definition insert_step :: "uuid \<Rightarrow> int \<Rightarrow> uuid \<Rightarrow> rdb \<Rightarrow> db_error + rdb" where
  "insert_step claim_id level user_id s =
     (if list_ex (\<lambda>x. st_claim x = claim_id \<and> st_level x = level \<and> st_approver x = user_id) (approval_steps s)
      then Inl (UniqueViolation ''reimbursement_approval_steps_claim_id_level_approver_id_key'')
      else Inr (s\<lparr>approval_steps := approval_steps s @ [\<lparr>st_claim = claim_id, st_level = level, st_approver = user_id\<rparr>]\<rparr>))"

definition approve_body ::
  "env \<Rightarrow> (int \<Rightarrow> int list \<Rightarrow> string) \<Rightarrow> uuid \<Rightarrow> uuid \<Rightarrow> claim_row \<Rightarrow> int \<Rightarrow> (rdb, app_error, approve_outcome) tx" where
  "approve_body E not_required ledger_id user_id claim level s =
     (let tot = claim_total s (cl_id claim); required = required_levels s ledger_id tot in
      if level \<notin> set required then Inl (Validation (not_required level required))
      else if level \<in> set (recorded_levels s (cl_id claim)) then Inr (AlreadyApproved, s)
      else if user_id \<notin> set (eligible_approvers (rcore s) ledger_id (approver_role_for_level s ledger_id level tot)) then Inl Forbidden
      else if 1 < ledger_user_count (rcore s) ledger_id \<and> cl_employee claim = user_id
        then Inl (ForbiddenMsg ''Authors cannot approve their own claims.'')
      else
      rbind (map_err AppDb (insert_step (cl_id claim) level user_id s)) (\<lambda>s1.
      if list_all (\<lambda>l. l \<in> set (recorded_levels s1 (cl_id claim))) required
      then post_approval E ledger_id user_id claim level tot s1
      else Inr (PartlyApproved,
             log_event (cl_id claim) user_id ''approve''
               (JObj [(''level'', JNum (of_int level)), (''status'', JStr ''partially_approved'')])
               (set_claim (\<lambda>c. cl_id c = cl_id claim \<and> cl_ledger c = ledger_id) (\<lambda>c. c\<lparr>cl_status := ''partially_approved''\<rparr>) s1))))"

definition approve_request ::
  "(json \<Rightarrow> decimal option) \<Rightarrow> uuid option \<Rightarrow> uuid \<Rightarrow> uuid \<Rightarrow> int option \<Rightarrow> rdb \<Rightarrow> app_error + uuid \<times> claim_row \<times> int" where
  "approve_request de user ledger_id claim_id query s =
     rbind (signed_in user) (\<lambda>user_id.
     rbind (ensure_access (rcore s) user_id ledger_id) (\<lambda>_.
     rbind (load_claim s claim_id ledger_id) (\<lambda>(claim, status).
     if status = FullyApproved \<or> status = Approved then Inl (Conflict ''claim is already approved'')
     else if status \<noteq> Submitted \<and> status \<noteq> PartiallyApproved
     then Inl (Validation (''claim cannot be approved from status '' @ quoted (claim_status_as_str status)))
     else
     rbind (check_policies de s claim_id) (\<lambda>_.
     let level = (case query of Some l \<Rightarrow> l | None \<Rightarrow> 1) in
     if level < 1 then Inl (Validation ''level must be >= 1'') else Inr (user_id, claim, level)))))"

definition approve_claim ::
  "env \<Rightarrow> (json \<Rightarrow> decimal option) \<Rightarrow> (int \<Rightarrow> int list \<Rightarrow> string) \<Rightarrow> uuid option \<Rightarrow> uuid \<Rightarrow> uuid \<Rightarrow> int option \<Rightarrow> rdb
   \<Rightarrow> (app_error + unit) \<times> rdb" where
  "approve_claim E de not_required user ledger_id claim_id query s =
     (case approve_request de user ledger_id claim_id query s of
        Inl e \<Rightarrow> (Inl e, s)
      | Inr (user_id, claim, level) \<Rightarrow>
          (case run_tx (approve_body E not_required ledger_id user_id claim level) s of
             (Inl e, s1) \<Rightarrow> (Inl e, s1)
           | (Inr AlreadyApproved, s1) \<Rightarrow> (Inr (), s1)
           | (Inr PartlyApproved, s1) \<Rightarrow>
               (Inr (), log_core E ledger_id user_id ''reimbursement.approve'' ''reimbursement_claim'' (Some claim_id)
                  (Some (JObj [(''level'', JNum (of_int level)), (''status'', JStr ''partially_approved'')])) s1)
           | (Inr (FullApproval txn), s1) \<Rightarrow>
               (Inr (), log_core E ledger_id user_id ''reimbursement.approve'' ''reimbursement_claim'' (Some claim_id)
                  (Some (JObj [(''txn_id'', JUuid txn), (''level'', JNum (of_int level)), (''status'', JStr ''fully_approved'')])) s1)))"

section \<open>Paying\<close>

definition payout_ok :: "account_row \<Rightarrow> bool" where
  "payout_ok a \<longleftrightarrow>
     \<not> (a_type a \<noteq> ''ASSET''
        \<or> a_subtype a \<notin> {''CURRENT_ASSET'', ''OTHER_ASSET'', ''EMPLOYEE_ADVANCE''}
          \<and> \<not> (contains_str ''cash'' (to_lowercase (a_subtype a)) \<or> contains_str ''bank'' (to_lowercase (a_subtype a))))"

definition pay_request :: "uuid option \<Rightarrow> uuid \<Rightarrow> uuid \<Rightarrow> uuid \<Rightarrow> rdb \<Rightarrow> app_error + uuid \<times> claim_row" where
  "pay_request user ledger_id claim_id payout s =
     rbind (signed_in user) (\<lambda>user_id.
     rbind (ensure_writer (rcore s) user_id ledger_id) (\<lambda>_.
     rbind (load_claim s claim_id ledger_id) (\<lambda>(claim, status).
     if \<not> can_transition_to status Paid
     then Inl (Validation (''claim cannot be paid from status '' @ quoted (claim_status_as_str status)))
     else
     rbind (ok_or (Validation ''payout account not in ledger'')
              (find (\<lambda>a. a_id a = payout \<and> a_ledger a = ledger_id) (accounts (rcore s)))) (\<lambda>a.
     if payout_ok a then Inr (user_id, claim)
     else Inl (Validation (''payout account must be cash or bank (subtype='' @ a_subtype a @ '', type='' @ a_type a @ '')''))))))"

text \<open>The newest transaction with the claim's reference, and what it credits to employee payables.\<close>

definition claim_booking :: "db \<Rightarrow> uuid \<Rightarrow> string \<Rightarrow> uuid option" where
  "claim_booking db ledger_id short =
     (case sort_key (\<lambda>t. - t_created_at t) (filter (\<lambda>t. t_ledger t = ledger_id \<and> t_reference t = Some short) (transactions db)) of
        [] \<Rightarrow> None | t # _ \<Rightarrow> Some (t_id t))"

definition payable_credit :: "db \<Rightarrow> uuid \<Rightarrow> decimal" where
  "payable_credit db txn =
     sum_list (map p_amount (filter (\<lambda>p. is_credit p
       \<and> list_ex (\<lambda>a. a_id a = p_account p \<and> a_subtype a = ''EMPLOYEE_PAYABLE'') (accounts db)) (postings_of db txn)))"

definition pay_body :: "env \<Rightarrow> uuid \<Rightarrow> uuid \<Rightarrow> claim_row \<Rightarrow> uuid \<Rightarrow> (rdb, app_error, unit) tx" where
  "pay_body E ledger_id user_id claim payout s =
     (let db = rcore s; r = claim_txn ledger_id (today E) (''Reimbursement payout '' @ cl_short_id claim) claim user_id in
      rbind (ok_or (Internal ''no EMPLOYEE_PAYABLE account in ledger'')
               (first_account db ledger_id ''LIABILITY'' ''EMPLOYEE_PAYABLE'')) (\<lambda>payable.
      rbind (ok_or (Internal ''no approved transaction found for claim'') (claim_booking db ledger_id (cl_short_id claim))) (\<lambda>txn_id.
      let net_payable = payable_credit db txn_id in
      rbind (map_err AppDb (insert_transaction E r db)) (\<lambda>(_, db1).
      rbind (map_err AppDb (insert_transaction E r db1)) (\<lambda>(txn, db2).
      rbind (map_err AppDb (add_postings E
               [plain_posting txn payable net_payable ''DEBIT'', plain_posting txn payout net_payable ''CREDIT''] db2)) (\<lambda>db3.
      Inr ((), log_event (cl_id claim) user_id ''pay'' (JObj [(''payout_txn_id'', JUuid txn)])
                 (set_claim (\<lambda>c. cl_id c = cl_id claim \<and> cl_ledger c = ledger_id)
                    (\<lambda>c. c\<lparr>cl_status := ''paid'', cl_paid_at := Some (now E), cl_payout_account := Some payout\<rparr>)
                    (s\<lparr>rcore := db3\<rparr>)))))))))"

definition pay :: "env \<Rightarrow> uuid option \<Rightarrow> uuid \<Rightarrow> uuid \<Rightarrow> uuid \<Rightarrow> rdb \<Rightarrow> (app_error + unit) \<times> rdb" where
  "pay E user ledger_id claim_id payout s =
     (case pay_request user ledger_id claim_id payout s of
        Inl e \<Rightarrow> (Inl e, s)
      | Inr (user_id, claim) \<Rightarrow>
          (case run_tx (pay_body E ledger_id user_id claim payout) s of
             (Inl e, s1) \<Rightarrow> (Inl e, s1)
           | (Inr _, s1) \<Rightarrow>
               (Inr (), log_core E ledger_id user_id ''reimbursement.pay'' ''reimbursement_claim'' (Some claim_id) None s1)))"

section \<open>Approval policies\<close>

record new_policy_form =
  npf_name :: string
  npf_min_amount :: decimal
  npf_approver_role :: string
  npf_level :: int

definition insert_approval_policy :: "env \<Rightarrow> approval_policy_row \<Rightarrow> rdb \<Rightarrow> db_error + rdb" where
  "insert_approval_policy E r s =
     (case numeric_col 20 4 (ap_min r) of None \<Rightarrow> Inl NumericOverflow
      | Some m \<Rightarrow>
          (let (i, db1) = draw E (rcore s) in
           if list_ex (\<lambda>p. ap_id p = i) (approval_policies s) then Inl (UniqueViolation ''reimbursement_approval_policies_pkey'')
           else if m < 0 then Inl (CheckViolation ''reimbursement_approval_policies_min_amount_check'')
           else if ap_role r \<notin> {''Admin'', ''Accountant''} then Inl (CheckViolation ''reimbursement_approval_policies_approver_role_check'')
           else if ap_level r < 1 then Inl (CheckViolation ''reimbursement_approval_policies_level_check'')
           else Inr (s\<lparr>rcore := db1, approval_policies := approval_policies s @ [r\<lparr>ap_id := i, ap_min := m\<rparr>]\<rparr>)))"

text \<open>\<open>Some\<close> is the form shown again with a message, \<open>None\<close> the redirect.\<close>

definition policy_form_error :: "new_policy_form \<Rightarrow> string option" where
  "policy_form_error form =
     (if trim (npf_name form) = [] then Some ''name is required''
      else if npf_level form < 1 then Some ''level must be >= 1''
      else if npf_min_amount form < 0 then Some ''min_amount must be >= 0''
      else if npf_approver_role form \<noteq> ''Admin'' \<and> npf_approver_role form \<noteq> ''Accountant''
        then Some ''approver_role must be Admin or Accountant''
      else None)"

definition create_policy :: "env \<Rightarrow> uuid option \<Rightarrow> uuid \<Rightarrow> new_policy_form \<Rightarrow> rdb \<Rightarrow> (app_error + string option) \<times> rdb" where
  "create_policy E user ledger_id form s =
     (case rbind (signed_in user) (\<lambda>user_id. rbind (ensure_owner (rcore s) user_id ledger_id) (\<lambda>_. Inr user_id)) of
        Inl e \<Rightarrow> (Inl e, s)
      | Inr user_id \<Rightarrow>
          (case policy_form_error form of
             Some m \<Rightarrow> (Inr (Some m), s)
           | None \<Rightarrow>
               (case insert_approval_policy E
                  \<lparr>ap_id = 0, ap_ledger = ledger_id, ap_name = trim (npf_name form), ap_min = npf_min_amount form,
                   ap_role = npf_approver_role form, ap_level = npf_level form\<rparr> s of
                  Inl e \<Rightarrow> (Inl (AppDb e), s)
                | Inr s1 \<Rightarrow>
                    (Inr None, log_core E ledger_id user_id ''approval_policy.create'' ''reimbursement_approval_policy'' None
                       (Some (JObj [(''name'', JStr (npf_name form)), (''min_amount'', JDec (npf_min_amount form)),
                                    (''approver_role'', JStr (npf_approver_role form)), (''level'', JNum (of_int (npf_level form)))])) s1))))"

definition delete_policy :: "env \<Rightarrow> uuid option \<Rightarrow> uuid \<Rightarrow> uuid \<Rightarrow> rdb \<Rightarrow> (app_error + unit) \<times> rdb" where
  "delete_policy E user ledger_id policy_id s =
     (case rbind (signed_in user) (\<lambda>user_id. rbind (ensure_owner (rcore s) user_id ledger_id) (\<lambda>_. Inr user_id)) of
        Inl e \<Rightarrow> (Inl e, s)
      | Inr user_id \<Rightarrow>
          (Inr (), log_core E ledger_id user_id ''approval_policy.delete'' ''reimbursement_approval_policy'' (Some policy_id) None
             (s\<lparr>approval_policies := filter (\<lambda>p. \<not> (ap_id p = policy_id \<and> ap_ledger p = ledger_id)) (approval_policies s)\<rparr>)))"

end
