(* ===== verification/Reimbursement_Properties.thy ===== *)
theory Reimbursement_Properties
  imports Reimbursement
begin

text \<open>
  What the expense-claim handlers guarantee: the documented state machine is refined by every handler, an
  approval is given by somebody entitled to it, and what an approval and a payout book.
\<close>

section \<open>The life of a claim\<close>

lemma parse_claim_status_as_str [simp]: "parse_claim_status (claim_status_as_str st) = Some st"
  by (cases st) (simp_all add: parse_claim_status_def)

lemma parse_claim_status_Some: "parse_claim_status t = Some st \<Longrightarrow> t = claim_status_as_str st"
  by (auto simp: parse_claim_status_def split: if_splits)

definition moves :: "claim_status \<Rightarrow> claim_status \<Rightarrow> bool" where
  "moves a b \<longleftrightarrow> can_transition_to a b \<and> b \<noteq> Draft"

definition same_claim :: "claim_row \<Rightarrow> claim_row \<Rightarrow> bool" where
  "same_claim c c' \<longleftrightarrow>
     cl_id c' = cl_id c \<and> cl_ledger c' = cl_ledger c \<and> cl_short_id c' = cl_short_id c \<and> cl_employee c' = cl_employee c
   \<and> cl_currency c' = cl_currency c"

definition evolves :: "claim_row \<Rightarrow> claim_row \<Rightarrow> bool" where
  "evolves c c' \<longleftrightarrow> same_claim c c'
   \<and> (cl_status c' = cl_status c
      \<or> (\<exists>a b. parse_claim_status (cl_status c) = Some a \<and> cl_status c' = claim_status_as_str b \<and> moves a b))"

definition claims_ok :: "rdb \<Rightarrow> bool" where
  "claims_ok s \<longleftrightarrow> distinct (map cl_id (claims s)) \<and> list_all (\<lambda>c. parse_claim_status (cl_status c) \<noteq> None) (claims s)"

text \<open>What one handler may change; \<open>X\<close> holds the claims that a scanned receipt may be put on.\<close>

definition advances :: "uuid set \<Rightarrow> rdb \<Rightarrow> rdb \<Rightarrow> bool" where
  "advances X s s' \<longleftrightarrow>
     (\<exists>cs new. claims s' = cs @ new \<and> list_all2 evolves (claims s) cs \<and> list_all (\<lambda>c. cl_status c = ''draft'') new)
   \<and> distinct (map cl_id (claims s'))
   \<and> (\<exists>ls. claim_lines s' = claim_lines s @ ls)
   \<and> (\<forall>c\<in>set (claims s). cl_status c \<noteq> ''draft'' \<longrightarrow> cl_id c \<notin> X \<longrightarrow> lines_of_claim s' (cl_id c) = lines_of_claim s (cl_id c))"

lemma advancesI:
  assumes "claims s' = cs @ new" and "list_all2 evolves (claims s) cs" and "list_all (\<lambda>c. cl_status c = ''draft'') new"
    and "distinct (map cl_id (claims s'))" and "claim_lines s' = claim_lines s @ ls"
    and "\<And>c. c \<in> set (claims s) \<Longrightarrow> cl_status c \<noteq> ''draft'' \<Longrightarrow> cl_id c \<notin> X \<Longrightarrow> lines_of_claim s' (cl_id c) = lines_of_claim s (cl_id c)"
  shows "advances X s s'"
  unfolding advances_def using assms by blast

lemma evolves_refl [simp]: "evolves c c"
  by (simp add: evolves_def same_claim_def)

lemma advances_map:
  assumes "claims_ok s" and g: "claims s' = map g (claims s)" "\<And>c. c \<in> set (claims s) \<Longrightarrow> evolves c (g c)"
    and "claim_lines s' = claim_lines s"
  shows "advances {} s s'"
proof -
  have "map cl_id (claims s') = map cl_id (claims s)" using g by (auto simp: evolves_def same_claim_def)
  then have "distinct (map cl_id (claims s'))" using assms(1) by (simp add: claims_ok_def)
  moreover have "list_all2 evolves (claims s) (map g (claims s))" using g(2) by (auto simp: list_all2_conv_all_nth)
  ultimately show ?thesis using advancesI [of s' "map g (claims s)" "[]" s "[]"] assms(4) g(1) by (simp add: lines_of_claim_def)
qed

lemma advances_same: "claims_ok s \<Longrightarrow> claims s' = claims s \<Longrightarrow> claim_lines s' = claim_lines s \<Longrightarrow> advances {} s s'"
  by (rule advances_map [of s s' id]) auto

lemma load_claim_Inr:
  assumes "load_claim s i l = Inr (c, st)"
  shows "c \<in> set (claims s) \<and> cl_id c = i \<and> cl_ledger c = l \<and> parse_claim_status (cl_status c) = Some st"
  using assms find_Some_mem by (fastforce simp: load_claim_def result_simps)

lemma claim_unique: "claims_ok s \<Longrightarrow> c \<in> set (claims s) \<Longrightarrow> d \<in> set (claims s) \<Longrightarrow> cl_id c = cl_id d \<Longrightarrow> c = d"
  by (auto simp: claims_ok_def distinct_map inj_on_def)

text \<open>A handler that moves the claim it loaded.\<close>

lemma advances_move:
  assumes "claims_ok s" and "load_claim s i l = Inr (c, st)" and "moves st b"
    and g: "claims s' = map g (claims s)" "\<And>x. cl_id x \<noteq> i \<Longrightarrow> g x = x" "same_claim c (g c)" "cl_status (g c) = claim_status_as_str b"
    and "claim_lines s' = claim_lines s"
  shows "advances {} s s'"
proof (rule advances_map [OF assms(1) g(1) _ assms(8)])
  fix x assume x: "x \<in> set (claims s)"
  note c = load_claim_Inr [OF assms(2)]
  show "evolves x (g x)"
  proof (cases "cl_id x = i")
    case True
    then have "x = c" using claim_unique [OF assms(1) x, of c] c by simp
    then show ?thesis unfolding evolves_def using g(3,4) c assms(3) by blast
  qed (simp add: g(2))
qed

lemma log_frame [simp]:
  "claims (log_core E l u a e i n s) = claims s" "claim_lines (log_core E l u a e i n s) = claim_lines s"
  "approval_steps (log_core E l u a e i n s) = approval_steps s"
  "claims (log_event c u e p s) = claims s" "claim_lines (log_event c u e p s) = claim_lines s"
  "approval_steps (log_event c u e p s) = approval_steps s" "rcore (log_event c u e p s) = rcore s"
  "claim_lines (set_claim P f s) = claim_lines s" "rcore (set_claim P f s) = rcore s"
  "approval_steps (set_claim P f s) = approval_steps s"
  "claims (set_claim P f s) = map (\<lambda>c. if P c then f c else c) (claims s)"
  by (simp_all add: log_core_def log_event_def set_claim_def)

lemma create_claim_advances:
  assumes "claims_ok s"
  shows "advances {} s (snd (create_claim E user l form s))"
proof -
  have "advances {} s (log_core E l u a e i n (log_event j u' e' p s1))"
    if "insert_claim r (s\<lparr>rcore := db\<rparr>) = Inr s1" "cl_status r = ''draft''" for r s1 db u a e i n j u' e' p
  proof -
    from that obtain x where s1: "claims s1 = claims s @ [x]" "claim_lines s1 = claim_lines s" "cl_status x = ''draft''"
      "cl_id x \<notin> cl_id ` set (claims s)"
      by (auto simp: insert_claim_def list_ex_key split: option.splits if_splits)
    show ?thesis
      by (rule advancesI [of _ "claims s" "[x]" _ "[]"]) (use assms s1 in \<open>simp_all add: claims_ok_def lines_of_claim_def list_all2_same\<close>)
  qed
  then show ?thesis
    using advances_same [OF assms] by (auto simp: create_claim_def draw_def Let_def split: sum.splits)
qed

lemma add_line_advances:
  assumes "claims_ok s"
  shows "advances {} s (snd (add_line E why user l i form s))"
proof -
  have "advances {} s s1" if r: "line_request E why user l i form s = Inr r" and ins: "insert_claim_line E r s = Inr s1" for r s1
  proof -
    from r obtain c where c: "load_claim s i l = Inr (c, Draft)" and ri: "rl_claim r = i"
      by (auto simp: line_request_def Let_def result_simps split: if_splits)
    from ins obtain x where s1: "claims s1 = claims s" "claim_lines s1 = claim_lines s @ [x]" "rl_claim x = i"
      using ri by (auto simp: insert_claim_line_def draw_def Let_def split: option.splits if_splits)
    have new: "i \<noteq> cl_id d" if "d \<in> set (claims s)" "cl_status d \<noteq> ''draft''" for d
    proof
      assume "i = cl_id d"
      then have "d = c" using claim_unique [OF assms that(1), of c] load_claim_Inr [OF c] by simp
      moreover have "cl_status c = claim_status_as_str Draft" using load_claim_Inr [OF c] by (intro parse_claim_status_Some) simp
      ultimately show False using that(2) by simp
    qed
    show ?thesis
      by (rule advancesI [of _ "claims s" "[]" _ "[x]"])
         (use assms s1 new in \<open>simp_all add: claims_ok_def lines_of_claim_def list_all2_same\<close>)
  qed
  then show ?thesis using advances_same [OF assms] by (auto simp: add_line_def split: sum.splits)
qed

lemma advances_mono: "advances X s s' \<Longrightarrow> X \<subseteq> Y \<Longrightarrow> advances Y s s'"
  unfolding advances_def by blast

lemma apply_ocr_advances:
  assumes "claims_ok s"
  shows "advances {i} s (snd (apply_ocr E user l d i ocr s))"
proof -
  have "advances {i} s (log_core E l u a e k n s1)"
    if r: "ocr_request user l d i ocr s = Inr (u, r)" and ins: "insert_claim_line E r s = Inr s1" for u r s1 a e k n
  proof -
    from r have "rl_claim r = i" by (auto simp: ocr_request_def result_simps split: if_splits)
    with ins obtain x where s1: "claims s1 = claims s" "claim_lines s1 = claim_lines s @ [x]" "rl_claim x = i"
      by (auto simp: insert_claim_line_def draw_def Let_def split: option.splits if_splits)
    show ?thesis
      by (rule advancesI [of _ "claims s" "[]" _ "[x]"])
         (use assms s1 in \<open>auto simp: claims_ok_def lines_of_claim_def list_all2_same log_core_def\<close>)
  qed
  then show ?thesis
    using advances_mono [OF advances_same [OF assms], of s "{i}"] by (auto simp: apply_ocr_def split: sum.splits prod.splits)
qed

lemma submit_advances:
  assumes "claims_ok s"
  shows "advances {} s (snd (submit de user l i s))"
proof (cases "snd (submit de user l i s) = s")
  case False
  then obtain u c st where c: "load_claim s i l = Inr (c, st)" "can_transition_to st Submitted"
    "snd (submit de user l i s) = update_status i u Submitted None s"
    by (auto simp: submit_def result_simps split: sum.splits if_splits)
  show ?thesis unfolding c(3)
    by (rule advances_move [OF assms c(1), of Submitted, where g = "\<lambda>x. if cl_id x = i then x\<lparr>cl_status := ''submitted''\<rparr> else x"])
       (use c(2) load_claim_Inr [OF c(1)] in \<open>auto simp: moves_def update_status_def same_claim_def\<close>)
qed (simp add: advances_same assms)

lemma reject_advances:
  assumes "claims_ok s"
  shows "advances {} s (snd (reject user l i reason s))"
proof (cases "snd (reject user l i reason s) = s")
  case False
  then obtain u p c st where c: "load_claim s i l = Inr (c, st)" "can_transition_to st Rejected"
    "snd (reject user l i reason s) = update_status i u Rejected p
       (set_claim (\<lambda>c. cl_id c = i \<and> cl_ledger c = l) (\<lambda>c. c\<lparr>cl_rejected_reason := Some (trim reason)\<rparr>) s)"
    by (auto simp: reject_def result_simps split: sum.splits if_splits)
  show ?thesis unfolding c(3)
    by (rule advances_move [OF assms c(1), of Rejected, where g = "\<lambda>x. if cl_id x = i
          then (if cl_ledger x = l then x\<lparr>cl_rejected_reason := Some (trim reason)\<rparr> else x)\<lparr>cl_status := ''rejected''\<rparr> else x"])
       (use c(2) load_claim_Inr [OF c(1)] in \<open>auto simp: moves_def update_status_def same_claim_def\<close>)
qed (simp add: advances_same assms)

section \<open>What an approval does\<close>

text \<open>The three ways in which an approval succeeds.\<close>

definition approval_guard :: "rdb \<Rightarrow> uuid \<Rightarrow> uuid \<Rightarrow> claim_row \<Rightarrow> int \<Rightarrow> bool" where
  "approval_guard s ledger_id user_id claim level \<longleftrightarrow>
     level \<in> set (required_levels s ledger_id (claim_total s (cl_id claim)))
   \<and> level \<notin> set (recorded_levels s (cl_id claim))
   \<and> user_id \<in> set (eligible_approvers (rcore s) ledger_id (approver_role_for_level s ledger_id level (claim_total s (cl_id claim))))
   \<and> (1 < ledger_user_count (rcore s) ledger_id \<longrightarrow> cl_employee claim \<noteq> user_id)"

definition with_step :: "rdb \<Rightarrow> uuid \<Rightarrow> int \<Rightarrow> uuid \<Rightarrow> rdb" where
  "with_step s i level u = s\<lparr>approval_steps := approval_steps s @ [\<lparr>st_claim = i, st_level = level, st_approver = u\<rparr>]\<rparr>"

lemma with_step_frame [simp]:
  "claims (with_step s i level u) = claims s" "claim_lines (with_step s i level u) = claim_lines s"
  "rcore (with_step s i level u) = rcore s" "approval_policies (with_step s i level u) = approval_policies s"
  "lines_of_claim (with_step s i level u) j = lines_of_claim s j" "advance_total (with_step s i level u) j = advance_total s j"
  by (simp_all add: with_step_def lines_of_claim_def advance_total_def)

lemma recorded_with_step: "set (recorded_levels (with_step s i level u) i) = insert level (set (recorded_levels s i))"
  by (auto simp: recorded_levels_def with_step_def)

lemma approve_body_Inr:
  assumes "approve_body E nr l u c level s = Inr (r, s')"
  obtains "r = AlreadyApproved" "s' = s"
  | "r = PartlyApproved" "approval_guard s l u c level"
    "claims s' = map (\<lambda>x. if cl_id x = cl_id c \<and> cl_ledger x = l then x\<lparr>cl_status := ''partially_approved''\<rparr> else x) (claims s)"
    "claim_lines s' = claim_lines s" "rcore s' = rcore s" "approval_steps s' = approval_steps (with_step s (cl_id c) level u)"
    "\<not> set (required_levels s l (claim_total s (cl_id c))) \<subseteq> insert level (set (recorded_levels s (cl_id c)))"
  | txn where "r = FullApproval txn" "approval_guard s l u c level"
    "set (required_levels s l (claim_total s (cl_id c))) \<subseteq> insert level (set (recorded_levels s (cl_id c)))"
    "post_approval E l u c level (claim_total s (cl_id c)) (with_step s (cl_id c) level u) = Inr (FullApproval txn, s')"
proof -
  let ?t = "claim_total s (cl_id c)" and ?s1 = "with_step s (cl_id c) level u"
  from assms have req: "level \<in> set (required_levels s l ?t)" by (auto simp: approve_body_def Let_def split: if_splits)
  show thesis
  proof (cases "level \<in> set (recorded_levels s (cl_id c))")
    case True
    with assms req show thesis by (intro that(1)) (simp_all add: approve_body_def Let_def)
  next
    case False
    with assms req have g: "approval_guard s l u c level"
      and b: "(if list_all (\<lambda>x. x \<in> set (recorded_levels ?s1 (cl_id c))) (required_levels s l ?t)
        then post_approval E l u c level ?t ?s1
        else Inr (PartlyApproved, log_event (cl_id c) u ''approve''
               (JObj [(''level'', JNum (of_int level)), (''status'', JStr ''partially_approved'')])
               (set_claim (\<lambda>x. cl_id x = cl_id c \<and> cl_ledger x = l) (\<lambda>x. x\<lparr>cl_status := ''partially_approved''\<rparr>) ?s1))) = Inr (r, s')"
      by (auto simp: approve_body_def approval_guard_def insert_step_def with_step_def Let_def result_simps split: if_splits)
    show thesis
    proof (cases "list_all (\<lambda>x. x \<in> set (recorded_levels ?s1 (cl_id c))) (required_levels s l ?t)")
      case True
      with b have p: "post_approval E l u c level ?t ?s1 = Inr (r, s')" by simp
      then obtain txn where "r = FullApproval txn" by (auto simp: post_approval_def Let_def result_simps split: if_splits)
      with p True g show thesis by (intro that(3)) (auto simp: list_all_iff recorded_with_step)
    next
      case False
      then have "\<not> set (required_levels s l ?t) \<subseteq> insert level (set (recorded_levels s (cl_id c)))"
        by (auto simp: list_all_iff recorded_with_step)
      with b g False show thesis by (intro that(2)) auto
    qed
  qed
qed

lemma post_approval_Inr:
  assumes "post_approval E l u c level t s = Inr (r, s')"
  obtains payable txn db1 db2 where "first_account (rcore s) l ''LIABILITY'' ''EMPLOYEE_PAYABLE'' = Some payable"
    and "r = FullApproval txn" and "grouped_lines (lines_of_claim s (cl_id c)) \<noteq> []"
    and "insert_transaction E (claim_txn l (Min (set (map rl_date (lines_of_claim s (cl_id c))))) (''Reimbursement '' @ cl_short_id c) c u) (rcore s)
       = Inr (txn, db1)"
    and "add_postings E
       (approval_postings (rcore s) l txn payable (grouped_lines (lines_of_claim s (cl_id c))) (advance_total s (cl_id c))) db1 = Inr db2"
    and "rcore s' = db2" and "claim_lines s' = claim_lines s" and "approval_steps s' = approval_steps s"
    and "claims s' = map (\<lambda>x. if cl_id x = cl_id c \<and> cl_ledger x = l
       then x\<lparr>cl_status := ''fully_approved'', cl_approved_by := Some u, cl_approved_at := Some (now E)\<rparr> else x) (claims s)"
  using assms by (auto simp: post_approval_def Let_def result_simps split: if_splits)

text \<open>The handler around the transaction adds an audit entry only.\<close>

lemma approve_claim_cases:
  obtains "snd (approve_claim E de nr user l i q s) = s"
  | u c level r s1 n where "approve_request de user l i q s = Inr (u, c, level)"
    "approve_body E nr l u c level s = Inr (r, s1)" "fst (approve_claim E de nr user l i q s) = Inr ()"
    "snd (approve_claim E de nr user l i q s) = (if r = AlreadyApproved then s1
       else log_core E l u ''reimbursement.approve'' ''reimbursement_claim'' (Some i) (Some n) s1)"
proof (cases "approve_request de user l i q s")
  case (Inl e)
  then show thesis by (intro that(1)) (simp add: approve_claim_def)
next
  case (Inr x)
  obtain u c level where x: "x = (u, c, level)" by (cases x)
  show thesis
  proof (cases "approve_body E nr l u c level s")
    case (Inl e)
    with Inr x show thesis by (intro that(1)) (simp add: approve_claim_def run_tx_def)
  next
    case (Inr y)
    obtain r s1 where y: "y = (r, s1)" by (cases y)
    show thesis
      by (rule that(2) [OF \<open>approve_request de user l i q s = Inr x\<close> [unfolded x] Inr [unfolded y],
            of "case r of FullApproval txn \<Rightarrow> JObj [(''txn_id'', JUuid txn), (''level'', JNum (of_int level)), (''status'', JStr ''fully_approved'')]
                | _ \<Rightarrow> JObj [(''level'', JNum (of_int level)), (''status'', JStr ''partially_approved'')]"])
         (use Inr \<open>approve_request de user l i q s = Inr x\<close> in
           \<open>simp_all add: approve_claim_def run_tx_def x y split: approve_outcome.split\<close>)
  qed
qed

lemma approve_request_Inr:
  assumes "approve_request de user l i q s = Inr (u, c, level)"
  obtains st where "load_claim s i l = Inr (c, st)" and "st = Submitted \<or> st = PartiallyApproved" and "user = Some u"
    and "check_policies de s i = Inr ()"
  using assms by (auto simp: approve_request_def signed_in_def Let_def result_simps split: if_splits)

lemma approve_advances:
  assumes "claims_ok s"
  shows "advances {} s (snd (approve_claim E de nr user l i q s))"
proof (rule approve_claim_cases [of E de nr user l i q s])
  assume "snd (approve_claim E de nr user l i q s) = s"
  then show ?thesis using advances_same [OF assms] by simp
next
  fix u c level r s1 n
  assume req: "approve_request de user l i q s = Inr (u, c, level)" and b: "approve_body E nr l u c level s = Inr (r, s1)"
    and s': "snd (approve_claim E de nr user l i q s) = (if r = AlreadyApproved then s1
       else log_core E l u ''reimbursement.approve'' ''reimbursement_claim'' (Some i) (Some n) s1)"
  then have frame: "claims (snd (approve_claim E de nr user l i q s)) = claims s1"
    "claim_lines (snd (approve_claim E de nr user l i q s)) = claim_lines s1" by simp_all
  from req obtain st where c: "load_claim s i l = Inr (c, st)" and st: "st = Submitted \<or> st = PartiallyApproved"
    by (rule approve_request_Inr)
  note id = load_claim_Inr [OF c]
  from b show ?thesis
  proof (rule approve_body_Inr)
    assume "s1 = s"
    then show ?thesis using advances_same [OF assms] frame by simp
  next
    assume "claims s1 = map (\<lambda>x. if cl_id x = cl_id c \<and> cl_ledger x = l then x\<lparr>cl_status := ''partially_approved''\<rparr> else x) (claims s)"
      "claim_lines s1 = claim_lines s"
    then show ?thesis using id st
      by (intro advances_move [OF assms c, of PartiallyApproved, where g =
            "\<lambda>x. if cl_id x = cl_id c \<and> cl_ledger x = l then x\<lparr>cl_status := ''partially_approved''\<rparr> else x"])
         (auto simp: moves_def same_claim_def frame)
  next
    fix txn
    assume "post_approval E l u c level (claim_total s (cl_id c)) (with_step s (cl_id c) level u) = Inr (FullApproval txn, s1)"
    then show ?thesis
    proof (rule post_approval_Inr)
      assume "claims s1 = map (\<lambda>x. if cl_id x = cl_id c \<and> cl_ledger x = l
         then x\<lparr>cl_status := ''fully_approved'', cl_approved_by := Some u, cl_approved_at := Some (now E)\<rparr> else x)
           (claims (with_step s (cl_id c) level u))" "claim_lines s1 = claim_lines (with_step s (cl_id c) level u)"
      then show ?thesis using id st
        by (intro advances_move [OF assms c, of FullyApproved, where g = "\<lambda>x. if cl_id x = cl_id c \<and> cl_ledger x = l
              then x\<lparr>cl_status := ''fully_approved'', cl_approved_by := Some u, cl_approved_at := Some (now E)\<rparr> else x"])
           (auto simp: moves_def same_claim_def frame)
    qed
  qed
qed

lemma pay_body_Inr:
  assumes "pay_body E l u c payout s = Inr (x, s')"
  obtains payable booking t1 db1 t2 db2 where "first_account (rcore s) l ''LIABILITY'' ''EMPLOYEE_PAYABLE'' = Some payable"
    and "claim_booking (rcore s) l (cl_short_id c) = Some booking"
    and "insert_transaction E (claim_txn l (today E) (''Reimbursement payout '' @ cl_short_id c) c u) (rcore s) = Inr (t1, db1)"
    and "insert_transaction E (claim_txn l (today E) (''Reimbursement payout '' @ cl_short_id c) c u) db1 = Inr (t2, db2)"
    and "add_postings E
       [plain_posting t2 payable (payable_credit (rcore s) booking) ''DEBIT'',
        plain_posting t2 payout (payable_credit (rcore s) booking) ''CREDIT''] db2 = Inr (rcore s')"
    and "claim_lines s' = claim_lines s"
    and "claims s' = map (\<lambda>x. if cl_id x = cl_id c \<and> cl_ledger x = l
       then x\<lparr>cl_status := ''paid'', cl_paid_at := Some (now E), cl_payout_account := Some payout\<rparr> else x) (claims s)"
  using assms unfolding pay_body_def Let_def by (auto simp: result_simps)

lemma pay_cases:
  obtains e where "pay E user l i payout s = (Inl e, s)"
  | u c st s1 where "load_claim s i l = Inr (c, st)" "can_transition_to st Paid" "user = Some u"
    "pay_body E l u c payout s = Inr ((), s1)"
    "pay E user l i payout s = (Inr (), log_core E l u ''reimbursement.pay'' ''reimbursement_claim'' (Some i) None s1)"
proof (cases "pay_request user l i payout s")
  case (Inl e)
  then show thesis by (intro that(1)) (simp add: pay_def)
next
  case (Inr x)
  obtain u c where x: "x = (u, c)" by (cases x)
  obtain st where st: "load_claim s i l = Inr (c, st)" "can_transition_to st Paid" "user = Some u"
    using Inr x by (auto simp: pay_request_def signed_in_def result_simps split: if_splits)
  show thesis
  proof (cases "pay_body E l u c payout s")
    case (Inl e)
    then show thesis using Inr x by (intro that(1)) (simp add: pay_def run_tx_def)
  next
    case (Inr y)
    then have "pay_body E l u c payout s = Inr ((), snd y)" by (cases y) simp
    then show thesis using \<open>pay_request user l i payout s = Inr x\<close> x
      by (intro that(2) [OF st, of "snd y"]) (simp_all add: pay_def run_tx_def)
  qed
qed

lemma pay_advances:
  assumes "claims_ok s"
  shows "advances {} s (snd (pay E user l i payout s))"
proof (rule pay_cases [of E user l i payout s])
  fix e assume "pay E user l i payout s = (Inl e, s)"
  then show ?thesis using advances_same [OF assms] by simp
next
  fix u c st s1
  assume c: "load_claim s i l = Inr (c, st)" "can_transition_to st Paid" and b: "pay_body E l u c payout s = Inr ((), s1)"
    and p: "pay E user l i payout s = (Inr (), log_core E l u ''reimbursement.pay'' ''reimbursement_claim'' (Some i) None s1)"
  from b show ?thesis
  proof (rule pay_body_Inr)
    assume "claim_lines s1 = claim_lines s" "claims s1 = map (\<lambda>x. if cl_id x = cl_id c \<and> cl_ledger x = l
       then x\<lparr>cl_status := ''paid'', cl_paid_at := Some (now E), cl_payout_account := Some payout\<rparr> else x) (claims s)"
    then show ?thesis using load_claim_Inr [OF c(1)] c(2)
      by (intro advances_move [OF assms c(1), of Paid, where g = "\<lambda>x. if cl_id x = cl_id c \<and> cl_ledger x = l
            then x\<lparr>cl_status := ''paid'', cl_paid_at := Some (now E), cl_payout_account := Some payout\<rparr> else x"])
         (auto simp: moves_def same_claim_def p)
  qed
qed

lemma create_policy_advances:
  assumes "claims_ok s"
  shows "advances {} s (snd (create_policy E user l form s))"
  by (rule advances_same [OF assms])
     (auto simp: create_policy_def insert_approval_policy_def draw_def Let_def split: sum.splits option.splits if_splits prod.splits)

lemma delete_policy_advances:
  assumes "claims_ok s"
  shows "advances {} s (snd (delete_policy E user l i s))"
  by (rule advances_same [OF assms]) (auto simp: delete_policy_def split: sum.splits)

text \<open>The handlers as commands, each with its own environment.\<close>

datatype claim_command =
    CreateClaim "uuid option" uuid new_claim_form
  | AddLine "uuid option" uuid uuid new_line_form
  | Submit "uuid option" uuid uuid
  | Approve "uuid option" uuid uuid "int option"
  | Reject "uuid option" uuid uuid string
  | Pay "uuid option" uuid uuid uuid
  | CreatePolicy "uuid option" uuid new_policy_form
  | DeletePolicy "uuid option" uuid uuid
  | ApplyOcr "uuid option" uuid uuid uuid "ocr_result list"

definition claim_step ::
  "(nat \<Rightarrow> env) \<Rightarrow> (json \<Rightarrow> decimal option) \<Rightarrow> (string \<Rightarrow> string) \<Rightarrow> (int \<Rightarrow> int list \<Rightarrow> string) \<Rightarrow> nat \<times> claim_command \<Rightarrow> rdb \<Rightarrow> rdb" where
  "claim_step Es de why nr c s =
     (case snd c of
        CreateClaim user l form \<Rightarrow> snd (create_claim (Es (fst c)) user l form s)
      | AddLine user l i form \<Rightarrow> snd (add_line (Es (fst c)) why user l i form s)
      | Submit user l i \<Rightarrow> snd (submit de user l i s)
      | Approve user l i q \<Rightarrow> snd (approve_claim (Es (fst c)) de nr user l i q s)
      | Reject user l i reason \<Rightarrow> snd (reject user l i reason s)
      | Pay user l i payout \<Rightarrow> snd (pay (Es (fst c)) user l i payout s)
      | CreatePolicy user l form \<Rightarrow> snd (create_policy (Es (fst c)) user l form s)
      | DeletePolicy user l i \<Rightarrow> snd (delete_policy (Es (fst c)) user l i s)
      | ApplyOcr user l d i ocr \<Rightarrow> snd (apply_ocr (Es (fst c)) user l d i ocr s))"

text \<open>The claim that a command puts a scanned receipt on.\<close>

definition scanned :: "nat \<times> claim_command \<Rightarrow> uuid set" where
  "scanned c = (case snd c of ApplyOcr user l d i ocr \<Rightarrow> {i} | _ \<Rightarrow> {})"

lemma claim_step_advances: "claims_ok s \<Longrightarrow> advances (scanned c) s (claim_step Es de why nr c s)"
  by (simp add: claim_step_def scanned_def create_claim_advances add_line_advances submit_advances approve_advances reject_advances
      pay_advances create_policy_advances delete_policy_advances apply_ocr_advances split: claim_command.split)

lemma evolves_status:
  assumes "evolves c c'" and "parse_claim_status (cl_status c) = Some a"
  shows "\<exists>b. parse_claim_status (cl_status c') = Some b \<and> (a = b \<or> moves a b)"
  using assms unfolding evolves_def by (metis option.inject parse_claim_status_as_str)

lemma advances_ok:
  assumes "claims_ok s" and "advances X s s'"
  shows "claims_ok s'"
proof -
  from assms(2) obtain cs new where cs: "claims s' = cs @ new" "list_all2 evolves (claims s) cs"
    "list_all (\<lambda>c. cl_status c = ''draft'') new" and d: "distinct (map cl_id (claims s'))" by (auto simp: advances_def)
  have "parse_claim_status (cl_status c') \<noteq> None" if "c' \<in> set cs" for c'
  proof -
    from that cs(2) obtain c where "c \<in> set (claims s)" "evolves c c'" by (metis in_set_conv_nth list_all2_conv_all_nth)
    with assms(1) evolves_status [of c c'] show ?thesis by (fastforce simp: claims_ok_def list_all_iff)
  qed
  moreover have "parse_claim_status ''draft'' = Some Draft" by (simp add: parse_claim_status_def)
  ultimately show ?thesis using d cs(3) by (auto simp: claims_ok_def cs(1) list_all_iff)
qed

text \<open>One claim followed from a starting point on; \<open>fixed\<close> says that no receipt is scanned onto it on the way.\<close>

definition follows :: "bool \<Rightarrow> claim_row \<Rightarrow> claim_status \<Rightarrow> claim_line list \<Rightarrow> rdb \<Rightarrow> bool" where
  "follows fixed c0 st0 ls0 s \<longleftrightarrow>
     (\<exists>c st. c \<in> set (claims s) \<and> same_claim c0 c \<and> parse_claim_status (cl_status c) = Some st \<and> moves\<^sup>*\<^sup>* st0 st)
   \<and> (\<exists>ls. lines_of_claim s (cl_id c0) = ls0 @ ls \<and> (st0 \<noteq> Draft \<longrightarrow> fixed \<longrightarrow> ls = []))"

lemma moves_never_draft: "moves\<^sup>*\<^sup>* a b \<Longrightarrow> a \<noteq> Draft \<Longrightarrow> b \<noteq> Draft"
  by (induction rule: rtranclp_induct) (auto simp: moves_def)

lemma follows_advances:
  assumes "follows fixed c0 st0 ls0 s" and "advances X s s'" and "fixed \<Longrightarrow> cl_id c0 \<notin> X"
  shows "follows fixed c0 st0 ls0 s'"
proof -
  from assms(1) obtain c st ls where c: "c \<in> set (claims s)" "same_claim c0 c" "parse_claim_status (cl_status c) = Some st" "moves\<^sup>*\<^sup>* st0 st"
    and ls: "lines_of_claim s (cl_id c0) = ls0 @ ls" "st0 \<noteq> Draft \<longrightarrow> fixed \<longrightarrow> ls = []" by (auto simp: follows_def)
  from assms(2) obtain cs new ls' where cs: "claims s' = cs @ new" "list_all2 evolves (claims s) cs" "claim_lines s' = claim_lines s @ ls'"
    and lines: "\<And>c. c \<in> set (claims s) \<Longrightarrow> cl_status c \<noteq> ''draft'' \<Longrightarrow> cl_id c \<notin> X \<Longrightarrow> lines_of_claim s' (cl_id c) = lines_of_claim s (cl_id c)"
    unfolding advances_def by blast
  from c(1) cs(2) obtain c' where c': "c' \<in> set cs" "evolves c c'" by (metis in_set_conv_nth list_all2_conv_all_nth)
  from evolves_status [OF c'(2) c(3)] obtain b where b: "parse_claim_status (cl_status c') = Some b" "st = b \<or> moves st b" by blast
  have "same_claim c0 c'" using c(2) c'(2) by (simp add: evolves_def same_claim_def)
  moreover have "moves\<^sup>*\<^sup>* st0 b" using b(2) c(4) by (auto intro: rtranclp.rtrancl_into_rtrancl)
  moreover have "\<exists>ls. lines_of_claim s' (cl_id c0) = ls0 @ ls \<and> (st0 \<noteq> Draft \<longrightarrow> fixed \<longrightarrow> ls = [])"
  proof (cases "st0 \<noteq> Draft \<and> fixed")
    case True
    have "st \<noteq> Draft" using moves_never_draft [OF c(4)] True by simp
    then have "cl_status c \<noteq> ''draft''" using c(3) by (auto simp: parse_claim_status_def)
    then show ?thesis using lines [OF c(1)] c(2) ls True assms(3) by (simp add: same_claim_def)
  next
    case False
    then show ?thesis using ls(1) by (auto simp: lines_of_claim_def cs(3))
  qed
  ultimately show ?thesis unfolding follows_def using b(1) c'(1) cs(1) by auto
qed

interpretation claim_book: command_system "claim_step Es de why nr" "\<lambda>c. fixed \<longrightarrow> cl_id c0 \<notin> scanned c"
    "\<lambda>s. claims_ok s \<and> follows fixed c0 st0 ls0 s"
  for Es de why nr fixed c0 st0 ls0
  by unfold_locales (blast intro: claim_step_advances advances_ok follows_advances)

text \<open>
  C27: The handlers refine the documented state machine.  Whatever sequence of requests is served, a claim keeps its
  identity, ledger, author and currency, its status only moves along \<open>can_transition_to\<close> and never back to
  a draft, and no line is ever changed or taken off it.  Once it has left the draft status no line is added either,
  as long as nobody scans a receipt onto it, so what is approved and paid is then what was submitted.
\<close>

theorem claim_lifecycle:
  assumes "claims_ok s" and "c \<in> set (claims s)" and "parse_claim_status (cl_status c) = Some st"
    and "s' = fold (claim_step Es de why nr) cs s"
  shows "(\<exists>c' st'. c' \<in> set (claims s') \<and> same_claim c c' \<and> parse_claim_status (cl_status c') = Some st'
      \<and> (\<lambda>a b. can_transition_to a b \<and> b \<noteq> Draft)\<^sup>*\<^sup>* st st')
    \<and> (\<exists>ls. lines_of_claim s' (cl_id c) = lines_of_claim s (cl_id c) @ ls
      \<and> (st \<noteq> Draft \<longrightarrow> list_all (\<lambda>k. cl_id c \<notin> scanned k) cs \<longrightarrow> ls = []))"
proof -
  let ?fixed = "list_all (\<lambda>k. cl_id c \<notin> scanned k) cs"
  have m: "moves = (\<lambda>a b. can_transition_to a b \<and> b \<noteq> Draft)" by (intro ext) (simp add: moves_def)
  have "\<exists>c' st'. c' \<in> set (claims s) \<and> same_claim c c' \<and> parse_claim_status (cl_status c') = Some st' \<and> moves\<^sup>*\<^sup>* st st'"
    by (rule exI [of _ c], rule exI [of _ st]) (use assms(2,3) in \<open>simp add: same_claim_def\<close>)
  then have "follows ?fixed c st (lines_of_claim s (cl_id c)) s" unfolding follows_def by simp
  moreover have "list_all (\<lambda>k. ?fixed \<longrightarrow> cl_id c \<notin> scanned k) cs" by (auto simp: list_all_iff)
  ultimately have "follows ?fixed c st (lines_of_claim s (cl_id c)) s'"
    unfolding assms(4) using claim_book.run_inv [of s ?fixed c st _ cs Es de why nr] assms(1) by blast
  then show ?thesis unfolding follows_def m .
qed

lemma row_of_key:
  assumes "distinct (map k xs)" and "c \<in> set xs" and "\<And>x. k (g x) = k x"
  shows "(\<exists>y\<in>set (map g xs). k y = k c \<and> P y) \<longleftrightarrow> P (g c)"
proof
  assume "\<exists>y\<in>set (map g xs). k y = k c \<and> P y"
  then obtain x where x: "x \<in> set xs" "k x = k c" "P (g x)" using assms(3) by auto
  with assms(1,2) have "x = c" by (auto simp: distinct_map inj_on_def)
  with x show "P (g c)" by simp
qed (use assms(2,3) in auto)

text \<open>
  C28: Who approves a claim.  When a request records an approval, its level was required
  for the claim's total and not yet recorded, the signed-in user is an eligible approver for the role the level
  asks for, and is not the author unless the ledger has a single user.  The claim is fully approved exactly when
  every required level is recorded then.
\<close>

theorem approval_entitlement:
  assumes "claims_ok s" and "c \<in> set (claims s)" and "cl_id c = i" and "cl_ledger c = l"
    and "approve_claim E de nr user l i q s = (r, s')" and "approval_steps s' \<noteq> approval_steps s"
  shows "\<exists>u level. user = Some u \<and> approval_guard s l u c level
    \<and> check_policies de s i = Inr ()
    \<and> set (recorded_levels s' i) = insert level (set (recorded_levels s i))
    \<and> ((\<exists>c'\<in>set (claims s'). cl_id c' = i \<and> cl_status c' = ''fully_approved'')
       \<longleftrightarrow> set (required_levels s l (claim_total s i)) \<subseteq> set (recorded_levels s' i))"
proof (rule approve_claim_cases [of E de nr user l i q s])
  assume "snd (approve_claim E de nr user l i q s) = s"
  then show ?thesis using assms(5,6) by simp
next
  fix u d level v s1 n
  assume req: "approve_request de user l i q s = Inr (u, d, level)" and b: "approve_body E nr l u d level s = Inr (v, s1)"
    and "snd (approve_claim E de nr user l i q s) = (if v = AlreadyApproved then s1
       else log_core E l u ''reimbursement.approve'' ''reimbursement_claim'' (Some i) (Some n) s1)"
  then have s': "claims s' = claims s1" "approval_steps s' = approval_steps s1" using assms(5) by simp_all
  from req obtain st where ld: "load_claim s i l = Inr (d, st)" and u: "user = Some u" and pol: "check_policies de s i = Inr ()"
    by (rule approve_request_Inr)
  have d: "d = c" using claim_unique [OF assms(1) _ assms(2), of d] load_claim_Inr [OF ld] assms(3) by simp
  have step: "set (recorded_levels s' i) = insert level (set (recorded_levels s i))"
    if "approval_steps s1 = approval_steps (with_step s (cl_id d) level u)"
    using recorded_with_step [of s i level u] that s'(2) assms(3) by (simp add: recorded_levels_def d)
  have only: "(\<exists>c'\<in>set (claims s'). cl_id c' = i \<and> P c') \<longleftrightarrow> P (g c)"
    if "claims s1 = map g (claims s)" "\<And>x. cl_id (g x) = cl_id x" for g P
    using row_of_key [OF conjunct1 [OF assms(1) [unfolded claims_ok_def]] assms(2) that(2), of P] that(1) by (simp add: s' assms(3))
  from b show ?thesis
  proof (rule approve_body_Inr)
    assume "s1 = s"
    then show ?thesis using assms(6) s' by simp
  next
    let ?g = "\<lambda>x. if cl_id x = cl_id d \<and> cl_ledger x = l then x\<lparr>cl_status := ''partially_approved''\<rparr> else x"
    assume g: "approval_guard s l u d level" and cs: "claims s1 = map ?g (claims s)"
      and left: "\<not> set (required_levels s l (claim_total s (cl_id d))) \<subseteq> insert level (set (recorded_levels s (cl_id d)))"
      and st: "approval_steps s1 = approval_steps (with_step s (cl_id d) level u)"
    have "\<not> (\<exists>c'\<in>set (claims s'). cl_id c' = i \<and> cl_status c' = ''fully_approved'')"
      using only [OF cs, of "\<lambda>x. cl_status x = ''fully_approved''"] assms(3,4) by (simp add: d)
    moreover have "\<not> set (required_levels s l (claim_total s i)) \<subseteq> set (recorded_levels s' i)"
      using left step [OF st] assms(3) by (simp add: d)
    ultimately show ?thesis using u g pol step [OF st] d by blast
  next
    fix txn
    assume g: "approval_guard s l u d level"
      and all: "set (required_levels s l (claim_total s (cl_id d))) \<subseteq> insert level (set (recorded_levels s (cl_id d)))"
      and p: "post_approval E l u d level (claim_total s (cl_id d)) (with_step s (cl_id d) level u) = Inr (FullApproval txn, s1)"
    let ?g = "\<lambda>x. if cl_id x = cl_id d \<and> cl_ledger x = l
         then x\<lparr>cl_status := ''fully_approved'', cl_approved_by := Some u, cl_approved_at := Some (now E)\<rparr> else x"
    from p have cs: "claims s1 = map ?g (claims s)" and st: "approval_steps s1 = approval_steps (with_step s (cl_id d) level u)"
      by (rule post_approval_Inr, simp)+
    have "\<exists>c'\<in>set (claims s'). cl_id c' = i \<and> cl_status c' = ''fully_approved''"
      using only [OF cs, of "\<lambda>x. cl_status x = ''fully_approved''"] assms(3,4) by (simp add: d)
    moreover have "set (required_levels s l (claim_total s i)) \<subseteq> set (recorded_levels s' i)"
      using all step [OF st] assms(3) by (simp add: d)
    ultimately show ?thesis using u g pol step [OF st] d by blast
  qed
qed

section \<open>What an approval and a payout book\<close>

definition claim_lines_ok :: "rdb \<Rightarrow> bool" where
  "claim_lines_ok s \<longleftrightarrow>
     list_all (\<lambda>l. on_grid 4 (rl_amount l) \<and> on_grid 4 (rl_tax l) \<and> on_grid 4 (rl_advance l)
        \<and> 0 < rl_amount l \<and> 0 \<le> rl_tax l \<and> 0 \<le> rl_advance l) (claim_lines s)"

definition tax_total :: "rdb \<Rightarrow> uuid \<Rightarrow> decimal" where
  "tax_total s i = sum_list (map rl_tax (lines_of_claim s i))"

definition amount_total :: "rdb \<Rightarrow> uuid \<Rightarrow> decimal" where
  "amount_total s i = sum_list (map rl_amount (lines_of_claim s i))"

lemma claim_lines_okD:
  assumes "claim_lines_ok s"
  shows "list_all (\<lambda>l. on_grid 4 (rl_amount l) \<and> on_grid 4 (rl_tax l) \<and> on_grid 4 (rl_advance l) \<and> 0 \<le> rl_tax l) (lines_of_claim s i)"
    and "0 \<le> advance_total s i" and "on_grid 4 (advance_total s i)"
  using assms by (auto simp: claim_lines_ok_def lines_of_claim_def list_all_iff advance_total_def intro!: sum_list_nonneg on_grid_sum_list)

lemma grouped_net: "sum_list (map (\<lambda>(_, net, _). net) (grouped_lines ls)) = sum_list (map (\<lambda>l. rl_amount l - rl_advance l) ls)"
  unfolding grouped_lines_def using sum_groups [of "remdups (map rl_account ls)" rl_account ls "\<lambda>l. rl_amount l - rl_advance l"]
  by (simp add: comp_def)

lemma grouped_tax: "sum_list (map (\<lambda>(_, _, t). t) (grouped_lines ls)) = sum_list (map rl_tax ls)"
  unfolding grouped_lines_def using sum_groups [of "remdups (map rl_account ls)" rl_account ls rl_tax]
  by (simp add: comp_def)

lemma expense_sums:
  assumes "list_all (\<lambda>(_, _, t). 0 \<le> t) gs"
  shows "debit_sum (expense_postings txn gs) = sum_list (map (\<lambda>(_, net, _). net) gs) + sum_list (map (\<lambda>(_, _, t). t) gs)"
    and "credit_sum (expense_postings txn gs) = 0"
  using assms
  by (induction gs) (auto simp: expense_postings_def debit_sum_def credit_sum_def plain_posting_def is_debit_def is_credit_def)

lemma grouped_ok:
  assumes "list_all (\<lambda>l. on_grid 4 (rl_amount l) \<and> on_grid 4 (rl_tax l) \<and> on_grid 4 (rl_advance l) \<and> 0 \<le> rl_tax l) ls"
  shows "list_all (\<lambda>(_, net, t). on_grid 4 net \<and> on_grid 4 t \<and> 0 \<le> t) (grouped_lines ls)"
proof -
  have d: "on_grid 4 (rl_amount l - rl_advance l)" if "l \<in> set ls" for l
    using on_grid_add [of 4 "rl_amount l" "- rl_advance l"] assms that by (simp add: list_all_iff)
  show ?thesis
    using assms d by (auto simp: grouped_lines_def list_all_iff intro!: on_grid_sum_list sum_list_nonneg)
qed

lemma approval_sums:
  assumes "list_all (\<lambda>l. on_grid 4 (rl_amount l) \<and> on_grid 4 (rl_tax l) \<and> on_grid 4 (rl_advance l) \<and> 0 \<le> rl_tax l) ls"
    and "0 \<le> adv" and "on_grid 4 adv"
  shows "debit_sum (approval_postings db l txn payable (grouped_lines ls) adv)
       - credit_sum (approval_postings db l txn payable (grouped_lines ls) adv)
       = sum_list (map rl_tax ls) + (if first_account db l ''ASSET'' ''EMPLOYEE_ADVANCE'' = None then adv else 0)"
    and "list_all (\<lambda>p. on_grid 4 (p_amount p) \<and> p_txn p = txn) (approval_postings db l txn payable (grouped_lines ls) adv)"
proof -
  let ?g = "grouped_lines ls"
  have g: "list_all (\<lambda>(_, net, t). on_grid 4 net \<and> on_grid 4 t \<and> 0 \<le> t) ?g" by (rule grouped_ok [OF assms(1)])
  then have "list_all (\<lambda>(_, _, t). 0 \<le> t) ?g" by (auto simp: list_all_iff)
  note e = expense_sums [OF this, of txn, unfolded grouped_net grouped_tax]
  have app: "debit_sum (xs @ ys) = debit_sum xs + debit_sum ys" "credit_sum (xs @ ys) = credit_sum xs + credit_sum ys" for xs ys
    by (simp_all add: debit_sum_def credit_sum_def)
  show "debit_sum (approval_postings db l txn payable ?g adv) - credit_sum (approval_postings db l txn payable ?g adv)
       = sum_list (map rl_tax ls) + (if first_account db l ''ASSET'' ''EMPLOYEE_ADVANCE'' = None then adv else 0)"
    unfolding approval_postings_def app e grouped_net using assms(2)
    by (auto simp: debit_sum_def credit_sum_def plain_posting_def is_debit_def is_credit_def split: option.split)
  have "on_grid 4 (sum_list (map (\<lambda>(_, net, _). net) ?g))" using g by (intro on_grid_sum_list) (auto simp: list_all_iff)
  then have "on_grid 4 (sum_list (map (\<lambda>(_, net, _). net) ?g) - adv)" using on_grid_add [of 4 _ "- adv"] assms(3) by fastforce
  moreover have "list_all (\<lambda>p. on_grid 4 (p_amount p) \<and> p_txn p = txn) (expense_postings txn gs)"
    if "list_all (\<lambda>(_, net, t). on_grid 4 net \<and> on_grid 4 t \<and> 0 \<le> t) gs" for gs
    using that by (induction gs) (auto simp: expense_postings_def plain_posting_def)
  ultimately show "list_all (\<lambda>p. on_grid 4 (p_amount p) \<and> p_txn p = txn) (approval_postings db l txn payable ?g adv)"
    using g assms(3) by (cases "first_account db l ''ASSET'' ''EMPLOYEE_ADVANCE''") (simp_all add: approval_postings_def plain_posting_def)
qed

lemma approve_booked:
  assumes "approve_claim E de nr user l i q s = (r, s')" and "transactions (rcore s') \<noteq> transactions (rcore s)"
    and "c \<in> set (claims s)" and "cl_id c = i" and "claims_ok s"
  obtains u level txn s1 where "post_approval E l u c level (claim_total s i) (with_step s i level u) = Inr (FullApproval txn, s1)"
    and "transactions (rcore s') = transactions (rcore s1)" and "postings (rcore s') = postings (rcore s1)"
proof (rule approve_claim_cases [of E de nr user l i q s])
  assume "snd (approve_claim E de nr user l i q s) = s"
  then show thesis using assms(1,2) by simp
next
  fix u d level v s1 n
  assume req: "approve_request de user l i q s = Inr (u, d, level)" and b: "approve_body E nr l u d level s = Inr (v, s1)"
    and "snd (approve_claim E de nr user l i q s) = (if v = AlreadyApproved then s1
       else log_core E l u ''reimbursement.approve'' ''reimbursement_claim'' (Some i) (Some n) s1)"
  then have s': "transactions (rcore s') = transactions (rcore s1)" "postings (rcore s') = postings (rcore s1)"
    using assms(1) by (simp_all add: log_core_def)
  from req obtain st where ld: "load_claim s i l = Inr (d, st)" by (rule approve_request_Inr)
  have d: "d = c" using claim_unique [OF assms(5) _ assms(3), of d] load_claim_Inr [OF ld] assms(4) by simp
  from b show thesis
  proof (rule approve_body_Inr)
    fix txn
    assume "post_approval E l u d level (claim_total s (cl_id d)) (with_step s (cl_id d) level u) = Inr (FullApproval txn, s1)"
    then show thesis using that s' assms(4) by (simp add: d)
  qed (use assms(2) s' in simp_all)
qed

text \<open>The one entry that an approval adds, when it adds any.\<close>

lemma approval_entry:
  assumes "db_wf (rcore s)" and "claims_ok s" and "claim_lines_ok s" and "c \<in> set (claims s)" and "cl_id c = i"
    and "approve_claim E de nr user l i q s = (r, s')" and "transactions (rcore s') \<noteq> transactions (rcore s)"
  obtains t qs payable where "transactions (rcore s') = transactions (rcore s) @ [t]" and "postings (rcore s') = postings (rcore s) @ qs"
    and "postings_of (rcore s') (t_id t) = qs" and "t_ledger t = l" and "t_date t = Min (set (map rl_date (lines_of_claim s i)))"
    and "first_account (rcore s) l ''LIABILITY'' ''EMPLOYEE_PAYABLE'' = Some payable"
    and "list_all2 posting_stored (approval_postings (rcore s) l (t_id t) payable (grouped_lines (lines_of_claim s i)) (advance_total s i)) qs"
    and "list_all (\<lambda>p. on_grid 4 (p_amount p))
      (approval_postings (rcore s) l (t_id t) payable (grouped_lines (lines_of_claim s i)) (advance_total s i))"
proof -
  let ?ls = "lines_of_claim s i" and ?adv = "advance_total s i"
  from assms(6,7,4,5,2) obtain u level txn s1
    where p: "post_approval E l u c level (claim_total s i) (with_step s i level u) = Inr (FullApproval txn, s1)"
      and s': "transactions (rcore s') = transactions (rcore s1)" "postings (rcore s') = postings (rcore s1)"
    by (rule approve_booked)
  let ?r = "claim_txn l (Min (set (map rl_date ?ls))) (''Reimbursement '' @ cl_short_id c) c u"
  from p obtain payable db1 where payable: "first_account (rcore s) l ''LIABILITY'' ''EMPLOYEE_PAYABLE'' = Some payable"
    and ins: "insert_transaction E ?r (rcore s) = Inr (txn, db1)"
    and add: "add_postings E (approval_postings (rcore s) l txn payable (grouped_lines ?ls) ?adv) db1 = Inr (rcore s1)"
    using assms(5) by (auto elim!: post_approval_Inr)
  note sums = approval_sums(2) [OF claim_lines_okD [OF assms(3)], where db = "rcore s" and l = l and txn = txn and payable = payable and i1 = i]
  have txns: "list_all (\<lambda>p. p_txn p = txn) (approval_postings (rcore s) l txn payable (grouped_lines ?ls) ?adv)"
    and grid: "list_all (\<lambda>p. on_grid 4 (p_amount p)) (approval_postings (rcore s) l txn payable (grouped_lines ?ls) ?adv)"
    using sums by (auto simp: list_all_iff)
  from assms(1) ins add txns obtain qs where qs: "list_all2 posting_stored (approval_postings (rcore s) l txn payable (grouped_lines ?ls) ?adv) qs"
    and new: "postings_of (rcore s1) txn = qs" "transactions (rcore s1) = transactions (rcore s) @ [?r\<lparr>t_id := txn, t_created_at := now E\<rparr>]"
      "postings (rcore s1) = postings (rcore s) @ qs" by (rule new_entry)
  show thesis
    by (rule that [of "?r\<lparr>t_id := txn, t_created_at := now E\<rparr>" qs payable])
       (use payable new qs grid in \<open>simp_all add: s' postings_of_def claim_txn_def\<close>)
qed

text \<open>
  By how much the entry of an approval is out of balance: by the tax of the claim, and by its advances too when the
  ledger has no advance account.  Employee payables are credited with the claimed amount less twice the advances.
\<close>

lemma approval_entry_imbalance:
  assumes "db_wf (rcore s)" and "claims_ok s" and "claim_lines_ok s" and "c \<in> set (claims s)" and "cl_id c = i"
    and "approve_claim E de nr user l i q s = (r, s')" and "transactions (rcore s') \<noteq> transactions (rcore s)"
  shows "\<exists>qs. postings (rcore s') = postings (rcore s) @ qs
    \<and> debit_sum qs - credit_sum qs
        = tax_total s i + (if first_account (rcore s) l ''ASSET'' ''EMPLOYEE_ADVANCE'' = None then advance_total s i else 0)
    \<and> p_direction (last qs) = ''CREDIT'' \<and> p_amount (last qs) = amount_total s i - 2 * advance_total s i"
  using assms
proof (rule approval_entry)
  fix t qs payable
  let ?ls = "lines_of_claim s i" and ?adv = "advance_total s i"
  assume post: "postings (rcore s') = postings (rcore s) @ qs"
    and qs: "list_all2 posting_stored (approval_postings (rcore s) l (t_id t) payable (grouped_lines ?ls) ?adv) qs"
    and grid: "list_all (\<lambda>p. on_grid 4 (p_amount p)) (approval_postings (rcore s) l (t_id t) payable (grouped_lines ?ls) ?adv)"
  from qs have last: "posting_stored (plain_posting (t_id t) payable (sum_list (map (\<lambda>(_, net, _). net) (grouped_lines ?ls)) - ?adv) ''CREDIT'') (last qs)"
    by (auto simp: approval_postings_def list_all2_append1 list_all2_Cons1)
  have "on_grid 4 (sum_list (map (\<lambda>(_, net, _). net) (grouped_lines ?ls)) - ?adv)"
    using grid by (auto simp: approval_postings_def plain_posting_def)
  then have "p_amount (last qs) = amount_total s i - 2 * ?adv" "p_direction (last qs) = ''CREDIT''"
    using last by (simp_all add: posting_stored_def plain_posting_def away.rnd_exact grouped_net amount_total_def advance_total_def
        sum_list_subtractf)
  moreover have "debit_sum qs - credit_sum qs
      = tax_total s i + (if first_account (rcore s) l ''ASSET'' ''EMPLOYEE_ADVANCE'' = None then ?adv else 0)"
    using approval_sums(1) [OF claim_lines_okD [OF assms(3)], where i1 = i] stored_sums [OF qs grid] by (simp add: tax_total_def)
  ultimately show ?thesis using post by blast
qed

text \<open>What each account is to be debited with.\<close>

definition amount_on :: "claim_line list \<Rightarrow> uuid \<Rightarrow> decimal" where
  "amount_on ls a = sum_list (map rl_amount (filter (\<lambda>x. rl_account x = a) ls))"

lemma sum_amount_on: "sum_list (map (amount_on ls) (remdups (map rl_account ls))) = sum_list (map rl_amount ls)"
  unfolding amount_on_def using sum_groups [of "remdups (map rl_account ls)" rl_account ls rl_amount] by (simp add: comp_def)

lemma plain_claim_postings:
  assumes "\<forall>x\<in>set ls. rl_tax x = 0 \<and> rl_advance x = 0"
  shows "approval_postings db l txn payable (grouped_lines ls) 0
    = map (\<lambda>a. plain_posting txn a (amount_on ls a) ''DEBIT'') (remdups (map rl_account ls))
      @ [plain_posting txn payable (sum_list (map rl_amount ls)) ''CREDIT'']"
proof -
  have f: "map (\<lambda>x. rl_amount x - rl_advance x) (filter P ls) = map rl_amount (filter P ls)"
    "map rl_tax (filter P ls) = map (\<lambda>_. 0) (filter P ls)" for P using assms by auto
  have z: "sum_list (map (\<lambda>_. 0 :: decimal) xs) = 0" for xs :: "claim_line list" by (induction xs) simp_all
  have g: "grouped_lines ls = map (\<lambda>a. (a, amount_on ls a, 0)) (remdups (map rl_account ls))"
    by (simp add: grouped_lines_def amount_on_def f z)
  have "expense_postings txn (grouped_lines ls) = map (\<lambda>a. plain_posting txn a (amount_on ls a) ''DEBIT'') (remdups (map rl_account ls))"
    unfolding g expense_postings_def by (simp add: comp_def concat_map_singleton)
  then show ?thesis by (simp add: approval_postings_def g comp_def sum_amount_on)
qed

text \<open>
  C29: What the approval of a claim without tax and advances books.  The approval that posts adds one transaction in the
  ledger, dated the earliest line; it debits each expense account of the claim once with what the claim's lines have
  on it, and credits the ledger's employee payables with their total, so the entry is in balance.
\<close>

theorem approval_entry_booked:
  assumes "db_wf (rcore s)" and "claims_ok s" and "claim_lines_ok s" and "c \<in> set (claims s)" and "cl_id c = i"
    and "approve_claim E de nr user l i q s = (r, s')" and "transactions (rcore s') \<noteq> transactions (rcore s)"
    and "\<forall>x\<in>set (lines_of_claim s i). rl_tax x = 0 \<and> rl_advance x = 0"
  shows "\<exists>t ps p. transactions (rcore s') = transactions (rcore s) @ [t] \<and> postings (rcore s') = postings (rcore s) @ ps @ [p]
    \<and> postings_of (rcore s') (t_id t) = ps @ [p] \<and> t_ledger t = l \<and> t_date t = Min (rl_date ` set (lines_of_claim s i))
    \<and> list_all is_debit ps \<and> distinct (map p_account ps) \<and> p_account ` set ps = rl_account ` set (lines_of_claim s i)
    \<and> (\<forall>x\<in>set ps. p_amount x = sum_list (map rl_amount (filter (\<lambda>y. rl_account y = p_account x) (lines_of_claim s i))))
    \<and> is_credit p \<and> first_account (rcore s) l ''LIABILITY'' ''EMPLOYEE_PAYABLE'' = Some (p_account p)
    \<and> p_amount p = sum_list (map rl_amount (lines_of_claim s i)) \<and> balanced (rcore s') (t_id t)"
  using assms(1-7)
proof (rule approval_entry)
  fix t qs payable
  let ?ls = "lines_of_claim s i" and ?as = "remdups (map rl_account (lines_of_claim s i))"
  assume t: "transactions (rcore s') = transactions (rcore s) @ [t]" "postings (rcore s') = postings (rcore s) @ qs"
      "postings_of (rcore s') (t_id t) = qs" "t_ledger t = l" "t_date t = Min (set (map rl_date ?ls))"
    and payable: "first_account (rcore s) l ''LIABILITY'' ''EMPLOYEE_PAYABLE'' = Some payable"
    and qs: "list_all2 posting_stored (approval_postings (rcore s) l (t_id t) payable (grouped_lines ?ls) (advance_total s i)) qs"
    and grid: "list_all (\<lambda>p. on_grid 4 (p_amount p)) (approval_postings (rcore s) l (t_id t) payable (grouped_lines ?ls) (advance_total s i))"
  have adv: "advance_total s i = 0" unfolding advance_total_def using assms(8) by (intro sum_list_nonneg_eq_0_iff [THEN iffD2]) auto
  have zero_tax: "sum_list (map rl_tax ?ls) = 0" using assms(8) by (intro sum_list_nonneg_eq_0_iff [THEN iffD2]) auto
  note ap = plain_claim_postings [OF assms(8), of "rcore s" l "t_id t" payable]
  from qs [unfolded adv ap] obtain ps p where q: "qs = ps @ [p]"
    and ps: "list_all2 posting_stored (map (\<lambda>a. plain_posting (t_id t) a (amount_on ?ls a) ''DEBIT'') ?as) ps"
    and p: "posting_stored (plain_posting (t_id t) payable (sum_list (map rl_amount ?ls)) ''CREDIT'') p"
    by (auto simp: list_all2_append1 list_all2_Cons1)
  have len: "length ps = length ?as" using ps by (simp add: list_all2_conv_all_nth)
  have nth: "p_account (ps ! j) = ?as ! j \<and> is_debit (ps ! j) \<and> p_amount (ps ! j) = amount_on ?ls (?as ! j)" if "j < length ?as" for j
  proof -
    have "\<forall>a\<in>set ?as. on_grid 4 (amount_on ?ls a)" using grid [unfolded adv ap] by (simp add: list_all_iff plain_posting_def)
    then have "on_grid 4 (amount_on ?ls (?as ! j))" using nth_mem [OF that] by blast
    then show ?thesis using ps that
      by (simp add: list_all2_conv_all_nth posting_stored_def plain_posting_def is_debit_def away.rnd_exact)
  qed
  have acc: "map p_account ps = ?as" by (rule nth_equalityI) (use len nth in simp_all)
  have "debit_sum qs - credit_sum qs = 0"
    using stored_sums [OF qs grid] approval_sums(1) [OF claim_lines_okD [OF assms(3)], where i1 = i] assms(8) adv
    by (simp add: zero_tax)
  moreover have "p_account ` set ps = rl_account ` set ?ls" using arg_cong [OF acc, of set] by simp
  moreover have "\<forall>x\<in>set ps. p_amount x = amount_on ?ls (p_account x)" using nth len by (auto simp: in_set_conv_nth)
  moreover have "list_all is_debit ps" using nth len by (auto simp: list_all_length)
  moreover have "distinct (map p_account ps)" by (simp add: acc)
  moreover have "is_credit p" "p_account p = payable" "p_amount p = sum_list (map rl_amount ?ls)"
    using p grid [unfolded adv ap] by (simp_all add: posting_stored_def plain_posting_def is_credit_def away.rnd_exact)
  ultimately show ?thesis using t payable
    by (intro exI [of _ t] exI [of _ ps] exI [of _ p]) (simp add: q amount_on_def balanced_def)
qed

lemma payable_credit_grid:
  assumes "db_wf db"
  shows "on_grid 4 (payable_credit db t)"
  unfolding payable_credit_def
  by (rule on_grid_sum_list) (use assms in \<open>auto simp: postings_of_def db_wf_def posting_wf_def list_all_iff\<close>)

text \<open>
  What a payout books.  A successful payout adds two transactions with the claim's reference, the first without any
  posting, and two postings to the second: the amount that the newest transaction with that reference credited to
  employee payables is debited to the payable account and credited to the payout account.
\<close>

theorem payout_books:
  assumes "db_wf (rcore s)" and "pay E user l i payout s = (Inr (), s')"
  shows "\<exists>c booking payable t1 t2 q1 q2. c \<in> set (claims s) \<and> cl_id c = i
    \<and> claim_booking (rcore s) l (cl_short_id c) = Some booking
    \<and> first_account (rcore s) l ''LIABILITY'' ''EMPLOYEE_PAYABLE'' = Some payable
    \<and> transactions (rcore s') = transactions (rcore s) @ [t1, t2] \<and> postings (rcore s') = postings (rcore s) @ [q1, q2]
    \<and> t_reference t1 = Some (cl_short_id c) \<and> t_reference t2 = Some (cl_short_id c)
    \<and> postings_of (rcore s') (t_id t1) = [] \<and> postings_of (rcore s') (t_id t2) = [q1, q2]
    \<and> p_account q1 = payable \<and> is_debit q1 \<and> p_amount q1 = payable_credit (rcore s) booking
    \<and> p_account q2 = payout \<and> is_credit q2 \<and> p_amount q2 = payable_credit (rcore s) booking"
proof -
  from assms(2) obtain u c st s1 where c: "load_claim s i l = Inr (c, st)" and b: "pay_body E l u c payout s = Inr ((), s1)"
    and s': "s' = log_core E l u ''reimbursement.pay'' ''reimbursement_claim'' (Some i) None s1"
    by (rule_tac pay_cases [of E user l i payout s]) auto
  let ?r = "claim_txn l (today E) (''Reimbursement payout '' @ cl_short_id c) c u"
  from b obtain payable booking t1 db1 t2 db2 where payable: "first_account (rcore s) l ''LIABILITY'' ''EMPLOYEE_PAYABLE'' = Some payable"
    and booking: "claim_booking (rcore s) l (cl_short_id c) = Some booking"
    and i1: "insert_transaction E ?r (rcore s) = Inr (t1, db1)" and i2: "insert_transaction E ?r db1 = Inr (t2, db2)"
    and add: "add_postings E [plain_posting t2 payable (payable_credit (rcore s) booking) ''DEBIT'',
        plain_posting t2 payout (payable_credit (rcore s) booking) ''CREDIT''] db2 = Inr (rcore s1)" by (rule pay_body_Inr)
  let ?a = "payable_credit (rcore s) booking"
  have wf1: "db_wf db1" using db_wf_insert_transaction [OF assms(1) i1] .
  have db1: "transactions db1 = transactions (rcore s) @ [?r\<lparr>t_id := t1, t_created_at := now E\<rparr>]" "postings db1 = postings (rcore s)"
    and fresh1: "t1 \<notin> t_id ` set (transactions (rcore s))" using i1 by (auto simp: insert_transaction_Inr)
  from wf1 i2 add obtain qs where qs: "list_all2 posting_stored [plain_posting t2 payable ?a ''DEBIT'', plain_posting t2 payout ?a ''CREDIT''] qs"
    and new: "postings_of (rcore s1) t2 = qs" "transactions (rcore s1) = transactions db1 @ [?r\<lparr>t_id := t2, t_created_at := now E\<rparr>]"
      "postings (rcore s1) = postings db1 @ qs" and fresh2: "t2 \<notin> t_id ` set (transactions db1)"
    by (rule new_entry) (simp_all add: plain_posting_def)
  from qs obtain q1 q2 where q: "qs = [q1, q2]" "posting_stored (plain_posting t2 payable ?a ''DEBIT'') q1"
    "posting_stored (plain_posting t2 payout ?a ''CREDIT'') q2" by (auto simp: list_all2_Cons1)
  have "postings_of (rcore s1) t1 = []"
    using postings_of_new [OF assms(1) fresh1] fresh2 db1 q by (auto simp: postings_of_def new(3) posting_stored_def plain_posting_def)
  moreover have "round_half_away 4 ?a = ?a" by (rule away.rnd_exact [OF payable_credit_grid [OF assms(1)]])
  ultimately show ?thesis
    using payable booking load_claim_Inr [OF c] new q
    by (intro exI [of _ c] exI [of _ booking] exI [of _ payable] exI [of _ "?r\<lparr>t_id := t1, t_created_at := now E\<rparr>"]
          exI [of _ "?r\<lparr>t_id := t2, t_created_at := now E\<rparr>"] exI [of _ q1] exI [of _ q2])
       (simp add: s' log_core_def postings_of_def db1 claim_txn_def posting_stored_def plain_posting_def is_debit_def is_credit_def)
qed

section \<open>Witnesses\<close>

definition sample_claim :: "string \<Rightarrow> claim_row" where
  "sample_claim st =
     \<lparr>cl_id = 61, cl_ledger = 2, cl_short_id = ''3d000000'', cl_employee = 8, cl_employee_name = ''Ann'', cl_title = ''Trip'',
      cl_description = [], cl_currency = ''USD'', cl_status = st, cl_approved_by = None, cl_approved_at = None,
      cl_rejected_reason = None, cl_paid_at = None, cl_payout_account = None\<rparr>"

definition sample_rdb :: "string \<Rightarrow> rdb" where
  "sample_rdb st =
     \<lparr>rcore = sample_year\<lparr>users := [\<lparr>u_id = 7, u_role = ''user''\<rparr>, \<lparr>u_id = 8, u_role = ''user''\<rparr>],
        accounts := accounts sample_year @ [sample_account 14 ''Payable'' ''LIABILITY'' ''EMPLOYEE_PAYABLE'']\<rparr>,
      claims = [sample_claim st],
      claim_lines = [\<lparr>rl_id = 62, rl_claim = 61, rl_date = Date 2026 8 3, rl_description = ''Hotel'', rl_amount = 100,
                      rl_account = 13, rl_tax = 7, rl_advance = 0\<rparr>],
      claim_events = [], expense_policies = [], approval_policies = [], approval_steps = []\<rparr>"

definition sample_claim_step :: "nat \<times> claim_command \<Rightarrow> rdb \<Rightarrow> rdb" where
  "sample_claim_step = claim_step (\<lambda>_. sample_uuids) (\<lambda>_. None) id (\<lambda>_ _. [])"

lemma sample_rdb_ok: "claims_ok (sample_rdb ''submitted'')" "claim_lines_ok (sample_rdb st)" "db_wf (rcore (sample_rdb st))"
proof -
  show "claims_ok (sample_rdb ''submitted'')" by (simp add: claims_ok_def sample_rdb_def sample_claim_def parse_claim_status_def)
  show "claim_lines_ok (sample_rdb st)" by (simp add: claim_lines_ok_def sample_rdb_def on_grid_def)
  show "db_wf (rcore (sample_rdb st))"
    by (simp add: sample_rdb_def db_wf_def sample_year_def sample_access_def empty_db_def posting_wf_def sample_posting_def
        sample_account_def closing_posting_def year_end_txn_def is_debit_def is_credit_def on_grid_def txn_kinds_def numbered_def)
qed

definition sample_requests :: "(nat \<times> claim_command) list" where
  "sample_requests =
     [(0, AddLine (Some 8) 2 61 \<lparr>nlf_txn_date = ''2026-08-04'', nlf_description = ''Taxi'', nlf_amount = ''20'', nlf_account = 13,
                     nlf_tax_amount = None, nlf_advance_amount = None\<rparr>),
      (1, Approve (Some 7) 2 61 None), (2, Reject (Some 7) 2 61 ''late'')]"

theorem claim_lifecycle_witness:
  "(\<exists>c' st'. c' \<in> set (claims (fold sample_claim_step sample_requests (sample_rdb ''submitted'')))
     \<and> parse_claim_status (cl_status c') = Some st' \<and> (\<lambda>a b. can_transition_to a b \<and> b \<noteq> Draft)\<^sup>*\<^sup>* Submitted st')
   \<and> lines_of_claim (fold sample_claim_step sample_requests (sample_rdb ''submitted'')) 61 = lines_of_claim (sample_rdb ''submitted'') 61"
proof -
  have "sample_claim ''submitted'' \<in> set (claims (sample_rdb ''submitted''))" by (simp add: sample_rdb_def)
  moreover have "parse_claim_status (cl_status (sample_claim ''submitted'')) = Some Submitted"
    by (simp add: sample_claim_def parse_claim_status_def)
  moreover have "list_all (\<lambda>k. cl_id (sample_claim ''submitted'') \<notin> scanned k) sample_requests"
    by (simp add: sample_requests_def scanned_def)
  moreover have "cl_id (sample_claim ''submitted'') = 61" by (simp add: sample_claim_def)
  ultimately show ?thesis unfolding sample_claim_step_def
    using claim_lifecycle [OF sample_rdb_ok(1) _ _ refl, of "sample_claim ''submitted''" Submitted
        "\<lambda>_. sample_uuids" "\<lambda>_. None" id "\<lambda>_ _. []" sample_requests] by auto
qed

definition sample_approved :: rdb where
  "sample_approved = snd (approve_claim sample_uuids (\<lambda>_. None) (\<lambda>_ _. []) (Some 7) 2 61 None (sample_rdb ''submitted''))"

lemma sample_approved_sizes: "(length (approval_steps sample_approved), length (transactions (rcore sample_approved))) = (1, 2)"
  by code_simp

theorem approval_entitlement_witness: "\<exists>u level. Some 7 = Some u \<and> approval_guard (sample_rdb ''submitted'') 2 u (sample_claim ''submitted'') level"
proof -
  have e: "approve_claim sample_uuids (\<lambda>_. None) (\<lambda>_ _. []) (Some 7) 2 61 None (sample_rdb ''submitted'')
      = (fst (approve_claim sample_uuids (\<lambda>_. None) (\<lambda>_ _. []) (Some 7) 2 61 None (sample_rdb ''submitted'')), sample_approved)"
    by (simp add: sample_approved_def)
  have "length (approval_steps sample_approved) = 1" using sample_approved_sizes by simp
  then have "approval_steps sample_approved \<noteq> approval_steps (sample_rdb ''submitted'')" by (auto simp: sample_rdb_def)
  from approval_entitlement [OF sample_rdb_ok(1) _ _ _ e this, of "sample_claim ''submitted''"] show ?thesis
    by (auto simp: sample_rdb_def sample_claim_def)
qed

text \<open>The same claim without tax, approved.\<close>

definition untaxed_rdb :: rdb where
  "untaxed_rdb = (sample_rdb ''submitted'')\<lparr>claim_lines := map (\<lambda>x. x\<lparr>rl_tax := 0\<rparr>) (claim_lines (sample_rdb ''submitted''))\<rparr>"

definition untaxed_approved :: rdb where
  "untaxed_approved = snd (approve_claim sample_uuids (\<lambda>_. None) (\<lambda>_ _. []) (Some 7) 2 61 None untaxed_rdb)"

theorem approval_entry_booked_witness:
  "\<exists>ps p. postings (rcore untaxed_approved) = postings (rcore untaxed_rdb) @ ps @ [p] \<and> p_account ` set ps = {13} \<and> p_amount p = 100"
proof -
  have e: "approve_claim sample_uuids (\<lambda>_. None) (\<lambda>_ _. []) (Some 7) 2 61 None untaxed_rdb
      = (fst (approve_claim sample_uuids (\<lambda>_. None) (\<lambda>_ _. []) (Some 7) 2 61 None untaxed_rdb), untaxed_approved)"
    by (simp add: untaxed_approved_def)
  have "length (transactions (rcore untaxed_approved)) = 2" by code_simp
  then have n: "transactions (rcore untaxed_approved) \<noteq> transactions (rcore untaxed_rdb)"
    by (auto simp: untaxed_rdb_def sample_rdb_def sample_year_def)
  have ok: "claims_ok untaxed_rdb" "claim_lines_ok untaxed_rdb" "db_wf (rcore untaxed_rdb)"
    using sample_rdb_ok by (simp_all add: untaxed_rdb_def claims_ok_def claim_lines_ok_def sample_rdb_def on_grid_def)
  have l: "lines_of_claim untaxed_rdb 61 = claim_lines untaxed_rdb"
    "claim_lines untaxed_rdb = [\<lparr>rl_id = 62, rl_claim = 61, rl_date = Date 2026 8 3, rl_description = ''Hotel'', rl_amount = 100,
       rl_account = 13, rl_tax = 0, rl_advance = 0\<rparr>]" by (simp_all add: lines_of_claim_def untaxed_rdb_def sample_rdb_def)
  have "sample_claim ''submitted'' \<in> set (claims untaxed_rdb)" "cl_id (sample_claim ''submitted'') = 61"
    by (simp_all add: untaxed_rdb_def sample_rdb_def sample_claim_def)
  from approval_entry_booked [OF ok(3,1,2) this e n] show ?thesis by (auto simp: l)
qed

definition sample_payable_rdb :: rdb where
  "sample_payable_rdb = (sample_rdb ''fully_approved'')\<lparr>rcore := (rcore (sample_rdb ''fully_approved''))\<lparr>
     transactions := [(claim_txn 2 (Date 2026 8 3) ''Reimbursement 3d000000'' (sample_claim ''fully_approved'') 7)\<lparr>t_id := 63\<rparr>],
     postings := [sample_posting 64 63 13 100 ''DEBIT'', sample_posting 65 63 14 100 ''CREDIT'']\<rparr>\<rparr>"

lemma sample_payable_wf: "db_wf (rcore sample_payable_rdb)"
  by (simp add: sample_payable_rdb_def sample_rdb_def db_wf_def sample_year_def sample_access_def empty_db_def posting_wf_def
      sample_posting_def sample_account_def closing_posting_def claim_txn_def is_debit_def is_credit_def on_grid_def txn_kinds_def numbered_def)

definition sample_paid :: rdb where
  "sample_paid = snd (pay sample_uuids (Some 7) 2 61 11 sample_payable_rdb)"

theorem payout_books_witness:
  "\<exists>t1 t2. transactions (rcore sample_paid) = transactions (rcore sample_payable_rdb) @ [t1, t2]
     \<and> postings_of (rcore sample_paid) (t_id t1) = []"
proof -
  have "fst (pay sample_uuids (Some 7) 2 61 11 sample_payable_rdb) = Inr ()" by code_simp
  then have "pay sample_uuids (Some 7) 2 61 11 sample_payable_rdb = (Inr (), sample_paid)"
    by (simp only: prod_eq_iff fst_conv snd_conv sample_paid_def simp_thms)
  from payout_books [OF sample_payable_wf this] obtain t1 t2 where
    "transactions (rcore sample_paid) = transactions (rcore sample_payable_rdb) @ [t1, t2]" "postings_of (rcore sample_paid) (t_id t1) = []"
    by (elim exE conjE) (rule that)
  then show ?thesis by (intro exI conjI)
qed

end
