(* ===== verification/Rust_Split.thy ===== *)
theory Rust_Split
  imports Rust_Text
begin

text \<open>
  More of the string operations of the Rust standard library: \<^verbatim>\<open>split_once\<close>, \<^verbatim>\<open>lines\<close>,
  \<^verbatim>\<open>starts_with\<close>, \<^verbatim>\<open>find\<close>, and the lower-case hexadecimal printer.
\<close>

section \<open>Splitting once, lines\<close>

text \<open>\<^verbatim>\<open>s.split_once(c)\<close>: the text before and after the first occurrence of the character.\<close>

fun split_once :: "char \<Rightarrow> string \<Rightarrow> (string \<times> string) option" where
  "split_once c [] = None"
| "split_once c (x # xs) =
     (if x = c then Some ([], xs) else map_option (\<lambda>(a, b). (x # a, b)) (split_once c xs))"

definition starts_with :: "string \<Rightarrow> string \<Rightarrow> bool" where
  "starts_with p s \<longleftrightarrow> take (length p) s = p"

text \<open>
  \<^verbatim>\<open>s.lines()\<close>: every piece that ends in a line feed loses it and one carriage return before it; what
  follows the last line feed is a line, as it is, unless it is empty.
\<close>

abbreviation newline :: char where "newline \<equiv> char_of (10 :: nat)"
abbreviation carriage_return :: char where "carriage_return \<equiv> char_of (13 :: nat)"

definition strip_cr :: "string \<Rightarrow> string" where
  "strip_cr l = (if l \<noteq> [] \<and> last l = carriage_return then butlast l else l)"

definition str_lines :: "string \<Rightarrow> string list" where
  "str_lines s =
     (let ps = split_on newline s
      in map strip_cr (butlast ps) @ (if last ps = [] then [] else [last ps]))"

text \<open>\<^verbatim>\<open>s.find(p)\<close>: the offset of the first occurrence.\<close>

fun str_find :: "string \<Rightarrow> string \<Rightarrow> nat option" where
  "str_find p [] = (if p = [] then Some 0 else None)"
| "str_find p (x # xs) =
     (if starts_with p (x # xs) then Some 0 else map_option Suc (str_find p xs))"

definition hex_digit :: "nat \<Rightarrow> char" where
  "hex_digit n = char_of (if n < 10 then 48 + n else 87 + n)"

definition hex_lower :: "byte list \<Rightarrow> string" where
  "hex_lower bs = concat (map (\<lambda>b. [hex_digit (unat b div 16), hex_digit (unat b mod 16)]) bs)"

section \<open>Lemmas\<close>

lemma split_once_first [simp]: "c \<notin> set a \<Longrightarrow> split_once c (a @ c # b) = Some (a, b)"
  by (induction a) auto

lemma split_once_None [simp]: "split_once c s = None \<longleftrightarrow> c \<notin> set s"
  by (induction s) auto

lemma split_once_Some: "split_once c s = Some (a, b) \<longleftrightarrow> s = a @ c # b \<and> c \<notin> set a"
proof (induction s arbitrary: a)
  case (Cons x xs)
  then show ?case by (cases a) auto
qed simp

lemma split_on_Cons_sep: "split_on c (c # s) = [] # split_on c s"
  by simp

lemma trim_no_ws: "\<forall>c\<in>set s. \<not> is_ws c \<Longrightarrow> trim s = s"
proof -
  assume ws: "\<forall>c\<in>set s. \<not> is_ws c"
  have *: "dropWhile is_ws t = t" if "\<forall>c\<in>set t. \<not> is_ws c" for t
    using that by (cases t) auto
  show ?thesis using ws by (simp add: trim_def *)
qed

lemma length_hex_lower [simp]: "length (hex_lower bs) = 2 * length bs"
  by (induction bs) (auto simp: hex_lower_def)

lemma str_find_length: "str_find p s = Some i \<Longrightarrow> i + length p \<le> length s"
proof (induction s arbitrary: i)
  case (Cons x xs)
  then show ?case
    by (auto simp: starts_with_def split: if_splits dest!: arg_cong [where f = length])
qed (auto split: if_splits)

end
