(* ===== verification/Login.thy ===== *)
theory Login
  imports Ledger_Access Rust_Split
begin

text \<open>
  Signing in: \<^verbatim>\<open>src/src/auth/rate_limit.rs\<close>, \<^verbatim>\<open>password.rs\<close>, \<^verbatim>\<open>totp.rs\<close>, the user
  operations of \<^verbatim>\<open>mod.rs\<close>, the handlers of \<^verbatim>\<open>handlers.rs\<close>, \<^verbatim>\<open>src/src/handlers/account.rs\<close>
  and \<^verbatim>\<open>account_security.rs\<close>, and the worker \<^verbatim>\<open>prune_login_attempts.rs\<close>.

  The tables are those of the migrations 0001, 0028 and 0029.  Times are microseconds, the resolution of
  a \<^verbatim>\<open>TIMESTAMPTZ\<close>.  A call \<^verbatim>\<open>auth.login(&user)\<close> of \<^verbatim>\<open>axum_login\<close> followed by a redirect is the
  response \<open>SignedIn\<close>; the texts of errors raised by crates are not modelled, only the point at which they
  are raised.
\<close>

section \<open>Tables and sessions\<close>

record auth_user =
  au_id :: uuid
  au_email :: string
  au_username :: string
  au_display_name :: "string option"
  au_role :: string
  au_hash :: string
  au_active :: bool
  au_created_at :: int
  au_updated_at :: int
  au_theme :: string
  au_locale :: string

record attempt_row =
  la_ip :: string
  la_email :: string
  la_success :: bool
  la_ts :: int

record totp_row =
  ut_user :: uuid
  ut_secret :: string
  ut_enrolled_at :: int
  ut_counter :: int

record recovery_row =
  rc_id :: uuid
  rc_user :: uuid
  rc_hash :: string
  rc_consumed :: "int option"

record auth_db =
  auth_users :: "auth_user list"
  attempts :: "attempt_row list"
  totps :: "totp_row list"
  recovery :: "recovery_row list"
  auth_drawn :: nat

record session =
  s_pending :: "uuid option"
  s_next :: "string option"
  s_created :: "int option"
  s_last_seen :: "int option"
  s_csrf :: "string option"

datatype totp_error =
    InvalidCode
  | NotEnrolled
  | Encryption
  | Decryption
  | Base32
  | TotpLib
  | TotpInternal

text \<open>
  The crates and the database functions the code calls:
  \<^item> \<open>argon_verify\<close>: \<^verbatim>\<open>PasswordHash::new\<close> and \<^verbatim>\<open>verify_password\<close>, \<open>None\<close> when the stored text is no hash;
    \<open>argon_hash\<close>: \<^verbatim>\<open>hash_password\<close> with the salt drawn at that point;
  \<^item> \<open>pg_lower\<close>: the SQL function \<^verbatim>\<open>LOWER\<close>;
  \<^item> \<open>totp_from_secret\<close>: the \<^verbatim>\<open>Totp\<close> built from a base32 secret with SHA-1, six digits, one step of skew
    and steps of thirty seconds, given by its method \<^verbatim>\<open>check\<close>;
  \<^item> \<open>b64_encode\<close>, \<open>b64_decode\<close>: standard base64; \<open>aes_encrypt\<close>, \<open>aes_decrypt\<close>: AES-256-GCM with key and
    nonce; \<open>utf8_decode\<close>: \<^verbatim>\<open>String::from_utf8\<close>;
  \<^item> \<open>row_uuid\<close>: the identifiers drawn by the database; \<open>random_u8\<close> and \<open>random_nonce\<close>: the random
    draws, each counted from the number of rows drawn so far.
\<close>

record crypto =
  argon_verify :: "string \<Rightarrow> string \<Rightarrow> bool option"
  argon_hash :: "nat \<Rightarrow> string \<Rightarrow> string option"
  pg_lower :: "string \<Rightarrow> string"
  totp_from_secret :: "string \<Rightarrow> totp_error + (string \<Rightarrow> nat \<Rightarrow> nat option)"
  b64_encode :: "byte list \<Rightarrow> string"
  b64_decode :: "string \<Rightarrow> byte list option"
  aes_encrypt :: "byte list \<Rightarrow> byte list \<Rightarrow> byte list \<Rightarrow> byte list option"
  aes_decrypt :: "byte list \<Rightarrow> byte list \<Rightarrow> byte list \<Rightarrow> byte list option"
  utf8_decode :: "byte list \<Rightarrow> string option"
  row_uuid :: "nat \<Rightarrow> uuid"
  random_u8 :: "nat \<Rightarrow> nat \<Rightarrow> byte"
  random_nonce :: "nat \<Rightarrow> byte list"

section \<open>The rate limiter\<close>

datatype decision = Allowed | Throttled

definition minutes :: "int \<Rightarrow> int" where
  "minutes n = n * 60000000"

definition ACCOUNT_WINDOW_MINUTES :: int where "ACCOUNT_WINDOW_MINUTES = 10"
definition ACCOUNT_FAILURE_THRESHOLD :: int where "ACCOUNT_FAILURE_THRESHOLD = 5"
definition IP_WINDOW_MINUTES :: int where "IP_WINDOW_MINUTES = 60"
definition IP_FAILURE_THRESHOLD :: int where "IP_FAILURE_THRESHOLD = 20"

definition normalise_email :: "string \<Rightarrow> string" where
  "normalise_email email = to_lowercase (trim email)"

definition record_attempt :: "auth_db \<Rightarrow> string \<Rightarrow> string \<Rightarrow> bool \<Rightarrow> int \<Rightarrow> auth_db" where
  "record_attempt db ip email success tm =
     db\<lparr>attempts := attempts db @ [\<lparr>la_ip = ip, la_email = email, la_success = success, la_ts = tm\<rparr>]\<rparr>"

text \<open>The failures of an account, or of an address, later than a cutoff.\<close>

definition account_failures :: "auth_db \<Rightarrow> string \<Rightarrow> int \<Rightarrow> attempt_row list" where
  "account_failures db email cutoff =
     filter (\<lambda>r. la_email r = email \<and> \<not> la_success r \<and> la_ts r > cutoff) (attempts db)"

definition ip_failures :: "auth_db \<Rightarrow> string \<Rightarrow> int \<Rightarrow> attempt_row list" where
  "ip_failures db ip cutoff =
     filter (\<lambda>r. la_ip r = ip \<and> \<not> la_success r \<and> la_ts r > cutoff) (attempts db)"

definition record_success :: "auth_db \<Rightarrow> string \<Rightarrow> string \<Rightarrow> int \<Rightarrow> auth_db" where
  "record_success db ip email tm =
     (let db1 = record_attempt db ip email True tm; cutoff = tm - minutes ACCOUNT_WINDOW_MINUTES
      in db1\<lparr>attempts :=
           filter (\<lambda>r. \<not> (la_email r = email \<and> \<not> la_success r \<and> la_ts r > cutoff)) (attempts db1)\<rparr>)"

definition check_account :: "auth_db \<Rightarrow> string \<Rightarrow> int \<Rightarrow> decision" where
  "check_account db email tm =
     (if int (length (account_failures db email (tm - minutes ACCOUNT_WINDOW_MINUTES)))
           \<ge> ACCOUNT_FAILURE_THRESHOLD
      then Throttled else Allowed)"

definition check_ip :: "auth_db \<Rightarrow> string \<Rightarrow> int \<Rightarrow> decision" where
  "check_ip db ip tm =
     (if int (length (ip_failures db ip (tm - minutes IP_WINDOW_MINUTES))) \<ge> IP_FAILURE_THRESHOLD
      then Throttled else Allowed)"

text \<open>
  \<^verbatim>\<open>Duration::whole_seconds\<close> truncates towards zero.
\<close>

definition whole_seconds :: "int \<Rightarrow> int" where
  "whole_seconds d = (if d \<ge> 0 then d div 1000000 else - (- d div 1000000))"

definition min_ts :: "attempt_row list \<Rightarrow> int option" where
  "min_ts rows = (case rows of [] \<Rightarrow> None | r # rs \<Rightarrow> Some (foldl min (la_ts r) (map la_ts rs)))"

definition retry_after :: "int option \<Rightarrow> int \<Rightarrow> int \<Rightarrow> int" where
  "retry_after oldest window_minutes tm =
     (case oldest of
        None \<Rightarrow> 0
      | Some ts \<Rightarrow> max (whole_seconds (ts + minutes window_minutes - tm)) 0)"

definition retry_after_account :: "auth_db \<Rightarrow> string \<Rightarrow> int \<Rightarrow> int" where
  "retry_after_account db email tm =
     retry_after (min_ts (account_failures db email (tm - minutes ACCOUNT_WINDOW_MINUTES)))
       ACCOUNT_WINDOW_MINUTES tm"

definition retry_after_ip :: "auth_db \<Rightarrow> string \<Rightarrow> int \<Rightarrow> int" where
  "retry_after_ip db ip tm =
     retry_after (min_ts (ip_failures db ip (tm - minutes IP_WINDOW_MINUTES))) IP_WINDOW_MINUTES tm"

text \<open>The daily worker deletes attempts older than ninety days and reports how many.\<close>

definition RETENTION_DAYS :: int where "RETENTION_DAYS = 90"

definition prune_run_once :: "auth_db \<Rightarrow> int \<Rightarrow> nat \<times> auth_db" where
  "prune_run_once db tm =
     (let cutoff = tm - RETENTION_DAYS * 86400000000
      in (length (filter (\<lambda>r. la_ts r < cutoff) (attempts db)),
          db\<lparr>attempts := filter (\<lambda>r. \<not> la_ts r < cutoff) (attempts db)\<rparr>))"

section \<open>Passwords\<close>

definition MIN_LENGTH :: nat where "MIN_LENGTH = 12"

datatype strength_error = TooShort | TooCommon

fun strength_message :: "strength_error \<Rightarrow> string" where
  "strength_message TooShort = ''Password must be at least 12 characters.''"
| "strength_message TooCommon = ''This password is too common; please choose another.''"

text \<open>The text of \<^verbatim>\<open>data/security/common_passwords.txt\<close>, embedded at compile time, is the argument.\<close>

definition deny_list :: "string \<Rightarrow> string list" where
  "deny_list text =
     filter (\<lambda>l. l \<noteq> [] \<and> \<not> starts_with ''#'' l) (map (\<lambda>l. to_lowercase (trim l)) (str_lines text))"

definition validate_strength :: "string \<Rightarrow> string \<Rightarrow> strength_error + unit" where
  "validate_strength common candidate =
     (if length candidate < MIN_LENGTH then Inl TooShort
      else if to_lowercase (trim candidate) \<in> set (deny_list common) then Inl TooCommon
      else Inr ())"

section \<open>Users\<close>

definition authenticate :: "crypto \<Rightarrow> auth_db \<Rightarrow> string \<Rightarrow> string \<Rightarrow> app_error + auth_user option" where
  "authenticate C db email password =
     (case find (\<lambda>u. pg_lower C (au_email u) = pg_lower C email) (auth_users db) of
        None \<Rightarrow> Inr None
      | Some user \<Rightarrow>
          if \<not> au_active user then Inr None
          else (case argon_verify C password (au_hash user) of
                  None \<Rightarrow> Inl (Internal ''password verify'')
                | Some ok \<Rightarrow> Inr (if ok then Some user else None)))"

definition get_user :: "auth_db \<Rightarrow> uuid \<Rightarrow> auth_user option" where
  "get_user db i = find (\<lambda>u. au_id u = i) (auth_users db)"

definition create_user :: "crypto \<Rightarrow> auth_db \<Rightarrow> int \<Rightarrow> string \<Rightarrow> string \<Rightarrow> string
    \<Rightarrow> (app_error + auth_user) \<times> auth_db" where
  "create_user C db tm email username password =
     (case argon_hash C (auth_drawn db) password of
        None \<Rightarrow> (Inl (Internal ''password hashing failed''), db)
      | Some hashed \<Rightarrow>
          if list_ex (\<lambda>u. au_email u = email \<or> au_username u = username
                \<or> pg_lower C (au_email u) = pg_lower C email \<or> au_id u = row_uuid C (auth_drawn db))
               (auth_users db)
          then (Inl (Conflict ''email or username already in use''), db)
          else (let user = \<lparr>au_id = row_uuid C (auth_drawn db), au_email = email, au_username = username,
                        au_display_name = Some username, au_role = ''user'', au_hash = hashed,
                        au_active = True, au_created_at = tm, au_updated_at = tm,
                        au_theme = ''system'', au_locale = ''en''\<rparr>
                in (Inr user, db\<lparr>auth_users := auth_users db @ [user], auth_drawn := Suc (auth_drawn db)\<rparr>)))"

definition change_password :: "crypto \<Rightarrow> string \<Rightarrow> auth_db \<Rightarrow> int \<Rightarrow> uuid \<Rightarrow> string \<Rightarrow> string
    \<Rightarrow> (app_error + unit) \<times> auth_db" where
  "change_password C common db tm user_id current new =
     (case get_user db user_id of
        None \<Rightarrow> (Inl Unauthorized, db)
      | Some user \<Rightarrow>
          (case argon_verify C current (au_hash user) of
             None \<Rightarrow> (Inl (Internal ''password verify''), db)
           | Some False \<Rightarrow> (Inl Unauthorized, db)
           | Some True \<Rightarrow>
               (case validate_strength common new of
                  Inl e \<Rightarrow> (Inl (Validation (strength_message e)), db)
                | Inr _ \<Rightarrow>
                    (case argon_hash C (auth_drawn db) new of
                       None \<Rightarrow> (Inl (Internal ''password hashing failed''), db)
                     | Some h \<Rightarrow>
                         (Inr (), db\<lparr>auth_users := map (\<lambda>u. if au_id u = user_id
                                then u\<lparr>au_hash := h, au_updated_at := tm\<rparr> else u) (auth_users db),
                              auth_drawn := Suc (auth_drawn db)\<rparr>)))))"

section \<open>Two-factor authentication\<close>

definition STEP :: nat where "STEP = 30"
definition RECOVERY_CODE_COUNT :: nat where "RECOVERY_CODE_COUNT = 10"
definition RECOVERY_CODE_LEN :: nat where "RECOVERY_CODE_LEN = 8"

text \<open>The cipher is its 32-byte key, derived from the application secret by HKDF.\<close>

definition seal :: "crypto \<Rightarrow> byte list \<Rightarrow> nat \<Rightarrow> string \<Rightarrow> totp_error + string" where
  "seal C key pos plaintext =
     (let nonce = random_nonce C pos
      in rbind (ok_or Encryption (aes_encrypt C key nonce (utf8 plaintext))) (\<lambda>ct.
           Inr (b64_encode C nonce @ '':'' @ b64_encode C ct)))"

definition open_blob :: "crypto \<Rightarrow> byte list \<Rightarrow> string \<Rightarrow> totp_error + string" where
  "open_blob C key blob =
     rbind (ok_or Decryption (split_once (CHR '':'') blob)) (\<lambda>(nonce_b64, ct_b64).
     rbind (ok_or Decryption (b64_decode C nonce_b64)) (\<lambda>nonce_bytes.
     rbind (ok_or Decryption (b64_decode C ct_b64)) (\<lambda>ct_bytes.
       if length nonce_bytes \<noteq> 12 then Inl Decryption
       else rbind (ok_or Decryption (aes_decrypt C key nonce_bytes ct_bytes)) (\<lambda>pt.
            ok_or Decryption (utf8_decode C pt)))))"

text \<open>
  \<^verbatim>\<open>verify_code\<close>: the seconds since 1970 are cast to \<^verbatim>\<open>u64\<close>, the matched step back to \<^verbatim>\<open>i64\<close>.
\<close>

definition unix_u64 :: "int \<Rightarrow> nat" where
  "unix_u64 tm = nat ((tm div 1000000) mod 2 ^ 64)"

definition verify_code :: "crypto \<Rightarrow> string \<Rightarrow> string \<Rightarrow> int \<Rightarrow> int \<Rightarrow> totp_error + nat" where
  "verify_code C secret_b32 code last_used_counter tm =
     rbind (totp_from_secret C secret_b32) (\<lambda>check.
     rbind (ok_or InvalidCode (check code (unix_u64 tm))) (\<lambda>matched_step.
       if i64_wrap (int matched_step) \<le> last_used_counter then Inl InvalidCode else Inr matched_step))"

definition recovery_alphabet :: string where
  "recovery_alphabet = ''ABCDEFGHIJKLMNOPQRSTUVWXYZ234567''"

definition generate_recovery_codes :: "crypto \<Rightarrow> nat \<Rightarrow> string list" where
  "generate_recovery_codes C pos =
     map (\<lambda>i. map (\<lambda>j. recovery_alphabet !
                (unat (random_u8 C pos (i * RECOVERY_CODE_LEN + j)) mod length recovery_alphabet))
              [0..<RECOVERY_CODE_LEN])
       [0..<RECOVERY_CODE_COUNT]"

definition verify_recovery_code_hash :: "crypto \<Rightarrow> string \<Rightarrow> string \<Rightarrow> bool" where
  "verify_recovery_code_hash C code hash = (argon_verify C code hash = Some True)"

text \<open>
  The unused codes of the user are read and locked (\<^verbatim>\<open>FOR UPDATE SKIP LOCKED\<close>); the first whose hash
  matches is marked.  \<open>locked\<close> are the rows another transaction holds.
\<close>

definition consume_recovery_code ::
    "crypto \<Rightarrow> uuid set \<Rightarrow> auth_db \<Rightarrow> int \<Rightarrow> uuid \<Rightarrow> string \<Rightarrow> (totp_error + uuid) \<times> auth_db" where
  "consume_recovery_code C locked db tm user_id code =
     (case find (\<lambda>r. verify_recovery_code_hash C code (rc_hash r))
             (filter (\<lambda>r. rc_user r = user_id \<and> rc_consumed r = None \<and> rc_id r \<notin> locked) (recovery db)) of
        None \<Rightarrow> (Inl InvalidCode, db)
      | Some row \<Rightarrow>
          (Inr (rc_id row),
           db\<lparr>recovery := map (\<lambda>r. if rc_id r = rc_id row then r\<lparr>rc_consumed := Some tm\<rparr> else r)
                           (recovery db)\<rparr>))"

definition is_enrolled :: "auth_db \<Rightarrow> uuid \<Rightarrow> bool" where
  "is_enrolled db user_id = list_ex (\<lambda>r. ut_user r = user_id) (totps db)"

definition fetch_state :: "auth_db \<Rightarrow> uuid \<Rightarrow> (string \<times> int) option" where
  "fetch_state db user_id =
     map_option (\<lambda>r. (ut_secret r, ut_counter r)) (find (\<lambda>r. ut_user r = user_id) (totps db))"

text \<open>The update applies only where the counter still has the expected value; the result says whether it did.\<close>

definition advance_counter :: "auth_db \<Rightarrow> uuid \<Rightarrow> int \<Rightarrow> int \<Rightarrow> bool \<times> auth_db" where
  "advance_counter db user_id expected new_value =
     (length (filter (\<lambda>r. ut_user r = user_id \<and> ut_counter r = expected) (totps db)) = 1,
      db\<lparr>totps := map (\<lambda>r. if ut_user r = user_id \<and> ut_counter r = expected
                          then r\<lparr>ut_counter := new_value\<rparr> else r) (totps db)\<rparr>)"

definition enroll :: "auth_db \<Rightarrow> int \<Rightarrow> uuid \<Rightarrow> string \<Rightarrow> auth_db" where
  "enroll db tm user_id secret_encrypted =
     (if is_enrolled db user_id
      then db\<lparr>totps := map (\<lambda>r. if ut_user r = user_id
                 then r\<lparr>ut_secret := secret_encrypted, ut_enrolled_at := tm, ut_counter := 0\<rparr> else r)
               (totps db)\<rparr>
      else db\<lparr>totps := totps db @ [\<lparr>ut_user = user_id, ut_secret = secret_encrypted,
                 ut_enrolled_at = tm, ut_counter = 0\<rparr>]\<rparr>)"

definition disable :: "auth_db \<Rightarrow> uuid \<Rightarrow> auth_db" where
  "disable db user_id =
     db\<lparr>totps := filter (\<lambda>r. ut_user r \<noteq> user_id) (totps db),
        recovery := filter (\<lambda>r. rc_user r \<noteq> user_id) (recovery db)\<rparr>"

fun insert_codes :: "crypto \<Rightarrow> uuid \<Rightarrow> string list \<Rightarrow> auth_db \<Rightarrow> totp_error + auth_db" where
  "insert_codes C user_id [] db = Inr db"
| "insert_codes C user_id (code # codes) db =
     (case argon_hash C (auth_drawn db) code of
        None \<Rightarrow> Inl TotpInternal
      | Some hash \<Rightarrow> insert_codes C user_id codes
          (db\<lparr>recovery := recovery db @ [\<lparr>rc_id = row_uuid C (auth_drawn db), rc_user = user_id,
                rc_hash = hash, rc_consumed = None\<rparr>],
              auth_drawn := Suc (auth_drawn db)\<rparr>))"

definition regenerate_recovery_codes :: "crypto \<Rightarrow> auth_db \<Rightarrow> uuid \<Rightarrow> (totp_error + string list) \<times> auth_db" where
  "regenerate_recovery_codes C db user_id =
     (let codes = generate_recovery_codes C (auth_drawn db)
      in case insert_codes C user_id codes
                (db\<lparr>recovery := filter (\<lambda>r. rc_user r \<noteq> user_id) (recovery db)\<rparr>) of
           Inl e \<Rightarrow> (Inl e, db)
         | Inr db' \<Rightarrow> (Inr codes, db'))"

definition unused_recovery_code_count :: "auth_db \<Rightarrow> uuid \<Rightarrow> nat" where
  "unused_recovery_code_count db user_id =
     length (filter (\<lambda>r. rc_user r = user_id \<and> rc_consumed r = None) (recovery db))"

section \<open>The sign-in handlers\<close>

text \<open>
  \<open>LoginError\<close> is the page of \<^verbatim>\<open>login_error_page\<close> with its status and \<^verbatim>\<open>Retry-After\<close> header.
\<close>

datatype auth_response =
    LoginError string string nat "int option"
  | RedirectTo string
  | TwoFactorPage string "string option"
  | RegisterError string string
  | SignedIn auth_user string

record login_form =
  lf_email :: string
  lf_password :: string
  lf_next :: "string option"

record two_factor_form =
  tf_code :: string
  tf_next :: "string option"

record register_form =
  rf_email :: string
  rf_username :: string
  rf_password :: string
  rf_password_confirm :: string
  rf_next :: "string option"

definition unwrap_or :: "'a option \<Rightarrow> 'a \<Rightarrow> 'a" where
  "unwrap_or x d = (case x of None \<Rightarrow> d | Some y \<Rightarrow> y)"

definition login_error_page :: "string \<Rightarrow> string \<Rightarrow> nat \<Rightarrow> int option \<Rightarrow> auth_response" where
  "login_error_page next email status retry = LoginError next email status (map_option (\<lambda>s. max s 1) retry)"

definition mark_authenticated :: "session \<Rightarrow> int \<Rightarrow> session" where
  "mark_authenticated s tm = s\<lparr>s_created := Some tm, s_last_seen := Some tm\<rparr>"

text \<open>
  \<^verbatim>\<open>login_submit\<close>.  The clock is read once by the handler and once by \<^verbatim>\<open>mark_authenticated\<close>.
\<close>

definition login_submit :: "crypto \<Rightarrow> auth_db \<Rightarrow> session \<Rightarrow> int \<Rightarrow> int \<Rightarrow> string \<Rightarrow> login_form
    \<Rightarrow> (app_error + auth_response) \<times> auth_db \<times> session" where
  "login_submit C db s tm tm' ip form =
     (let email_norm = normalise_email (lf_email form); next = unwrap_or (lf_next form) []
      in if check_account db email_norm tm = Throttled
         then (Inr (login_error_page next (lf_email form) 429 (Some (retry_after_account db email_norm tm))), db, s)
         else if check_ip db ip tm = Throttled
         then (Inr (login_error_page next (lf_email form) 429 (Some (retry_after_ip db ip tm))), db, s)
         else (case authenticate C db (lf_email form) (lf_password form) of
             Inl _ \<Rightarrow> (Inl (Internal ''auth''), db, s)
           | Inr None \<Rightarrow>
               (Inr (login_error_page next (lf_email form) 200 None),
                record_attempt db ip email_norm False tm, s)
           | Inr (Some user) \<Rightarrow>
               if is_enrolled db (au_id user)
               then (Inr (RedirectTo ''/login/2fa''), db,
                     s\<lparr>s_pending := Some (au_id user), s_next := Some next\<rparr>)
               else (Inr (SignedIn user (unwrap_or (lf_next form) ''/'')),
                     record_success db ip email_norm tm, mark_authenticated s tm')))"

definition login_2fa_page :: "session \<Rightarrow> string option \<Rightarrow> auth_response" where
  "login_2fa_page s next =
     (case s_pending s of
        None \<Rightarrow> RedirectTo ''/login''
      | Some _ \<Rightarrow> TwoFactorPage (unwrap_or next []) None)"

text \<open>
  \<^verbatim>\<open>login_2fa_submit\<close> in the two halves between which another request can run: matching the code against
  the state that was read, and recording the match and signing in.
\<close>

definition match_code :: "crypto \<Rightarrow> auth_db \<Rightarrow> int \<Rightarrow> uuid \<Rightarrow> string \<Rightarrow> int \<Rightarrow> string
    \<Rightarrow> (int \<times> bool) option \<times> auth_db" where
  "match_code C db tm user_id secret counter code =
     (case verify_code C secret code counter tm of
        Inr step \<Rightarrow> (Some (i64_wrap (int step), True), db)
      | Inl _ \<Rightarrow>
          (case consume_recovery_code C {} db tm user_id (to_uppercase (trim code)) of
             (Inr _, db') \<Rightarrow> (Some (counter, False), db')
           | (Inl _, db') \<Rightarrow> (None, db')))"

definition finish_2fa :: "auth_db \<Rightarrow> session \<Rightarrow> int \<Rightarrow> uuid \<Rightarrow> int \<Rightarrow> int \<times> bool \<Rightarrow> string option
    \<Rightarrow> (app_error + auth_response) \<times> auth_db \<times> session" where
  "finish_2fa db s tm' user_id counter matched form_next =
     (let db' = (if snd matched then snd (advance_counter db user_id counter (fst matched)) else db)
      in case get_user db' user_id of
           None \<Rightarrow> (Inl (AppDb RowNotFound), db', s)
         | Some user \<Rightarrow>
             (Inr (SignedIn user (unwrap_or (s_next s) (unwrap_or form_next ''/''))), db',
              mark_authenticated (s\<lparr>s_pending := None, s_next := None\<rparr>) tm'))"

definition login_2fa_submit :: "crypto \<Rightarrow> byte list \<Rightarrow> auth_db \<Rightarrow> session \<Rightarrow> int \<Rightarrow> int \<Rightarrow> two_factor_form
    \<Rightarrow> (app_error + auth_response) \<times> auth_db \<times> session" where
  "login_2fa_submit C key db s tm tm' form =
     (case s_pending s of
        None \<Rightarrow> (Inr (RedirectTo ''/login''), db, s)
      | Some user_id \<Rightarrow>
          (case fetch_state db user_id of
             None \<Rightarrow> (Inr (RedirectTo ''/login''), db, s\<lparr>s_pending := None\<rparr>)
           | Some (sealed, counter) \<Rightarrow>
               (case open_blob C key sealed of
                  Inl _ \<Rightarrow> (Inl (Internal ''cipher''), db, s)
                | Inr secret \<Rightarrow>
                    (case match_code C db tm user_id secret counter (tf_code form) of
                       (None, db1) \<Rightarrow>
                         (Inr (TwoFactorPage (unwrap_or (tf_next form) []) (Some ''Invalid code'')), db1, s)
                     | (Some matched, db1) \<Rightarrow>
                         finish_2fa db1 s tm' user_id counter matched (tf_next form)))))"

definition register_submit :: "crypto \<Rightarrow> string \<Rightarrow> auth_db \<Rightarrow> session \<Rightarrow> int \<Rightarrow> int \<Rightarrow> register_form
    \<Rightarrow> (app_error + auth_response) \<times> auth_db \<times> session" where
  "register_submit C common db s tm tm' form =
     (let next = unwrap_or (rf_next form) ''/ledgers/new''
      in if rf_password form \<noteq> rf_password_confirm form
         then (Inr (RegisterError ''Passwords do not match'' next), db, s)
         else (case validate_strength common (rf_password form) of
             Inl e \<Rightarrow> (Inr (RegisterError (strength_message e) next), db, s)
           | Inr _ \<Rightarrow>
               (case create_user C db tm (rf_email form) (rf_username form) (rf_password form) of
                  (Inl e, db') \<Rightarrow> (Inl e, db', s)
                | (Inr user, db') \<Rightarrow> (Inr (SignedIn user next), db', mark_authenticated s tm'))))"

section \<open>The account security handlers\<close>

definition verify_password_or_unauthorized :: "crypto \<Rightarrow> auth_db \<Rightarrow> uuid \<Rightarrow> string \<Rightarrow> app_error + unit" where
  "verify_password_or_unauthorized C db user_id candidate =
     rbind (ok_or Unauthorized (get_user db user_id)) (\<lambda>user.
     rbind (ok_or (Internal ''password'') (argon_verify C candidate (au_hash user))) (\<lambda>ok.
       if ok then Inr () else Inl Unauthorized))"

definition verify_totp_or_invalid :: "crypto \<Rightarrow> byte list \<Rightarrow> auth_db \<Rightarrow> int \<Rightarrow> uuid \<Rightarrow> string \<Rightarrow> app_error + nat" where
  "verify_totp_or_invalid C key db tm user_id code =
     (case fetch_state db user_id of
        None \<Rightarrow> Inl (Validation ''2FA is not enrolled'')
      | Some (sealed, counter) \<Rightarrow>
          rbind (map_err (\<lambda>_. Internal ''cipher'') (open_blob C key sealed)) (\<lambda>secret.
            map_err (\<lambda>e. if e = InvalidCode then Unauthorized else Internal ''totp'')
              (verify_code C secret code counter tm)))"

text \<open>
  The pages are the enrolment page (its secret is a fresh one) with an error, or the management page with
  the unused count and the codes shown once.
\<close>

datatype security_response =
    EnrollAgain
  | Enrolled int nat "string list"
  | BackToSecurity

definition enrolled_page :: "auth_db \<Rightarrow> uuid \<Rightarrow> nat \<Rightarrow> string list \<Rightarrow> app_error + security_response" where
  "enrolled_page db user_id unused codes =
     map_err (\<lambda>_. Internal ''totp'')
       (ok_or RowNotFound (map_option (\<lambda>r. Enrolled (ut_enrolled_at r) unused codes)
          (find (\<lambda>r. ut_user r = user_id) (totps db))))"

definition enroll_submit :: "crypto \<Rightarrow> byte list \<Rightarrow> auth_db \<Rightarrow> int \<Rightarrow> uuid \<Rightarrow> string \<Rightarrow> string
    \<Rightarrow> (app_error + security_response) \<times> auth_db" where
  "enroll_submit C key db tm user_id code secret =
     (case verify_code C secret code 0 tm of
        Inl _ \<Rightarrow> (Inr EnrollAgain, db)
      | Inr _ \<Rightarrow>
          (case seal C key (auth_drawn db) secret of
             Inl _ \<Rightarrow> (Inl (Internal ''cipher seal''), db)
           | Inr sealed \<Rightarrow>
               (let db1 = enroll db tm user_id sealed
                in case regenerate_recovery_codes C db1 user_id of
                     (Inl _, db2) \<Rightarrow> (Inl (Internal ''totp''), db2)
                   | (Inr codes, db2) \<Rightarrow>
                       (enrolled_page db2 user_id (unused_recovery_code_count db2 user_id) codes, db2))))"

definition disable_submit :: "crypto \<Rightarrow> byte list \<Rightarrow> auth_db \<Rightarrow> int \<Rightarrow> uuid \<Rightarrow> string \<Rightarrow> string
    \<Rightarrow> (app_error + security_response) \<times> auth_db" where
  "disable_submit C key db tm user_id password code =
     (case verify_password_or_unauthorized C db user_id password of
        Inl e \<Rightarrow> (Inl e, db)
      | Inr _ \<Rightarrow>
          (case fetch_state db user_id of
             None \<Rightarrow> (Inr BackToSecurity, db)
           | Some _ \<Rightarrow>
               (case verify_totp_or_invalid C key db tm user_id code of
                  Inl e \<Rightarrow> (Inl e, db)
                | Inr _ \<Rightarrow> (Inr BackToSecurity, disable db user_id))))"

definition regen_codes_submit :: "crypto \<Rightarrow> byte list \<Rightarrow> auth_db \<Rightarrow> int \<Rightarrow> uuid \<Rightarrow> string \<Rightarrow> string
    \<Rightarrow> (app_error + security_response) \<times> auth_db" where
  "regen_codes_submit C key db tm user_id password code =
     (case verify_password_or_unauthorized C db user_id password of
        Inl e \<Rightarrow> (Inl e, db)
      | Inr _ \<Rightarrow>
          (case verify_totp_or_invalid C key db tm user_id code of
             Inl e \<Rightarrow> (Inl e, db)
           | Inr _ \<Rightarrow>
               (case regenerate_recovery_codes C db user_id of
                  (Inl _, db') \<Rightarrow> (Inl (Internal ''totp''), db')
                | (Inr codes, db') \<Rightarrow> (enrolled_page db' user_id RECOVERY_CODE_COUNT codes, db'))))"

text \<open>
  \<^verbatim>\<open>account.rs\<close>: the page shows a flash or an error text.
\<close>

definition change_password_submit :: "crypto \<Rightarrow> string \<Rightarrow> auth_db \<Rightarrow> int \<Rightarrow> uuid \<Rightarrow> string \<Rightarrow> string \<Rightarrow> string
    \<Rightarrow> (app_error + string) \<times> auth_db" where
  "change_password_submit C common db tm user_id current new confirm =
     (if new \<noteq> confirm then (Inr ''New password and confirmation do not match.'', db)
      else (case change_password C common db tm user_id current new of
              (Inr _, db') \<Rightarrow> (Inr ''Password updated.'', db')
            | (Inl Unauthorized, db') \<Rightarrow> (Inr ''Current password is incorrect.'', db')
            | (Inl (Validation m), db') \<Rightarrow> (Inr m, db')
            | (Inl e, db') \<Rightarrow> (Inl e, db')))"

end
