(* ===== verification/Session_Security.thy ===== *)
theory Session_Security
  imports Login Expense_Policies
begin

unbundle bit_operations_syntax

text \<open>
  The layers around the handlers: signed session cookies (\<^verbatim>\<open>src/src/auth/cookie_signer.rs\<close>), CSRF
  tokens (\<^verbatim>\<open>csrf.rs\<close>), session timeouts (\<^verbatim>\<open>session_timeout.rs\<close>), bearer tokens
  (\<^verbatim>\<open>api_token.rs\<close>), and the two in-memory rate limiters (\<^verbatim>\<open>src/src/api/mod.rs\<close> and
  \<^verbatim>\<open>src/src/ratelimit.rs\<close>).  The stack behind a layer is its argument \<open>next\<close>.
\<close>

section \<open>Signed cookies\<close>

text \<open>
  \<open>H\<close> is SHA-256; \<open>enc\<close> and \<open>dec\<close> are the URL-safe base64 without padding; the keys are derived by HKDF.
\<close>

record cookie_signer =
  current :: "byte list"
  previous :: "byte list list"

definition derive_from :: "(string \<Rightarrow> byte list) \<Rightarrow> string \<Rightarrow> string option \<Rightarrow> cookie_signer" where
  "derive_from derive_key current_secret previous_secret =
     \<lparr>current = derive_key current_secret,
      previous = (case previous_secret of None \<Rightarrow> [] | Some s \<Rightarrow> [derive_key s])\<rparr>"

definition hmac_block :: nat where "hmac_block = 64"

definition hmac :: "(byte list \<Rightarrow> byte list) \<Rightarrow> byte list \<Rightarrow> string \<Rightarrow> byte list" where
  "hmac H key text =
     (let k0 = (if length key > hmac_block then H key else key);
          k = k0 @ replicate (hmac_block - length k0) 0;
          ipad = map (\<lambda>b. 54 XOR b) k;
          opad = map (\<lambda>b. 92 XOR b) k;
          inner = H (ipad @ utf8 text)
      in H (opad @ inner))"

definition constant_time_eq :: "byte list \<Rightarrow> byte list \<Rightarrow> bool" where
  "constant_time_eq a b =
     (if length a \<noteq> length b then False else foldl (\<lambda>acc (x, y). acc OR (x XOR y)) 0 (zip a b) = 0)"

fun verify_previous :: "(byte list \<Rightarrow> byte list) \<Rightarrow> string \<Rightarrow> byte list \<Rightarrow> nat \<Rightarrow> byte list list \<Rightarrow> nat option" where
  "verify_previous H sid mac i [] = None"
| "verify_previous H sid mac i (prev # rest) =
     (if constant_time_eq (hmac H prev sid) mac then Some (i + 1) else verify_previous H sid mac (i + 1) rest)"

definition verify_cookie :: "(byte list \<Rightarrow> byte list) \<Rightarrow> (string \<Rightarrow> byte list option) \<Rightarrow> cookie_signer \<Rightarrow> string \<Rightarrow> string
    \<Rightarrow> nat option" where
  "verify_cookie H dec sg session_id mac_b64 =
     (case dec mac_b64 of
        None \<Rightarrow> None
      | Some mac_bytes \<Rightarrow>
          if constant_time_eq (hmac H (current sg) session_id) mac_bytes then Some 0
          else verify_previous H session_id mac_bytes 0 (previous sg))"

definition sign_cookie :: "(byte list \<Rightarrow> byte list) \<Rightarrow> (byte list \<Rightarrow> string) \<Rightarrow> cookie_signer \<Rightarrow> string \<Rightarrow> string" where
  "sign_cookie H enc sg session_id = enc (hmac H (current sg) session_id)"

definition COOKIE_NAME :: string where "COOKIE_NAME = ''oa_session''"

fun parse_parts :: "string list \<Rightarrow> (string \<times> string) option" where
  "parse_parts [] = None"
| "parse_parts (part # parts) =
     (case split_once (CHR ''='') (trim part) of
        None \<Rightarrow> None
      | Some (name, value) \<Rightarrow>
          if name = COOKIE_NAME then split_once (CHR ''.'') value else parse_parts parts)"

definition parse_session_cookie :: "string \<Rightarrow> (string \<times> string) option" where
  "parse_session_cookie header = parse_parts (split_on (CHR '';'') header)"

definition rewrite_part :: "(string \<Rightarrow> string) \<Rightarrow> string \<Rightarrow> string" where
  "rewrite_part sign part =
     (case split_once (CHR ''='') part of
        Some (name, value) \<Rightarrow>
          if name = COOKIE_NAME then COOKIE_NAME @ ''='' @ value @ ''.'' @ sign value else part
      | None \<Rightarrow> part)"

fun join_parts :: "string list \<Rightarrow> string" where
  "join_parts [] = []"
| "join_parts [p] = p"
| "join_parts (p # q # ps) = p @ ''; '' @ join_parts (q # ps)"

definition rewrite_set_cookie :: "(string \<Rightarrow> string) \<Rightarrow> string \<Rightarrow> string" where
  "rewrite_set_cookie sign set_cookie =
     join_parts (map (rewrite_part sign) (filter (\<lambda>p. p \<noteq> []) (map trim (split_on (CHR '';'') set_cookie))))"

text \<open>
  A response is its status, its \<^verbatim>\<open>Set-Cookie\<close> headers, its content type and its body.  \<^verbatim>\<open>HeaderValue::to_str\<close>
  yields text only for visible ASCII characters and tabs.  \<^verbatim>\<open>headers_mut().insert\<close> replaces every header of the
  name by one.
\<close>

record response =
  r_status :: nat
  r_cookies :: "string list"
  r_type :: "string option"
  r_body :: string

definition header_str :: "string \<Rightarrow> string option" where
  "header_str v =
     (if list_all (\<lambda>c. (32 \<le> (of_char c :: nat) \<and> (of_char c :: nat) < 127) \<or> (of_char c :: nat) = 9) v
      then Some v else None)"

definition invalid_cookie_response :: response where
  "invalid_cookie_response =
     \<lparr>r_status = 401, r_cookies = [COOKIE_NAME @ ''=; Path=/; Max-Age=0''], r_type = Some ''text/plain; charset=utf-8'',
      r_body = ''Invalid session cookie.''\<rparr>"

definition resign :: "(string \<Rightarrow> string) \<Rightarrow> response \<Rightarrow> response" where
  "resign sign r =
     (case r_cookies r of
        [] \<Rightarrow> r
      | c # _ \<Rightarrow> (case header_str c of None \<Rightarrow> r | Some sc \<Rightarrow> r\<lparr>r_cookies := [rewrite_set_cookie sign sc]\<rparr>))"

definition enforce_signed_cookie :: "(byte list \<Rightarrow> byte list) \<Rightarrow> (byte list \<Rightarrow> string) \<Rightarrow> (string \<Rightarrow> byte list option)
    \<Rightarrow> cookie_signer \<Rightarrow> (string option \<Rightarrow> response) \<Rightarrow> string option \<Rightarrow> response" where
  "enforce_signed_cookie H enc dec sg next cookie =
     (case Option.bind cookie header_str of
        None \<Rightarrow> next cookie
      | Some h \<Rightarrow>
          (case parse_session_cookie h of
             None \<Rightarrow> next cookie
           | Some (session_id, mac) \<Rightarrow>
               (case verify_cookie H dec sg session_id mac of
                  None \<Rightarrow> invalid_cookie_response
                | Some _ \<Rightarrow> resign (sign_cookie H enc sg) (next (Some (COOKIE_NAME @ ''='' @ session_id))))))"

section \<open>CSRF tokens\<close>

definition ensure_token :: "session \<Rightarrow> byte list \<Rightarrow> string \<times> session" where
  "ensure_token s random =
     (case s_csrf s of
        Some t \<Rightarrow> (t, s)
      | None \<Rightarrow> (let t = hex_lower random in (t, s\<lparr>s_csrf := Some t\<rparr>)))"

text \<open>
  A request as the layer sees it.  \<open>q_bypass\<close> and \<open>q_token\<close> are the headers \<^verbatim>\<open>X-OA-CSRF-Bypass\<close> and
  \<^verbatim>\<open>X-CSRF-Token\<close>; \<open>form_parse\<close> is \<^verbatim>\<open>form_urlencoded::parse\<close> on text that is valid UTF-8 (\<open>None\<close> otherwise).
\<close>

record request =
  q_post :: bool
  q_type :: "string option"
  q_bypass :: "string option"
  q_token :: "string option"
  q_body :: "byte list"

definition MAX_BODY_BYTES :: nat where "MAX_BODY_BYTES = 8388608"

definition to_bytes :: "byte list \<Rightarrow> byte list" where
  "to_bytes body = (if length body > MAX_BODY_BYTES then [] else body)"

definition urlencoded_csrf :: "(byte list \<Rightarrow> (string \<times> string) list option) \<Rightarrow> byte list \<Rightarrow> string option" where
  "urlencoded_csrf form_parse body =
     (case form_parse body of
        None \<Rightarrow> None
      | Some kvs \<Rightarrow> map_option snd (find (\<lambda>(k, v). k = ''csrf_token'') kvs))"

definition looks_like_urlencoded_form :: "string option \<Rightarrow> bool" where
  "looks_like_urlencoded_form ct =
     (case ct of None \<Rightarrow> False | Some s \<Rightarrow> starts_with ''application/x-www-form-urlencoded'' s)"

definition is_html_response :: "response \<Rightarrow> bool" where
  "is_html_response r = (case Option.bind (r_type r) header_str of None \<Rightarrow> False | Some s \<Rightarrow> starts_with ''text/html'' s)"

text \<open>
  \<^verbatim>\<open>inject_form_token\<close>: from the cursor, find \<^verbatim>\<open><form\<close>, then the next \<^verbatim>\<open>>\<close>; copy up to and including it, add the
  hidden input, go on behind it.
\<close>

function inject_form_token :: "string \<Rightarrow> string \<Rightarrow> string" where
  "inject_form_token html hidden =
     (case str_find ''<form'' html of
        None \<Rightarrow> html
      | Some start \<Rightarrow>
          (case str_find ''>'' (drop start html) of
             None \<Rightarrow> html
           | Some gt \<Rightarrow>
               take (start + gt + 1) html @ hidden @ inject_form_token (drop (start + gt + 1) html) hidden))"
  by auto

termination
proof (relation "measure (length o fst)")
  fix html hidden :: string and start gt
  assume "str_find ''<form'' html = Some start" "str_find ''>'' (drop start html) = Some gt"
  from str_find_length [OF this(1)] show "((drop (start + gt + 1) html, hidden), html, hidden) \<in> measure (length o fst)"
    by (cases html) auto
qed simp

declare inject_form_token.simps [simp del]

definition quoted :: "string \<Rightarrow> string" where
  "quoted s = [CHR 0x22] @ s @ [CHR 0x22]"

definition csrf_meta :: "string \<Rightarrow> string" where
  "csrf_meta token = ''<meta name='' @ quoted ''csrf-token'' @ '' content='' @ quoted token @ ''>''"

definition csrf_hidden :: "string \<Rightarrow> string" where
  "csrf_hidden token =
     ''<input type='' @ quoted ''hidden'' @ '' name='' @ quoted ''csrf_token'' @ '' value='' @ quoted token @ ''>''"

definition insert_meta :: "string \<Rightarrow> string \<Rightarrow> string" where
  "insert_meta html meta =
     (if contains_str (''name='' @ quoted ''csrf-token'') html then html
      else (case str_find ''</head>'' html of
              Some pos \<Rightarrow> take pos html @ meta @ drop pos html
            | None \<Rightarrow> meta @ html))"

text \<open>A body over the limit is replaced by an empty one.\<close>

definition post_process_html :: "response \<Rightarrow> string \<Rightarrow> response" where
  "post_process_html r token =
     (if length (utf8 (r_body r)) > MAX_BODY_BYTES then r\<lparr>r_body := []\<rparr>
      else r\<lparr>r_type := Some ''text/html; charset=utf-8'',
             r_body := inject_form_token (insert_meta (r_body r) (csrf_meta token)) (csrf_hidden token)\<rparr>)"

definition forbidden_response :: response where
  "forbidden_response =
     \<lparr>r_status = 403, r_cookies = [], r_type = Some ''text/plain; charset=utf-8'', r_body = ''Forbidden''\<rparr>"

definition finish_html :: "response \<Rightarrow> string \<Rightarrow> response" where
  "finish_html r token = (if is_html_response r then post_process_html r token else r)"

definition ct_eq :: "string \<Rightarrow> string \<Rightarrow> bool" where
  "ct_eq a b = (utf8 a = utf8 b)"

definition csrf_middleware :: "(byte list \<Rightarrow> (string \<times> string) list option) \<Rightarrow> byte list
    \<Rightarrow> (request \<Rightarrow> session option \<Rightarrow> response \<times> session option) \<Rightarrow> session option \<Rightarrow> request
    \<Rightarrow> response \<times> session option" where
  "csrf_middleware form_parse random next session req =
     (case session of
        None \<Rightarrow> next req None
      | Some s \<Rightarrow>
          (let (token, s1) = ensure_token s random;
               run = (\<lambda>q. let (r, s2) = next q (Some s1) in (finish_html r token, s2))
           in if q_post req then
                if Option.bind (q_bypass req) header_str = Some ''1'' then run req
                else
                  (let header = Option.bind (q_token req) header_str;
                       peek = (header = None \<and> looks_like_urlencoded_form (Option.bind (q_type req) header_str));
                       req' = (if peek then req\<lparr>q_body := to_bytes (q_body req)\<rparr> else req);
                       supplied = (if peek then urlencoded_csrf form_parse (q_body req') else header)
                   in case supplied of
                        Some t \<Rightarrow> if ct_eq t token then run req' else (forbidden_response, Some s1)
                      | None \<Rightarrow> (forbidden_response, Some s1))
              else run req))"

section \<open>Session timeouts\<close>

text \<open>The guard's windows are milliseconds; the clock and the stamps are microseconds.\<close>

record session_guard =
  idle :: int
  absolute :: int

definition default_guard :: session_guard where
  "default_guard = \<lparr>idle = 30 * 60 * 1000, absolute = 12 * 60 * 60 * 1000\<rparr>"

definition whole_milliseconds :: "int \<Rightarrow> int" where
  "whole_milliseconds d = (if 0 \<le> d then d div 1000 else - (- d div 1000))"

definition expired :: "int option \<Rightarrow> int \<Rightarrow> int \<Rightarrow> bool" where
  "expired stamp window tm =
     (case stamp of None \<Rightarrow> False | Some t \<Rightarrow> whole_milliseconds (tm - t) > window)"

definition url_safe :: "nat \<Rightarrow> bool" where
  "url_safe b \<longleftrightarrow> (65 \<le> b \<and> b \<le> 90) \<or> (97 \<le> b \<and> b \<le> 122) \<or> (48 \<le> b \<and> b \<le> 57)
     \<or> b = 45 \<or> b = 95 \<or> b = 46 \<or> b = 126 \<or> b = 47"

definition hex_upper_digit :: "nat \<Rightarrow> char" where
  "hex_upper_digit n = char_of (if n < 10 then 48 + n else 55 + n)"

definition urlencode :: "string \<Rightarrow> string" where
  "urlencode s =
     concat (map (\<lambda>b. if url_safe b then [char_of b]
                      else ''%'' @ [hex_upper_digit (b div 16), hex_upper_digit (b mod 16)]) (map unat (utf8 s)))"

text \<open>
  The layer either redirects and drops the session, or stamps it and passes the request on.
\<close>

datatype timeout_result = Expired string | Pass session

definition enforce_timeout :: "session_guard \<Rightarrow> int \<Rightarrow> string option \<Rightarrow> session \<Rightarrow> timeout_result" where
  "enforce_timeout g tm path_and_query s =
     (if expired (s_last_seen s) (idle g) tm \<or> expired (s_created s) (absolute g) tm
      then Expired (''/login?next='' @ urlencode (unwrap_or path_and_query ''/'') @ ''&expired=1'')
      else let should_refresh = (case s_last_seen s of
                   Some t \<Rightarrow> whole_milliseconds (tm - t) \<ge> idle g div 2
                 | None \<Rightarrow> True)
           in Pass (if should_refresh then s\<lparr>s_last_seen := Some tm\<rparr> else s))"

section \<open>Bearer tokens\<close>

record api_token_row =
  at_id :: uuid
  at_user :: uuid
  at_name :: string
  at_prefix :: string
  at_hash :: string
  at_created :: int
  at_last_used :: "int option"
  at_revoked :: "int option"

definition TOKEN_PREFIX :: string where "TOKEN_PREFIX = ''oa_live_''"
definition SECRET_BYTES :: nat where "SECRET_BYTES = 24"
definition PREFIX_CHARS :: nat where "PREFIX_CHARS = 12"

text \<open>
  \<^verbatim>\<open>issue_token\<close>: the random bytes and the row identifier are arguments; the column \<^verbatim>\<open>token_prefix\<close> is unique.
\<close>

definition issue_token :: "crypto \<Rightarrow> nat \<Rightarrow> byte list \<Rightarrow> uuid \<Rightarrow> int \<Rightarrow> uuid \<Rightarrow> string \<Rightarrow> api_token_row list
    \<Rightarrow> (db_error + string \<times> api_token_row) \<times> api_token_row list" where
  "issue_token C salt random i tm user_id name rows =
     (let secret = hex_lower random; plaintext = TOKEN_PREFIX @ secret; prefix = take PREFIX_CHARS secret
      in case argon_hash C salt secret of
           None \<Rightarrow> (Inl (RaisedException ''hash''), rows)
         | Some hash \<Rightarrow>
             if list_ex (\<lambda>r. at_prefix r = prefix \<or> at_id r = i) rows
             then (Inl (UniqueViolation ''api_tokens''), rows)
             else (let row = \<lparr>at_id = i, at_user = user_id, at_name = name, at_prefix = prefix, at_hash = hash,
                         at_created = tm, at_last_used = None, at_revoked = None\<rparr>
                   in (Inr (plaintext, row), rows @ [row])))"

definition verify_token :: "crypto \<Rightarrow> int \<Rightarrow> string \<Rightarrow> api_token_row list
    \<Rightarrow> (uuid \<times> uuid) option \<times> api_token_row list" where
  "verify_token C tm header_value rows =
     (let token = trim (unwrap_or (strip_prefix ''Bearer '' header_value) header_value)
      in case strip_prefix TOKEN_PREFIX token of
           None \<Rightarrow> (None, rows)
         | Some secret \<Rightarrow>
             if length secret < PREFIX_CHARS then (None, rows)
             else (case find (\<lambda>r. at_prefix r = take PREFIX_CHARS secret) rows of
                 None \<Rightarrow> (None, rows)
               | Some row \<Rightarrow>
                   if at_revoked row \<noteq> None \<or> argon_verify C secret (at_hash row) \<noteq> Some True then (None, rows)
                   else (Some (at_user row, at_id row),
                         map (\<lambda>r. if at_id r = at_id row then r\<lparr>at_last_used := Some tm\<rparr> else r) rows)))"

definition revoke_token :: "int \<Rightarrow> uuid \<Rightarrow> uuid \<Rightarrow> api_token_row list \<Rightarrow> bool \<times> api_token_row list" where
  "revoke_token tm token_id user_id rows =
     (list_ex (\<lambda>r. at_id r = token_id \<and> at_user r = user_id) rows,
      map (\<lambda>r. if at_id r = token_id \<and> at_user r = user_id
               then r\<lparr>at_revoked := Some (unwrap_or (at_revoked r) tm)\<rparr> else r) rows)"

definition list_tokens :: "uuid \<Rightarrow> api_token_row list \<Rightarrow> api_token_row list" where
  "list_tokens user_id rows = sort_key (\<lambda>r. - at_created r) (filter (\<lambda>r. at_user r = user_id) rows)"

section \<open>In-memory rate limiters\<close>

text \<open>
  The limiter of \<^verbatim>\<open>src/src/api/mod.rs\<close>: per token the instants of the accepted requests, oldest first, in
  nanoseconds of the monotonic clock.
\<close>

type_synonym api_limiter = "(uuid \<times> int list) list"

definition DEFAULT_LIMIT_PER_MIN :: nat where "DEFAULT_LIMIT_PER_MIN = 120"
definition api_window :: int where "api_window = 60000000000"
definition MAX_TRACKED_TOKENS :: nat where "MAX_TRACKED_TOKENS = 10000"

definition hits_of :: "api_limiter \<Rightarrow> uuid \<Rightarrow> int list" where
  "hits_of state token_id = unwrap_or (map_of state token_id) []"

definition set_hits :: "uuid \<Rightarrow> int list \<Rightarrow> api_limiter \<Rightarrow> api_limiter" where
  "set_hits token_id hits state = (token_id, hits) # filter (\<lambda>e. fst e \<noteq> token_id) state"

definition api_check :: "nat \<Rightarrow> int \<Rightarrow> uuid \<Rightarrow> api_limiter \<Rightarrow> (int + unit) \<times> api_limiter" where
  "api_check limit tm token_id state =
     (let state1 = (if length state \<ge> MAX_TRACKED_TOKENS \<and> token_id \<notin> fst ` set state then [] else state);
          hits = dropWhile (\<lambda>t. tm - t \<ge> api_window) (hits_of state1 token_id)
      in if length hits \<ge> limit
         then (Inl (case hits of [] \<Rightarrow> 1 | t # _ \<Rightarrow> max 0 (api_window - (tm - t)) div 1000000000 + 1),
               set_hits token_id hits state1)
         else (Inr (), set_hits token_id (hits @ [tm]) state1))"

datatype route_class = RcAuth | RcApi | RcWebhook | RcImport

definition classify :: "string \<Rightarrow> route_class option" where
  "classify path =
     (if path = ''/login'' \<or> starts_with ''/login/'' path \<or> path = ''/register''
         \<or> starts_with ''/register/'' path \<or> path = ''/logout'' \<or> starts_with ''/auth/'' path
      then Some RcAuth
      else if starts_with ''/api/'' path then Some RcApi
      else if contains_str ''/webhooks/'' path then Some RcWebhook
      else if contains_str ''/import'' path then Some RcImport
      else None)"

fun default_budget :: "route_class \<Rightarrow> nat" where
  "default_budget RcAuth = 60"
| "default_budget RcApi = 600"
| "default_budget RcWebhook = 120"
| "default_budget RcImport = 60"

text \<open>
  The token bucket computes in \<^verbatim>\<open>f64\<close>; every operation is rounded by \<open>f64_of\<close>.  Times are nanoseconds.
\<close>

record token_bucket =
  tb_capacity :: rat
  tb_tokens :: rat
  tb_last :: int

definition new_bucket :: "nat \<Rightarrow> int \<Rightarrow> token_bucket" where
  "new_bucket budget_per_min tm =
     (let c = f64_of (of_nat (max budget_per_min 1)) in \<lparr>tb_capacity = c, tb_tokens = c, tb_last = tm\<rparr>)"

definition bucket_check :: "int \<Rightarrow> token_bucket \<Rightarrow> (int + unit) \<times> token_bucket" where
  "bucket_check tm b =
     (let nanos = max 0 (tm - tb_last b);
          elapsed = f64_of (f64_of (of_int (nanos div 1000000000)) + f64_of (of_int (nanos mod 1000000000) / 1000000000));
          filled = f64_of (tb_tokens b + f64_of (f64_of (elapsed * tb_capacity b) / 60));
          tokens = min filled (tb_capacity b)
      in if tokens \<ge> 1
         then (Inr (), b\<lparr>tb_tokens := f64_of (tokens - 1), tb_last := tm\<rparr>)
         else (let wait = f64_of (f64_of (f64_of (1 - tokens) * 60) / tb_capacity b)
               in (Inl (\<lceil>wait\<rceil> + 1), b\<lparr>tb_tokens := tokens, tb_last := tm\<rparr>)))"

end
