(* ===== verification/Login_Properties.thy ===== *)
theory Login_Properties
  imports Login
begin

text \<open>
  What the sign-in code guarantees over any sequence of requests: the throttle bounds the recorded
  failures, a time-based code is accepted once by requests that run one after the other, and recovery codes
  are well formed and redeemable once.
\<close>

section \<open>Sequences of requests\<close>

text \<open>The operations that change the tables of this component, as commands with the session they carry.\<close>

datatype auth_cmd =
    CLogin session int int string login_form
  | CTwoFactor session int int two_factor_form
  | CRegister session int int register_form
  | CPassword int uuid string string string
  | CEnroll int uuid string string
  | CDisable int uuid string string
  | CRegenerate int uuid string string
  | CPrune int

fun auth_step :: "crypto \<Rightarrow> byte list \<Rightarrow> string \<Rightarrow> auth_cmd \<Rightarrow> auth_db \<Rightarrow> auth_db" where
  "auth_step C key common (CLogin s tm tm' ip form) db = fst (snd (login_submit C db s tm tm' ip form))"
| "auth_step C key common (CTwoFactor s tm tm' form) db = fst (snd (login_2fa_submit C key db s tm tm' form))"
| "auth_step C key common (CRegister s tm tm' form) db = fst (snd (register_submit C common db s tm tm' form))"
| "auth_step C key common (CPassword tm u cur new conf) db = snd (change_password_submit C common db tm u cur new conf)"
| "auth_step C key common (CEnroll tm u code secret) db = snd (enroll_submit C key db tm u code secret)"
| "auth_step C key common (CDisable tm u pw code) db = snd (disable_submit C key db tm u pw code)"
| "auth_step C key common (CRegenerate tm u pw code) db = snd (regen_codes_submit C key db tm u pw code)"
| "auth_step C key common (CPrune tm) db = snd (prune_run_once db tm)"

section \<open>The throttle\<close>

definition failures_in :: "(attempt_row \<Rightarrow> bool) \<Rightarrow> int \<Rightarrow> int \<Rightarrow> attempt_row list \<Rightarrow> nat" where
  "failures_in P window t rows =
     length (filter (\<lambda>r. P r \<and> \<not> la_success r \<and> t - window < la_ts r \<and> la_ts r \<le> t) rows)"

definition throttle_ok :: "auth_db \<Rightarrow> bool" where
  "throttle_ok db \<longleftrightarrow>
     (\<forall>email t. failures_in (\<lambda>r. la_email r = email) (minutes 10) t (attempts db) \<le> 5) \<and>
     (\<forall>ip t. failures_in (\<lambda>r. la_ip r = ip) (minutes 60) t (attempts db) \<le> 20)"

lemma length_filter_mono: "(\<And>x. x \<in> set xs \<Longrightarrow> P x \<Longrightarrow> Q x) \<Longrightarrow> length (filter P xs) \<le> length (filter Q xs)"
  by (induction xs) (simp_all add: le_SucI)

lemma failures_in_filter: "failures_in P w t (filter Q rows) \<le> failures_in P w t rows"
  by (auto simp: failures_in_def intro!: length_filter_mono)

text \<open>
  Adding a failure now, when fewer than \<open>n\<close> of the kind are newer than the start of the window, keeps
  every window within \<open>n\<close>.
\<close>

lemma failures_in_snoc:
  assumes bound: "\<forall>t. failures_in P w t rows \<le> n"
    and room: "P x \<Longrightarrow> length (filter (\<lambda>r. P r \<and> \<not> la_success r \<and> la_ts x - w < la_ts r) rows) < n"
  shows "failures_in P w t (rows @ [x]) \<le> n"
proof (cases "P x \<and> la_ts x \<le> t")
  case True
  have "failures_in P w t rows \<le> length (filter (\<lambda>r. P r \<and> \<not> la_success r \<and> la_ts x - w < la_ts r) rows)"
    unfolding failures_in_def using True by (intro length_filter_mono) auto
  with room True show ?thesis by (auto simp: failures_in_def)
next
  case False
  with bound show ?thesis by (auto simp: failures_in_def)
qed

lemma failures_in_snoc_success: "la_success x \<Longrightarrow> failures_in P w t (rows @ [x]) = failures_in P w t rows"
  by (simp add: failures_in_def)

lemma throttle_ok_cong: "attempts db' = attempts db \<Longrightarrow> throttle_ok db \<Longrightarrow> throttle_ok db'"
  by (simp add: throttle_ok_def)

lemma throttle_ok_filter:
  "attempts db' = filter Q (attempts db) \<Longrightarrow> throttle_ok db \<Longrightarrow> throttle_ok db'"
  unfolding throttle_ok_def using failures_in_filter order_trans by (metis (no_types, lifting))

lemma throttle_ok_failure:
  assumes "throttle_ok db" "check_account db email tm = Allowed" "check_ip db ip tm = Allowed"
  shows "throttle_ok (record_attempt db ip email False tm)"
  unfolding throttle_ok_def record_attempt_def
proof (intro conjI allI)
  let ?x = "\<lparr>la_ip = ip, la_email = email, la_success = False, la_ts = tm\<rparr>"
  fix e t
  have "failures_in (\<lambda>r. la_email r = e) (minutes 10) t (attempts db @ [?x]) \<le> 5"
    by (rule failures_in_snoc) (use assms in \<open>auto simp: throttle_ok_def check_account_def account_failures_def
      ACCOUNT_WINDOW_MINUTES_def ACCOUNT_FAILURE_THRESHOLD_def split: if_splits\<close>)
  then show "failures_in (\<lambda>r. la_email r = e) (minutes 10) t
      (attempts (db\<lparr>attempts := attempts db @ [?x]\<rparr>)) \<le> 5" by simp
next
  let ?x = "\<lparr>la_ip = ip, la_email = email, la_success = False, la_ts = tm\<rparr>"
  fix i t
  have "failures_in (\<lambda>r. la_ip r = i) (minutes 60) t (attempts db @ [?x]) \<le> 20"
    by (rule failures_in_snoc) (use assms in \<open>auto simp: throttle_ok_def check_ip_def ip_failures_def
      IP_WINDOW_MINUTES_def IP_FAILURE_THRESHOLD_def split: if_splits\<close>)
  then show "failures_in (\<lambda>r. la_ip r = i) (minutes 60) t
      (attempts (db\<lparr>attempts := attempts db @ [?x]\<rparr>)) \<le> 20" by simp
qed

lemma throttle_ok_success: "throttle_ok db \<Longrightarrow> throttle_ok (record_success db ip email tm)"
proof -
  assume "throttle_ok db"
  then have "throttle_ok (record_attempt db ip email True tm)"
    by (simp add: throttle_ok_def record_attempt_def failures_in_snoc_success)
  then show ?thesis by (rule throttle_ok_filter [rotated]) (simp add: record_success_def Let_def)
qed

text \<open>The other operations leave the attempts alone.\<close>

lemma insert_codes_frame:
  "insert_codes C u codes db = Inr db' \<Longrightarrow>
     attempts db' = attempts db \<and> totps db' = totps db \<and> auth_users db' = auth_users db"
  by (induction codes arbitrary: db) (auto split: option.splits)

lemma regenerate_frame:
  "attempts (snd (regenerate_recovery_codes C db u)) = attempts db"
  "totps (snd (regenerate_recovery_codes C db u)) = totps db"
  by (auto simp: regenerate_recovery_codes_def Let_def split: sum.splits dest: insert_codes_frame)

lemma consume_frame:
  "attempts (snd (consume_recovery_code C L db tm u code)) = attempts db"
  "totps (snd (consume_recovery_code C L db tm u code)) = totps db"
  "auth_users (snd (consume_recovery_code C L db tm u code)) = auth_users db"
  by (auto simp: consume_recovery_code_def split: option.splits)

lemma consume_dest: "consume_recovery_code C L db tm u code = (m, db') \<Longrightarrow> totps db' = totps db"
  using consume_frame(2) [of C L db tm u code] by simp

lemma match_code_frame:
  "attempts (snd (match_code C db tm u secret counter code)) = attempts db"
  "totps (snd (match_code C db tm u secret counter code)) = totps db"
  "auth_users (snd (match_code C db tm u secret counter code)) = auth_users db"
  using consume_frame [of C "{}" db tm u "to_uppercase (trim code)"]
  by (auto simp: match_code_def split: sum.splits prod.splits)

text \<open>The same facts in the form a case distinction on the result leaves them.\<close>

lemma match_code_dest:
  assumes "match_code C db tm u secret counter code = (m, db')"
  shows "attempts db' = attempts db" "totps db' = totps db" "auth_users db' = auth_users db"
  using match_code_frame [of C db tm u secret counter code] assms by auto

lemma regenerate_dest:
  assumes "regenerate_recovery_codes C db u = (m, db')"
  shows "attempts db' = attempts db" "totps db' = totps db"
  using regenerate_frame [of C db u] assms by auto

lemma finish_2fa_attempts: "attempts (fst (snd (finish_2fa db s tm' u counter matched nx))) = attempts db"
  by (auto simp: finish_2fa_def Let_def advance_counter_def split: option.splits)

lemma two_factor_attempts: "attempts (fst (snd (login_2fa_submit C key db s tm tm' form))) = attempts db"
  by (auto simp: login_2fa_submit_def finish_2fa_attempts split: option.splits sum.splits prod.splits
      dest: match_code_dest(1))

lemma create_user_frame:
  "attempts (snd (create_user C db tm email name pw)) = attempts db"
  "totps (snd (create_user C db tm email name pw)) = totps db"
  by (auto simp: create_user_def Let_def split: option.splits)

lemma register_frame:
  "attempts (fst (snd (register_submit C common db s tm tm' form))) = attempts db"
  "totps (fst (snd (register_submit C common db s tm tm' form))) = totps db"
  using create_user_frame [of C db tm "rf_email form" "rf_username form" "rf_password form"]
  by (auto simp: register_submit_def Let_def split: sum.splits prod.splits)

lemma change_password_frame:
  "attempts (snd (change_password C common db tm u cur new)) = attempts db"
  "totps (snd (change_password C common db tm u cur new)) = totps db"
  by (auto simp: change_password_def split: option.splits sum.splits bool.splits)

lemma change_password_submit_frame:
  "attempts (snd (change_password_submit C common db tm u cur new conf)) = attempts db"
  "totps (snd (change_password_submit C common db tm u cur new conf)) = totps db"
  using change_password_frame [of C common db tm u cur new]
  by (auto simp: change_password_submit_def split: sum.splits prod.splits app_error.splits)

lemma enroll_submit_attempts: "attempts (snd (enroll_submit C key db tm u code secret)) = attempts db"
  by (auto simp: enroll_submit_def Let_def enroll_def split: sum.splits prod.splits dest: regenerate_dest(1))

lemma disable_submit_attempts: "attempts (snd (disable_submit C key db tm u pw code)) = attempts db"
  by (auto simp: disable_submit_def disable_def split: sum.splits option.splits)

lemma regen_frame:
  "attempts (snd (regen_codes_submit C key db tm u pw code)) = attempts db"
  "totps (snd (regen_codes_submit C key db tm u pw code)) = totps db"
  using regenerate_frame [of C db u]
  by (auto simp: regen_codes_submit_def split: sum.splits prod.splits)

lemma throttle_ok_login: "throttle_ok db \<Longrightarrow> throttle_ok (fst (snd (login_submit C db s tm tm' ip form)))"
  by (auto simp: login_submit_def Let_def throttle_ok_failure throttle_ok_success check_account_def check_ip_def
      split: sum.splits option.splits)

lemma throttle_ok_step: "throttle_ok db \<Longrightarrow> throttle_ok (auth_step C key common c db)"
  by (cases c)
    (auto simp: throttle_ok_login prune_run_once_def Let_def
      intro: throttle_ok_cong [rotated] throttle_ok_filter [rotated] two_factor_attempts register_frame(1)
        change_password_submit_frame(1) enroll_submit_attempts disable_submit_attempts regen_frame(1))

interpretation throttled: command_system "auth_step C key common" "\<lambda>_. True" throttle_ok for C key common
  by unfold_locales (rule throttle_ok_step)

section \<open>The counter of time-based codes\<close>

text \<open>The commands that start or end an enrolment of a user.\<close>

fun changes_enrolment :: "uuid \<Rightarrow> auth_cmd \<Rightarrow> bool" where
  "changes_enrolment u (CEnroll tm v code secret) = (u = v)"
| "changes_enrolment u (CDisable tm v pw code) = (u = v)"
| "changes_enrolment u _ = False"

text \<open>The step of the time-based code a request of the second factor is accepted with.\<close>

definition accepted_step :: "crypto \<Rightarrow> byte list \<Rightarrow> auth_db \<Rightarrow> session \<Rightarrow> int \<Rightarrow> two_factor_form \<Rightarrow> (uuid \<times> int) option" where
  "accepted_step C key db s tm form =
     (case s_pending s of
        None \<Rightarrow> None
      | Some u \<Rightarrow>
          (case fetch_state db u of
             None \<Rightarrow> None
           | Some (sealed, counter) \<Rightarrow>
               (case open_blob C key sealed of
                  Inl _ \<Rightarrow> None
                | Inr secret \<Rightarrow>
                    (case verify_code C secret (tf_code form) counter tm of
                       Inl _ \<Rightarrow> None
                     | Inr k \<Rightarrow> Some (u, i64_wrap (int k))))))"

definition counter_at_least :: "uuid \<Rightarrow> int \<Rightarrow> auth_db \<Rightarrow> bool" where
  "counter_at_least u k db \<longleftrightarrow> (\<forall>r\<in>set (totps db). ut_user r = u \<longrightarrow> k \<le> ut_counter r)"

lemma fetch_state_row: "fetch_state db u = Some (sealed, c) \<Longrightarrow>
    \<exists>r\<in>set (totps db). ut_user r = u \<and> ut_secret r = sealed \<and> ut_counter r = c"
  by (auto simp: fetch_state_def dest: find_Some_mem)

lemma verify_code_greater: "verify_code C secret code c tm = Inr k \<Longrightarrow> c < i64_wrap (int k)"
  by (auto simp: verify_code_def result_simps split: if_splits)

lemma accepted_above: "accepted_step C key db s tm form = Some (u, k) \<Longrightarrow> counter_at_least u c db \<Longrightarrow> c < k"
  by (auto simp: accepted_step_def counter_at_least_def split: option.splits prod.splits sum.splits
      dest!: fetch_state_row verify_code_greater)

lemma match_code_ge:
  "match_code C db tm u secret c code = (Some (k, b), db') \<Longrightarrow> c \<le> k"
  by (auto simp: match_code_def split: sum.splits prod.splits dest!: verify_code_greater)

lemma totps_two_factor:
  "totps (fst (snd (login_2fa_submit C key db s tm tm' form))) =
    (case accepted_step C key db s tm form of
       None \<Rightarrow> totps db
     | Some (u, k) \<Rightarrow> map (\<lambda>r. if ut_user r = u \<and> ut_counter r = snd (the (fetch_state db u))
                            then r\<lparr>ut_counter := k\<rparr> else r) (totps db))"
  by (auto simp: login_2fa_submit_def accepted_step_def match_code_def finish_2fa_def advance_counter_def Let_def
      split: option.splits sum.splits prod.splits dest: consume_dest)

definition one_enrolment :: "auth_db \<Rightarrow> bool" where
  "one_enrolment db \<longleftrightarrow> distinct (map ut_user (totps db))"

lemma counter_cong: "totps db' = totps db \<Longrightarrow> counter_at_least u k db \<Longrightarrow> counter_at_least u k db'"
  by (simp add: counter_at_least_def)

lemma counter_two_factor:
  assumes "counter_at_least u k db"
  shows "counter_at_least u k (fst (snd (login_2fa_submit C key db s tm tm' form)))"
proof (cases "accepted_step C key db s tm form")
  case None
  with assms show ?thesis by (simp add: counter_at_least_def totps_two_factor)
next
  case (Some a)
  then obtain v j where a: "accepted_step C key db s tm form = Some (v, j)" by (cases a) auto
  with assms accepted_above [OF a] show ?thesis
    by (force simp: counter_at_least_def totps_two_factor)
qed

lemma login_totps: "totps (fst (snd (login_submit C db s tm tm' ip form))) = totps db"
  by (auto simp: login_submit_def Let_def record_attempt_def record_success_def split: sum.splits option.splits)

lemma counter_enroll: "counter_at_least u k db \<Longrightarrow> v \<noteq> u \<Longrightarrow> counter_at_least u k (enroll db tm v x)"
  by (auto simp: counter_at_least_def enroll_def)

lemma counter_enroll_submit:
  assumes "counter_at_least u k db" "v \<noteq> u"
  shows "counter_at_least u k (snd (enroll_submit C key db tm v code secret))"
  using assms counter_enroll [OF assms]
  by (auto simp: enroll_submit_def Let_def split: sum.splits prod.splits
      dest!: regenerate_dest(2) intro: counter_cong)

lemma counter_disable:
  "counter_at_least u k db \<Longrightarrow> counter_at_least u k (snd (disable_submit C key db tm v pw code))"
  by (auto simp: disable_submit_def disable_def counter_at_least_def split: sum.splits option.splits)

lemma counter_step:
  assumes "counter_at_least u k db" "\<not> changes_enrolment u c"
  shows "counter_at_least u k (auth_step C key common c db)"
  using assms
  by (cases c) (auto simp: counter_two_factor counter_enroll_submit counter_disable prune_run_once_def Let_def
      intro: counter_cong [OF login_totps] counter_cong [OF register_frame(2)]
        counter_cong [OF change_password_submit_frame(2)] counter_cong [OF regen_frame(2)]
        counter_cong [rotated])

interpretation enrolled: command_system "auth_step C key common" "\<lambda>c. \<not> changes_enrolment u c" "counter_at_least u k"
  for C key common u k
  by unfold_locales (rule counter_step)

text \<open>An accepted code moves the counter of its user, who has one row, to the step it matched.\<close>

lemma counter_after_accept:
  assumes one: "one_enrolment db" and acc: "accepted_step C key db s tm form = Some (u, k)"
  shows "counter_at_least u k (fst (snd (login_2fa_submit C key db s tm tm' form)))"
proof -
  obtain sealed c where f: "fetch_state db u = Some (sealed, c)"
    using acc by (auto simp: accepted_step_def split: option.splits sum.splits)
  from fetch_state_row [OF f] obtain q where q: "q \<in> set (totps db)" "ut_user q = u" "ut_counter q = c" by blast
  have row: "ut_counter r = c" if "r \<in> set (totps db)" "ut_user r = u" for r
    using one q that by (metis distinct_map inj_on_def one_enrolment_def)
  show ?thesis
    unfolding counter_at_least_def
  proof (intro ballI impI)
    fix x assume x': "x \<in> set (totps (fst (snd (login_2fa_submit C key db s tm tm' form))))" and u: "ut_user x = u"
    have "x \<in> (\<lambda>r. if ut_user r = u \<and> ut_counter r = c then r\<lparr>ut_counter := k\<rparr> else r) ` set (totps db)"
      using x' by (simp only: totps_two_factor acc f option.case prod.case set_map option.sel snd_conv)
    then obtain r where r: "r \<in> set (totps db)"
      and x: "x = (if ut_user r = u \<and> ut_counter r = c then r\<lparr>ut_counter := k\<rparr> else r)" by (rule imageE)
    from x u have "ut_user r = u" by (simp split: if_splits)
    with row [OF r] x show "k \<le> ut_counter x" by simp
  qed
qed

section \<open>Recovery codes\<close>

text \<open>The rows of a fresh batch: one unused row of the user per code, with a hash of it.\<close>

definition fresh_codes :: "crypto \<Rightarrow> uuid \<Rightarrow> string list \<Rightarrow> recovery_row list \<Rightarrow> bool" where
  "fresh_codes C u codes rows \<longleftrightarrow>
     list_all2 (\<lambda>c r. rc_user r = u \<and> rc_consumed r = None \<and> (\<exists>n. argon_hash C n c = Some (rc_hash r))) codes rows"

lemma insert_codes_rows:
  assumes "insert_codes C u codes db = Inr db'"
  shows "\<exists>rows. recovery db' = recovery db @ rows \<and> fresh_codes C u codes rows"
  using assms
proof (induction codes arbitrary: db)
  case Nil
  then show ?case by (simp add: fresh_codes_def)
next
  case (Cons code codes)
  then obtain h where h: "argon_hash C (auth_drawn db) code = Some h" by (cases "argon_hash C (auth_drawn db) code") auto
  let ?r = "\<lparr>rc_id = row_uuid C (auth_drawn db), rc_user = u, rc_hash = h, rc_consumed = None\<rparr>"
  let ?db = "db\<lparr>recovery := recovery db @ [?r], auth_drawn := Suc (auth_drawn db)\<rparr>"
  from Cons.prems h have "insert_codes C u codes ?db = Inr db'" by simp
  from Cons.IH [OF this] obtain rows where rows: "recovery db' = recovery ?db @ rows" "fresh_codes C u codes rows"
    by blast
  have "fresh_codes C u (code # codes) (?r # rows)" using h rows(2) by (auto simp: fresh_codes_def)
  moreover have "recovery db' = recovery db @ ?r # rows" using rows(1) by simp
  ultimately show ?case by blast
qed

lemma codes_shape:
  "length (generate_recovery_codes C pos) = 10"
  "c \<in> set (generate_recovery_codes C pos) \<Longrightarrow> length c = 8 \<and> set c \<subseteq> set recovery_alphabet"
proof -
  show "length (generate_recovery_codes C pos) = 10"
    by (simp add: generate_recovery_codes_def RECOVERY_CODE_COUNT_def)
  have "recovery_alphabet ! (n mod length recovery_alphabet) \<in> set recovery_alphabet" for n
    by (rule nth_mem) (simp add: recovery_alphabet_def)
  then show "c \<in> set (generate_recovery_codes C pos) \<Longrightarrow> length c = 8 \<and> set c \<subseteq> set recovery_alphabet"
    by (auto simp: generate_recovery_codes_def RECOVERY_CODE_LEN_def)
qed

text \<open>A code survives the trimming and upper-casing of the form.\<close>

lemma alphabet_list: "list_all (\<lambda>c. \<not> is_ws c \<and> upper_char c = [c]) recovery_alphabet"
  by code_simp

lemma alphabet_plain: "c \<in> set recovery_alphabet \<Longrightarrow> \<not> is_ws c \<and> upper_char c = [c]"
  using alphabet_list by (simp add: list_all_iff)

lemma code_plain: "set c \<subseteq> set recovery_alphabet \<Longrightarrow> to_uppercase (trim c) = c"
proof -
  assume c: "set c \<subseteq> set recovery_alphabet"
  then have "trim c = c" by (intro trim_no_ws) (auto dest: alphabet_plain)
  moreover have "concat (map upper_char c) = c"
    using c by (induction c) (auto simp: alphabet_plain)
  ultimately show ?thesis by (simp add: to_uppercase_def)
qed

lemma regenerate_rows:
  assumes "regenerate_recovery_codes C db u = (Inr codes, db')"
  shows "\<exists>rows. recovery db' = filter (\<lambda>r. rc_user r \<noteq> u) (recovery db) @ rows \<and> fresh_codes C u codes rows"
    and "codes = generate_recovery_codes C (auth_drawn db)"
proof -
  let ?db = "db\<lparr>recovery := filter (\<lambda>r. rc_user r \<noteq> u) (recovery db)\<rparr>"
  show codes: "codes = generate_recovery_codes C (auth_drawn db)"
    using assms by (simp add: regenerate_recovery_codes_def Let_def split: sum.splits)
  with assms have "insert_codes C u codes ?db = Inr db'"
    by (simp add: regenerate_recovery_codes_def Let_def split: sum.splits)
  from insert_codes_rows [OF this]
  show "\<exists>rows. recovery db' = filter (\<lambda>r. rc_user r \<noteq> u) (recovery db) @ rows \<and> fresh_codes C u codes rows" by simp
qed

lemma consume_Inr:
  assumes "consume_recovery_code C L db tm u code = (Inr i, db')"
  obtains row where "row \<in> set (recovery db)" "rc_id row = i" "rc_user row = u" "rc_consumed row = None"
    "recovery db' = map (\<lambda>r. if rc_id r = i then r\<lparr>rc_consumed := Some tm\<rparr> else r) (recovery db)"
  using assms by (auto simp: consume_recovery_code_def split: option.splits dest!: find_Some_mem)

lemma consume_succeeds:
  assumes "r \<in> set (recovery db)" "rc_user r = u" "rc_consumed r = None" "rc_id r \<notin> L"
    "argon_verify C code (rc_hash r) = Some True"
  shows "\<exists>i db'. consume_recovery_code C L db tm u code = (Inr i, db')"
proof -
  have "find (\<lambda>r. verify_recovery_code_hash C code (rc_hash r))
      (filter (\<lambda>r. rc_user r = u \<and> rc_consumed r = None \<and> rc_id r \<notin> L) (recovery db)) \<noteq> None"
    using assms by (auto simp: find_None_iff verify_recovery_code_hash_def)
  then show ?thesis by (auto simp: consume_recovery_code_def)
qed

text \<open>Marking one unused row takes one off the unused rows of its user.\<close>

lemma unused_after_mark:
  assumes "row \<in> set rows" "distinct (map rc_id rows)" "rc_id row = i" "rc_user row = u" "rc_consumed row = None"
  shows "length (filter (\<lambda>r. rc_user r = v \<and> rc_consumed r = None) rows)
      = (if v = u then 1 else 0) + length (filter (\<lambda>r. rc_user r = v \<and> rc_consumed r = None)
          (map (\<lambda>r. if rc_id r = i then r\<lparr>rc_consumed := Some tm\<rparr> else r) rows))"
  using assms(1,2)
proof (induction rows)
  case (Cons x xs)
  show ?case
  proof (cases "x = row")
    case True
    then have "map (\<lambda>r. if rc_id r = i then r\<lparr>rc_consumed := Some tm\<rparr> else r) xs = xs"
      using Cons.prems assms(3) by (auto intro!: map_idI simp: image_iff)
    with True assms show ?thesis by simp
  next
    case False
    then have "rc_id x \<noteq> i" "row \<in> set xs" using Cons.prems assms(3) by (auto simp: image_iff)
    with Cons show ?thesis by (cases "v = u") auto
  qed
qed simp

text \<open>What is relied on of Argon2: a hash verifies the password it was made of.\<close>

definition argon_sound :: "crypto \<Rightarrow> bool" where
  "argon_sound C \<longleftrightarrow> (\<forall>n p h. argon_hash C n p = Some h \<longrightarrow> argon_verify C p h = Some True)"

section \<open>Properties\<close>

lemma login_throttle_parts:
  assumes "throttle_ok db0" and "db = fold (auth_step C key common) cmds db0"
  shows "failures_in (\<lambda>r. la_email r = email) (minutes 10) t (attempts db) \<le> 5"
    and "failures_in (\<lambda>r. la_ip r = ip) (minutes 60) t (attempts db) \<le> 20"
    and "5 \<le> length (account_failures db (normalise_email (lf_email form)) (tm - minutes 10))
           \<or> 20 \<le> length (ip_failures db ip (tm - minutes 60)) \<Longrightarrow>
         \<exists>secs\<ge>1. login_submit C1 db s tm tm' ip form
           = (Inr (LoginError (unwrap_or (lf_next form) []) (lf_email form) 429 (Some secs)), db, s)"
proof -
  have ok: "throttle_ok db"
    using throttled.run_inv [OF assms(1), of cmds] assms(2) by (simp add: list_all_iff)
  then show "failures_in (\<lambda>r. la_email r = email) (minutes 10) t (attempts db) \<le> 5"
    "failures_in (\<lambda>r. la_ip r = ip) (minutes 60) t (attempts db) \<le> 20"
    by (simp_all add: throttle_ok_def)
  assume "5 \<le> length (account_failures db (normalise_email (lf_email form)) (tm - minutes 10))
    \<or> 20 \<le> length (ip_failures db ip (tm - minutes 60))"
  then show "\<exists>secs\<ge>1. login_submit C1 db s tm tm' ip form
           = (Inr (LoginError (unwrap_or (lf_next form) []) (lf_email form) 429 (Some secs)), db, s)"
    by (auto simp: login_submit_def Let_def login_error_page_def check_account_def check_ip_def
        ACCOUNT_WINDOW_MINUTES_def ACCOUNT_FAILURE_THRESHOLD_def IP_WINDOW_MINUTES_def IP_FAILURE_THRESHOLD_def)
qed

text \<open>
  C31: The login throttle.  Whatever sequence of requests and prune passes runs from a table that respects
  the limits, no email ever has more than five recorded failures in any ten minutes, and no address more than
  twenty in any hour; and a request that finds its account or address at the limit is answered 429 without
  the password being checked: the answer and the tables do not depend on the cryptography at all.
\<close>

theorem login_throttle:
  assumes "throttle_ok db0" and "db = fold (auth_step C key common) cmds db0"
  shows "failures_in (\<lambda>r. la_email r = email) (minutes 10) t (attempts db) \<le> 5
    \<and> failures_in (\<lambda>r. la_ip r = ip) (minutes 60) t (attempts db) \<le> 20
    \<and> (5 \<le> length (account_failures db (normalise_email (lf_email form)) (tm - minutes 10))
         \<or> 20 \<le> length (ip_failures db ip (tm - minutes 60)) \<longrightarrow>
       (\<exists>secs\<ge>1. login_submit C1 db s tm tm' ip form
          = (Inr (LoginError (unwrap_or (lf_next form) []) (lf_email form) 429 (Some secs)), db, s)))"
  using login_throttle_parts [OF assms] by blast

text \<open>
  The step a code stands for at a time, as the crate computes it from the user's secret, whatever the counter; and a
  recovery code spent: an unused row of the user that verifies the code as typed is marked, no other row changes.
\<close>

definition totp_step :: "crypto \<Rightarrow> byte list \<Rightarrow> auth_db \<Rightarrow> uuid \<Rightarrow> string \<Rightarrow> int \<Rightarrow> int option" where
  "totp_step C key db u code tm =
     Option.bind (fetch_state db u) (\<lambda>(sealed, counter).
       (case open_blob C key sealed of
          Inl _ \<Rightarrow> None
        | Inr secret \<Rightarrow>
            (case totp_from_secret C secret of
               Inl _ \<Rightarrow> None
             | Inr check \<Rightarrow> map_option (\<lambda>k. i64_wrap (int k)) (check code (unix_u64 tm)))))"

definition spends_recovery_code :: "crypto \<Rightarrow> auth_db \<Rightarrow> auth_db \<Rightarrow> uuid \<Rightarrow> string \<Rightarrow> bool" where
  "spends_recovery_code C db db' u code \<longleftrightarrow>
     (\<exists>r\<in>set (recovery db). rc_user r = u \<and> rc_consumed r = None
        \<and> verify_recovery_code_hash C (to_uppercase (trim code)) (rc_hash r)
        \<and> (\<exists>tm. recovery db' = map (\<lambda>x. if rc_id x = rc_id r then x\<lparr>rc_consumed := Some tm\<rparr> else x) (recovery db)))"

lemma spending_shows:
  assumes "spends_recovery_code C db db' u code"
  shows "recovery db' \<noteq> recovery db"
proof
  assume eq: "recovery db' = recovery db"
  from assms obtain r tm where r: "r \<in> set (recovery db)" "rc_consumed r = None"
    and db': "recovery db' = map (\<lambda>x. if rc_id x = rc_id r then x\<lparr>rc_consumed := Some tm\<rparr> else x) (recovery db)"
    by (auto simp: spends_recovery_code_def)
  from db' eq have "map (\<lambda>x. if rc_id x = rc_id r then x\<lparr>rc_consumed := Some tm\<rparr> else x) (recovery db) = map id (recovery db)" by simp
  with r(1) have "r\<lparr>rc_consumed := Some tm\<rparr> = r" by (auto simp only: map_eq_conv id_apply split: if_splits)
  from arg_cong [OF this, of rc_consumed] r(2) show False by simp
qed

lemma signed_in_with:
  assumes "login_2fa_submit C key db s tm tm' form = (Inr (SignedIn user nx), db', s')" and "s_pending s = Some u"
  shows "(\<exists>k. totp_step C key db u (tf_code form) tm = Some k \<and> accepted_step C key db s tm form = Some (u, k))
    \<or> spends_recovery_code C db db' u (tf_code form)"
proof -
  from assms obtain sealed counter where f: "fetch_state db u = Some (sealed, counter)"
    by (auto simp: login_2fa_submit_def split: option.splits)
  with assms obtain secret where o: "open_blob C key sealed = Inr secret"
    by (auto simp: login_2fa_submit_def split: sum.splits)
  show ?thesis
  proof (cases "verify_code C secret (tf_code form) counter tm")
    case (Inr k)
    then have "totp_step C key db u (tf_code form) tm = Some (i64_wrap (int k))"
      using f o by (auto simp: totp_step_def verify_code_def result_simps split: if_splits)
    moreover have "accepted_step C key db s tm form = Some (u, i64_wrap (int k))"
      using Inr f o assms(2) by (simp add: accepted_step_def)
    ultimately show ?thesis by blast
  next
    case (Inl e)
    with assms f o obtain i db1 where c: "consume_recovery_code C {} db tm u (to_uppercase (trim (tf_code form))) = (Inr i, db1)"
      and fin: "finish_2fa db1 s tm' u counter (counter, False) (tf_next form) = (Inr (SignedIn user nx), db', s')"
      by (auto simp: login_2fa_submit_def match_code_def split: sum.splits prod.splits)
    from c obtain r where "r \<in> set (recovery db)" "rc_user r = u" "rc_consumed r = None" "rc_id r = i"
      "verify_recovery_code_hash C (to_uppercase (trim (tf_code form))) (rc_hash r)"
      "recovery db1 = map (\<lambda>x. if rc_id x = i then x\<lparr>rc_consumed := Some tm\<rparr> else x) (recovery db)"
      by (auto simp: consume_recovery_code_def split: option.splits dest!: find_Some_mem)
    moreover have "db' = db1" using fin by (auto simp: finish_2fa_def split: option.splits)
    ultimately show ?thesis by (auto simp: spends_recovery_code_def)
  qed
qed

text \<open>
  C32: Replay protection of time-based codes between requests that run one after the other.  When the second factor
  signs a user in without spending a recovery code, the code that was sent stands for a step of the user's secret.  A
  later request of the second factor that signs the same user in either spends an unused recovery code or sends a code
  for a later step, whatever other requests come in between, as long as the user does not enrol anew or disable the factor.
\<close>

theorem totp_accepted_once:
  assumes "one_enrolment db" and "s_pending s = Some u"
    and "login_2fa_submit C key db s tm tm' form = (Inr (SignedIn user nx), db', s')" and "recovery db' = recovery db"
    and "db1 = fold (auth_step C key common) cmds db'" and "list_all (\<lambda>c. \<not> changes_enrolment u c) cmds"
  shows "\<exists>k. totp_step C key db u (tf_code form) tm = Some k
     \<and> (\<forall>s1 tm1 tm1' form1 user1 nx1 db2 s2.
          s_pending s1 = Some u \<and> login_2fa_submit C key db1 s1 tm1 tm1' form1 = (Inr (SignedIn user1 nx1), db2, s2)
          \<longrightarrow> spends_recovery_code C db1 db2 u (tf_code form1)
            \<or> (\<exists>k1>k. totp_step C key db1 u (tf_code form1) tm1 = Some k1))"
proof -
  from signed_in_with [OF assms(3,2)] spending_shows assms(4) obtain k where
    k: "totp_step C key db u (tf_code form) tm = Some k" "accepted_step C key db s tm form = Some (u, k)" by blast
  have "counter_at_least u k db'" using counter_after_accept [OF assms(1) k(2), of tm'] assms(3) by simp
  then have above: "counter_at_least u k db1" unfolding assms(5) by (rule enrolled.run_inv [OF _ assms(6)])
  have "spends_recovery_code C db1 db2 u (tf_code form1) \<or> (\<exists>k1>k. totp_step C key db1 u (tf_code form1) tm1 = Some k1)"
    if "s_pending s1 = Some u" "login_2fa_submit C key db1 s1 tm1 tm1' form1 = (Inr (SignedIn user1 nx1), db2, s2)"
    for s1 tm1 tm1' form1 user1 nx1 db2 s2
    using signed_in_with [OF that(2,1)] accepted_above [OF _ above] by blast
  then show ?thesis using k(1) by (intro exI [of _ k]) (intro conjI allI impI, simp, blast)
qed

text \<open>
  The protection does not cover requests that overlap.  Two requests that both matched the same code
  against the same counter are both signed in: the second finds that it did not advance the counter, and the
  handler ignores that.
\<close>

theorem totp_race_signs_in_twice:
  assumes "get_user db u = Some user" "counter < k"
    and "finish_2fa db s1 t1 u counter (k, True) n1 = (r1, db1, s1')"
    and "finish_2fa db1 s2 t2 u counter (k, True) n2 = (r2, db2, s2')"
  shows "r1 = Inr (SignedIn user (unwrap_or (s_next s1) (unwrap_or n1 ''/'')))"
    and "r2 = Inr (SignedIn user (unwrap_or (s_next s2) (unwrap_or n2 ''/'')))"
    and "fst (advance_counter db1 u counter k) = False"
proof -
  have user: "get_user (snd (advance_counter x u counter k)) v = get_user x v" for x v
    by (simp add: get_user_def advance_counter_def)
  have db1: "db1 = snd (advance_counter db u counter k)"
    and 1: "r1 = Inr (SignedIn user (unwrap_or (s_next s1) (unwrap_or n1 ''/'')))"
    using assms(1,3) by (auto simp: finish_2fa_def Let_def user)
  show "r1 = Inr (SignedIn user (unwrap_or (s_next s1) (unwrap_or n1 ''/'')))" by (fact 1)
  show "r2 = Inr (SignedIn user (unwrap_or (s_next s2) (unwrap_or n2 ''/'')))"
    using assms(1,4) by (auto simp: finish_2fa_def Let_def user db1)
  have "\<not> (ut_user (if P r then r\<lparr>ut_counter := k\<rparr> else r) = u \<and>
      ut_counter (if P r then r\<lparr>ut_counter := k\<rparr> else r) = counter)"
    if "P = (\<lambda>r. ut_user r = u \<and> ut_counter r = counter)" for P :: "totp_row \<Rightarrow> bool" and r
    using that assms(2) by simp
  then have "filter (\<lambda>r. ut_user r = u \<and> ut_counter r = counter) (totps db1) = []"
    by (simp add: db1 advance_counter_def filter_map filter_empty_conv)
  then show "fst (advance_counter db1 u counter k) = False" by (simp add: advance_counter_def)
qed

lemma recovery_codes_fresh_parts:
  assumes "regenerate_recovery_codes C db u = (Inr codes, db')"
    and verifies: "argon_sound C"
  shows "length codes = 10 \<and> list_all (\<lambda>c. length c = 8 \<and> set c \<subseteq> set recovery_alphabet) codes"
    and "unused_recovery_code_count db' u = 10"
    and "filter (\<lambda>r. rc_user r \<noteq> u) (recovery db') = filter (\<lambda>r. rc_user r \<noteq> u) (recovery db)"
    and "c \<in> set codes \<Longrightarrow>
         \<exists>i db2. consume_recovery_code C {} db' tm u (to_uppercase (trim c)) = (Inr i, db2)"
proof -
  obtain rows where rows: "recovery db' = filter (\<lambda>r. rc_user r \<noteq> u) (recovery db) @ rows" "fresh_codes C u codes rows"
    and codes: "codes = generate_recovery_codes C (auth_drawn db)"
    using regenerate_rows [OF assms(1)] by blast
  then have len: "length rows = length codes"
    by (simp add: fresh_codes_def list_all2_lengthD)
  have all: "\<forall>r\<in>set rows. rc_user r = u \<and> rc_consumed r = None"
    using rows(2) by (auto simp: fresh_codes_def list_all2_conv_all_nth in_set_conv_nth)
  show shape: "length codes = 10 \<and> list_all (\<lambda>c. length c = 8 \<and> set c \<subseteq> set recovery_alphabet) codes"
    unfolding codes using codes_shape by (auto simp: list_all_iff)
  have "filter (\<lambda>r. rc_user r = u \<and> rc_consumed r = None) rows = rows"
    "filter (\<lambda>r. rc_user r \<noteq> u) rows = []"
    using all by (auto simp: filter_id_conv filter_empty_conv)
  then show "unused_recovery_code_count db' u = 10"
    "filter (\<lambda>r. rc_user r \<noteq> u) (recovery db') = filter (\<lambda>r. rc_user r \<noteq> u) (recovery db)"
    using len shape by (simp_all add: unused_recovery_code_count_def rows(1) filter_empty_conv)
  assume c: "c \<in> set codes"
  then obtain i where i: "i < length codes" "codes ! i = c" by (auto simp: in_set_conv_nth)
  then have "\<exists>n. argon_hash C n c = Some (rc_hash (rows ! i))" and mem: "rows ! i \<in> set rows"
    using rows(2) len by (auto simp: fresh_codes_def list_all2_conv_all_nth)
  then have "argon_verify C c (rc_hash (rows ! i)) = Some True" using verifies by (auto simp: argon_sound_def)
  moreover have "to_uppercase (trim c) = c" using c shape code_plain by (simp add: list_all_iff)
  ultimately show "\<exists>i db2. consume_recovery_code C {} db' tm u (to_uppercase (trim c)) = (Inr i, db2)"
    using all mem rows(1) by (intro consume_succeeds [where r = "rows ! i"]) auto
qed

text \<open>
  C33: A fresh batch of recovery codes.  There are ten codes of eight characters of the base32 alphabet, ten
  unused rows for the user and the rows of other users as before; and, if a hash verifies the password it was made of,
  each code typed into the form as it was shown is redeemed.
\<close>

theorem recovery_codes_fresh:
  assumes "regenerate_recovery_codes C db u = (Inr codes, db')"
    and "argon_sound C"
  shows "length codes = 10 \<and> list_all (\<lambda>c. length c = 8 \<and> set c \<subseteq> set recovery_alphabet) codes
    \<and> unused_recovery_code_count db' u = 10
    \<and> filter (\<lambda>r. rc_user r \<noteq> u) (recovery db') = filter (\<lambda>r. rc_user r \<noteq> u) (recovery db)
    \<and> (\<forall>c\<in>set codes. \<exists>i db2. consume_recovery_code C {} db' tm u (to_uppercase (trim c)) = (Inr i, db2))"
  using recovery_codes_fresh_parts [OF assms] by blast

text \<open>
  A recovery code row is redeemed once: redeeming marks one unused row of the user and no other, and no
  later attempt, with whatever code, redeems that row again.
\<close>

theorem recovery_code_once:
  assumes "distinct (map rc_id (recovery db))" "consume_recovery_code C L db tm u code = (Inr i, db')"
  shows "unused_recovery_code_count db u = Suc (unused_recovery_code_count db' u)"
    and "v \<noteq> u \<Longrightarrow> unused_recovery_code_count db' v = unused_recovery_code_count db v"
    and "fst (consume_recovery_code C' L' db' tm' v code') \<noteq> Inr i"
proof -
  obtain row where row: "row \<in> set (recovery db)" "rc_id row = i" "rc_user row = u" "rc_consumed row = None"
    and db': "recovery db' = map (\<lambda>r. if rc_id r = i then r\<lparr>rc_consumed := Some tm\<rparr> else r) (recovery db)"
    using assms(2) by (rule consume_Inr)
  have "unused_recovery_code_count db v = (if v = u then 1 else 0) + unused_recovery_code_count db' v" for v
    unfolding unused_recovery_code_count_def db' by (rule unused_after_mark [OF row(1) assms(1) row(2,3,4)])
  then show "unused_recovery_code_count db u = Suc (unused_recovery_code_count db' u)"
    "v \<noteq> u \<Longrightarrow> unused_recovery_code_count db' v = unused_recovery_code_count db v"
    by simp_all
  show "fst (consume_recovery_code C' L' db' tm' v code') \<noteq> Inr i"
  proof
    assume "fst (consume_recovery_code C' L' db' tm' v code') = Inr i"
    then obtain db2 where "consume_recovery_code C' L' db' tm' v code' = (Inr i, db2)" by (metis fst_conv surj_pair)
    then obtain r where r: "r \<in> set (recovery db')" "rc_id r = i" "rc_consumed r = None" by (rule consume_Inr)
    from r(1) obtain q where "q \<in> set (recovery db)"
      "r = (if rc_id q = i then q\<lparr>rc_consumed := Some tm\<rparr> else q)" unfolding db' set_map by (rule imageE)
    with r(2,3) show False by (simp split: if_splits)
  qed
qed

section \<open>Concrete instances\<close>

text \<open>
  A toy cryptography: a hash is the password itself, codes are one character, the step is the half minute, and a
  sealed secret is the text behind the colon.
\<close>

definition sample_crypto :: crypto where
  "sample_crypto =
     \<lparr>argon_verify = (\<lambda>p h. Some (p = h)), argon_hash = (\<lambda>_ p. Some p), pg_lower = to_ascii_lower,
      totp_from_secret = (\<lambda>s. Inr (\<lambda>code t. if code = s then Some (t div 30) else None)),
      b64_encode = (\<lambda>bs. map (\<lambda>b. char_of (unat b)) bs), b64_decode = (\<lambda>s. Some (map (\<lambda>c. of_nat (of_char c)) s)),
      aes_encrypt = (\<lambda>_ _ p. Some p), aes_decrypt = (\<lambda>_ _ c. Some c),
      utf8_decode = (\<lambda>bs. Some (map (\<lambda>b. char_of (unat b)) bs)), row_uuid = (\<lambda>n. 50 + n), random_u8 = (\<lambda>n k. of_nat (n + k)),
      random_nonce = (\<lambda>_. replicate 12 65)\<rparr>"

definition sample_user :: auth_user where
  "sample_user =
     \<lparr>au_id = 1, au_email = ''a@b.c'', au_username = ''a'', au_display_name = None, au_role = ''user'',
      au_hash = ''secret password'', au_active = True, au_created_at = 0, au_updated_at = 0,
      au_theme = ''system'', au_locale = ''en''\<rparr>"

definition sample_auth :: auth_db where
  "sample_auth =
     \<lparr>auth_users = [sample_user], attempts = [],
      totps = [\<lparr>ut_user = 1, ut_secret = replicate 12 (CHR ''A'') @ '':K'', ut_enrolled_at = 0, ut_counter = 0\<rparr>],
      recovery = [], auth_drawn = 0\<rparr>"

definition sample_login :: "string \<Rightarrow> login_form" where
  "sample_login pw = \<lparr>lf_email = ''A@b.c'', lf_password = pw, lf_next = None\<rparr>"

definition sample_pending :: session where
  "sample_pending = \<lparr>s_pending = Some 1, s_next = None, s_created = None, s_last_seen = None, s_csrf = None\<rparr>"

text \<open>Five wrong passwords within ten minutes; the sixth request is throttled, with the right password too.\<close>

definition sample_cmds :: "auth_cmd list" where
  "sample_cmds = map (\<lambda>n. CLogin sample_pending (minutes n) (minutes n) ''10.0.0.1'' (sample_login ''guess'')) [0..4]"

lemma sample_throttle_ok: "throttle_ok sample_auth"
  by (simp add: throttle_ok_def sample_auth_def failures_in_def)

lemma sample_locked:
  "length (account_failures (fold (auth_step sample_crypto [] []) sample_cmds sample_auth)
     (normalise_email (lf_email (sample_login ''secret password''))) (minutes 5 - minutes 10)) = 5"
  by code_simp

theorem login_throttle_witness:
  "failures_in (\<lambda>r. la_email r = ''a@b.c'') (minutes 10) (minutes 5)
     (attempts (fold (auth_step sample_crypto [] []) sample_cmds sample_auth)) \<le> 5
   \<and> (\<exists>secs\<ge>1. fst (login_submit sample_crypto (fold (auth_step sample_crypto [] []) sample_cmds sample_auth)
        sample_pending (minutes 5) (minutes 5) ''10.0.0.2'' (sample_login ''secret password''))
      = Inr (LoginError [] ''A@b.c'' 429 (Some secs)))"
  using login_throttle [OF sample_throttle_ok refl, of "''a@b.c''" "minutes 5" sample_crypto "[]" "[]" sample_cmds
      "''10.0.0.2''" "sample_login ''secret password''" "minutes 5" sample_crypto sample_pending "minutes 5"]
    sample_locked
  by (auto simp: sample_login_def unwrap_or_def)

definition sample_code :: two_factor_form where
  "sample_code = \<lparr>tf_code = ''K'', tf_next = None\<rparr>"

text \<open>The code of step three signs in once; sent again at the same time, after five wrong passwords, it does not.\<close>

definition sample_signed_in :: auth_db where
  "sample_signed_in = fst (snd (login_2fa_submit sample_crypto [] sample_auth sample_pending 90000000 90000000 sample_code))"

definition sample_later :: auth_db where
  "sample_later = fold (auth_step sample_crypto [] []) sample_cmds sample_signed_in"

lemma sample_accepted:
  "fst (login_2fa_submit sample_crypto [] sample_auth sample_pending 90000000 90000000 sample_code) = Inr (SignedIn sample_user ''/'')"
  "totp_step sample_crypto [] sample_auth 1 (tf_code sample_code) 90000000 = Some 3"
  "totp_step sample_crypto [] sample_later 1 (tf_code sample_code) 90000000 = Some 3"
  "recovery sample_signed_in = []" "recovery sample_later = []"
  by code_simp+

theorem totp_accepted_once_witness:
  "\<forall>user nx. fst (login_2fa_submit sample_crypto [] sample_later sample_pending 90000000 90000000 sample_code)
     \<noteq> Inr (SignedIn user nx)"
proof (intro allI notI)
  fix user nx
  let ?r = "login_2fa_submit sample_crypto [] sample_later sample_pending 90000000 90000000 sample_code"
  assume "fst ?r = Inr (SignedIn user nx)"
  then have again: "?r = (Inr (SignedIn user nx), fst (snd ?r), snd (snd ?r))" by (simp add: prod_eq_iff)
  have "login_2fa_submit sample_crypto [] sample_auth sample_pending 90000000 90000000 sample_code = (Inr (SignedIn sample_user ''/''),
      sample_signed_in, snd (snd (login_2fa_submit sample_crypto [] sample_auth sample_pending 90000000 90000000 sample_code)))"
    using sample_accepted(1) by (simp add: prod_eq_iff sample_signed_in_def)
  moreover have "one_enrolment sample_auth" "recovery sample_signed_in = recovery sample_auth"
    by (simp_all add: one_enrolment_def sample_auth_def sample_accepted)
  moreover have pending: "s_pending sample_pending = Some 1" by (simp add: sample_pending_def)
  moreover have "list_all (\<lambda>c. \<not> changes_enrolment 1 c) sample_cmds" by (auto simp: sample_cmds_def list_all_iff)
  ultimately obtain k where k: "totp_step sample_crypto [] sample_auth 1 (tf_code sample_code) 90000000 = Some k"
    and later: "\<forall>s1 tm1 tm1' form1 user1 nx1 db2 s2.
       s_pending s1 = Some 1 \<and> login_2fa_submit sample_crypto [] sample_later s1 tm1 tm1' form1 = (Inr (SignedIn user1 nx1), db2, s2)
       \<longrightarrow> spends_recovery_code sample_crypto sample_later db2 1 (tf_code form1)
         \<or> (\<exists>k1>k. totp_step sample_crypto [] sample_later 1 (tf_code form1) tm1 = Some k1)"
    using totp_accepted_once [OF _ pending _ _ sample_later_def] by blast
  have "\<not> spends_recovery_code sample_crypto sample_later (fst (snd ?r)) 1 (tf_code sample_code)"
    by (simp add: spends_recovery_code_def sample_accepted)
  with later pending again obtain k1 where "k < k1" "totp_step sample_crypto [] sample_later 1 (tf_code sample_code) 90000000 = Some k1"
    by blast
  with k sample_accepted(2,3) show False by (metis option.inject less_irrefl)
qed

definition sample_finished :: "auth_db \<Rightarrow> (app_error + auth_response) \<times> auth_db \<times> session" where
  "sample_finished db = finish_2fa db sample_pending 90000000 1 0 (3, True) None"

theorem totp_race_witness:
  "fst (sample_finished sample_auth) = Inr (SignedIn sample_user ''/'')
   \<and> fst (sample_finished (fst (snd (sample_finished sample_auth)))) = Inr (SignedIn sample_user ''/'')"
proof -
  let ?a = "sample_finished sample_auth"
  let ?b = "sample_finished (fst (snd ?a))"
  have u: "get_user sample_auth 1 = Some sample_user" by (simp add: get_user_def sample_auth_def sample_user_def)
  have "finish_2fa sample_auth sample_pending 90000000 1 0 (3, True) None = (fst ?a, fst (snd ?a), snd (snd ?a))"
    "finish_2fa (fst (snd ?a)) sample_pending 90000000 1 0 (3, True) None = (fst ?b, fst (snd ?b), snd (snd ?b))"
    by (simp_all add: sample_finished_def)
  from totp_race_signs_in_twice(1,2) [OF u _ this] show ?thesis
    by (simp add: sample_pending_def unwrap_or_def)
qed

lemma sample_regenerated:
  "regenerate_recovery_codes sample_crypto sample_auth 1
     = (Inr (generate_recovery_codes sample_crypto 0), snd (regenerate_recovery_codes sample_crypto sample_auth 1))"
  by code_simp

theorem recovery_codes_fresh_witness:
  "unused_recovery_code_count (snd (regenerate_recovery_codes sample_crypto sample_auth 1)) 1 = 10
   \<and> (\<exists>i db2. consume_recovery_code sample_crypto {} (snd (regenerate_recovery_codes sample_crypto sample_auth 1)) 7 1
        (to_uppercase (trim ''ABCDEFGH'')) = (Inr i, db2))"
proof -
  have v: "argon_sound sample_crypto" by (simp add: argon_sound_def sample_crypto_def)
  have "''ABCDEFGH'' \<in> set (generate_recovery_codes sample_crypto 0)" by code_simp
  with recovery_codes_fresh [OF sample_regenerated v] show ?thesis by blast
qed

theorem recovery_code_once_witness:
  "unused_recovery_code_count (snd (consume_recovery_code sample_crypto {} (snd (regenerate_recovery_codes sample_crypto
     sample_auth 1)) 7 1 ''ABCDEFGH'')) 1 = 9"
proof -
  let ?db = "snd (regenerate_recovery_codes sample_crypto sample_auth 1)"
  have "distinct (map rc_id (recovery ?db))" by code_simp
  moreover have "consume_recovery_code sample_crypto {} ?db 7 1 ''ABCDEFGH''
      = (Inr 50, snd (consume_recovery_code sample_crypto {} ?db 7 1 ''ABCDEFGH''))" by code_simp
  moreover have "unused_recovery_code_count ?db 1 = 10" by code_simp
  ultimately show ?thesis using recovery_code_once(1) [of ?db sample_crypto "{}" 7 1 "''ABCDEFGH''" 50] by simp
qed

end
