(* ===== verification/Session_Properties.thy ===== *)
theory Session_Properties
  imports Session_Security Login_Properties
begin

unbundle bit_operations_syntax

text \<open>
  What the layers around the handlers guarantee, and where they do not do what their comments say.
\<close>

section \<open>Cookies\<close>

lemma xor_eq_0: "(x :: byte) XOR y = 0 \<longleftrightarrow> x = y"
proof
  assume "x XOR y = 0"
  then have "bit x n = bit y n" for n
    by (metis bit_0_eq bit_xor_iff bot_apply bot_bool_def)
  then show "x = y" by (simp add: bit_eq_iff)
qed simp

lemma fold_or_eq_0:
  "foldl (\<lambda>acc (x, y). acc OR (x XOR y)) (a :: byte) ps = 0 \<longleftrightarrow> a = 0 \<and> (\<forall>(x, y)\<in>set ps. x = y)"
  by (induction ps arbitrary: a) (auto simp: xor_eq_0 or_eq_0_iff)

lemma constant_time_eq_iff: "constant_time_eq a b \<longleftrightarrow> a = b"
proof -
  have "(\<forall>(x, y)\<in>set (zip a b). x = y) \<longleftrightarrow> a = b" if "length a = length b"
    using that by (induction a b rule: list_induct2) auto
  then show ?thesis by (auto simp: constant_time_eq_def fold_or_eq_0)
qed

lemma verify_previous_iff:
  "(\<exists>i. verify_previous H sid mac n keys = Some i) \<longleftrightarrow> (\<exists>k\<in>set keys. mac = hmac H k sid)"
  by (induction keys arbitrary: n) (auto simp: constant_time_eq_iff)

lemma verify_cookie_iff:
  "(\<exists>i. verify_cookie H dec sg sid mac = Some i) \<longleftrightarrow>
     (\<exists>k\<in>set (current sg # previous sg). dec mac = Some (hmac H k sid))"
  using verify_previous_iff [of H sid _ 0 "previous sg"]
  by (auto simp: verify_cookie_def constant_time_eq_iff split: option.splits)

text \<open>
  What is relied on of the base64 engine: decoding inverts encoding, and the text is made of the URL-safe
  alphabet.
\<close>

definition url_char :: "char \<Rightarrow> bool" where
  "url_char c \<longleftrightarrow> (let n = of_char c :: nat in (48 \<le> n \<and> n \<le> 57) \<or> (65 \<le> n \<and> n \<le> 90) \<or> (97 \<le> n \<and> n \<le> 122)
     \<or> n = 45 \<or> n = 95)"

definition b64_sound :: "(byte list \<Rightarrow> string) \<Rightarrow> (string \<Rightarrow> byte list option) \<Rightarrow> bool" where
  "b64_sound enc dec \<longleftrightarrow> (\<forall>bs. dec (enc bs) = Some bs \<and> list_all url_char (enc bs))"

text \<open>A session identifier is text of the same kind.\<close>

definition plain_id :: "string \<Rightarrow> bool" where
  "plain_id sid \<longleftrightarrow> list_all url_char sid"

lemma cookie_name_plain: "plain_id COOKIE_NAME"
  by code_simp

lemma plain_chars:
  assumes "plain_id s"
  shows "CHR '';'' \<notin> set s" "CHR ''='' \<notin> set s" "CHR ''.'' \<notin> set s" "\<forall>c\<in>set s. \<not> is_ws c"
    "header_str (s @ t) = map_option (\<lambda>t. s @ t) (header_str t)"
proof -
  have "\<not> url_char (CHR '';'')" "\<not> url_char (CHR ''='')" "\<not> url_char (CHR ''.'')"
    by (simp_all add: url_char_def)
  then show "CHR '';'' \<notin> set s" "CHR ''='' \<notin> set s" "CHR ''.'' \<notin> set s"
    using assms by (auto simp: plain_id_def list_all_iff)
  show "\<forall>c\<in>set s. \<not> is_ws c"
    using assms by (auto simp: plain_id_def list_all_iff url_char_def is_ws_def Let_def)
  have "list_all (\<lambda>c. (32 \<le> (of_char c :: nat) \<and> (of_char c :: nat) < 127) \<or> (of_char c :: nat) = 9) s"
    using assms by (auto simp: plain_id_def list_all_iff url_char_def Let_def)
  then show "header_str (s @ t) = map_option (\<lambda>t. s @ t) (header_str t)" by (simp add: header_str_def)
qed

lemma header_str_sep [simp]:
  "header_str [] = Some []"
  "header_str (CHR ''='' # t) = map_option ((#) (CHR ''='')) (header_str t)"
  "header_str (CHR ''.'' # t) = map_option ((#) (CHR ''.'')) (header_str t)"
  by (simp_all add: header_str_def)

lemma parse_signed:
  assumes "plain_id sid" "plain_id mac"
  shows "parse_session_cookie (COOKIE_NAME @ ''='' @ sid @ ''.'' @ mac) = Some (sid, mac)"
proof -
  let ?h = "COOKIE_NAME @ CHR ''='' # sid @ CHR ''.'' # mac"
  note pl = plain_chars [OF cookie_name_plain] plain_chars [OF assms(1)] plain_chars [OF assms(2)]
  have "CHR '';'' \<notin> set ?h" using pl by auto
  moreover have "trim ?h = ?h" using pl by (intro trim_no_ws) (auto simp: is_ws_def)
  moreover have "split_once (CHR ''='') ?h = Some (COOKIE_NAME, sid @ CHR ''.'' # mac)" using pl by simp
  moreover have "split_once (CHR ''.'') (sid @ CHR ''.'' # mac) = Some (sid, mac)" using pl by simp
  ultimately show ?thesis by (simp add: parse_session_cookie_def split_on_no_sep)
qed

lemma parse_unsigned:
  assumes "plain_id sid" shows "parse_session_cookie (COOKIE_NAME @ ''='' @ sid) = None"
proof -
  let ?h = "COOKIE_NAME @ CHR ''='' # sid"
  note pl = plain_chars [OF cookie_name_plain] plain_chars [OF assms]
  have "CHR '';'' \<notin> set ?h" "CHR ''.'' \<notin> set sid" using pl by auto
  moreover have "trim ?h = ?h" using pl by (intro trim_no_ws) (auto simp: is_ws_def)
  moreover have "split_once (CHR ''='') ?h = Some (COOKIE_NAME, sid)" using pl by simp
  ultimately show ?thesis by (simp add: parse_session_cookie_def split_on_no_sep)
qed

text \<open>The signed header the layer sends for a bare one, up to its first attribute.\<close>

lemma join_parts_Cons: "ps \<noteq> [] \<Longrightarrow> join_parts (p # ps) = p @ ''; '' @ join_parts ps"
  by (cases ps) auto

lemma rewrite_first:
  assumes "plain_id sid"
  shows "\<exists>rest. rewrite_set_cookie sign (COOKIE_NAME @ ''='' @ sid @ '';'' @ attrs)
     = COOKIE_NAME @ ''='' @ sid @ ''.'' @ sign sid @ rest \<and> (rest = [] \<or> take 1 rest = '';'')"
proof -
  let ?h = "COOKIE_NAME @ CHR ''='' # sid"
  note pl = plain_chars [OF cookie_name_plain] plain_chars [OF assms]
  have "CHR '';'' \<notin> set ?h" using pl by auto
  then have pieces: "split_on (CHR '';'') (?h @ CHR '';'' # attrs) = ?h # split_on (CHR '';'') attrs"
    using split_on_append_sep [of "CHR '';''" ?h attrs] split_on_no_sep [of "CHR '';''" ?h] by simp
  have "trim ?h = ?h" using pl by (intro trim_no_ws) (auto simp: is_ws_def)
  moreover have "rewrite_part sign ?h = COOKIE_NAME @ ''='' @ sid @ ''.'' @ sign sid"
    using pl by (simp add: rewrite_part_def)
  moreover have "?h \<noteq> []" by simp
  ultimately have "rewrite_set_cookie sign (?h @ CHR '';'' # attrs) =
      join_parts ((COOKIE_NAME @ ''='' @ sid @ ''.'' @ sign sid) #
        map (rewrite_part sign) (filter (\<lambda>p. p \<noteq> []) (map trim (split_on (CHR '';'') attrs))))"
    unfolding rewrite_set_cookie_def pieces by simp
  then show ?thesis
    by (cases "map (rewrite_part sign) (filter (\<lambda>p. p \<noteq> []) (map trim (split_on (CHR '';'') attrs)))") auto
qed

lemma header_signed:
  assumes "plain_id sid" "plain_id mac"
  shows "header_str (COOKIE_NAME @ ''='' @ sid @ ''.'' @ mac) = Some (COOKIE_NAME @ ''='' @ sid @ ''.'' @ mac)"
    and "header_str (COOKIE_NAME @ ''='' @ sid) = Some (COOKIE_NAME @ ''='' @ sid)"
  using plain_chars(5) [OF cookie_name_plain] plain_chars(5) [OF assms(1)] plain_chars(5) [OF assms(2), of "[]"]
    plain_chars(5) [OF assms(1), of "[]"]
  by simp_all

text \<open>The layer passes a signed header on, without its signature, iff one of the keys made the signature.\<close>

lemma enforce_signed:
  assumes "plain_id sid" "plain_id mac"
  shows "enforce_signed_cookie H enc dec sg next (Some (COOKIE_NAME @ ''='' @ sid @ ''.'' @ mac)) =
     (if \<exists>k\<in>set (current sg # previous sg). dec mac = Some (hmac H k sid)
      then resign (sign_cookie H enc sg) (next (Some (COOKIE_NAME @ ''='' @ sid))) else invalid_cookie_response)"
proof (cases "verify_cookie H dec sg sid mac")
  case None
  then have "\<not> (\<exists>k\<in>set (current sg # previous sg). dec mac = Some (hmac H k sid))"
    using verify_cookie_iff [of H dec sg sid mac] by simp
  with None show ?thesis
    unfolding enforce_signed_cookie_def by (simp only: bind.simps header_signed [OF assms] parse_signed [OF assms]
        option.case prod.case if_False)
next
  case (Some i)
  then have "\<exists>k\<in>set (current sg # previous sg). dec mac = Some (hmac H k sid)"
    using verify_cookie_iff [of H dec sg sid mac] by blast
  with Some show ?thesis
    unfolding enforce_signed_cookie_def by (simp only: bind.simps header_signed [OF assms] parse_signed [OF assms]
        option.case prod.case if_True)
qed

lemma enforce_unsigned:
  "plain_id sid \<Longrightarrow> enforce_signed_cookie H enc dec sg next (Some (COOKIE_NAME @ ''='' @ sid)) = next (Some (COOKIE_NAME @ ''='' @ sid))"
  "enforce_signed_cookie H enc dec sg next None = next None"
  unfolding enforce_signed_cookie_def
  by (simp_all only: bind.simps header_signed parse_unsigned option.case)

lemma signed_cookie_round_trip_parts:
  assumes "b64_sound enc dec" "plain_id sid"
    and "mac = sign_cookie H enc sg sid" "current sg \<in> set (current sg' # previous sg')"
  shows "\<exists>rest. rewrite_set_cookie (sign_cookie H enc sg) (COOKIE_NAME @ ''='' @ sid @ '';'' @ attrs)
           = COOKIE_NAME @ ''='' @ sid @ ''.'' @ mac @ rest \<and> (rest = [] \<or> take 1 rest = '';'')"
    and "enforce_signed_cookie H enc dec sg' next (Some (COOKIE_NAME @ ''='' @ sid @ ''.'' @ mac))
           = resign (sign_cookie H enc sg') (next (Some (COOKIE_NAME @ ''='' @ sid)))"
    and "plain_id forged \<Longrightarrow> \<not> (\<exists>k\<in>set (current sg' # previous sg'). dec forged = Some (hmac H k sid)) \<Longrightarrow>
         enforce_signed_cookie H enc dec sg' next (Some (COOKIE_NAME @ ''='' @ sid @ ''.'' @ forged)) = invalid_cookie_response"
proof -
  have mac: "plain_id mac" "dec mac = Some (hmac H (current sg) sid)"
    using assms(1,3) by (simp_all add: b64_sound_def sign_cookie_def plain_id_def)
  show "\<exists>rest. rewrite_set_cookie (sign_cookie H enc sg) (COOKIE_NAME @ ''='' @ sid @ '';'' @ attrs)
           = COOKIE_NAME @ ''='' @ sid @ ''.'' @ mac @ rest \<and> (rest = [] \<or> take 1 rest = '';'')"
    using rewrite_first [OF assms(2), of "sign_cookie H enc sg" attrs] assms(3) by simp
  show "enforce_signed_cookie H enc dec sg' next (Some (COOKIE_NAME @ ''='' @ sid @ ''.'' @ mac))
           = resign (sign_cookie H enc sg') (next (Some (COOKIE_NAME @ ''='' @ sid)))"
    using mac(2) assms(4) by (subst enforce_signed [OF assms(2) mac(1)]) auto
  assume f: "plain_id forged" "\<not> (\<exists>k\<in>set (current sg' # previous sg'). dec forged = Some (hmac H k sid))"
  from enforce_signed [OF assms(2) f(1)] f(2)
  show "enforce_signed_cookie H enc dec sg' next (Some (COOKIE_NAME @ ''='' @ sid @ ''.'' @ forged)) = invalid_cookie_response"
    by simp
qed

text \<open>
  C34: Signed cookies round-trip, also across a change of key.  The \<^verbatim>\<open>Set-Cookie\<close> header of a fresh session leaves the
  layer with the signature behind the identifier; sent back, that value reaches the inner stack as the bare
  identifier, under the same signer and under any signer that keeps the key as a previous one; and a value whose
  signature no key made is answered 401 without reaching the inner stack.
\<close>

theorem signed_cookie_round_trip:
  assumes "b64_sound enc dec" "plain_id sid"
    and "mac = sign_cookie H enc sg sid" "current sg \<in> set (current sg' # previous sg')"
  shows "(\<exists>rest. rewrite_set_cookie (sign_cookie H enc sg) (COOKIE_NAME @ ''='' @ sid @ '';'' @ attrs)
           = COOKIE_NAME @ ''='' @ sid @ ''.'' @ mac @ rest \<and> (rest = [] \<or> take 1 rest = '';''))
    \<and> enforce_signed_cookie H enc dec sg' next (Some (COOKIE_NAME @ ''='' @ sid @ ''.'' @ mac))
        = resign (sign_cookie H enc sg') (next (Some (COOKIE_NAME @ ''='' @ sid)))
    \<and> (\<forall>forged. plain_id forged \<and> \<not> (\<exists>k\<in>set (current sg' # previous sg'). dec forged = Some (hmac H k sid)) \<longrightarrow>
         enforce_signed_cookie H enc dec sg' next (Some (COOKIE_NAME @ ''='' @ sid @ ''.'' @ forged)) = invalid_cookie_response)"
  using signed_cookie_round_trip_parts [OF assms] by blast

text \<open>
  A browser: its cookie for the site, which it sends, and what a response makes of it.
\<close>

definition stored_value :: "response \<Rightarrow> string option \<Rightarrow> string option" where
  "stored_value r jar =
     (case r_cookies r of
        [] \<Rightarrow> jar
      | c # _ \<Rightarrow> (case split_once (CHR ''='') (hd (split_on (CHR '';'') c)) of
           Some (name, value) \<Rightarrow> if name = COOKIE_NAME then Some value else jar
         | None \<Rightarrow> jar))"

definition browse :: "((string option \<Rightarrow> response) \<Rightarrow> string option \<Rightarrow> response) \<Rightarrow> (string option \<Rightarrow> response) \<Rightarrow> string option
    \<Rightarrow> string option" where
  "browse layer next jar = stored_value (layer next (map_option (\<lambda>v. COOKIE_NAME @ ''='' @ v) jar)) jar"

text \<open>An inner stack whose cookies, if it sets any, are bare session identifiers with attributes.\<close>

definition bare_stack :: "(string option \<Rightarrow> response) \<Rightarrow> bool" where
  "bare_stack next \<longleftrightarrow> (\<forall>q. r_cookies (next q) = [] \<or>
     (\<exists>sid attrs cs. plain_id sid \<and> r_cookies (next q) = (COOKIE_NAME @ ''='' @ sid @ '';'' @ attrs) # cs))"

lemma stored_bare:
  assumes "bare_stack next" "jar = None \<or> (\<exists>sid. plain_id sid \<and> jar = Some sid)"
  shows "stored_value (next q) jar = None \<or> (\<exists>sid. plain_id sid \<and> stored_value (next q) jar = Some sid)"
proof (cases "r_cookies (next q) = []")
  case True
  with assms(2) show ?thesis by (auto simp: stored_value_def)
next
  case False
  then obtain sid attrs cs where sid: "plain_id sid" "r_cookies (next q) = (COOKIE_NAME @ ''='' @ sid @ '';'' @ attrs) # cs"
    using assms(1) by (auto simp: bare_stack_def)
  let ?h = "COOKIE_NAME @ CHR ''='' # sid"
  note pl = plain_chars [OF cookie_name_plain] plain_chars [OF sid(1)]
  have "hd (split_on (CHR '';'') (?h @ CHR '';'' # attrs)) = ?h"
    using split_on_append_sep [of "CHR '';''" ?h attrs] split_on_no_sep [of "CHR '';''" ?h] pl by simp
  then have "stored_value (next q) jar = Some sid" using pl by (simp add: stored_value_def sid(2))
  with sid(1) show ?thesis by blast
qed

lemma cookies_never_signed_parts:
  assumes "list_all bare_stack nexts"
  shows "fold (browse (enforce_signed_cookie H enc dec sg)) nexts None \<in> {None} \<union> Some ` {sid. plain_id sid}"
    and "plain_id sid \<Longrightarrow> enforce_signed_cookie H enc dec sg next (Some (COOKIE_NAME @ ''='' @ sid))
           = next (Some (COOKIE_NAME @ ''='' @ sid))"
proof -
  have "fold (browse (enforce_signed_cookie H enc dec sg)) nexts jar \<in> {None} \<union> Some ` {sid. plain_id sid}"
    if "jar = None \<or> (\<exists>sid. plain_id sid \<and> jar = Some sid)" for jar
    using assms that
  proof (induction nexts arbitrary: jar)
    case (Cons n ns)
    have "browse (enforce_signed_cookie H enc dec sg) n jar = stored_value (n (map_option (\<lambda>v. COOKIE_NAME @ ''='' @ v) jar)) jar"
      using Cons.prems(2) enforce_unsigned(1) [of _ H enc dec sg n] enforce_unsigned(2) [of H enc dec sg n]
      by (auto simp: browse_def simp del: append_Cons append.simps)
    with stored_bare [OF _ Cons.prems(2), of n] Cons.prems(1)
    have "browse (enforce_signed_cookie H enc dec sg) n jar = None
        \<or> (\<exists>sid. plain_id sid \<and> browse (enforce_signed_cookie H enc dec sg) n jar = Some sid)" by simp
    from Cons.IH [OF _ this] Cons.prems(1) show ?case by simp
  qed auto
  then show "fold (browse (enforce_signed_cookie H enc dec sg)) nexts None \<in> {None} \<union> Some ` {sid. plain_id sid}" by blast
qed (rule enforce_unsigned)

text \<open>
  The cookies a browser gets are never signed.  A browser that starts without a cookie is given the bare
  identifier, because a request without a signed cookie bypasses the signing of the response; it sends the bare
  identifier back, which the layer lets through unchecked, and so on for every sequence of requests.
\<close>

theorem cookies_never_signed:
  assumes "list_all bare_stack nexts"
  shows "fold (browse (enforce_signed_cookie H enc dec sg)) nexts None \<in> {None} \<union> Some ` {sid. plain_id sid}
    \<and> (\<forall>sid next. plain_id sid \<longrightarrow>
         enforce_signed_cookie H enc dec sg next (Some (COOKIE_NAME @ ''='' @ sid)) = next (Some (COOKIE_NAME @ ''='' @ sid)))"
  using cookies_never_signed_parts [OF assms] by blast

section \<open>CSRF\<close>

lemma ct_eq_iff: "ct_eq a b \<longleftrightarrow> a = b"
  by (auto simp: ct_eq_def dest: utf8_inj)

text \<open>The token a request carries: the header, or for an urlencoded form without one the form field.\<close>

definition supplied_token :: "(byte list \<Rightarrow> (string \<times> string) list option) \<Rightarrow> request \<Rightarrow> string option" where
  "supplied_token form_parse req =
     (case Option.bind (q_token req) header_str of
        Some t \<Rightarrow> Some t
      | None \<Rightarrow> if looks_like_urlencoded_form (Option.bind (q_type req) header_str)
                then urlencoded_csrf form_parse (to_bytes (q_body req)) else None)"

lemma csrf_gate_parts:
  assumes "q_post req" "ensure_token s random = (token, s1)" "Option.bind (q_bypass req) header_str \<noteq> Some ''1''"
  shows "supplied_token form_parse req \<noteq> Some token \<Longrightarrow>
         csrf_middleware form_parse random next (Some s) req = (forbidden_response, Some s1)"
    and "supplied_token form_parse req = Some token \<Longrightarrow>
         Option.bind (q_token req) header_str \<noteq> None \<or> length (q_body req) \<le> MAX_BODY_BYTES \<Longrightarrow>
         csrf_middleware form_parse random next (Some s) req
           = (let (r, s2) = next req (Some s1) in (finish_html r token, s2))"
proof -
  { assume "supplied_token form_parse req \<noteq> Some token"
    with assms show "csrf_middleware form_parse random next (Some s) req = (forbidden_response, Some s1)"
      by (auto simp: csrf_middleware_def supplied_token_def Let_def ct_eq_iff split: option.splits if_splits) }
  assume "supplied_token form_parse req = Some token"
  then consider "Option.bind (q_token req) header_str = Some token"
    | "Option.bind (q_token req) header_str = None" "looks_like_urlencoded_form (Option.bind (q_type req) header_str)"
      "urlencoded_csrf form_parse (to_bytes (q_body req)) = Some token"
    by (auto simp: supplied_token_def split: option.splits if_splits)
  moreover assume "Option.bind (q_token req) header_str \<noteq> None \<or> length (q_body req) \<le> MAX_BODY_BYTES"
  ultimately show "csrf_middleware form_parse random next (Some s) req
      = (let (r, s2) = next req (Some s1) in (finish_html r token, s2))"
  proof cases
    case 1
    with assms show ?thesis by (simp add: csrf_middleware_def Let_def ct_eq_iff)
  next
    case 2
    moreover from 2(1) \<open>_ \<or> _\<close> have "to_bytes (q_body req) = q_body req" by (simp add: to_bytes_def)
    ultimately show ?thesis using assms by (simp add: csrf_middleware_def Let_def ct_eq_iff)
  qed
qed

text \<open>
  C35: The CSRF gate.  A POST of a session that does not carry the bypass header of the test suite is answered 403,
  whatever the handler is, unless the token it supplies, in the header or else in the urlencoded form, is the token of
  the session.  With that token it reaches the handler exactly as it was sent, body included, and the session keeps the
  token; a form whose token is read from the body must not exceed the size limit for this.
\<close>

theorem csrf_gate:
  assumes "q_post req" "ensure_token s random = (token, s1)" "Option.bind (q_bypass req) header_str \<noteq> Some ''1''"
  shows "(supplied_token form_parse req \<noteq> Some token \<longrightarrow>
        csrf_middleware form_parse random next (Some s) req = (forbidden_response, Some s1))
    \<and> (supplied_token form_parse req = Some token
        \<and> (Option.bind (q_token req) header_str \<noteq> None \<or> length (q_body req) \<le> MAX_BODY_BYTES) \<longrightarrow>
        csrf_middleware form_parse random next (Some s) req
          = (let (r, s2) = next req (Some s1) in (finish_html r token, s2)))
    \<and> s_csrf s1 = Some token"
proof -
  have "s_csrf s1 = Some token" using assms(2) by (auto simp: ensure_token_def Let_def split: option.splits)
  with csrf_gate_parts [OF assms] show ?thesis by blast
qed

text \<open>Every form of a page gets the hidden input right behind its opening tag, and nothing else changes.\<close>

lemma inject_form_token_step:
  assumes "str_find ''<form'' html = Some i" "str_find ''>'' (drop i html) = Some g"
  shows "inject_form_token html hidden =
     take (i + g + 1) html @ hidden @ inject_form_token (drop (i + g + 1) html) hidden"
  using assms by (subst inject_form_token.simps) simp

lemma inject_form_token_none: "str_find ''<form'' html = None \<Longrightarrow> inject_form_token html hidden = html"
  by (subst inject_form_token.simps) simp

section \<open>Timeouts\<close>

lemma whole_milliseconds_le: "0 \<le> d \<Longrightarrow> whole_milliseconds d \<le> n \<longleftrightarrow> d < (n + 1) * 1000"
  by (auto simp: whole_milliseconds_def)

lemma session_windows_parts:
  assumes "enforce_timeout g t p s = Pass s'" "s_last_seen s = Some l" "s_created s = Some c"
    and "l \<le> t" "c \<le> t" "t \<le> t'" "0 \<le> idle g"
  shows "t' - t \<ge> (idle g + 1) * 1000 \<Longrightarrow> \<exists>loc. enforce_timeout g t' p' s' = Expired loc"
    and "t' - t < (idle g div 2 + 1) * 1000 \<Longrightarrow> t' - c < (absolute g + 1) * 1000 \<Longrightarrow>
         \<exists>s''. enforce_timeout g t' p' s' = Pass s''"
    and "t' - c \<ge> (absolute g + 1) * 1000 \<Longrightarrow> \<exists>loc. enforce_timeout g t' p' s' = Expired loc"
proof -
  define seen where "seen = (if whole_milliseconds (t - l) \<ge> idle g div 2 then t else l)"
  have s': "s_last_seen s' = Some seen" "s_created s' = Some c"
    using assms(1,2,3) by (auto simp: enforce_timeout_def seen_def Let_def split: if_splits)
  have le: "seen \<le> t" using assms(4) by (simp add: seen_def)
  have near: "t - seen < (idle g div 2) * 1000 \<or> seen = t"
    using assms(4) by (auto simp: seen_def whole_milliseconds_def)
  { assume "t' - t \<ge> (idle g + 1) * 1000"
    then have "whole_milliseconds (t' - seen) > idle g"
      using le whole_milliseconds_le [of "t' - seen" "idle g"] assms(6) by linarith
    then show "\<exists>loc. enforce_timeout g t' p' s' = Expired loc"
      by (simp add: enforce_timeout_def expired_def s') }
  { assume "t' - c \<ge> (absolute g + 1) * 1000"
    then have "whole_milliseconds (t' - c) > absolute g"
      using whole_milliseconds_le [of "t' - c" "absolute g"] assms(5,6) by linarith
    then show "\<exists>loc. enforce_timeout g t' p' s' = Expired loc"
      by (simp add: enforce_timeout_def expired_def s') }
  assume *: "t' - t < (idle g div 2 + 1) * 1000" "t' - c < (absolute g + 1) * 1000"
  have "t' - seen < (idle g + 1) * 1000"
  proof -
    have "2 * (idle g div 2) \<le> idle g" by simp
    with near * assms(7) show ?thesis by (auto simp: algebra_simps)
  qed
  then have "whole_milliseconds (t' - seen) \<le> idle g" "whole_milliseconds (t' - c) \<le> absolute g"
    using le assms(5,6) * whole_milliseconds_le by simp_all
  then show "\<exists>s''. enforce_timeout g t' p' s' = Pass s''"
    by (auto simp: enforce_timeout_def expired_def s' Let_def)
qed

text \<open>
  C36: The idle window.  After a request that passed, a pause of at most half the idle window (in
  milliseconds) never ends the session, one longer than the whole window always does, and once the absolute window
  since the login is over every request is redirected to the login page.
\<close>

theorem session_windows:
  assumes "enforce_timeout g t p s = Pass s'" "s_last_seen s = Some l" "s_created s = Some c"
    and "l \<le> t" "c \<le> t" "t \<le> t'" "0 \<le> idle g"
  shows "(t' - t \<ge> (idle g + 1) * 1000 \<longrightarrow> (\<exists>loc. enforce_timeout g t' p' s' = Expired loc))
    \<and> (t' - t < (idle g div 2 + 1) * 1000 \<and> t' - c < (absolute g + 1) * 1000 \<longrightarrow>
         (\<exists>s''. enforce_timeout g t' p' s' = Pass s''))
    \<and> (t' - c \<ge> (absolute g + 1) * 1000 \<longrightarrow> (\<exists>loc. enforce_timeout g t' p' s' = Expired loc))"
  using session_windows_parts [OF assms] by blast

text \<open>
  Under the default windows a session can end after a pause of little more than a quarter of an hour: the
  request just before half the window does not refresh the stamp.
\<close>

lemma idle_ends_early:
  "enforce_timeout default_guard 899000000 None \<lparr>s_pending = None, s_next = None, s_created = Some 0, s_last_seen = Some 0, s_csrf = None\<rparr>
     = Pass \<lparr>s_pending = None, s_next = None, s_created = Some 0, s_last_seen = Some 0, s_csrf = None\<rparr>"
  "enforce_timeout default_guard (899000000 + 901001000) None
     \<lparr>s_pending = None, s_next = None, s_created = Some 0, s_last_seen = Some 0, s_csrf = None\<rparr>
     = Expired ''/login?next=/&expired=1''"
  by code_simp+

section \<open>Bearer tokens\<close>

lemma strip_prefix_append: "strip_prefix p (p @ s) = Some s"
  by (simp add: strip_prefix_def)

lemma hex_digit_plain: "n < 16 \<Longrightarrow> \<not> is_ws (hex_digit n)"
  by (auto simp: is_ws_def hex_digit_def Let_def)

lemma hex_lower_plain: "\<forall>c\<in>set (hex_lower bs). \<not> is_ws c"
proof (induction bs)
  case (Cons b bs)
  have "unat b < 256" using unsigned_less [of b] by simp
  then have "unat b div 16 < 16" by presburger
  with Cons hex_digit_plain [of "unat b div 16"] hex_digit_plain [of "unat b mod 16"] show ?case by (simp add: hex_lower_def)
qed (simp add: hex_lower_def)

lemma token_trim: "trim (TOKEN_PREFIX @ hex_lower random) = TOKEN_PREFIX @ hex_lower random"
proof (rule trim_no_ws)
  have "list_all (\<lambda>c. \<not> is_ws c) TOKEN_PREFIX" by code_simp
  then show "\<forall>c\<in>set (TOKEN_PREFIX @ hex_lower random). \<not> is_ws c"
    using hex_lower_plain by (auto simp: list_all_iff)
qed

text \<open>Verifying a well-formed token looks at the first row with its prefix.\<close>

lemma verify_token_found:
  assumes "length random = SECRET_BYTES"
    and "find (\<lambda>r. at_prefix r = take PREFIX_CHARS (hex_lower random)) rows = Some row"
  shows "fst (verify_token C t (''Bearer '' @ TOKEN_PREFIX @ hex_lower random) rows) =
     (if at_revoked row \<noteq> None \<or> argon_verify C (hex_lower random) (at_hash row) \<noteq> Some True then None
      else Some (at_user row, at_id row))"
  using assms
  unfolding verify_token_def Let_def strip_prefix_append
  by (simp add: unwrap_or_def token_trim strip_prefix_append SECRET_BYTES_def PREFIX_CHARS_def)

lemma find_map_key:
  "(\<And>r. P (f r) = P r) \<Longrightarrow> find P (map f xs) = map_option f (find P xs)"
  by (induction xs) auto

text \<open>
  Bearer tokens round-trip.  A token just issued, sent behind \<^verbatim>\<open>Bearer\<close>, identifies its user and its
  row; once its owner has revoked it, it identifies nobody; and revoking it as another user leaves it valid.
\<close>

theorem api_token_round_trip:
  assumes issued: "issue_token C salt random i tm u name rows = (Inr (plaintext, row), rows')"
    and sound: "argon_sound C"
    and bytes: "length random = SECRET_BYTES"
  shows "fst (verify_token C t (''Bearer '' @ plaintext) rows') = Some (u, i)"
    and "fst (verify_token C t (''Bearer '' @ plaintext) (snd (revoke_token tm' i u rows'))) = None"
    and "v \<noteq> u \<Longrightarrow> fst (verify_token C t (''Bearer '' @ plaintext) (snd (revoke_token tm' i v rows'))) = Some (u, i)"
proof -
  let ?P = "\<lambda>r. at_prefix r = take PREFIX_CHARS (hex_lower random)"
  obtain h where h: "argon_hash C salt (hex_lower random) = Some h"
    using issued by (auto simp: issue_token_def Let_def split: option.splits)
  with sound have ver: "argon_verify C (hex_lower random) h = Some True" by (simp add: argon_sound_def)
  have pt: "plaintext = TOKEN_PREFIX @ hex_lower random" and rows': "rows' = rows @ [row]"
    and row: "at_user row = u" "at_id row = i" "at_hash row = h" "at_revoked row = None" "?P row"
    and new: "\<not> list_ex (\<lambda>r. at_prefix r = take PREFIX_CHARS (hex_lower random) \<or> at_id r = i) rows"
    using issued h by (auto simp: issue_token_def Let_def split: if_splits)
  have "find ?P rows = None" using new by (auto simp: find_None_iff list_ex_iff)
  then have found: "find ?P rows' = Some row" using row(5) by (simp add: rows' find_append_None)
  have rev: "find ?P (snd (revoke_token tm' i w rows')) =
      Some (if i = i \<and> at_user row = w then row\<lparr>at_revoked := Some (unwrap_or (at_revoked row) tm')\<rparr> else row)" for w
    unfolding revoke_token_def snd_conv by (subst find_map_key) (simp_all add: found row(2))
  show "fst (verify_token C t (''Bearer '' @ plaintext) rows') = Some (u, i)"
    using verify_token_found [OF bytes found] row ver by (simp add: pt)
  show "fst (verify_token C t (''Bearer '' @ plaintext) (snd (revoke_token tm' i u rows'))) = None"
    using verify_token_found [OF bytes rev [of u]] row by (simp add: pt)
  show "v \<noteq> u \<Longrightarrow> fst (verify_token C t (''Bearer '' @ plaintext) (snd (revoke_token tm' i v rows'))) = Some (u, i)"
    using verify_token_found [OF bytes rev [of v]] row ver by (simp add: pt)
qed

section \<open>Rate limiters\<close>

text \<open>The limiter of the API never keeps more than the limit of accepted requests per token.\<close>

lemma hits_of_set_hits: "hits_of (set_hits i hs st) j = (if i = j then hs else hits_of st j)"
proof -
  have "map_of (filter (\<lambda>e. fst e \<noteq> i) st) j = (if i = j then None else map_of st j)"
    by (induction st) auto
  then show ?thesis by (simp add: hits_of_def set_hits_def unwrap_or_def)
qed

lemma api_check_bound:
  assumes "\<forall>j. length (hits_of st j) \<le> limit"
  shows "length (hits_of (snd (api_check limit tm i st)) j) \<le> limit"
proof -
  have "length (dropWhile (\<lambda>t. api_window \<le> tm - t) (hits_of st i)) \<le> limit"
    using assms length_dropWhile_le order_trans by blast
  then show ?thesis
    using assms by (auto simp: api_check_def Let_def hits_of_set_hits hits_of_def [of "[]"] unwrap_or_def)
qed

section \<open>Concrete instances\<close>

definition sample_signer :: cookie_signer where
  "sample_signer = \<lparr>current = [1, 2], previous = [[3]]\<rparr>"

text \<open>A toy encoding: one letter per bit, and a hash that keeps the last byte.\<close>

definition toy_enc :: "byte list \<Rightarrow> string" where
  "toy_enc bs = concat (map (\<lambda>b. replicate (unat b) (CHR ''a'') @ ''b'') bs)"

fun toy_dec :: "nat \<Rightarrow> string \<Rightarrow> byte list option" where
  "toy_dec n [] = (if n = 0 then Some [] else None)"
| "toy_dec n (c # cs) =
     (if c = CHR ''a'' then toy_dec (Suc n) cs else if c = CHR ''b'' then map_option ((#) (of_nat n)) (toy_dec 0 cs) else None)"

lemma toy_dec_run: "toy_dec n (replicate b (CHR ''a'') @ CHR ''b'' # cs) = map_option ((#) (of_nat (n + b))) (toy_dec 0 cs)"
  by (induction b arbitrary: n) (simp_all add: ac_simps)

lemma toy_sound: "b64_sound toy_enc (toy_dec 0)"
proof -
  have "toy_dec 0 (toy_enc bs) = Some bs" for bs
    by (induction bs) (simp_all add: toy_enc_def toy_dec_run)
  moreover have "list_all url_char (toy_enc bs)" for bs
  proof -
    have "url_char (CHR ''a'')" "url_char (CHR ''b'')" by (simp_all add: url_char_def)
    then show ?thesis by (induction bs) (auto simp: toy_enc_def list_all_iff)
  qed
  ultimately show ?thesis by (simp add: b64_sound_def)
qed

theorem signed_cookie_witness:
  "enforce_signed_cookie (\<lambda>bs. [last bs]) toy_enc (toy_dec 0) sample_signer (\<lambda>q. forbidden_response)
     (Some (COOKIE_NAME @ ''='' @ ''abc'' @ ''.'' @ sign_cookie (\<lambda>bs. [last bs]) toy_enc sample_signer ''abc''))
   = resign (sign_cookie (\<lambda>bs. [last bs]) toy_enc sample_signer) forbidden_response"
  using signed_cookie_round_trip [OF toy_sound, of "''abc''" _ "\<lambda>bs. [last bs]" sample_signer sample_signer
      "[]" "\<lambda>q. forbidden_response", OF _ refl]
  by (simp add: plain_id_def url_char_def)

definition sample_stack :: "string option \<Rightarrow> response" where
  "sample_stack q = \<lparr>r_status = 200, r_cookies = [COOKIE_NAME @ ''=abc; Path=/''], r_type = None, r_body = []\<rparr>"

lemma sample_stack_bare: "bare_stack sample_stack"
  unfolding bare_stack_def
proof
  fix q
  have "plain_id ''abc''" by code_simp
  moreover have "r_cookies (sample_stack q) = (COOKIE_NAME @ ''='' @ ''abc'' @ '';'' @ '' Path=/'') # []"
    by (simp add: sample_stack_def)
  ultimately show "r_cookies (sample_stack q) = [] \<or> (\<exists>sid attrs cs. plain_id sid \<and>
      r_cookies (sample_stack q) = (COOKIE_NAME @ ''='' @ sid @ '';'' @ attrs) # cs)" by blast
qed

theorem cookies_never_signed_witness:
  "fold (browse (enforce_signed_cookie (\<lambda>bs. [last bs]) toy_enc (toy_dec 0) sample_signer)) [sample_stack, sample_stack] None
     \<in> {None} \<union> Some ` {sid. plain_id sid}"
  using cookies_never_signed [of "[sample_stack, sample_stack]"] sample_stack_bare by simp

definition sample_post :: "string option \<Rightarrow> string option \<Rightarrow> request" where
  "sample_post bypass token = \<lparr>q_post = True, q_type = None, q_bypass = bypass, q_token = token, q_body = []\<rparr>"

definition sample_session :: session where
  "sample_session = \<lparr>s_pending = None, s_next = None, s_created = Some 0, s_last_seen = Some 0, s_csrf = Some ''t''\<rparr>"

theorem csrf_gate_witness:
  "csrf_middleware (\<lambda>_. None) [] (\<lambda>q s. (sample_stack None, s)) (Some sample_session) (sample_post None (Some ''u''))
     = (forbidden_response, Some sample_session)
   \<and> csrf_middleware (\<lambda>_. None) [] (\<lambda>q s. (sample_stack None, s)) (Some sample_session) (sample_post None (Some ''t''))
     = (finish_html (sample_stack None) ''t'', Some sample_session)"
proof -
  have t: "ensure_token sample_session [] = (''t'', sample_session)" by (simp add: ensure_token_def sample_session_def)
  have p: "q_post (sample_post b x)" for b x by (simp add: sample_post_def)
  have b: "Option.bind (q_bypass (sample_post None x)) header_str \<noteq> Some ''1''" for x by (simp add: sample_post_def)
  have "supplied_token (\<lambda>_. None) (sample_post None (Some ''u'')) \<noteq> Some ''t''"
    "supplied_token (\<lambda>_. None) (sample_post None (Some ''t'')) = Some ''t''"
    "Option.bind (q_token (sample_post None (Some ''t''))) header_str \<noteq> None" by code_simp+
  with csrf_gate [OF p t b] show ?thesis by simp
qed

theorem session_windows_witness:
  "\<exists>loc. enforce_timeout default_guard 1801000000 None sample_session = Expired loc"
proof -
  have "enforce_timeout default_guard 0 None sample_session = Pass sample_session" by code_simp
  from session_windows [OF this, of 0 0 1801000000 None] show ?thesis
    by (simp add: sample_session_def default_guard_def)
qed

theorem api_token_witness:
  "fst (verify_token sample_crypto 9 (''Bearer '' @ TOKEN_PREFIX @ hex_lower (replicate 24 7))
     (snd (issue_token sample_crypto 0 (replicate 24 7) 3 8 1 ''laptop'' []))) = Some (1, 3)"
proof -
  have s: "argon_sound sample_crypto" by (simp add: argon_sound_def sample_crypto_def)
  obtain row where "issue_token sample_crypto 0 (replicate 24 7) 3 8 1 ''laptop'' []
      = (Inr (TOKEN_PREFIX @ hex_lower (replicate 24 7), row),
         snd (issue_token sample_crypto 0 (replicate 24 7) 3 8 1 ''laptop'' []))"
    by (simp add: issue_token_def Let_def sample_crypto_def)
  from api_token_round_trip(1) [OF this s] show ?thesis by (simp add: SECRET_BYTES_def)
qed

end
