(* ===== verification/Statement_Formats.thy ===== *)
theory Statement_Formats
  imports Env Rust_Split
begin

text \<open>
  The readers of bank statement files: the row importer of \<^verbatim>\<open>src/src/import\<close> (\<^verbatim>\<open>sniff.rs\<close>, \<^verbatim>\<open>qif.rs\<close>,
  \<^verbatim>\<open>mt940.rs\<close>, \<^verbatim>\<open>ofx.rs\<close>, \<^verbatim>\<open>csv.rs\<close>), which keeps texts, and the statement importer of
  \<^verbatim>\<open>src/src/import/statement\<close>, which reads dates and amounts.

  Texts are ASCII here: one character is one byte, so the byte offsets of the code are list positions.
  \<^verbatim>\<open>NaiveDate::parse_from_str\<close>, \<^verbatim>\<open>Decimal::from_str\<close> and the CSV reader are code of crates and come in
  as arguments or fields of the environment.  Error texts are constructors that carry the text the
  message quotes.
\<close>

section \<open>More of the string library\<close>

definition trim_start :: "string \<Rightarrow> string" where
  "trim_start s = dropWhile is_ws s"

definition trim_end :: "string \<Rightarrow> string" where
  "trim_end s = rev (dropWhile is_ws (rev s))"

definition trim_end_matches :: "char \<Rightarrow> string \<Rightarrow> string" where
  "trim_end_matches c s = rev (dropWhile (\<lambda>x. x = c) (rev s))"

text \<open>\<^verbatim>\<open>s.trim_start_matches(p)\<close> for a non-empty text \<open>p\<close>.\<close>

function trim_start_matches :: "string \<Rightarrow> string \<Rightarrow> string" where
  "trim_start_matches p s =
     (if p \<noteq> [] \<and> starts_with p s then trim_start_matches p (drop (length p) s) else s)"
  by auto
termination
proof (relation "measure (length o snd)")
  fix p s :: string
  assume p: "p \<noteq> [] \<and> starts_with p s"
  then have "length (take (length p) s) = length p" by (simp add: starts_with_def)
  with p show "((p, drop (length p) s), p, s) \<in> measure (length o snd)" by (cases p) (auto simp: min_def split: if_splits)
qed simp

declare trim_start_matches.simps [simp del]

definition ascii_upper_char :: "char \<Rightarrow> char" where
  "ascii_upper_char c = (let n = of_char c :: nat in if 97 \<le> n \<and> n \<le> 122 then char_of (n - 32) else c)"

definition to_ascii_upper :: "string \<Rightarrow> string" where
  "to_ascii_upper s = map ascii_upper_char s"

definition is_alpha :: "char \<Rightarrow> bool" where
  "is_alpha c \<longleftrightarrow> (let n = of_char c :: nat in (65 \<le> n \<and> n \<le> 90) \<or> (97 \<le> n \<and> n \<le> 122))"

definition is_graphic :: "char \<Rightarrow> bool" where
  "is_graphic c \<longleftrightarrow> (let n = of_char c :: nat in 33 \<le> n \<and> n \<le> 126)"

fun split_whitespace_from :: "string \<Rightarrow> string \<Rightarrow> string list" where
  "split_whitespace_from acc [] = (if acc = [] then [] else [rev acc])"
| "split_whitespace_from acc (c # cs) =
     (if is_ws c then (if acc = [] then [] else [rev acc]) @ split_whitespace_from [] cs
      else split_whitespace_from (c # acc) cs)"

definition split_whitespace :: "string \<Rightarrow> string list" where
  "split_whitespace s = split_whitespace_from [] s"

definition replace_char :: "char \<Rightarrow> char \<Rightarrow> string \<Rightarrow> string" where
  "replace_char a b s = map (\<lambda>c. if c = a then b else c) s"

fun join_with :: "string \<Rightarrow> string list \<Rightarrow> string" where
  "join_with sep [] = []"
| "join_with sep [p] = p"
| "join_with sep (p # q # ps) = p @ sep @ join_with sep (q # ps)"

text \<open>\<^verbatim>\<open>parse::<u32>()\<close>: digits, with an optional plus sign, in range.\<close>

definition parse_u32 :: "string \<Rightarrow> nat option" where
  "parse_u32 s =
     (let d = (case s of c # cs \<Rightarrow> if c = CHR ''+'' \<and> cs \<noteq> [] then cs else s | [] \<Rightarrow> [])
      in if d \<noteq> [] \<and> list_all is_digit d \<and> digits_val d < 2 ^ 32 then Some (digits_val d) else None)"

section \<open>Rows\<close>

datatype import_platform = PCsv | POfx | PQif | PMt940 | PWechat | PAlipayMobile | PAlipayWeb

fun import_platform_as_str :: "import_platform \<Rightarrow> string" where
  "import_platform_as_str PCsv = ''csv''"
| "import_platform_as_str POfx = ''ofx''"
| "import_platform_as_str PQif = ''qif''"
| "import_platform_as_str PMt940 = ''mt940''"
| "import_platform_as_str PWechat = ''wechat''"
| "import_platform_as_str PAlipayMobile = ''alipay_mobile''"
| "import_platform_as_str PAlipayWeb = ''alipay_web''"

record parsed_row =
  pr_date :: string
  pr_description :: string
  pr_debit :: string
  pr_credit :: string
  pr_account :: "string option"
  pr_payee :: "string option"
  pr_reference :: "string option"
  pr_duplicate :: bool
  pr_fingerprint :: nat
  pr_platform :: import_platform

definition row :: "string \<Rightarrow> string \<Rightarrow> string \<Rightarrow> string \<Rightarrow> string option \<Rightarrow> string option \<Rightarrow> string option \<Rightarrow> parsed_row" where
  "row d desc debit credit acct payee ref =
     \<lparr>pr_date = d, pr_description = desc, pr_debit = debit, pr_credit = credit, pr_account = acct,
      pr_payee = payee, pr_reference = ref, pr_duplicate = False, pr_fingerprint = 0, pr_platform = PCsv\<rparr>"

section \<open>Format detection for rows\<close>

datatype row_format = FCsv | FOfx | FQif | FMt940

definition first_non_blank_line :: "string \<Rightarrow> string option" where
  "first_non_blank_line content = find (\<lambda>t. t \<noteq> []) (map trim (str_lines content))"

definition detect :: "string \<Rightarrow> row_format" where
  "detect content =
     (case first_non_blank_line content of
        None \<Rightarrow> FCsv
      | Some line \<Rightarrow>
          if starts_with ''OFXHEADER:'' line then FOfx
          else if starts_with ''<?xml'' line then (if contains_str ''<OFX>'' content then FOfx else FCsv)
          else if starts_with ''!Type:'' line then FQif
          else if contains_str '':20:'' content \<and> contains_str '':25:'' content
                  \<and> (contains_str '':60F:'' content \<or> contains_str '':60M:'' content)
          then FMt940 else FCsv)"

section \<open>QIF rows\<close>

record qif_txn =
  qt_date :: "string option"
  qt_amount :: "string option"
  qt_payee :: "string option"
  qt_memo :: "string option"
  qt_reference :: "string option"

definition empty_qif :: qif_txn where
  "empty_qif = \<lparr>qt_date = None, qt_amount = None, qt_payee = None, qt_memo = None, qt_reference = None\<rparr>"

definition split_slash_quote :: "string \<Rightarrow> string list" where
  "split_slash_quote s = split_on (CHR ''/'') (replace_char (CHR 0x27) (CHR ''/'') s)"

definition qif_normalise_date :: "string \<Rightarrow> string" where
  "qif_normalise_date s0 =
     (let s = trim s0
      in if s = [] then []
         else (case split_slash_quote s of
                 [mm, dd, yy] \<Rightarrow> (if length yy = 2 then ''20'' @ yy else yy) @ ''-'' @ mm @ ''-'' @ dd
               | _ \<Rightarrow> s))"

definition default_str :: "string option \<Rightarrow> string" where
  "default_str x = (case x of None \<Rightarrow> [] | Some s \<Rightarrow> s)"

definition qif_push :: "qif_txn \<Rightarrow> parsed_row list" where
  "qif_push t =
     (case (qt_date t, qt_amount t) of
        (Some d, Some a) \<Rightarrow>
          (let amt = trim a
           in if amt = [] then []
              else let negative = starts_with ''-'' amt; positive = starts_with ''+'' amt;
                       mag = (if negative \<or> positive then tl amt else amt)
                   in [row (qif_normalise_date d) (default_str (qt_memo t))
                         (if negative then mag else []) (if negative then [] else mag)
                         None (qt_payee t) (qt_reference t)])
      | _ \<Rightarrow> [])"

definition qif_field :: "char \<Rightarrow> string \<Rightarrow> qif_txn \<Rightarrow> qif_txn" where
  "qif_field code value t =
     (if code = CHR ''D'' then t\<lparr>qt_date := Some value\<rparr>
      else if code = CHR ''T'' \<or> code = CHR ''U'' then t\<lparr>qt_amount := Some value\<rparr>
      else if code = CHR ''P'' then t\<lparr>qt_payee := Some value\<rparr>
      else if code = CHR ''M'' then t\<lparr>qt_memo := Some value\<rparr>
      else if code = CHR ''N'' then t\<lparr>qt_reference := Some value\<rparr>
      else t)"

definition tab_char :: char where "tab_char = char_of (9 :: nat)"

text \<open>The loop over the trimmed non-blank lines; the flag says that the first of them has been seen.\<close>

fun qif_rows :: "bool \<Rightarrow> qif_txn \<Rightarrow> string list \<Rightarrow> parsed_row list" where
  "qif_rows saw t [] = (if qt_date t \<noteq> None \<or> qt_amount t \<noteq> None then qif_push t else [])"
| "qif_rows saw t (line # lines) =
     (if \<not> saw \<and> starts_with ''!'' line then qif_rows True t lines
      else if line = ''^'' then qif_push t @ qif_rows True empty_qif lines
      else (case line of
              [] \<Rightarrow> qif_rows True t lines
            | code # value \<Rightarrow>
                if is_alpha code
                then qif_rows True (qif_field code (dropWhile (\<lambda>c. c = tab_char \<or> c = CHR '' '') value) t) lines
                else qif_rows True t lines))"

definition qif_parse :: "string \<Rightarrow> parsed_row list" where
  "qif_parse input = qif_rows False empty_qif (filter (\<lambda>l. l \<noteq> []) (map trim (str_lines input)))"

section \<open>CSV rows\<close>

text \<open>\<open>records\<close> are the records the CSV reader yields behind the header; unreadable ones are dropped.\<close>

definition csv_cell :: "string list \<Rightarrow> nat \<Rightarrow> string" where
  "csv_cell record i = (if i < length record then record ! i else [])"

definition csv_optional :: "string list \<Rightarrow> nat \<Rightarrow> string option" where
  "csv_optional record i = (if csv_cell record i = [] then None else Some (csv_cell record i))"

definition csv_parse :: "string list option list \<Rightarrow> parsed_row list" where
  "csv_parse records =
     map (\<lambda>r. row (csv_cell r 0) (csv_cell r 1) (csv_cell r 2) (csv_cell r 3)
               (csv_optional r 4) (csv_optional r 5) (csv_optional r 6))
       (concat (map (\<lambda>r. case r of None \<Rightarrow> [] | Some x \<Rightarrow> [x]) records))"

section \<open>MT940 rows\<close>

record mt_txn =
  mt_value_date :: "string option"
  mt_direction :: "char option"
  mt_amount :: "string option"
  mt_reference :: "string option"
  mt_narrative :: "string option"
  mt_payee :: "string option"

definition empty_mt :: mt_txn where
  "empty_mt = \<lparr>mt_value_date = None, mt_direction = None, mt_amount = None, mt_reference = None,
     mt_narrative = None, mt_payee = None\<rparr>"

record mt940 =
  mt_rows :: "parsed_row list"
  mt_opening :: "string option"
  mt_closing :: "string option"

definition mt_parse_61 :: "string \<Rightarrow> mt_txn" where
  "mt_parse_61 body =
     (let s = trim body;
          digits = takeWhile is_digit s;
          vd = take 6 digits;
          r1 = drop (length digits) s;
          dir = (case r1 of c # _ \<Rightarrow> if c = CHR ''D'' \<or> c = CHR ''C'' then Some c else None | [] \<Rightarrow> None);
          r2 = (if dir = None then r1 else tl r1);
          amount = takeWhile (\<lambda>c. is_digit c \<or> c = CHR '','') r2;
          r3 = drop (length amount) r2;
          ref = (case r3 of
                   c # cs \<Rightarrow> if c = CHR ''N'' then
                       (let rest = trim cs in Some (case str_find ''//'' rest of None \<Rightarrow> rest | Some e \<Rightarrow> take e rest))
                     else None
                 | [] \<Rightarrow> None)
      in \<lparr>mt_value_date = (if length vd = 6
                 then Some (''20'' @ take 2 vd @ ''-'' @ take 2 (drop 2 vd) @ ''-'' @ drop 4 vd) else None),
          mt_direction = dir,
          mt_amount = (if amount = [] then None else Some (replace_char (CHR '','') (CHR ''.'') amount)),
          mt_reference = ref, mt_narrative = None, mt_payee = None\<rparr>)"

function split_subfields :: "string \<Rightarrow> string list" where
  "split_subfields body =
     (case str_find ''?'' body of
        None \<Rightarrow> []
      | Some idx \<Rightarrow>
          (let pre = (if idx > 0 \<and> trim (take idx body) \<noteq> [] then [trim (take idx body)] else [])
           in if idx + 2 \<ge> length body then pre
              else let after = drop (idx + 3) body;
                       e = (case str_find ''?'' after of None \<Rightarrow> length after | Some e \<Rightarrow> e)
                   in pre @ (take 3 (drop idx body) @ take e after) # split_subfields (drop e after)))"
  by auto
termination
  by (relation "measure length") auto

declare split_subfields.simps [simp del]

fun mt_narrative_of :: "string option \<Rightarrow> string \<Rightarrow> string list \<Rightarrow> string \<times> string option" where
  "mt_narrative_of payee acc [] = (trim_end_matches (CHR ''/'') acc, payee)"
| "mt_narrative_of payee acc (sub # subs) =
     (let payee' = (case strip_prefix ''?32'' sub of
            Some rest \<Rightarrow> Some (trim rest)
          | None \<Rightarrow> (if payee = None then map_option trim (strip_prefix ''?21'' sub) else payee))
      in mt_narrative_of payee' (acc @ sub @ ''/'') subs)"

definition mt_parse_86 :: "string \<Rightarrow> string \<times> string option" where
  "mt_parse_86 body = mt_narrative_of None [] (split_subfields body)"

definition mt_push :: "mt_txn \<Rightarrow> parsed_row list" where
  "mt_push t =
     (case mt_amount t of
        None \<Rightarrow> []
      | Some a \<Rightarrow>
          (let amount = trim a
           in if amount = [] then []
              else [row (default_str (mt_value_date t)) (default_str (mt_narrative t))
                      (if mt_direction t = Some (CHR ''D'') then amount else [])
                      (if mt_direction t = Some (CHR ''D'') then [] else amount)
                      None (mt_payee t) (mt_reference t)]))"

definition mt_set_86 :: "string \<Rightarrow> mt_txn \<Rightarrow> mt_txn" where
  "mt_set_86 body t = (case mt_parse_86 body of (text, payee) \<Rightarrow> t\<lparr>mt_narrative := Some text, mt_payee := payee\<rparr>)"

text \<open>The loop over the trimmed lines.\<close>

fun mt_lines :: "mt_txn \<Rightarrow> mt940 \<Rightarrow> string list \<Rightarrow> mt940" where
  "mt_lines t m [] = (if mt_value_date t \<noteq> None then m\<lparr>mt_rows := mt_rows m @ mt_push t\<rparr> else m)"
| "mt_lines t m (line # lines) =
     (if starts_with '':60F:'' line \<or> starts_with '':60M:'' line
      then mt_lines t (m\<lparr>mt_opening := Some (drop 5 line)\<rparr>) lines
      else if starts_with '':62F:'' line \<or> starts_with '':62M:'' line
      then mt_lines t (m\<lparr>mt_closing := Some (drop 5 line)\<rparr>) lines
      else if starts_with '':61:'' line
      then mt_lines (mt_parse_61 (drop 4 line))
             (if mt_value_date t \<noteq> None then m\<lparr>mt_rows := mt_rows m @ mt_push t\<rparr> else m) lines
      else if starts_with '':86:'' line then mt_lines (mt_set_86 (drop 4 line) t) m lines
      else if mt_value_date t \<noteq> None \<and> \<not> starts_with '':'' line \<and> line \<noteq> []
      then mt_lines (t\<lparr>mt_narrative := Some line\<rparr>) m lines
      else mt_lines t m lines)"

definition mt940_parse :: "string \<Rightarrow> mt940" where
  "mt940_parse input =
     mt_lines empty_mt \<lparr>mt_rows = [], mt_opening = None, mt_closing = None\<rparr> (map trim (str_lines input))"

section \<open>The statement lines\<close>

record statement_line =
  sl_date :: date
  sl_amount :: decimal
  sl_payee :: string
  sl_memo :: "string option"
  sl_external_id :: "string option"
  sl_currency :: "string option"

datatype stmt_format = SOfx | SQbo | SQif | SCamt | SMt940

datatype stmt_error =
    UnparseableDate string
  | BadDatePart string
  | AmbiguousDate string
  | ImpossibleDate string
  | BadAmount string
  | MissingField string
  | BadLine string
  | UnknownFunds char
  | NoEntries string
  | InQbo stmt_error

text \<open>
  \<^verbatim>\<open>sniff_format\<close> on the first 2048 bytes.  The head is never empty of lines for the test on its first line,
  except when it is empty itself; then the question mark operator returns no format.
\<close>

definition sniff_format :: "string \<Rightarrow> stmt_format option" where
  "sniff_format bytes =
     (let head = to_ascii_upper (take 2048 bytes)
      in if contains_str ''INTU.BID'' head \<or> contains_str ''INTUIT'' head \<or> contains_str ''<INTU'' head then Some SQbo
         else if contains_str ''OFXHEADER'' head \<or> contains_str ''<OFX>'' head then Some SOfx
         else if starts_with ''!TYPE:'' head \<or> starts_with ''!ACCOUNT'' head then Some SQif
         else (case str_lines head of
                 [] \<Rightarrow> None
               | l # _ \<Rightarrow>
                   if starts_with ''!'' l then Some SQif
                   else if contains_str ''CAMT:'' head \<or> contains_str ''CAMT.'' head
                           \<or> contains_str ''BKTOCSTMR'' head \<or> contains_str ''<NTRY>'' head then Some SCamt
                   else if contains_str '':20:'' head \<or> contains_str '':61:'' head then Some SMt940
                   else None))"

definition is_alnum :: "char \<Rightarrow> bool" where
  "is_alnum c \<longleftrightarrow> is_alpha c \<or> is_digit c"

fun normalize_from :: "bool \<Rightarrow> string \<Rightarrow> string" where
  "normalize_from last_space [] = []"
| "normalize_from last_space (c # cs) =
     (if is_alnum c then ascii_lower_char c # normalize_from False cs
      else if \<not> last_space then CHR '' '' # normalize_from True cs
      else normalize_from last_space cs)"

definition normalize_payee :: "string \<Rightarrow> string" where
  "normalize_payee s = trim_end (normalize_from True s)"

section \<open>QIF statements\<close>

datatype date_order = Us | Eu

definition resolve_order :: "nat \<Rightarrow> nat \<Rightarrow> date_order \<Rightarrow> (nat \<times> nat) option" where
  "resolve_order a b hint =
     (if a \<le> 12 \<and> \<not> b \<le> 12 then Some (a, b)
      else if \<not> a \<le> 12 \<and> b \<le> 12 then Some (b, a)
      else if a \<le> 12 \<and> b \<le> 12 then (case hint of Us \<Rightarrow> Some (a, b) | Eu \<Rightarrow> Some (b, a))
      else None)"

definition qif_date_clean :: "string \<Rightarrow> string" where
  "qif_date_clean raw =
     replace_char (CHR 0x27) (CHR ''/'')
       (filter (\<lambda>c. \<not> is_ws c \<and> c \<noteq> CHR '','' \<and> c \<noteq> CHR 0x22) (trim raw))"

definition date_parts :: "string \<Rightarrow> string list option" where
  "date_parts cleaned =
     (if CHR ''/'' \<in> set cleaned then Some (split_on (CHR ''/'') cleaned)
      else if CHR ''.'' \<in> set cleaned then Some (split_on (CHR ''.'') cleaned)
      else if CHR ''-'' \<in> set cleaned then Some (split_on (CHR ''-'') cleaned)
      else None)"

definition as_i32 :: "nat \<Rightarrow> int" where
  "as_i32 n = i32_wrap (int n)"

definition qif_date_of_nums :: "string \<Rightarrow> date_order \<Rightarrow> nat \<Rightarrow> nat \<Rightarrow> nat \<Rightarrow> stmt_error + date" where
  "qif_date_of_nums raw hint a b c =
     (if a > 31 then ok_or (ImpossibleDate raw) (from_ymd_opt (as_i32 a) b c)
      else case resolve_order a b hint of
             None \<Rightarrow> Inl (AmbiguousDate raw)
           | Some (month, day) \<Rightarrow>
               (let y = as_i32 c; year = (if y < 100 then y + (if y < 70 then 2000 else 1900) else y)
                in ok_or (ImpossibleDate raw) (from_ymd_opt year month day)))"

definition qif_parse_date :: "env \<Rightarrow> string \<Rightarrow> date_order \<Rightarrow> stmt_error + date" where
  "qif_parse_date E raw hint =
     (let cleaned = qif_date_clean raw
      in case parse_date E cleaned of
           Some d \<Rightarrow> Inr d
         | None \<Rightarrow>
             (case date_parts cleaned of
                Some [p, q, r] \<Rightarrow>
                  (case (parse_u32 p, parse_u32 q, parse_u32 r) of
                     (Some a, Some b, Some c) \<Rightarrow> qif_date_of_nums raw hint a b c
                   | _ \<Rightarrow> Inl (BadDatePart raw))
              | _ \<Rightarrow> Inl (UnparseableDate raw)))"

record qif_state =
  qs_out :: "statement_line list"
  qs_date :: "date option"
  qs_amount :: "decimal option"
  qs_payee :: string
  qs_memo :: "string option"
  qs_bank :: bool

definition qif_bank_section :: "string \<Rightarrow> bool" where
  "qif_bank_section line =
     (let upper = to_ascii_upper line
      in starts_with ''!TYPE:BANK'' upper \<or> starts_with ''!TYPE:CASH'' upper
         \<or> starts_with ''!TYPE:CCARD'' upper \<or> starts_with ''!TYPE:STMT'' upper)"

definition qif_amount_clean :: "string \<Rightarrow> string" where
  "qif_amount_clean value = filter (\<lambda>c. c \<noteq> CHR '','' \<and> is_graphic c) value"

definition qif_statement_line :: "env \<Rightarrow> date_order \<Rightarrow> qif_state \<Rightarrow> string \<Rightarrow> stmt_error + qif_state" where
  "qif_statement_line E hint st raw_line =
     (let line = trim_end raw_line
      in if starts_with ''!'' line then Inr (st\<lparr>qs_bank := qif_bank_section line\<rparr>)
         else if \<not> qs_bank st then Inr st
         else (case line of
             [] \<Rightarrow> Inr st
           | code # value \<Rightarrow>
               if code = CHR ''D'' then rbind (qif_parse_date E value hint) (\<lambda>d. Inr (st\<lparr>qs_date := Some d\<rparr>))
               else if code = CHR ''T'' then
                 rbind (ok_or (BadAmount value) (parse_dec E (qif_amount_clean value))) (\<lambda>a. Inr (st\<lparr>qs_amount := Some a\<rparr>))
               else if code = CHR ''P'' then Inr (st\<lparr>qs_payee := trim value\<rparr>)
               else if code = CHR ''M'' then Inr (st\<lparr>qs_memo := Some (trim value)\<rparr>)
               else if code = CHR ''^'' then
                 (case (qs_date st, qs_amount st) of
                    (Some d, Some a) \<Rightarrow>
                      Inr (st\<lparr>qs_out := qs_out st @ [\<lparr>sl_date = d, sl_amount = a,
                              sl_payee = (if qs_payee st = [] then ''(unnamed)'' else qs_payee st),
                              sl_memo = qs_memo st, sl_external_id = None, sl_currency = None\<rparr>],
                              qs_date := None, qs_amount := None, qs_payee := [], qs_memo := None\<rparr>)
                  | _ \<Rightarrow> Inl (MissingField ''QIF record missing date or amount''))
               else Inr st))"

definition qif_statement :: "env \<Rightarrow> string \<Rightarrow> date_order \<Rightarrow> stmt_error + statement_line list" where
  "qif_statement E text hint =
     rbind (try_fold (qif_statement_line E hint)
        \<lparr>qs_out = [], qs_date = None, qs_amount = None, qs_payee = [], qs_memo = None, qs_bank = False\<rparr> (str_lines text))
       (\<lambda>st. if qs_out st = [] then Inl (NoEntries ''no QIF transactions found'') else Inr (qs_out st))"

section \<open>MT940 statements\<close>

definition i32_of :: "string \<Rightarrow> int option" where
  "i32_of s = parse_i32 s"

definition parse_61 :: "env \<Rightarrow> string \<Rightarrow> stmt_error + date \<times> decimal" where
  "parse_61 E line =
     (let body = trim_start_matches '':61:'' line
      in if length body < 10 then Inl (BadLine line)
         else rbind (ok_or (BadLine line) (i32_of (take 2 body))) (\<lambda>yy.
              rbind (ok_or (BadLine line) (parse_u32 (take 2 (drop 2 body)))) (\<lambda>month.
              rbind (ok_or (BadLine line) (parse_u32 (take 2 (drop 4 body)))) (\<lambda>day.
              rbind (ok_or (ImpossibleDate line) (from_ymd_opt (2000 + yy) month day)) (\<lambda>d.
                (let r0 = drop 6 body;
                     rest = (if length r0 > 4 \<and> list_all is_digit (take 4 r0) then drop 4 r0 else r0)
                 in case rest of
                      [] \<Rightarrow> Inl (BadLine line)
                    | funds # after \<Rightarrow>
                        (let part = takeWhile (\<lambda>c. is_digit c \<or> c = CHR '','') (dropWhile (\<lambda>c. c = CHR ''-'') after)
                         in if part = [] then Inl (BadAmount line)
                            else rbind (ok_or (BadAmount part) (parse_dec E (replace_char (CHR '','') (CHR ''.'') part))) (\<lambda>value.
                                 if funds = CHR ''C'' \<or> funds = CHR ''c'' then Inr (d, value)
                                 else if funds = CHR ''D'' \<or> funds = CHR ''d'' then Inr (d, - value)
                                 else Inl (UnknownFunds funds)))))))))"

definition payee_segments :: "string \<Rightarrow> string list" where
  "payee_segments block =
     map (\<lambda>seg. trim (drop 2 seg))
       (filter (\<lambda>seg. \<not> length seg < 3 \<and> take 2 seg \<in> {''20'', ''25'', ''32'', ''33''})
         (map trim (split_on (CHR ''?'') block)))"

definition parse_86 :: "string \<Rightarrow> string option" where
  "parse_86 block =
     (let parts = payee_segments block
      in if parts = [] then
           (let flat = join_with '' '' (filter (\<lambda>l. l \<noteq> []) (map trim (str_lines block)))
            in if flat = [] then None else Some flat)
         else Some (join_with '' '' parts))"

record mt_state =
  ms_out :: "statement_line list"
  ms_ref :: "string option"
  ms_pending :: "(date \<times> decimal) option"

definition mt_line_of :: "mt_state \<Rightarrow> date \<times> decimal \<Rightarrow> string option \<Rightarrow> statement_line" where
  "mt_line_of st p info =
     \<lparr>sl_date = fst p, sl_amount = snd p, sl_payee = (case info of None \<Rightarrow> ''(unnamed)'' | Some s \<Rightarrow> s),
      sl_memo = info, sl_external_id = ms_ref st, sl_currency = None\<rparr>"

definition mt_flush :: "mt_state \<Rightarrow> string option \<Rightarrow> mt_state" where
  "mt_flush st info =
     (case ms_pending st of
        None \<Rightarrow> st
      | Some p \<Rightarrow> st\<lparr>ms_out := ms_out st @ [mt_line_of st p info], ms_pending := None\<rparr>)"

text \<open>A continuation line is appended to the payee of the last line already pushed.\<close>

definition mt_continue :: "mt_state \<Rightarrow> string \<Rightarrow> mt_state" where
  "mt_continue st line =
     (if ms_out st \<noteq> [] \<and> sl_payee (last (ms_out st)) \<noteq> ''(unnamed)''
      then st\<lparr>ms_out := butlast (ms_out st) @
             [(last (ms_out st))\<lparr>sl_payee := sl_payee (last (ms_out st)) @ '' '' @ trim line\<rparr>]\<rparr>
      else st)"

definition mt_statement_line :: "env \<Rightarrow> mt_state \<Rightarrow> string \<Rightarrow> stmt_error + mt_state" where
  "mt_statement_line E st raw =
     (let line = trim_end raw
      in if starts_with '':20:'' line then Inr (st\<lparr>ms_ref := Some (trim (trim_start_matches '':20:'' line))\<rparr>)
         else if starts_with '':61:'' line then
           rbind (parse_61 E line) (\<lambda>p. Inr ((mt_flush st None)\<lparr>ms_pending := Some p\<rparr>))
         else if starts_with '':86:'' line then
           Inr (if ms_pending st = None then st else mt_flush st (parse_86 line))
         else if ms_pending st \<noteq> None \<and> trim line \<noteq> [] \<and> \<not> starts_with '':'' line then Inr (mt_continue st line)
         else Inr st)"

definition mt_statement :: "env \<Rightarrow> string \<Rightarrow> stmt_error + statement_line list" where
  "mt_statement E text =
     rbind (try_fold (mt_statement_line E) \<lparr>ms_out = [], ms_ref = None, ms_pending = None\<rparr> (str_lines text)) (\<lambda>st.
       let out = ms_out (mt_flush st None)
       in if out = [] then Inl (NoEntries ''no :61: statement lines found'') else Inr out)"

section \<open>OFX statements\<close>

definition tag_value :: "string \<Rightarrow> string \<Rightarrow> string option" where
  "tag_value block tag =
     (case str_find (''<'' @ tag) block of
        None \<Rightarrow> None
      | Some i \<Rightarrow>
          (let r0 = drop (i + length tag + 1) block;
               rest = (case strip_prefix ''>'' r0 of Some r \<Rightarrow> r | None \<Rightarrow> r0);
               v = trim (takeWhile (\<lambda>c. c \<noteq> CHR ''<'') rest)
           in if v = [] then None else Some v))"

function stmttrn_blocks :: "string \<Rightarrow> string list" where
  "stmttrn_blocks text =
     (case str_find ''<STMTTRN>'' (to_ascii_upper text) of
        None \<Rightarrow> []
      | Some i \<Rightarrow>
          (let body = drop (i + 9) text;
               n = (case str_find ''</STMTTRN>'' (to_ascii_upper body) of Some e \<Rightarrow> e | None \<Rightarrow> min 4000 (length body))
           in take n body # stmttrn_blocks (drop n body)))"
  by auto

termination
  by (relation "measure length")
    (auto simp: to_ascii_upper_def dest!: str_find_length split: option.splits)

declare stmttrn_blocks.simps [simp del]

text \<open>\<open>ymd\<close> is \<^verbatim>\<open>NaiveDate::parse_from_str\<close> with the format \<^verbatim>\<open>%Y%m%d\<close>.\<close>

definition parse_ofx_date :: "(string \<Rightarrow> date option) \<Rightarrow> string \<Rightarrow> date option" where
  "parse_ofx_date ymd raw =
     (let digits = filter is_digit raw in if length digits < 8 then None else ymd (take 8 digits))"

definition ofx_line :: "env \<Rightarrow> (string \<Rightarrow> date option) \<Rightarrow> string \<Rightarrow> stmt_error + statement_line" where
  "ofx_line E ymd block =
     rbind (ok_or (MissingField ''STMTTRN missing DTPOSTED'') (tag_value block ''DTPOSTED'')) (\<lambda>date_raw.
     rbind (ok_or (UnparseableDate date_raw) (parse_ofx_date ymd date_raw)) (\<lambda>d.
     rbind (ok_or (MissingField ''STMTTRN missing TRNAMT'') (tag_value block ''TRNAMT'')) (\<lambda>amount_raw.
     rbind (ok_or (BadAmount amount_raw) (parse_dec E amount_raw)) (\<lambda>amount.
       Inr \<lparr>sl_date = d, sl_amount = amount,
            sl_payee = (case tag_value block ''NAME'' of
                Some n \<Rightarrow> n
              | None \<Rightarrow> (case tag_value block ''PAYEE'' of Some n \<Rightarrow> n | None \<Rightarrow> ''(unnamed)'')),
            sl_memo = tag_value block ''MEMO'', sl_external_id = tag_value block ''FITID'', sl_currency = None\<rparr>))))"

definition ofx_statement :: "env \<Rightarrow> (string \<Rightarrow> date option) \<Rightarrow> string \<Rightarrow> stmt_error + statement_line list" where
  "ofx_statement E ymd text =
     rbind (try_fold (\<lambda>out b. rbind (ofx_line E ymd b) (\<lambda>l. Inr (out @ [l]))) [] (stmttrn_blocks text)) (\<lambda>out.
       if out = [] then Inl (NoEntries ''no STMTTRN transactions found in OFX file'') else Inr out)"

section \<open>CAMT statements\<close>

definition xml_text :: "string \<Rightarrow> string \<Rightarrow> string option" where
  "xml_text xml local =
     (case str_find (''<'' @ local @ '' '') xml of
        Some pos \<Rightarrow>
          (case str_find ''>'' (drop pos xml) of
             None \<Rightarrow> None
           | Some g \<Rightarrow>
               (let content = drop (pos + g + 1) xml
                in map_option (\<lambda>e. trim (take e content)) (str_find (''</'' @ local @ ''>'') content)))
      | None \<Rightarrow>
          (case str_find (''<'' @ local @ ''>'') xml of
             None \<Rightarrow> None
           | Some pos \<Rightarrow>
               (let content = drop (pos + length local + 2) xml
                in map_option (\<lambda>e. trim (take e content)) (str_find (''</'' @ local @ ''>'') content))))"

function ntry_blocks :: "string \<Rightarrow> string list" where
  "ntry_blocks xml =
     (case str_find ''<Ntry>'' xml of
        None \<Rightarrow> []
      | Some i \<Rightarrow>
          (let body = drop (i + 6) xml;
               n = (case str_find ''</Ntry>'' body of Some e \<Rightarrow> e | None \<Rightarrow> length body)
           in take n body # ntry_blocks (drop n body)))"
  by auto
termination
  by (relation "measure length") (auto dest!: str_find_length split: option.splits)

declare ntry_blocks.simps [simp del]

definition tag_char :: "char \<Rightarrow> bool" where
  "tag_char c \<longleftrightarrow> is_alnum c \<or> c = CHR ''_'' \<or> c = CHR ''-'' \<or> c = CHR ''.''"

function strip_prefixes :: "string \<Rightarrow> string" where
  "strip_prefixes xml =
     (case str_find ''<'' xml of
        None \<Rightarrow> xml
      | Some pos \<Rightarrow>
          (let a0 = drop (pos + 1) xml;
               closing = starts_with ''/'' a0;
               after = (if closing then drop 1 a0 else a0);
               opener = take pos xml @ ''<'' @ (if closing then ''/'' else [])
           in case str_find '':'' after of
                Some colon \<Rightarrow>
                  if colon > 0 \<and> list_all tag_char (take colon after) \<and> \<not> starts_with ''!--'' after
                  then opener @ strip_prefixes (drop (colon + 1) after)
                  else opener @ strip_prefixes after
              | None \<Rightarrow> opener @ strip_prefixes after))"
  by auto
termination
  by (relation "measure length") (auto dest!: str_find_length split: option.splits)

declare strip_prefixes.simps [simp del]

definition split_after :: "string \<Rightarrow> string \<Rightarrow> string option" where
  "split_after p s = map_option (\<lambda>i. drop (i + length p) s) (str_find p s)"

definition camt_currency :: "string \<Rightarrow> string option" where
  "camt_currency amt_slice =
     (let tag = takeWhile (\<lambda>c. c \<noteq> CHR ''>'') amt_slice
      in map_option (\<lambda>r. takeWhile (\<lambda>c. c \<noteq> CHR 0x22)
             (case str_find (''Ccy='' @ [CHR 0x22]) r of None \<Rightarrow> r | Some j \<Rightarrow> take j r))
           (split_after (''Ccy='' @ [CHR 0x22]) tag))"

definition camt_line :: "env \<Rightarrow> string \<Rightarrow> stmt_error + statement_line" where
  "camt_line E block =
     rbind (ok_or (MissingField ''Ntry missing BookgDt/Dt'')
        (case Option.bind (xml_text block ''BookgDt'') (\<lambda>b. xml_text b ''Dt'') of
           Some d \<Rightarrow> Some d
         | None \<Rightarrow> Option.bind (xml_text block ''ValDt'') (\<lambda>v. xml_text v ''Dt''))) (\<lambda>date_raw.
     rbind (ok_or (UnparseableDate date_raw)
        (if length date_raw < 10 then None else parse_date E (take 10 date_raw))) (\<lambda>d.
     rbind (ok_or (MissingField ''Ntry missing Amt'') (str_find ''<Amt'' block)) (\<lambda>i.
       (let amt_slice = drop i block
        in rbind (ok_or (MissingField ''Ntry missing Amt value'') (xml_text amt_slice ''Amt'')) (\<lambda>raw.
             (let amount_raw = filter (\<lambda>c. c \<noteq> CHR '','') raw
              in rbind (ok_or (BadAmount amount_raw) (parse_dec E amount_raw)) (\<lambda>amount.
                   Inr \<lparr>sl_date = d, sl_amount = amount,
                        sl_payee = (case xml_text block ''AddtlNtryInf'' of
                            Some p \<Rightarrow> p
                          | None \<Rightarrow> (case Option.bind (xml_text block ''RltdPties'') (\<lambda>p. xml_text p ''Nm'') of
                                Some p \<Rightarrow> p | None \<Rightarrow> ''(unnamed)'')),
                        sl_memo = None,
                        sl_external_id = (case xml_text block ''AcctSvcrRef'' of
                            Some r \<Rightarrow> Some r | None \<Rightarrow> xml_text block ''Ref''),
                        sl_currency = camt_currency amt_slice\<rparr>)))))))"

definition camt_statement :: "env \<Rightarrow> string \<Rightarrow> stmt_error + statement_line list" where
  "camt_statement E text =
     rbind (try_fold (\<lambda>out b. rbind (camt_line E b) (\<lambda>l. Inr (out @ [l]))) [] (ntry_blocks (strip_prefixes text))) (\<lambda>out.
       if out = [] then Inl (NoEntries ''no Ntry entries found in CAMT document'') else Inr out)"

definition statement_parse :: "env \<Rightarrow> (string \<Rightarrow> date option) \<Rightarrow> stmt_format \<Rightarrow> string \<Rightarrow> date_order \<Rightarrow> stmt_error + statement_line list" where
  "statement_parse E ymd fmt text hint =
     (case fmt of
        SOfx \<Rightarrow> ofx_statement E ymd text
      | SQbo \<Rightarrow> map_err InQbo (ofx_statement E ymd text)
      | SQif \<Rightarrow> qif_statement E text hint
      | SCamt \<Rightarrow> camt_statement E text
      | SMt940 \<Rightarrow> mt_statement E text)"

end
