(* ===== verification/Reconciliation.thy ===== *)
theory Reconciliation
  imports Statement_Formats Ledger_Access
begin

text \<open>
  Bank reconciliation: the statement upload, the matching page and its completion
  (\<^verbatim>\<open>src/src/handlers/reconciliation.rs\<close>), the statement sessions (\<^verbatim>\<open>src/src/handlers/rec_sessions.rs\<close>,
  \<^verbatim>\<open>src/src/domain/statement_reconciliation.rs\<close>), the rules (\<^verbatim>\<open>src/src/domain/reconciliation_rules.rs\<close>,
  \<^verbatim>\<open>src/src/handlers/rules.rs\<close>, \<^verbatim>\<open>src/src/handlers/rules_apply.rs\<close>), what a match teaches
  (\<^verbatim>\<open>src/src/domain/payee_learning.rs\<close>) and the validation of uploads (\<^verbatim>\<open>src/src/upload.rs\<close>).

  The tables of the migrations 0011, 0021, 0054 and 0056 stand beside the books in \<open>bdb\<close>; the column
  \<^verbatim>\<open>transactions.is_reconciled\<close> is the list \<open>reconciled\<close> of the transactions where it is true.  A handler takes the
  signed-in user, if any, and returns its answer with the new state.  Crates come in as arguments: \<open>infer\<close> is
  \<^verbatim>\<open>infer::get\<close>, \<open>csv\<close> the CSV reader behind the header line, \<open>ymd\<close> the date format \<^verbatim>\<open>%Y%m%d\<close>, \<open>regex\<close> the regular
  expression engine and \<open>json_of\<close> the JSON parser.
\<close>

section \<open>Tables\<close>

record bank_line =
  bl_id :: uuid
  bl_ledger :: uuid
  bl_account :: uuid
  bl_date :: date
  bl_description :: "string option"
  bl_amount :: decimal
  bl_check :: "string option"
  bl_status :: string
  bl_matched :: "uuid option"
  bl_created :: int
  bl_external :: "string option"

record rec_session =
  rs_id :: uuid
  rs_ledger :: uuid
  rs_account :: uuid
  rs_close_date :: date
  rs_close_balance :: decimal
  rs_opening :: decimal
  rs_status :: string
  rs_created_by :: uuid
  rs_closed_by :: "uuid option"
  rs_closed_at :: "int option"

record rec_line =
  rn_session :: uuid
  rn_line :: uuid
  rn_cleared :: bool
  rn_cleared_at :: "int option"

record reconciliation_row =
  rc_ledger :: uuid
  rc_account :: uuid
  rc_date :: date
  rc_statement :: decimal
  rc_book :: decimal
  rc_difference :: decimal
  rc_by :: uuid

record alias_row =
  pa_ledger :: uuid
  pa_alias :: string
  pa_canonical :: string
  pa_account :: "uuid option"
  pa_hits :: int
  pa_last :: int

record recon_rule_row =
  rr_id :: uuid
  rr_ledger :: uuid
  rr_name :: string
  rr_kind :: string
  rr_priority :: int
  rr_predicate :: json
  rr_action :: json
  rr_active :: bool

record bdb =
  bcore :: db
  bank_lines :: "bank_line list"
  rec_sessions :: "rec_session list"
  rec_lines :: "rec_line list"
  reconciliations :: "reconciliation_row list"
  payee_aliases :: "alias_row list"
  recon_rules :: "recon_rule_row list"
  reconciled :: "uuid list"

definition blog :: "env \<Rightarrow> uuid \<Rightarrow> uuid \<Rightarrow> string \<Rightarrow> string \<Rightarrow> uuid option \<Rightarrow> json option \<Rightarrow> json option \<Rightarrow> bdb \<Rightarrow> bdb" where
  "blog E ledger_id user_id action entity i old new s =
     s\<lparr>bcore := audit_log E (Some ledger_id) user_id action entity i old new (bcore s)\<rparr>"

definition account_exists :: "db \<Rightarrow> uuid \<Rightarrow> bool" where
  "account_exists db i \<longleftrightarrow> list_ex (\<lambda>a. a_id a = i) (accounts db)"

definition insert_bank_line :: "env \<Rightarrow> bank_line \<Rightarrow> bdb \<Rightarrow> db_error + bdb" where
  "insert_bank_line E r s =
     (case numeric_col 20 4 (bl_amount r) of None \<Rightarrow> Inl NumericOverflow
      | Some a \<Rightarrow>
          (let (i, db1) = draw E (bcore s) in
           if list_ex (\<lambda>b. bl_id b = i) (bank_lines s) then Inl (UniqueViolation ''bank_statement_lines_pkey'')
           else if ledger_of (bcore s) (bl_ledger r) = None then Inl (ForeignKeyViolation ''bank_statement_lines_ledger_id_fkey'')
           else if \<not> account_exists (bcore s) (bl_account r) then Inl (ForeignKeyViolation ''bank_statement_lines_account_id_fkey'')
           else if bl_external r \<noteq> None
                   \<and> list_ex (\<lambda>b. bl_account b = bl_account r \<and> bl_external b = bl_external r) (bank_lines s)
             then Inl (UniqueViolation ''uq_bsl_external'')
           else Inr (s\<lparr>bcore := db1,
                  bank_lines := bank_lines s @ [r\<lparr>bl_id := i, bl_amount := a, bl_status := ''unmatched'',
                                                  bl_matched := None, bl_created := now E\<rparr>]\<rparr>)))"

definition insert_rec_session :: "env \<Rightarrow> rec_session \<Rightarrow> (bdb, db_error, uuid) tx" where
  "insert_rec_session E r s =
     (case (numeric_col 20 4 (rs_close_balance r), numeric_col 20 4 (rs_opening r)) of
        (Some c, Some o') \<Rightarrow>
          (let (i, db1) = draw E (bcore s) in
           if list_ex (\<lambda>x. rs_id x = i) (rec_sessions s) then Inl (UniqueViolation ''rec_sessions_pkey'')
           else if list_ex (\<lambda>x. rs_account x = rs_account r \<and> rs_close_date x = rs_close_date r) (rec_sessions s)
             then Inl (UniqueViolation ''rec_sessions_account_id_stmt_close_date_key'')
           else if ledger_of (bcore s) (rs_ledger r) = None then Inl (ForeignKeyViolation ''rec_sessions_ledger_id_fkey'')
           else if \<not> account_exists (bcore s) (rs_account r) then Inl (ForeignKeyViolation ''rec_sessions_account_id_fkey'')
           else Inr (i, s\<lparr>bcore := db1,
                  rec_sessions := rec_sessions s @ [r\<lparr>rs_id := i, rs_close_balance := c, rs_opening := o'\<rparr>]\<rparr>))
      | _ \<Rightarrow> Inl NumericOverflow)"

text \<open>\<^verbatim>\<open>INSERT ... ON CONFLICT (session_id, bank_line_id) DO UPDATE SET cleared = TRUE\<close>.\<close>

definition upsert_cleared :: "env \<Rightarrow> uuid \<Rightarrow> uuid \<Rightarrow> bdb \<Rightarrow> bdb" where
  "upsert_cleared E session_id line_id s =
     s\<lparr>rec_lines :=
        (if list_ex (\<lambda>r. rn_session r = session_id \<and> rn_line r = line_id) (rec_lines s)
         then map (\<lambda>r. if rn_session r = session_id \<and> rn_line r = line_id
                       then r\<lparr>rn_cleared := True, rn_cleared_at := Some (now E)\<rparr> else r) (rec_lines s)
         else rec_lines s @ [\<lparr>rn_session = session_id, rn_line = line_id, rn_cleared = True, rn_cleared_at = Some (now E)\<rparr>])\<rparr>"

definition unclear_where :: "(rec_line \<Rightarrow> bool) \<Rightarrow> bdb \<Rightarrow> bdb" where
  "unclear_where P s =
     s\<lparr>rec_lines := map (\<lambda>r. if P r then r\<lparr>rn_cleared := False, rn_cleared_at := None\<rparr> else r) (rec_lines s)\<rparr>"

definition set_session :: "uuid \<Rightarrow> (rec_session \<Rightarrow> rec_session) \<Rightarrow> bdb \<Rightarrow> bdb" where
  "set_session i f s = s\<lparr>rec_sessions := map (\<lambda>x. if rs_id x = i then f x else x) (rec_sessions s)\<rparr>"

section \<open>Statement sessions\<close>

definition carry_opening :: "decimal option \<Rightarrow> decimal" where
  "carry_opening prior_close = (case prior_close of None \<Rightarrow> 0 | Some c \<Rightarrow> c)"

definition compute_difference :: "decimal \<Rightarrow> decimal \<Rightarrow> decimal \<Rightarrow> decimal" where
  "compute_difference opening cleared_sum stmt_close = stmt_close - (opening + cleared_sum)"

definition validate_finish :: "decimal \<Rightarrow> decimal + unit" where
  "validate_finish difference = (if difference = 0 then Inr () else Inl difference)"

definition validate_unreconcile_reason :: "string \<Rightarrow> string + unit" where
  "validate_unreconcile_reason reason =
     (if length (trim reason) \<ge> 10 then Inr () else Inl ''unreconcile reason must be at least 10 characters'')"

definition confirm_given :: "string option \<Rightarrow> bool" where
  "confirm_given v = (case v of None \<Rightarrow> False | Some t \<Rightarrow> trim t \<in> {''1'', ''true'', ''yes'', ''on''})"

definition load_session :: "bdb \<Rightarrow> uuid \<Rightarrow> uuid \<Rightarrow> uuid \<Rightarrow> app_error + rec_session" where
  "load_session s ledger_id account_id session_id =
     ok_or NotFound (find (\<lambda>x. rs_id x = session_id \<and> rs_ledger x = ledger_id \<and> rs_account x = account_id) (rec_sessions s))"

text \<open>The join of the cleared lines of a session with the statement lines.\<close>

definition cleared_amounts :: "rec_line list \<Rightarrow> bank_line list \<Rightarrow> uuid \<Rightarrow> decimal list" where
  "cleared_amounts ls bs session_id =
     concat (map (\<lambda>r. map bl_amount (filter (\<lambda>b. bl_id b = rn_line r) bs))
       (filter (\<lambda>r. rn_session r = session_id \<and> rn_cleared r) ls))"

definition cleared_sum :: "bdb \<Rightarrow> uuid \<Rightarrow> decimal" where
  "cleared_sum s session_id = sum_list (cleared_amounts (rec_lines s) (bank_lines s) session_id)"

definition prior_close :: "bdb \<Rightarrow> uuid \<Rightarrow> uuid \<Rightarrow> decimal option" where
  "prior_close s ledger_id account_id =
     (case rev (sort_key rs_close_date
        (filter (\<lambda>x. rs_ledger x = ledger_id \<and> rs_account x = account_id \<and> rs_status x = ''closed'') (rec_sessions s))) of
        [] \<Rightarrow> None | x # _ \<Rightarrow> Some (rs_close_balance x))"

definition sign_in :: "bdb \<Rightarrow> uuid option \<Rightarrow> uuid \<Rightarrow> app_error + uuid" where
  "sign_in s user ledger_id =
     rbind (ok_or Unauthorized user) (\<lambda>u. rbind (ensure_owner (bcore s) u ledger_id) (\<lambda>_. Inr u))"

definition create_session :: "env \<Rightarrow> uuid option \<Rightarrow> uuid \<Rightarrow> uuid \<Rightarrow> date \<Rightarrow> decimal \<Rightarrow> bdb \<Rightarrow> (app_error + uuid) \<times> bdb" where
  "create_session E user ledger_id account_id close_date close_balance s =
     (case sign_in s user ledger_id of Inl e \<Rightarrow> (Inl e, s)
      | Inr u \<Rightarrow>
          (let opening = carry_opening (prior_close s ledger_id account_id)
           in case insert_rec_session E \<lparr>rs_id = 0, rs_ledger = ledger_id, rs_account = account_id, rs_close_date = close_date,
                     rs_close_balance = close_balance, rs_opening = opening, rs_status = ''open'', rs_created_by = u,
                     rs_closed_by = None, rs_closed_at = None\<rparr> s of
                Inl e \<Rightarrow> (Inl (case e of UniqueViolation _ \<Rightarrow> Conflict ''a session already exists for this account and close date''
                                  | _ \<Rightarrow> AppDb e), s)
              | Inr (i, s1) \<Rightarrow>
                  (Inr i, blog E ledger_id u ''reconcile_session_open'' ''rec_session'' (Some i) None
                     (Some (JObj [(''account_id'', JUuid account_id), (''stmt_close_date'', JDate close_date),
                                  (''stmt_close_balance'', JDec close_balance), (''opening_balance'', JDec opening)])) s1)))"

definition locked_text :: string where
  "locked_text = ''session is closed and locked; unreconcile with a reason to change lines''"

definition clear_request :: "uuid option \<Rightarrow> uuid \<Rightarrow> uuid \<Rightarrow> uuid \<Rightarrow> uuid \<Rightarrow> string option \<Rightarrow> bdb \<Rightarrow> app_error + unit" where
  "clear_request user ledger_id account_id session_id line_id confirm s =
     rbind (sign_in s user ledger_id) (\<lambda>u.
     rbind (load_session s ledger_id account_id session_id) (\<lambda>x.
       if rs_status x = ''closed'' then Inl (Conflict locked_text)
       else if \<not> confirm_given confirm then Inl (Validation ''clearing requires explicit confirm (pass confirm=1)'')
       else if list_ex (\<lambda>b. bl_id b = line_id \<and> bl_ledger b = ledger_id \<and> bl_account b = account_id) (bank_lines s)
       then Inr () else Inl NotFound))"

definition clear :: "env \<Rightarrow> uuid option \<Rightarrow> uuid \<Rightarrow> uuid \<Rightarrow> uuid \<Rightarrow> uuid \<Rightarrow> string option \<Rightarrow> bdb \<Rightarrow> (app_error + unit) \<times> bdb" where
  "clear E user ledger_id account_id session_id line_id confirm s =
     (case clear_request user ledger_id account_id session_id line_id confirm s of
        Inl e \<Rightarrow> (Inl e, s)
      | Inr _ \<Rightarrow> (Inr (), upsert_cleared E session_id line_id s))"

definition unclear :: "uuid option \<Rightarrow> uuid \<Rightarrow> uuid \<Rightarrow> uuid \<Rightarrow> uuid \<Rightarrow> bdb \<Rightarrow> (app_error + unit) \<times> bdb" where
  "unclear user ledger_id account_id session_id line_id s =
     (case rbind (sign_in s user ledger_id) (\<lambda>u.
           rbind (load_session s ledger_id account_id session_id) (\<lambda>x.
             if rs_status x = ''closed'' then Inl (Conflict locked_text) else Inr ())) of
        Inl e \<Rightarrow> (Inl e, s)
      | Inr _ \<Rightarrow> (Inr (), unclear_where (\<lambda>r. rn_session r = session_id \<and> rn_line r = line_id) s))"

text \<open>The amounts printed into the answer of a refused finish are left to the decimal printer \<open>show_dec\<close>.\<close>

definition finish_request :: "(decimal \<Rightarrow> string) \<Rightarrow> uuid option \<Rightarrow> uuid \<Rightarrow> uuid \<Rightarrow> uuid \<Rightarrow> bdb \<Rightarrow> app_error + uuid \<times> rec_session" where
  "finish_request show_dec user ledger_id account_id session_id s =
     rbind (sign_in s user ledger_id) (\<lambda>u.
     rbind (load_session s ledger_id account_id session_id) (\<lambda>x.
       if rs_status x = ''closed'' then Inl (Conflict ''session is already closed'')
       else map_err (\<lambda>d. Conflict (''difference '' @ show_dec d @ '' must be zero to finish; clear the remaining lines first''))
              (rbind (validate_finish (compute_difference (rs_opening x) (cleared_sum s session_id) (rs_close_balance x)))
                 (\<lambda>_. Inr (u, x)))))"

definition finish :: "env \<Rightarrow> (decimal \<Rightarrow> string) \<Rightarrow> uuid option \<Rightarrow> uuid \<Rightarrow> uuid \<Rightarrow> uuid \<Rightarrow> bdb \<Rightarrow> (app_error + unit) \<times> bdb" where
  "finish E show_dec user ledger_id account_id session_id s =
     (case finish_request show_dec user ledger_id account_id session_id s of
        Inl e \<Rightarrow> (Inl e, s)
      | Inr (u, x) \<Rightarrow>
          (Inr (), blog E ledger_id u ''reconcile_session_finish'' ''rec_session'' (Some session_id) None
             (Some (JObj [(''account_id'', JUuid account_id), (''stmt_close_balance'', JDec (rs_close_balance x)),
                          (''opening_balance'', JDec (rs_opening x)), (''cleared_sum'', JDec (cleared_sum s session_id))]))
             (set_session session_id (\<lambda>y. y\<lparr>rs_status := ''closed'', rs_closed_at := Some (now E), rs_closed_by := Some u\<rparr>) s)))"

definition unreconcile :: "env \<Rightarrow> uuid option \<Rightarrow> uuid \<Rightarrow> uuid \<Rightarrow> uuid \<Rightarrow> string option \<Rightarrow> bdb \<Rightarrow> (app_error + unit) \<times> bdb" where
  "unreconcile E user ledger_id account_id session_id reason0 s =
     (let reason = default_str reason0 in
      case rbind (sign_in s user ledger_id) (\<lambda>u.
           rbind (load_session s ledger_id account_id session_id) (\<lambda>x.
           rbind (map_err Validation (validate_unreconcile_reason reason)) (\<lambda>_.
             if rs_status x \<noteq> ''closed'' then Inl (Validation ''session is not closed'') else Inr u))) of
        Inl e \<Rightarrow> (Inl e, s)
      | Inr u \<Rightarrow>
          (Inr (), blog E ledger_id u ''reconcile_session_unreconcile'' ''rec_session'' (Some session_id)
             (Some (JObj [(''status'', JStr ''closed'')]))
             (Some (JObj [(''status'', JStr ''open''), (''reason'', JStr reason)]))
             (unclear_where (\<lambda>r. rn_session r = session_id)
               (set_session session_id (\<lambda>y. y\<lparr>rs_status := ''open'', rs_closed_at := None, rs_closed_by := None\<rparr>) s))))"

section \<open>Uploads\<close>

datatype upload_error = UploadEmpty | MimeMismatch string string | UploadUnknown

text \<open>The texts quoted by \<^verbatim>\<open>{:?}\<close> are MIME types, which need no escapes.\<close>

definition debug_quoted :: "string \<Rightarrow> string" where
  "debug_quoted t = [CHR 0x22] @ t @ [CHR 0x22]"

fun upload_message :: "upload_error \<Rightarrow> string" where
  "upload_message UploadEmpty = ''Empty upload''"
| "upload_message (MimeMismatch declared sniffed) =
     ''Content does not match declared type (declared '' @ debug_quoted declared @ '', sniffed '' @ debug_quoted sniffed @ '')''"
| "upload_message UploadUnknown = ''Could not determine content type''"

definition extension_wins :: "(string \<times> string) list" where
  "extension_wins =
     [(''xlsx'', ''application/vnd.openxmlformats-officedocument.spreadsheetml.sheet''),
      (''docx'', ''application/vnd.openxmlformats-officedocument.wordprocessingml.document''),
      (''pptx'', ''application/vnd.openxmlformats-officedocument.presentationml.presentation''),
      (''ods'', ''application/vnd.oasis.opendocument.spreadsheet''),
      (''odt'', ''application/vnd.oasis.opendocument.text''),
      (''odp'', ''application/vnd.oasis.opendocument.presentation'')]"

definition extension_of :: "string \<Rightarrow> string option" where
  "extension_of filename =
     (if CHR ''.'' \<in> set filename
      then (let ext = rev (takeWhile (\<lambda>c. c \<noteq> CHR ''.'') (rev filename))
            in if ext = [] then None else Some (to_ascii_lower ext))
      else None)"

definition upload_validate :: "(string \<Rightarrow> string option) \<Rightarrow> string \<Rightarrow> string option \<Rightarrow> string \<Rightarrow> upload_error + string" where
  "upload_validate infer declared filename buf =
     (if buf = [] then Inl UploadEmpty
      else if declared = ''text/csv'' then Inr ''text/csv''
      else let sniffed = infer buf;
               wins = Option.bind filename (\<lambda>f. Option.bind (extension_of f) (map_of extension_wins))
           in if wins \<noteq> None \<and> sniffed = wins then Inr (the wins)
              else (case sniffed of
                      Some mime \<Rightarrow> if mime = declared then Inr mime else Inl (MimeMismatch declared mime)
                    | None \<Rightarrow> if declared = ''text/plain'' then Inr declared else Inl UploadUnknown))"

section \<open>The statement upload\<close>

text \<open>A field of the multipart form: its name, content type, file name and body.\<close>

record upload_field =
  uf_name :: "string option"
  uf_mime :: "string option"
  uf_file :: "string option"
  uf_body :: string

text \<open>The file of the upload is the last field of that name.\<close>

definition uploaded_file :: "upload_field list \<Rightarrow> (string \<times> string \<times> string) option" where
  "uploaded_file parts =
     (case rev (filter (\<lambda>f. uf_name f = Some ''file'') parts) of
        [] \<Rightarrow> None
      | f # _ \<Rightarrow> Some (case uf_mime f of None \<Rightarrow> ''text/csv'' | Some m \<Rightarrow> m,
                       case uf_file f of None \<Rightarrow> ''statement.csv'' | Some n \<Rightarrow> n, uf_body f))"

datatype raw_line = CsvLine "string list" | StmtLine statement_line

text \<open>\<open>RStatement\<close> is the 400 answer \<^verbatim>\<open>{filename}: {cause}\<close>.\<close>

datatype upload_failure = RApp app_error | RStatement string stmt_error

record upload_row =
  ur_date :: date
  ur_description :: string
  ur_amount :: decimal
  ur_check :: "string option"
  ur_external :: "string option"
  ur_currency :: "string option"

text \<open>\<open>None\<close>: a record of fewer than three cells, which is skipped.  \<open>Inl\<close>: a row error.\<close>

definition csv_row :: "env \<Rightarrow> string list \<Rightarrow> (string + upload_row) option" where
  "csv_row E cells =
     (if length cells < 3 then None
      else Some (case parse_date E (cells ! 0) of
          None \<Rightarrow> Inl (''bad CSV date '' @ [CHR 0x27] @ cells ! 0 @ [CHR 0x27])
        | Some d \<Rightarrow>
            (case parse_dec E (cells ! 2) of
               None \<Rightarrow> Inl (''bad CSV amount '' @ [CHR 0x27] @ cells ! 2 @ [CHR 0x27])
             | Some a \<Rightarrow>
                 Inr \<lparr>ur_date = d, ur_description = cells ! 1, ur_amount = a, ur_check = csv_optional cells 3,
                      ur_external = None, ur_currency = None\<rparr>)))"

definition row_of :: "env \<Rightarrow> raw_line \<Rightarrow> (string + upload_row) option" where
  "row_of E line =
     (case line of
        CsvLine cells \<Rightarrow> csv_row E cells
      | StmtLine l \<Rightarrow>
          Some (Inr \<lparr>ur_date = sl_date l, ur_description = sl_payee l, ur_amount = sl_amount l, ur_check = sl_memo l,
                     ur_external = sl_external_id l, ur_currency = sl_currency l\<rparr>))"

definition check_currency :: "string \<Rightarrow> upload_row \<Rightarrow> string + upload_row" where
  "check_currency account_currency r =
     (case ur_currency r of
        Some ccy \<Rightarrow> if \<not> eq_ignore_ascii_case ccy account_currency
                    then Inl (ccy @ '' vs account '' @ account_currency) else Inr r
      | None \<Rightarrow> Inr r)"

text \<open>
  The duplicate test: by the external identifier when the line has one, else by date, amount and the normalized
  payee, which the query compares with the stored description.
\<close>

definition is_duplicate :: "bank_line list \<Rightarrow> uuid \<Rightarrow> upload_row \<Rightarrow> bool" where
  "is_duplicate bs account_id r =
     (case ur_external r of
        Some ext \<Rightarrow> list_ex (\<lambda>b. bl_account b = account_id \<and> bl_external b = Some ext) bs
      | None \<Rightarrow> list_ex (\<lambda>b. bl_account b = account_id \<and> bl_date b = ur_date r \<and> bl_amount b = ur_amount r
                  \<and> map_option to_lowercase (bl_description b) = Some (to_lowercase (normalize_payee (ur_description r)))) bs)"

record upload_count =
  uc_db :: bdb
  uc_count :: nat
  uc_duplicates :: nat
  uc_errors :: "string list"

definition upload_line :: "uuid \<Rightarrow> uuid \<Rightarrow> upload_row \<Rightarrow> bank_line" where
  "upload_line ledger_id account_id r =
     \<lparr>bl_id = 0, bl_ledger = ledger_id, bl_account = account_id, bl_date = ur_date r,
      bl_description = Some (ur_description r), bl_amount = ur_amount r, bl_check = ur_check r,
      bl_status = ''unmatched'', bl_matched = None, bl_created = 0, bl_external = ur_external r\<rparr>"

definition upload_step :: "env \<Rightarrow> uuid \<Rightarrow> uuid \<Rightarrow> string \<Rightarrow> upload_count \<Rightarrow> raw_line \<Rightarrow> db_error + upload_count" where
  "upload_step E ledger_id account_id account_currency c line =
     (case row_of E line of
        None \<Rightarrow> Inr c
      | Some r0 \<Rightarrow>
          (case rbind r0 (check_currency account_currency) of
             Inl msg \<Rightarrow> Inr (c\<lparr>uc_errors := uc_errors c @ [msg]\<rparr>)
           | Inr r \<Rightarrow>
               if is_duplicate (bank_lines (uc_db c)) account_id r then Inr (c\<lparr>uc_duplicates := uc_duplicates c + 1\<rparr>)
               else rbind (insert_bank_line E (upload_line ledger_id account_id r) (uc_db c))
                      (\<lambda>s'. Inr (c\<lparr>uc_db := s', uc_count := uc_count c + 1\<rparr>))))"

definition upload_lines :: "env \<Rightarrow> uuid \<Rightarrow> uuid \<Rightarrow> string \<Rightarrow> raw_line list \<Rightarrow> bdb \<Rightarrow> db_error + upload_count" where
  "upload_lines E ledger_id account_id account_currency lines s =
     try_fold (upload_step E ledger_id account_id account_currency)
       \<lparr>uc_db = s, uc_count = 0, uc_duplicates = 0, uc_errors = []\<rparr> lines"

definition read_lines ::
  "env \<Rightarrow> (string \<Rightarrow> date option) \<Rightarrow> (string \<Rightarrow> string + string list list) \<Rightarrow> string \<Rightarrow> string \<Rightarrow> upload_failure + raw_line list" where
  "read_lines E ymd csv filename text =
     (case sniff_format text of
        Some fmt \<Rightarrow> rbind (map_err (RStatement filename) (statement_parse E ymd fmt text Us)) (\<lambda>ls. Inr (map StmtLine ls))
      | None \<Rightarrow> rbind (map_err (\<lambda>e. RApp (Internal e)) (csv text)) (\<lambda>rs. Inr (map CsvLine rs)))"

text \<open>
  The body is ASCII text in the model, so a byte above 127 counts as invalid UTF-8 and bytes and text coincide.
\<close>

definition is_ascii :: "string \<Rightarrow> bool" where
  "is_ascii t \<longleftrightarrow> list_all (\<lambda>c. (of_char c :: nat) < 128) t"

definition upload_request ::
  "env \<Rightarrow> (string \<Rightarrow> string option) \<Rightarrow> (string \<Rightarrow> date option) \<Rightarrow> (string \<Rightarrow> string + string list list)
   \<Rightarrow> uuid option \<Rightarrow> uuid \<Rightarrow> uuid \<Rightarrow> upload_field list \<Rightarrow> bdb \<Rightarrow> upload_failure + uuid \<times> string \<times> raw_line list" where
  "upload_request E infer ymd csv user ledger_id account_id parts s =
     rbind (map_err RApp (sign_in s user ledger_id)) (\<lambda>u.
     rbind (ok_or (RApp (Validation ''No file uploaded'')) (uploaded_file parts)) (\<lambda>(declared, filename, bytes).
     rbind (map_err (\<lambda>e. RApp (Validation (upload_message e))) (upload_validate infer declared (Some filename) bytes)) (\<lambda>_.
       if \<not> is_ascii bytes then Inl (RApp (Validation ''Invalid UTF-8 in statement file''))
       else rbind (ok_or (RApp NotFound) (find (\<lambda>a. a_id a = account_id) (accounts (bcore s)))) (\<lambda>a.
            rbind (read_lines E ymd csv filename bytes) (\<lambda>lines. Inr (u, a_currency a, lines))))))"

definition rejected_text :: "upload_count \<Rightarrow> string" where
  "rejected_text c =
     ''imported '' @ show_nat (uc_count c) @ '' lines; '' @ show_nat (length (uc_errors c)) @ '' row(s) rejected: ''
     @ join_with ''; '' (take 5 (uc_errors c))"

definition upload_csv ::
  "env \<Rightarrow> (string \<Rightarrow> string option) \<Rightarrow> (string \<Rightarrow> date option) \<Rightarrow> (string \<Rightarrow> string + string list list)
   \<Rightarrow> uuid option \<Rightarrow> uuid \<Rightarrow> uuid \<Rightarrow> upload_field list \<Rightarrow> bdb \<Rightarrow> (upload_failure + nat) \<times> bdb" where
  "upload_csv E infer ymd csv user ledger_id account_id parts s =
     (case upload_request E infer ymd csv user ledger_id account_id parts s of
        Inl e \<Rightarrow> (Inl e, s)
      | Inr (u, account_currency, lines) \<Rightarrow>
          (case upload_lines E ledger_id account_id account_currency lines s of
             Inl e \<Rightarrow> (Inl (RApp (AppDb e)), s)
           | Inr c \<Rightarrow>
               if uc_errors c \<noteq> [] then (Inl (RApp (Validation (rejected_text c))), uc_db c)
               else (Inr (uc_count c),
                     blog E ledger_id u ''import'' ''bank_statement'' None None
                       (Some (JObj [(''account_id'', JUuid account_id), (''lines_imported'', JNum (of_nat (uc_count c)))]))
                       (uc_db c))))"

section \<open>What a match teaches\<close>

definition alias_hit :: "env \<Rightarrow> string \<Rightarrow> uuid option \<Rightarrow> alias_row \<Rightarrow> alias_row" where
  "alias_hit E canonical account_id a =
     a\<lparr>pa_hits := pa_hits a + 1, pa_canonical := canonical,
       pa_account := (case account_id of Some i \<Rightarrow> Some i | None \<Rightarrow> pa_account a), pa_last := now E\<rparr>"

definition record_alias :: "env \<Rightarrow> uuid \<Rightarrow> string \<Rightarrow> string \<Rightarrow> uuid option \<Rightarrow> bdb \<Rightarrow> db_error + bdb" where
  "record_alias E ledger_id alias_normalized canonical_payee account_id s =
     (let hit = (\<lambda>a. pa_ledger a = ledger_id \<and> pa_alias a = alias_normalized) in
      if trim alias_normalized = [] \<or> trim canonical_payee = [] then Inr s
      else if account_id \<noteq> None \<and> \<not> account_exists (bcore s) (the account_id)
        then Inl (ForeignKeyViolation ''payee_aliases_account_id_fkey'')
      else if list_ex hit (payee_aliases s) then
        (if list_ex (\<lambda>a. hit a \<and> pa_hits a \<ge> 2 ^ 31 - 1) (payee_aliases s) then Inl NumericOverflow
         else Inr (s\<lparr>payee_aliases := map (\<lambda>a. if hit a then alias_hit E (trim canonical_payee) account_id a else a) (payee_aliases s)\<rparr>))
      else if ledger_of (bcore s) ledger_id = None then Inl (ForeignKeyViolation ''payee_aliases_ledger_id_fkey'')
      else Inr (s\<lparr>payee_aliases := payee_aliases s @
             [\<lparr>pa_ledger = ledger_id, pa_alias = alias_normalized, pa_canonical = trim canonical_payee,
               pa_account = account_id, pa_hits = 1, pa_last = now E\<rparr>]\<rparr>))"

definition record_from_match :: "env \<Rightarrow> uuid \<Rightarrow> string \<Rightarrow> string \<Rightarrow> uuid option \<Rightarrow> bdb \<Rightarrow> bdb" where
  "record_from_match E ledger_id statement_description transaction_payee contra_account_id s =
     (case record_alias E ledger_id (normalize_payee statement_description) transaction_payee contra_account_id s of
        Inl e \<Rightarrow> s | Inr s' \<Rightarrow> s')"

section \<open>Matching and completion\<close>

text \<open>
  \<^verbatim>\<open>UPDATE bank_statement_lines\<close> and \<^verbatim>\<open>UPDATE transactions SET is_reconciled\<close> in one transaction.  The first checks
  the foreign key when the line exists, the second fires the append-only trigger.
\<close>

definition match_tx :: "uuid \<Rightarrow> uuid \<Rightarrow> bdb \<Rightarrow> db_error + bdb" where
  "match_tx line_id txn_id s =
     (if list_ex (\<lambda>b. bl_id b = line_id) (bank_lines s) \<and> txn_of (bcore s) txn_id = None
        then Inl (ForeignKeyViolation ''bank_statement_lines_matched_transaction_id_fkey'')
      else if (case txn_of (bcore s) txn_id of Some t \<Rightarrow> append_only (bcore s) (t_ledger t) | None \<Rightarrow> False)
        then Inl (RaisedException ''ledger is append-only; edits are not allowed'')
      else Inr (s\<lparr>bank_lines := map (\<lambda>b. if bl_id b = line_id then b\<lparr>bl_status := ''matched'', bl_matched := Some txn_id\<rparr> else b) (bank_lines s),
               reconciled := (if txn_of (bcore s) txn_id = None then reconciled s else txn_id # reconciled s)\<rparr>))"

definition contra_account :: "db \<Rightarrow> uuid \<Rightarrow> uuid \<Rightarrow> uuid option" where
  "contra_account db txn_id account_id =
     map_option p_account (find (\<lambda>p. p_account p \<noteq> account_id) (postings_of db txn_id))"

definition learn_match :: "env \<Rightarrow> uuid \<Rightarrow> uuid \<Rightarrow> uuid \<Rightarrow> uuid \<Rightarrow> bdb \<Rightarrow> bdb" where
  "learn_match E ledger_id account_id line_id txn_id s =
     (case (Option.bind (find (\<lambda>b. bl_id b = line_id) (bank_lines s)) bl_description,
            Option.bind (txn_of (bcore s) txn_id) t_payee) of
        (Some desc, Some payee) \<Rightarrow> record_from_match E ledger_id desc payee (contra_account (bcore s) txn_id account_id) s
      | _ \<Rightarrow> s)"

definition match_line :: "env \<Rightarrow> uuid option \<Rightarrow> uuid \<Rightarrow> uuid \<Rightarrow> uuid \<Rightarrow> uuid \<Rightarrow> bdb \<Rightarrow> (app_error + unit) \<times> bdb" where
  "match_line E user ledger_id account_id line_id txn_id s =
     (case rbind (sign_in s user ledger_id) (\<lambda>_. map_err AppDb (match_tx line_id txn_id s)) of
        Inl e \<Rightarrow> (Inl e, s)
      | Inr s1 \<Rightarrow> (Inr (), learn_match E ledger_id account_id line_id txn_id s1))"

definition exclude_line :: "uuid option \<Rightarrow> uuid \<Rightarrow> uuid \<Rightarrow> bdb \<Rightarrow> (app_error + unit) \<times> bdb" where
  "exclude_line user ledger_id line_id s =
     (case sign_in s user ledger_id of Inl e \<Rightarrow> (Inl e, s)
      | Inr _ \<Rightarrow> (Inr (), s\<lparr>bank_lines := map (\<lambda>b. if bl_id b = line_id then b\<lparr>bl_status := ''excluded''\<rparr> else b) (bank_lines s)\<rparr>))"

definition statement_total :: "string list \<Rightarrow> bdb \<Rightarrow> uuid \<Rightarrow> uuid \<Rightarrow> decimal" where
  "statement_total statuses s ledger_id account_id =
     sum_list (map bl_amount (filter (\<lambda>b. bl_ledger b = ledger_id \<and> bl_account b = account_id \<and> bl_status b \<in> set statuses) (bank_lines s)))"

text \<open>The debits of the account in the ledger's transactions that satisfy the condition.\<close>

definition debit_total :: "(uuid \<Rightarrow> bool) \<Rightarrow> db \<Rightarrow> uuid \<Rightarrow> uuid \<Rightarrow> decimal" where
  "debit_total P db ledger_id account_id =
     sum_list (map p_amount (filter (\<lambda>p. p_account p = account_id \<and> is_debit p
        \<and> list_ex (\<lambda>t. t_id t = p_txn p \<and> t_ledger t = ledger_id \<and> P (t_id t)) (transactions db)) (postings db)))"

text \<open>The balances of the matching page: statement, ledger, difference.\<close>

definition page_balances :: "bdb \<Rightarrow> uuid \<Rightarrow> uuid \<Rightarrow> decimal \<times> decimal \<times> decimal" where
  "page_balances s ledger_id account_id =
     (let st = statement_total [''unmatched'', ''matched''] s ledger_id account_id;
          bk = debit_total (\<lambda>_. True) (bcore s) ledger_id account_id
      in (st, bk, st - bk))"

definition insert_reconciliation :: "reconciliation_row \<Rightarrow> bdb \<Rightarrow> db_error + bdb" where
  "insert_reconciliation r s =
     (case (numeric_col 20 4 (rc_statement r), numeric_col 20 4 (rc_book r), numeric_col 20 4 (rc_difference r)) of
        (Some st, Some bk, Some d) \<Rightarrow>
          if ledger_of (bcore s) (rc_ledger r) = None then Inl (ForeignKeyViolation ''reconciliations_ledger_id_fkey'')
          else if \<not> account_exists (bcore s) (rc_account r) then Inl (ForeignKeyViolation ''reconciliations_account_id_fkey'')
          else Inr (s\<lparr>reconciliations := reconciliations s @ [r\<lparr>rc_statement := st, rc_book := bk, rc_difference := d\<rparr>]\<rparr>)
      | _ \<Rightarrow> Inl NumericOverflow)"

definition complete :: "env \<Rightarrow> uuid option \<Rightarrow> uuid \<Rightarrow> uuid \<Rightarrow> bdb \<Rightarrow> (app_error + unit) \<times> bdb" where
  "complete E user ledger_id account_id s =
     (case sign_in s user ledger_id of Inl e \<Rightarrow> (Inl e, s)
      | Inr u \<Rightarrow>
          (let st = statement_total [''matched'', ''excluded''] s ledger_id account_id;
               bk = debit_total (\<lambda>i. i \<in> set (reconciled s)) (bcore s) ledger_id account_id
           in case insert_reconciliation \<lparr>rc_ledger = ledger_id, rc_account = account_id, rc_date = today E,
                      rc_statement = st, rc_book = bk, rc_difference = st - bk, rc_by = u\<rparr> s of
                Inl e \<Rightarrow> (Inl (AppDb e), s)
              | Inr s1 \<Rightarrow>
                  (Inr (), blog E ledger_id u ''reconcile'' ''bank_account'' (Some account_id) None
                     (Some (JObj [(''statement_balance'', JDec st), (''ledger_balance'', JDec bk), (''difference'', JDec (st - bk))])) s1)))"

section \<open>Reconciliation rules\<close>

datatype rule_kind = MatchRule | CategorizeRule | FlagRule

fun rule_kind_as_str :: "rule_kind \<Rightarrow> string" where
  "rule_kind_as_str MatchRule = ''match''"
| "rule_kind_as_str CategorizeRule = ''categorize''"
| "rule_kind_as_str FlagRule = ''flag''"

definition parse_rule_kind :: "string \<Rightarrow> rule_kind option" where
  "parse_rule_kind t =
     (if t = ''match'' then Some MatchRule else if t = ''categorize'' then Some CategorizeRule
      else if t = ''flag'' then Some FlagRule else None)"

record recon_rule =
  rl_rule :: uuid
  rl_name :: string
  rl_kind :: rule_kind
  rl_priority :: int
  rl_predicate :: json
  rl_action :: json
  rl_is_active :: bool

record rule_line =
  ln_description :: string
  ln_cents :: int
  ln_currency :: string

text \<open>\<^verbatim>\<open>Value::as_i64\<close>: an integer in range.  Numbers written with a fraction of zero count as integers here.\<close>

definition json_i64 :: "json \<Rightarrow> int option" where
  "json_i64 j =
     (case j of JNum x \<Rightarrow> if of_int \<lfloor>x\<rfloor> = x \<and> - (2 ^ 63) \<le> \<lfloor>x\<rfloor> \<and> \<lfloor>x\<rfloor> < 2 ^ 63 then Some \<lfloor>x\<rfloor> else None
      | _ \<Rightarrow> None)"

text \<open>The regular expression a pattern becomes; \<open>regex\<close> compiles it, \<open>None\<close> when that fails.\<close>

definition like_char :: "char \<Rightarrow> string" where
  "like_char c =
     (if c = CHR ''%'' then ''.*'' else if c = CHR ''_'' then ''.''
      else if c \<in> set ''.()[]+*?|^$'' \<or> c = CHR 0x5C then [CHR 0x5C, c] else [c])"

definition like_regex :: "string \<Rightarrow> string" where
  "like_regex pattern = ''^'' @ concat (map like_char pattern) @ ''$''"

definition sql_like_match :: "(string \<Rightarrow> (string \<Rightarrow> bool) option) \<Rightarrow> string \<Rightarrow> string \<Rightarrow> bool" where
  "sql_like_match regex pattern t = (case regex (like_regex pattern) of None \<Rightarrow> False | Some f \<Rightarrow> f t)"

definition holds_if :: "'a option \<Rightarrow> ('a \<Rightarrow> bool) \<Rightarrow> bool" where
  "holds_if x P = (case x of None \<Rightarrow> True | Some y \<Rightarrow> P y)"

definition evaluate_predicate :: "(string \<Rightarrow> (string \<Rightarrow> bool) option) \<Rightarrow> json \<Rightarrow> rule_line \<Rightarrow> bool" where
  "evaluate_predicate regex p line \<longleftrightarrow>
     holds_if (Option.bind (json_get p ''payee_glob'') as_str) (\<lambda>g. sql_like_match regex g (ln_description line))
   \<and> holds_if (Option.bind (json_get p ''description_glob'') as_str) (\<lambda>g. sql_like_match regex g (ln_description line))
   \<and> holds_if (Option.bind (json_get p ''amount_cents_eq'') json_i64) (\<lambda>n. ln_cents line = n)
   \<and> holds_if (Option.bind (json_get p ''amount_cents_lt'') json_i64) (\<lambda>n. ln_cents line < n)
   \<and> holds_if (Option.bind (json_get p ''amount_cents_gt'') json_i64) (\<lambda>n. ln_cents line > n)
   \<and> holds_if (Option.bind (json_get p ''currency'') as_str) (\<lambda>c. eq_ignore_ascii_case (ln_currency line) c)"

datatype applied_action = Categorize uuid | LinkByAmountDate | Flag string string

definition applied_action_from :: "env \<Rightarrow> json \<Rightarrow> applied_action" where
  "applied_action_from E v =
     (case Option.bind (Option.bind (json_get v ''gl_account_id'') as_str) (parse_uuid E) of
        Some i \<Rightarrow> Categorize i
      | None \<Rightarrow>
          if Option.bind (json_get v ''link_by_amount_date'') as_bool = Some True then LinkByAmountDate
          else Flag (default_str (Option.bind (json_get v ''reason_text'') as_str))
                    (case Option.bind (json_get v ''flag_color'') as_str of None \<Rightarrow> ''amber'' | Some c \<Rightarrow> c))"

text \<open>\<^verbatim>\<open>sort_by_key\<close> is stable, like \<open>sort_key\<close>.\<close>

definition first_match ::
  "env \<Rightarrow> (string \<Rightarrow> (string \<Rightarrow> bool) option) \<Rightarrow> recon_rule list \<Rightarrow> rule_line \<Rightarrow> (recon_rule \<times> applied_action) option" where
  "first_match E regex rs line =
     map_option (\<lambda>r. (r, applied_action_from E (rl_action r)))
       (find (\<lambda>r. evaluate_predicate regex (rl_predicate r) line) (sort_key rl_priority (filter rl_is_active rs)))"

definition suggest_rule ::
  "env \<Rightarrow> (string \<Rightarrow> (string \<Rightarrow> bool) option) \<Rightarrow> recon_rule list \<Rightarrow> string \<Rightarrow> decimal \<Rightarrow> string \<Rightarrow> string option" where
  "suggest_rule E regex rs description amount currency =
     (let cents = \<lfloor>round_dp E 0 (amount * 100)\<rfloor>
      in if - (2 ^ 63) \<le> cents \<and> cents < 2 ^ 63
         then map_option (\<lambda>(r, _). rl_name r)
                (first_match E regex rs \<lparr>ln_description = description, ln_cents = cents, ln_currency = currency\<rparr>)
         else None)"

definition active_rules :: "bdb \<Rightarrow> uuid \<Rightarrow> recon_rule list" where
  "active_rules s ledger_id =
     List.map_filter (\<lambda>r. map_option (\<lambda>k. \<lparr>rl_rule = rr_id r, rl_name = rr_name r, rl_kind = k, rl_priority = rr_priority r,
         rl_predicate = rr_predicate r, rl_action = rr_action r, rl_is_active = True\<rparr>) (parse_rule_kind (rr_kind r)))
       (sort_key rr_priority (filter (\<lambda>r. rr_ledger r = ledger_id \<and> rr_active r) (recon_rules s)))"

definition line_cleared :: "bdb \<Rightarrow> uuid \<Rightarrow> uuid \<Rightarrow> bool" where
  "line_cleared s session_id line_id \<longleftrightarrow> list_ex (\<lambda>r. rn_session r = session_id \<and> rn_line r = line_id \<and> rn_cleared r) (rec_lines s)"

definition currency_of_account :: "db \<Rightarrow> uuid \<Rightarrow> string" where
  "currency_of_account db i = (case find (\<lambda>a. a_id a = i) (accounts db) of None \<Rightarrow> [] | Some a \<Rightarrow> a_currency a)"

text \<open>The candidates of \<^verbatim>\<open>suggestions\<close>: lines not cleared in the session for which a rule matches.\<close>

definition suggestions ::
  "env \<Rightarrow> (string \<Rightarrow> (string \<Rightarrow> bool) option) \<Rightarrow> uuid option \<Rightarrow> uuid \<Rightarrow> uuid \<Rightarrow> uuid \<Rightarrow> bdb \<Rightarrow> app_error + (uuid \<times> string) list" where
  "suggestions E regex user ledger_id account_id session_id s =
     rbind (sign_in s user ledger_id) (\<lambda>_.
     rbind (load_session s ledger_id account_id session_id) (\<lambda>_.
       Inr (List.map_filter (\<lambda>b. map_option (Pair (bl_id b))
              (suggest_rule E regex (active_rules s ledger_id) (default_str (bl_description b)) (bl_amount b)
                 (currency_of_account (bcore s) account_id)))
            (filter (\<lambda>b. bl_ledger b = ledger_id \<and> bl_account b = account_id \<and> \<not> line_cleared s session_id (bl_id b))
               (bank_lines s)))))"

definition create_rule ::
  "env \<Rightarrow> (string \<Rightarrow> string + json) \<Rightarrow> uuid option \<Rightarrow> uuid \<Rightarrow> string \<Rightarrow> string \<Rightarrow> int \<Rightarrow> string \<Rightarrow> string \<Rightarrow> bdb
   \<Rightarrow> (app_error + string option) \<times> bdb" where
  "create_rule E json_of user ledger_id name kind priority predicate action s =
     (case rbind (ok_or Unauthorized user) (\<lambda>u.
           rbind (ensure_writer (bcore s) u ledger_id) (\<lambda>_.
           rbind (ok_or (Validation (''unknown kind '' @ [CHR 0x27] @ kind @ [CHR 0x27])) (parse_rule_kind kind)) (\<lambda>k.
             if trim name = [] then Inr None
             else rbind (map_err (\<lambda>e. Validation (''predicate is not valid JSON: '' @ e)) (json_of predicate)) (\<lambda>p.
                  rbind (map_err (\<lambda>e. Validation (''action is not valid JSON: '' @ e)) (json_of action)) (\<lambda>a.
                    Inr (Some (u, k, p, a))))))) of
        Inl e \<Rightarrow> (Inl e, s)
      | Inr None \<Rightarrow> (Inr (Some ''name is required''), s)
      | Inr (Some (u, k, p, a)) \<Rightarrow>
          (let (i, db1) = draw E (bcore s) in
           if list_ex (\<lambda>r. rr_id r = i) (recon_rules s) then (Inl (AppDb (UniqueViolation ''reconciliation_rules_pkey'')), s)
           else (Inr None, blog E ledger_id u ''rule.create'' ''reconciliation_rule'' None None
                   (Some (JObj [(''name'', JStr name), (''kind'', JStr (rule_kind_as_str k))]))
                   (s\<lparr>bcore := db1, recon_rules := recon_rules s @
                      [\<lparr>rr_id = i, rr_ledger = ledger_id, rr_name = trim name, rr_kind = rule_kind_as_str k,
                        rr_priority = priority, rr_predicate = p, rr_action = a, rr_active = True\<rparr>]\<rparr>))))"

definition writer_in :: "bdb \<Rightarrow> uuid option \<Rightarrow> uuid \<Rightarrow> app_error + uuid" where
  "writer_in s user ledger_id =
     rbind (ok_or Unauthorized user) (\<lambda>u. rbind (ensure_writer (bcore s) u ledger_id) (\<lambda>_. Inr u))"

definition toggle_rule :: "env \<Rightarrow> uuid option \<Rightarrow> uuid \<Rightarrow> uuid \<Rightarrow> bdb \<Rightarrow> (app_error + unit) \<times> bdb" where
  "toggle_rule E user ledger_id rule_id s =
     (case writer_in s user ledger_id of Inl e \<Rightarrow> (Inl e, s)
      | Inr u \<Rightarrow> (Inr (), blog E ledger_id u ''rule.toggle'' ''reconciliation_rule'' (Some rule_id) None None
            (s\<lparr>recon_rules := map (\<lambda>r. if rr_id r = rule_id \<and> rr_ledger r = ledger_id
                                         then r\<lparr>rr_active := \<not> rr_active r\<rparr> else r) (recon_rules s)\<rparr>)))"

definition delete_rule :: "env \<Rightarrow> uuid option \<Rightarrow> uuid \<Rightarrow> uuid \<Rightarrow> bdb \<Rightarrow> (app_error + unit) \<times> bdb" where
  "delete_rule E user ledger_id rule_id s =
     (case writer_in s user ledger_id of Inl e \<Rightarrow> (Inl e, s)
      | Inr u \<Rightarrow> (Inr (), blog E ledger_id u ''rule.delete'' ''reconciliation_rule'' (Some rule_id) None None
            (s\<lparr>recon_rules := filter (\<lambda>r. \<not> (rr_id r = rule_id \<and> rr_ledger r = ledger_id)) (recon_rules s)\<rparr>)))"

section \<open>Rules applied to booked transactions\<close>

definition in_closed_year :: "db \<Rightarrow> uuid list \<Rightarrow> bool" where
  "in_closed_year db ids \<longleftrightarrow>
     list_ex (\<lambda>t. t_id t \<in> set ids
        \<and> list_ex (\<lambda>c. cp_ledger c = t_ledger t \<and> cp_year c = date_year (t_date t)) (closed_periods db)) (transactions db)"

text \<open>
  The rules of the batch: the active categorizing ones of the ledger, all with priority 0, in table order.  The query
  for the amount reads a \<^verbatim>\<open>NUMERIC\<close> into an \<^verbatim>\<open>i64\<close>, which fails to decode, and the error becomes 0.
\<close>

definition categorize_rules :: "bdb \<Rightarrow> uuid \<Rightarrow> recon_rule list" where
  "categorize_rules s ledger_id =
     map (\<lambda>r. \<lparr>rl_rule = rr_id r, rl_name = rr_name r, rl_kind = CategorizeRule, rl_priority = 0,
               rl_predicate = rr_predicate r, rl_action = rr_action r, rl_is_active = True\<rparr>)
       (filter (\<lambda>r. rr_ledger r = ledger_id \<and> rr_kind r = ''categorize'' \<and> rr_active r) (recon_rules s))"

definition rule_account_type :: "db \<Rightarrow> uuid \<Rightarrow> string option" where
  "rule_account_type db i = map_option a_type (find (\<lambda>a. a_id a = i) (accounts db))"

text \<open>The account of the largest income or expense posting.\<close>

definition category_account :: "db \<Rightarrow> uuid \<Rightarrow> uuid option" where
  "category_account db txn_id =
     (case sort_key (\<lambda>p. - p_amount p)
        (filter (\<lambda>p. rule_account_type db (p_account p) \<in> {Some ''INCOME'', Some ''EXPENSE''}) (postings_of db txn_id)) of
        [] \<Rightarrow> None | p # _ \<Rightarrow> Some (p_account p))"

definition rule_diff ::
  "env \<Rightarrow> (string \<Rightarrow> (string \<Rightarrow> bool) option) \<Rightarrow> uuid \<Rightarrow> bdb \<Rightarrow> uuid \<Rightarrow> (uuid \<times> uuid option \<times> uuid \<times> string) option" where
  "rule_diff E regex ledger_id s txn_id =
     Option.bind (find (\<lambda>t. t_id t = txn_id \<and> t_ledger t = ledger_id) (transactions (bcore s))) (\<lambda>t.
     Option.bind (first_match E regex (categorize_rules s ledger_id)
        \<lparr>ln_description = t_description t @ '' '' @ default_str (t_payee t), ln_cents = 0, ln_currency = []\<rparr>) (\<lambda>(r, act).
       case act of
         Categorize new_account \<Rightarrow>
           (let old = category_account (bcore s) txn_id
            in if old = Some new_account then None else Some (txn_id, old, new_account, rl_name r))
       | _ \<Rightarrow> None))"

definition recategorize :: "uuid \<Rightarrow> uuid \<Rightarrow> db \<Rightarrow> db_error + db" where
  "recategorize txn_id new_account db =
     (case category_account db txn_id of
        None \<Rightarrow> Inr db
      | Some old \<Rightarrow>
          if \<not> account_exists db new_account then Inl (ForeignKeyViolation ''postings_account_id_fkey'')
          else (let db1 = db\<lparr>postings := map (\<lambda>p. if p_txn p = txn_id \<and> p_account p = old then p\<lparr>p_account := new_account\<rparr> else p) (postings db)\<rparr>
                in if balance_trigger db then rbind (check_posting_balance db1 txn_id) (\<lambda>_. Inr db1) else Inr db1))"

datatype apply_answer = DryRun "(uuid \<times> uuid option \<times> uuid \<times> string) list" | Applied nat nat

text \<open>\<open>ids\<close> are the well-formed identifiers among the form's \<^verbatim>\<open>transaction_ids\<close>.\<close>

definition apply_rules ::
  "env \<Rightarrow> (string \<Rightarrow> (string \<Rightarrow> bool) option) \<Rightarrow> uuid option \<Rightarrow> uuid \<Rightarrow> string list \<Rightarrow> string \<Rightarrow> bdb
   \<Rightarrow> (app_error + apply_answer) \<times> bdb" where
  "apply_rules E regex user ledger_id transaction_ids mode s =
     (let ids = List.map_filter (\<lambda>t. parse_uuid E (trim t)) transaction_ids in
      case rbind (sign_in s user ledger_id) (\<lambda>u.
           if ids = [] then Inl (Validation ''select at least one transaction'')
           else if in_closed_year (bcore s) ids
             then Inl (Conflict ''selection includes transactions in a closed period; nothing was changed'')
           else Inr (u, List.map_filter (rule_diff E regex ledger_id s) ids)) of
        Inl e \<Rightarrow> (Inl e, s)
      | Inr (u, changes) \<Rightarrow>
          if mode \<noteq> ''apply'' then (Inr (DryRun changes), s)
          else (case try_fold (\<lambda>db (t, _, new, _). recategorize t new db) (bcore s) changes of
                  Inl e \<Rightarrow> (Inl (AppDb e), s)
                | Inr db1 \<Rightarrow>
                    (Inr (Applied (length ids) (length changes)),
                     blog E ledger_id u ''retroactive_apply'' ''transaction'' None None
                       (Some (JObj [(''selected'', JNum (of_nat (length ids))), (''changed'', JNum (of_nat (length changes)))]))
                       (s\<lparr>bcore := db1\<rparr>))))"

end
