(* ===== verification/Reconciliation_Properties.thy ===== *)
theory Reconciliation_Properties
  imports Reconciliation Posting_Batches
begin

text \<open>
  What the reconciliation handlers guarantee over any sequence of requests: a closed session ties out and stays as it
  is until it is reopened with a reason, importing a statement again stores nothing for lines the duplicate test
  recognises, a statement in the MT940 format is stored as one line at most, and rules applied to booked
  transactions move postings between accounts without touching any total.
\<close>

section \<open>Requests\<close>

datatype bank_command =
    CreateSession env "uuid option" uuid uuid date decimal
  | ClearLine env "uuid option" uuid uuid uuid uuid "string option"
  | UnclearLine "uuid option" uuid uuid uuid uuid
  | Finish env "decimal \<Rightarrow> string" "uuid option" uuid uuid uuid
  | Unreconcile env "uuid option" uuid uuid uuid "string option"
  | UploadStatement env "string \<Rightarrow> string option" "string \<Rightarrow> date option" "string \<Rightarrow> string + string list list"
      "uuid option" uuid uuid "upload_field list"
  | MatchLine env "uuid option" uuid uuid uuid uuid
  | ExcludeLine "uuid option" uuid uuid
  | Complete env "uuid option" uuid uuid
  | CreateRule env "string \<Rightarrow> string + json" "uuid option" uuid string string int string string
  | ToggleRule env "uuid option" uuid uuid
  | DeleteRule env "uuid option" uuid uuid
  | ApplyRules env "string \<Rightarrow> (string \<Rightarrow> bool) option" "uuid option" uuid "string list" string

fun bank_exec :: "bank_command \<Rightarrow> bdb \<Rightarrow> bdb" where
  "bank_exec (CreateSession E u l a d b) s = snd (create_session E u l a d b s)"
| "bank_exec (ClearLine E u l a i b c) s = snd (clear E u l a i b c s)"
| "bank_exec (UnclearLine u l a i b) s = snd (unclear u l a i b s)"
| "bank_exec (Finish E sh u l a i) s = snd (finish E sh u l a i s)"
| "bank_exec (Unreconcile E u l a i r) s = snd (unreconcile E u l a i r s)"
| "bank_exec (UploadStatement E infr ymd csv u l a ps) s = snd (upload_csv E infr ymd csv u l a ps s)"
| "bank_exec (MatchLine E u l a b t) s = snd (match_line E u l a b t s)"
| "bank_exec (ExcludeLine u l b) s = snd (exclude_line u l b s)"
| "bank_exec (Complete E u l a) s = snd (complete E u l a s)"
| "bank_exec (CreateRule E j u l n k p pr ac) s = snd (create_rule E j u l n k p pr ac s)"
| "bank_exec (ToggleRule E u l r) s = snd (toggle_rule E u l r s)"
| "bank_exec (DeleteRule E u l r) s = snd (delete_rule E u l r s)"
| "bank_exec (ApplyRules E rx u l ts m) s = snd (apply_rules E rx u l ts m s)"

section \<open>Sessions and what they see\<close>

definition bank_wf :: "bdb \<Rightarrow> bool" where
  "bank_wf s \<longleftrightarrow> distinct (map rs_id (rec_sessions s)) \<and> distinct (map bl_id (bank_lines s))
   \<and> list_all (\<lambda>r. rn_line r \<in> bl_id ` set (bank_lines s) \<and> rn_session r \<in> rs_id ` set (rec_sessions s)) (rec_lines s)"

definition session_view :: "bdb \<Rightarrow> uuid \<Rightarrow> rec_session list \<times> rec_line list \<times> decimal" where
  "session_view s i = (filter (\<lambda>x. rs_id x = i) (rec_sessions s), filter (\<lambda>r. rn_session r = i) (rec_lines s), cleared_sum s i)"

definition closed_in :: "bdb \<Rightarrow> uuid \<Rightarrow> bool" where
  "closed_in s i \<longleftrightarrow> (\<exists>x\<in>set (rec_sessions s). rs_id x = i \<and> rs_status x = ''closed'')"

definition session_ties :: "bdb \<Rightarrow> rec_session \<Rightarrow> bool" where
  "session_ties s x \<longleftrightarrow> rs_opening x + cleared_sum s (rs_id x) = rs_close_balance x"

definition reopens :: "bank_command \<Rightarrow> uuid \<Rightarrow> bool" where
  "reopens c i \<longleftrightarrow> (\<exists>E u l a r. c = Unreconcile E (Some u) l a i (Some r) \<and> 10 \<le> length (trim r))"

text \<open>What one request may do to the sessions.\<close>

definition session_step :: "bank_command \<Rightarrow> bdb \<Rightarrow> bdb \<Rightarrow> bool" where
  "session_step c s s' \<longleftrightarrow> bank_wf s'
   \<and> (\<forall>i. closed_in s i \<longrightarrow> session_view s' i = session_view s i \<or> reopens c i \<and> \<not> closed_in s' i)
   \<and> (\<forall>x\<in>set (rec_sessions s'). rs_status x = ''closed'' \<longrightarrow> \<not> closed_in s (rs_id x) \<longrightarrow> session_ties s' x)"

lemma session_stepI:
  assumes "bank_wf s'"
    and "\<And>i. closed_in s i \<Longrightarrow> session_view s' i = session_view s i \<or> reopens c i \<and> \<not> closed_in s' i"
    and "\<And>x. x \<in> set (rec_sessions s') \<Longrightarrow> rs_status x = ''closed'' \<Longrightarrow> \<not> closed_in s (rs_id x) \<Longrightarrow> session_ties s' x"
  shows "session_step c s s'"
  using assms by (simp add: session_step_def)

lemma closed_in_here: "x \<in> set (rec_sessions s) \<Longrightarrow> rs_status x = ''closed'' \<Longrightarrow> closed_in s (rs_id x)"
  by (auto simp: closed_in_def)

lemma cleared_amounts_lines:
  assumes "filter (\<lambda>r. rn_session r = i) ls' = filter (\<lambda>r. rn_session r = i) ls"
  shows "cleared_amounts ls' bs i = cleared_amounts ls bs i"
proof -
  have f: "filter (\<lambda>r. rn_session r = i \<and> rn_cleared r) xs = filter rn_cleared (filter (\<lambda>r. rn_session r = i) xs)" for xs
    by (simp only: filter_filter)
  show ?thesis unfolding cleared_amounts_def f assms ..
qed

lemma cleared_amounts_map:
  "(\<And>b. bl_id (f b) = bl_id b \<and> bl_amount (f b) = bl_amount b) \<Longrightarrow> cleared_amounts ls (map f bs) i = cleared_amounts ls bs i"
  by (simp add: cleared_amounts_def filter_map o_def)

lemma cleared_amounts_append:
  "\<forall>r\<in>set ls. rn_line r \<notin> bl_id ` set new \<Longrightarrow> cleared_amounts ls (bs @ new) i = cleared_amounts ls bs i"
  unfolding cleared_amounts_def
proof (rule arg_cong [where f = concat], rule map_cong [OF refl])
  fix r assume fresh: "\<forall>r\<in>set ls. rn_line r \<notin> bl_id ` set new" and r: "r \<in> set (filter (\<lambda>r. rn_session r = i \<and> rn_cleared r) ls)"
  have "rn_line r \<notin> bl_id ` set new" using fresh r by simp
  then have "filter (\<lambda>b. bl_id b = rn_line r) new = []" by (force simp: filter_empty_conv)
  then show "map bl_amount (filter (\<lambda>b. bl_id b = rn_line r) (bs @ new)) = map bl_amount (filter (\<lambda>b. bl_id b = rn_line r) bs)" by simp
qed

text \<open>A request that leaves the sessions alone and only edits columns of the lines that no session reads.\<close>

lemma session_step_soft:
  assumes "bank_wf s" and "rec_sessions s' = rec_sessions s" and "rec_lines s' = rec_lines s"
    and "bank_lines s' = map f (bank_lines s)" and f: "\<And>b. bl_id (f b) = bl_id b \<and> bl_amount (f b) = bl_amount b"
  shows "session_step c s s'"
proof (rule session_stepI)
  have ids: "map bl_id (bank_lines s') = map bl_id (bank_lines s)" using assms(4) f by simp
  then have "bl_id ` set (bank_lines s') = bl_id ` set (bank_lines s)" by (metis list.set_map)
  with ids show "bank_wf s'" using assms(1-3) by (simp add: bank_wf_def)
  have "cleared_sum s' i = cleared_sum s i" for i
    by (simp add: cleared_sum_def assms(3,4) cleared_amounts_map [OF f])
  then show "session_view s' i = session_view s i \<or> reopens c i \<and> \<not> closed_in s' i" for i
    by (simp add: session_view_def assms(2,3))
  show "session_ties s' x" if "x \<in> set (rec_sessions s')" "rs_status x = ''closed''" "\<not> closed_in s (rs_id x)" for x
    using that closed_in_here [of x s] assms(2) by simp
qed

lemma session_step_same:
  "bank_wf s \<Longrightarrow> rec_sessions s' = rec_sessions s \<Longrightarrow> rec_lines s' = rec_lines s \<Longrightarrow> bank_lines s' = bank_lines s
   \<Longrightarrow> session_step c s s'"
  by (rule session_step_soft [where f = id]) simp_all

lemma session_step_append:
  assumes "bank_wf s" and "rec_sessions s' = rec_sessions s" and "rec_lines s' = rec_lines s"
    and "bank_lines s' = bank_lines s @ new" and "distinct (map bl_id (bank_lines s'))"
  shows "session_step c s s'"
proof (rule session_stepI)
  have fresh: "\<forall>r\<in>set (rec_lines s). rn_line r \<notin> bl_id ` set new"
    using assms(1,4,5) by (fastforce simp: bank_wf_def list_all_iff)
  show "bank_wf s'" using assms by (auto simp: bank_wf_def list_all_iff)
  have "cleared_sum s' i = cleared_sum s i" for i
    by (simp add: cleared_sum_def assms(3,4) cleared_amounts_append [OF fresh])
  then show "session_view s' i = session_view s i \<or> reopens c i \<and> \<not> closed_in s' i" for i
    by (simp add: session_view_def assms(2,3))
  show "session_ties s' x" if "x \<in> set (rec_sessions s')" "rs_status x = ''closed''" "\<not> closed_in s (rs_id x)" for x
    using that closed_in_here [of x s] assms(2) by simp
qed

lemma blog_frame [simp]:
  "rec_sessions (blog E l u a e i old new s) = rec_sessions s" "rec_lines (blog E l u a e i old new s) = rec_lines s"
  "bank_lines (blog E l u a e i old new s) = bank_lines s"
  by (simp_all add: blog_def)

lemma load_session_Inr:
  "load_session s l a i = Inr x \<Longrightarrow> x \<in> set (rec_sessions s) \<and> rs_id x = i"
  by (auto simp: load_session_def result_simps dest: find_Some_mem)

lemma session_unique:
  "bank_wf s \<Longrightarrow> x \<in> set (rec_sessions s) \<Longrightarrow> y \<in> set (rec_sessions s) \<Longrightarrow> rs_id x = rs_id y \<Longrightarrow> x = y"
  by (auto simp: bank_wf_def distinct_map inj_on_def)

lemma open_not_closed:
  assumes "bank_wf s" and "load_session s l a i = Inr x" and "rs_status x \<noteq> ''closed''"
  shows "\<not> closed_in s i"
proof -
  note x = load_session_Inr [OF assms(2)]
  have "rs_status y \<noteq> ''closed''" if "y \<in> set (rec_sessions s)" "rs_id y = i" for y
    using session_unique [OF assms(1) that(1), of x] x that(2) assms(3) by simp
  then show ?thesis by (auto simp: closed_in_def)
qed

lemma filter_map_other:
  "(\<And>r. P r \<Longrightarrow> k r = j \<and> k (f r) = j) \<Longrightarrow> i \<noteq> j
   \<Longrightarrow> filter (\<lambda>r. k r = i) (map (\<lambda>r. if P r then f r else r) ls) = filter (\<lambda>r. k r = i) ls"
  by (induction ls) auto

lemma unclear_other:
  "(\<And>r. P r \<Longrightarrow> rn_session r = i) \<Longrightarrow> j \<noteq> i
   \<Longrightarrow> filter (\<lambda>r. rn_session r = j) (rec_lines (unclear_where P s)) = filter (\<lambda>r. rn_session r = j) (rec_lines s)"
  unfolding unclear_where_def by (simp, rule filter_map_other [where j = i]) auto

lemma upsert_other:
  assumes "j \<noteq> i"
  shows "filter (\<lambda>r. rn_session r = j) (rec_lines (upsert_cleared E i b s)) = filter (\<lambda>r. rn_session r = j) (rec_lines s)"
  unfolding upsert_cleared_def using assms
  by (cases "list_ex (\<lambda>r. rn_session r = i \<and> rn_line r = b) (rec_lines s)") (simp_all, rule filter_map_other [where j = i], auto)

lemma set_session_other:
  "(\<And>x. rs_id (f x) = rs_id x) \<Longrightarrow> j \<noteq> i
   \<Longrightarrow> filter (\<lambda>x. rs_id x = j) (rec_sessions (set_session i f s)) = filter (\<lambda>x. rs_id x = j) (rec_sessions s)"
  unfolding set_session_def by (simp, rule filter_map_other [where j = i]) auto

lemma session_frame [simp]:
  "rec_lines (set_session i f s) = rec_lines s" "bank_lines (set_session i f s) = bank_lines s"
  "rec_sessions (unclear_where P s) = rec_sessions s" "bank_lines (unclear_where P s) = bank_lines s"
  "rec_sessions (upsert_cleared E i b s) = rec_sessions s" "bank_lines (upsert_cleared E i b s) = bank_lines s"
  by (simp_all add: set_session_def unclear_where_def upsert_cleared_def)

lemma set_session_mem:
  "y \<in> set (rec_sessions (set_session i f s)) \<Longrightarrow> \<exists>z\<in>set (rec_sessions s). y = (if rs_id z = i then f z else z)"
  by (auto simp: set_session_def)

lemma unclear_mem: "r \<in> set (rec_lines (unclear_where P s)) \<Longrightarrow> \<exists>q\<in>set (rec_lines s). rn_line r = rn_line q \<and> rn_session r = rn_session q"
  by (auto simp: unclear_where_def split: if_splits)

section \<open>Each request\<close>

lemma create_session_step:
  assumes "bank_wf s"
  shows "session_step c s (snd (create_session E u l a d b s))"
proof -
  have "session_step c s s'"
    if r: "rec_sessions s' = rec_sessions s @ [x]" "rec_lines s' = rec_lines s" "bank_lines s' = bank_lines s"
      "rs_id x \<notin> rs_id ` set (rec_sessions s)" "rs_status x = ''open''" for s' x
  proof (rule session_stepI)
    show "bank_wf s'" using assms r by (auto simp: bank_wf_def list_all_iff)
    show "session_view s' i = session_view s i \<or> reopens c i \<and> \<not> closed_in s' i" if "closed_in s i" for i
    proof -
      have "rs_id x \<noteq> i" using that r(4) by (auto simp: closed_in_def)
      then show ?thesis by (simp add: session_view_def r cleared_sum_def)
    qed
    show "session_ties s' y" if "y \<in> set (rec_sessions s')" "rs_status y = ''closed''" "\<not> closed_in s (rs_id y)" for y
      using that r(1,5) closed_in_here [of y s] by auto
  qed
  note created = this
  have ins: "\<exists>x. rec_sessions s1 = rec_sessions s @ [x] \<and> rec_lines s1 = rec_lines s \<and> bank_lines s1 = bank_lines s
      \<and> rs_id x \<notin> rs_id ` set (rec_sessions s) \<and> rs_status x = rs_status r"
    if "insert_rec_session E r s = Inr (i, s1)" for r i s1
    using that by (auto simp: insert_rec_session_def draw_def Let_def list_ex_key split: option.splits if_splits)
  show ?thesis
  proof (cases "sign_in s u l")
    case (Inl e)
    then show ?thesis using session_step_same [OF assms refl refl refl] by (simp add: create_session_def)
  next
    case (Inr v)
    let ?r = "\<lparr>rs_id = 0, rs_ledger = l, rs_account = a, rs_close_date = d, rs_close_balance = b,
      rs_opening = carry_opening (prior_close s l a), rs_status = ''open'', rs_created_by = v, rs_closed_by = None, rs_closed_at = None\<rparr>"
    show ?thesis
    proof (cases "insert_rec_session E ?r s")
      case (Inl e)
      then show ?thesis using Inr session_step_same [OF assms refl refl refl] by (simp add: create_session_def Let_def)
    next
      case (Inr ii)
      obtain i s1 where ii: "ii = (i, s1)" by (cases ii)
      from ins [of ?r i s1] Inr ii obtain x where x: "rec_sessions s1 = rec_sessions s @ [x]" "rec_lines s1 = rec_lines s"
        "bank_lines s1 = bank_lines s" "rs_id x \<notin> rs_id ` set (rec_sessions s)" "rs_status x = ''open''" by auto
      show ?thesis
        using \<open>sign_in s u l = Inr v\<close> Inr ii
        by (simp add: create_session_def Let_def, intro created [of _ x]) (simp_all add: x)
    qed
  qed
qed

lemma rec_lines_step:
  assumes "bank_wf s" and "\<not> closed_in s j" and "rec_sessions s' = rec_sessions s" and "bank_lines s' = bank_lines s"
    and other: "\<And>i. i \<noteq> j \<Longrightarrow> filter (\<lambda>r. rn_session r = i) (rec_lines s') = filter (\<lambda>r. rn_session r = i) (rec_lines s)"
    and ok: "\<And>r. r \<in> set (rec_lines s') \<Longrightarrow> rn_line r \<in> bl_id ` set (bank_lines s) \<and> rn_session r \<in> rs_id ` set (rec_sessions s)"
  shows "session_step c s s'"
proof (rule session_stepI)
  show "bank_wf s'" using assms(1,3,4) ok by (simp add: bank_wf_def list_all_iff)
  show "session_view s' i = session_view s i \<or> reopens c i \<and> \<not> closed_in s' i" if "closed_in s i" for i
  proof -
    have "i \<noteq> j" using that assms(2) by auto
    from other [OF this] show ?thesis
      using cleared_amounts_lines [OF other [OF \<open>i \<noteq> j\<close>]] by (simp add: session_view_def assms(3,4) cleared_sum_def)
  qed
  show "session_ties s' x" if "x \<in> set (rec_sessions s')" "rs_status x = ''closed''" "\<not> closed_in s (rs_id x)" for x
    using that closed_in_here [of x s] assms(3) by simp
qed

lemma bank_wf_line:
  "bank_wf s \<Longrightarrow> r \<in> set (rec_lines s) \<Longrightarrow> rn_line r \<in> bl_id ` set (bank_lines s) \<and> rn_session r \<in> rs_id ` set (rec_sessions s)"
  by (simp add: bank_wf_def list_all_iff)

lemma clear_step:
  assumes "bank_wf s"
  shows "session_step c s (snd (clear E u l a i b cf s))"
proof (cases "clear_request u l a i b cf s")
  case (Inl e)
  then show ?thesis using session_step_same [OF assms refl refl refl] by (simp add: clear_def)
next
  case (Inr r)
  then obtain x where x: "load_session s l a i = Inr x" "rs_status x \<noteq> ''closed''" and b: "b \<in> bl_id ` set (bank_lines s)"
    by (auto simp: clear_request_def result_simps list_ex_iff split: if_splits)
  have i: "i \<in> rs_id ` set (rec_sessions s)" using load_session_Inr [OF x(1)] by auto
  have "session_step c s (upsert_cleared E i b s)"
  proof (rule rec_lines_step [OF assms open_not_closed [OF assms x]])
    show "filter (\<lambda>r. rn_session r = j) (rec_lines (upsert_cleared E i b s)) = filter (\<lambda>r. rn_session r = j) (rec_lines s)"
      if "j \<noteq> i" for j using that by (rule upsert_other)
    show "rn_line r \<in> bl_id ` set (bank_lines s) \<and> rn_session r \<in> rs_id ` set (rec_sessions s)"
      if "r \<in> set (rec_lines (upsert_cleared E i b s))" for r
      using that i b bank_wf_line [OF assms] by (auto simp: upsert_cleared_def split: if_splits)
  qed simp_all
  then show ?thesis using Inr by (simp add: clear_def)
qed

lemma unclear_step:
  assumes "bank_wf s"
  shows "session_step c s (snd (unclear u l a i b s))"
proof -
  have "session_step c s (unclear_where (\<lambda>r. rn_session r = i \<and> rn_line r = b) s)"
    if x: "load_session s l a i = Inr x" "rs_status x \<noteq> ''closed''" for x
  proof (rule rec_lines_step [OF assms open_not_closed [OF assms x]])
    show "filter (\<lambda>r. rn_session r = j) (rec_lines (unclear_where (\<lambda>r. rn_session r = i \<and> rn_line r = b) s))
        = filter (\<lambda>r. rn_session r = j) (rec_lines s)" if "j \<noteq> i" for j
      by (rule unclear_other [OF _ that]) simp
    show "rn_line r \<in> bl_id ` set (bank_lines s) \<and> rn_session r \<in> rs_id ` set (rec_sessions s)"
      if "r \<in> set (rec_lines (unclear_where (\<lambda>r. rn_session r = i \<and> rn_line r = b) s))" for r
    proof -
      from unclear_mem [OF that] obtain q where "q \<in> set (rec_lines s)" "rn_line r = rn_line q" "rn_session r = rn_session q" by auto
      with bank_wf_line [OF assms, of q] show ?thesis by simp
    qed
  qed simp_all
  note cleared = this
  show ?thesis
  proof (cases "rbind (sign_in s u l) (\<lambda>v. rbind (load_session s l a i) (\<lambda>x.
      if rs_status x = ''closed'' then Inl (Conflict locked_text) else Inr ()))")
    case (Inl e)
    then show ?thesis using session_step_same [OF assms refl refl refl] by (simp add: unclear_def)
  next
    case (Inr v)
    then obtain x where "load_session s l a i = Inr x" "rs_status x \<noteq> ''closed''"
      by (auto simp: result_simps split: if_splits)
    from cleared [OF this] show ?thesis using Inr by (simp add: unclear_def)
  qed
qed

lemma set_session_ids:
  "(\<And>x. rs_id (f x) = rs_id x) \<Longrightarrow> map rs_id (rec_sessions (set_session i f s)) = map rs_id (rec_sessions s)"
  by (simp add: set_session_def)

lemma finish_step:
  assumes "bank_wf s"
  shows "session_step c s (snd (finish E sh u l a i s))"
proof (cases "finish_request sh u l a i s")
  case (Inl e)
  then show ?thesis using session_step_same [OF assms refl refl refl] by (simp add: finish_def)
next
  case (Inr r)
  obtain v x where r: "r = (v, x)" by (cases r)
  let ?f = "\<lambda>y. y\<lparr>rs_status := ''closed'', rs_closed_at := Some (now E), rs_closed_by := Some v\<rparr>"
  let ?s = "set_session i ?f s"
  from Inr r have x: "load_session s l a i = Inr x" "rs_status x \<noteq> ''closed''"
    and d: "rs_opening x + cleared_sum s i = rs_close_balance x"
    by (auto simp: finish_request_def result_simps validate_finish_def compute_difference_def split: if_splits)
  note xi = load_session_Inr [OF x(1)]
  have ids: "map rs_id (rec_sessions ?s) = map rs_id (rec_sessions s)" by (rule set_session_ids) simp
  have sets: "rs_id ` set (rec_sessions ?s) = rs_id ` set (rec_sessions s)" using ids by (metis list.set_map)
  have "session_step c s s'"
    if s': "rec_sessions s' = rec_sessions ?s" "rec_lines s' = rec_lines s" "bank_lines s' = bank_lines s" for s'
  proof (rule session_stepI)
    have sum': "cleared_sum s' j = cleared_sum s j" for j by (simp add: cleared_sum_def s')
    show "bank_wf s'" using assms ids sets by (simp add: bank_wf_def s')
    show "session_view s' j = session_view s j \<or> reopens c j \<and> \<not> closed_in s' j" if "closed_in s j" for j
    proof -
      have "j \<noteq> i" using that open_not_closed [OF assms x] by auto
      then have "filter (\<lambda>y. rs_id y = j) (rec_sessions ?s) = filter (\<lambda>y. rs_id y = j) (rec_sessions s)"
        by (intro set_session_other) simp_all
      then show ?thesis by (simp add: session_view_def s' sum')
    qed
    show "session_ties s' y" if y: "y \<in> set (rec_sessions s')" "rs_status y = ''closed''" "\<not> closed_in s (rs_id y)" for y
    proof -
      from y(1) obtain z where z: "z \<in> set (rec_sessions s)" "y = (if rs_id z = i then ?f z else z)"
        by (auto simp: s' set_session_def)
      with y have "rs_id z = i" using closed_in_here [of z s] by (auto split: if_splits)
      with z session_unique [OF assms z(1), of x] xi have "z = x" by simp
      with z d xi show ?thesis by (simp add: session_ties_def sum')
    qed
  qed
  then show ?thesis using Inr r by (simp add: finish_def)
qed

lemma unreconcile_step:
  assumes "bank_wf s" and c: "c = Unreconcile E u l a i r"
  shows "session_step c s (snd (unreconcile E u l a i r s))"
proof -
  let ?f = "\<lambda>y. y\<lparr>rs_status := ''open'', rs_closed_at := None, rs_closed_by := None\<rparr>"
  let ?s = "unclear_where (\<lambda>r. rn_session r = i) (set_session i ?f s)"
  have "session_step c s s'"
    if s': "rec_sessions s' = rec_sessions ?s" "rec_lines s' = rec_lines ?s" "bank_lines s' = bank_lines s"
      and ok: "u = Some v" "10 \<le> length (trim (default_str r))" for s' v
  proof (rule session_stepI)
    have ids: "map rs_id (rec_sessions s') = map rs_id (rec_sessions s)"
      unfolding s'(1) session_frame by (rule set_session_ids) simp
    then have "rs_id ` set (rec_sessions s') = rs_id ` set (rec_sessions s)" by (metis list.set_map)
    moreover have "rn_line q \<in> bl_id ` set (bank_lines s) \<and> rn_session q \<in> rs_id ` set (rec_sessions s)"
      if "q \<in> set (rec_lines s')" for q
    proof -
      from unclear_mem [of q "\<lambda>r. rn_session r = i" "set_session i ?f s"] that
      obtain q' where "q' \<in> set (rec_lines s)" "rn_line q = rn_line q'" "rn_session q = rn_session q'" by (auto simp: s'(2))
      with bank_wf_line [OF assms(1), of q'] show ?thesis by simp
    qed
    ultimately show "bank_wf s'" using assms(1) ids by (simp add: bank_wf_def list_all_iff s'(3))
    have st: "\<exists>z\<in>set (rec_sessions s). y = (if rs_id z = i then ?f z else z)" if "y \<in> set (rec_sessions s')" for y
      using that unfolding s'(1) session_frame by (rule set_session_mem)
    have "rs_status y \<noteq> ''closed''" if "y \<in> set (rec_sessions s')" "rs_id y = i" for y
    proof -
      from st [OF that(1)] obtain z where "y = (if rs_id z = i then ?f z else z)" by blast
      then show ?thesis using that(2) by (cases "rs_id z = i") simp_all
    qed
    then have ni: "\<not> closed_in s' i" by (simp add: closed_in_def)
    have re: "reopens c i" using ok c by (cases r) (simp_all add: reopens_def default_str_def trim_def)
    show "session_view s' j = session_view s j \<or> reopens c j \<and> \<not> closed_in s' j" for j
    proof (cases "j = i")
      case False
      then have "filter (\<lambda>y. rs_id y = j) (rec_sessions s') = filter (\<lambda>y. rs_id y = j) (rec_sessions s)"
        unfolding s'(1) session_frame by (intro set_session_other) simp_all
      moreover have "filter (\<lambda>q. rn_session q = j) (rec_lines s') = filter (\<lambda>q. rn_session q = j) (rec_lines s)"
        using unclear_other [of "\<lambda>r. rn_session r = i" i j "set_session i ?f s"] False by (simp add: s'(2))
      moreover note cleared_amounts_lines [OF this]
      ultimately show ?thesis by (simp add: session_view_def cleared_sum_def s'(3))
    qed (use ni re in simp)
    show "session_ties s' y" if y: "y \<in> set (rec_sessions s')" "rs_status y = ''closed''" "\<not> closed_in s (rs_id y)" for y
    proof -
      from st [OF y(1)] obtain z where z: "z \<in> set (rec_sessions s)" "y = (if rs_id z = i then ?f z else z)" by blast
      with y show ?thesis using closed_in_here [of z s] by (cases "rs_id z = i") simp_all
    qed
  qed
  note reopened = this
  show ?thesis
  proof (cases "rbind (sign_in s u l) (\<lambda>v. rbind (load_session s l a i) (\<lambda>x.
      rbind (map_err Validation (validate_unreconcile_reason (default_str r))) (\<lambda>_.
        if rs_status x \<noteq> ''closed'' then Inl (Validation ''session is not closed'') else Inr v)))")
    case (Inl e)
    then show ?thesis using session_step_same [OF assms(1) refl refl refl] by (simp add: unreconcile_def)
  next
    case (Inr v)
    then have "u = Some v" "10 \<le> length (trim (default_str r))"
      by (auto simp: sign_in_def result_simps validate_unreconcile_reason_def split: if_splits)
    then show ?thesis
      using Inr by (simp add: unreconcile_def, intro reopened) simp_all
  qed
qed

lemma insert_bank_line_Inr:
  assumes "insert_bank_line E r s = Inr s'"
  obtains i v where "numeric_col 20 4 (bl_amount r) = Some v" "i \<notin> bl_id ` set (bank_lines s)"
    "bank_lines s' = bank_lines s @ [r\<lparr>bl_id := i, bl_amount := v, bl_status := ''unmatched'', bl_matched := None, bl_created := now E\<rparr>]"
    "rec_sessions s' = rec_sessions s" "rec_lines s' = rec_lines s"
  using assms by (auto simp: insert_bank_line_def draw_def Let_def list_ex_key split: option.splits if_splits)

lemma check_currency_Inr: "check_currency cur r = Inr r' \<Longrightarrow> r' = r"
  by (auto simp: check_currency_def split: option.splits if_splits)

lemma upload_step_cases:
  assumes "upload_step E l a cur c line = Inr c'"
  obtains (same) "uc_db c' = uc_db c" "uc_count c' = uc_count c"
  | (stored) r s' where "row_of E line = Some (Inr r)" "\<not> is_duplicate (bank_lines (uc_db c)) a r"
      "insert_bank_line E (upload_line l a r) (uc_db c) = Inr s'" "c' = c\<lparr>uc_db := s', uc_count := uc_count c + 1\<rparr>"
  using assms unfolding upload_step_def
  by (auto simp: result_simps split: option.splits sum.splits if_splits dest: check_currency_Inr)

lemma upload_lines_append:
  assumes "upload_lines E l a cur lines s = Inr c"
  shows "rec_sessions (uc_db c) = rec_sessions s \<and> rec_lines (uc_db c) = rec_lines s
    \<and> (distinct (map bl_id (bank_lines s)) \<longrightarrow> distinct (map bl_id (bank_lines (uc_db c))))
    \<and> (\<exists>new. bank_lines (uc_db c) = bank_lines s @ new)" (is "?P c")
proof (rule try_fold_invariant [OF assms [unfolded upload_lines_def], where P = ?P])
  fix d line d' assume P: "?P d" and st: "upload_step E l a cur d line = Inr d'"
  from st show "?P d'"
  proof (cases rule: upload_step_cases)
    case same
    with P show ?thesis by simp
  next
    case (stored r s')
    from stored(3) obtain i v where i: "i \<notin> bl_id ` set (bank_lines (uc_db d))"
      "bank_lines s' = bank_lines (uc_db d) @
        [(upload_line l a r)\<lparr>bl_id := i, bl_amount := v, bl_status := ''unmatched'', bl_matched := None, bl_created := now E\<rparr>]"
      "rec_sessions s' = rec_sessions (uc_db d)" "rec_lines s' = rec_lines (uc_db d)" by (rule insert_bank_line_Inr)
    from P obtain new where "bank_lines (uc_db d) = bank_lines s @ new" by blast
    then have "\<exists>new. bank_lines s' = bank_lines s @ new" by (simp add: i(2))
    with P i stored(4) show ?thesis by simp
  qed
qed simp

lemma upload_step_sessions:
  assumes "bank_wf s"
  shows "session_step c s (snd (upload_csv E infr ymd csv u l a ps s))"
proof -
  have "session_step c s s'"
    if run: "upload_lines E l a cur lines s = Inr d" and eqs: "rec_sessions s' = rec_sessions (uc_db d)" "rec_lines s' = rec_lines (uc_db d)"
      "bank_lines s' = bank_lines (uc_db d)" for cur lines d s'
  proof -
    note d = upload_lines_append [OF run]
    then obtain new where "bank_lines s' = bank_lines s @ new" using eqs(3) by auto
    with d eqs assms show ?thesis by (intro session_step_append [of s s' new]) (simp_all add: bank_wf_def)
  qed
  then show ?thesis
    using session_step_same [OF assms refl refl refl, of c]
    unfolding upload_csv_def by (auto split: sum.splits)
qed

lemma learn_frame [simp]:
  "rec_sessions (learn_match E l a b t s) = rec_sessions s" "rec_lines (learn_match E l a b t s) = rec_lines s"
  "bank_lines (learn_match E l a b t s) = bank_lines s"
  by (auto simp: learn_match_def record_from_match_def record_alias_def Let_def split: option.splits sum.splits if_splits)

lemma match_step:
  assumes "bank_wf s"
  shows "session_step c s (snd (match_line E u l a b t s))"
proof (cases "rbind (sign_in s u l) (\<lambda>_. map_err AppDb (match_tx b t s))")
  case (Inl e)
  then show ?thesis using session_step_same [OF assms refl refl refl] by (simp add: match_line_def)
next
  case (Inr s1)
  then have "rec_sessions s1 = rec_sessions s" "rec_lines s1 = rec_lines s"
    "bank_lines s1 = map (\<lambda>x. if bl_id x = b then x\<lparr>bl_status := ''matched'', bl_matched := Some t\<rparr> else x) (bank_lines s)"
    by (auto simp: result_simps match_tx_def split: if_splits)
  then have "session_step c s (learn_match E l a b t s1)"
    by (intro session_step_soft [OF assms, where f = "\<lambda>x. if bl_id x = b then x\<lparr>bl_status := ''matched'', bl_matched := Some t\<rparr> else x"])
      simp_all
  then show ?thesis using Inr by (simp add: match_line_def)
qed

lemma exclude_step:
  assumes "bank_wf s"
  shows "session_step c s (snd (exclude_line u l b s))"
  using session_step_same [OF assms refl refl refl, of c]
    session_step_soft [OF assms, of _ "\<lambda>x. if bl_id x = b then x\<lparr>bl_status := ''excluded''\<rparr> else x" c]
  unfolding exclude_line_def by (auto split: sum.split)

lemma complete_step:
  assumes "bank_wf s"
  shows "session_step c s (snd (complete E u l a s))"
  by (rule session_step_same [OF assms])
    (auto simp: complete_def insert_reconciliation_def Let_def split: sum.splits option.splits if_splits)

lemma rule_steps:
  assumes "bank_wf s"
  shows "session_step c s (snd (create_rule E j u l n k p pr ac s))" "session_step c s (snd (toggle_rule E u l r s))"
    "session_step c s (snd (delete_rule E u l r s))" "session_step c s (snd (apply_rules E rx u l ts m s))"
  by (rule session_step_same [OF assms];
      auto simp: create_rule_def toggle_rule_def delete_rule_def apply_rules_def draw_def Let_def split: sum.splits option.splits if_splits)+

lemma bank_exec_step: "bank_wf s \<Longrightarrow> session_step c s (bank_exec c s)"
  by (cases c) (simp_all add: create_session_step clear_step unclear_step finish_step unreconcile_step upload_step_sessions
      match_step exclude_step complete_step rule_steps)

section \<open>Sequences of requests\<close>

definition bank_inv :: "bdb \<Rightarrow> bool" where
  "bank_inv s \<longleftrightarrow> bank_wf s \<and> (\<forall>x\<in>set (rec_sessions s). rs_status x = ''closed'' \<longrightarrow> session_ties s x)"

lemma view_mem:
  "session_view s' i = session_view s i \<Longrightarrow> x \<in> set (rec_sessions s') \<Longrightarrow> rs_id x = i
   \<Longrightarrow> x \<in> set (rec_sessions s) \<and> cleared_sum s' i = cleared_sum s i"
  unfolding session_view_def by (metis (mono_tags, lifting) Pair_inject mem_Collect_eq set_filter)

lemma bank_inv_step:
  assumes "bank_inv s"
  shows "bank_inv (bank_exec c s)"
  unfolding bank_inv_def
proof (intro conjI ballI impI)
  have st: "session_step c s (bank_exec c s)" using assms bank_exec_step by (simp add: bank_inv_def)
  then show "bank_wf (bank_exec c s)" by (simp add: session_step_def)
  fix x assume x: "x \<in> set (rec_sessions (bank_exec c s))" "rs_status x = ''closed''"
  show "session_ties (bank_exec c s) x"
  proof (cases "closed_in s (rs_id x)")
    case False
    with st x show ?thesis by (simp add: session_step_def)
  next
    case True
    with st closed_in_here [OF x] have "session_view (bank_exec c s) (rs_id x) = session_view s (rs_id x)"
      unfolding session_step_def by blast
    from view_mem [OF this x(1) refl] x(2) assms show ?thesis by (simp add: bank_inv_def session_ties_def)
  qed
qed

interpretation banking: command_system bank_exec "\<lambda>_. True" bank_inv
  by unfold_locales (rule bank_inv_step)

lemma closed_in_view: "session_view s' i = session_view s i \<Longrightarrow> closed_in s i \<Longrightarrow> closed_in s' i"
  using view_mem [of s i s'] by (fastforce simp: closed_in_def)

lemma locked_run:
  "bank_wf s \<Longrightarrow> closed_in s i \<Longrightarrow> list_all (\<lambda>c. \<not> reopens c i) cs \<Longrightarrow> session_view (fold bank_exec cs s) i = session_view s i"
proof (induction cs arbitrary: s)
  case (Cons c cs)
  have st: "session_step c s (bank_exec c s)" using Cons.prems(1) by (rule bank_exec_step)
  then have v: "session_view (bank_exec c s) i = session_view s i"
    using Cons.prems(2,3) by (auto simp: session_step_def)
  have "bank_wf (bank_exec c s)" using st by (simp add: session_step_def)
  from Cons.IH [OF this closed_in_view [OF v Cons.prems(2)]] Cons.prems(3) v show ?case by simp
qed simp

section \<open>Importing a statement again\<close>

lemma is_duplicate_append: "is_duplicate bs a r \<Longrightarrow> is_duplicate (bs @ new) a r"
  by (auto simp: is_duplicate_def split: option.splits)

text \<open>The lines an import has dealt with: skipped, rejected, or found among the stored ones.\<close>

definition dealt_with :: "env \<Rightarrow> uuid \<Rightarrow> string \<Rightarrow> bank_line list \<Rightarrow> raw_line \<Rightarrow> bool" where
  "dealt_with E a cur bs line =
     (case row_of E line of None \<Rightarrow> True
      | Some r0 \<Rightarrow> (case rbind r0 (check_currency cur) of Inl _ \<Rightarrow> True | Inr r \<Rightarrow> is_duplicate bs a r))"

text \<open>Rows the duplicate test recognises once they are stored.\<close>

definition recognisable :: "upload_row \<Rightarrow> bool" where
  "recognisable r \<longleftrightarrow> ur_external r \<noteq> None
   \<or> to_lowercase (normalize_payee (ur_description r)) = to_lowercase (ur_description r) \<and> on_grid 4 (ur_amount r)"

definition recognisable_line :: "env \<Rightarrow> raw_line \<Rightarrow> bool" where
  "recognisable_line E line = (case row_of E line of Some (Inr r) \<Rightarrow> recognisable r | _ \<Rightarrow> True)"

lemma dealt_with_append: "dealt_with E a cur bs line \<Longrightarrow> dealt_with E a cur (bs @ new) line"
  by (auto simp: dealt_with_def is_duplicate_append split: option.splits sum.splits)

lemma stored_is_duplicate:
  assumes "recognisable r" and "insert_bank_line E (upload_line l a r) s = Inr s'"
  shows "is_duplicate (bank_lines s') a r"
  using assms(2)
proof (rule insert_bank_line_Inr)
  fix i v
  assume v: "numeric_col 20 4 (bl_amount (upload_line l a r)) = Some v"
    and b: "bank_lines s' = bank_lines s @ [(upload_line l a r)\<lparr>bl_id := i, bl_amount := v, bl_status := ''unmatched'',
        bl_matched := None, bl_created := now E\<rparr>]"
  show ?thesis
  proof (cases "ur_external r")
    case (Some e)
    then show ?thesis by (simp add: is_duplicate_def b upload_line_def)
  next
    case None
    with assms(1) have n: "to_lowercase (normalize_payee (ur_description r)) = to_lowercase (ur_description r)" "on_grid 4 (ur_amount r)"
      by (simp_all add: recognisable_def)
    have "v = ur_amount r" using n(2) numeric_col_Some [OF v] by (simp add: upload_line_def away.rnd_exact)
    with None n(1) show ?thesis by (simp add: is_duplicate_def b upload_line_def)
  qed
qed

lemma upload_step_grows:
  assumes "upload_step E l a cur c line = Inr c'"
  shows "\<exists>new. bank_lines (uc_db c') = bank_lines (uc_db c) @ new"
  using assms
proof (cases rule: upload_step_cases)
  case (stored r s')
  then show ?thesis by (auto elim: insert_bank_line_Inr)
qed simp

lemma upload_step_deals:
  assumes "upload_step E l a cur c line = Inr c'" and "recognisable_line E line"
  shows "dealt_with E a cur (bank_lines (uc_db c')) line"
proof (cases "row_of E line")
  case (Some r0)
  show ?thesis
  proof (cases "rbind r0 (check_currency cur)")
    case (Inr r)
    then have r0: "r0 = Inr r" by (cases r0) (auto dest: check_currency_Inr)
    with Some assms(2) have "recognisable r" by (simp add: recognisable_line_def)
    with assms(1) Some Inr r0 show ?thesis
      by (auto simp: dealt_with_def upload_step_def result_simps split: if_splits intro: stored_is_duplicate)
  qed (simp add: dealt_with_def Some)
qed (simp add: dealt_with_def)

lemma upload_fold_deals:
  assumes "try_fold (upload_step E l a cur) c lines = Inr c'" and "list_all (recognisable_line E) lines"
  shows "list_all (dealt_with E a cur (bank_lines (uc_db c'))) lines \<and> (\<exists>new. bank_lines (uc_db c') = bank_lines (uc_db c) @ new)"
  using assms
proof (induction lines arbitrary: c)
  case (Cons line lines)
  then obtain d where d: "upload_step E l a cur c line = Inr d" "try_fold (upload_step E l a cur) d lines = Inr c'"
    by (auto simp: result_simps)
  from Cons.IH [OF d(2)] Cons.prems(2) obtain new where new: "bank_lines (uc_db c') = bank_lines (uc_db d) @ new"
    "list_all (dealt_with E a cur (bank_lines (uc_db c'))) lines" by auto
  from upload_step_deals [OF d(1)] Cons.prems(2) new(1) dealt_with_append
  have "dealt_with E a cur (bank_lines (uc_db c')) line" by simp
  with new upload_step_grows [OF d(1)] show ?case by auto
qed simp

lemma upload_fold_dealt:
  "list_all (dealt_with E a cur (bank_lines (uc_db c))) lines
   \<Longrightarrow> \<exists>c'. try_fold (upload_step E l a cur) c lines = Inr c' \<and> uc_db c' = uc_db c \<and> uc_count c' = uc_count c"
proof (induction lines arbitrary: c)
  case (Cons line lines)
  from Cons.prems obtain d where d: "upload_step E l a cur c line = Inr d" "uc_db d = uc_db c" "uc_count d = uc_count c"
    by (auto simp: dealt_with_def upload_step_def split: option.splits sum.splits)
  with Cons.IH [of d] Cons.prems show ?case by simp
qed simp

section \<open>Statements in the MT940 format\<close>

definition same_reference :: "string \<Rightarrow> mt_state \<Rightarrow> bool" where
  "same_reference ref st \<longleftrightarrow> ms_ref st = Some ref \<and> list_all (\<lambda>l. sl_external_id l = Some ref) (ms_out st)"

lemma same_reference_flush: "same_reference ref st \<Longrightarrow> same_reference ref (mt_flush st info)"
  by (auto simp: same_reference_def mt_flush_def mt_line_of_def split: option.splits)

lemma same_reference_continue: "same_reference ref st \<Longrightarrow> same_reference ref (mt_continue st line)"
proof -
  assume st: "same_reference ref st"
  have "list_all P (butlast xs) \<and> P (last xs)" if "list_all P xs" "xs \<noteq> []" for P and xs :: "statement_line list"
    using that by (auto simp: list_all_iff dest: in_set_butlastD)
  with st show ?thesis by (auto simp: same_reference_def mt_continue_def)
qed

lemma same_reference_line:
  assumes "mt_statement_line E st raw = Inr st'" and "same_reference ref st" and "\<not> starts_with '':20:'' (trim_end raw)"
  shows "same_reference ref st'"
  using assms same_reference_flush [OF assms(2)] same_reference_continue [OF assms(2)]
  by (auto simp: mt_statement_line_def Let_def result_simps same_reference_def split: if_splits)

lemma mt_statement_reference:
  assumes "Rust_Split.str_lines text = first # rest" and "starts_with '':20:'' (trim_end first)"
    and "list_all (\<lambda>x. \<not> starts_with '':20:'' (trim_end x)) rest" and "mt_statement E text = Inr ls"
  shows "list_all (\<lambda>l. sl_external_id l = Some (trim (trim_start_matches '':20:'' (trim_end first)))) ls"
proof -
  let ?ref = "trim (trim_start_matches '':20:'' (trim_end first))"
  let ?st = "\<lparr>ms_out = [], ms_ref = Some ?ref, ms_pending = None\<rparr>"
  from assms obtain st where st: "try_fold (mt_statement_line E) ?st rest = Inr st" "ls = ms_out (mt_flush st None)"
    by (auto simp: mt_statement_def result_simps mt_statement_line_def Let_def split: if_splits)
  have "same_reference ?ref st"
  proof (rule try_fold_invariant [OF st(1)])
    show "same_reference ?ref ?st" by (simp add: same_reference_def)
    show "same_reference ?ref t'" if "x \<in> set rest" "same_reference ?ref t" "mt_statement_line E t x = Inr t'" for t x t'
      using that(3,2) by (rule same_reference_line) (use assms(3) that(1) in \<open>simp add: list_all_iff\<close>)
  qed
  from same_reference_flush [OF this] show ?thesis by (simp add: st(2) same_reference_def)
qed

lemma upload_same_reference:
  assumes "list_all (\<lambda>l. sl_external_id l = Some ref) ls" and "upload_lines E l a cur (map StmtLine ls) s = Inr c"
  shows "uc_count c \<le> 1"
proof -
  let ?P = "\<lambda>c. uc_count c = 0 \<or> uc_count c = 1 \<and> list_ex (\<lambda>b. bl_account b = a \<and> bl_external b = Some ref) (bank_lines (uc_db c))"
  have "?P c"
  proof (rule try_fold_invariant [OF assms(2) [unfolded upload_lines_def], where P = ?P])
    fix c c' line assume P: "?P c" and st: "upload_step E l a cur c line = Inr c'" and line: "line \<in> set (map StmtLine ls)"
    from st show "?P c'"
    proof (cases rule: upload_step_cases)
      case (stored r s')
      have e: "ur_external r = Some ref" using line stored(1) assms(1) by (auto simp: row_of_def list_all_iff)
      with stored(2) P have "uc_count c = 0" by (auto simp: is_duplicate_def)
      moreover have "list_ex (\<lambda>b. bl_account b = a \<and> bl_external b = Some ref) (bank_lines s')"
        using stored(3) by (rule insert_bank_line_Inr) (simp add: upload_line_def e)
      ultimately show ?thesis using stored(4) by simp
    qed (use P in simp)
  qed simp
  then show ?thesis by auto
qed

section \<open>Rules on booked transactions\<close>

definition bare_postings :: "db \<Rightarrow> posting_row list" where
  "bare_postings db = map (\<lambda>p. p\<lparr>p_account := 0\<rparr>) (postings db)"

text \<open>Two states of the books that differ only in the accounts of postings of transactions that satisfy \<open>Q\<close>.\<close>

definition moved :: "(uuid \<Rightarrow> bool) \<Rightarrow> db \<Rightarrow> db \<Rightarrow> bool" where
  "moved Q db db' \<longleftrightarrow> transactions db' = transactions db \<and> accounts db' = accounts db \<and> bare_postings db' = bare_postings db
   \<and> list_all2 (\<lambda>p p'. p_txn p' = p_txn p \<and> (p_account p' = p_account p \<or> Q (p_txn p))) (postings db) (postings db')"

lemma moved_refl: "moved Q db db"
  by (simp add: moved_def list_all2_same)

lemma moved_trans:
  assumes "moved Q a b" and "moved Q b c"
  shows "moved Q a c"
proof -
  have "list_all2 (\<lambda>p p'. p_txn p' = p_txn p \<and> (p_account p' = p_account p \<or> Q (p_txn p))) (postings a) (postings c)"
    by (rule list_all2_trans [OF _ assms [unfolded moved_def, THEN conjunct2, THEN conjunct2, THEN conjunct2]]) auto
  with assms show ?thesis by (simp add: moved_def)
qed

lemma recategorize_moved:
  assumes "recategorize t new db = Inr db'" and "Q t"
  shows "moved Q db db'"
proof (cases "category_account db t")
  case None
  with assms show ?thesis by (simp add: recategorize_def moved_refl)
next
  case (Some old)
  with assms(1) have db': "db' = db\<lparr>postings := map (\<lambda>p. if p_txn p = t \<and> p_account p = old then p\<lparr>p_account := new\<rparr> else p) (postings db)\<rparr>"
    by (auto simp: recategorize_def Let_def result_simps split: if_splits)
  have "list_all2 (\<lambda>p p'. p_txn p' = p_txn p \<and> (p_account p' = p_account p \<or> Q (p_txn p))) ps
      (map (\<lambda>p. if p_txn p = t \<and> p_account p = old then p\<lparr>p_account := new\<rparr> else p) ps)" for ps
    using assms(2) by (induction ps) auto
  then show ?thesis by (simp add: moved_def db' bare_postings_def)
qed

lemma recategorize_all_moved:
  assumes "try_fold (\<lambda>db (t, _, new, _). recategorize t new db) db changes = Inr db'"
    and "list_all (\<lambda>(t, _). Q t) changes"
  shows "moved Q db db'"
proof (rule try_fold_invariant [OF assms(1), where P = "moved Q db"])
  show "moved Q db db" by (rule moved_refl)
  show "moved Q db d'" if x: "x \<in> set changes" and d: "moved Q db d" and st: "(case x of (t, _, new, _) \<Rightarrow> recategorize t new d) = Inr d'" for x d d'
  proof -
    obtain t o' new n where xs: "x = (t, o', new, n)" by (cases x)
    with assms(2) x have "Q t" by (auto simp: list_all_iff)
    with st xs have "moved Q d d'" by (intro recategorize_moved) simp_all
    with d show ?thesis by (rule moved_trans)
  qed
qed

lemma moved_audit: "moved Q db db' \<Longrightarrow> moved Q db (audit_log E l u a e i old new db')"
  by (simp add: moved_def bare_postings_def audit_log_tables)

definition may_recategorize :: "db \<Rightarrow> uuid \<Rightarrow> uuid \<Rightarrow> bool" where
  "may_recategorize db ledger_id i \<longleftrightarrow>
     (\<exists>t\<in>set (transactions db). t_id t = i \<and> t_ledger t = ledger_id
       \<and> \<not> (\<exists>c\<in>set (closed_periods db). cp_ledger c = ledger_id \<and> cp_year c = date_year (t_date t)))"

lemma rule_diff_Some:
  assumes "rule_diff E rx l s i = Some (t, o', new, n)" and "\<not> in_closed_year (bcore s) ids" and "i \<in> set ids"
  shows "t = i \<and> may_recategorize (bcore s) l i"
proof -
  obtain x where x: "find (\<lambda>t. t_id t = i \<and> t_ledger t = l) (transactions (bcore s)) = Some x"
    using assms(1) by (cases "find (\<lambda>t. t_id t = i \<and> t_ledger t = l) (transactions (bcore s))") (simp_all add: rule_diff_def)
  obtain r act where "first_match E rx (categorize_rules s l)
      \<lparr>ln_description = t_description x @ '' '' @ default_str (t_payee x), ln_cents = 0, ln_currency = []\<rparr> = Some (r, act)"
    using assms(1) x by (cases "first_match E rx (categorize_rules s l)
      \<lparr>ln_description = t_description x @ '' '' @ default_str (t_payee x), ln_cents = 0, ln_currency = []\<rparr>") (auto simp: rule_diff_def)
  then have t: "t = i" using assms(1) x by (cases act) (auto simp: rule_diff_def Let_def split: if_splits)
  from find_Some_mem [OF x] have "x \<in> set (transactions (bcore s))" "t_id x = i" "t_ledger x = l" by auto
  moreover from this assms(2,3) have "\<not> (\<exists>c\<in>set (closed_periods (bcore s)). cp_ledger c = l \<and> cp_year c = date_year (t_date x))"
    by (auto simp: in_closed_year_def list_ex_iff)
  ultimately show ?thesis using t by (auto simp: may_recategorize_def)
qed

lemma apply_rules_moved: "moved (may_recategorize (bcore s) l) (bcore s) (bcore (snd (apply_rules E rx u l ts m s)))"
proof -
  let ?ids = "List.map_filter (\<lambda>t. parse_uuid E (trim t)) ts"
  let ?changes = "List.map_filter (rule_diff E rx l s) ?ids"
  let ?Q = "may_recategorize (bcore s) l"
  have "moved ?Q (bcore s) (audit_log E' l' v a e i old new db1)"
    if "\<not> in_closed_year (bcore s) ?ids" "try_fold (\<lambda>db (t, _, new, _). recategorize t new db) (bcore s) ?changes = Inr db1"
    for db1 E' l' v a e i old new
  proof (rule moved_audit, rule recategorize_all_moved [OF that(2)])
    show "list_all (\<lambda>(t, _). ?Q t) ?changes"
      using rule_diff_Some [OF _ that(1)] by (fastforce simp: list_all_iff List.map_filter_def)
  qed
  note run = this
  show ?thesis
  proof (cases "rbind (sign_in s u l) (\<lambda>v. if ?ids = [] then Inl (Validation ''select at least one transaction'')
      else if in_closed_year (bcore s) ?ids
        then Inl (Conflict ''selection includes transactions in a closed period; nothing was changed'')
      else Inr (v, ?changes))")
    case (Inl e)
    then show ?thesis by (simp add: apply_rules_def Let_def moved_refl)
  next
    case (Inr r)
    then obtain v where r: "r = (v, ?changes)" and nc: "\<not> in_closed_year (bcore s) ?ids" by (auto simp: result_simps split: if_splits)
    show ?thesis
      using run [OF nc] Inr r by (auto simp: apply_rules_def Let_def moved_refl blog_def split: sum.splits)
  qed
qed

lemma sum_bare:
  "map (\<lambda>p. p\<lparr>p_account := 0\<rparr>) ps' = map (\<lambda>p. p\<lparr>p_account := 0\<rparr>) ps
   \<Longrightarrow> debit_sum (filter (\<lambda>p. p_txn p = i) ps') = debit_sum (filter (\<lambda>p. p_txn p = i) ps)
    \<and> credit_sum (filter (\<lambda>p. p_txn p = i) ps') = credit_sum (filter (\<lambda>p. p_txn p = i) ps)"
proof (induction ps arbitrary: ps')
  case (Cons p ps)
  then obtain q qs where q: "ps' = q # qs" "q\<lparr>p_account := 0\<rparr> = p\<lparr>p_account := 0\<rparr>"
    "map (\<lambda>p. p\<lparr>p_account := 0\<rparr>) qs = map (\<lambda>p. p\<lparr>p_account := 0\<rparr>) ps" by (cases ps') auto
  then have "p_txn q = p_txn p" "p_amount q = p_amount p" "p_direction q = p_direction p"
    by (metis posting_row.select_convs posting_row.surjective posting_row.update_convs(3))+
  with Cons.IH [OF q(3)] show ?case by (simp add: q(1) debit_sum_def credit_sum_def is_debit_def is_credit_def)
qed (simp add: debit_sum_def credit_sum_def)

section \<open>Properties\<close>

text \<open>
  C37: Whatever requests are served, a closed reconciliation session ties out: its opening balance plus the lines
  cleared in it is its closing balance.
\<close>

theorem closed_sessions_tie_out:
  assumes "bank_inv s" and "x \<in> set (rec_sessions (fold bank_exec cs s))" and "rs_status x = ''closed''"
  shows "compute_difference (rs_opening x) (cleared_sum (fold bank_exec cs s) (rs_id x)) (rs_close_balance x) = 0"
proof -
  have "list_all (\<lambda>_. True) cs" by (simp add: list_all_iff)
  from banking.run_inv [OF assms(1) this] assms(2,3) have "session_ties (fold bank_exec cs s) x" by (simp add: bank_inv_def)
  then show ?thesis by (simp add: session_ties_def compute_difference_def)
qed

text \<open>
  C38: A closed session is locked: as long as no request reopens it with a reason of ten characters or more, its row,
  its lines and the amount cleared in it stay what they are, whatever is uploaded, matched, excluded or cleared elsewhere.
\<close>

theorem closed_session_locked:
  assumes "bank_wf s" and "closed_in s i" and "list_all (\<lambda>c. \<not> reopens c i) cs"
  shows "session_view (fold bank_exec cs s) i = session_view s i"
  using assms by (rule locked_run)

text \<open>
  C39: Importing the same statement again stores nothing, when every line has an external identifier or a description
  that is its own normal form up to case and an amount of at most four decimals.  A line without identifier whose
  description has punctuation is not recognised.
\<close>

theorem reupload_stores_nothing:
  assumes "upload_lines E l a cur lines s = Inr c" and "list_all (recognisable_line E) lines"
  shows "\<exists>c'. upload_lines E l a cur lines (uc_db c) = Inr c' \<and> uc_count c' = 0 \<and> uc_db c' = uc_db c"
proof -
  from upload_fold_deals [OF assms(1) [unfolded upload_lines_def] assms(2)]
  have "list_all (dealt_with E a cur (bank_lines (uc_db c))) lines" by simp
  with upload_fold_dealt [of E a cur "\<lparr>uc_db = uc_db c, uc_count = 0, uc_duplicates = 0, uc_errors = []\<rparr>" lines l]
  show ?thesis by (auto simp: upload_lines_def)
qed

text \<open>
  Of a statement in the MT940 format with one reference field, however many entries it has, an upload stores at
  most one line: all entries get the statement's reference as their external identifier and count as duplicates.
\<close>

theorem mt940_upload_stores_one:
  assumes "Rust_Split.str_lines text = first # rest" and "starts_with '':20:'' (trim_end first)"
    and "list_all (\<lambda>x. \<not> starts_with '':20:'' (trim_end x)) rest"
    and "mt_statement E text = Inr ls" and "upload_lines E l a cur (map StmtLine ls) s = Inr c"
  shows "uc_count c \<le> 1"
  using mt_statement_reference [OF assms(1-4)] assms(5) by (rule upload_same_reference)

text \<open>
  C40: Applying rules to booked transactions changes nothing but the accounts of postings, and only in transactions of
  the ledger whose year is not closed; the debits and credits of every transaction stay the same.
\<close>

theorem retroactive_rules_keep_totals:
  assumes "apply_rules E rx u l ts m s = (ans, s')"
  shows "transactions (bcore s') = transactions (bcore s) \<and> bare_postings (bcore s') = bare_postings (bcore s)
    \<and> debit_sum (postings_of (bcore s') i) = debit_sum (postings_of (bcore s) i)
    \<and> credit_sum (postings_of (bcore s') i) = credit_sum (postings_of (bcore s) i)
    \<and> (\<forall>n < length (postings (bcore s)). p_account (postings (bcore s') ! n) \<noteq> p_account (postings (bcore s) ! n)
         \<longrightarrow> may_recategorize (bcore s) l (p_txn (postings (bcore s) ! n)))"
proof -
  have m: "moved (may_recategorize (bcore s) l) (bcore s) (bcore s')" using apply_rules_moved [of s l E rx u ts m] assms by simp
  then have b: "bare_postings (bcore s') = bare_postings (bcore s)" by (simp add: moved_def)
  from m sum_bare [OF b [unfolded bare_postings_def], of i] b show ?thesis
    by (auto simp: moved_def postings_of_def list_all2_conv_all_nth)
qed

section \<open>Witnesses\<close>

definition sample_bank_core :: db where
  "sample_bank_core = empty_db\<lparr>
     ledgers := [\<lparr>l_id = 1, l_owner = 9, l_name = ''Books'', l_base_currency = ''EUR'', l_basis = ''accrual'',
                  l_append_only = False, l_threshold = None\<rparr>],
     accounts := [\<lparr>a_id = 2, a_ledger = 1, a_name = ''Bank'', a_code = None, a_type = ''ASSET'', a_subtype = ''CURRENT_ASSET'',
                   a_currency = ''EUR'', a_archived = False\<rparr>,
                  \<lparr>a_id = 3, a_ledger = 1, a_name = ''Misc'', a_code = None, a_type = ''EXPENSE'', a_subtype = ''OPERATING_EXPENSE'',
                   a_currency = ''EUR'', a_archived = False\<rparr>,
                  \<lparr>a_id = 4, a_ledger = 1, a_name = ''Rent'', a_code = None, a_type = ''EXPENSE'', a_subtype = ''OPERATING_EXPENSE'',
                   a_currency = ''EUR'', a_archived = False\<rparr>],
     transactions := [\<lparr>t_id = 5, t_ledger = 1, t_date = Date 2026 3 1, t_description = ''rent'', t_payee = None, t_reference = None,
                   t_currency = ''EUR'', t_kind = ''standard'', t_created_by = 9, t_created_at = 0, t_reverses = None, t_number = None\<rparr>],
     postings := [\<lparr>p_id = 6, p_txn = 5, p_account = 3, p_amount = 40, p_direction = ''DEBIT'', p_memo = None, p_foreign_amount = None,
                   p_foreign_currency = None, p_cost_center = None, p_project = None\<rparr>,
                  \<lparr>p_id = 7, p_txn = 5, p_account = 2, p_amount = 40, p_direction = ''CREDIT'', p_memo = None, p_foreign_amount = None,
                   p_foreign_currency = None, p_cost_center = None, p_project = None\<rparr>]\<rparr>"

definition sample_line :: bank_line where
  "sample_line = \<lparr>bl_id = 11, bl_ledger = 1, bl_account = 2, bl_date = Date 2026 3 1, bl_description = Some ''rent'', bl_amount = - 40,
     bl_check = None, bl_status = ''unmatched'', bl_matched = None, bl_created = 0, bl_external = None\<rparr>"

definition sample_session :: rec_session where
  "sample_session = \<lparr>rs_id = 12, rs_ledger = 1, rs_account = 2, rs_close_date = Date 2026 3 31, rs_close_balance = 60, rs_opening = 100,
     rs_status = ''open'', rs_created_by = 9, rs_closed_by = None, rs_closed_at = None\<rparr>"

definition sample_bank :: bdb where
  "sample_bank = \<lparr>bcore = sample_bank_core, bank_lines = [sample_line], rec_sessions = [sample_session], rec_lines = [],
     reconciliations = [], payee_aliases = [],
     recon_rules = [\<lparr>rr_id = 13, rr_ledger = 1, rr_name = ''rent'', rr_kind = ''categorize'', rr_priority = 1,
        rr_predicate = JObj [], rr_action = JObj [(''gl_account_id'', JStr ''4'')], rr_active = True\<rparr>], reconciled = []\<rparr>"

definition closing_requests :: "bank_command list" where
  "closing_requests = [ClearLine sample_env (Some 9) 1 2 12 11 (Some ''yes''), Finish sample_env (\<lambda>_. []) (Some 9) 1 2 12]"

lemma sample_bank_inv: "bank_inv sample_bank"
  by (simp add: bank_inv_def bank_wf_def sample_bank_def sample_session_def sample_line_def)

lemma sample_bank_closes:
  "rec_sessions (fold bank_exec closing_requests sample_bank)
     = [sample_session\<lparr>rs_status := ''closed'', rs_closed_at := Some 100, rs_closed_by := Some 9\<rparr>]"
  by (simp add: closing_requests_def sample_bank_def sample_bank_core_def sample_session_def sample_line_def clear_def clear_request_def
      sign_in_def ensure_owner_def load_session_def confirm_given_def trim_def is_ws_def upsert_cleared_def finish_def finish_request_def
      validate_finish_def compute_difference_def cleared_sum_def cleared_amounts_def set_session_def sample_env_def empty_db_def)

theorem closed_sessions_tie_out_witness:
  "bank_inv sample_bank \<and> compute_difference 100 (cleared_sum (fold bank_exec closing_requests sample_bank) 12) 60 = 0"
  using closed_sessions_tie_out [OF sample_bank_inv, of "sample_session\<lparr>rs_status := ''closed'', rs_closed_at := Some 100, rs_closed_by := Some 9\<rparr>"
      closing_requests] sample_bank_inv
  by (simp add: sample_bank_closes) (simp add: sample_session_def)

theorem closed_session_locked_witness:
  "session_view (fold bank_exec [UnclearLine (Some 9) 1 2 12 11, ExcludeLine (Some 9) 1 11] (fold bank_exec closing_requests sample_bank)) 12
     = session_view (fold bank_exec closing_requests sample_bank) 12
   \<and> closed_in (fold bank_exec closing_requests sample_bank) 12"
proof -
  have "bank_inv (fold bank_exec closing_requests sample_bank)"
    by (rule banking.run_inv [OF sample_bank_inv]) (simp add: list_all_iff)
  then have wf: "bank_wf (fold bank_exec closing_requests sample_bank)" by (simp add: bank_inv_def)
  have cl: "closed_in (fold bank_exec closing_requests sample_bank) 12" by (simp add: closed_in_def sample_bank_closes sample_session_def)
  show ?thesis
    using closed_session_locked [OF wf cl, of "[UnclearLine (Some 9) 1 2 12 11, ExcludeLine (Some 9) 1 11]"] cl by (simp add: reopens_def)
qed

definition sample_card :: raw_line where
  "sample_card = StmtLine \<lparr>sl_date = Date 2026 3 2, sl_amount = 5, sl_payee = ''Cafe, Main St.'', sl_memo = None,
     sl_external_id = Some ''A1'', sl_currency = None\<rparr>"

lemmas sample_upload_simps = upload_lines_def upload_step_def row_of_def check_currency_def is_duplicate_def insert_bank_line_def
  draw_def Let_def sample_bank_def sample_bank_core_def empty_db_def ledger_of_def account_exists_def upload_line_def sample_line_def sample_env_def

lemma sample_upload_runs: "\<exists>c. upload_lines sample_env 1 2 ''EUR'' [sample_card] sample_bank = Inr c \<and> uc_count c = 1"
proof -
  have "numeric_col 20 4 5 = Some 5" by (rule numeric_col_exact) (simp_all add: on_grid_def)
  then show ?thesis by (simp add: sample_upload_simps sample_card_def)
qed

theorem reupload_stores_nothing_witness:
  "\<exists>c c'. upload_lines sample_env 1 2 ''EUR'' [sample_card] sample_bank = Inr c \<and> uc_count c = 1
     \<and> upload_lines sample_env 1 2 ''EUR'' [sample_card] (uc_db c) = Inr c' \<and> uc_count c' = 0 \<and> uc_db c' = uc_db c"
proof -
  from sample_upload_runs obtain c where c: "upload_lines sample_env 1 2 ''EUR'' [sample_card] sample_bank = Inr c" "uc_count c = 1" by blast
  have "list_all (recognisable_line sample_env) [sample_card]"
    by (simp add: recognisable_line_def row_of_def sample_card_def recognisable_def)
  from reupload_stores_nothing [OF c(1) this] c show ?thesis by blast
qed

definition sample_mt940 :: string where
  "sample_mt940 = '':20:R'' @ [CHR 0x0A] @ '':61:2603050305C1,00'' @ [CHR 0x0A] @ '':61:2603060306C2,00''"

definition sample_decimals :: env where
  "sample_decimals = sample_env\<lparr>parse_dec := (\<lambda>t. if t = ''1.00'' then Some 1 else if t = ''2.00'' then Some 2 else None)\<rparr>"

definition sample_entry :: "date \<Rightarrow> decimal \<Rightarrow> statement_line" where
  "sample_entry d x = \<lparr>sl_date = d, sl_amount = x, sl_payee = ''(unnamed)'', sl_memo = None, sl_external_id = Some ''R'', sl_currency = None\<rparr>"

lemma sample_mt940_lines: "Rust_Split.str_lines sample_mt940 = ['':20:R'', '':61:2603050305C1,00'', '':61:2603060306C2,00'']"
  by code_simp

lemma sample_trims:
  "trim_end '':20:R'' = '':20:R''" "trim_end '':61:2603050305C1,00'' = '':61:2603050305C1,00''"
  "trim_end '':61:2603060306C2,00'' = '':61:2603060306C2,00''" "trim ''R'' = ''R''"
  by code_simp+

lemma sample_tags:
  "trim_start_matches '':20:'' '':20:R'' = ''R''" "trim_start_matches '':61:'' '':61:2603050305C1,00'' = ''2603050305C1,00''"
  "trim_start_matches '':61:'' '':61:2603060306C2,00'' = ''2603060306C2,00''"
  by (simp_all add: trim_start_matches.simps [of "'':20:''"] trim_start_matches.simps [of "'':61:''"] starts_with_def)

lemma sample_numbers:
  "parse_i32 ''26'' = Some 26" "parse_u32 ''03'' = Some 3" "parse_u32 ''05'' = Some 5" "parse_u32 ''06'' = Some 6"
  "from_ymd_opt 2026 3 5 = Some (Date 2026 3 5)" "from_ymd_opt 2026 3 6 = Some (Date 2026 3 6)"
  by (simp_all add: parse_i32_def parse_u32_def digits_val_def digit_val_def is_digit_def from_ymd_opt_def valid_date_def month_len_def)

lemma sample_61:
  "parse_61 sample_decimals '':61:2603050305C1,00'' = Inr (Date 2026 3 5, 1)"
  "parse_61 sample_decimals '':61:2603060306C2,00'' = Inr (Date 2026 3 6, 2)"
  by (simp_all add: parse_61_def sample_tags i32_of_def sample_numbers is_digit_def replace_char_def sample_decimals_def)

lemma sample_mt940_parsed:
  "mt_statement sample_decimals sample_mt940 = Inr [sample_entry (Date 2026 3 5) 1, sample_entry (Date 2026 3 6) 2]"
  by (simp add: mt_statement_def sample_mt940_lines mt_statement_line_def sample_trims sample_tags sample_61 starts_with_def
      mt_flush_def mt_line_of_def sample_entry_def)

lemma sample_mt940_uploads:
  "\<exists>c. upload_lines sample_decimals 1 2 ''EUR'' (map StmtLine [sample_entry (Date 2026 3 5) 1, sample_entry (Date 2026 3 6) 2]) sample_bank = Inr c"
proof -
  have "numeric_col 20 4 1 = Some 1" by (rule numeric_col_exact) (simp_all add: on_grid_def)
  then show ?thesis by (simp add: sample_upload_simps sample_entry_def sample_decimals_def)
qed

theorem mt940_upload_stores_one_witness:
  "\<exists>ls c. mt_statement sample_decimals sample_mt940 = Inr ls \<and> length ls = 2
     \<and> upload_lines sample_decimals 1 2 ''EUR'' (map StmtLine ls) sample_bank = Inr c \<and> uc_count c \<le> 1"
proof -
  from sample_mt940_uploads obtain c where
    c: "upload_lines sample_decimals 1 2 ''EUR'' (map StmtLine [sample_entry (Date 2026 3 5) 1, sample_entry (Date 2026 3 6) 2]) sample_bank = Inr c" by blast
  have "starts_with '':20:'' (trim_end '':20:R'')"
    "list_all (\<lambda>x. \<not> starts_with '':20:'' (trim_end x)) ['':61:2603050305C1,00'', '':61:2603060306C2,00'']" by code_simp+
  from mt940_upload_stores_one [OF sample_mt940_lines this sample_mt940_parsed c] sample_mt940_parsed c show ?thesis by fastforce
qed

definition sample_uuids :: env where
  "sample_uuids = sample_env\<lparr>parse_uuid := (\<lambda>t. if t = ''4'' then Some 4 else if t = ''5'' then Some 5 else None)\<rparr>"

definition sample_applied :: "(app_error + apply_answer) \<times> bdb" where
  "sample_applied = apply_rules sample_uuids (\<lambda>_. None) (Some 9) 1 [''5''] ''apply'' sample_bank"

lemma sample_applied_account: "p_account (postings (bcore (snd sample_applied)) ! 0) = 4"
proof -
  have n: "numeric_col 20 4 40 = Some 40" by (rule numeric_col_exact) (simp_all add: on_grid_def)
  have tr: "trim ''5'' = ''5''" by code_simp
  show ?thesis
    by (simp add: sample_applied_def apply_rules_def List.map_filter_def tr sample_uuids_def sign_in_def ensure_owner_def in_closed_year_def
        rule_diff_def first_match_def categorize_rules_def evaluate_predicate_def holds_if_def applied_action_from_def
        category_account_def rule_account_type_def postings_of_def recategorize_def account_exists_def check_posting_balance_def
        debit_sum_def credit_sum_def is_debit_def is_credit_def n blog_def Let_def
        sample_bank_def sample_bank_core_def empty_db_def sample_env_def)
qed

theorem retroactive_rules_keep_totals_witness:
  "p_account (postings (bcore (snd sample_applied)) ! 0) = 4
   \<and> debit_sum (postings_of (bcore (snd sample_applied)) 5) = debit_sum (postings_of (bcore sample_bank) 5)"
proof -
  have "apply_rules sample_uuids (\<lambda>_. None) (Some 9) 1 [''5''] ''apply'' sample_bank = (fst sample_applied, snd sample_applied)"
    by (simp only: sample_applied_def prod.collapse)
  from retroactive_rules_keep_totals [OF this, of 5] sample_applied_account show ?thesis by blast
qed

end
