(* ===== verification/Transaction_Entry.thy ===== *)
theory Transaction_Entry
  imports Reconciliation Posting_Batches
begin

text \<open>
  Entering and correcting transactions over HTTP: the entry form with its tax legs and the override of a closed
  period (\<^verbatim>\<open>src/src/handlers/transactions.rs\<close>), reversal and edit (\<^verbatim>\<open>src/src/handlers/transactions_edit.rs\<close>), drafts
  (\<^verbatim>\<open>src/src/handlers/transactions_draft.rs\<close>), transfers between ledgers (\<^verbatim>\<open>src/src/handlers/transfers.rs\<close>), bulk
  actions (\<^verbatim>\<open>src/src/handlers/transactions_bulk.rs\<close>) and the attachment of documents
  (\<^verbatim>\<open>src/src/handlers/documents.rs\<close>).

  The tables of these handlers stand beside the books in \<open>tdb\<close>; \<^verbatim>\<open>transactions.contact_id\<close> is the map
  \<open>txn_contact\<close>.  A form is the list of its fields in the iteration order of the \<^verbatim>\<open>HashMap\<close>, which is not
  determined: no result below assumes one.  Arguments stand for what the handlers get from elsewhere: \<open>body\<close> is the
  request body as the form and multipart crates read it, \<open>order\<close> the iteration order of a \<^verbatim>\<open>HashMap\<close> of accounts,
  \<open>store\<close> the storage back end, \<open>infer\<close> the content sniffer, \<open>uuid_text\<close> and \<open>display\<close> the printed form of an
  identifier and of a posting error.  A form error is the constructor of its message; rendering is left out, and a dash in a message is written as a hyphen.
\<close>

section \<open>Tables\<close>

record tax_rate_row =
  tr_id :: uuid
  tr_ledger :: uuid
  tr_name :: string
  tr_rate :: decimal
  tr_account :: uuid
  tr_active :: bool

record tag_row =
  tg_id :: uuid
  tg_ledger :: uuid
  tg_name :: string

record contact_row =
  co_id :: uuid
  co_ledger :: uuid

record transfer_row =
  tf_id :: uuid
  tf_from_ledger :: uuid
  tf_to_ledger :: uuid
  tf_from_account :: uuid
  tf_to_account :: uuid
  tf_amount :: decimal
  tf_currency :: string
  tf_from_txn :: uuid
  tf_to_txn :: uuid
  tf_fee :: decimal
  tf_fee_account :: "uuid option"
  tf_description :: string

record document_row =
  dc_id :: uuid
  dc_txn :: "uuid option"
  dc_ledger :: uuid
  dc_filename :: string
  dc_stored :: string
  dc_mime :: string
  dc_size :: nat
  dc_by :: uuid

record tdb =
  tcore :: db
  tax_rates :: "tax_rate_row list"
  tags :: "tag_row list"
  txn_tags :: "(uuid \<times> uuid) list"
  contacts :: "contact_row list"
  txn_contact :: "uuid \<Rightarrow> uuid option"
  transfers :: "transfer_row list"
  documents :: "document_row list"

definition tlog :: "env \<Rightarrow> uuid \<Rightarrow> uuid \<Rightarrow> string \<Rightarrow> string \<Rightarrow> uuid option \<Rightarrow> json option \<Rightarrow> json option \<Rightarrow> tdb \<Rightarrow> tdb" where
  "tlog E ledger_id user_id action entity i old new s =
     s\<lparr>tcore := audit_log E (Some ledger_id) user_id action entity i old new (tcore s)\<rparr>"

definition insert_document :: "env \<Rightarrow> document_row \<Rightarrow> (tdb, db_error, uuid) tx" where
  "insert_document E r s =
     (let (i, db1) = draw E (tcore s) in
      if list_ex (\<lambda>d. dc_id d = i) (documents s) then Inl (UniqueViolation ''documents_pkey'')
      else if (case dc_txn r of None \<Rightarrow> False | Some t \<Rightarrow> txn_of (tcore s) t = None)
        then Inl (ForeignKeyViolation ''documents_transaction_id_fkey'')
      else if ledger_of (tcore s) (dc_ledger r) = None then Inl (ForeignKeyViolation ''documents_ledger_id_fkey'')
      else Inr (i, s\<lparr>tcore := db1, documents := documents s @ [r\<lparr>dc_id := i\<rparr>]\<rparr>))"

definition insert_transfer :: "env \<Rightarrow> transfer_row \<Rightarrow> (tdb, db_error, uuid) tx" where
  "insert_transfer E r s =
     (case (numeric_col 20 4 (tf_amount r), numeric_col 20 4 (tf_fee r), char3 (tf_currency r)) of
        (Some a, Some f, Some c) \<Rightarrow>
          (let (i, db1) = draw E (tcore s) in
           if list_ex (\<lambda>x. tf_id x = i) (transfers s) then Inl (UniqueViolation ''inter_ledger_transfers_pkey'')
           else if a \<le> 0 then Inl (CheckViolation ''inter_ledger_transfers_amount_check'')
           else if f < 0 then Inl (CheckViolation ''inter_ledger_transfers_fee_amount_check'')
           else if tf_from_ledger r = tf_to_ledger r then Inl (CheckViolation ''inter_ledger_transfers_check'')
           else if tf_from_txn r = tf_to_txn r then Inl (CheckViolation ''inter_ledger_transfers_check1'')
           else if ledger_of (tcore s) (tf_from_ledger r) = None
             then Inl (ForeignKeyViolation ''inter_ledger_transfers_from_ledger_id_fkey'')
           else if ledger_of (tcore s) (tf_to_ledger r) = None
             then Inl (ForeignKeyViolation ''inter_ledger_transfers_to_ledger_id_fkey'')
           else if \<not> account_exists (tcore s) (tf_from_account r)
             then Inl (ForeignKeyViolation ''inter_ledger_transfers_from_account_id_fkey'')
           else if \<not> account_exists (tcore s) (tf_to_account r)
             then Inl (ForeignKeyViolation ''inter_ledger_transfers_to_account_id_fkey'')
           else if txn_of (tcore s) (tf_from_txn r) = None
             then Inl (ForeignKeyViolation ''inter_ledger_transfers_from_txn_id_fkey'')
           else if txn_of (tcore s) (tf_to_txn r) = None
             then Inl (ForeignKeyViolation ''inter_ledger_transfers_to_txn_id_fkey'')
           else if (case tf_fee_account r of None \<Rightarrow> False | Some x \<Rightarrow> \<not> account_exists (tcore s) x)
             then Inl (ForeignKeyViolation ''inter_ledger_transfers_fee_account_id_fkey'')
           else Inr (i, s\<lparr>tcore := db1,
                  transfers := transfers s @ [r\<lparr>tf_id := i, tf_amount := a, tf_fee := f, tf_currency := c\<rparr>]\<rparr>))
      | (None, _, _) \<Rightarrow> Inl NumericOverflow
      | (_, None, _) \<Rightarrow> Inl NumericOverflow
      | _ \<Rightarrow> Inl StringTooLong)"

section \<open>The lines of a form\<close>

record parsed_line =
  pl_account_id :: string
  pl_direction :: string
  pl_amount :: string
  pl_memo :: string
  pl_tax_rate_id :: string
  pl_cost_center_id :: string
  pl_project_id :: string

definition default_line :: parsed_line where
  "default_line = \<lparr>pl_account_id = [], pl_direction = [], pl_amount = [], pl_memo = [], pl_tax_rate_id = [],
                   pl_cost_center_id = [], pl_project_id = []\<rparr>"

text \<open>\<^verbatim>\<open>str::parse::<usize>()\<close>: an optional plus sign, at least one digit, below \<open>2 ^ 64\<close>.\<close>

definition parse_usize :: "string \<Rightarrow> nat option" where
  "parse_usize s =
     (let ds = (case s of [] \<Rightarrow> [] | c # cs \<Rightarrow> if c = CHR ''+'' then cs else s)
      in if ds \<noteq> [] \<and> list_all is_digit ds \<and> int (digits_val ds) < 2 ^ 64 then Some (digits_val ds) else None)"

definition trim_end_matches :: "char \<Rightarrow> string \<Rightarrow> string" where
  "trim_end_matches c s = rev (dropWhile (\<lambda>x. x = c) (rev s))"

text \<open>\<^verbatim>\<open>lines[N][field]\<close> as its number and field.\<close>

definition line_key :: "string \<Rightarrow> (nat \<times> string) option" where
  "line_key key =
     (if \<not> starts_with ''lines['' key then None
      else let after = drop 6 key in
           case str_find '']['' after of
             None \<Rightarrow> None
           | Some close \<Rightarrow>
               map_option (\<lambda>idx. (idx, trim_end_matches (CHR '']'') (drop (close + 2) after)))
                 (parse_usize (List.take close after)))"

definition set_field :: "string \<Rightarrow> string \<Rightarrow> parsed_line \<Rightarrow> parsed_line" where
  "set_field field value e =
     (if field = ''account_id'' then e\<lparr>pl_account_id := value\<rparr>
      else if field = ''direction'' then e\<lparr>pl_direction := value\<rparr>
      else if field = ''amount'' then e\<lparr>pl_amount := value\<rparr>
      else if field = ''memo'' then e\<lparr>pl_memo := value\<rparr>
      else if field = ''tax_rate_id'' then e\<lparr>pl_tax_rate_id := value\<rparr>
      else if field = ''cost_center_id'' then e\<lparr>pl_cost_center_id := value\<rparr>
      else if field = ''project_id'' then e\<lparr>pl_project_id := value\<rparr>
      else e)"

text \<open>\<^verbatim>\<open>by_index.entry(idx).or_default()\<close> on a \<^verbatim>\<open>BTreeMap\<close>, an association list sorted by its keys.\<close>

fun bt_entry :: "nat \<Rightarrow> ('a \<Rightarrow> 'a) \<Rightarrow> 'a \<Rightarrow> (nat \<times> 'a) list \<Rightarrow> (nat \<times> 'a) list" where
  "bt_entry k f d [] = [(k, f d)]"
| "bt_entry k f d ((j, x) # m) =
     (if k < j then (k, f d) # (j, x) # m else if k = j then (j, f x) # m else (j, x) # bt_entry k f d m)"

definition parse_field :: "string \<times> string \<Rightarrow> (nat \<times> parsed_line) list \<Rightarrow> (nat \<times> parsed_line) list" where
  "parse_field kv by_index =
     (case line_key (fst kv) of
        None \<Rightarrow> by_index
      | Some (idx, field) \<Rightarrow> bt_entry idx (set_field field (snd kv)) default_line by_index)"

definition parse_lines :: "(string \<times> string) list \<Rightarrow> parsed_line list" where
  "parse_lines raw = map snd (fold parse_field raw [])"

definition parse_line_dimension :: "env \<Rightarrow> string \<Rightarrow> string \<Rightarrow> app_error + uuid option" where
  "parse_line_dimension E raw what =
     (let s = trim raw in
      if s = [] then Inr None
      else (case parse_uuid E s of
              Some i \<Rightarrow> Inr (Some i)
            | None \<Rightarrow> Inl (Validation (''Invalid '' @ what @ '' on a posting''))))"

section \<open>The entry form\<close>

datatype form_error =
    TooFewPostings
  | InvalidDate
  | DescriptionRequired
  | InvalidAccount
  | AmountNotPositive
  | DirectionInvalid
  | InvalidTaxRate
  | WithinOneAccount string
  | UnknownTaxRate
  | NotBalanced decimal
  | ServiceUnbalanced decimal decimal
  | NoFxRate fx_error

datatype entry_page = ErrorPage form_error | Posted uuid | Drafts

text \<open>A handler leaves its validation with the form page again or with an error of the HTTP layer.\<close>

datatype entry_stop = Page form_error | Fail app_error

definition entry_direction :: "string \<Rightarrow> entry_stop + direction" where
  "entry_direction s =
     (if s = ''DEBIT'' then Inr Debit else if s = ''CREDIT'' then Inr Credit else Inl (Page DirectionInvalid))"

definition entry_line :: "env \<Rightarrow> parsed_line \<Rightarrow> entry_stop + txn_line" where
  "entry_line E l =
     rbind (ok_or (Page InvalidAccount) (parse_uuid E (pl_account_id l))) (\<lambda>account_id.
     rbind (case parse_dec E (trim (pl_amount l)) of
              Some a \<Rightarrow> if 0 < a then Inr a else Inl (Page AmountNotPositive)
            | None \<Rightarrow> Inl (Page AmountNotPositive)) (\<lambda>amount.
     rbind (entry_direction (pl_direction l)) (\<lambda>direction.
     rbind (if trim (pl_tax_rate_id l) = [] then Inr None
            else (case parse_uuid E (trim (pl_tax_rate_id l)) of
                    Some i \<Rightarrow> Inr (Some i)
                  | None \<Rightarrow> Inl (Page InvalidTaxRate))) (\<lambda>tax_rate_id.
     rbind (map_err Fail (parse_line_dimension E (pl_cost_center_id l) ''cost center'')) (\<lambda>cost_center_id.
     rbind (map_err Fail (parse_line_dimension E (pl_project_id l) ''project'')) (\<lambda>project_id.
     Inr \<lparr>n_account_id = account_id,
          n_signed_amount = (case direction of Debit \<Rightarrow> amount | Credit \<Rightarrow> - amount),
          n_memo = (if pl_memo l = [] then None else Some (pl_memo l)),
          n_tax_rate_id = tax_rate_id, n_foreign = None,
          n_cost_center_id = cost_center_id, n_project_id = project_id\<rparr>))))))"

text \<open>The loop over the lines, in either handler.\<close>

definition try_lines :: "('a \<Rightarrow> 'e + txn_line) \<Rightarrow> 'a list \<Rightarrow> 'e + txn_line list" where
  "try_lines f ls = try_fold (\<lambda>inputs l. rbind (f l) (\<lambda>i. Inr (inputs @ [i]))) [] ls"

definition both_sides :: "txn_line list \<Rightarrow> uuid \<Rightarrow> bool" where
  "both_sides inputs a \<longleftrightarrow>
     list_ex (\<lambda>i. n_account_id i = a \<and> 0 \<le> n_signed_amount i) inputs
   \<and> list_ex (\<lambda>i. n_account_id i = a \<and> n_signed_amount i < 0) inputs"

definition account_label :: "account_row list \<Rightarrow> uuid \<Rightarrow> string" where
  "account_label accts i =
     (case find (\<lambda>a. a_id a = i) accts of Some a \<Rightarrow> a_name a | None \<Rightarrow> ''this account'')"

definition same_account_check ::
  "(uuid list \<Rightarrow> uuid list) \<Rightarrow> account_row list \<Rightarrow> txn_line list \<Rightarrow> entry_stop + unit" where
  "same_account_check order accts inputs =
     (case find (both_sides inputs) (order (remdups (map n_account_id inputs))) of
        Some a \<Rightarrow> Inl (Page (WithinOneAccount (account_label accts a)))
      | None \<Rightarrow> Inr ())"

text \<open>The active rates of the ledger; their order only shows in the picker.\<close>

definition load_active_tax_rates :: "tdb \<Rightarrow> uuid \<Rightarrow> tax_rate_row list" where
  "load_active_tax_rates s ledger_id = filter (\<lambda>r. tr_ledger r = ledger_id \<and> tr_active r) (tax_rates s)"

definition taxed_lines :: "txn_line list \<Rightarrow> (nat \<times> uuid) list" where
  "taxed_lines inputs = List.map_filter (\<lambda>(i, l). map_option (\<lambda>r. (i, r)) (n_tax_rate_id l)) (enumerate 0 inputs)"

definition tax_leg :: "env \<Rightarrow> tax_rate_row \<Rightarrow> txn_line \<Rightarrow> txn_line" where
  "tax_leg E rate l =
     (let tax_amount = round_dp E 2 (\<bar>n_signed_amount l\<bar> * tr_rate rate) in
      \<lparr>n_account_id = tr_account rate, n_signed_amount = (if 0 \<le> n_signed_amount l then tax_amount else - tax_amount),
       n_memo = Some (tr_name rate @ '' tax''), n_tax_rate_id = None, n_foreign = None,
       n_cost_center_id = None, n_project_id = None\<rparr>)"

definition expand_tax ::
  "env \<Rightarrow> tax_rate_row list \<Rightarrow> txn_line list \<times> tax_link list \<Rightarrow> nat \<times> uuid \<Rightarrow> entry_stop + txn_line list \<times> tax_link list" where
  "expand_tax E rates acc t =
     (let (inputs, links) = acc; (i, rate_id) = t in
      case find (\<lambda>r. tr_id r = rate_id) rates of
        None \<Rightarrow> Inl (Page UnknownTaxRate)
      | Some rate \<Rightarrow>
          Inr (inputs @ [tax_leg E rate (inputs ! i)],
               links @ [\<lparr>k_posting_idx = i, k_tax_rate_id = rate_id, k_base_amount = \<bar>n_signed_amount (inputs ! i)\<bar>,
                         k_tax_amount = round_dp E 2 (\<bar>n_signed_amount (inputs ! i)\<bar> * tr_rate rate)\<rparr>]))"

definition form_text :: "(string \<times> string) list \<Rightarrow> string \<Rightarrow> string" where
  "form_text raw k = (case map_of raw k of Some v \<Rightarrow> v | None \<Rightarrow> [])"

text \<open>\<^verbatim>\<open>.map(str::trim).filter(|s| !s.is_empty())\<close>.\<close>

definition trimmed_field :: "string option \<Rightarrow> string option" where
  "trimmed_field v = (case v of Some t \<Rightarrow> if trim t = [] then None else Some (trim t) | None \<Rightarrow> None)"

definition nonempty_field :: "string option \<Rightarrow> string option" where
  "nonempty_field v = (case v of Some t \<Rightarrow> if t = [] then None else Some t | None \<Rightarrow> None)"

text \<open>From the form to the request for the posting service: everything the handler validates itself.\<close>

definition entry_request ::
  "env \<Rightarrow> (uuid list \<Rightarrow> uuid list) \<Rightarrow> uuid \<Rightarrow> uuid \<Rightarrow> (string \<times> string) list \<Rightarrow> tdb \<Rightarrow> entry_stop + new_transaction" where
  "entry_request E order user_id ledger_id raw s =
     (let parsed = parse_lines raw;
          accts = filter (\<lambda>a. a_ledger a = ledger_id \<and> \<not> a_archived a) (accounts (tcore s));
          rates = load_active_tax_rates s ledger_id in
      if raw = [] \<or> length parsed < 2 then Inl (Page TooFewPostings)
      else rbind (ok_or (Page InvalidDate) (parse_date E (form_text raw ''date''))) (\<lambda>d.
      if trim (form_text raw ''description'') = [] then Inl (Page DescriptionRequired)
      else rbind (try_lines (entry_line E) parsed) (\<lambda>inputs.
      rbind (same_account_check order accts inputs) (\<lambda>_.
      rbind (try_fold (expand_tax E rates) (inputs, []) (taxed_lines inputs)) (\<lambda>(lines, tax_links).
      let net = sum_list (map n_signed_amount lines) in
      if net \<noteq> 0 then Inl (Page (NotBalanced net))
      else Inr \<lparr>nt_ledger_id = ledger_id, nt_txn_date = d, nt_description = trim (form_text raw ''description''),
                nt_payee = trimmed_field (map_of raw ''payee''),
                nt_reference = trimmed_field (map_of raw ''reference''),
                nt_kind = Some ''standard'', nt_created_by = user_id, nt_lines = lines, nt_reverses_id = None,
                nt_number = nonempty_field (map_of raw ''number''), nt_tax_links = tax_links\<rparr>)))))"

section \<open>Documents\<close>

definition bind_document :: "env \<Rightarrow> uuid \<Rightarrow> uuid \<Rightarrow> uuid \<Rightarrow> uuid \<Rightarrow> tdb \<Rightarrow> app_error + tdb" where
  "bind_document E ledger_id doc_id transaction_id actor s =
     rbind (ok_or NotFound (find (\<lambda>d. dc_id d = doc_id \<and> dc_ledger d = ledger_id \<and> dc_txn d = None) (documents s))) (\<lambda>_.
     rbind (ok_or NotFound (find (\<lambda>t. t_id t = transaction_id \<and> t_ledger t = ledger_id) (transactions (tcore s)))) (\<lambda>_.
     Inr (tlog E ledger_id actor ''bind'' ''document'' (Some doc_id)
            (Some (JObj [(''transaction_id'', JNull)])) (Some (JObj [(''transaction_id'', JUuid transaction_id)]))
            (s\<lparr>documents := map (\<lambda>d. if dc_id d = doc_id then d\<lparr>dc_txn := Some transaction_id\<rparr> else d) (documents s)\<rparr>))))"

definition bind_doc :: "env \<Rightarrow> uuid option \<Rightarrow> uuid \<Rightarrow> uuid \<Rightarrow> uuid \<Rightarrow> tdb \<Rightarrow> (app_error + unit) \<times> tdb" where
  "bind_doc E user ledger_id doc_id transaction_id s =
     (case rbind (signed_in user) (\<lambda>u. rbind (ensure_writer (tcore s) u ledger_id) (\<lambda>_.
             bind_document E ledger_id doc_id transaction_id u s)) of
        Inl e \<Rightarrow> (Inl e, s)
      | Inr s1 \<Rightarrow> (Inr (), s1))"

definition ALLOWED_MIME :: "string list" where
  "ALLOWED_MIME =
     [''image/png'', ''image/jpeg'', ''image/gif'', ''image/webp'', ''image/heic'', ''image/heif'', ''application/pdf'',
      ''text/plain'', ''text/csv'',
      ''application/vnd.openxmlformats-officedocument.spreadsheetml.sheet'',
      ''application/vnd.openxmlformats-officedocument.wordprocessingml.document'',
      ''application/vnd.openxmlformats-officedocument.presentationml.presentation'',
      ''application/vnd.oasis.opendocument.spreadsheet'', ''application/vnd.oasis.opendocument.text'',
      ''application/vnd.oasis.opendocument.presentation'', ''application/zip'']"

text \<open>A file of the request: its name, declared type and content.\<close>

record pending_upload =
  pu_filename :: string
  pu_declared :: string
  pu_bytes :: string

type_synonym storage = "uuid \<Rightarrow> string \<Rightarrow> string \<Rightarrow> app_error + string"

definition save_inline_document ::
  "env \<Rightarrow> (string \<Rightarrow> string option) \<Rightarrow> storage \<Rightarrow> uuid \<Rightarrow> uuid \<Rightarrow> uuid \<Rightarrow> pending_upload \<Rightarrow> tdb \<Rightarrow> app_error + tdb" where
  "save_inline_document E infer store ledger_id txn_id user_id up s =
     rbind (map_err (\<lambda>e. Validation (upload_message e))
              (upload_validate infer (pu_declared up) (Some (pu_filename up)) (pu_bytes up))) (\<lambda>mime.
     if mime \<notin> set ALLOWED_MIME then Inl (Validation (''Unsupported file type: '' @ mime))
     else rbind (store txn_id (pu_filename up) (pu_bytes up)) (\<lambda>stored.
          rbind (map_err AppDb (insert_document E
                   \<lparr>dc_id = 0, dc_txn = Some txn_id, dc_ledger = ledger_id, dc_filename = pu_filename up,
                    dc_stored = stored, dc_mime = mime, dc_size = length (utf8 (pu_bytes up)), dc_by = user_id\<rparr> s)) (\<lambda>(doc_id, s1).
          Inr (tlog E ledger_id user_id ''create'' ''document'' (Some doc_id) None
                 (Some (JObj [(''filename'', JStr (pu_filename up)), (''transaction_id'', JUuid txn_id),
                              (''inline'', JBool True)])) s1))))"

text \<open>A failed attachment is logged and dropped: the transaction is already saved.\<close>

definition or_keep :: "('s \<Rightarrow> 'e + 's) \<Rightarrow> 's \<Rightarrow> 's" where
  "or_keep f s = (case f s of Inl _ \<Rightarrow> s | Inr s' \<Rightarrow> s')"

definition attach_documents ::
  "env \<Rightarrow> (string \<Rightarrow> string option) \<Rightarrow> storage \<Rightarrow> uuid \<Rightarrow> uuid \<Rightarrow> uuid \<Rightarrow> pending_upload list \<Rightarrow> string \<Rightarrow> tdb \<Rightarrow> tdb" where
  "attach_documents E infer store ledger_id txn_id user_id uploads bind_text s =
     (let s1 = fold (\<lambda>up. or_keep (save_inline_document E infer store ledger_id txn_id user_id up)) uploads s in
      case parse_uuid E bind_text of
        None \<Rightarrow> s1
      | Some doc_id \<Rightarrow> or_keep (bind_document E ledger_id doc_id txn_id user_id) s1)"

section \<open>Creating a transaction\<close>

fun posting_failure :: "(uuid \<Rightarrow> string) \<Rightarrow> posting_service_error \<Rightarrow> app_error + entry_page" where
  "posting_failure uuid_text (Unbalanced debits credits) = Inr (ErrorPage (ServiceUnbalanced debits credits))"
| "posting_failure uuid_text (PeriodClosed _ year) =
     Inl (Conflict (''Period '' @ show_int year @ '' is closed. Cannot post transactions to closed periods.''))"
| "posting_failure uuid_text (HardClosed _ w) = Inl (Conflict (''Ledger is closed through '' @ show_date w))"
| "posting_failure uuid_text LedgerNotFound = Inl NotFound"
| "posting_failure uuid_text (UnknownAccount i) = Inl (Validation (''unknown account '' @ uuid_text i))"
| "posting_failure uuid_text (WrongLedger _) = Inl (Validation ''account belongs to a different ledger'')"
| "posting_failure uuid_text (UnknownCostCenter i) = Inl (Validation (''unknown cost center '' @ uuid_text i))"
| "posting_failure uuid_text (UnknownProject i) = Inl (Validation (''unknown project '' @ uuid_text i))"
| "posting_failure uuid_text (DuplicateNumber year number) =
     Inl (Conflict (''Transaction number already used in '' @ show_int year @ '': '' @ number))"
| "posting_failure uuid_text (MissingFxRate e) = Inr (ErrorPage (NoFxRate e))"
| "posting_failure uuid_text SelfApproval = Inl Forbidden"
| "posting_failure uuid_text NotPending = Inl (Validation ''journal is not pending'')"
| "posting_failure uuid_text (Posting_Service.Db e) = Inl (AppDb e)"

text \<open>\<^verbatim>\<open>DELETE FROM closed_periods WHERE ledger_id = $1 AND closed_through >= $2\<close>.\<close>

definition drop_watermarks :: "uuid \<Rightarrow> date \<Rightarrow> db \<Rightarrow> db" where
  "drop_watermarks ledger_id d db =
     db\<lparr>closed_periods := filter (\<lambda>c. \<not> (cp_ledger c = ledger_id
          \<and> (case cp_through c of None \<Rightarrow> False | Some t \<Rightarrow> d \<le> t))) (closed_periods db)\<rparr>"

text \<open>The override: record the reopening, drop the watermarks, post.\<close>

definition override_post ::
  "env \<Rightarrow> (posting_service_error \<Rightarrow> string) \<Rightarrow> date \<Rightarrow> string \<Rightarrow> new_transaction \<Rightarrow> db \<Rightarrow> (app_error + entry_page) \<times> db" where
  "override_post E display w reason new db =
     (case insert_reopen \<lparr>ro_ledger = nt_ledger_id new, ro_through = Some w, ro_by = nt_created_by new, ro_reason = reason\<rparr> db of
        Inl e \<Rightarrow> (Inl (AppDb e), db)
      | Inr db1 \<Rightarrow>
          (let db2 = audit_log E (Some (nt_ledger_id new)) (nt_created_by new) ''override'' ''period'' None None
                       (Some (JObj [(''closed_through'', JDate w), (''reason'', JStr reason),
                                    (''txn_date'', JDate (nt_txn_date new))])) db1;
               db3 = drop_watermarks (nt_ledger_id new) (nt_txn_date new) db2
           in case create E new db3 of
                (Inr c, db4) \<Rightarrow> (Inr (Posted (ct_id c)), db4)
              | (Inl e, db4) \<Rightarrow> (Inl (Internal (''override retry failed: '' @ display e)), db4)))"

definition hard_closed ::
  "env \<Rightarrow> (posting_service_error \<Rightarrow> string) \<Rightarrow> date \<Rightarrow> string option \<Rightarrow> new_transaction \<Rightarrow> db \<Rightarrow> (app_error + entry_page) \<times> db" where
  "hard_closed E display w reason_raw new db =
     (case (case reason_raw of None \<Rightarrow> None
            | Some r \<Rightarrow> (case (validate_reason r, ensure_owner_or_admin db (nt_created_by new) (nt_ledger_id new)) of
                          (Inr reason, Inr _) \<Rightarrow> Some reason
                        | _ \<Rightarrow> None)) of
        Some reason \<Rightarrow> override_post E display w reason new db
      | None \<Rightarrow> (Inl (Conflict (''Ledger is closed through '' @ show_date w @ ''. Cannot post ''
                     @ show_date (nt_txn_date new) @ '' to a closed period.'')), db))"

type_synonym entry_body = "app_error + (string \<times> string) list \<times> pending_upload list"

definition create_entry ::
  "env \<Rightarrow> (uuid \<Rightarrow> string) \<Rightarrow> (posting_service_error \<Rightarrow> string) \<Rightarrow> (uuid list \<Rightarrow> uuid list) \<Rightarrow> (string \<Rightarrow> string option)
   \<Rightarrow> storage \<Rightarrow> uuid option \<Rightarrow> uuid \<Rightarrow> entry_body \<Rightarrow> tdb \<Rightarrow> (app_error + entry_page) \<times> tdb" where
  "create_entry E uuid_text display order infer store user ledger_id body s =
     (case rbind (signed_in user) (\<lambda>u. rbind (ensure_writer (tcore s) u ledger_id) (\<lambda>_. rbind body (\<lambda>b. Inr (u, b)))) of
        Inl e \<Rightarrow> (Inl e, s)
      | Inr (u, raw, uploads) \<Rightarrow>
          (case entry_request E order u ledger_id raw s of
             Inl (Page m) \<Rightarrow> (Inr (ErrorPage m), s)
           | Inl (Fail e) \<Rightarrow> (Inl e, s)
           | Inr new \<Rightarrow>
               (let save_as_draft = (map_of raw ''action'' = Some ''draft'') in
                case (if save_as_draft then create_draft E new (tcore s) else create E new (tcore s)) of
                  (Inl (HardClosed l w), db1) \<Rightarrow>
                    (let (r, db2) = hard_closed E display w (map_of raw ''override_reason'') new db1 in (r, s\<lparr>tcore := db2\<rparr>))
                | (Inl e, db1) \<Rightarrow> (posting_failure uuid_text e, s\<lparr>tcore := db1\<rparr>)
                | (Inr c, db1) \<Rightarrow>
                    (Inr (if save_as_draft then Drafts else Posted (ct_id c)),
                     attach_documents E infer store ledger_id (ct_id c) u uploads (form_text raw ''bind_doc'') (s\<lparr>tcore := db1\<rparr>)))))"

section \<open>Drafts\<close>

fun draft_failure :: "string \<Rightarrow> string \<Rightarrow> (int \<Rightarrow> string) \<Rightarrow> (date \<Rightarrow> string) \<Rightarrow> (fx_error \<Rightarrow> string) \<Rightarrow> posting_service_error \<Rightarrow> app_error" where
  "draft_failure notdraft dup period hard fx (Unbalanced _ _) = Unprocessable notdraft"
| "draft_failure notdraft dup period hard fx (PeriodClosed _ year) = Validation (period year)"
| "draft_failure notdraft dup period hard fx (HardClosed _ w) = Conflict (hard w)"
| "draft_failure notdraft dup period hard fx SelfApproval = Forbidden"
| "draft_failure notdraft dup period hard fx NotPending = Validation ''journal is not pending''"
| "draft_failure notdraft dup period hard fx LedgerNotFound = NotFound"
| "draft_failure notdraft dup period hard fx (UnknownAccount _) = NotFound"
| "draft_failure notdraft dup period hard fx (WrongLedger _) = NotFound"
| "draft_failure notdraft dup period hard fx (UnknownCostCenter _) = NotFound"
| "draft_failure notdraft dup period hard fx (UnknownProject _) = NotFound"
| "draft_failure notdraft dup period hard fx (DuplicateNumber _ _) = Conflict dup"
| "draft_failure notdraft dup period hard fx (MissingFxRate e) = Validation (fx e)"
| "draft_failure notdraft dup period hard fx (Posting_Service.Db e) = AppDb e"

definition post_draft_entry :: "env \<Rightarrow> (fx_error \<Rightarrow> string) \<Rightarrow> uuid option \<Rightarrow> uuid \<Rightarrow> uuid \<Rightarrow> tdb \<Rightarrow> (app_error + unit) \<times> tdb" where
  "post_draft_entry E fx user ledger_id txn_id s =
     (case rbind (signed_in user) (\<lambda>u. rbind (ensure_writer (tcore s) u ledger_id) (\<lambda>_. Inr u)) of
        Inl e \<Rightarrow> (Inl e, s)
      | Inr u \<Rightarrow>
          (case post_draft E ledger_id txn_id u (tcore s) of
             (Inr _, db1) \<Rightarrow> (Inr (), s\<lparr>tcore := db1\<rparr>)
           | (Inl e, db1) \<Rightarrow>
               (Inl (draft_failure ''this is not a draft transaction'' ''promotion would create a duplicate number''
                       (\<lambda>year. ''Period '' @ show_int year @ '' is closed; drafts cannot be promoted into closed periods'')
                       (\<lambda>w. ''Ledger is closed through '' @ show_date w @ ''; drafts cannot be promoted into closed periods'') fx e),
                s\<lparr>tcore := db1\<rparr>)))"

text \<open>Deleting a transaction cascades to its tags, documents and transfer rows.\<close>

definition cascade_txn :: "uuid \<Rightarrow> tdb \<Rightarrow> tdb" where
  "cascade_txn i s =
     s\<lparr>txn_tags := filter (\<lambda>x. fst x \<noteq> i) (txn_tags s),
       txn_contact := (txn_contact s)(i := None),
       transfers := filter (\<lambda>x. tf_from_txn x \<noteq> i \<and> tf_to_txn x \<noteq> i) (transfers s),
       documents := filter (\<lambda>d. dc_txn d \<noteq> Some i) (documents s)\<rparr>"

definition discard_draft :: "env \<Rightarrow> (fx_error \<Rightarrow> string) \<Rightarrow> uuid option \<Rightarrow> uuid \<Rightarrow> uuid \<Rightarrow> tdb \<Rightarrow> (app_error + unit) \<times> tdb" where
  "discard_draft E fx user ledger_id txn_id s =
     (case rbind (signed_in user) (\<lambda>u. rbind (ensure_writer (tcore s) u ledger_id) (\<lambda>_. Inr u)) of
        Inl e \<Rightarrow> (Inl e, s)
      | Inr u \<Rightarrow>
          (case delete_draft E ledger_id txn_id u (tcore s) of
             (Inr _, db1) \<Rightarrow> (Inr (), cascade_txn txn_id (s\<lparr>tcore := db1\<rparr>))
           | (Inl e, db1) \<Rightarrow>
               (Inl (draft_failure ''only draft transactions can be discarded; reverse the original instead''
                       ''discard would conflict'' (\<lambda>_. ''period closed'')
                       (\<lambda>w. ''ledger is closed through '' @ show_date w) fx e),
                s\<lparr>tcore := db1\<rparr>)))"

definition list_drafts :: "uuid option \<Rightarrow> uuid \<Rightarrow> tdb \<Rightarrow> app_error + (uuid \<times> date \<times> string \<times> string \<times> string \<times> decimal) list" where
  "list_drafts user ledger_id s =
     rbind (signed_in user) (\<lambda>u. rbind (ensure_writer (tcore s) u ledger_id) (\<lambda>_.
     Inr (map (\<lambda>t. (t_id t, t_date t, t_description t, t_currency t, (case t_payee t of Some p \<Rightarrow> p | None \<Rightarrow> []),
                    debit_sum (postings_of (tcore s) (t_id t))))
            (rev (sort_key t_date (sort_key t_created_at
               (filter (\<lambda>t. t_ledger t = ledger_id \<and> t_kind t = ''draft'') (transactions (tcore s)))))))))"

section \<open>Reversal and edit\<close>

definition flipped :: "string \<Rightarrow> string" where
  "flipped direction = (if direction = ''DEBIT'' then ''CREDIT'' else ''DEBIT'')"

text \<open>The row of a handler that inserts a transaction without number, contact or template.\<close>

definition bare_txn :: "uuid \<Rightarrow> date \<Rightarrow> string \<Rightarrow> string option \<Rightarrow> string option \<Rightarrow> string \<Rightarrow> string \<Rightarrow> uuid \<Rightarrow> uuid option \<Rightarrow> txn_row" where
  "bare_txn ledger_id d description payee reference currency kind user_id reverses =
     \<lparr>t_id = 0, t_ledger = ledger_id, t_date = d, t_description = description, t_payee = payee, t_reference = reference,
      t_currency = currency, t_kind = kind, t_created_by = user_id, t_created_at = 0, t_reverses = reverses, t_number = None\<rparr>"

definition ledger_currency :: "db \<Rightarrow> uuid \<Rightarrow> db_error + string" where
  "ledger_currency db ledger_id = map_sum id l_base_currency (ok_or RowNotFound (ledger_of db ledger_id))"

definition mirror_posting :: "uuid \<Rightarrow> (string option \<Rightarrow> string option) \<Rightarrow> posting_row \<Rightarrow> posting_row" where
  "mirror_posting txn memo p =
     (plain_posting txn (p_account p) (p_amount p) (flipped (p_direction p)))\<lparr>p_memo := memo (p_memo p)\<rparr>"

definition insert_reversal :: "env \<Rightarrow> uuid \<Rightarrow> uuid \<Rightarrow> uuid \<Rightarrow> string \<Rightarrow> (db, db_error, uuid) tx" where
  "insert_reversal E original_id ledger_id user_id original_description db =
     (let ps = postings_of db original_id in
      rbind (ledger_currency db ledger_id) (\<lambda>currency.
      rbind (insert_transaction E (bare_txn ledger_id (today E) (''Reversal of: '' @ original_description) None None
               currency ''reversing'' user_id (Some original_id)) db) (\<lambda>(reversal_id, db1).
      rbind (add_postings E (map (mirror_posting reversal_id id) ps) db1) (\<lambda>db2.
      Inr (reversal_id, db2)))))"

definition locked_original :: "uuid \<Rightarrow> uuid \<Rightarrow> string \<Rightarrow> db \<Rightarrow> app_error + txn_row" where
  "locked_original ledger_id txn_id refusal db =
     rbind (ok_or NotFound (find (\<lambda>t. t_id t = txn_id \<and> t_ledger t = ledger_id) (transactions db))) (\<lambda>original.
     if t_kind original = ''reversing'' then Inl (Unprocessable refusal) else Inr original)"

definition dates_open :: "uuid \<Rightarrow> date \<Rightarrow> date \<Rightarrow> date \<Rightarrow> string \<Rightarrow> db \<Rightarrow> app_error + unit" where
  "dates_open ledger_id d1 d2 fallback what db =
     (let watermark = closed_through_in_tx db ledger_id in
      if is_closed watermark d1 \<or> is_closed watermark d2
      then Inl (Conflict (''Ledger is closed through '' @ show_date (case watermark of Some w \<Rightarrow> w | None \<Rightarrow> fallback)
                          @ ''. '' @ what @ '' blocked.''))
      else Inr ())"

definition reverse_body :: "env \<Rightarrow> uuid \<Rightarrow> uuid \<Rightarrow> uuid \<Rightarrow> (db, app_error, uuid) tx" where
  "reverse_body E user_id ledger_id txn_id db =
     rbind (locked_original ledger_id txn_id ''Cannot reverse a reversal'' db) (\<lambda>original.
     rbind (dates_open ledger_id (t_date original) (today E) (t_date original) ''Reversal'' db) (\<lambda>_.
     map_err AppDb (insert_reversal E (t_id original) ledger_id user_id (t_description original) db)))"

definition reverse_entry :: "env \<Rightarrow> uuid option \<Rightarrow> uuid \<Rightarrow> uuid \<Rightarrow> tdb \<Rightarrow> (app_error + uuid) \<times> tdb" where
  "reverse_entry E user ledger_id txn_id s =
     (case rbind (signed_in user) (\<lambda>u. rbind (ensure_writer (tcore s) u ledger_id) (\<lambda>_. Inr u)) of
        Inl e \<Rightarrow> (Inl e, s)
      | Inr u \<Rightarrow>
          (case run_tx (reverse_body E u ledger_id txn_id) (tcore s) of
             (Inl e, db1) \<Rightarrow> (Inl e, s\<lparr>tcore := db1\<rparr>)
           | (Inr reversal_id, db1) \<Rightarrow>
               (Inr reversal_id, tlog E ledger_id u ''reverse'' ''transaction'' (Some txn_id) None
                  (Some (JObj [(''reversal_id'', JUuid reversal_id), (''original_id'', JUuid txn_id)])) (s\<lparr>tcore := db1\<rparr>))))"

record edit_form =
  ef_date :: string
  ef_description :: string
  ef_payee :: "string option"
  ef_reference :: "string option"
  ef_extra :: "(string \<times> string) list"

definition edit_line :: "env \<Rightarrow> parsed_line \<Rightarrow> app_error + txn_line" where
  "edit_line E l =
     rbind (ok_or (Validation ''Invalid account on a posting'') (parse_uuid E (pl_account_id l))) (\<lambda>account_id.
     rbind (ok_or (Validation ''Invalid amount'') (parse_dec E (pl_amount l))) (\<lambda>amount.
     rbind (if to_uppercase (pl_direction l) = ''DEBIT'' then Inr amount
            else if to_uppercase (pl_direction l) = ''CREDIT'' then Inr (- amount)
            else Inl (Validation (''Invalid direction: '' @ pl_direction l))) (\<lambda>signed_amount.
     rbind (parse_line_dimension E (pl_cost_center_id l) ''cost center'') (\<lambda>cost_center_id.
     rbind (parse_line_dimension E (pl_project_id l) ''project'') (\<lambda>project_id.
     Inr \<lparr>n_account_id = account_id, n_signed_amount = signed_amount,
          n_memo = (if pl_memo l = [] then None else Some (pl_memo l)), n_tax_rate_id = None, n_foreign = None,
          n_cost_center_id = cost_center_id, n_project_id = project_id\<rparr>)))))"

text \<open>The posting of a line: account, amount, side and memo; the dimensions of the line are not in the statement.\<close>

definition signed_posting :: "uuid \<Rightarrow> txn_line \<Rightarrow> posting_row" where
  "signed_posting txn l =
     (plain_posting txn (n_account_id l) \<bar>n_signed_amount l\<bar> (if 0 \<le> n_signed_amount l then ''DEBIT'' else ''CREDIT''))
       \<lparr>p_memo := n_memo l\<rparr>"

definition edit_request :: "env \<Rightarrow> (uuid \<Rightarrow> string) \<Rightarrow> uuid option \<Rightarrow> uuid \<Rightarrow> edit_form \<Rightarrow> tdb \<Rightarrow> app_error + uuid \<times> date \<times> txn_line list" where
  "edit_request E uuid_text user ledger_id form s =
     rbind (signed_in user) (\<lambda>u.
     rbind (ensure_writer (tcore s) u ledger_id) (\<lambda>ledger.
     if l_append_only ledger
     then Inl (Unprocessable (''ledger '' @ uuid_text ledger_id
            @ '' is append-only; edits are not allowed - reverse the transaction instead''))
     else let parsed = parse_lines (ef_extra form) in
       if length parsed < 2 then Inl (Validation ''A transaction needs at least two postings.'')
       else rbind (ok_or (Validation ''Invalid date format (YYYY-MM-DD)'') (parse_date E (ef_date form))) (\<lambda>d.
       if trim (ef_description form) = [] then Inl (Validation ''Description is required'')
       else rbind (try_lines (edit_line E) parsed) (\<lambda>inputs. Inr (u, d, inputs)))))"

definition edit_body ::
  "env \<Rightarrow> uuid \<Rightarrow> uuid \<Rightarrow> uuid \<Rightarrow> edit_form \<Rightarrow> date \<Rightarrow> txn_line list \<Rightarrow> (db, app_error, uuid \<times> uuid) tx" where
  "edit_body E user_id ledger_id txn_id form d inputs db =
     rbind (locked_original ledger_id txn_id ''Cannot edit a reversal - reverse the original instead'' db) (\<lambda>original.
     rbind (dates_open ledger_id (t_date original) d d ''Edit'' db) (\<lambda>_.
     map_err AppDb (
     rbind (insert_reversal E (t_id original) ledger_id user_id (t_description original) db) (\<lambda>(reversal_id, db1).
     rbind (ledger_currency db1 ledger_id) (\<lambda>currency.
     rbind (insert_transaction E (bare_txn ledger_id d (trim (ef_description form)) (nonempty_field (ef_payee form))
              (nonempty_field (ef_reference form)) currency ''standard'' user_id None) db1) (\<lambda>(corrected_id, db2).
     rbind (add_postings E (map (signed_posting corrected_id) inputs) db2) (\<lambda>db3.
     Inr ((reversal_id, corrected_id), db3))))))))"

definition edit_entry :: "env \<Rightarrow> (uuid \<Rightarrow> string) \<Rightarrow> uuid option \<Rightarrow> uuid \<Rightarrow> uuid \<Rightarrow> edit_form \<Rightarrow> tdb \<Rightarrow> (app_error + uuid \<times> uuid) \<times> tdb" where
  "edit_entry E uuid_text user ledger_id txn_id form s =
     (case edit_request E uuid_text user ledger_id form s of
        Inl e \<Rightarrow> (Inl e, s)
      | Inr (u, d, inputs) \<Rightarrow>
          (case run_tx (edit_body E u ledger_id txn_id form d inputs) (tcore s) of
             (Inl e, db1) \<Rightarrow> (Inl e, s\<lparr>tcore := db1\<rparr>)
           | (Inr (reversal_id, corrected_id), db1) \<Rightarrow>
               (Inr (reversal_id, corrected_id), tlog E ledger_id u ''edit'' ''transaction'' (Some txn_id) None
                  (Some (JObj [(''reversal_id'', JUuid reversal_id), (''corrected_id'', JUuid corrected_id),
                               (''original_id'', JUuid txn_id)])) (s\<lparr>tcore := db1\<rparr>))))"

section \<open>Transfers between ledgers\<close>

record transfer_form =
  xf_from_ledger_id :: uuid
  xf_to_ledger_id :: uuid
  xf_from_account_id :: uuid
  xf_to_account_id :: uuid
  xf_amount :: string
  xf_date :: date
  xf_description :: string
  xf_fee_amount :: "string option"
  xf_fee_account_id :: "uuid option"

definition cash_on_hand :: "db \<Rightarrow> uuid \<Rightarrow> uuid option" where
  "cash_on_hand db ledger_id =
     map_option a_id (find (\<lambda>a. a_ledger a = ledger_id \<and> a_name a = ''Cash on Hand'') (accounts db))"

text \<open>The account of the form against \<^verbatim>\<open>Cash on Hand\<close>, against itself when there is no other.\<close>

definition simple_lines :: "uuid option \<Rightarrow> uuid \<Rightarrow> decimal \<Rightarrow> (uuid \<times> decimal) list" where
  "simple_lines cash account_id amount =
     (case cash of
        Some cash_id \<Rightarrow> if cash_id \<noteq> account_id then [(account_id, amount), (cash_id, - amount)]
                       else [(account_id, amount), (account_id, - amount)]
      | None \<Rightarrow> [(account_id, amount), (account_id, - amount)])"

definition simple_posting :: "uuid \<Rightarrow> uuid \<times> decimal \<Rightarrow> posting_row" where
  "simple_posting txn l = plain_posting txn (fst l) \<bar>snd l\<bar> (if 0 \<le> snd l then ''DEBIT'' else ''CREDIT'')"

definition insert_simple_txn :: "env \<Rightarrow> uuid \<Rightarrow> date \<Rightarrow> string \<Rightarrow> uuid \<Rightarrow> decimal \<Rightarrow> string \<Rightarrow> uuid \<Rightarrow> (db, db_error, uuid) tx" where
  "insert_simple_txn E ledger_id d description account_id amount currency user_id db =
     rbind (insert_transaction E (bare_txn ledger_id d description None None currency ''standard'' user_id None) db) (\<lambda>(txn_id, db1).
     rbind (add_postings E (map (simple_posting txn_id) (simple_lines (cash_on_hand db1 ledger_id) account_id amount)) db1) (\<lambda>db2.
     Inr (txn_id, db2)))"

definition transfer_request :: "env \<Rightarrow> uuid option \<Rightarrow> transfer_form \<Rightarrow> tdb \<Rightarrow> app_error + uuid \<times> decimal \<times> decimal \<times> string \<times> string" where
  "transfer_request E user form s =
     rbind (signed_in user) (\<lambda>u.
     if xf_from_ledger_id form = xf_to_ledger_id form then Inl (Validation ''from and to ledgers must differ'')
     else rbind (ensure_writer (tcore s) u (xf_from_ledger_id form)) (\<lambda>_.
     rbind (ensure_writer (tcore s) u (xf_to_ledger_id form)) (\<lambda>_.
     rbind (ok_or (Validation ''Invalid amount'') (parse_dec E (trim (xf_amount form)))) (\<lambda>amount.
     if amount \<le> 0 then Inl (Validation ''Amount must be positive'')
     else rbind (case trimmed_field (xf_fee_amount form) of
                   Some t \<Rightarrow> ok_or (Validation ''Invalid fee amount'') (parse_dec E t)
                 | None \<Rightarrow> Inr 0) (\<lambda>fee.
     rbind (map_err AppDb (ledger_currency (tcore s) (xf_from_ledger_id form))) (\<lambda>from_currency.
     rbind (map_err AppDb (ledger_currency (tcore s) (xf_to_ledger_id form))) (\<lambda>to_currency.
     Inr (u, amount, fee, from_currency, to_currency))))))))"

definition transfer_body ::
  "env \<Rightarrow> uuid \<Rightarrow> transfer_form \<Rightarrow> decimal \<Rightarrow> decimal \<Rightarrow> string \<Rightarrow> string \<Rightarrow> string \<Rightarrow> (tdb, db_error, uuid) tx" where
  "transfer_body E user_id form amount fee description from_currency to_currency s =
     rbind (insert_simple_txn E (xf_from_ledger_id form) (xf_date form) description (xf_from_account_id form) amount
              from_currency user_id (tcore s)) (\<lambda>(from_txn_id, db1).
     rbind (insert_simple_txn E (xf_to_ledger_id form) (xf_date form) description (xf_to_account_id form) amount
              to_currency user_id db1) (\<lambda>(to_txn_id, db2).
     insert_transfer E \<lparr>tf_id = 0, tf_from_ledger = xf_from_ledger_id form, tf_to_ledger = xf_to_ledger_id form,
         tf_from_account = xf_from_account_id form, tf_to_account = xf_to_account_id form, tf_amount = amount,
         tf_currency = from_currency, tf_from_txn = from_txn_id, tf_to_txn = to_txn_id, tf_fee = fee,
         tf_fee_account = xf_fee_account_id form, tf_description = description\<rparr> (s\<lparr>tcore := db2\<rparr>)))"

text \<open>The trigger is switched off before the transaction begins.\<close>

definition create_transfer :: "env \<Rightarrow> uuid option \<Rightarrow> transfer_form \<Rightarrow> tdb \<Rightarrow> (app_error + uuid) \<times> tdb" where
  "create_transfer E user form s =
     (case transfer_request E user form s of
        Inl e \<Rightarrow> (Inl e, s)
      | Inr (u, amount, fee, from_currency, to_currency) \<Rightarrow>
          (let description = (if trim (xf_description form) = [] then ''Inter-ledger transfer '' @ show_date (today E)
                              else xf_description form);
               s1 = s\<lparr>tcore := (tcore s)\<lparr>balance_trigger := False\<rparr>\<rparr>
           in case run_tx (transfer_body E u form amount fee description from_currency to_currency) s1 of
                (Inl e, s2) \<Rightarrow> (Inl (AppDb e), s2)
              | (Inr transfer_id, s2) \<Rightarrow>
                  (Inr transfer_id, tlog E (xf_from_ledger_id form) u ''create'' ''inter_ledger_transfer'' (Some transfer_id) None
                     (Some (JObj [(''from'', JUuid (xf_from_ledger_id form)), (''to'', JUuid (xf_to_ledger_id form)),
                                  (''amount'', JDec amount), (''currency'', JStr from_currency)])) s2)))"

text \<open>One database transaction per side; the trigger is switched off inside it.\<close>

definition reverse_side :: "env \<Rightarrow> uuid \<Rightarrow> uuid \<Rightarrow> uuid \<Rightarrow> (db, app_error, uuid) tx" where
  "reverse_side E user_id ledger_id txn_id db =
     map_err AppDb (insert_reversal E txn_id ledger_id user_id ''Inter-ledger transfer reversal'' (db\<lparr>balance_trigger := False\<rparr>))"

definition reverse_transfer :: "env \<Rightarrow> uuid option \<Rightarrow> uuid \<Rightarrow> uuid \<Rightarrow> uuid \<Rightarrow> tdb \<Rightarrow> (app_error + unit) \<times> tdb" where
  "reverse_transfer E user ledger_id from_txn_id to_txn_id s =
     (case rbind (signed_in user) (\<lambda>u. rbind (ensure_writer (tcore s) u ledger_id) (\<lambda>_. Inr u)) of
        Inl e \<Rightarrow> (Inl e, s)
      | Inr u \<Rightarrow>
          (case run_tx (reverse_side E u ledger_id from_txn_id) (tcore s) of
             (Inl e, db1) \<Rightarrow> (Inl e, s\<lparr>tcore := db1\<rparr>)
           | (Inr _, db1) \<Rightarrow>
               (case run_tx (reverse_side E u ledger_id to_txn_id) db1 of
                  (Inl e, db2) \<Rightarrow> (Inl e, s\<lparr>tcore := db2\<rparr>)
                | (Inr _, db2) \<Rightarrow> (Inr (), s\<lparr>tcore := db2\<rparr>))))"

section \<open>Bulk actions\<close>

definition MAX_BULK :: nat where
  "MAX_BULK = 500"

datatype bulk_answer = BulkDone | BulkLimited nat

definition in_ledger :: "db \<Rightarrow> uuid \<Rightarrow> uuid \<Rightarrow> bool" where
  "in_ledger db ledger_id i \<longleftrightarrow> list_ex (\<lambda>t. t_id t = i \<and> t_ledger t = ledger_id) (transactions db)"

definition action_value :: "string \<Rightarrow> string option \<Rightarrow> app_error + string" where
  "action_value what value = ok_or (Validation (what @ '' action requires a value'')) (trimmed_field value)"

text \<open>\<^verbatim>\<open>INSERT INTO tags ... ON CONFLICT (ledger_id, name) DO UPDATE ... RETURNING id\<close>.\<close>

definition upsert_tag :: "env \<Rightarrow> uuid \<Rightarrow> string \<Rightarrow> (tdb, db_error, uuid) tx" where
  "upsert_tag E ledger_id name s =
     (let (i, db1) = draw E (tcore s) in
      case find (\<lambda>t. tg_ledger t = ledger_id \<and> tg_name t = name) (tags s) of
        Some t \<Rightarrow> Inr (tg_id t, s\<lparr>tcore := db1\<rparr>)
      | None \<Rightarrow>
          if list_ex (\<lambda>t. tg_id t = i) (tags s) then Inl (UniqueViolation ''tags_pkey'')
          else if ledger_of (tcore s) ledger_id = None then Inl (ForeignKeyViolation ''tags_ledger_id_fkey'')
          else Inr (i, s\<lparr>tcore := db1, tags := tags s @ [\<lparr>tg_id = i, tg_ledger = ledger_id, tg_name = name\<rparr>]\<rparr>))"

definition attach_tag :: "uuid \<Rightarrow> uuid \<Rightarrow> uuid \<Rightarrow> nat \<times> tdb \<Rightarrow> nat \<times> tdb" where
  "attach_tag ledger_id tag_id i st =
     (let (n, s) = st in
      if in_ledger (tcore s) ledger_id i \<and> (i, tag_id) \<notin> set (txn_tags s)
      then (n + 1, s\<lparr>txn_tags := txn_tags s @ [(i, tag_id)]\<rparr>) else (n, s))"

definition bulk_json :: "string \<Rightarrow> json \<Rightarrow> uuid list \<Rightarrow> string \<Rightarrow> nat \<Rightarrow> json option" where
  "bulk_json k v ids done n = Some (JObj [(k, v), (''selected'', JNum (of_nat (length ids))), (done, JNum (of_nat n))])"

definition tag_action :: "env \<Rightarrow> uuid \<Rightarrow> uuid \<Rightarrow> uuid list \<Rightarrow> string option \<Rightarrow> tdb \<Rightarrow> (app_error + unit) \<times> tdb" where
  "tag_action E ledger_id user_id ids value s =
     (case rbind (action_value ''tag'' value) (\<lambda>name. map_err AppDb (map_sum id (Pair name) (upsert_tag E ledger_id name s))) of
        Inl e \<Rightarrow> (Inl e, s)
      | Inr (name, tag_id, s1) \<Rightarrow>
          (let (attached, s2) = fold (attach_tag ledger_id tag_id) ids (0, s1) in
           (Inr (), tlog E ledger_id user_id ''bulk_tag'' ''transactions'' None None
                      (bulk_json ''tag'' (JStr name) ids ''attached'' attached) s2)))"

definition detach_tag :: "uuid \<Rightarrow> uuid \<Rightarrow> uuid \<Rightarrow> nat \<times> tdb \<Rightarrow> nat \<times> tdb" where
  "detach_tag ledger_id tag_id i st =
     (let (n, s) = st in
      if in_ledger (tcore s) ledger_id i \<and> (i, tag_id) \<in> set (txn_tags s)
      then (n + 1, s\<lparr>txn_tags := filter (\<lambda>x. x \<noteq> (i, tag_id)) (txn_tags s)\<rparr>) else (n, s))"

text \<open>The entry names the nil user.\<close>

definition untag_action :: "env \<Rightarrow> uuid \<Rightarrow> uuid list \<Rightarrow> string option \<Rightarrow> tdb \<Rightarrow> (app_error + unit) \<times> tdb" where
  "untag_action E ledger_id ids value s =
     (case rbind (action_value ''untag'' value) (\<lambda>name.
             rbind (ok_or (Validation (''tag not found: '' @ name))
                      (find (\<lambda>t. tg_ledger t = ledger_id \<and> tg_name t = name) (tags s))) (\<lambda>t. Inr (name, tg_id t))) of
        Inl e \<Rightarrow> (Inl e, s)
      | Inr (name, tag_id) \<Rightarrow>
          (let (removed, s1) = fold (detach_tag ledger_id tag_id) ids (0, s) in
           (Inr (), tlog E ledger_id 0 ''bulk_untag'' ''transactions'' None None
                      (bulk_json ''tag'' (JStr name) ids ''removed'' removed) s1)))"

text \<open>\<^verbatim>\<open>UPDATE transactions SET contact_id = $1 WHERE id = $2 AND ledger_id = $3\<close>, each statement on its own.\<close>

definition set_contact :: "uuid \<Rightarrow> uuid \<Rightarrow> nat \<times> tdb \<Rightarrow> uuid \<Rightarrow> db_error + nat \<times> tdb" where
  "set_contact ledger_id contact_id st i =
     (let (n, s) = st in
      if \<not> in_ledger (tcore s) ledger_id i then Inr (n, s)
      else if append_only (tcore s) ledger_id
        then Inl (RaisedException ''ledger is append-only; edits are not allowed'')
      else Inr (n + 1, s\<lparr>txn_contact := (txn_contact s)(i \<mapsto> contact_id)\<rparr>))"

definition contact_action :: "env \<Rightarrow> (string \<Rightarrow> string) \<Rightarrow> uuid \<Rightarrow> uuid \<Rightarrow> uuid list \<Rightarrow> string option \<Rightarrow> tdb \<Rightarrow> (app_error + unit) \<times> tdb" where
  "contact_action E uuid_error ledger_id user_id ids value s =
     (case rbind (action_value ''contact'' value) (\<lambda>t.
           rbind (ok_or (Validation (''invalid contact id: '' @ uuid_error t)) (parse_uuid E t)) (\<lambda>c.
           if list_ex (\<lambda>x. co_id x = c \<and> co_ledger x = ledger_id) (contacts s) then Inr (t, c) else Inl NotFound)) of
        Inl e \<Rightarrow> (Inl e, s)
      | Inr (t, contact_id) \<Rightarrow>
          (case try_fold (set_contact ledger_id contact_id) (0, s) ids of
             Inl e \<Rightarrow> (Inl (AppDb e), s)
           | Inr (updated, s1) \<Rightarrow>
               (Inr (), tlog E ledger_id user_id ''bulk_contact'' ''transactions'' None None
                          (bulk_json ''contact_id'' (JUuid contact_id) ids ''updated'' updated) s1)))"

text \<open>
  \<^verbatim>\<open>INSERT INTO postings ... SELECT ...\<close>: one statement, so the trigger runs after its last row, on the
  postings of the new transaction.
\<close>

definition insert_select :: "env \<Rightarrow> uuid \<Rightarrow> posting_row list \<Rightarrow> db \<Rightarrow> db_error + db" where
  "insert_select E txn ps db =
     rbind (add_postings E ps (db\<lparr>balance_trigger := False\<rparr>)) (\<lambda>db1.
     let db2 = db1\<lparr>balance_trigger := balance_trigger db\<rparr> in
     if balance_trigger db \<and> ps \<noteq> [] then rbind (check_posting_balance db2 txn) (\<lambda>_. Inr db2) else Inr db2)"

definition bulk_reverse :: "env \<Rightarrow> uuid \<Rightarrow> uuid \<Rightarrow> nat \<times> db \<Rightarrow> uuid \<Rightarrow> db_error + nat \<times> db" where
  "bulk_reverse E ledger_id user_id st orig_id =
     (let (n, db) = st in
      case find (\<lambda>t. t_id t = orig_id \<and> t_ledger t = ledger_id) (transactions db) of
        None \<Rightarrow> Inr (n, db)
      | Some orig \<Rightarrow>
          rbind (insert_transaction E (bare_txn ledger_id (t_date orig) (''REVERSAL of '' @ t_description orig) (t_payee orig)
                   (t_reference orig) (t_currency orig) ''reversing'' user_id None) db) (\<lambda>(reversal_id, db1).
          rbind (insert_select E reversal_id
                   (map (mirror_posting reversal_id (\<lambda>_. Some ''reversal'')) (postings_of db1 orig_id)) db1) (\<lambda>db2.
          Inr (n + 1, db2))))"

definition delete_action :: "env \<Rightarrow> uuid \<Rightarrow> uuid \<Rightarrow> uuid list \<Rightarrow> tdb \<Rightarrow> (app_error + unit) \<times> tdb" where
  "delete_action E ledger_id user_id ids s =
     (case try_fold (bulk_reverse E ledger_id user_id) (0, tcore s) ids of
        Inl e \<Rightarrow> (Inl (AppDb e), s)
      | Inr (reversed, db1) \<Rightarrow>
          (Inr (), tlog E ledger_id user_id ''bulk_delete'' ''transactions'' None None
             (Some (JObj [(''selected'', JNum (of_nat (length ids))), (''reversed'', JNum (of_nat reversed)),
                          (''note'', JStr ''non-destructive: original rows preserved'')])) (s\<lparr>tcore := db1\<rparr>)))"

record bulk_form =
  bf_txn_ids :: string
  bf_action :: string
  bf_value :: "string option"

definition bulk_action :: "env \<Rightarrow> (string \<Rightarrow> string) \<Rightarrow> uuid option \<Rightarrow> uuid \<Rightarrow> bulk_form \<Rightarrow> tdb \<Rightarrow> (app_error + bulk_answer) \<times> tdb" where
  "bulk_action E uuid_error user ledger_id form s =
     (case rbind (signed_in user) (\<lambda>u. rbind (ensure_owner (tcore s) u ledger_id) (\<lambda>_.
             let ids = List.map_filter (\<lambda>t. parse_uuid E (trim t)) (split_on (CHR '','') (bf_txn_ids form)) in
             if ids = [] then Inl (Validation ''txn_ids must contain at least one uuid'') else Inr (u, ids))) of
        Inl e \<Rightarrow> (Inl e, s)
      | Inr (u, ids) \<Rightarrow>
          if MAX_BULK < length ids then (Inr (BulkLimited (length ids)), s)
          else (let (r, s1) =
                  (if bf_action form = ''tag'' then tag_action E ledger_id u ids (bf_value form) s
                   else if bf_action form = ''untag'' then untag_action E ledger_id ids (bf_value form) s
                   else if bf_action form = ''contact'' then contact_action E uuid_error ledger_id u ids (bf_value form) s
                   else if bf_action form = ''delete'' then delete_action E ledger_id u ids s
                   else (Inl (Validation (''unknown bulk action: '' @ bf_action form)), s))
                in (map_sum id (\<lambda>_. BulkDone) r, s1)))"

end
