(* ===== verification/Entry_Forms.thy ===== *)
theory Entry_Forms
  imports Transaction_Entry
begin

text \<open>
  The form reader of \<^verbatim>\<open>src/src/handlers/transactions.rs\<close> read backwards: the fields a browser sends for a list of
  lines, and that reading them yields the lines again whatever order the fields come in.
\<close>

section \<open>The sorted map\<close>

definition increasing :: "(nat \<times> 'a) list \<Rightarrow> bool" where
  "increasing m \<longleftrightarrow> sorted_wrt (<) (map fst m)"

lemma bt_entry_keys: "fst ` set (bt_entry k f d m) = insert k (fst ` set m)"
  by (induction k f d m rule: bt_entry.induct) auto

lemma bt_entry_increasing: "increasing m \<Longrightarrow> increasing (bt_entry k f d m)"
proof (induction k f d m rule: bt_entry.induct)
  case (2 k f d j x m)
  then have m: "increasing m" "\<forall>y\<in>fst ` set m. j < y" by (auto simp: increasing_def)
  show ?case
  proof (cases "k \<le> j")
    case True
    then show ?thesis using 2(2) by (auto simp: increasing_def)
  next
    case False
    then have "increasing (bt_entry k f d m)" "\<forall>y\<in>fst ` set (bt_entry k f d m). j < y"
      using 2(1) m by (auto simp: bt_entry_keys)
    then show ?thesis using False by (simp add: increasing_def)
  qed
qed (simp add: increasing_def)

lemma map_of_above: "increasing ((j, x) # m) \<Longrightarrow> k \<le> j \<Longrightarrow> map_of m k = None"
  by (auto simp: increasing_def map_of_eq_None_iff)

lemma map_of_bt_entry:
  "increasing m \<Longrightarrow> map_of (bt_entry k f d m) = (map_of m)(k \<mapsto> f (case map_of m k of None \<Rightarrow> d | Some x \<Rightarrow> x))"
proof (induction k f d m rule: bt_entry.induct)
  case (2 k f d j x m)
  have m: "increasing m" using 2(2) by (simp add: increasing_def)
  consider "k < j" | "k = j" | "j < k" by linarith
  then show ?case
  proof cases
    case 1
    then show ?thesis using map_of_above [OF 2(2), of k] by (auto simp: fun_eq_iff)
  next
    case 2
    then show ?thesis by (simp add: fun_upd_def fun_eq_iff)
  next
    case 3
    then show ?thesis using 2(1) m by (auto simp: fun_eq_iff)
  qed
qed simp

section \<open>What the loop collects\<close>

text \<open>The fields of line \<open>i\<close>, in the order they come.\<close>

definition field_of :: "nat \<Rightarrow> string \<times> string \<Rightarrow> (string \<times> string) option" where
  "field_of i kv = (case line_key (fst kv) of None \<Rightarrow> None | Some (j, f) \<Rightarrow> if j = i then Some (f, snd kv) else None)"

definition put_field :: "string \<times> string \<Rightarrow> parsed_line \<Rightarrow> parsed_line" where
  "put_field fv = set_field (fst fv) (snd fv)"

lemma parse_field_map:
  assumes "increasing m"
  shows "increasing (parse_field kv m)"
    and "map_of (parse_field kv m) i = (case field_of i kv of None \<Rightarrow> map_of m i
           | Some fv \<Rightarrow> Some (put_field fv (case map_of m i of None \<Rightarrow> default_line | Some x \<Rightarrow> x)))"
  using assms
  by (auto simp: parse_field_def field_of_def put_field_def bt_entry_increasing map_of_bt_entry split: option.splits prod.splits)

lemma fold_parse_field:
  assumes "increasing m"
  shows "increasing (fold parse_field raw m)"
    and "map_of (fold parse_field raw m) i = (case List.map_filter (field_of i) raw of [] \<Rightarrow> map_of m i
           | fvs \<Rightarrow> Some (fold put_field fvs (case map_of m i of None \<Rightarrow> default_line | Some x \<Rightarrow> x)))"
proof -
  have "increasing (fold parse_field raw m)
    \<and> map_of (fold parse_field raw m) i = (case List.map_filter (field_of i) raw of [] \<Rightarrow> map_of m i
           | fvs \<Rightarrow> Some (fold put_field fvs (case map_of m i of None \<Rightarrow> default_line | Some x \<Rightarrow> x)))"
    using assms
  proof (induction raw arbitrary: m)
    case Nil
    then show ?case by (simp add: map_filter_simps)
  next
    case (Cons kv raw)
    note step = parse_field_map [OF Cons.prems, of kv]
    from Cons.IH [OF step(1)] step(2) [of i] show ?case
      by (auto simp: map_filter_simps split: option.splits list.splits)
  qed
  then show "increasing (fold parse_field raw m)"
    "map_of (fold parse_field raw m) i = (case List.map_filter (field_of i) raw of [] \<Rightarrow> map_of m i
           | fvs \<Rightarrow> Some (fold put_field fvs (case map_of m i of None \<Rightarrow> default_line | Some x \<Rightarrow> x)))" by blast+
qed

section \<open>The fields of a line\<close>

definition field_values :: "parsed_line \<Rightarrow> (string \<times> string) list" where
  "field_values l =
     [(''account_id'', pl_account_id l), (''direction'', pl_direction l), (''amount'', pl_amount l), (''memo'', pl_memo l),
      (''tax_rate_id'', pl_tax_rate_id l), (''cost_center_id'', pl_cost_center_id l), (''project_id'', pl_project_id l)]"

definition last_value :: "(string \<times> string) list \<Rightarrow> string \<Rightarrow> string \<Rightarrow> string" where
  "last_value fvs f v = (case map_of (rev fvs) f of None \<Rightarrow> v | Some w \<Rightarrow> w)"

lemma last_value_Cons: "last_value (fv # fvs) f v = last_value fvs f (if fst fv = f then snd fv else v)"
  by (cases fv) (auto simp: last_value_def map_add_def split: option.splits)

lemma fold_put_field:
  "fold put_field fvs e =
     \<lparr>pl_account_id = last_value fvs ''account_id'' (pl_account_id e), pl_direction = last_value fvs ''direction'' (pl_direction e),
      pl_amount = last_value fvs ''amount'' (pl_amount e), pl_memo = last_value fvs ''memo'' (pl_memo e),
      pl_tax_rate_id = last_value fvs ''tax_rate_id'' (pl_tax_rate_id e),
      pl_cost_center_id = last_value fvs ''cost_center_id'' (pl_cost_center_id e),
      pl_project_id = last_value fvs ''project_id'' (pl_project_id e)\<rparr>"
proof (induction fvs arbitrary: e)
  case Nil
  then show ?case by (simp add: last_value_def)
next
  case (Cons fv fvs)
  then show ?case by (simp add: last_value_Cons put_field_def set_field_def)
qed

lemma put_all_fields:
  assumes "distinct (map fst fvs)" and "set fvs = set (field_values l)"
  shows "fold put_field fvs default_line = l"
proof -
  have "last_value fvs f v = w" if "(f, w) \<in> set (field_values l)" for f v w
  proof -
    have "map_of (rev fvs) f = Some w"
      using assms that by (simp add: rev_map [symmetric] map_of_eq_Some_iff)
    then show ?thesis by (simp add: last_value_def)
  qed
  then show ?thesis by (simp add: fold_put_field field_values_def)
qed

section \<open>Keys\<close>

definition line_field :: "nat \<Rightarrow> string \<Rightarrow> string" where
  "line_field i f = ''lines['' @ show_nat i @ '']['' @ f @ '']''"

lemma str_find_skip: "CHR '']'' \<notin> set ds \<Longrightarrow> str_find '']['' (ds @ '']['' @ rest) = Some (length ds)"
  by (induction ds) (auto simp: starts_with_def)

lemma parse_usize_show: "i < 2 ^ 64 \<Longrightarrow> parse_usize (show_nat i) = Some i"
proof -
  assume i: "i < 2 ^ 64"
  have d: "list_all is_digit (show_nat i)" "show_nat i \<noteq> []" by (simp_all add: show_nat_digits)
  then obtain c cs where c: "show_nat i = c # cs" by (cases "show_nat i") auto
  with d have "c \<noteq> CHR ''+''" using digit_not_sign by auto
  then have "(case show_nat i of [] \<Rightarrow> [] | c # cs \<Rightarrow> if c = CHR ''+'' then cs else show_nat i) = show_nat i" by (simp add: c)
  moreover have "int i < 2 ^ 64" using i by (metis of_nat_less_iff of_nat_numeral of_nat_power)
  ultimately show ?thesis using d by (simp add: parse_usize_def Let_def)
qed

lemma line_key_field:
  assumes "i < 2 ^ 64" and "CHR '']'' \<notin> set f"
  shows "line_key (line_field i f) = Some (i, f)"
proof -
  have "CHR '']'' \<notin> set (show_nat i)" using show_nat_digits [of i] by (auto simp: list_all_iff is_digit_def)
  then have find: "str_find '']['' (show_nat i @ '']['' @ f @ '']'') = Some (length (show_nat i))" by (rule str_find_skip)
  have "trim_end_matches (CHR '']'') (f @ '']'') = f"
    using assms(2) by (cases f rule: rev_cases) (auto simp: trim_end_matches_def)
  then show ?thesis
    using find parse_usize_show [OF assms(1)] by (simp add: line_key_def line_field_def starts_with_def)
qed

section \<open>Round trip\<close>

definition form_fields :: "parsed_line list \<Rightarrow> (string \<times> string) list" where
  "form_fields ls =
     concat (map (\<lambda>i. map (\<lambda>fv. (line_field i (fst fv), snd fv)) (field_values (ls ! i))) [0..<length ls])"

lemma form_fields_mem:
  "(k, v) \<in> set (form_fields ls) \<longleftrightarrow> (\<exists>i f. i < length ls \<and> (f, v) \<in> set (field_values (ls ! i)) \<and> k = line_field i f)"
  by (force simp: form_fields_def)

lemma field_names: "(f, v) \<in> set (field_values l) \<Longrightarrow> CHR '']'' \<notin> set f"
  by (auto simp: field_values_def)

lemma collected_fields:
  assumes "distinct (map fst raw)" and "set (form_fields ls) \<subseteq> set raw" and "length ls \<le> 2 ^ 64"
    and "\<forall>x\<in>set raw. line_key (fst x) \<noteq> None \<longrightarrow> x \<in> set (form_fields ls)"
  shows "i < length ls \<Longrightarrow> fold put_field (List.map_filter (field_of i) raw) default_line = ls ! i"
    and "i < length ls \<longleftrightarrow> List.map_filter (field_of i) raw \<noteq> []"
proof -
  have key: "line_key (line_field j f) = Some (j, f)" if "(f, v) \<in> set (field_values (ls ! j))" "j < length ls" for j f v
    using line_key_field [of j f] field_names [OF that(1)] that(2) assms(3) by simp
  have some: "field_of i (k, v) = Some (f, w) \<longleftrightarrow> w = v \<and> k = line_field i f \<and> i < length ls \<and> (f, v) \<in> set (field_values (ls ! i))"
    if "(k, v) \<in> set raw" for k v f w
  proof
    assume fo: "field_of i (k, v) = Some (f, w)"
    then have "line_key k = Some (i, f)" "w = v" by (auto simp: field_of_def split: option.splits if_splits)
    moreover from this assms(4) that have "(k, v) \<in> set (form_fields ls)" by force
    ultimately show "w = v \<and> k = line_field i f \<and> i < length ls \<and> (f, v) \<in> set (field_values (ls ! i))"
      using key by (auto simp: form_fields_mem)
  next
    assume "w = v \<and> k = line_field i f \<and> i < length ls \<and> (f, v) \<in> set (field_values (ls ! i))"
    then show "field_of i (k, v) = Some (f, w)" using key [of f v i] by (auto simp: field_of_def)
  qed
  have sub: "(line_field i f, v) \<in> set raw" if "i < length ls" "(f, v) \<in> set (field_values (ls ! i))" for f v
    using assms(2) that form_fields_mem by blast
  have mem: "(f, v) \<in> set (List.map_filter (field_of i) raw) \<longleftrightarrow> i < length ls \<and> (f, v) \<in> set (field_values (ls ! i))" for f v
    using some sub by (auto simp: set_map_filter) (metis (no_types, lifting))+
  have "distinct (map fst (List.map_filter (field_of i) rs))" if "set rs \<subseteq> set raw" "distinct (map fst rs)" for rs
    using that
  proof (induction rs)
    case (Cons x rs)
    obtain k v where x: "x = (k, v)" by (cases x)
    have "fst fv \<notin> fst ` set (List.map_filter (field_of i) rs)" if "field_of i (k, v) = Some fv" for fv
    proof
      assume "fst fv \<in> fst ` set (List.map_filter (field_of i) rs)"
      then obtain k' v' w where y: "(k', v') \<in> set rs" "field_of i (k', v') = Some (fst fv, w)"
        by (auto simp: set_map_filter)
      have "k' = line_field i (fst fv)" using some [of k' v' "fst fv" w] y Cons.prems(1) by auto
      moreover have "k = line_field i (fst fv)" using some [of k v "fst fv" "snd fv"] that Cons.prems(1) x by auto
      ultimately show False using Cons.prems(2) y(1) x by force
    qed
    with Cons x show ?case by (auto simp: map_filter_simps split: option.splits)
  qed (simp add: map_filter_simps)
  with assms(1) have dist: "distinct (map fst (List.map_filter (field_of i) raw))" by blast
  show "fold put_field (List.map_filter (field_of i) raw) default_line = ls ! i" if "i < length ls"
    by (rule put_all_fields [OF dist]) (use mem that in auto)
  show "i < length ls \<longleftrightarrow> List.map_filter (field_of i) raw \<noteq> []"
  proof
    assume "i < length ls"
    moreover have "(''memo'', pl_memo (ls ! i)) \<in> set (field_values (ls ! i))" by (simp add: field_values_def)
    ultimately show "List.map_filter (field_of i) raw \<noteq> []" using mem by (metis list.set_intros(1) empty_iff list.set(1))
  next
    assume "List.map_filter (field_of i) raw \<noteq> []"
    then obtain f v where "(f, v) \<in> set (List.map_filter (field_of i) raw)" by (cases "List.map_filter (field_of i) raw") auto
    with mem show "i < length ls" by blast
  qed
qed

text \<open>
  C14: Reading the fields a browser sends for a list of lines gives the lines back, in whatever order the hash map of
  the form yields its fields and whatever other fields it holds.
\<close>

theorem entry_form_round_trip:
  assumes "distinct (map fst raw)" and "set (form_fields ls) \<subseteq> set raw" and "length ls \<le> 2 ^ 64"
    and "\<forall>x\<in>set raw. line_key (fst x) \<noteq> None \<longrightarrow> x \<in> set (form_fields ls)"
  shows "parse_lines raw = ls"
proof -
  let ?m = "fold parse_field raw []"
  have inc: "increasing ?m" using fold_parse_field(1) [of "[]" raw] by (simp add: increasing_def)
  have get: "map_of ?m i = (if i < length ls then Some (ls ! i) else None)" for i
    using fold_parse_field(2) [of "[]" raw i] collected_fields [OF assms, of i]
    by (auto simp: increasing_def split: list.splits)
  have "fst ` set ?m = {i. map_of ?m i \<noteq> None}" by (auto simp: map_of_eq_None_iff)
  then have "set (map fst ?m) = set [0..<length ls]" using get by auto
  moreover have "sorted (map fst ?m)" "distinct (map fst ?m)"
    using inc by (simp_all add: increasing_def strict_sorted_iff)
  ultimately have keys: "map fst ?m = [0..<length ls]" using sorted_distinct_set_unique [of "map fst ?m" "[0..<length ls]"] by simp
  have "map snd ?m = map (\<lambda>i. the (map_of ?m i)) (map fst ?m)"
    using \<open>distinct (map fst ?m)\<close> by (auto simp: map_of_eq_Some_iff [THEN iffD2] intro!: map_cong)
  also have "\<dots> = map (\<lambda>i. ls ! i) [0..<length ls]" unfolding keys by (auto simp: get)
  finally show ?thesis by (simp add: parse_lines_def map_nth)
qed

definition sample_lines :: "parsed_line list" where
  "sample_lines = [default_line\<lparr>pl_account_id := ''a'', pl_direction := ''DEBIT'', pl_amount := ''10''\<rparr>,
                   default_line\<lparr>pl_account_id := ''b'', pl_direction := ''CREDIT'', pl_amount := ''10''\<rparr>]"

theorem entry_form_round_trip_witness:
  "parse_lines (rev (form_fields sample_lines) @ [(''date'', ''2026-03-15'')]) = sample_lines"
proof (rule entry_form_round_trip)
  show "distinct (map fst (rev (form_fields sample_lines) @ [(''date'', ''2026-03-15'')]))" by code_simp
  show "length sample_lines \<le> 2 ^ 64" by (simp add: sample_lines_def)
  have "line_key ''date'' = None" by code_simp
  then show "\<forall>x\<in>set (rev (form_fields sample_lines) @ [(''date'', ''2026-03-15'')]). line_key (fst x) \<noteq> None \<longrightarrow> x \<in> set (form_fields sample_lines)"
    by auto
qed auto

end
