(* ===== verification/Transaction_Properties.thy ===== *)
theory Transaction_Properties
  imports Transaction_Entry
begin

text \<open>
  What entering and correcting transactions guarantees: the request a form becomes, what a reversal, an edit, a
  transfer and an override leave in the books, and that no sequence of these requests unbalances them as long as
  edits are entered balanced.
\<close>

section \<open>Entries a handler writes itself\<close>

text \<open>One new transaction with its postings, nothing else in the books.\<close>

definition adds_entry :: "txn_row \<Rightarrow> posting_row list \<Rightarrow> db \<Rightarrow> db \<Rightarrow> bool" where
  "adds_entry t qs db db' \<longleftrightarrow>
     t_id t \<notin> t_id ` set (transactions db) \<and> list_all (\<lambda>q. p_txn q = t_id t) qs
   \<and> transactions db' = transactions db @ [t] \<and> postings db' = postings db @ qs
   \<and> ledgers db' = ledgers db \<and> accounts db' = accounts db \<and> closed_periods db' = closed_periods db
   \<and> balance_trigger db' = balance_trigger db \<and> (db_wf db \<longrightarrow> db_wf db')"

lemma add_postings_wf: "add_postings E ps db = Inr db' \<Longrightarrow> db_wf db \<Longrightarrow> db_wf db'"
  unfolding add_postings_def
  by (erule try_fold_invariant) (auto simp: add_posting_def result_simps intro: db_wf_insert_posting)

lemma written_entry:
  assumes "insert_transaction E r db = Inr (t, db1)" and "add_postings E ps db1 = Inr db2" and "list_all (\<lambda>p. p_txn p = t) ps"
  shows "\<exists>qs. list_all2 posting_stored ps qs \<and> adds_entry (r\<lparr>t_id := t, t_created_at := now E\<rparr>) qs db db2"
proof -
  from assms(1) have t: "t \<notin> t_id ` set (transactions db)"
    and db1: "db1 = db\<lparr>drawn := Suc (drawn db), transactions := transactions db @ [r\<lparr>t_id := t, t_created_at := now E\<rparr>]\<rparr>"
    by (auto simp: insert_transaction_Inr)
  from add_postings_stored [OF assms(2)] obtain qs where qs: "list_all2 posting_stored ps qs"
    "db2 = db1\<lparr>drawn := drawn db1 + length ps, postings := postings db1 @ qs\<rparr>" by blast
  have "db_wf db \<Longrightarrow> db_wf db2" using add_postings_wf [OF assms(2)] db_wf_insert_transaction [OF _ assms(1)] by blast
  then have "adds_entry (r\<lparr>t_id := t, t_created_at := now E\<rparr>) qs db db2"
    using t stored_txn [OF qs(1) assms(3)] by (simp add: adds_entry_def qs(2) db1)
  with qs(1) show ?thesis by blast
qed

lemma entry_postings:
  assumes "db_wf db" and "adds_entry t qs db db'"
  shows "postings_of db' (t_id t) = qs" and "i \<noteq> t_id t \<Longrightarrow> postings_of db' i = postings_of db i"
proof -
  have "filter (\<lambda>q. p_txn q = t_id t) qs = qs" using assms(2) by (simp add: adds_entry_def list_all_iff filter_id_conv)
  then show "postings_of db' (t_id t) = qs"
    using postings_of_new [OF assms(1)] assms(2) by (simp add: adds_entry_def postings_of_def)
  assume "i \<noteq> t_id t"
  then have "filter (\<lambda>q. p_txn q = i) qs = []" using assms(2) by (auto simp: adds_entry_def list_all_iff filter_empty_conv)
  then show "postings_of db' i = postings_of db i" using assms(2) by (simp add: adds_entry_def postings_of_def)
qed

lemma entry_keeps_balance:
  assumes "db_wf db" and "all_balanced db" and "adds_entry t qs db db'" and "debit_sum qs = credit_sum qs"
  shows "db_wf db' \<and> all_balanced db'"
proof -
  have "balanced db' i" if "i \<in> t_id ` set (transactions db')" for i
  proof (cases "i = t_id t")
    case True
    then show ?thesis using entry_postings(1) [OF assms(1,3)] assms(4) by (simp add: balanced_def)
  next
    case False
    with that assms(3) have "i \<in> t_id ` set (transactions db)" by (auto simp: adds_entry_def)
    then show ?thesis
      using assms(2) entry_postings(2) [OF assms(1,3) False] by (auto simp: all_balanced_def balanced_def)
  qed
  with assms(1,3) show ?thesis by (auto simp: all_balanced_def adds_entry_def)
qed

section \<open>Mirror images\<close>

lemma mirror_sums:
  assumes "list_all2 posting_stored (map (mirror_posting r m) ps) qs" and "list_all (posting_wf db) ps"
  shows "debit_sum qs = credit_sum ps" and "credit_sum qs = debit_sum ps" and "net_of qs a = - net_of ps a"
proof -
  from assms have "debit_sum qs = credit_sum ps \<and> credit_sum qs = debit_sum ps \<and> net_of qs a = - net_of ps a"
  proof (induction ps arbitrary: qs)
    case (Cons p ps)
    from Cons.prems(1) obtain q qs' where q: "qs = q # qs'" "posting_stored (mirror_posting r m p) q"
      "list_all2 posting_stored (map (mirror_posting r m) ps) qs'" by (auto simp: list_all2_Cons1)
    then have p: "is_debit q = is_credit p" "is_credit q = is_debit p" "p_amount q = p_amount p" "p_account q = p_account p"
      "is_debit p \<noteq> is_credit p"
      using Cons.prems(2)
      by (auto simp: posting_stored_def mirror_posting_def plain_posting_def flipped_def posting_wf_def is_debit_def
          is_credit_def away.rnd_exact)
    with Cons.IH [OF q(3)] Cons.prems(2) show ?case by (auto simp: q(1) debit_sum_def credit_sum_def)
  qed (simp add: debit_sum_def credit_sum_def)
  then show "debit_sum qs = credit_sum ps" "credit_sum qs = debit_sum ps" "net_of qs a = - net_of ps a" by blast+
qed

lemma postings_of_wf: "db_wf db \<Longrightarrow> list_all (posting_wf db) (postings_of db i)"
  by (auto simp: db_wf_def postings_of_def list_all_iff)

text \<open>What a reversal adds: an entry whose balance on every account is opposite to the original's.\<close>

definition cancels :: "db \<Rightarrow> uuid \<Rightarrow> posting_row list \<Rightarrow> bool" where
  "cancels db i qs \<longleftrightarrow> debit_sum qs = credit_sum (postings_of db i) \<and> credit_sum qs = debit_sum (postings_of db i)
     \<and> (\<forall>a. net_of qs a = - net_of (postings_of db i) a)"

lemma insert_reversal_entry:
  assumes "insert_reversal E i l u d db = Inr (r, db')" and "db_wf db"
  shows "\<exists>t qs. adds_entry t qs db db' \<and> cancels db i qs \<and> t_id t = r \<and> t_kind t = ''reversing'' \<and> t_date t = today E
     \<and> t_reverses t = Some i \<and> t_ledger t = l \<and> t_created_by t = u \<and> i \<in> t_id ` set (transactions db)"
proof -
  from assms(1) obtain currency db1 where
    i: "insert_transaction E (bare_txn l (today E) (''Reversal of: '' @ d) None None currency ''reversing'' u (Some i)) db = Inr (r, db1)"
    and p: "add_postings E (map (mirror_posting r id) (postings_of db i)) db1 = Inr db'"
    by (auto simp: insert_reversal_def Let_def result_simps split: prod.splits)
  have "list_all (\<lambda>q. p_txn q = r) (map (mirror_posting r id) (postings_of db i))"
    by (simp add: list_all_iff mirror_posting_def plain_posting_def)
  from written_entry [OF i p this] obtain qs where
    qs: "list_all2 posting_stored (map (mirror_posting r id) (postings_of db i)) qs"
    "adds_entry ((bare_txn l (today E) (''Reversal of: '' @ d) None None currency ''reversing'' u (Some i))
       \<lparr>t_id := r, t_created_at := now E\<rparr>) qs db db'" by blast
  have "cancels db i qs" using mirror_sums [OF qs(1) postings_of_wf [OF assms(2)]] by (simp add: cancels_def)
  moreover have "i \<in> t_id ` set (transactions db)"
    using i by (auto simp: insert_transaction_Inr bare_txn_def txn_of_None)
  ultimately show ?thesis using qs(2)
    by (intro exI [of _ "(bare_txn l (today E) (''Reversal of: '' @ d) None None currency ''reversing'' u (Some i))
       \<lparr>t_id := r, t_created_at := now E\<rparr>"] exI [of _ qs]) (simp add: bare_txn_def)
qed

section \<open>From the form to the request\<close>

lemma list_all2_mem: "list_all2 P xs ys \<Longrightarrow> y \<in> set ys \<Longrightarrow> \<exists>x\<in>set xs. P x y"
  by (induction rule: list_all2_induct) auto

lemma try_lines_acc:
  "try_fold (\<lambda>inputs l. rbind (f l) (\<lambda>i. Inr (inputs @ [i]))) acc ls = Inr xs \<longleftrightarrow>
     (\<exists>ys. xs = acc @ ys \<and> list_all2 (\<lambda>l x. f l = Inr x) ls ys)"
proof (induction ls arbitrary: acc)
  case (Cons l ls)
  then show ?case by (cases "f l") (auto simp: list_all2_Cons1)
qed auto

lemma try_lines_Inr: "try_lines f ls = Inr xs \<longleftrightarrow> list_all2 (\<lambda>l x. f l = Inr x) ls xs"
  by (simp add: try_lines_def try_lines_acc)

lemma entry_line_Inr:
  assumes "entry_line E l = Inr x"
  shows "\<exists>a. parse_dec E (trim (pl_amount l)) = Some a \<and> 0 < a \<and> \<bar>n_signed_amount x\<bar> = a
     \<and> (n_signed_amount x < 0 \<longleftrightarrow> pl_direction l = ''CREDIT'') \<and> n_foreign x = None"
proof -
  from assms obtain a d where a: "parse_dec E (trim (pl_amount l)) = Some a" "0 < a" "entry_direction (pl_direction l) = Inr d"
    "n_signed_amount x = (case d of Debit \<Rightarrow> a | Credit \<Rightarrow> - a)" "n_foreign x = None"
    by (auto simp: entry_line_def result_simps split: option.splits if_splits)
  then show ?thesis by (cases d) (auto simp: entry_direction_def split: if_splits)
qed

definition link_of :: "env \<Rightarrow> txn_line list \<Rightarrow> nat \<times> uuid \<Rightarrow> tax_rate_row \<Rightarrow> tax_link" where
  "link_of E inputs t rate =
     \<lparr>k_posting_idx = fst t, k_tax_rate_id = snd t, k_base_amount = \<bar>n_signed_amount (inputs ! fst t)\<bar>,
      k_tax_amount = round_dp E 2 (\<bar>n_signed_amount (inputs ! fst t)\<bar> * tr_rate rate)\<rparr>"

lemma expand_tax_Inr:
  assumes "expand_tax E rates (inputs @ legs, links) t = Inr st" and "fst t < length inputs"
  obtains rate where "find (\<lambda>r. tr_id r = snd t) rates = Some rate"
    and "st = (inputs @ (legs @ [tax_leg E rate (inputs ! fst t)]), links @ [link_of E inputs t rate])"
  using assms by (auto simp: expand_tax_def link_of_def nth_append split: prod.splits option.splits)

lemma expand_taxes:
  assumes "try_fold (expand_tax E rates) (inputs @ legs, links) ts = Inr (lines, links')" and "\<forall>t\<in>set ts. fst t < length inputs"
  shows "\<exists>rs. list_all2 (\<lambda>t rate. find (\<lambda>r. tr_id r = snd t) rates = Some rate) ts rs
     \<and> lines = inputs @ legs @ map2 (\<lambda>t rate. tax_leg E rate (inputs ! fst t)) ts rs
     \<and> links' = links @ map2 (link_of E inputs) ts rs"
  using assms
proof (induction ts arbitrary: legs links)
  case (Cons t ts)
  from Cons.prems obtain st where st: "expand_tax E rates (inputs @ legs, links) t = Inr st"
    "try_fold (expand_tax E rates) st ts = Inr (lines, links')" by (auto simp: result_simps)
  from expand_tax_Inr [OF st(1)] Cons.prems(2) obtain rate where rate: "find (\<lambda>r. tr_id r = snd t) rates = Some rate"
    and rest: "try_fold (expand_tax E rates) (inputs @ (legs @ [tax_leg E rate (inputs ! fst t)]), links @ [link_of E inputs t rate]) ts
      = Inr (lines, links')" using st(2) by auto
  from Cons.IH [OF rest] Cons.prems(2) obtain rs where "list_all2 (\<lambda>t rate. find (\<lambda>r. tr_id r = snd t) rates = Some rate) ts rs"
    "lines = inputs @ (legs @ [tax_leg E rate (inputs ! fst t)]) @ map2 (\<lambda>t rate. tax_leg E rate (inputs ! fst t)) ts rs"
    "links' = (links @ [link_of E inputs t rate]) @ map2 (link_of E inputs) ts rs" by auto
  with rate show ?case by (intro exI [of _ "rate # rs"]) simp
qed simp

lemma taxed_lines_bound: "t \<in> set (taxed_lines inputs) \<Longrightarrow> fst t < length inputs \<and> n_tax_rate_id (inputs ! fst t) = Some (snd t)"
  by (auto simp: taxed_lines_def set_map_filter in_set_enumerate_eq)

lemma entry_request_Inr:
  assumes "entry_request E order u l raw s = Inr new" and "\<forall>ks. set (order ks) = set ks"
  shows "\<exists>inputs rs. try_lines (entry_line E) (parse_lines raw) = Inr inputs \<and> 2 \<le> length inputs
     \<and> list_all2 (\<lambda>t rate. find (\<lambda>r. tr_id r = snd t) (load_active_tax_rates s l) = Some rate) (taxed_lines inputs) rs
     \<and> nt_lines new = inputs @ map2 (\<lambda>t rate. tax_leg E rate (inputs ! fst t)) (taxed_lines inputs) rs
     \<and> nt_tax_links new = map2 (link_of E inputs) (taxed_lines inputs) rs
     \<and> sum_list (map n_signed_amount (nt_lines new)) = 0 \<and> (\<forall>a. \<not> both_sides inputs a)
     \<and> nt_ledger_id new = l \<and> nt_created_by new = u \<and> nt_kind new = Some ''standard'' \<and> nt_reverses_id new = None
     \<and> parse_date E (form_text raw ''date'') = Some (nt_txn_date new)"
proof -
  from assms(1) obtain inputs lines links where
    i: "try_lines (entry_line E) (parse_lines raw) = Inr inputs" "2 \<le> length (parse_lines raw)"
    and same: "find (both_sides inputs) (order (remdups (map n_account_id inputs))) = None"
    and x: "try_fold (expand_tax E (load_active_tax_rates s l)) (inputs @ [], []) (taxed_lines inputs) = Inr (lines, links)"
    and new: "nt_lines new = lines" "nt_tax_links new = links" "sum_list (map n_signed_amount lines) = 0" "nt_ledger_id new = l"
      "nt_created_by new = u" "nt_kind new = Some ''standard''" "nt_reverses_id new = None"
      "parse_date E (form_text raw ''date'') = Some (nt_txn_date new)"
    by (auto simp: entry_request_def Let_def result_simps same_account_check_def not_less
        split: if_splits option.splits prod.splits)
  from expand_taxes [OF x] taxed_lines_bound obtain rs where rs:
    "list_all2 (\<lambda>t rate. find (\<lambda>r. tr_id r = snd t) (load_active_tax_rates s l) = Some rate) (taxed_lines inputs) rs"
    "lines = inputs @ map2 (\<lambda>t rate. tax_leg E rate (inputs ! fst t)) (taxed_lines inputs) rs"
    "links = map2 (link_of E inputs) (taxed_lines inputs) rs" by auto
  have "length inputs = length (parse_lines raw)" using i(1) by (simp add: try_lines_Inr list_all2_lengthD)
  moreover have "\<not> both_sides inputs a" for a
    using same assms(2) by (auto simp: find_None_iff both_sides_def list_ex_iff)
  ultimately show ?thesis using i rs new by (intro exI [of _ inputs] exI [of _ rs]) simp
qed

section \<open>Balanced books\<close>

abbreviation good_books :: "db \<Rightarrow> bool" where
  "good_books db \<equiv> db_wf db \<and> all_balanced db"

lemma good_books_eq: "books db = books db' \<Longrightarrow> good_books db \<longleftrightarrow> good_books db'"
  using db_wf_books all_balanced_books by blast

lemma good_books_cong:
  "transactions db = transactions db' \<Longrightarrow> postings db = postings db' \<Longrightarrow> accounts db = accounts db' \<Longrightarrow> ledgers db = ledgers db' \<Longrightarrow>
   good_books db \<longleftrightarrow> good_books db'"
  using db_wf_cong [of db db'] all_balanced_cong [of db db'] by simp

lemma good_books_log [simp]:
  "db_wf (audit_log E l u a e i o' n db) = db_wf db" "all_balanced (audit_log E l u a e i o' n db) = all_balanced db"
  by (rule db_wf_books all_balanced_books; rule audit_log_books)+

lemma postings_of_log [simp]: "postings_of (audit_log E l u a e i o' n db) t = postings_of db t"
  by (simp add: postings_of_def)

lemma tlog_core [simp]: "tcore (tlog E l u a e i o' n s) = audit_log E (Some l) u a e i o' n (tcore s)"
  by (simp add: tlog_def)

text \<open>The posting service keeps the books balanced.\<close>

lemma service_good:
  assumes "round_away E = round_half_away" and "good_books db"
  shows "on_grid_lines new \<Longrightarrow> good_books (snd (create E new db))"
    and "on_grid_lines new \<Longrightarrow> good_books (snd (create_draft E new db))"
    and "good_books (snd (post_draft E l t a db))" and "good_books (snd (delete_draft E l t a db))"
  using service_books.exec_inv [of "\<lambda>_. E" "(0, Create new)", OF _ assms(2)]
    service_books.exec_inv [of "\<lambda>_. E" "(0, CreateDraft new)", OF _ assms(2)]
    service_books.exec_inv [of "\<lambda>_. E" "(0, PostDraft l t a)", OF _ assms(2)]
    service_books.exec_inv [of "\<lambda>_. E" "(0, DeleteDraft l t a)", OF _ assms(2)] assms(1)
  by (simp_all add: service_step_def command_on_grid_def Let_def)

text \<open>A form whose amounts have at most four decimals becomes a request of that kind.\<close>

definition form_on_grid :: "env \<Rightarrow> (string \<times> string) list \<Rightarrow> bool" where
  "form_on_grid E raw \<longleftrightarrow>
     (\<forall>l\<in>set (parse_lines raw). \<forall>x. parse_dec E (trim (pl_amount l)) = Some x \<longrightarrow> on_grid 4 x)"

lemma request_on_grid:
  assumes "entry_request E order u l raw s = Inr new" and "\<forall>ks. set (order ks) = set ks"
    and "form_on_grid E raw" and "\<forall>x. on_grid 2 (round_dp E 2 x)"
  shows "on_grid_lines new"
proof -
  from entry_request_Inr [OF assms(1,2)] obtain inputs rs where
    i: "list_all2 (\<lambda>l x. entry_line E l = Inr x) (parse_lines raw) inputs"
    and lines: "nt_lines new = inputs @ map2 (\<lambda>t rate. tax_leg E rate (inputs ! fst t)) (taxed_lines inputs) rs"
    by (auto simp: try_lines_Inr)
  have "on_grid 4 (n_signed_amount x)" if "x \<in> set inputs" for x
  proof -
    from list_all2_mem [OF i that] obtain l where "l \<in> set (parse_lines raw)" "entry_line E l = Inr x" by blast
    with entry_line_Inr [of E l x] assms(3) have "on_grid 4 \<bar>n_signed_amount x\<bar>" by (auto simp: form_on_grid_def)
    then show ?thesis by simp
  qed
  moreover have "on_grid 4 (n_signed_amount (tax_leg E rate x))" for rate x
    using assms(4) by (simp add: tax_leg_def Let_def on_grid_mono)
  ultimately show ?thesis by (auto simp: on_grid_lines_def lines list_all_iff)
qed

lemma override_good:
  assumes "round_away E = round_half_away" and "on_grid_lines new" and "good_books db"
  shows "good_books (snd (override_post E display w reason new db))"
proof (cases "insert_reopen \<lparr>ro_ledger = nt_ledger_id new, ro_through = Some w, ro_by = nt_created_by new, ro_reason = reason\<rparr> db")
  case (Inl e)
  with assms(3) show ?thesis by (simp add: override_post_def)
next
  case (Inr db1)
  let ?db2 = "audit_log E (Some (nt_ledger_id new)) (nt_created_by new) ''override'' ''period'' None None
    (Some (JObj [(''closed_through'', JDate w), (''reason'', JStr reason), (''txn_date'', JDate (nt_txn_date new))])) db1"
  let ?db3 = "drop_watermarks (nt_ledger_id new) (nt_txn_date new) ?db2"
  have "good_books db1" using Inr assms(3) good_books_cong [of db1 db]
    by (auto simp: insert_reopen_def split: if_splits)
  then have "good_books ?db3" using good_books_cong [of ?db3 ?db2] by (simp add: drop_watermarks_def)
  from service_good(1) [OF assms(1) this assms(2)] show ?thesis
    by (auto simp: override_post_def Inr Let_def split: sum.splits prod.splits)
qed

lemma hard_closed_good:
  assumes "round_away E = round_half_away" and "on_grid_lines new" and "good_books db"
  shows "good_books (snd (hard_closed E display w reason new db))"
  using override_good [OF assms] assms(3) by (auto simp: hard_closed_def split: option.splits sum.splits)

text \<open>Attaching documents does not touch the books.\<close>

lemma insert_document_books: "insert_document E r s = Inr (i, s') \<Longrightarrow> books (tcore s') = books (tcore s)"
  by (auto simp: insert_document_def draw_def Let_def frame split: if_splits option.splits)

lemma attach_books: "books (tcore (attach_documents E infer store l t u ups b s)) = books (tcore s)"
proof -
  have save: "books (tcore (or_keep (save_inline_document E infer store l t u up) s)) = books (tcore s)" for up s
    by (auto simp: or_keep_def save_inline_document_def result_simps audit_log_books insert_document_books
        split: sum.splits if_splits prod.splits)
  have bind: "books (tcore (or_keep (bind_document E l d t u) s)) = books (tcore s)" for d s
    by (auto simp: or_keep_def bind_document_def result_simps audit_log_books split: sum.splits)
  have "books (tcore (fold (\<lambda>up. or_keep (save_inline_document E infer store l t u up)) ups s)) = books (tcore s)"
    by (induction ups arbitrary: s) (simp_all add: save)
  then show ?thesis by (simp add: attach_documents_def Let_def bind split: option.split)
qed

lemma create_entry_good:
  assumes "round_away E = round_half_away" and "\<forall>x. on_grid 2 (round_dp E 2 x)" and "\<forall>ks. set (order ks) = set ks"
    and "\<forall>raw ups. body = Inr (raw, ups) \<longrightarrow> form_on_grid E raw" and "good_books (tcore s)"
  shows "good_books (tcore (snd (create_entry E ut display order infer store user l body s)))"
proof (cases "rbind (signed_in user) (\<lambda>u. rbind (ensure_writer (tcore s) u l) (\<lambda>_. rbind body (\<lambda>b. Inr (u, b))))")
  case (Inl e)
  with assms(5) show ?thesis by (simp add: create_entry_def)
next
  case (Inr ub)
  obtain u raw ups where ub: "ub = (u, raw, ups)" by (cases ub)
  with Inr assms(4) have grid: "form_on_grid E raw" by (auto simp: result_simps)
  show ?thesis
  proof (cases "entry_request E order u l raw s")
    case (Inl e)
    with Inr ub assms(5) show ?thesis by (cases e) (simp_all add: create_entry_def)
  next
    case req: (Inr new)
    let ?w = "if map_of raw ''action'' = Some ''draft'' then create_draft E new (tcore s) else create E new (tcore s)"
    obtain r db1 where w: "?w = (r, db1)" by (cases ?w)
    have og: "on_grid_lines new" by (rule request_on_grid [OF req assms(3) grid assms(2)])
    have "good_books (snd ?w)" using service_good(1,2) [OF assms(1,5) og] by simp
    then have g: "good_books db1" by (simp add: w)
    show ?thesis
    proof (cases r)
      case (Inl e)
      show ?thesis
        using Inr ub req w Inl g hard_closed_good [OF assms(1) og g] unfolding create_entry_def
        by (cases e) (simp_all add: Let_def split_beta)
    next
      case (Inr c)
      then show ?thesis
        using \<open>rbind (signed_in user) _ = Inr ub\<close> ub req w g good_books_eq [OF attach_books] unfolding create_entry_def
        by (simp add: Let_def)
    qed
  qed
qed

section \<open>Corrections, transfers and bulk actions keep the books balanced\<close>

lemma reversal_good:
  assumes "insert_reversal E i l u d db = Inr (r, db')" and "good_books db"
  shows "good_books db'"
proof -
  from insert_reversal_entry [OF assms(1)] assms(2) obtain t qs where
    e: "adds_entry t qs db db'" "cancels db i qs" "i \<in> t_id ` set (transactions db)" by blast
  have "balanced db i" using assms(2) e(3) by (auto simp: all_balanced_def)
  then have "debit_sum qs = credit_sum qs" using e(2) by (simp add: cancels_def balanced_def)
  with entry_keeps_balance [OF _ _ e(1)] assms(2) show ?thesis by blast
qed

lemma reverse_entry_Inr:
  assumes "reverse_entry E user l t s = (Inr r, s')"
  obtains u orig db1 where "find (\<lambda>x. t_id x = t \<and> t_ledger x = l) (transactions (tcore s)) = Some orig"
    and "t_kind orig \<noteq> ''reversing''" and "\<not> is_closed (closed_through_for (tcore s) l) (t_date orig)"
    and "\<not> is_closed (closed_through_for (tcore s) l) (today E)"
    and "insert_reversal E t l u (t_description orig) (tcore s) = Inr (r, db1)"
    and "s' = tlog E l u ''reverse'' ''transaction'' (Some t) None
           (Some (JObj [(''reversal_id'', JUuid r), (''original_id'', JUuid t)])) (s\<lparr>tcore := db1\<rparr>)"
proof -
  from assms obtain u db1 where b: "reverse_body E u l t (tcore s) = Inr (r, db1)"
    "s' = tlog E l u ''reverse'' ''transaction'' (Some t) None
           (Some (JObj [(''reversal_id'', JUuid r), (''original_id'', JUuid t)])) (s\<lparr>tcore := db1\<rparr>)"
    by (auto simp: reverse_entry_def run_tx_def split: sum.splits prod.splits)
  then obtain orig where o: "find (\<lambda>x. t_id x = t \<and> t_ledger x = l) (transactions (tcore s)) = Some orig"
    "t_kind orig \<noteq> ''reversing''" "dates_open l (t_date orig) (today E) (t_date orig) ''Reversal'' (tcore s) = Inr ()"
    "insert_reversal E (t_id orig) l u (t_description orig) (tcore s) = Inr (r, db1)"
    by (auto simp: reverse_body_def locked_original_def result_simps split: if_splits)
  moreover have "t_id orig = t" using find_Some_mem [OF o(1)] by simp
  moreover have "\<not> is_closed (closed_through_for (tcore s) l) (t_date orig) \<and> \<not> is_closed (closed_through_for (tcore s) l) (today E)"
    using o(3) by (simp add: dates_open_def Let_def split: if_splits)
  ultimately show thesis using that b(2) by auto
qed

lemma reverse_entry_good:
  assumes "good_books (tcore s)"
  shows "good_books (tcore (snd (reverse_entry E user l t s)))"
proof (cases "reverse_entry E user l t s")
  case (Pair x s')
  show ?thesis
  proof (cases x)
    case (Inl e)
    with Pair assms show ?thesis
      by (auto simp: reverse_entry_def run_tx_def split: sum.splits prod.splits)
  next
    case (Inr r)
    with Pair have "reverse_entry E user l t s = (Inr r, s')" by simp
    then show ?thesis by (rule reverse_entry_Inr) (use assms Pair reversal_good in auto)
  qed
qed

text \<open>Signed lines as stored.\<close>

lemma signed_net:
  assumes "list_all2 posting_stored (map (signed_posting t) ls) qs" and "list_all (\<lambda>l. on_grid 4 (n_signed_amount l)) ls"
  shows "net qs = sum_list (map n_signed_amount ls)"
    and "net_of qs a = sum_list (map n_signed_amount (filter (\<lambda>l. n_account_id l = a) ls))"
proof -
  from assms have "net qs = sum_list (map n_signed_amount ls)
    \<and> net_of qs a = sum_list (map n_signed_amount (filter (\<lambda>l. n_account_id l = a) ls))"
  proof (induction ls arbitrary: qs)
    case (Cons l ls)
    from Cons.prems(1) obtain q qs' where q: "qs = q # qs'" "posting_stored (signed_posting t l) q"
      "list_all2 posting_stored (map (signed_posting t) ls) qs'" by (auto simp: list_all2_Cons1)
    then have "(if is_debit q then p_amount q else if is_credit q then - p_amount q else 0) = n_signed_amount l"
      "p_account q = n_account_id l"
      using Cons.prems(2)
      by (auto simp: posting_stored_def signed_posting_def plain_posting_def is_debit_def is_credit_def away.rnd_exact)
    with Cons.IH [OF q(3)] Cons.prems(2) show ?case by (simp add: q(1))
  qed simp
  then show "net qs = sum_list (map n_signed_amount ls)"
    "net_of qs a = sum_list (map n_signed_amount (filter (\<lambda>l. n_account_id l = a) ls))" by blast+
qed

lemma edit_body_Inr:
  assumes "edit_body E u l t form d inputs db = Inr ((r, c), db')" and "db_wf db"
  obtains orig db1 row qs where "find (\<lambda>x. t_id x = t \<and> t_ledger x = l) (transactions db) = Some orig"
    and "t_kind orig \<noteq> ''reversing''" and "\<not> is_closed (closed_through_for db l) (t_date orig)"
    and "\<not> is_closed (closed_through_for db l) d"
    and "insert_reversal E t l u (t_description orig) db = Inr (r, db1)"
    and "list_all2 posting_stored (map (signed_posting c) inputs) qs" and "adds_entry row qs db1 db'"
    and "t_id row = c" and "t_date row = d" and "t_kind row = ''standard''" and "t_ledger row = l"
proof -
  from assms(1) obtain orig db1 db2 currency where
    o: "find (\<lambda>x. t_id x = t \<and> t_ledger x = l) (transactions db) = Some orig" "t_kind orig \<noteq> ''reversing''"
      "dates_open l (t_date orig) d d ''Edit'' db = Inr ()"
      "insert_reversal E (t_id orig) l u (t_description orig) db = Inr (r, db1)"
    and i: "insert_transaction E (bare_txn l d (trim (ef_description form)) (nonempty_field (ef_payee form))
              (nonempty_field (ef_reference form)) currency ''standard'' u None) db1 = Inr (c, db2)"
      "add_postings E (map (signed_posting c) inputs) db2 = Inr db'"
    by (auto simp: edit_body_def locked_original_def result_simps split: if_splits prod.splits)
  have "list_all (\<lambda>p. p_txn p = c) (map (signed_posting c) inputs)"
    by (simp add: list_all_iff signed_posting_def plain_posting_def)
  from written_entry [OF i this] obtain qs where qs: "list_all2 posting_stored (map (signed_posting c) inputs) qs"
    "adds_entry ((bare_txn l d (trim (ef_description form)) (nonempty_field (ef_payee form))
              (nonempty_field (ef_reference form)) currency ''standard'' u None)\<lparr>t_id := c, t_created_at := now E\<rparr>) qs db1 db'" by blast
  moreover have "t_id orig = t" using find_Some_mem [OF o(1)] by simp
  moreover have "\<not> is_closed (closed_through_for db l) (t_date orig)" "\<not> is_closed (closed_through_for db l) d"
    using o(3) by (simp_all add: dates_open_def Let_def split: if_splits)
  ultimately show thesis using o by (intro that [OF _ _ _ _ _ qs]) (simp_all add: bare_txn_def)
qed

text \<open>An edit is entered balanced when its lines have at most four decimals and add up to zero.\<close>

definition edit_balanced :: "env \<Rightarrow> edit_form \<Rightarrow> bool" where
  "edit_balanced E form \<longleftrightarrow>
     (\<forall>inputs. try_lines (edit_line E) (parse_lines (ef_extra form)) = Inr inputs \<longrightarrow>
        list_all (\<lambda>l. on_grid 4 (n_signed_amount l)) inputs \<and> sum_list (map n_signed_amount inputs) = 0)"

lemma edit_entry_good:
  assumes "edit_balanced E form" and "good_books (tcore s)"
  shows "good_books (tcore (snd (edit_entry E ut user l t form s)))"
proof (cases "edit_request E ut user l form s")
  case (Inl e)
  with assms(2) show ?thesis by (simp add: edit_entry_def)
next
  case (Inr x)
  obtain u d inputs where x: "x = (u, d, inputs)" by (cases x)
  have bal: "list_all (\<lambda>l. on_grid 4 (n_signed_amount l)) inputs" "sum_list (map n_signed_amount inputs) = 0"
    using assms(1) Inr by (auto simp: edit_balanced_def edit_request_def x result_simps Let_def split: if_splits)
  show ?thesis
  proof (cases "edit_body E u l t form d inputs (tcore s)")
    case (Inl e)
    with Inr x assms(2) show ?thesis by (simp add: edit_entry_def run_tx_def)
  next
    case body: (Inr y)
    obtain r c db' where y: "y = ((r, c), db')" by (metis surj_pair)
    have "edit_body E u l t form d inputs (tcore s) = Inr ((r, c), db')" by (simp add: body y)
    moreover have "db_wf (tcore s)" using assms(2) by simp
    ultimately have "good_books db'"
    proof (rule edit_body_Inr)
      fix orig db1 row qs
      assume "insert_reversal E t l u (t_description orig) (tcore s) = Inr (r, db1)"
        and qs: "list_all2 posting_stored (map (signed_posting c) inputs) qs" "adds_entry row qs db1 db'"
      then have "good_books db1" using reversal_good assms(2) by blast
      moreover have "debit_sum qs = credit_sum qs" using signed_net(1) [OF qs(1) bal(1)] bal(2) by (simp add: net_def)
      ultimately show "good_books db'" using entry_keeps_balance [OF _ _ qs(2)] by blast
    qed
    with Inr x body y show ?thesis by (simp add: edit_entry_def run_tx_def)
  qed
qed

lemma simple_lines_two:
  "\<exists>b. simple_lines cash a amount = [(a, amount), (b, - amount)] \<and> (\<forall>c. cash = Some c \<longrightarrow> c \<noteq> a \<longrightarrow> b = c)"
  by (cases cash) (auto simp: simple_lines_def)

definition simple_entry :: "db \<Rightarrow> uuid \<Rightarrow> date \<Rightarrow> uuid \<Rightarrow> decimal \<Rightarrow> txn_row \<Rightarrow> posting_row list \<Rightarrow> bool" where
  "simple_entry db l d a amount t qs \<longleftrightarrow>
     t_ledger t = l \<and> t_date t = d \<and> t_kind t = ''standard''
   \<and> debit_sum qs = round_half_away 4 amount \<and> credit_sum qs = round_half_away 4 amount
   \<and> (\<forall>c. cash_on_hand db l = Some c \<longrightarrow> c \<noteq> a \<longrightarrow>
        net_of qs a = round_half_away 4 amount \<and> net_of qs c = - round_half_away 4 amount)"

lemma simple_txn_entry:
  assumes "insert_simple_txn E l d desc a amount cur u db = Inr (t, db')" and "0 < amount"
  shows "\<exists>row qs. adds_entry row qs db db' \<and> t_id row = t \<and> simple_entry db l d a amount row qs"
proof -
  from assms(1) obtain db1 where
    i: "insert_transaction E (bare_txn l d desc None None cur ''standard'' u None) db = Inr (t, db1)"
      "add_postings E (map (simple_posting t) (simple_lines (cash_on_hand db1 l) a amount)) db1 = Inr db'"
    by (auto simp: insert_simple_txn_def result_simps split: prod.splits)
  have "list_all (\<lambda>p. p_txn p = t) (map (simple_posting t) (simple_lines (cash_on_hand db1 l) a amount))"
    by (simp add: list_all_iff simple_posting_def plain_posting_def)
  from written_entry [OF i this] obtain qs where
    qs: "list_all2 posting_stored (map (simple_posting t) (simple_lines (cash_on_hand db1 l) a amount)) qs"
    "adds_entry ((bare_txn l d desc None None cur ''standard'' u None)\<lparr>t_id := t, t_created_at := now E\<rparr>) qs db db'" by blast
  have cash: "cash_on_hand db1 l = cash_on_hand db l" using i(1) by (auto simp: insert_transaction_Inr cash_on_hand_def)
  obtain b where lines: "simple_lines (cash_on_hand db l) a amount = [(a, amount), (b, - amount)]"
    and b: "\<forall>c. cash_on_hand db l = Some c \<longrightarrow> c \<noteq> a \<longrightarrow> b = c"
    using simple_lines_two by blast
  from qs(1) obtain q1 q2 where q: "qs = [q1, q2]" "posting_stored (simple_posting t (a, amount)) q1"
    "posting_stored (simple_posting t (b, - amount)) q2"
    by (auto simp: cash lines list_all2_Cons1)
  then have "is_debit q1" "\<not> is_credit q1" "is_credit q2" "\<not> is_debit q2" "p_account q1 = a" "p_account q2 = b"
    "p_amount q1 = round_half_away 4 amount" "p_amount q2 = round_half_away 4 amount"
    using assms(2)
    by (simp_all add: posting_stored_def simple_posting_def plain_posting_def is_debit_def is_credit_def)
  then show ?thesis using qs(2) b
    by (intro exI [of _ "(bare_txn l d desc None None cur ''standard'' u None)\<lparr>t_id := t, t_created_at := now E\<rparr>"] exI [of _ qs])
      (auto simp: q(1) simple_entry_def debit_sum_def credit_sum_def bare_txn_def)
qed

lemma insert_transfer_Inr:
  "insert_transfer E r s = Inr (i, s') \<Longrightarrow> books (tcore s') = books (tcore s)
   \<and> (\<exists>x. transfers s' = transfers s @ [x] \<and> tf_id x = i \<and> tf_from_txn x = tf_from_txn r \<and> tf_to_txn x = tf_to_txn r
       \<and> tf_from_ledger x = tf_from_ledger r \<and> tf_to_ledger x = tf_to_ledger r
       \<and> tf_from_account x = tf_from_account r \<and> tf_to_account x = tf_to_account r \<and> tf_amount x = round_half_away 4 (tf_amount r))"
  by (auto simp: insert_transfer_def draw_def Let_def frame numeric_col_def split: if_splits option.splits)

lemma create_transfer_Inr:
  assumes "create_transfer E user form s = (Inr i, s')"
  obtains u amount fee fc tc description t1 t2 db1 db2 where "parse_dec E (trim (xf_amount form)) = Some amount" and "0 < amount"
    and "user = Some u" and "\<exists>r. ensure_writer (tcore s) u (xf_from_ledger_id form) = Inr r"
    and "\<exists>r. ensure_writer (tcore s) u (xf_to_ledger_id form) = Inr r"
    and "insert_simple_txn E (xf_from_ledger_id form) (xf_date form) description (xf_from_account_id form) amount fc u
           ((tcore s)\<lparr>balance_trigger := False\<rparr>) = Inr (t1, db1)"
    and "insert_simple_txn E (xf_to_ledger_id form) (xf_date form) description (xf_to_account_id form) amount tc u db1 = Inr (t2, db2)"
    and "books (tcore s') = books db2" and "xf_from_ledger_id form \<noteq> xf_to_ledger_id form"
    and "\<exists>x. transfers s' = transfers s @ [x] \<and> tf_id x = i \<and> tf_from_txn x = t1 \<and> tf_to_txn x = t2
       \<and> tf_from_ledger x = xf_from_ledger_id form \<and> tf_to_ledger x = xf_to_ledger_id form
       \<and> tf_from_account x = xf_from_account_id form \<and> tf_to_account x = xf_to_account_id form \<and> tf_amount x = round_half_away 4 amount"
proof -
  from assms obtain u amount fee fc tc s2 where
    req: "transfer_request E user form s = Inr (u, amount, fee, fc, tc)"
    and body: "transfer_body E u form amount fee (if trim (xf_description form) = [] then ''Inter-ledger transfer '' @ show_date (today E)
        else xf_description form) fc tc (s\<lparr>tcore := (tcore s)\<lparr>balance_trigger := False\<rparr>\<rparr>) = Inr (i, s2)"
    and s': "books (tcore s') = books (tcore s2)" "transfers s' = transfers s2"
    by (auto simp: create_transfer_def Let_def run_tx_def audit_log_books tlog_def split: sum.splits prod.splits)
  from body obtain t1 db1 t2 db2 where
    "insert_simple_txn E (xf_from_ledger_id form) (xf_date form) (if trim (xf_description form) = [] then ''Inter-ledger transfer '' @ show_date (today E)
        else xf_description form) (xf_from_account_id form) amount fc u ((tcore s)\<lparr>balance_trigger := False\<rparr>) = Inr (t1, db1)"
    "insert_simple_txn E (xf_to_ledger_id form) (xf_date form) (if trim (xf_description form) = [] then ''Inter-ledger transfer '' @ show_date (today E)
        else xf_description form) (xf_to_account_id form) amount tc u db1 = Inr (t2, db2)"
    "books (tcore s2) = books db2"
    "\<exists>x. transfers s2 = transfers s @ [x] \<and> tf_id x = i \<and> tf_from_txn x = t1 \<and> tf_to_txn x = t2
       \<and> tf_from_ledger x = xf_from_ledger_id form \<and> tf_to_ledger x = xf_to_ledger_id form
       \<and> tf_from_account x = xf_from_account_id form \<and> tf_to_account x = xf_to_account_id form \<and> tf_amount x = round_half_away 4 amount"
    by (auto simp: transfer_body_def result_simps dest!: insert_transfer_Inr split: prod.splits)
  moreover from req have "xf_from_ledger_id form \<noteq> xf_to_ledger_id form"
    by (auto simp: transfer_request_def result_simps split: if_splits)
  moreover from req have "parse_dec E (trim (xf_amount form)) = Some amount" "0 < amount" "user = Some u"
    "\<exists>r. ensure_writer (tcore s) u (xf_from_ledger_id form) = Inr r" "\<exists>r. ensure_writer (tcore s) u (xf_to_ledger_id form) = Inr r"
    by (auto simp: transfer_request_def signed_in_def result_simps split: if_splits)
  ultimately show thesis using s' that by (simp only: s'(2)) blast
qed

lemma create_transfer_good:
  assumes "good_books (tcore s)"
  shows "good_books (tcore (snd (create_transfer E user form s)))"
proof (cases "create_transfer E user form s")
  case (Pair x s')
  have off: "good_books ((tcore s)\<lparr>balance_trigger := False\<rparr>)" using assms good_books_cong [of "(tcore s)\<lparr>balance_trigger := False\<rparr>" "tcore s"] by simp
  show ?thesis
  proof (cases x)
    case (Inl e)
    with Pair assms off show ?thesis
      by (auto simp: create_transfer_def Let_def run_tx_def split: sum.splits prod.splits)
  next
    case (Inr i)
    with Pair have "create_transfer E user form s = (Inr i, s')" by simp
    then show ?thesis
    proof (rule create_transfer_Inr)
      fix u amount fc tc description t1 t2 db1 db2
      assume pos: "0 < amount"
        and e: "insert_simple_txn E (xf_from_ledger_id form) (xf_date form) description (xf_from_account_id form) amount fc u
           ((tcore s)\<lparr>balance_trigger := False\<rparr>) = Inr (t1, db1)"
         "insert_simple_txn E (xf_to_ledger_id form) (xf_date form) description (xf_to_account_id form) amount tc u db1 = Inr (t2, db2)"
        and b: "books (tcore s') = books db2"
      have "good_books db1" using simple_txn_entry [OF e(1) pos] entry_keeps_balance off unfolding simple_entry_def by (metis (no_types, lifting))
      then have "good_books db2" using simple_txn_entry [OF e(2) pos] entry_keeps_balance unfolding simple_entry_def by (metis (no_types, lifting))
      with good_books_eq [OF b] Pair show ?thesis by simp
    qed
  qed
qed

lemma reverse_transfer_good:
  assumes "good_books (tcore s)"
  shows "good_books (tcore (snd (reverse_transfer E user l t1 t2 s)))"
proof -
  have side: "good_books (snd (run_tx (reverse_side E u l t) db))" if "good_books db" for u t db
  proof -
    have off: "good_books (db\<lparr>balance_trigger := False\<rparr>)" using that good_books_cong [of "db\<lparr>balance_trigger := False\<rparr>" db] by simp
    show ?thesis using that reversal_good [OF _ off]
      by (auto simp: run_tx_def reverse_side_def map_err_def split: sum.splits prod.splits)
  qed
  have step: "good_books db2" if "run_tx (reverse_side E u l t) db = (x, db2)" "good_books db" for u t db x db2
    using side [OF that(2), of u t] that(1) by simp
  show ?thesis
    using assms by (auto simp: reverse_transfer_def dest: step split: sum.splits prod.splits)
qed

lemma selected_entry:
  assumes "insert_transaction E r db = Inr (t, db1)" and "insert_select E t ps db1 = Inr db2" and "list_all (\<lambda>p. p_txn p = t) ps"
  shows "\<exists>qs. list_all2 posting_stored ps qs \<and> adds_entry (r\<lparr>t_id := t, t_created_at := now E\<rparr>) qs db db2"
proof -
  from assms(1) have t: "t \<notin> t_id ` set (transactions db)"
    and db1: "db1 = db\<lparr>drawn := Suc (drawn db), transactions := transactions db @ [r\<lparr>t_id := t, t_created_at := now E\<rparr>]\<rparr>"
    by (auto simp: insert_transaction_Inr)
  from assms(2) obtain db3 where db3: "add_postings E ps (db1\<lparr>balance_trigger := False\<rparr>) = Inr db3"
    "db2 = db3\<lparr>balance_trigger := balance_trigger db1\<rparr>"
    by (auto simp: insert_select_def result_simps Let_def split: if_splits)
  from add_postings_stored [OF db3(1)] obtain qs where qs: "list_all2 posting_stored ps qs"
    "db3 = db1\<lparr>balance_trigger := False, drawn := drawn db1 + length ps, postings := postings db1 @ qs\<rparr>" by auto
  have "db_wf db \<Longrightarrow> db_wf db2"
    using add_postings_wf [OF db3(1)] db_wf_insert_transaction [OF _ assms(1)] by (simp add: db3(2))
  then have "adds_entry (r\<lparr>t_id := t, t_created_at := now E\<rparr>) qs db db2"
    using t stored_txn [OF qs(1) assms(3)] by (simp add: adds_entry_def qs(2) db1 db3(2))
  with qs(1) show ?thesis by blast
qed

lemma bulk_reverse_entry:
  assumes "bulk_reverse E l u (n, db) i = Inr (n', db')" and "db_wf db"
    and "find (\<lambda>t. t_id t = i \<and> t_ledger t = l) (transactions db) = Some orig"
  shows "\<exists>t qs. adds_entry t qs db db' \<and> cancels db i qs \<and> t_kind t = ''reversing'' \<and> t_date t = t_date orig \<and> t_ledger t = l \<and> n' = n + 1"
proof -
  let ?row = "bare_txn l (t_date orig) (''REVERSAL of '' @ t_description orig) (t_payee orig) (t_reference orig) (t_currency orig)
    ''reversing'' u None"
  from assms(1,3) obtain r db1 where i: "insert_transaction E ?row db = Inr (r, db1)"
    "insert_select E r (map (mirror_posting r (\<lambda>_. Some ''reversal'')) (postings_of db1 i)) db1 = Inr db'" and n: "n' = n + 1"
    by (auto simp: bulk_reverse_def result_simps split: prod.splits)
  have same: "postings_of db1 i = postings_of db i" using i(1) by (auto simp: insert_transaction_Inr postings_of_def)
  have "list_all (\<lambda>q. p_txn q = r) (map (mirror_posting r (\<lambda>_. Some ''reversal'')) (postings_of db1 i))"
    by (simp add: list_all_iff mirror_posting_def plain_posting_def)
  from selected_entry [OF i this] obtain qs where
    qs: "list_all2 posting_stored (map (mirror_posting r (\<lambda>_. Some ''reversal'')) (postings_of db i)) qs"
    "adds_entry (?row\<lparr>t_id := r, t_created_at := now E\<rparr>) qs db db'" unfolding same by blast
  have "cancels db i qs" using mirror_sums [OF qs(1) postings_of_wf [OF assms(2)]] by (simp add: cancels_def)
  with qs(2) n show ?thesis
    by (intro exI [of _ "?row\<lparr>t_id := r, t_created_at := now E\<rparr>"] exI [of _ qs]) (simp add: bare_txn_def)
qed

lemma bulk_reverse_good:
  assumes "bulk_reverse E l u st i = Inr st'" and "good_books (snd st)"
  shows "good_books (snd st')"
proof -
  obtain n db n' db' where st: "st = (n, db)" "st' = (n', db')" by (metis surj_pair)
  show ?thesis
  proof (cases "find (\<lambda>t. t_id t = i \<and> t_ledger t = l) (transactions db)")
    case None
    with assms show ?thesis by (auto simp: st bulk_reverse_def)
  next
    case (Some orig)
    from bulk_reverse_entry [OF _ _ Some] assms obtain t qs where e: "adds_entry t qs db db'" "cancels db i qs"
      unfolding st by fastforce
    have "balanced db i" using assms(2) find_Some_mem [OF Some] by (auto simp: all_balanced_def st)
    then have "debit_sum qs = credit_sum qs" using e(2) by (simp add: cancels_def balanced_def)
    with entry_keeps_balance [OF _ _ e(1)] assms(2) show ?thesis by (simp add: st)
  qed
qed

lemma tag_core [simp]:
  "tcore (snd (fold (attach_tag l g) ids st)) = tcore (snd st)" "tcore (snd (fold (detach_tag l g) ids st)) = tcore (snd st)"
  by (induction ids arbitrary: st) (auto simp: attach_tag_def detach_tag_def Let_def split: prod.splits)

lemma set_contact_core: "try_fold (set_contact l c) st ids = Inr st' \<Longrightarrow> tcore (snd st') = tcore (snd st)"
  by (erule try_fold_invariant [where P = "\<lambda>x. tcore (snd x) = tcore (snd st)"])
    (auto simp: set_contact_def Let_def split: if_splits prod.splits)

lemma map_sum_eq_Inr: "map_sum f g r = Inr y \<longleftrightarrow> (\<exists>x. r = Inr x \<and> y = g x)"
  by (cases r) auto

lemma bulk_action_good:
  assumes "good_books (tcore s)"
  shows "good_books (tcore (snd (bulk_action E ue user l form s)))"
proof -
  have up: "books (tcore s1) = books (tcore s)" if "upsert_tag E l name s = Inr (i, s1)" for name i s1
    using that by (auto simp: upsert_tag_def draw_def Let_def frame split: if_splits option.splits)
  have "good_books (tcore (snd (tag_action E l u ids v s)))" for u ids v
  proof (cases "rbind (action_value ''tag'' v) (\<lambda>name. map_err AppDb (map_sum id (Pair name) (upsert_tag E l name s)))")
    case (Inl e)
    with assms show ?thesis by (simp add: tag_action_def)
  next
    case (Inr x)
    obtain name g s1 where x: "x = (name, g, s1)" by (cases x)
    with Inr have "upsert_tag E l name s = Inr (g, s1)" by (auto simp: result_simps map_sum_eq_Inr)
    from good_books_eq [OF up [OF this]] assms Inr x show ?thesis by (simp add: tag_action_def split_beta)
  qed
  moreover have "good_books (tcore (snd (untag_action E l ids v s)))" for ids v
    using assms by (simp add: untag_action_def split_beta split: sum.split)
  moreover have "good_books (tcore (snd (contact_action E ue l u ids v s)))" for u ids v
    using assms by (auto simp: contact_action_def dest: set_contact_core split: sum.splits prod.splits)
  moreover have "good_books (tcore (snd (delete_action E l u ids s)))" for u ids
  proof -
    have "good_books (snd st)" if "try_fold (bulk_reverse E l u) (0, tcore s) ids = Inr st" for st
      by (rule try_fold_invariant [OF that, where P = "\<lambda>x. good_books (snd x)"]) (use assms bulk_reverse_good in auto)
    with assms show ?thesis by (force simp: delete_action_def split: sum.splits prod.splits)
  qed
  ultimately show ?thesis using assms
    by (simp add: bulk_action_def Let_def split_beta split: sum.split)
qed

section \<open>Sequences of requests\<close>

text \<open>What the requests take from outside, for all of them.\<close>

record entry_crates =
  ec_uuid_text :: "uuid \<Rightarrow> string"
  ec_display :: "posting_service_error \<Rightarrow> string"
  ec_order :: "uuid list \<Rightarrow> uuid list"
  ec_infer :: "string \<Rightarrow> string option"
  ec_store :: storage
  ec_fx :: "fx_error \<Rightarrow> string"
  ec_uuid_error :: "string \<Rightarrow> string"

datatype entry_command =
    CreateEntry "uuid option" uuid entry_body
  | PromoteDraft "uuid option" uuid uuid
  | DiscardDraft "uuid option" uuid uuid
  | ReverseEntry "uuid option" uuid uuid
  | EditEntry "uuid option" uuid uuid edit_form
  | CreateTransfer "uuid option" transfer_form
  | ReverseTransfer "uuid option" uuid uuid uuid
  | BulkAction "uuid option" uuid bulk_form
  | BindDocument "uuid option" uuid uuid uuid

definition entry_step :: "entry_crates \<Rightarrow> (nat \<Rightarrow> env) \<Rightarrow> nat \<times> entry_command \<Rightarrow> tdb \<Rightarrow> tdb" where
  "entry_step K Es c s =
     (let E = Es (fst c) in
      case snd c of
        CreateEntry u l body \<Rightarrow>
          snd (create_entry E (ec_uuid_text K) (ec_display K) (ec_order K) (ec_infer K) (ec_store K) u l body s)
      | PromoteDraft u l t \<Rightarrow> snd (post_draft_entry E (ec_fx K) u l t s)
      | DiscardDraft u l t \<Rightarrow> snd (discard_draft E (ec_fx K) u l t s)
      | ReverseEntry u l t \<Rightarrow> snd (reverse_entry E u l t s)
      | EditEntry u l t form \<Rightarrow> snd (edit_entry E (ec_uuid_text K) u l t form s)
      | CreateTransfer u form \<Rightarrow> snd (create_transfer E u form s)
      | ReverseTransfer u l t1 t2 \<Rightarrow> snd (reverse_transfer E u l t1 t2 s)
      | BulkAction u l form \<Rightarrow> snd (bulk_action E (ec_uuid_error K) u l form s)
      | BindDocument u l d t \<Rightarrow> snd (bind_doc E u l d t s))"

definition entry_ok :: "entry_crates \<Rightarrow> (nat \<Rightarrow> env) \<Rightarrow> nat \<times> entry_command \<Rightarrow> bool" where
  "entry_ok K Es c \<longleftrightarrow>
     (let E = Es (fst c) in
      round_away E = round_half_away \<and> (\<forall>x. on_grid 2 (round_dp E 2 x)) \<and> (\<forall>ks. set (ec_order K ks) = set ks)
    \<and> (case snd c of
         CreateEntry u l body \<Rightarrow> (\<forall>raw ups. body = Inr (raw, ups) \<longrightarrow> form_on_grid E raw)
       | EditEntry u l t form \<Rightarrow> edit_balanced E form
       | _ \<Rightarrow> True))"

lemma draft_entries_good:
  assumes "round_away E = round_half_away" and "good_books (tcore s)"
  shows "good_books (tcore (snd (post_draft_entry E fx user l t s)))" and "good_books (tcore (snd (discard_draft E fx user l t s)))"
  using service_good(3,4) [OF assms, of l t] assms(2)
  by (simp_all add: post_draft_entry_def discard_draft_def cascade_txn_def split: sum.split prod.split)
    (metis snd_conv)+

interpretation entries: command_system "entry_step K Es" "entry_ok K Es" "\<lambda>s. good_books (tcore s)" for K Es
proof unfold_locales
  fix c :: "nat \<times> entry_command" and s :: tdb
  assume ok: "entry_ok K Es c" and inv: "good_books (tcore s)"
  obtain n q where c: "c = (n, q)" by (cases c)
  have env: "round_away (Es n) = round_half_away" "\<forall>x. on_grid 2 (round_dp (Es n) 2 x)" "\<forall>ks. set (ec_order K ks) = set ks"
    using ok by (simp_all add: entry_ok_def c Let_def)
  have "good_books (tcore (snd (bind_doc (Es n) u l d t s)))" for u l d t
    using inv by (auto simp: bind_doc_def bind_document_def result_simps split: sum.splits)
  with ok show "good_books (tcore (entry_step K Es c s))"
    using create_entry_good [OF env _ inv] draft_entries_good [OF env(1) inv] reverse_entry_good [OF inv]
      edit_entry_good [OF _ inv] create_transfer_good [OF inv] reverse_transfer_good [OF inv] bulk_action_good [OF inv]
    by (cases q) (simp_all add: entry_step_def entry_ok_def c Let_def)
qed

text \<open>
  C8: Entering, drafting, promoting, discarding, reversing, editing, transferring and acting in bulk, in any order and
  by anyone, keeps every transaction balanced and with it the ledger as a whole, provided amounts have at most four
  decimals and the lines of every edit add up to zero, which the edit handler does not check.
\<close>

theorem entries_stay_balanced:
  assumes "db_wf (tcore s)" and "all_balanced (tcore s)" and "list_all (entry_ok K Es) cs"
  shows "(\<forall>i\<in>t_id ` set (transactions (tcore (fold (entry_step K Es) cs s))). balanced (tcore (fold (entry_step K Es) cs s)) i)
    \<and> debit_sum (postings (tcore (fold (entry_step K Es) cs s))) = credit_sum (postings (tcore (fold (entry_step K Es) cs s)))"
proof -
  have good: "good_books (tcore (fold (entry_step K Es) cs s))"
    using entries.run_inv [of s K Es cs] assms by simp
  then have "\<forall>i\<in>t_id ` set (transactions (tcore (fold (entry_step K Es) cs s))). balanced (tcore (fold (entry_step K Es) cs s)) i"
    unfolding all_balanced_def by blast
  with good ledger_totals show ?thesis by blast
qed

text \<open>What a line of the form asks for, and what a tax leg and its link are, told without the routines that build them.\<close>

definition entered :: "env \<Rightarrow> parsed_line \<Rightarrow> txn_line \<Rightarrow> bool" where
  "entered E p x \<longleftrightarrow>
     parse_uuid E (pl_account_id p) = Some (n_account_id x)
   \<and> (\<exists>a. parse_dec E (trim (pl_amount p)) = Some a \<and> 0 < a \<and> \<bar>n_signed_amount x\<bar> = a)
   \<and> (pl_direction p = ''CREDIT'' \<and> n_signed_amount x < 0 \<or> pl_direction p = ''DEBIT'' \<and> 0 < n_signed_amount x)
   \<and> n_tax_rate_id x = (if trim (pl_tax_rate_id p) = [] then None else parse_uuid E (trim (pl_tax_rate_id p)))"

definition taxes :: "env \<Rightarrow> txn_line \<Rightarrow> tax_rate_row \<Rightarrow> txn_line \<Rightarrow> tax_link \<Rightarrow> bool" where
  "taxes E base rate leg link \<longleftrightarrow>
     n_tax_rate_id base = Some (tr_id rate) \<and> n_account_id leg = tr_account rate
   \<and> n_signed_amount leg = sgn (n_signed_amount base) * round_dp E 2 (\<bar>n_signed_amount base\<bar> * tr_rate rate)
   \<and> k_tax_rate_id link = tr_id rate \<and> k_base_amount link = \<bar>n_signed_amount base\<bar>
   \<and> k_tax_amount link = round_dp E 2 (\<bar>n_signed_amount base\<bar> * tr_rate rate)"

lemma entry_line_entered:
  assumes "entry_line E p = Inr x"
  shows "entered E p x"
proof -
  from assms obtain a d where a: "parse_dec E (trim (pl_amount p)) = Some a" "0 < a" "entry_direction (pl_direction p) = Inr d"
    "n_signed_amount x = (case d of Debit \<Rightarrow> a | Credit \<Rightarrow> - a)" "parse_uuid E (pl_account_id p) = Some (n_account_id x)"
    "n_tax_rate_id x = (if trim (pl_tax_rate_id p) = [] then None else parse_uuid E (trim (pl_tax_rate_id p)))"
    by (auto simp: entry_line_def result_simps split: option.splits if_splits)
  then show ?thesis by (cases d) (auto simp: entered_def entry_direction_def split: if_splits)
qed

lemma taxed_lines_fst: "map fst (taxed_lines inputs) = filter (\<lambda>i. n_tax_rate_id (inputs ! i) \<noteq> None) [0..<length inputs]"
proof -
  have "enumerate 0 inputs = map (\<lambda>i. (i, inputs ! i)) [0..<length inputs]"
    by (rule nth_equalityI) (simp_all add: nth_enumerate_eq)
  then have "map fst (taxed_lines inputs) = map (\<lambda>i. fst (the (map_option (Pair i) (n_tax_rate_id (inputs ! i)))))
      (filter (\<lambda>i. n_tax_rate_id (inputs ! i) \<noteq> None) [0..<length inputs])"
    by (simp add: taxed_lines_def List.map_filter_def filter_map comp_def)
  also have "\<dots> = filter (\<lambda>i. n_tax_rate_id (inputs ! i) \<noteq> None) [0..<length inputs]" by (rule map_idI) auto
  finally show ?thesis .
qed

lemma tax_leg_taxes:
  assumes "n_tax_rate_id (inputs ! fst t) = Some (snd t)" and "tr_id r = snd t" and "n_signed_amount (inputs ! fst t) \<noteq> 0"
  shows "taxes E (inputs ! fst t) r (tax_leg E r (inputs ! fst t)) (link_of E inputs t r) \<and> k_posting_idx (link_of E inputs t r) = fst t"
  using assms by (auto simp: taxes_def tax_leg_def link_of_def Let_def sgn_if)

text \<open>
  C9: The request a form becomes.  Its first lines are the lines of the form, at least two, with their account, side and
  tax rate and a positive amount, and no account is on both sides.  One leg follows for each line with a tax rate, in
  order: it is posted to the account of that active rate of the ledger, on the side of the line, and is the product of
  the line's amount and the rate to two decimals; its link names the line, the rate, the base and the tax.  All lines
  together add up to zero.
\<close>

theorem tax_legs_complete:
  assumes "entry_request E order u l raw s = Inr new" and "\<forall>ks. set (order ks) = set ks"
  shows "\<exists>inputs legs rates taxed. nt_lines new = inputs @ legs \<and> 2 \<le> length inputs
     \<and> list_all2 (entered E) (parse_lines raw) inputs
     \<and> (\<forall>x\<in>set inputs. \<forall>y\<in>set inputs. n_account_id x = n_account_id y \<longrightarrow> (n_signed_amount x < 0 \<longleftrightarrow> n_signed_amount y < 0))
     \<and> taxed = filter (\<lambda>i. n_tax_rate_id (inputs ! i) \<noteq> None) [0..<length inputs]
     \<and> length legs = length taxed \<and> map k_posting_idx (nt_tax_links new) = taxed
     \<and> (\<forall>j<length taxed. rates j \<in> set (tax_rates s) \<and> tr_ledger (rates j) = l \<and> tr_active (rates j)
          \<and> taxes E (inputs ! (taxed ! j)) (rates j) (legs ! j) (nt_tax_links new ! j))
     \<and> sum_list (map n_signed_amount (nt_lines new)) = 0"
proof -
  from entry_request_Inr [OF assms] obtain inputs rs where
    1: "try_lines (entry_line E) (parse_lines raw) = Inr inputs" "2 \<le> length inputs" "\<forall>a. \<not> both_sides inputs a"
      "nt_lines new = inputs @ map2 (\<lambda>t r. tax_leg E r (inputs ! fst t)) (taxed_lines inputs) rs"
      "nt_tax_links new = map2 (link_of E inputs) (taxed_lines inputs) rs" "sum_list (map n_signed_amount (nt_lines new)) = 0"
    and rs: "list_all2 (\<lambda>t rate. find (\<lambda>r. tr_id r = snd t) (load_active_tax_rates s l) = Some rate) (taxed_lines inputs) rs"
    by blast
  let ?ts = "taxed_lines inputs"
  have len: "length rs = length ?ts" using rs by (simp add: list_all2_lengthD)
  have in1: "list_all2 (entered E) (parse_lines raw) inputs"
    using 1(1) unfolding try_lines_Inr by (rule list_all2_mono) (rule entry_line_entered)
  have ne: "n_signed_amount x \<noteq> 0" if "x \<in> set inputs" for x
    using in1 that by (auto simp: list_all2_conv_all_nth in_set_conv_nth entered_def)
  have sides: "\<forall>x\<in>set inputs. \<forall>y\<in>set inputs. n_account_id x = n_account_id y \<longrightarrow> (n_signed_amount x < 0 \<longleftrightarrow> n_signed_amount y < 0)"
    using 1(3) by (fastforce simp: both_sides_def list_ex_iff not_less)
  have rate: "rs ! j \<in> set (tax_rates s) \<and> tr_ledger (rs ! j) = l \<and> tr_active (rs ! j) \<and> tr_id (rs ! j) = snd (?ts ! j)"
    if "j < length ?ts" for j
    using rs that find_Some_mem by (fastforce simp: list_all2_conv_all_nth load_active_tax_rates_def)
  have leg: "taxes E (inputs ! fst (?ts ! j)) (rs ! j) (tax_leg E (rs ! j) (inputs ! fst (?ts ! j))) (link_of E inputs (?ts ! j) (rs ! j))
      \<and> k_posting_idx (link_of E inputs (?ts ! j) (rs ! j)) = fst (?ts ! j)" if "j < length ?ts" for j
    using taxed_lines_bound [OF nth_mem [OF that]] rate [OF that] ne by (intro tax_leg_taxes) auto
  have idx: "map k_posting_idx (nt_tax_links new) = map fst ?ts"
    by (rule nth_equalityI) (use len leg in \<open>simp_all add: 1(5)\<close>)
  let ?legs = "map2 (\<lambda>t r. tax_leg E r (inputs ! fst t)) ?ts rs"
  have legs: "length ?legs = length (map fst ?ts)" "\<forall>j<length (map fst ?ts). rs ! j \<in> set (tax_rates s) \<and> tr_ledger (rs ! j) = l
      \<and> tr_active (rs ! j) \<and> taxes E (inputs ! (map fst ?ts ! j)) (rs ! j) (?legs ! j) (nt_tax_links new ! j)"
    using rate leg len by (simp_all add: 1(5))
  show ?thesis using 1(4,2) in1 sides taxed_lines_fst [of inputs] legs(1) idx legs(2) 1(6)
    by (rule_tac exI [of _ inputs], rule_tac exI [of _ ?legs], rule_tac exI [of _ "(!) rs"], rule_tac exI [of _ "map fst ?ts"])
       (intro conjI; assumption)
qed

text \<open>
  C11: A reversal is accepted only for an entry of the ledger that is no reversal itself, outside closed dates; it leaves
  every other row alone and adds one entry dated today that cancels the original on every account.
\<close>

theorem reversal_cancels:
  assumes "db_wf (tcore s)" and "reverse_entry E user l t s = (Inr r, s')"
  shows "(\<exists>orig\<in>set (transactions (tcore s)). t_id orig = t \<and> t_ledger orig = l \<and> t_kind orig \<noteq> ''reversing''
       \<and> \<not> is_closed (closed_through_for (tcore s) l) (t_date orig))
    \<and> \<not> is_closed (closed_through_for (tcore s) l) (today E)
    \<and> (\<exists>row. transactions (tcore s') = transactions (tcore s) @ [row] \<and> t_id row = r \<and> t_kind row = ''reversing''
         \<and> t_date row = today E \<and> t_reverses row = Some t)
    \<and> postings (tcore s') = postings (tcore s) @ postings_of (tcore s') r
    \<and> (\<forall>a. net_of (postings_of (tcore s') t) a + net_of (postings_of (tcore s') r) a = 0)"
  using assms(2)
proof (rule reverse_entry_Inr)
  fix u orig db1
  assume orig: "find (\<lambda>x. t_id x = t \<and> t_ledger x = l) (transactions (tcore s)) = Some orig" "t_kind orig \<noteq> ''reversing''"
      "\<not> is_closed (closed_through_for (tcore s) l) (t_date orig)" "\<not> is_closed (closed_through_for (tcore s) l) (today E)"
    and ins: "insert_reversal E t l u (t_description orig) (tcore s) = Inr (r, db1)"
    and s': "s' = tlog E l u ''reverse'' ''transaction'' (Some t) None
           (Some (JObj [(''reversal_id'', JUuid r), (''original_id'', JUuid t)])) (s\<lparr>tcore := db1\<rparr>)"
  from insert_reversal_entry [OF ins assms(1)] obtain row qs where e: "adds_entry row qs (tcore s) db1" "cancels (tcore s) t qs"
    "t_id row = r" "t_kind row = ''reversing''" "t_date row = today E" "t_reverses row = Some t"
    "t \<in> t_id ` set (transactions (tcore s))" by blast
  have "t_id row \<notin> t_id ` set (transactions (tcore s))" using e(1) by (simp add: adds_entry_def)
  then have "t \<noteq> r" using e(3,7) by metis
  then have "postings_of db1 r = qs" "postings_of db1 t = postings_of (tcore s) t"
    using entry_postings [OF assms(1) e(1)] e(3) by auto
  then show ?thesis using orig find_Some_mem [OF orig(1)] e by (auto simp: s' adds_entry_def cancels_def)
qed

lemma edit_entry_Inr:
  assumes "db_wf (tcore s)" and "edit_entry E ut user l t form s = (Inr (r, c), s')"
  obtains u d inputs mirror row ps qs where "edit_request E ut user l form s = Inr (u, d, inputs)"
    and "transactions (tcore s') = transactions (tcore s) @ [mirror, row]" and "postings (tcore s') = postings (tcore s) @ ps @ qs"
    and "t_id mirror = r" and "t_kind mirror = ''reversing''" and "t_reverses mirror = Some t"
    and "t_id row = c" and "t_kind row = ''standard''" and "t_date row = d" and "t_ledger row = l"
    and "postings_of (tcore s') r = ps" and "postings_of (tcore s') c = qs" and "postings_of (tcore s') t = postings_of (tcore s) t"
    and "cancels (tcore s) t ps" and "list_all2 posting_stored (map (signed_posting c) inputs) qs"
proof -
  from assms(2) obtain u d inputs db' where req: "edit_request E ut user l form s = Inr (u, d, inputs)"
    and body: "edit_body E u l t form d inputs (tcore s) = Inr ((r, c), db')"
    and s': "tcore s' = audit_log E (Some l) u ''edit'' ''transaction'' (Some t) None
      (Some (JObj [(''reversal_id'', JUuid r), (''corrected_id'', JUuid c), (''original_id'', JUuid t)])) db'"
    by (auto simp: edit_entry_def run_tx_def split: sum.splits prod.splits)
  from body assms(1) obtain orig :: txn_row and db1 row qs where
    ins: "insert_reversal E t l u (t_description orig) (tcore s) = Inr (r, db1)"
    and qs: "list_all2 posting_stored (map (signed_posting c) inputs) qs" "adds_entry row qs db1 db'"
    and row: "t_id row = c" "t_date row = d" "t_kind row = ''standard''" "t_ledger row = l" by (rule edit_body_Inr) blast
  from insert_reversal_entry [OF ins assms(1)] obtain mirror ps where e: "adds_entry mirror ps (tcore s) db1" "cancels (tcore s) t ps"
    "t_id mirror = r" "t_kind mirror = ''reversing''" "t_reverses mirror = Some t" "t \<in> t_id ` set (transactions (tcore s))" by blast
  have wf1: "db_wf db1" using e(1) assms(1) by (simp add: adds_entry_def)
  have new: "t_id mirror \<notin> t_id ` set (transactions (tcore s))" "t_id row \<notin> insert (t_id mirror) (t_id ` set (transactions (tcore s)))"
    using e(1) qs(2) by (auto simp: adds_entry_def)
  have ne: "t \<noteq> r" "t \<noteq> c" "r \<noteq> c" using new e(3,6) row(1) by (metis insert_iff)+
  have post: "postings_of db' c = qs" "postings_of db' r = ps" "postings_of db' t = postings_of (tcore s) t"
    using entry_postings [OF wf1 qs(2)] entry_postings [OF assms(1) e(1)] ne e(3) row(1) by auto
  show thesis
    by (rule that [OF req, of mirror row ps qs]) (use post e row qs in \<open>simp_all add: s' adds_entry_def\<close>)
qed

text \<open>
  The corrected entry of an edit is balanced exactly if the amounts of the form, of at most four decimals, add up to
  zero: nothing in the handler asks for it.
\<close>

lemma edit_balance:
  assumes "db_wf (tcore s)" and "edit_entry E ut user l t form s = (Inr (r, c), s')"
    and "edit_request E ut user l form s = Inr (u, d, inputs)" and "list_all (\<lambda>x. on_grid 4 (n_signed_amount x)) inputs"
  shows "balanced (tcore s') c \<longleftrightarrow> sum_list (map n_signed_amount inputs) = 0"
  using assms(1,2)
proof (rule edit_entry_Inr)
  fix u' d' inputs' qs
  assume "edit_request E ut user l form s = Inr (u', d', inputs')" and qs: "postings_of (tcore s') c = qs"
    "list_all2 posting_stored (map (signed_posting c) inputs') qs"
  then have "net qs = sum_list (map n_signed_amount inputs)" using signed_net(1) [OF qs(2)] assms(3,4) by simp
  moreover have "balanced (tcore s') c \<longleftrightarrow> net qs = 0" by (simp add: balanced_def qs(1) net_def)
  ultimately show ?thesis by simp
qed

text \<open>A posting that holds what a line of the edit form says; the side is the sign of the amount.\<close>

definition books_line :: "env \<Rightarrow> parsed_line \<Rightarrow> posting_row \<Rightarrow> bool" where
  "books_line E p q \<longleftrightarrow>
     parse_uuid E (pl_account_id p) = Some (p_account q)
   \<and> (\<exists>a. parse_dec E (pl_amount p) = Some a \<and> p_amount q = round_half_away 4 \<bar>a\<bar>
        \<and> (to_uppercase (pl_direction p) = ''DEBIT'' \<and> (if 0 < a then is_debit q else is_credit q)
           \<or> to_uppercase (pl_direction p) = ''CREDIT'' \<and> (if 0 < a then is_credit q else is_debit q)))
   \<and> p_memo q = (if pl_memo p = [] then None else Some (pl_memo p))"

lemma edit_line_booked:
  assumes "edit_line E p = Inr x" and "posting_stored (signed_posting t x) q"
  shows "books_line E p q"
proof -
  have "round_half_away 4 0 = 0" by (rule away.rnd_exact) (simp add: on_grid_def)
  then have "n_signed_amount x \<noteq> 0" using assms(2) by (auto simp: posting_stored_def signed_posting_def plain_posting_def)
  moreover from assms(2) have "p_account q = n_account_id x" "p_memo q = n_memo x" "p_amount q = round_half_away 4 \<bar>n_signed_amount x\<bar>"
    "if 0 \<le> n_signed_amount x then is_debit q else is_credit q"
    by (simp_all add: posting_stored_def signed_posting_def plain_posting_def is_debit_def is_credit_def)
  moreover from assms(1) obtain a where "parse_uuid E (pl_account_id p) = Some (n_account_id x)" "parse_dec E (pl_amount p) = Some a"
    "to_uppercase (pl_direction p) = ''DEBIT'' \<and> n_signed_amount x = a \<or> to_uppercase (pl_direction p) = ''CREDIT'' \<and> n_signed_amount x = - a"
    "n_memo x = (if pl_memo p = [] then None else Some (pl_memo p))"
    by (auto simp: edit_line_def result_simps split: if_splits)
  ultimately show ?thesis unfolding books_line_def by (cases "0 < a") auto
qed

text \<open>
  C12: An accepted edit leaves every posting as it is and adds exactly two entries: a reversing one that cancels the
  original on every account, and a standard one dated as the form says with one posting for each line of the form, in
  the form's order, that has the account, the side, the amount to four decimals and the memo of the line.
\<close>

theorem edit_books:
  assumes "db_wf (tcore s)" and "edit_entry E ut user l t form s = (Inr (r, c), s')"
  shows "(\<exists>mirror row. transactions (tcore s') = transactions (tcore s) @ [mirror, row] \<and> t_id mirror = r \<and> t_kind mirror = ''reversing''
       \<and> t_reverses mirror = Some t \<and> t_id row = c \<and> t_kind row = ''standard'' \<and> t_ledger row = l
       \<and> parse_date E (ef_date form) = Some (t_date row))
    \<and> postings (tcore s') = postings (tcore s) @ postings_of (tcore s') r @ postings_of (tcore s') c
    \<and> (\<forall>a. net_of (postings_of (tcore s') t) a + net_of (postings_of (tcore s') r) a = 0)
    \<and> list_all2 (books_line E) (parse_lines (ef_extra form)) (postings_of (tcore s') c)"
  using assms
proof (rule edit_entry_Inr)
  fix u d inputs mirror row ps qs
  assume req: "edit_request E ut user l form s = Inr (u, d, inputs)"
    and add: "transactions (tcore s') = transactions (tcore s) @ [mirror, row]" "postings (tcore s') = postings (tcore s) @ ps @ qs"
      "t_id mirror = r" "t_kind mirror = ''reversing''" "t_reverses mirror = Some t" "t_id row = c" "t_kind row = ''standard''"
      "t_date row = d" "t_ledger row = l" "postings_of (tcore s') r = ps" "postings_of (tcore s') c = qs"
      "postings_of (tcore s') t = postings_of (tcore s) t" "cancels (tcore s) t ps"
    and qs: "list_all2 posting_stored (map (signed_posting c) inputs) qs"
  from req have d: "parse_date E (ef_date form) = Some d" and i: "list_all2 (\<lambda>p x. edit_line E p = Inr x) (parse_lines (ef_extra form)) inputs"
    by (auto simp: edit_request_def Let_def result_simps try_lines_Inr split: if_splits)
  have "list_all2 (books_line E) (parse_lines (ef_extra form)) qs"
    using i qs [unfolded list_all2_map1] by (rule list_all2_trans [rotated]) (rule edit_line_booked)
  with add d show ?thesis by (auto simp: cancels_def)
qed

text \<open>The two entries of a transfer.\<close>

lemma transfer_entries:
  assumes "db_wf (tcore s)" and "create_transfer E user form s = (Inr i, s')"
  obtains u amount row1 row2 q1 q2 where "user = Some u" and "parse_dec E (trim (xf_amount form)) = Some amount" and "0 < amount"
    and "\<exists>r. ensure_writer (tcore s) u (xf_from_ledger_id form) = Inr r" and "\<exists>r. ensure_writer (tcore s) u (xf_to_ledger_id form) = Inr r"
    and "xf_from_ledger_id form \<noteq> xf_to_ledger_id form" and "transactions (tcore s') = transactions (tcore s) @ [row1, row2]"
    and "postings (tcore s') = postings (tcore s) @ q1 @ q2" and "postings_of (tcore s') (t_id row1) = q1" and "postings_of (tcore s') (t_id row2) = q2"
    and "simple_entry (tcore s) (xf_from_ledger_id form) (xf_date form) (xf_from_account_id form) amount row1 q1"
    and "simple_entry (tcore s) (xf_to_ledger_id form) (xf_date form) (xf_to_account_id form) amount row2 q2"
    and "\<exists>x. transfers s' = transfers s @ [x] \<and> tf_id x = i \<and> tf_from_txn x = t_id row1 \<and> tf_to_txn x = t_id row2
       \<and> tf_from_ledger x = xf_from_ledger_id form \<and> tf_to_ledger x = xf_to_ledger_id form
       \<and> tf_from_account x = xf_from_account_id form \<and> tf_to_account x = xf_to_account_id form \<and> tf_amount x = round_half_away 4 amount"
  using assms(2)
proof (rule create_transfer_Inr)
  fix u amount fc tc description t1 t2 db1 db2
  let ?db = "(tcore s)\<lparr>balance_trigger := False\<rparr>"
  assume amount: "parse_dec E (trim (xf_amount form)) = Some amount" "0 < amount" and u: "user = Some u"
    and wr: "\<exists>r. ensure_writer (tcore s) u (xf_from_ledger_id form) = Inr r" "\<exists>r. ensure_writer (tcore s) u (xf_to_ledger_id form) = Inr r"
    and i: "insert_simple_txn E (xf_from_ledger_id form) (xf_date form) description (xf_from_account_id form) amount fc u ?db = Inr (t1, db1)"
       "insert_simple_txn E (xf_to_ledger_id form) (xf_date form) description (xf_to_account_id form) amount tc u db1 = Inr (t2, db2)"
    and b: "books (tcore s') = books db2" and l: "xf_from_ledger_id form \<noteq> xf_to_ledger_id form"
    and x: "\<exists>x. transfers s' = transfers s @ [x] \<and> tf_id x = i \<and> tf_from_txn x = t1 \<and> tf_to_txn x = t2
       \<and> tf_from_ledger x = xf_from_ledger_id form \<and> tf_to_ledger x = xf_to_ledger_id form
       \<and> tf_from_account x = xf_from_account_id form \<and> tf_to_account x = xf_to_account_id form \<and> tf_amount x = round_half_away 4 amount"
  from simple_txn_entry [OF i(1) amount(2)] obtain row1 q1 where 1: "adds_entry row1 q1 ?db db1" "t_id row1 = t1"
    "simple_entry ?db (xf_from_ledger_id form) (xf_date form) (xf_from_account_id form) amount row1 q1" by blast
  from simple_txn_entry [OF i(2) amount(2)] obtain row2 q2 where 2: "adds_entry row2 q2 db1 db2" "t_id row2 = t2"
    "simple_entry db1 (xf_to_ledger_id form) (xf_date form) (xf_to_account_id form) amount row2 q2" by blast
  have wf: "db_wf ?db" "db_wf db1" using assms(1) 1(1) by (simp_all add: adds_entry_def)
  have se: "simple_entry db1 = simple_entry (tcore s)" "simple_entry ?db = simple_entry (tcore s)"
    using 1(1) by (simp_all add: fun_eq_iff simple_entry_def cash_on_hand_def adds_entry_def)
  have ne: "t1 \<noteq> t2" using 1(1,2) 2(1,2) by (auto simp: adds_entry_def)
  have post: "postings_of db2 t1 = q1" "postings_of db2 t2 = q2" "postings db2 = postings (tcore s) @ q1 @ q2"
    "transactions db2 = transactions (tcore s) @ [row1, row2]"
    using entry_postings [OF wf(1) 1(1)] entry_postings [OF wf(2) 2(1)] 1(1,2) 2(1,2) ne by (auto simp: adds_entry_def)
  have "postings_of (tcore s') t = postings_of db2 t" "postings (tcore s') = postings db2" "transactions (tcore s') = transactions db2" for t
    using books_eqD [OF b] by (simp_all add: postings_of_def)
  with post 1(2,3) 2(2,3) x show thesis
    by (intro that [OF u amount wr l, of row1 row2 q1 q2]) (simp_all add: se)
qed


text \<open>
  In the target ledger the entry is on the same sides as in the source ledger: the amount leaves \<^verbatim>\<open>Cash on Hand\<close> there
  too, where the comments of \<^verbatim>\<open>create\<close> have it arrive.
\<close>

lemma transfer_drains_both:
  assumes "db_wf (tcore s)" and "create_transfer E user form s = (Inr i, s')"
    and "cash_on_hand (tcore s) (xf_to_ledger_id form) = Some c" and "c \<noteq> xf_to_account_id form"
  shows "\<exists>amount. parse_dec E (trim (xf_amount form)) = Some amount
    \<and> net_of (postings_of (tcore s') (tf_to_txn (last (transfers s')))) c = - round_half_away 4 amount
    \<and> net_of (postings_of (tcore s') (tf_to_txn (last (transfers s')))) (xf_to_account_id form) = round_half_away 4 amount"
  using assms(1,2)
proof (rule transfer_entries)
  fix amount :: decimal and row1 row2 q2
  assume "parse_dec E (trim (xf_amount form)) = Some amount" "postings_of (tcore s') (t_id row2) = q2"
    "simple_entry (tcore s) (xf_to_ledger_id form) (xf_date form) (xf_to_account_id form) amount row2 q2"
    and "\<exists>x. transfers s' = transfers s @ [x] \<and> tf_id x = i \<and> tf_from_txn x = t_id row1 \<and> tf_to_txn x = t_id row2
       \<and> tf_from_ledger x = xf_from_ledger_id form \<and> tf_to_ledger x = xf_to_ledger_id form
       \<and> tf_from_account x = xf_from_account_id form \<and> tf_to_account x = xf_to_account_id form \<and> tf_amount x = round_half_away 4 amount"
  then show ?thesis using assms(3,4) by (intro exI [of _ amount]) (auto simp: simple_entry_def)
qed

lemma create_hard_closed: "create E new db = (Inl (HardClosed x w), db1) \<Longrightarrow> db1 = db"
  by (auto simp: create_def create_with_kind_def run_tx_def Let_def split: if_splits sum.splits prod.splits)

lemma create_draft_hard_closed: "create_draft E new db = (Inl (HardClosed x w), db1) \<Longrightarrow> db1 = db"
  by (auto simp: create_draft_def create_with_kind_def run_tx_def Let_def split: if_splits sum.splits prod.splits)

lemma create_open:
  assumes "create E new db = (Inr c, db')"
  shows "\<not> is_closed (closed_through_for db (nt_ledger_id new)) (nt_txn_date new)"
    and "closed_periods db' = closed_periods db" and "reopen_events db' = reopen_events db"
proof -
  from assms have "create_with_kind E new False db = (Inr c, db')" by (simp add: create_def)
  then have "\<not> is_closed (closed_through_for db (nt_ledger_id new)) (nt_txn_date new) \<and> closed_periods db' = closed_periods db
    \<and> reopen_events db' = reopen_events db"
  proof (rule create_with_kind_Inr)
    fix eff db1 db2
    assume body: "create_body E new False eff db = Inr (c, db1)" and b: "books db' = books db2"
      and ap: "if needs_approval db new False (sum_debits eff)
           then insert_approval (ct_id c) (nt_ledger_id new) (nt_created_by new) (sum_debits eff) db1 = Inr db2 else db2 = db1"
    from approval_frame [OF ap] obtain as where db2: "db2 = db1\<lparr>approvals := as\<rparr>" by blast
    have "close_gate db (nt_ledger_id new) (nt_txn_date new) = Inr () \<and> closed_periods db1 = closed_periods db
        \<and> reopen_events db1 = reopen_events db"
      using body by (rule create_body_Inr) simp
    then show ?thesis using books_eqD(8) [OF b] arg_cong [OF b, of reopen_events]
      by (simp add: db2 close_gate_Inr books_def)
  qed
  then show "\<not> is_closed (closed_through_for db (nt_ledger_id new)) (nt_txn_date new)"
    "closed_periods db' = closed_periods db" "reopen_events db' = reopen_events db" by blast+
qed

lemma override_effect:
  assumes "override_post E display w reason new db = (Inr p, db')"
  shows "\<exists>row. row \<in> set (reopen_events db') \<and> ro_ledger row = nt_ledger_id new \<and> ro_by row = nt_created_by new \<and> ro_reason row = reason"
    and "c \<in> set (closed_periods db') \<Longrightarrow> cp_ledger c = nt_ledger_id new \<Longrightarrow> cp_through c = Some t \<Longrightarrow> t < nt_txn_date new"
    and "\<not> is_closed (closed_through_for db' (nt_ledger_id new)) (nt_txn_date new)"
proof -
  let ?row = "\<lparr>ro_ledger = nt_ledger_id new, ro_through = Some w, ro_by = nt_created_by new, ro_reason = reason\<rparr>"
  let ?log = "\<lambda>db. audit_log E (Some (nt_ledger_id new)) (nt_created_by new) ''override'' ''period'' None None
    (Some (JObj [(''closed_through'', JDate w), (''reason'', JStr reason), (''txn_date'', JDate (nt_txn_date new))])) db"
  from assms obtain db1 k where db1: "insert_reopen ?row db = Inr db1"
    and cr: "create E new (drop_watermarks (nt_ledger_id new) (nt_txn_date new) (?log db1)) = (Inr k, db')"
    by (auto simp: override_post_def Let_def split: sum.splits prod.splits)
  have ro: "reopen_events db1 = reopen_events db @ [?row]" using db1 by (auto simp: insert_reopen_def split: if_splits)
  have b: "books (?log db1) = books db1" by (rule audit_log_books)
  have ro2: "reopen_events (?log db1) = reopen_events db1" using arg_cong [OF b, of reopen_events] by (simp add: books_def)
  note o = create_open [OF cr]
  show "\<exists>row. row \<in> set (reopen_events db') \<and> ro_ledger row = nt_ledger_id new \<and> ro_by row = nt_created_by new \<and> ro_reason row = reason"
    using o(3) ro ro2 by (intro exI [of _ ?row]) (simp add: drop_watermarks_def)
  show "\<not> is_closed (closed_through_for db' (nt_ledger_id new)) (nt_txn_date new)"
    using o(1,2) by (simp add: closed_through_for_def)
  assume "c \<in> set (closed_periods db')" "cp_ledger c = nt_ledger_id new" "cp_through c = Some t"
  then show "t < nt_txn_date new" using o(2) by (auto simp: drop_watermarks_def)
qed

text \<open>
  C10: Posting into a closed period succeeds only for the owner or an administrator, with a reason of at least ten
  characters.  The reopening is recorded, and it is not limited to this entry: the watermarks at or after the date are
  gone and the date is open to everyone afterwards.
\<close>

theorem closed_entry_needs_override:
  assumes "create_entry E ut display order infer store user l (Inr (raw, ups)) s = (Inr (Posted i), s')"
    and "\<forall>ks. set (order ks) = set ks"
    and "parse_date E (form_text raw ''date'') = Some d" and "is_closed (closed_through_for (tcore s) l) d"
  shows "\<exists>u reason. user = Some u \<and> map_of raw ''override_reason'' = Some reason \<and> 10 \<le> length (trim reason)
    \<and> (\<exists>r. ensure_owner_or_admin (tcore s) u l = Inr r)
    \<and> (\<exists>row. row \<in> set (reopen_events (tcore s')) \<and> ro_ledger row = l \<and> ro_by row = u \<and> ro_reason row = trim reason)
    \<and> list_all (\<lambda>c. cp_ledger c = l \<longrightarrow> (case cp_through c of None \<Rightarrow> True | Some t \<Rightarrow> t < d)) (closed_periods (tcore s'))
    \<and> \<not> is_closed (closed_through_for (tcore s') l) d"
proof -
  from assms(1) obtain u new k0 where u: "user = Some u" and wr: "ensure_writer (tcore s) u l = Inr k0"
    and req: "entry_request E order u l raw s = Inr new"
    by (auto simp: create_entry_def signed_in_def result_simps split: sum.splits entry_stop.splits prod.splits)
  from entry_request_Inr [OF req assms(2)] assms(3) have new: "nt_ledger_id new = l" "nt_created_by new = u" "nt_txn_date new = d"
    by auto
  let ?w = "if map_of raw ''action'' = Some ''draft'' then create_draft E new (tcore s) else create E new (tcore s)"
  obtain r db1 where w: "?w = (r, db1)" by (cases ?w)
  have fail: "posting_failure ut e \<noteq> Inr (Posted i)" for e by (cases e) simp_all
  have "\<exists>x w'. r = Inl (HardClosed x w')"
  proof (cases r)
    case (Inl e)
    then show ?thesis using assms(1) w fail [of e] by (cases e) (simp_all add: create_entry_def Let_def signed_in_def u wr req)
  next
    case (Inr c)
    then have "?w = create E new (tcore s)" using assms(1) w
      by (simp add: create_entry_def Let_def signed_in_def u wr req split: if_splits)
    with w Inr create_open(1) [of E new "tcore s" c db1] assms(4) new show ?thesis by simp
  qed
  then obtain x w' where r: "r = Inl (HardClosed x w')" by blast
  then have db1: "db1 = tcore s"
    using w create_hard_closed [of E new "tcore s" x w' db1] create_draft_hard_closed [of E new "tcore s" x w' db1]
    by (simp split: if_splits)
  have "hard_closed E display w' (map_of raw ''override_reason'') new (tcore s) = (Inr (Posted i), tcore s')"
    using assms(1) w by (auto simp: create_entry_def Let_def r db1 signed_in_def u wr req split: prod.splits)
  then obtain reason k where re: "map_of raw ''override_reason'' = Some reason" "10 \<le> length (trim reason)"
    "ensure_owner_or_admin (tcore s) u l = Inr k" "override_post E display w' (trim reason) new (tcore s) = (Inr (Posted i), tcore s')"
    by (auto simp: hard_closed_def validate_reason_def MIN_REASON_LEN_def Let_def new not_less
        split: option.splits sum.splits if_splits)
  note o = override_effect [OF re(4), unfolded new]
  from o(2) have "list_all (\<lambda>c. cp_ledger c = l \<longrightarrow> (case cp_through c of None \<Rightarrow> True | Some t \<Rightarrow> t < d)) (closed_periods (tcore s'))"
    by (auto simp: list_all_iff split: option.splits)
  with u re o(1,3) show ?thesis by blast
qed

section \<open>Concrete instances\<close>

definition entry_env :: env where
  "entry_env = sample_env
     \<lparr>parse_dec := (\<lambda>t. if t = ''10'' then Some 10 else if t = ''15'' then Some 15 else None),
      parse_uuid := (\<lambda>t. if t = ''cash'' then Some 11 else if t = ''rent'' then Some 12 else if t = ''vat'' then Some 9 else None),
      parse_date := (\<lambda>t. if t = ''day'' then Some (Date 2026 3 15) else None)\<rparr>"

definition entry_account :: "uuid \<Rightarrow> uuid \<Rightarrow> string \<Rightarrow> account_row" where
  "entry_account i l name = \<lparr>a_id = i, a_ledger = l, a_name = name, a_code = None, a_type = ''ASSET'', a_subtype = ''CASH'',
                             a_currency = ''USD'', a_archived = False\<rparr>"

definition entry_ledger :: "uuid \<Rightarrow> ledger_row" where
  "entry_ledger i = \<lparr>l_id = i, l_owner = 7, l_name = ''Books'', l_base_currency = ''USD'', l_basis = ''ACCRUAL'',
                     l_append_only = False, l_threshold = None\<rparr>"

definition entry_db :: db where
  "entry_db = empty_db\<lparr>ledgers := [entry_ledger 2, entry_ledger 3],
     accounts := [entry_account 11 2 ''Cash on Hand'', entry_account 12 2 ''Rent'', entry_account 13 3 ''Cash on Hand'',
                  entry_account 14 3 ''Loan'', entry_account 15 2 ''VAT''],
     transactions := [sample_txn ''standard'' ''1''],
     postings := [(plain_posting 30 12 10 ''DEBIT'')\<lparr>p_id := 31\<rparr>, (plain_posting 30 11 10 ''CREDIT'')\<lparr>p_id := 32\<rparr>],
     tax_rate_ids := [9], balance_trigger := False\<rparr>"

definition entry_state :: tdb where
  "entry_state = \<lparr>tcore = entry_db,
     tax_rates = [\<lparr>tr_id = 9, tr_ledger = 2, tr_name = ''VAT'', tr_rate = 1 / 2, tr_account = 15, tr_active = True\<rparr>],
     tags = [], txn_tags = [], contacts = [], txn_contact = (\<lambda>_. None), transfers = [], documents = []\<rparr>"

lemma entry_round10: "round_half_away 4 10 = 10" "round_half_away 4 15 = 15"
  by code_simp+

lemma entry_db_wf: "db_wf entry_db"
  by (auto simp: db_wf_def entry_db_def empty_db_def sample_txn_def txn_kinds_def posting_wf_def plain_posting_def is_debit_def
      is_credit_def entry_account_def entry_ledger_def on_grid_def numbered_def number_key_def)

lemma entry_db_balanced: "all_balanced entry_db"
  by (simp add: all_balanced_def balanced_def postings_of_def debit_sum_def credit_sum_def is_debit_def is_credit_def
      entry_db_def empty_db_def sample_txn_def plain_posting_def)

lemma entry_writer: "ensure_writer entry_db 7 2 = Inr (entry_ledger 2)" "ensure_writer entry_db 7 3 = Inr (entry_ledger 3)"
  by (simp_all add: ensure_writer_def ensure_access_def ledger_of_def entry_db_def entry_ledger_def)

definition entry_form :: "string \<Rightarrow> string \<Rightarrow> (string \<times> string) list" where
  "entry_form tax credit =
     [(''date'', ''day''), (''description'', ''Office''), (''lines[0][account_id]'', ''rent''), (''lines[1][account_id]'', ''cash''),
      (''lines[0][direction]'', ''DEBIT''), (''lines[1][direction]'', ''CREDIT''), (''lines[0][amount]'', ''10''),
      (''lines[1][amount]'', credit), (''lines[0][tax_rate_id]'', tax), (''override_reason'', ''late supplier bill'')]"

definition closed_state :: tdb where
  "closed_state = entry_state\<lparr>tcore := entry_db\<lparr>closed_periods :=
     [\<lparr>cp_ledger = 2, cp_year = 2026, cp_by = 7, cp_through = Some (Date 2026 6 30)\<rparr>]\<rparr>\<rparr>"

definition sample_crates :: entry_crates where
  "sample_crates = \<lparr>ec_uuid_text = (\<lambda>_. []), ec_display = (\<lambda>_. []), ec_order = id, ec_infer = (\<lambda>_. None), ec_store = (\<lambda>_ _ _. Inr []),
                    ec_fx = (\<lambda>_. []), ec_uuid_error = (\<lambda>_. [])\<rparr>"

definition sample_edit :: edit_form where
  "sample_edit = \<lparr>ef_date = ''day'', ef_description = ''Office'', ef_payee = None, ef_reference = None, ef_extra = entry_form [] ''15''\<rparr>"

definition sample_transfer :: transfer_form where
  "sample_transfer = \<lparr>xf_from_ledger_id = 2, xf_to_ledger_id = 3, xf_from_account_id = 12, xf_to_account_id = 14, xf_amount = ''10'',
     xf_date = Date 2026 3 15, xf_description = ''Loan'', xf_fee_amount = None, xf_fee_account_id = None\<rparr>"

lemma entry_overridden:
  "fst (create_entry entry_env (\<lambda>_. []) (\<lambda>_. []) id (\<lambda>_. None) (\<lambda>_ _ _. Inr []) (Some 7) 2 (Inr (entry_form ''vat'' ''15'', [])) closed_state)
     = Inr (Posted 21)"
  by code_simp

lemma entry_edited: "fst (edit_entry entry_env (\<lambda>_. []) (Some 7) 2 30 sample_edit entry_state) = Inr (20, 23)"
  by code_simp

lemma entry_transferred: "fst (create_transfer entry_env (Some 7) sample_transfer entry_state) = Inr 26"
  by code_simp

lemma entry_reversed: "fst (reverse_entry entry_env (Some 7) 2 30 entry_state) = Inr 20"
  by code_simp

lemma fst_pair: "fst p = x \<Longrightarrow> p = (x, snd p)"
  by (cases p) simp

lemma sample_env_rounds: "round_away entry_env = round_half_away" "on_grid 2 (round_dp entry_env 2 x)"
  by (simp_all add: entry_env_def sample_env_def even.rnd_grid)

theorem entries_stay_balanced_witness:
  "debit_sum (postings (tcore (fold (entry_step sample_crates (\<lambda>_. entry_env))
       [(0, ReverseEntry (Some 7) 2 30), (1, CreateTransfer (Some 7) sample_transfer)] entry_state)))
   = credit_sum (postings (tcore (fold (entry_step sample_crates (\<lambda>_. entry_env))
       [(0, ReverseEntry (Some 7) 2 30), (1, CreateTransfer (Some 7) sample_transfer)] entry_state)))"
proof -
  have "list_all (entry_ok sample_crates (\<lambda>_. entry_env)) [(0, ReverseEntry (Some 7) 2 30), (1, CreateTransfer (Some 7) sample_transfer)]"
    by (simp add: entry_ok_def sample_crates_def sample_env_rounds Let_def)
  from entries_stay_balanced [OF _ _ this, of entry_state] show ?thesis
    by (simp add: entry_state_def entry_db_wf entry_db_balanced)
qed

theorem tax_legs_complete_witness:
  "sum_list (map n_signed_amount (nt_lines (projr (entry_request entry_env id 7 2 (entry_form ''vat'' ''15'') entry_state)))) = 0
   \<and> map (\<lambda>x. (n_account_id x, n_signed_amount x)) (nt_lines (projr (entry_request entry_env id 7 2 (entry_form ''vat'' ''15'') entry_state)))
       = [(12, 10), (11, - 15), (15, 5)]"
proof -
  have "isl (entry_request entry_env id 7 2 (entry_form ''vat'' ''15'') entry_state) = False" by code_simp
  then have "entry_request entry_env id 7 2 (entry_form ''vat'' ''15'') entry_state
    = Inr (projr (entry_request entry_env id 7 2 (entry_form ''vat'' ''15'') entry_state))" by (metis sum.collapse(2))
  from tax_legs_complete [OF this]
  have "sum_list (map n_signed_amount (nt_lines (projr (entry_request entry_env id 7 2 (entry_form ''vat'' ''15'') entry_state)))) = 0"
    by auto
  moreover have "map (\<lambda>x. (n_account_id x, n_signed_amount x)) (nt_lines (projr (entry_request entry_env id 7 2 (entry_form ''vat'' ''15'') entry_state)))
       = [(12, 10), (11, - 15), (15, 5)]"
    by code_simp
  ultimately show ?thesis ..
qed

theorem reversal_cancels_witness:
  "net_of (postings_of (tcore (snd (reverse_entry entry_env (Some 7) 2 30 entry_state))) 30) 11
   + net_of (postings_of (tcore (snd (reverse_entry entry_env (Some 7) 2 30 entry_state))) 20) 11 = 0"
  using reversal_cancels [OF _ fst_pair [OF entry_reversed]] by (simp add: entry_state_def entry_db_wf)

theorem edit_books_witness:
  "list_all2 (books_line entry_env) (parse_lines (ef_extra sample_edit))
     (postings_of (tcore (snd (edit_entry entry_env (\<lambda>_. []) (Some 7) 2 30 sample_edit entry_state))) 23)
   \<and> length (parse_lines (ef_extra sample_edit)) = 2"
proof -
  have "db_wf (tcore entry_state)" by (simp add: entry_state_def entry_db_wf)
  from edit_books [OF this fst_pair [OF entry_edited]]
  have "list_all2 (books_line entry_env) (parse_lines (ef_extra sample_edit))
     (postings_of (tcore (snd (edit_entry entry_env (\<lambda>_. []) (Some 7) 2 30 sample_edit entry_state))) 23)" by (elim conjE)
  moreover have "length (parse_lines (ef_extra sample_edit)) = 2" by code_simp
  ultimately show ?thesis ..
qed

text \<open>The form of the sample debits ten and credits fifteen; the handler books it.\<close>

lemma unbalanced_edit_accepted: "\<not> balanced (tcore (snd (edit_entry entry_env (\<lambda>_. []) (Some 7) 2 30 sample_edit entry_state))) 23"
proof -
  let ?r = "edit_request entry_env (\<lambda>_. []) (Some 7) 2 sample_edit entry_state"
  have "isl ?r = False" by code_simp
  then have req: "?r = Inr (fst (projr ?r), fst (snd (projr ?r)), snd (snd (projr ?r)))" by (metis sum.collapse(2) prod.collapse)
  have sums: "map n_signed_amount (snd (snd (projr ?r))) = [10, - 15]" by code_simp
  then have "list_all (\<lambda>x. on_grid 4 (n_signed_amount x)) (snd (snd (projr ?r)))"
    by (auto simp: list_all_iff map_eq_Cons_conv on_grid_def)
  from edit_balance [OF _ fst_pair [OF entry_edited] req this] sums show ?thesis by (simp add: entry_state_def entry_db_wf)
qed


theorem closed_entry_needs_override_witness:
  "\<not> is_closed (closed_through_for (tcore (snd (create_entry entry_env (\<lambda>_. []) (\<lambda>_. []) id (\<lambda>_. None) (\<lambda>_ _ _. Inr []) (Some 7) 2
        (Inr (entry_form ''vat'' ''15'', [])) closed_state))) 2) (Date 2026 3 15)"
proof -
  have "parse_date entry_env (form_text (entry_form ''vat'' ''15'') ''date'') = Some (Date 2026 3 15)" by code_simp
  moreover have "is_closed (closed_through_for (tcore closed_state) 2) (Date 2026 3 15)" by code_simp
  ultimately show ?thesis using closed_entry_needs_override [OF fst_pair [OF entry_overridden]] by fastforce
qed

end
