(* ===== verification/Spec2Isabelle.thy ===== *)
theory Spec2Isabelle
  imports Fx_Revaluation Inventory_Valuation Report_Properties Forecast Fixed_Assets Investment_Lots
    Reimbursement_Properties Session_Properties Reconciliation_Properties Entry_Forms Transaction_Properties
begin

text \<open>
  OpenAccounting: a verification development of its bookkeeping core.

  The program is a double-entry bookkeeping server in Rust (\<^verbatim>\<open>src/src\<close>) over PostgreSQL (\<^verbatim>\<open>src/migrations\<close>).
  Handlers check who is asking, validate a form, and call domain services or write rows themselves; the posting
  service is the guarded way to write a transaction; every change appends to a hash-chained audit log and may fan out
  events to a job queue; reports read the postings; sign-in, sessions and tokens stand in front of all of it.

  \<^bold>\<open>Conventions.\<close>  A table is a list of records in insertion order, a database state a record of tables.  An operation
  takes the state and returns its answer with the new state; what runs between \<^verbatim>\<open>BEGIN\<close> and \<^verbatim>\<open>COMMIT\<close> is a body for
  \<open>run_tx\<close>, which drops its writes on an error.  Errors are values of sum types with one constructor per variant of the
  source.  Statements check the primary keys, foreign keys, \<^verbatim>\<open>CHECK\<close>s, unique indexes, numeric widths and triggers of the
  migrations.  Tables that only one component uses extend the shared record \<open>db\<close> in a record of that component.

  \<^bold>\<open>Parameters.\<close>  Code outside the repository is an argument: the record \<open>env\<close> holds the clock, the stream of random
  identifiers, division and rounding of decimals, the parsers of decimals, dates and identifiers, SHA-256 and the JSON
  printer; crates that one component uses (Argon2, AES-GCM, HKDF, base64, the TOTP check, the regular expression engine,
  the CSV reader, the content sniffer, the storage back end, the iteration order of a hash map) are arguments of its
  definitions.  A theorem that depends on one names the documented behaviour it needs as a hypothesis, and its
  witness instantiates it.  Decimals are rationals (the overflow panic of the 96-bit mantissa is outside the model);
  \<^verbatim>\<open>i32\<close> and \<^verbatim>\<open>i64\<close> arithmetic wraps by \<open>i32_wrap\<close> and \<open>i64_wrap\<close> where it can overflow; bytes are 8-bit
  words, so a hash is a list of 32 of them and has collisions like the real one; texts are lists of characters
  below 256, and byte offsets are character offsets in the ASCII texts they are used on.

  \<^bold>\<open>Loops.\<close>  Loops over data are structural recursion or \<open>try_fold\<close>; loops over dates are \<open>function\<close>s with a
  termination proof or count down the bound the source has (the 400 occurrences per template of the forecast, the
  retries of a job); the matching of sales against lots is a \<open>partial_function\<close> into \<open>option\<close>, and it is proved to
  return.  No other fuel is used.

  \<^bold>\<open>Theories.\<close>
  \<^item> \<open>OA_Prelude\<close>, \<open>Rust_Text\<close>, \<open>Rust_Split\<close>, \<open>Decimal_Rounding\<close>, \<open>Calendar\<close>, \<open>Env\<close>: results and transactions, the
    locale \<open>command_system\<close> (an invariant kept by every command holds after every sequence), texts, the locale
    \<open>rounding\<close> with its two instances, dates, the environment.
  \<^item> \<open>Chart\<close>, \<open>Db_Schema\<close>: \<^verbatim>\<open>domain/account.rs\<close>, \<^verbatim>\<open>posting.rs\<close>, \<^verbatim>\<open>ledger.rs\<close> and the migrations.
  \<^item> \<open>Audit_Chain\<close>: \<^verbatim>\<open>audit/chain.rs\<close>, \<^verbatim>\<open>audit.rs\<close>.  Appending keeps the chain clean, clean chains with one tail hash
    agree row by row unless the rows themselves show a collision of the hash, the backfill repairs a chain.
  \<^item> \<open>Job_Queue\<close>: \<^verbatim>\<open>jobs/mod.rs\<close>, \<^verbatim>\<open>jobs/events.rs\<close>, \<^verbatim>\<open>jobs/automation.rs\<close>.  Five attempts at most, dead jobs stay dead.
  \<^item> \<open>Close_Controls\<close>, \<open>Period_Close\<close>, \<open>Ledger_Access\<close>: \<^verbatim>\<open>domain/close_controls.rs\<close>, \<^verbatim>\<open>handlers/closing.rs\<close>,
    \<^verbatim>\<open>handlers/ledgers.rs\<close>, \<^verbatim>\<open>error.rs\<close>.  Watermark, gapless invoice numbers, the access matrix, closing and reopening.
  \<^item> \<open>Posting_Service\<close>, \<open>Posting_Invariants\<close>: \<^verbatim>\<open>domain/posting_service.rs\<close>.  What is stored is what was asked for, the
    books stay balanced, closed periods and the approval threshold are respected, errors leave no trace.
  \<^item> \<open>Posting_Batches\<close>: the entries that handlers write row by row.
  \<^item> \<open>Transaction_Entry\<close>, \<open>Entry_Forms\<close>, \<open>Transaction_Properties\<close>: \<^verbatim>\<open>handlers/transactions.rs\<close>,
    \<^verbatim>\<open>transactions_edit.rs\<close>, \<^verbatim>\<open>transactions_draft.rs\<close>, \<^verbatim>\<open>transactions_bulk.rs\<close>, \<^verbatim>\<open>transfers.rs\<close> and the attachment of
    documents in \<^verbatim>\<open>documents.rs\<close>.  The form reader is inverse to the form, tax legs are complete and on the side of
    their line, reversals cancel, an edit books the lines of its form, a transfer books one linked entry per ledger, closed
    periods need an override, and no sequence of requests unbalances the books while edits are balanced.
  \<^item> \<open>Fx_Rates\<close>, \<open>Fx_Revaluation\<close>: \<^verbatim>\<open>domain/fx.rs\<close>.  Lookup, the ECB feed, and a first revaluation that reaches market value.
  \<^item> \<open>Inventory_Valuation\<close>, \<open>Fixed_Assets\<close>, \<open>Investment_Lots\<close>: \<^verbatim>\<open>domain/inventory_valuation.rs\<close>,
    \<^verbatim>\<open>domain/depreciation.rs\<close>, \<^verbatim>\<open>handlers/fixed_assets.rs\<close>, \<^verbatim>\<open>domain/investment_lot.rs\<close> and their reports.  FIFO refines a
    queue of units, book values stay between salvage value and cost, sales never exceed the lots.
  \<^item> \<open>Reports\<close>, \<open>Report_Properties\<close>: \<^verbatim>\<open>reports\<close>.  The accounting equation and the trial balance.
  \<^item> \<open>Recurring_Templates\<close>, \<open>Forecast\<close>: \<^verbatim>\<open>jobs/template_run.rs\<close>, \<^verbatim>\<open>handlers/templates.rs\<close>,
    \<^verbatim>\<open>reports/cash_flow_forecast.rs\<close>.  A daily run posts what was missed, the forecast line is the running balance with its
    extremes.
  \<^item> \<open>Expense_Policies\<close>, \<open>Reimbursement\<close>, \<open>Reimbursement_Properties\<close>: \<^verbatim>\<open>domain/policies.rs\<close>,
    \<^verbatim>\<open>domain/reimbursement.rs\<close>, \<^verbatim>\<open>domain/approval_routing.rs\<close>, \<^verbatim>\<open>handlers/reimbursement.rs\<close> and
    \<^verbatim>\<open>apply\<close> of \<^verbatim>\<open>handlers/document_ocr.rs\<close>, the other writer of claim lines.  Claims follow the documented state machine,
    approvals need entitlement, the entry of a claim without tax and advances is what its lines say, caps are exact.
  \<^item> \<open>Login\<close>, \<open>Session_Security\<close>, \<open>Login_Properties\<close>, \<open>Session_Properties\<close>: \<^verbatim>\<open>auth\<close>, the session and CSRF layers and
    the rate limiters.  The throttle, single use of codes (read off the answers of the sign-in handler), signed
    cookies, the CSRF gate, the time windows.
  \<^item> \<open>Statement_Formats\<close>, \<open>Reconciliation\<close>, \<open>Reconciliation_Properties\<close>: \<^verbatim>\<open>import\<close>, \<^verbatim>\<open>handlers/reconciliation.rs\<close>,
    \<^verbatim>\<open>rec_sessions.rs\<close>, \<^verbatim>\<open>rules.rs\<close>, \<^verbatim>\<open>rules_apply.rs\<close> and their domain modules.  Closed sessions tie out and are locked, a
    second upload stores nothing, rules keep totals.

  \<^bold>\<open>How components rely on each other.\<close>  The posting service calls the close controls, the rates, the audit log and the
  queue; the handlers call the access checks through the locale \<open>access_check\<close>; each component with state over time is
  an interpretation of \<open>command_system\<close> on its own operations, and its sequence properties rest on that
  interpretation.  The entry handlers inherit the balance invariant from the posting service's interpretation.

  \<^bold>\<open>Deviations found.\<close>  Where the code does not do what its comments or specifications say, a lemma beside the properties
  shows what it does instead: \<open>transfer_drains_both\<close> (the target ledger of a transfer), \<open>unbalanced_edit_accepted\<close>,
  \<open>approval_entry_imbalance\<close> (claims with tax or advances), \<open>payout_books\<close>, \<open>totp_race_signs_in_twice\<close>,
  \<open>cash_flow_first_day\<close>, \<open>trial_balance_difference\<close>, \<open>mt940_upload_stores_one\<close>.

  \<^bold>\<open>Not modelled.\<close>  HTML rendering, redirects and static pages; OIDC sign-in (network calls and a JWT library);
  configuration, logging, metrics, object storage and backups (pure input and output); readers of the non-ASCII platform
  bills and writers of PDF, spreadsheet and archive files; the remaining handlers around tables of their own
  (invoices, budgets, contacts, inventory pages, document search).  Requests are modelled one after the other: the
  interleaving of concurrent database transactions is left to PostgreSQL's row locks.
\<close>

end
